(* ===== verification/Swan_Prelude.thy ===== *)
theory Swan_Prelude
  imports Complex_Main "HOL-Library.Word"
begin

text \<open>
  Shared vocabulary of the development: Python exceptions as values, sequencing of fallible
  steps, loops over fallible bodies, the integer and text conversions the scripts use, and the
  automation the component theories rely on.

  \<^item> \<open>py_error\<close> lists the exceptions the modelled code raises; a message keeps its constant
    text and drops the interpolated values, except the source line of a trace diagnostic. An
    \<open>OSError\<close> raised by a file system call carries its error number, so \<open>FileNotFoundError\<close> is
    \<open>OsErrno ENOENT\<close> and \<open>FileExistsError\<close> is \<open>OsErrno EEXIST\<close>.
  \<^item> \<open>'a res\<close> is the result of a Python call: an exception or a value.
  \<^item> \<open>rbind\<close> is "call, then continue"; \<open>fold_res\<close> is a \<open>for\<close> loop whose body may raise.
  \<^item> \<open>res_machine\<close> is the interface between a loop body and the invariants of the loop.
\<close>

section \<open>Results\<close>

datatype errno =
    ENOENT | EEXIST | ENOTDIR | EISDIR | ELOOP | EINVAL | ENOSYS | ENOTSUP | EPERM | EBADF
  | Errno int

datatype py_error =
    ValueError string
  | LineError int string
  | AssertionError string
  | RuntimeError string
  | TimeoutError string
  | DeviceError int
  | IndexError
  | StructError
  | OSError string
  | ArgumentTypeError string
  | TypeError
  | AttributeError
  | RecursionError
  | KeyError string
  | MigrationError string
  | PresetError string
  | StagingError string
  | SessionError string
  | UnicodeError
  | OsErrno errno

type_synonym 'a res = "py_error + 'a"

type_synonym byte = "8 word"

named_theorems res_simps \<open>equations that take a successful result apart\<close>

definition rbind :: "'a res \<Rightarrow> ('a \<Rightarrow> 'b res) \<Rightarrow> 'b res" where
  "rbind m f = (case m of Inl e \<Rightarrow> Inl e | Inr x \<Rightarrow> f x)"

definition ensure :: "bool \<Rightarrow> py_error \<Rightarrow> unit res" where
  "ensure ok e = (if ok then Inr () else Inl e)"

lemma rbind_simps [simp]:
  "rbind (Inl e) f = Inl e"
  "rbind (Inr x) f = f x"
  by (simp_all add: rbind_def)

lemma rbind_eq_Inr [res_simps]: "rbind m f = Inr y \<longleftrightarrow> (\<exists>x. m = Inr x \<and> f x = Inr y)"
  by (cases m) auto

lemma rbind_cong [fundef_cong]:
  "m = m' \<Longrightarrow> (\<And>x. m' = Inr x \<Longrightarrow> f x = f' x) \<Longrightarrow> rbind m f = rbind m' f'"
  by (cases m') auto

lemma ensure_eq_Inr [res_simps]: "ensure ok e = Inr u \<longleftrightarrow> ok"
  by (simp add: ensure_def)

lemma ensure_simps [simp]:
  "ensure True e = Inr ()"
  "ensure False e = Inl e"
  by (simp_all add: ensure_def)

lemma if_Inl_eq_Inr [res_simps]: "(if b then Inl e else m) = Inr y \<longleftrightarrow> \<not> b \<and> m = Inr y"
  by simp

lemma case_option_Inl_eq_Inr [res_simps]:
  "(case v of None \<Rightarrow> Inl e | Some x \<Rightarrow> f x) = Inr y \<longleftrightarrow> (\<exists>x. v = Some x \<and> f x = Inr y)"
  by (cases v) auto

definition isOk :: "'a res \<Rightarrow> bool" where
  "isOk r = (case r of Inl _ \<Rightarrow> False | Inr _ \<Rightarrow> True)"

lemma isOk_simps [simp]: "isOk (Inr x)" "\<not> isOk (Inl e)"
  by (simp_all add: isOk_def)

lemma isOk_iff: "isOk r \<longleftrightarrow> (\<exists>x. r = Inr x)"
  by (cases r) auto

section \<open>Loops\<close>

fun fold_res :: "('e \<Rightarrow> 's \<Rightarrow> 's res) \<Rightarrow> 'e list \<Rightarrow> 's \<Rightarrow> 's res" where
  "fold_res f [] s = Inr s"
| "fold_res f (x # xs) s = rbind (f x s) (fold_res f xs)"

lemma fold_res_append: "fold_res f (xs @ ys) s = rbind (fold_res f xs s) (fold_res f ys)"
proof (induction xs arbitrary: s)
  case Nil
  then show ?case by simp
next
  case (Cons x xs)
  then show ?case by (cases "f x s") auto
qed

lemma fold_res_snoc: "fold_res f (xs @ [x]) s = rbind (fold_res f xs s) (f x)"
  by (cases "fold_res f xs s"; cases "f x s") (auto simp: fold_res_append rbind_def split: sum.splits)

lemma fold_res_cong [fundef_cong]:
  "xs = ys \<Longrightarrow> s = t \<Longrightarrow> (\<And>x u. x \<in> set ys \<Longrightarrow> f x u = g x u) \<Longrightarrow> fold_res f xs s = fold_res g ys t"
proof (induction xs arbitrary: ys s t)
  case Nil
  then show ?case by auto
next
  case (Cons x xs)
  from Cons.prems have ys: "ys = x # xs" by simp
  have fx: "f x u = g x u" for u using Cons.prems(3) ys by simp
  have "fold_res f xs u = fold_res g xs u" for u
    using Cons.IH [of xs u u] Cons.prems(3) ys by simp
  then have "fold_res f xs = fold_res g xs" by (rule ext)
  then show ?case using ys Cons.prems(2) fx by simp
qed

text \<open>
  The interface of a loop body: an invariant it keeps, relative to what is known of the elements.
  What the loop ends with then satisfies the invariant, and so does every state it went through.
\<close>

locale res_machine =
  fixes step :: "'e \<Rightarrow> 's \<Rightarrow> 's res"
    and inv :: "'s \<Rightarrow> bool"
  assumes step_inv: "inv s \<Longrightarrow> step x s = Inr s' \<Longrightarrow> inv s'"
begin

lemma run_inv: "inv s \<Longrightarrow> fold_res step xs s = Inr s' \<Longrightarrow> inv s'"
proof (induction xs arbitrary: s)
  case Nil
  then show ?case by simp
next
  case (Cons x xs)
  then obtain t where "step x s = Inr t" "fold_res step xs t = Inr s'"
    by (auto simp: res_simps)
  then show ?case using Cons.IH Cons.prems(1) step_inv by blast
qed

lemma run_inv_prefix:
  assumes "inv s" and "fold_res step (xs @ ys) s = Inr s'"
  shows "\<exists>t. fold_res step xs s = Inr t \<and> inv t \<and> fold_res step ys t = Inr s'"
  using assms run_inv by (auto simp: fold_res_append res_simps)

end

text \<open>A quantity to which every element adds its weight.\<close>

locale res_counter = res_machine step inv
  for step :: "'e \<Rightarrow> 's \<Rightarrow> 's res" and inv :: "'s \<Rightarrow> bool" +
  fixes total :: "'s \<Rightarrow> int"
    and weight :: "'e \<Rightarrow> int"
  assumes step_total: "inv s \<Longrightarrow> step x s = Inr s' \<Longrightarrow> total s' = total s + weight x"
begin

lemma run_total: "inv s \<Longrightarrow> fold_res step xs s = Inr s' \<Longrightarrow> total s' = total s + sum_list (map weight xs)"
proof (induction xs arbitrary: s)
  case Nil
  then show ?case by simp
next
  case (Cons x xs)
  then obtain t where t: "step x s = Inr t" "fold_res step xs t = Inr s'"
    by (auto simp: res_simps)
  show ?case
    using Cons.IH [OF step_inv [OF Cons.prems(1) t(1)] t(2)] step_total [OF Cons.prems(1) t(1)] by simp
qed

end

text \<open>Relating two loops over the same list: a simulation.\<close>

lemma fold_res_simulation:
  assumes "\<And>x s t s'. R s t \<Longrightarrow> f x s = Inr s' \<Longrightarrow> R s' (g x t)"
  shows "R s t \<Longrightarrow> fold_res f xs s = Inr s' \<Longrightarrow> R s' (fold g xs t)"
proof (induction xs arbitrary: s t)
  case Nil
  then show ?case by simp
next
  case (Cons x xs)
  then obtain u where u: "f x s = Inr u" "fold_res f xs u = Inr s'"
    by (auto simp: res_simps)
  have "R u (g x t)" using assms Cons.prems(1) u(1) by blast
  then show ?case using Cons.IH u(2) by simp
qed

fun map_res :: "('a \<Rightarrow> 'b res) \<Rightarrow> 'a list \<Rightarrow> 'b list res" where
  "map_res f [] = Inr []"
| "map_res f (x # xs) = rbind (f x) (\<lambda>y. rbind (map_res f xs) (\<lambda>ys. Inr (y # ys)))"

lemma map_res_Inr: "map_res f xs = Inr ys \<longleftrightarrow> list_all2 (\<lambda>x y. f x = Inr y) xs ys"
proof (induction xs arbitrary: ys)
  case Nil
  then show ?case by auto
next
  case (Cons x xs)
  then show ?case by (auto simp: res_simps list_all2_Cons1)
qed

section \<open>Text\<close>

definition char_code :: "char \<Rightarrow> nat" where
  "char_code c = of_char c"

definition is_space :: "char \<Rightarrow> bool" where
  "is_space c = (let n = char_code c in n = 32 \<or> (9 \<le> n \<and> n \<le> 13) \<or> (28 \<le> n \<and> n \<le> 31))"

fun lstrip :: "string \<Rightarrow> string" where
  "lstrip [] = []"
| "lstrip (c # cs) = (if is_space c then lstrip cs else c # cs)"

definition strip :: "string \<Rightarrow> string" where
  "strip s = rev (lstrip (rev (lstrip s)))"

definition digit_val :: "nat \<Rightarrow> char \<Rightarrow> nat option" where
  "digit_val base c =
     (let n = char_code c;
          v = (if 48 \<le> n \<and> n \<le> 57 then n - 48
               else if 65 \<le> n \<and> n \<le> 90 then n - 55
               else if 97 \<le> n \<and> n \<le> 122 then n - 87 else 99)
      in if v < base then Some v else None)"

text \<open>The digits of an \<open>int()\<close> argument; a single underscore may separate two digits.\<close>

fun digits_val :: "nat \<Rightarrow> bool \<Rightarrow> nat \<Rightarrow> string \<Rightarrow> nat option" where
  "digits_val base prev acc [] = (if prev then Some acc else None)"
| "digits_val base prev acc (c # cs) =
     (if c = CHR ''_'' then (if prev then digits_val base False acc cs else None)
      else case digit_val base c of None \<Rightarrow> None
           | Some v \<Rightarrow> digits_val base True (acc * base + v) cs)"

definition py_int10 :: "string \<Rightarrow> int option" where
  "py_int10 s =
     (case strip s of
        [] \<Rightarrow> None
      | c # cs \<Rightarrow>
          if c = CHR ''-'' then map_option (\<lambda>n. - int n) (digits_val 10 False 0 cs)
          else if c = CHR ''+'' then map_option int (digits_val 10 False 0 cs)
          else map_option int (digits_val 10 False 0 (c # cs)))"

definition digit_char :: "nat \<Rightarrow> char" where
  "digit_char d = (if d < 10 then char_of (48 + d) else char_of (87 + d))"

fun show_nat_base :: "nat \<Rightarrow> nat \<Rightarrow> string" where
  "show_nat_base b n =
     (if b \<le> 1 \<or> n < b then [digit_char n] else show_nat_base b (n div b) @ [digit_char (n mod b)])"

declare show_nat_base.simps [simp del]

definition py_str :: "int \<Rightarrow> string" where
  "py_str i = (if i < 0 then CHR ''-'' # show_nat_base 10 (nat (- i)) else show_nat_base 10 (nat i))"

text \<open>\<open>f"{value:0Wx}"\<close>: at least \<open>w\<close> hexadecimal digits.\<close>

definition py_hex :: "nat \<Rightarrow> nat \<Rightarrow> string" where
  "py_hex w n = (let s = show_nat_base 16 n in replicate (w - length s) (CHR ''0'') @ s)"

lemma char_code_digit_char: "d < 16 \<Longrightarrow> char_code (digit_char d) = (if d < 10 then 48 + d else 87 + d)"
  by (simp add: char_code_def digit_char_def)

lemma digit_val_digit_char: "d < base \<Longrightarrow> base \<le> 16 \<Longrightarrow> digit_val base (digit_char d) = Some d"
  by (simp add: digit_val_def char_code_digit_char Let_def)

lemma digit_char_not_sign:
  assumes "d < 16"
  shows "digit_char d \<noteq> CHR ''_''" "digit_char d \<noteq> CHR ''-''" "digit_char d \<noteq> CHR ''+''"
    "\<not> is_space (digit_char d)"
proof -
  have c: "char_code (digit_char d) = (if d < 10 then 48 + d else 87 + d)"
    using assms by (rule char_code_digit_char)
  have "char_code CHR ''_'' = 95" "char_code CHR ''-'' = 45" "char_code CHR ''+'' = 43"
    by (simp_all add: char_code_def)
  then show "digit_char d \<noteq> CHR ''_''" "digit_char d \<noteq> CHR ''-''" "digit_char d \<noteq> CHR ''+''"
    using c assms by (auto split: if_splits)
  show "\<not> is_space (digit_char d)" using c by (auto simp: is_space_def Let_def)
qed

lemma digits_val_digits:
  assumes "b \<le> 16"
  shows "set cs \<subseteq> digit_char ` {..<b} \<Longrightarrow> cs \<noteq> [] \<Longrightarrow>
    digits_val b l acc cs = Some (foldl (\<lambda>a c. a * b + the (digit_val b c)) acc cs)"
proof (induction cs arbitrary: l acc)
  case Nil
  then show ?case by simp
next
  case (Cons x xs)
  then obtain d where d: "d < b" "x = digit_char d" by auto
  then have "digit_val b x = Some d" "x \<noteq> CHR ''_''"
    using assms by (simp_all add: digit_val_digit_char digit_char_not_sign)
  then show ?case using Cons by (cases "xs = []") auto
qed

lemma show_nat_base_digits:
  "1 < b \<Longrightarrow> b \<le> 16 \<Longrightarrow> set (show_nat_base b n) \<subseteq> digit_char ` {..<b} \<and> show_nat_base b n \<noteq> []"
proof (induction b n rule: show_nat_base.induct)
  case (1 b n)
  then show ?case by (subst (1 2) show_nat_base.simps) (auto simp: not_less)
qed

lemma show_nat_base_value:
  "1 < b \<Longrightarrow> b \<le> 16 \<Longrightarrow> foldl (\<lambda>a c. a * b + the (digit_val b c)) 0 (show_nat_base b n) = n"
proof (induction b n rule: show_nat_base.induct)
  case (1 b n)
  then show ?case
    by (subst show_nat_base.simps) (auto simp: digit_val_digit_char)
qed

lemma digits_val_show:
  "1 < b \<Longrightarrow> b \<le> 16 \<Longrightarrow> digits_val b l 0 (show_nat_base b n) = Some n"
  using digits_val_digits [of b "show_nat_base b n" l 0] show_nat_base_digits [of b n]
  by (simp add: show_nat_base_value)

lemma lstrip_id: "(case s of [] \<Rightarrow> True | c # _ \<Rightarrow> \<not> is_space c) \<Longrightarrow> lstrip s = s"
  by (cases s) auto

lemma strip_id:
  assumes "\<And>c. c \<in> set s \<Longrightarrow> \<not> is_space c"
  shows "strip s = s"
proof -
  have "lstrip t = t" if "set t = set s" for t
    using that assms by (cases t) auto
  then show ?thesis by (simp add: strip_def)
qed

text \<open>What \<open>str()\<close> prints, \<open>int()\<close> reads back.\<close>

lemma py_int10_str: "py_int10 (py_str i) = Some i"
proof -
  let ?s = "show_nat_base 10 (nat \<bar>i\<bar>)"
  have sub: "set ?s \<subseteq> digit_char ` {..<10}" and ne: "?s \<noteq> []"
    using show_nat_base_digits [of 10 "nat \<bar>i\<bar>"] by auto
  have dig: "\<exists>d<10. c = digit_char d" if "c \<in> set ?s" for c
    using sub that by blast
  have nsp: "\<not> is_space c" and sgn: "c \<noteq> CHR ''-'' \<and> c \<noteq> CHR ''+''" if "c \<in> set ?s" for c
  proof -
    from dig [OF that] obtain d where d: "d < 10" "c = digit_char d" by blast
    then have "d < 16" by simp
    then show "\<not> is_space c" "c \<noteq> CHR ''-'' \<and> c \<noteq> CHR ''+''"
      unfolding d(2) using digit_char_not_sign by blast+
  qed
  have val: "digits_val 10 False 0 ?s = Some (nat \<bar>i\<bar>)" by (rule digits_val_show) auto
  show ?thesis
  proof (cases "i < 0")
    case True
    have "\<not> is_space CHR ''-''" by (simp add: is_space_def char_code_def)
    then have "strip (CHR ''-'' # ?s) = CHR ''-'' # ?s" using nsp by (intro strip_id) auto
    then show ?thesis using True val by (simp add: py_int10_def py_str_def)
  next
    case False
    have "strip ?s = ?s" using nsp by (rule strip_id)
    moreover obtain c cs where "?s = c # cs" using ne by (cases ?s) auto
    ultimately show ?thesis using False val sgn by (auto simp: py_int10_def py_str_def)
  qed
qed

text \<open>Leading zeros do not change the value, so a hexadecimal rendering determines the number.\<close>

lemma py_hex_value: "foldl (\<lambda>a c. a * 16 + the (digit_val 16 c)) 0 (py_hex w n) = n"
proof -
  have "foldl (\<lambda>a c. a * 16 + the (digit_val 16 c)) 0 (replicate k (CHR ''0'')) = 0" for k
    by (induction k) (simp_all add: digit_val_def char_code_def)
  then show ?thesis by (simp add: py_hex_def Let_def show_nat_base_value)
qed

lemma py_hex_inj: "py_hex w m = py_hex w n \<Longrightarrow> m = n"
  by (metis py_hex_value)

end
