(* ===== verification/Checksums.thy ===== *)
theory Checksums
  imports Swan_Prelude
begin

unbundle bit_operations_syntax

text \<open>
  The three checksums of the repository, translated from their Python loops over unbounded
  integers, and their refinement to fixed-width words:
  \<^item> \<open>crc16_ccitt\<close>: the cartridge-service frame checksum
    (\<^verbatim>\<open>firmware/yokoi-cart-service/tools/yokoi_cart.py\<close>);
  \<^item> \<open>update_byte\<close>, \<open>update_bytes\<close>: the CRC-64/ECMA-182 reference of the save-state stream
    (\<^verbatim>\<open>sim/rtl/generate_apf_crc64_ecma32_vectors.py\<close>), with the transaction driver \<open>Vectors\<close>;
  \<^item> \<open>fnv1a64\<close>: the digest that binds traces and frames to their manifest
    (\<^verbatim>\<open>sim/verilator/frame_manifest.py\<close>, \<^verbatim>\<open>correlate_provenance.py\<close>).
  The locale \<open>byte_checksum\<close> states what a byte-fed checksum promises (each step is injective in
  the state and in the byte) and derives that no change of a single byte goes undetected.
\<close>

section \<open>The contract of a byte-fed checksum\<close>

locale byte_checksum =
  fixes upd :: "'s \<Rightarrow> 'b \<Rightarrow> 's"
  assumes inj_state: "upd s b = upd t b \<Longrightarrow> s = t"
    and inj_byte: "upd s a = upd s b \<Longrightarrow> a = b"
begin

lemma run_inj_state: "foldl upd s xs = foldl upd t xs \<Longrightarrow> s = t"
  by (induction xs arbitrary: s t) (auto dest: inj_state)

lemma run_change_detected:
  assumes "a \<noteq> b"
  shows "foldl upd s (xs @ a # ys) \<noteq> foldl upd s (xs @ b # ys)"
  using assms by (auto dest!: run_inj_state inj_byte)

lemma run_common_suffix:
  "foldl upd s (xs @ zs) = foldl upd s (ys @ zs) \<longleftrightarrow> foldl upd s xs = foldl upd s ys"
  by (auto dest: run_inj_state)

end

section \<open>Shift registers\<close>

text \<open>One bit of a left-shifting CRC register of any width, as the RTL has it.\<close>

definition crc_shift :: "'a::len word \<Rightarrow> 'a word \<Rightarrow> 'a word" where
  "crc_shift poly c = (if bit c (LENGTH('a) - 1) then push_bit 1 c XOR poly else push_bit 1 c)"

definition crc_feed :: "'a::len word \<Rightarrow> 'a word \<Rightarrow> byte \<Rightarrow> 'a word" where
  "crc_feed poly c v = (crc_shift poly ^^ 8) (c XOR push_bit (LENGTH('a) - 8) (ucast v))"

lemma bit_push_1: "bit (push_bit 1 (c :: 'a::len word)) n \<longleftrightarrow> 0 < n \<and> n < LENGTH('a) \<and> bit c (n - 1)"
  by (subst bit_push_bit_iff) (auto dest: bit_imp_le_length)

lemma xor_cancel: "(a :: 'a::len word) XOR b = c XOR b \<Longrightarrow> a = c" "b XOR a = b XOR c \<Longrightarrow> a = c"
  by (metis xor.assoc xor.right_neutral xor_self_eq, metis xor.assoc xor.left_neutral xor_self_eq)

lemma crc_shift_inj:
  assumes poly: "bit (poly :: 'a::len word) 0" and eq: "crc_shift poly c = crc_shift poly d"
  shows "c = d"
proof -
  have b0: "bit (crc_shift poly x) 0 \<longleftrightarrow> bit x (LENGTH('a) - 1)" for x
    using poly by (simp only: crc_shift_def bit_xor_iff bit_push_1 split: if_split) simp
  have top: "bit c (LENGTH('a) - 1) \<longleftrightarrow> bit d (LENGTH('a) - 1)" using b0 [of c] b0 [of d] eq by simp
  have sh: "push_bit 1 c = push_bit 1 d"
    using eq top by (auto simp: crc_shift_def dest: xor_cancel(1) split: if_splits)
  show ?thesis
  proof (rule bit_word_eqI)
    fix n assume n: "n < LENGTH('a)"
    show "bit c n \<longleftrightarrow> bit d n"
    proof (cases "n = LENGTH('a) - 1")
      case True
      then show ?thesis using top by simp
    next
      case False
      with n have "Suc n < LENGTH('a)" by simp
      then show ?thesis using arg_cong [OF sh, of "\<lambda>x. bit x (Suc n)"] by (simp only: bit_push_1) simp
    qed
  qed
qed

lemma crc_shift_pow_inj:
  "bit (poly :: 'a::len word) 0 \<Longrightarrow> (crc_shift poly ^^ k) c = (crc_shift poly ^^ k) d \<Longrightarrow> c = d"
  by (induction k) (auto dest: crc_shift_inj)

lemma push_ucast_inj:
  assumes "8 \<le> LENGTH('a)" and eq: "push_bit (LENGTH('a) - 8) (ucast (a :: byte) :: 'a::len word) =
    push_bit (LENGTH('a) - 8) (ucast b)"
  shows "a = b"
proof (rule bit_word_eqI)
  fix n assume n: "n < LENGTH(8)"
  let ?k = "LENGTH('a) - 8"
  have "bit (push_bit ?k (ucast x :: 'a word)) (?k + n) \<longleftrightarrow> bit x n" for x :: byte
    using assms(1) n by (auto simp: bit_push_bit_iff bit_ucast_iff)
  then show "bit a n \<longleftrightarrow> bit b n" using eq by metis
qed

lemma crc_feed_checksum:
  assumes "bit (poly :: 'a::len word) 0" and "8 \<le> LENGTH('a)"
  shows "byte_checksum (crc_feed poly :: 'a word \<Rightarrow> byte \<Rightarrow> 'a word)"
proof
  show "s = t" if "crc_feed poly s b = crc_feed poly t b" for s t :: "'a word" and b
    using crc_shift_pow_inj [OF assms(1)] that xor_cancel(1) unfolding crc_feed_def by blast
  show "a = b" if "crc_feed poly s a = crc_feed poly s b" for s :: "'a word" and a b
    using crc_shift_pow_inj [OF assms(1)] that xor_cancel(2) push_ucast_inj [OF assms(2)]
    unfolding crc_feed_def by blast
qed

section \<open>From Python integers to registers\<close>

text \<open>
  \<open>((crc << 1) ^ poly) & mask\<close> on an unbounded integer is one shift of the register that the
  integer represents.
\<close>

lemma uint_and_mask_word: "uint (word_of_int x :: 'a::len word) = x AND mask LENGTH('a)"
  by (simp add: take_bit_eq_mask uint_word_of_int_eq)

lemma word_of_int_push_bit: "(word_of_int (push_bit n x) :: 'a::len word) = push_bit n (word_of_int x)"
  by (simp add: push_bit_eq_mult)

lemma word_of_int_xor: "(word_of_int (x XOR y) :: 'a::len word) = word_of_int x XOR word_of_int y"
  by (rule bit_word_eqI) (simp add: bit_xor_iff bit_of_int_iff)

lemma and_power_of_two_iff: "(x :: int) AND 2 ^ n \<noteq> 0 \<longleftrightarrow> bit x n"
  by (metis and_exp_eq_0_iff_not_bit)

lemma py_shift_refines:
  "(if x AND 2 ^ (LENGTH('a) - 1) \<noteq> 0 then (push_bit 1 x XOR p) AND mask LENGTH('a)
    else push_bit 1 x AND mask LENGTH('a))
   = uint (crc_shift (word_of_int p) (word_of_int x :: 'a::len word))"
proof -
  have top: "x AND 2 ^ (LENGTH('a) - 1) \<noteq> 0 \<longleftrightarrow> bit (word_of_int x :: 'a word) (LENGTH('a) - 1)"
    using and_power_of_two_iff [of x "LENGTH('a) - 1"] by (simp add: bit_word_of_int_iff)
  show ?thesis
    unfolding crc_shift_def uint_and_mask_word [symmetric] top
    by (simp only: word_of_int_xor word_of_int_push_bit split: if_split) simp
qed

lemma funpow_refines:
  fixes g :: "'a::len word \<Rightarrow> 'a word"
  assumes "\<And>x. f x = uint (g (word_of_int x))" and "0 < k"
  shows "(f ^^ k) x = uint ((g ^^ k) (word_of_int x))"
  using assms(2)
proof (induction k)
  case 0
  then show ?case by simp
next
  case (Suc k)
  show ?case
  proof (cases "k = 0")
    case True
    then show ?thesis using assms(1) [of x] by simp
  next
    case False
    then have "(f ^^ k) x = uint ((g ^^ k) (word_of_int x))" using Suc.IH by simp
    then show ?thesis using assms(1) [of "uint ((g ^^ k) (word_of_int x))"] by simp
  qed
qed

lemma word_of_int_feed:
  "word_of_int (crc XOR push_bit n (uint (v :: byte))) =
   (word_of_int crc XOR push_bit n (ucast v) :: 'a::len word)"
  by (simp only: word_of_int_xor word_of_int_push_bit ucast_eq)

lemma foldl_refines:
  fixes g :: "'a::len word \<Rightarrow> 'b \<Rightarrow> 'a word"
  assumes "\<And>c v. f c v = uint (g (word_of_int c) v)"
    and "0 \<le> c" and "c < 2 ^ LENGTH('a)"
  shows "foldl f c xs = uint (foldl g (word_of_int c) xs)"
  using assms(2,3)
proof (induction xs arbitrary: c)
  case Nil
  then show ?case by (simp add: uint_word_of_int_eq take_bit_int_eq_self)
next
  case (Cons x xs)
  have "foldl f (f c x) xs = uint (foldl g (word_of_int (f c x)) xs)"
    by (rule Cons.IH) (simp_all only: assms(1) uint_bounded unsigned_greater_eq)
  moreover have "word_of_int (f c x) = g (word_of_int c) x"
    using assms(1) [of c x] by simp
  ultimately show ?case by simp
qed

section \<open>CRC-16 of the cartridge service\<close>

definition crc16_bit :: "int \<Rightarrow> int" where
  "crc16_bit crc =
     (if crc AND 0x8000 \<noteq> 0 then (push_bit 1 crc XOR 0x1021) AND 0xFFFF
      else push_bit 1 crc AND 0xFFFF)"

definition crc16_ccitt :: "byte list \<Rightarrow> int \<Rightarrow> int" where
  "crc16_ccitt data initial =
     foldl (\<lambda>crc v. (crc16_bit ^^ 8) (crc XOR push_bit 8 (uint v))) initial data"

lemma funpow_8: "(f ^^ 8) x = f (f (f (f (f (f (f (f x)))))))"
  by (simp add: eval_nat_numeral)

interpretation crc16: byte_checksum "crc_feed (0x1021 :: 16 word)"
  by (rule crc_feed_checksum) simp_all

lemma crc16_bit_refines: "crc16_bit x = uint (crc_shift 0x1021 (word_of_int x :: 16 word))"
proof -
  have m: "(0xFFFF :: int) = mask LENGTH(16)" by (simp add: mask_eq_exp_minus_1)
  have t: "(0x8000 :: int) = 2 ^ (LENGTH(16) - 1)" by simp
  have p: "(0x1021 :: 16 word) = word_of_int 0x1021" by simp
  show ?thesis unfolding crc16_bit_def m t p by (rule py_shift_refines)
qed

lemma crc16_ccitt_refines:
  assumes "0 \<le> initial" and "initial < 0x10000"
  shows "crc16_ccitt data initial = uint (foldl (crc_feed (0x1021 :: 16 word)) (word_of_int initial) data)"
proof -
  have "(crc16_bit ^^ 8) (c XOR push_bit 8 (uint v)) = uint (crc_feed (0x1021 :: 16 word) (word_of_int c) v)" for c v
    using funpow_refines [where f = crc16_bit and g = "crc_shift (0x1021 :: 16 word)" and k = 8
        and x = "c XOR push_bit 8 (uint v)", OF crc16_bit_refines]
    unfolding word_of_int_feed by (simp add: crc_feed_def)
  then show ?thesis unfolding crc16_ccitt_def by (rule foldl_refines) (use assms in simp_all)
qed

lemma crc16_ccitt_range:
  assumes "0 \<le> initial" and "initial < 0x10000"
  shows "0 \<le> crc16_ccitt data initial \<and> crc16_ccitt data initial < 0x10000"
  unfolding crc16_ccitt_refines [OF assms]
  using uint_bounded [of "foldl (crc_feed (0x1021 :: 16 word)) (word_of_int initial) data"] by simp

lemma crc16_ccitt_append:
  "crc16_ccitt (xs @ ys) initial = crc16_ccitt ys (crc16_ccitt xs initial)"
  by (simp add: crc16_ccitt_def)

lemma crc16_change_detected:
  assumes "0 \<le> initial" and "initial < 0x10000" and "a \<noteq> b"
  shows "crc16_ccitt (xs @ a # ys) initial \<noteq> crc16_ccitt (xs @ b # ys) initial"
  unfolding crc16_ccitt_refines [OF assms(1,2)] using crc16.run_change_detected [OF assms(3)]
  by (metis word_uint_eq_iff)

section \<open>CRC-64/ECMA-182 of the save-state stream\<close>

definition POLYNOMIAL :: int where "POLYNOMIAL = 0x42F0E1EBA9EA3693"

definition MASK64 :: int where "MASK64 = 2 ^ 64 - 1"

definition crc64_bit :: "int \<Rightarrow> int" where
  "crc64_bit crc =
     (if crc AND 2 ^ 63 \<noteq> 0 then (push_bit 1 crc XOR POLYNOMIAL) AND MASK64
      else push_bit 1 crc AND MASK64)"

definition update_byte :: "int \<Rightarrow> byte \<Rightarrow> int" where
  "update_byte crc v = (crc64_bit ^^ 8) (crc XOR push_bit 56 (uint v))"

definition update_bytes :: "int \<Rightarrow> byte list \<Rightarrow> int" where
  "update_bytes crc payload = foldl update_byte crc payload"

interpretation crc64: byte_checksum "crc_feed (0x42F0E1EBA9EA3693 :: 64 word)"
  by (rule crc_feed_checksum) simp_all

lemma crc64_bit_refines: "crc64_bit x = uint (crc_shift 0x42F0E1EBA9EA3693 (word_of_int x :: 64 word))"
proof -
  have m: "MASK64 = mask LENGTH(64)" by (simp add: MASK64_def mask_eq_exp_minus_1)
  have t: "(2 :: int) ^ 63 = 2 ^ (LENGTH(64) - 1)" by simp
  have p: "(0x42F0E1EBA9EA3693 :: 64 word) = word_of_int POLYNOMIAL" by (simp add: POLYNOMIAL_def)
  show ?thesis unfolding crc64_bit_def m t p by (rule py_shift_refines)
qed

lemma update_byte_refines:
  "update_byte c v = uint (crc_feed (0x42F0E1EBA9EA3693 :: 64 word) (word_of_int c) v)"
  using funpow_refines [where f = crc64_bit and g = "crc_shift (0x42F0E1EBA9EA3693 :: 64 word)"
      and k = 8 and x = "c XOR push_bit 56 (uint v)", OF crc64_bit_refines]
  unfolding word_of_int_feed by (simp add: crc_feed_def update_byte_def)

lemma update_bytes_refines:
  assumes "0 \<le> crc" and "crc < 2 ^ 64"
  shows "update_bytes crc data =
    uint (foldl (crc_feed (0x42F0E1EBA9EA3693 :: 64 word)) (word_of_int crc) data)"
  unfolding update_bytes_def
  by (rule foldl_refines) (use assms in \<open>simp_all add: update_byte_refines\<close>)

lemma update_bytes_append: "update_bytes crc (xs @ ys) = update_bytes (update_bytes crc xs) ys"
  by (simp add: update_bytes_def)

lemma update_bytes_Nil [simp]: "update_bytes crc [] = crc"
  by (simp add: update_bytes_def)


lemma update_bytes_range:
  assumes "0 \<le> crc" and "crc < 2 ^ 64"
  shows "0 \<le> update_bytes crc data \<and> update_bytes crc data < 2 ^ 64"
  unfolding update_bytes_refines [OF assms]
  using uint_bounded [of "foldl (crc_feed (0x42F0E1EBA9EA3693 :: 64 word)) (word_of_int crc) data"] by simp

lemma crc64_change_detected:
  assumes "0 \<le> crc" and "crc < 2 ^ 64" and "a \<noteq> b"
  shows "update_bytes crc (xs @ a # ys) \<noteq> update_bytes crc (xs @ b # ys)"
  unfolding update_bytes_refines [OF assms(1,2)] using crc64.run_change_detected [OF assms(3)]
  by (metis word_uint_eq_iff)

subsection \<open>The transaction driver\<close>

text \<open>
  \<open>Vectors\<close> writes one line per RTL clock: operation, data word, byte count, expected CRC. The
  random generator is a parameter: \<open>raw n\<close> is its \<open>n\<close>-th draw, any natural number, and the
  position is part of the state; \<open>randrange lo hi\<close> reduces a draw into \<open>lo..<hi\<close> and
  \<open>getrandbits k\<close> into \<open>k\<close> bits.
\<close>

datatype vop = CLEAR | ENABLE | HOLD | CLEAR_AND_ENABLE | ASYNC_RESET

record vector_line =
  v_op :: vop
  v_word :: int
  v_count :: int
  v_crc :: int

record vectors =
  rng :: nat
  vcrc :: int
  vlines :: "vector_line list"

definition vectors_init :: vectors where
  "vectors_init = \<lparr>rng = 0, vcrc = 0, vlines = []\<rparr>"

definition randrange :: "(nat \<Rightarrow> nat) \<Rightarrow> int \<Rightarrow> int \<Rightarrow> vectors \<Rightarrow> int \<times> vectors" where
  "randrange raw lo hi v = (lo + int (raw (rng v)) mod (hi - lo), v\<lparr>rng := rng v + 1\<rparr>)"

definition getrandbits :: "(nat \<Rightarrow> nat) \<Rightarrow> nat \<Rightarrow> vectors \<Rightarrow> int \<times> vectors" where
  "getrandbits raw k v = randrange raw 0 (2 ^ k) v"

definition emit :: "vop \<Rightarrow> int \<Rightarrow> int \<Rightarrow> vectors \<Rightarrow> vectors" where
  "emit operation word count v =
     v\<lparr>vlines := vlines v @ [\<lparr>v_op = operation, v_word = word, v_count = count, v_crc = vcrc v\<rparr>]\<rparr>"

definition emit_random :: "(nat \<Rightarrow> nat) \<Rightarrow> vop \<Rightarrow> int \<Rightarrow> vectors \<Rightarrow> vectors" where
  "emit_random raw operation bound v =
     (let (word, v1) = getrandbits raw 32 v; (count, v2) = randrange raw 0 bound v1
      in emit operation word count v2)"

definition vclear :: "(nat \<Rightarrow> nat) \<Rightarrow> vectors \<Rightarrow> vectors" where
  "vclear raw v = emit_random raw CLEAR 8 (v\<lparr>vcrc := 0\<rparr>)"

definition clear_and_enable :: "(nat \<Rightarrow> nat) \<Rightarrow> vectors \<Rightarrow> vectors" where
  "clear_and_enable raw v = emit_random raw CLEAR_AND_ENABLE 5 (v\<lparr>vcrc := 0\<rparr>)"

definition async_reset :: "(nat \<Rightarrow> nat) \<Rightarrow> vectors \<Rightarrow> vectors" where
  "async_reset raw v = emit_random raw ASYNC_RESET 8 (v\<lparr>vcrc := 0\<rparr>)"

definition hold :: "(nat \<Rightarrow> nat) \<Rightarrow> vectors \<Rightarrow> vectors" where
  "hold raw v = emit_random raw HOLD 8 v"

text \<open>The word carries the payload in its most significant bytes, the rest stays random.\<close>

fun place_bytes :: "nat \<Rightarrow> byte list \<Rightarrow> int \<Rightarrow> int" where
  "place_bytes index [] word = word"
| "place_bytes index (v # vs) word =
     (let shift = 24 - 8 * index
      in place_bytes (Suc index) vs ((word AND NOT (push_bit shift 0xFF)) OR push_bit shift (uint v)))"

definition consume :: "(nat \<Rightarrow> nat) \<Rightarrow> byte list \<Rightarrow> vectors \<Rightarrow> vectors res" where
  "consume raw payload v =
     (if length payload > 4 then Inl (ValueError ''one RTL transaction can contain at most four bytes'')
      else let (poison, v1) = getrandbits raw 32 v;
               word = place_bytes 0 payload poison;
               v2 = v1\<lparr>vcrc := update_bytes (vcrc v1) payload\<rparr>
           in Inr (emit ENABLE word (int (length payload)) v2))"

definition reject_invalid_count :: "(nat \<Rightarrow> nat) \<Rightarrow> int \<Rightarrow> vectors \<Rightarrow> vectors res" where
  "reject_invalid_count raw count v =
     (if count < 5 \<or> count > 7
      then Inl (ValueError ''invalid-count test must use a three-bit value above four'')
      else let (word, v1) = getrandbits raw 32 v in Inr (emit ENABLE word count v1))"

function stream_randomly :: "(nat \<Rightarrow> nat) \<Rightarrow> byte list \<Rightarrow> nat \<Rightarrow> vectors \<Rightarrow> vectors res" where
  "stream_randomly raw payload offset v =
     (if offset < length payload then
        let (r, v1) = randrange raw 0 5 v;
            v2 = (if r = 0 then hold raw v1 else v1);
            (c, v3) = randrange raw 1 5 v2;
            count = min (nat c) (length payload - offset)
        in rbind (consume raw (take count (drop offset payload)) v3)
             (stream_randomly raw payload (offset + count))
      else Inr v)"
  by pat_completeness auto
termination
proof (relation "measure (\<lambda>(raw, payload, offset, v). length payload - offset)", goal_cases)
  case 1
  then show ?case by simp
next
  case (2 raw payload offset v x r v1 v2 xa c v3 count)
  have "1 \<le> c"
    using 2(5-7) by (auto simp: randrange_def)
  then show ?case using 2(1,7) by auto
qed

declare stream_randomly.simps [simp del]


subsection \<open>What the receiving RTL does with the lines\<close>

text \<open>
  The interface contract the generator's comments state: clear and reset return the seed and
  dominate a simultaneous enable, a disabled cycle changes nothing, an enabled cycle takes
  \<open>count\<close> bytes from the most significant lane, a count above four is refused.
\<close>

definition lane :: "nat \<Rightarrow> int \<Rightarrow> byte" where
  "lane i word = word_of_int (drop_bit (24 - 8 * i) word)"

definition rtl_step :: "vector_line \<Rightarrow> int \<Rightarrow> int" where
  "rtl_step l crc =
     (case v_op l of
        HOLD \<Rightarrow> crc
      | ENABLE \<Rightarrow> (if v_count l \<le> 4 then update_bytes crc (map (\<lambda>i. lane i (v_word l)) [0..<nat (v_count l)])
                   else crc)
      | _ \<Rightarrow> 0)"

fun rtl_run :: "int \<Rightarrow> vector_line list \<Rightarrow> int option" where
  "rtl_run crc [] = Some crc"
| "rtl_run crc (l # ls) = (if rtl_step l crc = v_crc l then rtl_run (v_crc l) ls else None)"

definition vectors_consistent :: "vectors \<Rightarrow> bool" where
  "vectors_consistent v \<longleftrightarrow> rtl_run 0 (vlines v) = Some (vcrc v)"

lemma rtl_run_snoc:
  "rtl_run crc ls = Some c \<Longrightarrow>
   rtl_run crc (ls @ [l]) = (if rtl_step l c = v_crc l then Some (v_crc l) else None)"
  by (induction ls arbitrary: crc) (auto split: if_splits)

lemma byte_mask: "(0xFF :: int) = mask 8"
  by (simp add: mask_eq_exp_minus_1)

lemma bit_lane: "bit (lane i w) n \<longleftrightarrow> n < 8 \<and> bit w (24 - 8 * i + n)"
  by (auto simp: lane_def bit_word_of_int_iff bit_drop_bit_eq)

lemma lane_place_same:
  "lane i ((w AND NOT (push_bit (24 - 8 * i) 0xFF)) OR push_bit (24 - 8 * i) (uint v)) = v"
  unfolding byte_mask
  by (rule bit_word_eqI)
    (auto simp: bit_lane bit_or_iff bit_and_iff bit_not_iff bit_push_bit_iff bit_uint_iff bit_mask_iff)

lemma lane_place_other:
  assumes "i < k" and "k < 4"
  shows "lane i ((w AND NOT (push_bit (24 - 8 * k) 0xFF)) OR push_bit (24 - 8 * k) (uint (v :: byte))) = lane i w"
proof (rule bit_word_eqI)
  fix n assume n: "n < LENGTH(8)"
  have far: "24 - 8 * k + 8 \<le> 24 - 8 * i + n" using assms by simp
  have "\<not> bit (uint v) (24 - 8 * i + n - (24 - 8 * k))"
    using far by (auto simp: bit_uint_iff dest: bit_imp_le_length)
  then show "bit (lane i ((w AND NOT (push_bit (24 - 8 * k) 0xFF)) OR push_bit (24 - 8 * k) (uint v))) n
      \<longleftrightarrow> bit (lane i w) n"
    using n far unfolding byte_mask
    by (auto simp: bit_lane bit_or_iff bit_and_iff bit_not_iff bit_push_bit_iff bit_mask_iff)
qed

lemma place_bytes_frame:
  "k + length vs \<le> 4 \<Longrightarrow> i < k \<Longrightarrow> lane i (place_bytes k vs w) = lane i w"
  by (induction k vs w rule: place_bytes.induct) (simp_all add: Let_def lane_place_other)

lemma place_bytes_lanes:
  "k + length vs \<le> 4 \<Longrightarrow> map (\<lambda>i. lane i (place_bytes k vs w)) [k..<k + length vs] = vs"
proof (induction k vs w rule: place_bytes.induct)
  case (1 k w)
  then show ?case by simp
next
  case (2 k v vs w)
  have "[k..<k + length (v # vs)] = k # [Suc k..<Suc k + length vs]"
    by (simp add: upt_conv_Cons del: upt_Suc)
  with 2 show ?case
    by (simp add: Let_def place_bytes_frame lane_place_same del: upt_Suc)
qed

text \<open>Every operation of the driver keeps the emitted lines consistent with the RTL contract.\<close>

lemma randrange_frame [simp]:
  "vcrc (snd (randrange raw lo hi v)) = vcrc v" "vlines (snd (randrange raw lo hi v)) = vlines v"
  "vcrc (snd (getrandbits raw k v)) = vcrc v" "vlines (snd (getrandbits raw k v)) = vlines v"
  by (simp_all add: randrange_def getrandbits_def)

lemma emit_random_unfold:
  "\<exists>w c. emit_random raw operation bound v =
     emit operation w c (v\<lparr>rng := rng v + 2\<rparr>) \<and> 0 \<le> w \<and> w < 2 ^ 32 \<and> (0 < bound \<longrightarrow> 0 \<le> c \<and> c < bound)"
  by (auto simp: emit_random_def getrandbits_def randrange_def intro!: exI)

lemmas consistent_simps = vectors_consistent_def emit_def rtl_run_snoc rtl_step_def

lemma consistent_reset_ops:
  assumes "vectors_consistent v" and "oper \<in> {CLEAR, CLEAR_AND_ENABLE, ASYNC_RESET}"
  shows "vectors_consistent (emit_random raw oper bound (v\<lparr>vcrc := 0\<rparr>))"
proof -
  obtain w c where "emit_random raw oper bound (v\<lparr>vcrc := 0\<rparr>) =
      emit oper w c ((v\<lparr>vcrc := 0\<rparr>)\<lparr>rng := rng (v\<lparr>vcrc := 0\<rparr>) + 2\<rparr>)"
    using emit_random_unfold [of raw oper bound "v\<lparr>vcrc := 0\<rparr>"] by auto
  then show ?thesis
    using assms by (auto simp: consistent_simps)
qed

lemma consistent_hold: "vectors_consistent v \<Longrightarrow> vectors_consistent (hold raw v)"
  using emit_random_unfold [of raw HOLD 8 v]
  by (auto simp: hold_def consistent_simps)

lemma consistent_consume:
  assumes "vectors_consistent v" and "consume raw payload v = Inr v'"
  shows "vectors_consistent v' \<and> vcrc v' = update_bytes (vcrc v) payload"
proof -
  have len: "length payload \<le> 4"
    using assms(2) by (auto simp: consume_def split: if_splits)
  let ?w = "place_bytes 0 payload (fst (getrandbits raw 32 v))"
  let ?v = "(snd (getrandbits raw 32 v))\<lparr>vcrc := update_bytes (vcrc v) payload\<rparr>"
  have v': "v' = emit ENABLE ?w (int (length payload)) ?v"
    using assms(2) len by (simp add: consume_def Let_def split_beta)
  have "map (\<lambda>i. lane i ?w) [0..<length payload] = payload"
    using place_bytes_lanes [of 0 payload] len by simp
  then have "vectors_consistent v'"
    unfolding v' using assms(1) len
    by (auto simp: consistent_simps)
  then show ?thesis by (simp add: v' emit_def)
qed

lemma consistent_reject:
  assumes "vectors_consistent v" and "reject_invalid_count raw count v = Inr v'"
  shows "vectors_consistent v' \<and> vcrc v' = vcrc v"
  using assms
  by (auto simp: reject_invalid_count_def split_beta Let_def consistent_simps split: if_splits)

lemma hold_crc [simp]: "vcrc (hold raw v) = vcrc v"
  using emit_random_unfold [of raw HOLD 8 v] by (auto simp: hold_def emit_def)

lemma stream_randomly_total:
  "vectors_consistent v \<Longrightarrow>
   \<exists>v'. stream_randomly raw payload offset v = Inr v' \<and> vectors_consistent v' \<and>
        vcrc v' = update_bytes (vcrc v) (drop offset payload)"
proof (induction raw payload offset v rule: stream_randomly.induct)
  case (1 raw payload offset v)
  show ?case
  proof (cases "offset < length payload")
    case False
    then show ?thesis using "1.prems" by (auto simp: stream_randomly.simps [of raw payload offset])
  next
    case True
    define r v1 where "r = fst (randrange raw 0 5 v)" and "v1 = snd (randrange raw 0 5 v)"
    define v2 where "v2 = (if r = 0 then hold raw v1 else v1)"
    define c v3 where "c = fst (randrange raw 1 5 v2)" and "v3 = snd (randrange raw 1 5 v2)"
    define count where "count = min (nat c) (length payload - offset)"
    have count: "count \<le> 4" by (auto simp: count_def c_def randrange_def)
    have v1: "vectors_consistent v1" "vcrc v1 = vcrc v"
      using "1.prems" by (simp_all add: vectors_consistent_def v1_def)
    then have "vectors_consistent v2" "vcrc v2 = vcrc v" by (simp_all add: v2_def consistent_hold)
    then have v3: "vectors_consistent v3" "vcrc v3 = vcrc v" by (simp_all add: v3_def vectors_consistent_def)
    obtain u where u: "consume raw (take count (drop offset payload)) v3 = Inr u"
      using count by (auto simp: consume_def Let_def split_beta)
    note u' = consistent_consume [OF v3(1) u]
    have "\<exists>v'. stream_randomly raw payload (offset + count) u = Inr v' \<and> vectors_consistent v' \<and>
        vcrc v' = update_bytes (vcrc u) (drop (offset + count) payload)"
      by (rule "1.IH" [OF True, of "(r, v1)" r v1 v2 "(c, v3)" c v3 count u])
        (use u u' in \<open>simp_all add: r_def v1_def v2_def c_def v3_def count_def\<close>)
    moreover have "drop offset payload =
        take count (drop offset payload) @ drop (offset + count) payload"
      by (metis append_take_drop_id drop_drop add.commute)
    then have "update_bytes (vcrc v) (drop offset payload) =
        update_bytes (vcrc u) (drop (offset + count) payload)"
      using u' v3(2) update_bytes_append by metis
    moreover have "stream_randomly raw payload offset v = stream_randomly raw payload (offset + count) u"
      using True u unfolding stream_randomly.simps [of raw payload offset v]
      by (simp add: Let_def split_beta split del: if_split flip: r_def v1_def v2_def c_def v3_def count_def)
    ultimately show ?thesis by simp
  qed
qed


section \<open>FNV-1a of traces and frames\<close>

definition fnv_byte :: "int \<Rightarrow> byte \<Rightarrow> int" where
  "fnv_byte v b = ((v XOR uint b) * 0x100000001B3) AND 0xFFFFFFFFFFFFFFFF"

text \<open>The file is read in chunks of 16384 bytes; an empty chunk ends the loop.\<close>

function fnv_chunks :: "int \<Rightarrow> byte list \<Rightarrow> int" where
  "fnv_chunks v content =
     (let chunk = take 16384 content
      in if chunk = [] then v else fnv_chunks (foldl fnv_byte v chunk) (drop 16384 content))"
  by pat_completeness auto
termination
  by (relation "measure (\<lambda>(v, content). length content)") (auto simp: Let_def)

declare fnv_chunks.simps [simp del]

definition fnv1a64 :: "byte list \<Rightarrow> string" where
  "fnv1a64 content = py_hex 16 (nat (fnv_chunks 0xCBF29CE484222325 content))"

definition fnv_feed :: "64 word \<Rightarrow> byte \<Rightarrow> 64 word" where
  "fnv_feed v b = (v XOR ucast b) * 0x100000001B3"

interpretation fnv: byte_checksum fnv_feed
proof
  have inj: "v = w" if "v * 0x100000001B3 = w * 0x100000001B3" for v w :: "64 word"
  proof -
    have "(0x100000001B3 :: 64 word) * 14886173955864302971 = 1" by simp
    then have inv: "x * 0x100000001B3 * 14886173955864302971 = x" for x :: "64 word"
      by (simp only: mult.assoc mult_1_right)
    have "v = v * 0x100000001B3 * 14886173955864302971" by (rule inv [symmetric])
    also have "\<dots> = w * 0x100000001B3 * 14886173955864302971" by (rule arg_cong [OF that])
    also have "\<dots> = w" by (rule inv)
    finally show ?thesis .
  qed
  show "s = t" if "fnv_feed s b = fnv_feed t b" for s t b
    using inj that xor_cancel(1) unfolding fnv_feed_def by blast
  show "a = b" if "fnv_feed s a = fnv_feed s b" for s a b
  proof -
    have "(ucast a :: 64 word) = ucast b" using inj that xor_cancel(2) unfolding fnv_feed_def by blast
    then have "bit (ucast a :: 64 word) n = bit (ucast b :: 64 word) n" for n by simp
    then show ?thesis by (intro bit_word_eqI) (fastforce simp: bit_ucast_iff)
  qed
qed

lemma fnv_chunks_fold: "fnv_chunks v content = foldl fnv_byte v content"
proof (induction v content rule: fnv_chunks.induct)
  case (1 v content)
  show ?case
  proof (cases "content = []")
    case True
    then show ?thesis by (simp add: fnv_chunks.simps)
  next
    case False
    have "fnv_chunks v content = foldl fnv_byte (foldl fnv_byte v (take 16384 content)) (drop 16384 content)"
      using False 1 by (subst fnv_chunks.simps) simp
    then show ?thesis by (metis append_take_drop_id foldl_append)
  qed
qed

lemma fnv_byte_refines: "fnv_byte c v = uint (fnv_feed (word_of_int c) v)"
proof -
  have m: "(0xFFFFFFFFFFFFFFFF :: int) = mask LENGTH(64)" by (simp add: mask_eq_exp_minus_1)
  have "(word_of_int ((c XOR uint v) * 0x100000001B3) :: 64 word) = (word_of_int c XOR word_of_int (uint v)) * 0x100000001B3"
    by (simp only: word_of_int_xor of_int_mult of_int_numeral)
  then show ?thesis
    unfolding fnv_byte_def fnv_feed_def m uint_and_mask_word [symmetric]
    by (simp only: ucast_eq)
qed

lemma fnv_chunks_refines:
  assumes "0 \<le> v" and "v < 2 ^ 64"
  shows "fnv_chunks v content = uint (foldl fnv_feed (word_of_int v) content)"
  unfolding fnv_chunks_fold
  by (rule foldl_refines) (use assms in \<open>simp_all add: fnv_byte_refines\<close>)

lemma fnv_change_detected:
  assumes "0 \<le> v" and "v < 2 ^ 64" and "a \<noteq> b"
  shows "fnv_chunks v (xs @ a # ys) \<noteq> fnv_chunks v (xs @ b # ys)"
  unfolding fnv_chunks_refines [OF assms(1,2)] using fnv.run_change_detected [OF assms(3)]
  by (metis word_uint_eq_iff)

lemma fnv_chunks_range:
  assumes "0 \<le> v" and "v < 2 ^ 64"
  shows "0 \<le> fnv_chunks v content"
  unfolding fnv_chunks_refines [OF assms] by simp

section \<open>Properties of the checksums\<close>

text \<open>
  The save-state CRC notices any change of one byte. Started from any 64-bit value, two byte
  streams of the same length that differ in exactly one byte have different CRC-64 values.
\<close>

theorem crc64_detects_change:
  assumes "0 \<le> crc" and "crc < 2 ^ 64" and "a \<noteq> b"
  shows "update_bytes crc (xs @ a # ys) \<noteq> update_bytes crc (xs @ b # ys)"
  using crc64_change_detected [OF assms] .

theorem crc64_detects_change_witness:
  "update_bytes 0 ([0x53, 0x57] @ 0x41 # [0x4E]) \<noteq> update_bytes 0 ([0x53, 0x57] @ 0x42 # [0x4E])"
  by (rule crc64_detects_change) simp_all

text \<open>
  C38: The Python CRC is the 64-bit shift register. On a value in range, one update of the
  reference, computed on unbounded integers with an explicit mask, is eight shifts of a 64-bit
  register with the ECMA-182 polynomial after the byte is added at the top, and stays in range.
\<close>

theorem crc64_is_shift_register:
  assumes "0 \<le> crc" and "crc < 2 ^ 64"
  shows "update_bytes crc payload =
      uint (foldl (crc_feed (0x42F0E1EBA9EA3693 :: 64 word)) (word_of_int crc) payload) \<and>
    0 \<le> update_bytes crc payload \<and> update_bytes crc payload < 2 ^ 64"
  using update_bytes_refines [OF assms] update_bytes_range [OF assms] by simp

theorem crc64_is_shift_register_witness:
  "update_bytes (2 ^ 64 - 1) [0x53] =
     uint (foldl (crc_feed (0x42F0E1EBA9EA3693 :: 64 word)) (word_of_int (2 ^ 64 - 1)) [0x53])"
  using crc64_is_shift_register [of "2 ^ 64 - 1" "[0x53]"] by simp

text \<open>
  C37: Random segmentation does not matter. From a consistent transaction list, streaming a payload
  never fails whatever the random draws cut it into, the lines still replay on the register
  contract of the hardware, poison bytes included, and the running CRC is the CRC of the payload.
\<close>

theorem stream_randomly_consistent:
  assumes "vectors_consistent v"
  shows "\<exists>v'. stream_randomly raw payload 0 v = Inr v' \<and> vectors_consistent v' \<and>
    vcrc v' = update_bytes (vcrc v) payload"
  using stream_randomly_total [OF assms, of raw payload 0] by simp

theorem stream_randomly_consistent_witness:
  "\<exists>v'. stream_randomly (\<lambda>n. n * n) [1, 2, 3, 4, 5] 0 vectors_init = Inr v' \<and>
     rtl_run 0 (vlines v') = Some (update_bytes 0 [1, 2, 3, 4, 5])"
proof -
  have "vectors_consistent vectors_init" by (simp add: vectors_consistent_def vectors_init_def)
  from stream_randomly_consistent [OF this, of "\<lambda>n. n * n" "[1, 2, 3, 4, 5]"]
  show ?thesis by (auto simp: vectors_consistent_def vectors_init_def)
qed

text \<open>
  The digest in a manifest binds the file, one changed byte at a time. Reading in blocks of
  16384 bytes makes no difference, and two contents that differ in exactly one byte have
  different digests.
\<close>

theorem fnv1a64_binds:
  "fnv1a64 content = py_hex 16 (nat (foldl fnv_byte 0xCBF29CE484222325 content)) \<and>
   (fnv1a64 (xs @ a # ys) = fnv1a64 (xs @ b # ys) \<longleftrightarrow> a = b)"
proof
  show "fnv1a64 content = py_hex 16 (nat (foldl fnv_byte 0xCBF29CE484222325 content))"
    by (simp add: fnv1a64_def fnv_chunks_fold)
  have "fnv1a64 (xs @ a # ys) \<noteq> fnv1a64 (xs @ b # ys)" if "a \<noteq> b"
  proof
    assume "fnv1a64 (xs @ a # ys) = fnv1a64 (xs @ b # ys)"
    then have "nat (fnv_chunks 0xCBF29CE484222325 (xs @ a # ys)) = nat (fnv_chunks 0xCBF29CE484222325 (xs @ b # ys))"
      unfolding fnv1a64_def by (rule py_hex_inj)
    then have "fnv_chunks 0xCBF29CE484222325 (xs @ a # ys) = fnv_chunks 0xCBF29CE484222325 (xs @ b # ys)"
      using eq_nat_nat_iff fnv_chunks_range [of "0xCBF29CE484222325"] by simp
    then show False using fnv_change_detected [of "0xCBF29CE484222325" a b xs ys] that by simp
  qed
  then show "fnv1a64 (xs @ a # ys) = fnv1a64 (xs @ b # ys) \<longleftrightarrow> a = b" by blast
qed

end
