(* ===== verification/Prefetch_Model.thy ===== *)
theory Prefetch_Model
  imports Swan_Prelude
begin

text \<open>
  The fail-closed service and depth model of the save-state copy-out
  (\<^verbatim>\<open>scripts/apf_a0_prefetch_service_model.py\<close>): a fully prefetched FIFO is drained by the
  host, one word per bridge period, and refilled by one serialized producer. The event loop of
  \<open>simulate_depth\<close> is translated step by step; \<open>completion\<close> gives the producer's completion times
  in closed recursive form, and the lemmas show that the event loop accepts a depth exactly when
  every word completes before its deadline. Python's \<open>Fraction\<close> is \<^typ>\<open>rat\<close>; the rounding of
  a fraction to a float for display is the parameter \<open>to_float\<close>.
\<close>

section \<open>Configuration\<close>

record model_config =
  payload_bytes :: int
  bridge_clock_hz :: int
  memory_clock_hz :: int
  bridge_period_cycles :: int
  setup_margin_mem_cycles :: int
  reader_word_overhead_mem_cycles :: int
  halfword_service_bound_mem_cycles :: "int option"

definition default_config :: model_config where
  "default_config =
     \<lparr>payload_bytes = 0x90300, bridge_clock_hz = 74250000, memory_clock_hz = 110592000,
      bridge_period_cycles = 88, setup_margin_mem_cycles = 2,
      reader_word_overhead_mem_cycles = 3, halfword_service_bound_mem_cycles = None\<rparr>"

definition payload_words :: "model_config \<Rightarrow> int" where
  "payload_words c = payload_bytes c div 4"

definition bridge_period_mem_cycles :: "model_config \<Rightarrow> rat" where
  "bridge_period_mem_cycles c =
     of_int (bridge_period_cycles c * memory_clock_hz c) / of_int (bridge_clock_hz c)"

definition word_service_bound_mem_cycles :: "model_config \<Rightarrow> int option" where
  "word_service_bound_mem_cycles c =
     (case halfword_service_bound_mem_cycles c of None \<Rightarrow> None
      | Some h \<Rightarrow> Some (2 * h + reader_word_overhead_mem_cycles c))"

definition validate :: "model_config \<Rightarrow> unit res" where
  "validate c =
     (if payload_bytes c \<le> 0 \<or> payload_bytes c mod 4 \<noteq> 0
      then Inl (ValueError ''payload_bytes must be a positive multiple of four'')
      else if bridge_clock_hz c \<le> 0 \<or> memory_clock_hz c \<le> 0
      then Inl (ValueError ''clock frequencies must be positive'')
      else if bridge_period_cycles c \<le> 0
      then Inl (ValueError ''bridge_period_cycles must be positive'')
      else if setup_margin_mem_cycles c < 0
      then Inl (ValueError ''setup margin cannot be negative'')
      else if reader_word_overhead_mem_cycles c < 0
      then Inl (ValueError ''reader overhead cannot be negative'')
      else if (case halfword_service_bound_mem_cycles c of None \<Rightarrow> False | Some h \<Rightarrow> h \<le> 0)
      then Inl (ValueError ''halfword service bound must be positive'')
      else if bridge_period_mem_cycles c \<le> of_int (setup_margin_mem_cycles c)
      then Inl (ValueError ''setup margin consumes the entire BRIDGE word period'')
      else Inr ())"

section \<open>The event loop\<close>

record simulation_result =
  safe :: bool
  depth_words :: int
  failed_word_index :: "int option"
  failed_deadline_mem_cycles :: "rat option"
  minimum_occupancy_words :: int

record fifo =
  occupancy :: int
  produced :: int
  minimum_occupancy :: int
  completion_time :: "rat option"

text \<open>The values \<open>simulate_depth\<close> computes once: words, capacity, service, period, margin.\<close>

record sim_env =
  words :: int
  capacity :: int
  service :: rat
  period :: rat
  margin :: rat

definition start_if_possible :: "sim_env \<Rightarrow> rat \<Rightarrow> fifo \<Rightarrow> fifo" where
  "start_if_possible e now s =
     (if completion_time s = None \<and> produced s < words e \<and> occupancy s < capacity e
      then s\<lparr>completion_time := Some (now + service e)\<rparr> else s)"

function advance_completions :: "sim_env \<Rightarrow> rat \<Rightarrow> fifo \<Rightarrow> fifo res" where
  "advance_completions e limit s =
     (case completion_time s of
        None \<Rightarrow> Inr s
      | Some now \<Rightarrow>
          if now \<le> limit then
            if occupancy s \<ge> capacity e
            then Inl (AssertionError ''producer completed without a reserved slot'')
            else advance_completions e limit
                   (start_if_possible e now
                     (s\<lparr>occupancy := occupancy s + 1, produced := produced s + 1,
                        completion_time := None\<rparr>))
          else Inr s)"
  by pat_completeness auto
termination
  by (relation "measure (\<lambda>(e, limit, s).
        case completion_time s of None \<Rightarrow> 0 | Some _ \<Rightarrow> Suc (nat (words e - produced s)))")
    (auto simp: start_if_possible_def split: option.splits)

declare advance_completions.simps [simp del]

fun sim_words :: "sim_env \<Rightarrow> int list \<Rightarrow> fifo \<Rightarrow> simulation_result res" where
  "sim_words e [] s =
     Inr \<lparr>safe = True, depth_words = capacity e, failed_word_index = None,
          failed_deadline_mem_cycles = None, minimum_occupancy_words = minimum_occupancy s\<rparr>"
| "sim_words e (w # ws) s =
     (let actual_time = period e * of_int w;
          deadline = (if w = 0 then actual_time else actual_time - margin e)
      in rbind (advance_completions e deadline s) (\<lambda>s1.
         if occupancy s1 = 0
         then Inr \<lparr>safe = False, depth_words = capacity e, failed_word_index = Some w,
                   failed_deadline_mem_cycles = Some deadline,
                   minimum_occupancy_words = minimum_occupancy s1\<rparr>
         else rbind (advance_completions e actual_time s1) (\<lambda>s2.
           let s3 = s2\<lparr>occupancy := occupancy s2 - 1,
                       minimum_occupancy := min (minimum_occupancy s2) (occupancy s2 - 1)\<rparr>
           in sim_words e ws (start_if_possible e actual_time s3))))"

definition sim_env_of :: "model_config \<Rightarrow> int \<Rightarrow> int \<Rightarrow> sim_env" where
  "sim_env_of c bound depth =
     \<lparr>words = payload_words c, capacity = depth, service = of_int bound,
      period = bridge_period_mem_cycles c, margin = of_int (setup_margin_mem_cycles c)\<rparr>"

definition simulate_depth :: "model_config \<Rightarrow> int \<Rightarrow> simulation_result res" where
  "simulate_depth c depth =
     rbind (validate c) (\<lambda>_.
       case word_service_bound_mem_cycles c of
         None \<Rightarrow> Inl (ValueError ''cannot simulate without a finite halfword service bound'')
       | Some bound \<Rightarrow>
           if depth \<le> 0 \<or> depth > payload_words c
           then Inl (ValueError ''depth_words must be within the payload word count'')
           else sim_words (sim_env_of c bound depth) [0..payload_words c - 1]
                  \<lparr>occupancy = depth, produced = depth, minimum_occupancy = depth,
                   completion_time = None\<rparr>)"

section \<open>The search\<close>

function search_depth :: "model_config \<Rightarrow> int \<Rightarrow> int \<Rightarrow> int res" where
  "search_depth c low high =
     (if low < high then
        let middle = (low + high) div 2
        in rbind (simulate_depth c middle) (\<lambda>result.
             if safe result then search_depth c low middle else search_depth c (middle + 1) high)
      else Inr low)"
  by pat_completeness auto
termination
  by (relation "measure (\<lambda>(c, low, high). nat (high - low))") auto

declare search_depth.simps [simp del]

definition minimum_safe_depth :: "model_config \<Rightarrow> (int \<times> simulation_result) res" where
  "minimum_safe_depth c =
     rbind (validate c) (\<lambda>_.
       case word_service_bound_mem_cycles c of
         None \<Rightarrow> Inl (ValueError ''no finite depth can be derived without a service bound'')
       | Some _ \<Rightarrow>
           rbind (simulate_depth c (payload_words c)) (\<lambda>high_result.
             if \<not> safe high_result
             then Inl (AssertionError ''full independent prefetch must cover a finite blob'')
             else rbind (search_depth c 1 (payload_words c)) (\<lambda>low.
                  rbind (simulate_depth c low) (\<lambda>result. Inr (low, result)))))"

definition fraction_text :: "rat \<Rightarrow> string" where
  "fraction_text v = (let (n, d) = quotient_of v in
     if d = 1 then py_str n else py_str n @ ''/'' @ py_str d)"

datatype proof_status = Unproven | ConditionalProof

record verification =
  verified_depth_words :: int
  verified_depth_safe :: bool
  verified_depth_failed_word_index :: "int option"
  verified_depth_failed_deadline_mem_cycles :: "string option"

record 'f analysis =
  a_payload_bytes :: int
  a_payload_words :: int
  a_bridge_clock_hz :: int
  a_memory_clock_hz :: int
  a_bridge_period_cycles :: int
  a_bridge_period_mem_cycles_exact :: string
  a_bridge_period_mem_cycles :: 'f
  a_setup_margin_mem_cycles :: int
  a_reader_word_overhead_mem_cycles :: int
  a_full_blob_prefill_words :: int
  a_full_blob_prefill_bytes :: int
  a_production_integrated :: bool
  a_memories_enabled :: bool
  a_status :: proof_status
  a_safe :: bool
  a_halfword_service_bound :: "int option"
  a_word_service_bound :: "int option"
  a_minimum_fifo_depth_words :: "int option"
  a_minimum_fifo_depth_bytes :: "int option"
  a_minimum_occupancy_words :: "int option"
  a_verification :: "verification option"

definition base_analysis :: "(rat \<Rightarrow> 'f) \<Rightarrow> model_config \<Rightarrow> 'f analysis" where
  "base_analysis to_float c =
     \<lparr>a_payload_bytes = payload_bytes c, a_payload_words = payload_words c,
      a_bridge_clock_hz = bridge_clock_hz c, a_memory_clock_hz = memory_clock_hz c,
      a_bridge_period_cycles = bridge_period_cycles c,
      a_bridge_period_mem_cycles_exact = fraction_text (bridge_period_mem_cycles c),
      a_bridge_period_mem_cycles = to_float (bridge_period_mem_cycles c),
      a_setup_margin_mem_cycles = setup_margin_mem_cycles c,
      a_reader_word_overhead_mem_cycles = reader_word_overhead_mem_cycles c,
      a_full_blob_prefill_words = payload_words c, a_full_blob_prefill_bytes = payload_bytes c,
      a_production_integrated = False, a_memories_enabled = False,
      a_status = Unproven, a_safe = False, a_halfword_service_bound = None,
      a_word_service_bound = None, a_minimum_fifo_depth_words = None,
      a_minimum_fifo_depth_bytes = None, a_minimum_occupancy_words = None,
      a_verification = None\<rparr>"

definition verify_depth :: "model_config \<Rightarrow> int option \<Rightarrow> verification option res" where
  "verify_depth c verify_depth_words =
     (case verify_depth_words of
        None \<Rightarrow> Inr None
      | Some d \<Rightarrow> rbind (simulate_depth c d) (\<lambda>v. Inr (Some
          \<lparr>verified_depth_words = d, verified_depth_safe = safe v,
           verified_depth_failed_word_index = failed_word_index v,
           verified_depth_failed_deadline_mem_cycles =
             map_option fraction_text (failed_deadline_mem_cycles v)\<rparr>)))"

definition analyze :: "(rat \<Rightarrow> 'f) \<Rightarrow> model_config \<Rightarrow> int option \<Rightarrow> 'f analysis res" where
  "analyze to_float c verify_depth_words =
     rbind (validate c) (\<lambda>_.
       case halfword_service_bound_mem_cycles c of
         None \<Rightarrow> Inr (base_analysis to_float c)
       | Some h \<Rightarrow>
           rbind (minimum_safe_depth c) (\<lambda>(minimum_depth, minimum_result).
           rbind (verify_depth c verify_depth_words) (\<lambda>v.
             Inr ((base_analysis to_float c)
               \<lparr>a_status := ConditionalProof, a_safe := True,
                a_halfword_service_bound := Some h,
                a_word_service_bound := word_service_bound_mem_cycles c,
                a_minimum_fifo_depth_words := Some minimum_depth,
                a_minimum_fifo_depth_bytes := Some (minimum_depth * 4),
                a_minimum_occupancy_words := Some (minimum_occupancy_words minimum_result),
                a_verification := v\<rparr>))))"

text \<open>The exit status of \<open>main\<close>: only a \<open>ValueError\<close> is caught.\<close>

definition main_status :: "(rat \<Rightarrow> 'f) \<Rightarrow> model_config \<Rightarrow> int option \<Rightarrow> int res" where
  "main_status to_float c verify_depth_words =
     (case analyze to_float c verify_depth_words of
        Inl (ValueError m) \<Rightarrow> Inr 2
      | Inl e \<Rightarrow> Inl e
      | Inr result \<Rightarrow> Inr (if a_safe result then 0 else 2))"

section \<open>Completion times\<close>

text \<open>
  The reference schedule: production \<open>j\<close> starts when slot \<open>j\<close> is free (read \<open>j\<close> happened) and the
  previous production is finished.
\<close>

fun completion :: "rat \<Rightarrow> rat \<Rightarrow> nat \<Rightarrow> rat" where
  "completion S T 0 = S"
| "completion S T (Suc j) = max (completion S T j) (T * of_nat (Suc j)) + S"

text \<open>A depth meets every deadline: word \<open>depth + j\<close> is production \<open>j\<close>.\<close>

definition schedulable :: "sim_env \<Rightarrow> bool" where
  "schedulable e \<longleftrightarrow> (\<forall>j. int j < words e - capacity e \<longrightarrow>
     completion (service e) (period e) j \<le> period e * (of_int (capacity e) + of_nat j) - margin e)"

definition env_ok :: "sim_env \<Rightarrow> bool" where
  "env_ok e \<longleftrightarrow> 0 < service e \<and> 0 < period e \<and> 0 \<le> margin e \<and> margin e < period e \<and>
     1 \<le> capacity e \<and> capacity e \<le> words e"

text \<open>
  The state before word \<open>k\<close> is read, \<open>a\<close> productions done, everything up to time \<open>now\<close> (not
  earlier than the previous read) processed.
\<close>

definition fifo_inv :: "sim_env \<Rightarrow> nat \<Rightarrow> nat \<Rightarrow> rat \<Rightarrow> fifo \<Rightarrow> bool" where
  "fifo_inv e k a now s \<longleftrightarrow>
     produced s = capacity e + int a \<and> occupancy s = capacity e + int a - int k \<and>
     0 \<le> occupancy s \<and> a \<le> k \<and> capacity e + int a \<le> words e \<and>
     (\<forall>i<a. completion (service e) (period e) i \<le> now) \<and>
     (if a < k \<and> capacity e + int a < words e
      then completion_time s = Some (completion (service e) (period e) a) \<and>
           period e * (of_nat k - 1) < completion (service e) (period e) a
      else completion_time s = None)"

lemma completion_step:
  "0 < S \<Longrightarrow> completion S T j < completion S T (Suc j)"
  by (simp add: max_def)

lemma completion_Suc_late:
  assumes "period e * (of_nat k - 1) < completion S (period e) a" and "Suc a < k" and "0 < period e"
  shows "completion S (period e) (Suc a) = completion S (period e) a + S"
proof -
  have "(of_nat (Suc a) + 1 :: rat) \<le> of_nat k" using assms(2) by (metis Suc_leI of_nat_Suc of_nat_mono add.commute)
  then have "period e * of_nat (Suc a) \<le> period e * (of_nat k - 1)"
    using assms(3) by (intro mult_left_mono) simp_all
  then show ?thesis using assms(1) by (simp add: max_def)
qed


lemma advance_step:
  assumes "fifo_inv e k a now s" and "env_ok e" and "completion_time s = Some t" and "t \<le> limit"
  shows "occupancy s < capacity e \<and> t = completion (service e) (period e) a \<and>
    fifo_inv e k (Suc a) limit (start_if_possible e t
      (s\<lparr>occupancy := occupancy s + 1, produced := produced s + 1, completion_time := None\<rparr>))"
    (is "_ \<and> _ \<and> fifo_inv e k (Suc a) limit ?s")
proof -
  let ?c = "completion (service e) (period e)"
  have pend: "a < k" "capacity e + int a < words e" "t = ?c a" and late: "period e * (of_nat k - 1) < ?c a"
    using assms(1,3) by (auto simp: fifo_inv_def split: if_splits)
  have fields: "produced s = capacity e + int a" "occupancy s = capacity e + int a - int k"
      "0 \<le> capacity e + int a - int k"
    using assms(1) by (auto simp: fifo_inv_def)
  have pos: "0 < service e" "0 < period e" using assms(2) by (auto simp: env_ok_def)
  have early: "?c i \<le> limit" if "i < Suc a" for i
  proof -
    have "?c i \<le> ?c a" using that less_Suc_eq_le lift_Suc_mono_le [of ?c] completion_step [OF pos(1)]
      by (metis less_imp_le)
    then show ?thesis using assms(4) pend(3) by simp
  qed
  have next': "?c (Suc a) = t + service e" if "Suc a < k"
    using completion_Suc_late [OF late that pos(2)] pend(3) by simp
  have "?c a < ?c (Suc a)" using completion_step [OF pos(1)] .
  then have "period e * (of_nat k - 1) < ?c (Suc a)" using late by simp
  then have "fifo_inv e k (Suc a) limit ?s"
    using fields pend early next'
    by (auto simp: fifo_inv_def start_if_possible_def simp del: completion.simps)
  then show ?thesis using fields pend by simp
qed

lemma advance_occupancy: "advance_completions e limit s = Inr s' \<Longrightarrow> occupancy s \<le> occupancy s'"
proof (induction e limit s rule: advance_completions.induct)
  case (1 e limit s)
  then show ?case
    unfolding advance_completions.simps [of e limit s]
    by (fastforce simp: start_if_possible_def split: option.splits if_splits)
qed

lemma advance_completions_inv:
  "fifo_inv e k a now s \<Longrightarrow> now \<le> limit \<Longrightarrow> env_ok e \<Longrightarrow>
   \<exists>s' a'. advance_completions e limit s = Inr s' \<and> fifo_inv e k a' limit s' \<and>
     minimum_occupancy s' = minimum_occupancy s \<and>
     (\<forall>t. completion_time s' = Some t \<longrightarrow> limit < t)"
proof (induction e limit s arbitrary: a now rule: advance_completions.induct)
  case (1 e limit s)
  show ?case
  proof (cases "completion_time s")
    case None
    have "fifo_inv e k a limit s" using "1.prems" None by (fastforce simp: fifo_inv_def)
    then show ?thesis using None by (subst advance_completions.simps) auto
  next
    case (Some t)
    show ?thesis
    proof (cases "t \<le> limit")
      case False
      have "fifo_inv e k a limit s" using "1.prems" by (fastforce simp: fifo_inv_def)
      then show ?thesis using Some False by (subst advance_completions.simps) auto
    next
      case True
      let ?s = "start_if_possible e t
        (s\<lparr>occupancy := occupancy s + 1, produced := produced s + 1, completion_time := None\<rparr>)"
      note step = advance_step [OF "1.prems"(1,3) Some True]
      have "minimum_occupancy ?s = minimum_occupancy s" by (simp add: start_if_possible_def)
      moreover have "advance_completions e limit s = advance_completions e limit ?s"
        using Some True step by (subst advance_completions.simps) simp
      moreover have "\<not> capacity e \<le> occupancy s" using step by simp
      note IH = "1.IH" [OF Some True this]
      ultimately show ?thesis
        using IH [of "Suc a" limit] step "1.prems"(3) by (metis order_refl)
    qed
  qed
qed

text \<open>Reading word \<open>k\<close> moves the invariant to \<open>k + 1\<close>.\<close>

lemma read_word_inv:
  assumes "fifo_inv e k a (period e * of_nat k) s" and "env_ok e" and "occupancy s \<noteq> 0"
    and "\<forall>t. completion_time s = Some t \<longrightarrow> period e * of_nat k < t"
    and "s' = s\<lparr>occupancy := occupancy s - 1, minimum_occupancy := m\<rparr>"
  shows "fifo_inv e (Suc k) a (period e * of_nat k) (start_if_possible e (period e * of_nat k) s')"
proof -
  let ?c = "completion (service e) (period e)"
  have at_k: "?c k = period e * of_nat k + service e" if "a = k"
  proof (cases k)
    case (Suc j)
    then have "?c j \<le> period e * of_nat k" using assms(1) that by (simp add: fifo_inv_def)
    then show ?thesis using Suc by (simp add: max_def)
  qed simp
  have pos: "0 < service e" using assms(2) by (simp add: env_ok_def)
  have occ: "1 \<le> capacity e + int a - int k" using assms(1,3) by (auto simp: fifo_inv_def)
  show ?thesis
    using assms(1,4,5) at_k pos occ
    by (auto simp: fifo_inv_def start_if_possible_def simp del: completion.simps split: if_splits)
qed

definition meets :: "sim_env \<Rightarrow> nat \<Rightarrow> bool" where
  "meets e k \<longleftrightarrow> int k < capacity e \<or>
     completion (service e) (period e) (k - nat (capacity e)) \<le> period e * of_nat k - margin e"

text \<open>One word of the main loop: it is present at its deadline exactly when it meets it.\<close>

lemma deadline_occupancy:
  assumes "fifo_inv e k a limit s" and "env_ok e" and "int k < words e"
    and "\<forall>t. completion_time s = Some t \<longrightarrow> limit < t"
    and "limit = (if k = 0 then 0 else period e * of_nat k - margin e)"
  shows "occupancy s = 0 \<longleftrightarrow> \<not> meets e k"
proof -
  let ?c = "completion (service e) (period e)"
  have cap: "1 \<le> capacity e" using assms(2) by (simp add: env_ok_def)
  have occ: "occupancy s = capacity e + int a - int k" "0 \<le> occupancy s"
    using assms(1) by (auto simp: fifo_inv_def)
  define j where "j = k - nat (capacity e)"
  show ?thesis
  proof (cases "int k < capacity e")
    case True
    then show ?thesis using occ by (simp add: meets_def)
  next
    case False
    then have k: "k \<noteq> 0" "int j = int k - capacity e" using cap by (auto simp: j_def)
    have pend: "completion_time s = Some (?c a)" if "a \<le> j"
      using that assms(1,3) k cap by (auto simp: fifo_inv_def)
    have "?c j \<le> limit \<longleftrightarrow> j < a"
    proof
      assume le: "?c j \<le> limit"
      show "j < a"
      proof (rule ccontr)
        assume "\<not> j < a"
        then have "a \<le> j" by simp
        then have "?c a \<le> ?c j"
          using lift_Suc_mono_le [of ?c] completion_step assms(2) by (metis env_ok_def less_imp_le)
        moreover have "limit < ?c a" using pend [OF \<open>a \<le> j\<close>] assms(4) by simp
        ultimately show False using le by simp
      qed
    next
      assume "j < a"
      then show "?c j \<le> limit" using assms(1) by (simp add: fifo_inv_def)
    qed
    moreover have "j \<le> a" using occ k by simp
    ultimately show ?thesis using False k occ assms(5) by (auto simp: meets_def simp flip: j_def)
  qed
qed

definition deadline_of :: "sim_env \<Rightarrow> nat \<Rightarrow> rat" where
  "deadline_of e k = (if k = 0 then 0 else period e * of_nat k - margin e)"

text \<open>What the loop reports: the first missed word, or success.\<close>

definition verdict :: "sim_env \<Rightarrow> nat \<Rightarrow> simulation_result \<Rightarrow> bool" where
  "verdict e k r \<longleftrightarrow> depth_words r = capacity e \<and>
     (if \<forall>i\<ge>k. int i < words e \<longrightarrow> meets e i
      then safe r \<and> failed_word_index r = None \<and> failed_deadline_mem_cycles r = None
      else \<not> safe r \<and> (\<exists>i\<ge>k. int i < words e \<and> \<not> meets e i \<and> (\<forall>j. k \<le> j \<and> j < i \<longrightarrow> meets e j) \<and>
             failed_word_index r = Some (int i) \<and> failed_deadline_mem_cycles r = Some (deadline_of e i)))"

lemma verdict_Suc:
  assumes "verdict e (Suc k) r" and "meets e k"
  shows "verdict e k r"
proof -
  have "(\<forall>i\<ge>k. int i < words e \<longrightarrow> meets e i) \<longleftrightarrow> (\<forall>i\<ge>Suc k. int i < words e \<longrightarrow> meets e i)"
    using assms(2) by (metis Suc_leD le_SucE le_antisym nat_le_linear not_less_eq_eq)
  moreover have "\<forall>j. k \<le> j \<and> j < i \<longrightarrow> meets e j" if "\<forall>j. Suc k \<le> j \<and> j < i \<longrightarrow> meets e j" for i
    using that assms(2) by (metis le_neq_implies_less Suc_leI)
  ultimately show ?thesis using assms(1) unfolding verdict_def by (smt (verit) Suc_leD)
qed

lemma sim_words_verdict:
  assumes "env_ok e"
  shows "fifo_inv e k a now s \<Longrightarrow> now \<le> deadline_of e k \<Longrightarrow> int k \<le> words e \<Longrightarrow>
    \<exists>r. sim_words e [int k..words e - 1] s = Inr r \<and> verdict e k r"
proof (induction "nat (words e - int k)" arbitrary: k a now s)
  case 0
  then have "int k = words e" by simp
  then show ?case by (auto simp: verdict_def)
next
  case (Suc n)
  then have k: "int k < words e" by simp
  let ?d = "deadline_of e k" and ?t = "period e * of_nat k"
  have list: "[int k..words e - 1] = int k # [int (Suc k)..words e - 1]"
    using k by (simp add: upto_rec1 add.commute)
  have ok: "0 < period e" "0 \<le> margin e" "margin e < period e" using assms by (auto simp: env_ok_def)
  have d: "?d = (if int k = 0 then ?t else ?t - margin e)" by (simp add: deadline_of_def)
  obtain s1 a1 where s1: "advance_completions e ?d s = Inr s1" "fifo_inv e k a1 ?d s1"
      "\<forall>t. completion_time s1 = Some t \<longrightarrow> ?d < t"
    using advance_completions_inv [OF Suc.prems(1,2) assms] by blast
  have occ: "occupancy s1 = 0 \<longleftrightarrow> \<not> meets e k"
    using deadline_occupancy [OF s1(2) assms k s1(3)] by (simp add: deadline_of_def)
  show ?case
  proof (cases "meets e k")
    case False
    then show ?thesis
      using s1 occ k d unfolding list by (auto simp: Let_def verdict_def)
  next
    case True
    have "?d \<le> ?t" using ok(2) by (simp add: deadline_of_def)
    then obtain s2 a2 where s2: "advance_completions e ?t s1 = Inr s2" "fifo_inv e k a2 ?t s2"
        "\<forall>t. completion_time s2 = Some t \<longrightarrow> ?t < t" and occ2: "occupancy s1 \<le> occupancy s2"
      using advance_completions_inv [OF s1(2) _ assms] advance_occupancy by metis
    have "occupancy s2 \<noteq> 0" using occ occ2 True s1(2) by (auto simp: fifo_inv_def)
    let ?s3 = "s2\<lparr>occupancy := occupancy s2 - 1,
      minimum_occupancy := min (minimum_occupancy s2) (occupancy s2 - 1)\<rparr>"
    have inv: "fifo_inv e (Suc k) a2 ?t (start_if_possible e ?t ?s3)"
      by (rule read_word_inv [OF s2(2) assms \<open>occupancy s2 \<noteq> 0\<close> s2(3) refl])
    have "?t \<le> deadline_of e (Suc k)" using ok by (simp add: deadline_of_def algebra_simps)
    moreover have "n = nat (words e - int (Suc k))" "int (Suc k) \<le> words e"
      using Suc.hyps(2) k by linarith+
    ultimately obtain r where r: "sim_words e [int (Suc k)..words e - 1] (start_if_possible e ?t ?s3) = Inr r"
        "verdict e (Suc k) r"
      using Suc.hyps(1) [OF _ inv] by blast
    have "sim_words e [int k..words e - 1] s = Inr r"
      using s1(1) s2(1) r(1) occ True d unfolding list by (simp add: Let_def)
    then show ?thesis using verdict_Suc [OF r(2) True] by blast
  qed
qed

section \<open>The verdict of a depth\<close>

lemma schedulable_iff_meets:
  assumes "env_ok e"
  shows "schedulable e \<longleftrightarrow> (\<forall>k. int k < words e \<longrightarrow> meets e k)"
proof -
  have cap: "1 \<le> capacity e" using assms by (simp add: env_ok_def)
  have shift: "meets e (nat (capacity e) + j) \<longleftrightarrow>
      completion (service e) (period e) j \<le> period e * (of_int (capacity e) + of_nat j) - margin e" for j
    using cap by (simp add: meets_def)
  have "schedulable e \<longleftrightarrow> (\<forall>j. int (nat (capacity e) + j) < words e \<longrightarrow> meets e (nat (capacity e) + j))"
    unfolding schedulable_def shift using cap by (simp add: algebra_simps)
  also have "\<dots> \<longleftrightarrow> (\<forall>k. int k < words e \<longrightarrow> meets e k)"
  proof (intro iffI allI impI)
    fix k assume all: "\<forall>j. int (nat (capacity e) + j) < words e \<longrightarrow> meets e (nat (capacity e) + j)"
      and k: "int k < words e"
    show "meets e k"
    proof (cases "int k < capacity e")
      case False
      then have "k = nat (capacity e) + (k - nat (capacity e))" using cap by linarith
      then show ?thesis using all k by metis
    qed (simp add: meets_def)
  qed simp
  finally show ?thesis .
qed

lemma validate_ok:
  "validate c = Inr u \<longleftrightarrow>
     0 < payload_bytes c \<and> payload_bytes c mod 4 = 0 \<and> 0 < bridge_clock_hz c \<and> 0 < memory_clock_hz c \<and>
     0 < bridge_period_cycles c \<and> 0 \<le> setup_margin_mem_cycles c \<and> 0 \<le> reader_word_overhead_mem_cycles c \<and>
     (\<forall>h. halfword_service_bound_mem_cycles c = Some h \<longrightarrow> 0 < h) \<and>
     of_int (setup_margin_mem_cycles c) < bridge_period_mem_cycles c"
  by (auto simp: validate_def split: option.splits)

definition bounded_config :: "model_config \<Rightarrow> bool" where
  "bounded_config c \<longleftrightarrow> validate c = Inr () \<and> halfword_service_bound_mem_cycles c \<noteq> None"

definition depth_ok :: "model_config \<Rightarrow> int \<Rightarrow> bool" where
  "depth_ok c depth \<longleftrightarrow> schedulable (sim_env_of c (the (word_service_bound_mem_cycles c)) depth)"

lemma payload_words_pos: "validate c = Inr u \<Longrightarrow> 1 \<le> payload_words c"
  by (auto simp: validate_ok payload_words_def)

lemma sim_env_ok:
  assumes "bounded_config c" and "1 \<le> d" and "d \<le> payload_words c"
  shows "env_ok (sim_env_of c (the (word_service_bound_mem_cycles c)) d)"
proof -
  obtain h where h: "halfword_service_bound_mem_cycles c = Some h" "0 < h"
    using assms(1) by (auto simp: bounded_config_def validate_ok)
  have "0 < bridge_period_mem_cycles c"
    using assms(1) by (auto simp: bounded_config_def validate_ok bridge_period_mem_cycles_def)
  then show ?thesis
    using assms h by (auto simp: env_ok_def sim_env_of_def word_service_bound_mem_cycles_def
        bounded_config_def validate_ok)
qed

text \<open>The simulation is total on valid input and decides the reference schedule.\<close>

lemma simulate_depth_decides:
  assumes "bounded_config c" and "1 \<le> d" and "d \<le> payload_words c"
  shows "\<exists>r. simulate_depth c d = Inr r \<and> depth_words r = d \<and> (safe r \<longleftrightarrow> depth_ok c d) \<and>
    (failed_word_index r = None \<longleftrightarrow> safe r)"
proof -
  obtain b where b: "word_service_bound_mem_cycles c = Some b"
    using assms(1) by (auto simp: bounded_config_def word_service_bound_mem_cycles_def split: option.splits)
  let ?e = "sim_env_of c b d"
  let ?s = "\<lparr>occupancy = d, produced = d, minimum_occupancy = d, completion_time = None\<rparr>"
  have ok: "env_ok ?e" using sim_env_ok [OF assms] b by simp
  have "fifo_inv ?e 0 0 0 ?s"
    using assms by (simp add: fifo_inv_def sim_env_of_def)
  then obtain r where r: "sim_words ?e [int 0..words ?e - 1] ?s = Inr r" "verdict ?e 0 r"
    using sim_words_verdict [OF ok, of 0 0 0 ?s] assms by (auto simp: deadline_of_def sim_env_of_def)
  have "simulate_depth c d = Inr r"
    using r(1) assms b by (simp add: simulate_depth_def bounded_config_def sim_env_of_def)
  moreover have "safe r \<longleftrightarrow> schedulable ?e" "failed_word_index r = None \<longleftrightarrow> safe r" "depth_words r = capacity ?e"
    using r(2) unfolding verdict_def schedulable_iff_meets [OF ok] by (auto split: if_splits)
  moreover have "depth_ok c d \<longleftrightarrow> schedulable ?e" "capacity ?e = d"
    by (simp_all add: depth_ok_def b sim_env_of_def)
  ultimately show ?thesis by metis
qed

lemma depth_ok_full: "depth_ok c (payload_words c)"
  by (simp add: depth_ok_def schedulable_def sim_env_of_def)

lemma depth_ok_mono:
  assumes "bounded_config c" and "depth_ok c d" and "d \<le> d'"
  shows "depth_ok c d'"
proof -
  have per: "0 < bridge_period_mem_cycles c"
    using assms(1) by (auto simp: bounded_config_def validate_ok bridge_period_mem_cycles_def)
  show ?thesis
    unfolding depth_ok_def schedulable_def
  proof (intro allI impI)
    fix j
    let ?e = "\<lambda>d. sim_env_of c (the (word_service_bound_mem_cycles c)) d"
    assume j: "int j < words (?e d') - capacity (?e d')"
    have "completion (service (?e d)) (period (?e d)) j
        \<le> period (?e d) * (of_int (capacity (?e d)) + of_nat j) - margin (?e d)"
      using assms(2,3) j by (simp add: depth_ok_def schedulable_def sim_env_of_def)
    moreover have "period (?e d) * (of_int d + of_nat j) \<le> period (?e d) * (of_int d' + of_nat j)"
      using assms(3) per by (intro mult_left_mono) (simp_all add: sim_env_of_def)
    ultimately show "completion (service (?e d')) (period (?e d')) j
        \<le> period (?e d') * (of_int (capacity (?e d')) + of_nat j) - margin (?e d')"
      by (simp add: sim_env_of_def)
  qed
qed

lemma search_depth_least:
  "bounded_config c \<Longrightarrow> 1 \<le> low \<Longrightarrow> low \<le> high \<Longrightarrow> high \<le> payload_words c \<Longrightarrow> depth_ok c high \<Longrightarrow>
    (\<And>d. 1 \<le> d \<Longrightarrow> d < low \<Longrightarrow> \<not> depth_ok c d) \<Longrightarrow>
    \<exists>d. search_depth c low high = Inr d \<and> low \<le> d \<and> d \<le> high \<and> depth_ok c d \<and>
        (\<forall>d'. 1 \<le> d' \<and> d' < d \<longrightarrow> \<not> depth_ok c d')"
proof (induction c low high rule: search_depth.induct)
  case (1 c low high)
  show ?case
  proof (cases "low < high")
    case False
    then have "low = high" using "1.prems"(3) by simp
    moreover have "search_depth c high high = Inr high" by (simp add: search_depth.simps)
    ultimately show ?thesis using "1.prems" by blast
  next
    case True
    let ?m = "(low + high) div 2"
    have m: "low \<le> ?m" "?m < high" "1 \<le> ?m" "?m \<le> payload_words c" using True "1.prems" by auto
    obtain r where r: "simulate_depth c ?m = Inr r" "safe r \<longleftrightarrow> depth_ok c ?m"
      using simulate_depth_decides [OF "1.prems"(1) m(3,4)] by blast
    show ?thesis
    proof (cases "safe r")
      case True
      have "search_depth c low high = search_depth c low ?m"
        using \<open>low < high\<close> r(1) True by (simp add: search_depth.simps [of c low high] Let_def)
      moreover have "\<exists>d. search_depth c low ?m = Inr d \<and> low \<le> d \<and> d \<le> ?m \<and> depth_ok c d \<and>
          (\<forall>d'. 1 \<le> d' \<and> d' < d \<longrightarrow> \<not> depth_ok c d')"
        using "1.IH"(1) [OF \<open>low < high\<close> refl r(1) True] "1.prems" m r(2) True by blast
      ultimately show ?thesis using m by force
    next
      case False
      have "search_depth c low high = search_depth c (?m + 1) high"
        using \<open>low < high\<close> r(1) False by (simp add: search_depth.simps [of c low high] Let_def)
      moreover have "\<not> depth_ok c d" if "1 \<le> d" "d < ?m + 1" for d
        using depth_ok_mono [OF "1.prems"(1), of d ?m] that r(2) False by auto
      then have "\<exists>d. search_depth c (?m + 1) high = Inr d \<and> ?m + 1 \<le> d \<and> d \<le> high \<and> depth_ok c d \<and>
          (\<forall>d'. 1 \<le> d' \<and> d' < d \<longrightarrow> \<not> depth_ok c d')"
        using "1.IH"(2) [OF \<open>low < high\<close> refl r(1) False] "1.prems" m by auto
      ultimately show ?thesis using m by force
    qed
  qed
qed

text \<open>The search returns the least safe depth and never raises.\<close>

lemma minimum_safe_depth_least:
  assumes "bounded_config c"
  shows "\<exists>d r. minimum_safe_depth c = Inr (d, r) \<and> simulate_depth c d = Inr r \<and> safe r \<and>
    1 \<le> d \<and> d \<le> payload_words c \<and> depth_ok c d \<and> (\<forall>d'. 1 \<le> d' \<and> d' < d \<longrightarrow> \<not> depth_ok c d')"
proof -
  have pos: "1 \<le> payload_words c" using assms payload_words_pos by (auto simp: bounded_config_def)
  obtain b where b: "word_service_bound_mem_cycles c = Some b"
    using assms by (auto simp: bounded_config_def word_service_bound_mem_cycles_def split: option.splits)
  obtain f where f: "simulate_depth c (payload_words c) = Inr f" "safe f"
    using simulate_depth_decides [OF assms pos] depth_ok_full by blast
  obtain d where d: "search_depth c 1 (payload_words c) = Inr d" "1 \<le> d" "d \<le> payload_words c"
      "depth_ok c d" "\<forall>d'. 1 \<le> d' \<and> d' < d \<longrightarrow> \<not> depth_ok c d'"
    using search_depth_least [OF assms _ pos _ depth_ok_full] by auto
  obtain r where r: "simulate_depth c d = Inr r" "safe r"
    using simulate_depth_decides [OF assms d(2,3)] d(4) by blast
  have "minimum_safe_depth c = Inr (d, r)"
    using assms b f d(1) r(1) by (simp add: minimum_safe_depth_def bounded_config_def)
  then show ?thesis using d r by blast
qed

section \<open>Closed form\<close>

text \<open>
  When the producer keeps up (\<open>S \<le> T\<close>) production \<open>j\<close> completes at \<open>j T + S\<close>, otherwise the
  producer is never idle and production \<open>j\<close> completes at \<open>(j + 1) S\<close>.
\<close>

lemma completion_fast: "0 < S \<Longrightarrow> S \<le> T \<Longrightarrow> completion S T j = T * of_nat j + S"
  by (induction j) (auto simp: max_def algebra_simps)

lemma completion_slow: "0 < T \<Longrightarrow> T \<le> S \<Longrightarrow> completion S T j = S * (of_nat j + 1)"
proof (induction j)
  case 0
  then show ?case by simp
next
  case (Suc j)
  have "T * of_nat (Suc j) \<le> S * of_nat (Suc j)" using Suc.prems by (intro mult_right_mono) simp_all
  then show ?case using Suc by (simp add: max_def algebra_simps)
qed

lemma depth_ok_fast:
  assumes "bounded_config c" and "word_service_bound_mem_cycles c = Some b"
    and "of_int b \<le> bridge_period_mem_cycles c" and "1 \<le> d" and "d < payload_words c"
  shows "depth_ok c d \<longleftrightarrow>
    of_int (b + setup_margin_mem_cycles c) \<le> bridge_period_mem_cycles c * of_int d"
proof -
  have "0 < b"
    using sim_env_ok [OF assms(1,4)] assms(2,5) by (auto simp: env_ok_def sim_env_of_def)
  then have "completion (of_int b) (bridge_period_mem_cycles c) j = bridge_period_mem_cycles c * of_nat j + of_int b" for j
    using assms(3) by (intro completion_fast) auto
  then have "depth_ok c d \<longleftrightarrow> (\<forall>j. int j < payload_words c - d \<longrightarrow>
      of_int (b + setup_margin_mem_cycles c) \<le> bridge_period_mem_cycles c * of_int d)"
    using assms(2) by (simp add: depth_ok_def schedulable_def sim_env_of_def algebra_simps)
  moreover have "int 0 < payload_words c - d" using assms(5) by simp
  ultimately show ?thesis by blast
qed

section \<open>Properties of the depth model\<close>

text \<open>
  C15: The event simulation decides the real-time question. For a valid configuration with a
  service bound and any depth from one word to the whole payload, the simulation never hits its
  internal assertion, and it reports the depth safe exactly when every word's completion time
  under the serialized producer meets the deadline of its read.
\<close>

theorem simulation_decides_deadlines:
  assumes "bounded_config c" and "1 \<le> d" and "d \<le> payload_words c"
  shows "\<exists>r. simulate_depth c d = Inr r \<and> depth_words r = d \<and>
    (safe r \<longleftrightarrow> schedulable (sim_env_of c (the (word_service_bound_mem_cycles c)) d)) \<and>
    (failed_word_index r = None \<longleftrightarrow> safe r)"
  using simulate_depth_decides [OF assms] by (auto simp: depth_ok_def)

text \<open>
  C30: The binary search returns the least safe depth. For a valid configuration with a bound the
  search succeeds, its depth simulates as safe, and every smaller depth simulates as unsafe.
\<close>

theorem minimum_depth_is_least:
  assumes "bounded_config c"
  shows "\<exists>d r. minimum_safe_depth c = Inr (d, r) \<and> 1 \<le> d \<and> d \<le> payload_words c \<and>
    simulate_depth c d = Inr r \<and> safe r \<and>
    (\<forall>d'. 1 \<le> d' \<and> d' < d \<longrightarrow> (\<exists>r'. simulate_depth c d' = Inr r' \<and> \<not> safe r'))"
proof -
  obtain d r where d: "minimum_safe_depth c = Inr (d, r)" "simulate_depth c d = Inr r" "safe r"
      "1 \<le> d" "d \<le> payload_words c" "\<forall>d'. 1 \<le> d' \<and> d' < d \<longrightarrow> \<not> depth_ok c d'"
    using minimum_safe_depth_least [OF assms] by blast
  have "\<exists>r'. simulate_depth c d' = Inr r' \<and> \<not> safe r'" if "1 \<le> d'" "d' < d" for d'
    using simulate_depth_decides [OF assms that(1)] that d(5,6) by fastforce
  then show ?thesis using d by blast
qed

text \<open>
  The verdict fails closed. \<open>main\<close> exits with status 0 only for a valid configuration with a
  proven service bound; without a bound it exits with 2 for any valid configuration, and the
  analysis then claims neither safety nor a depth.
\<close>

theorem verdict_fails_closed:
  "(main_status to_float c v = Inr 0 \<longrightarrow> bounded_config c) \<and>
   (validate c = Inr () \<and> halfword_service_bound_mem_cycles c = None \<longrightarrow>
      main_status to_float c v = Inr 2 \<and>
      (\<exists>a. analyze to_float c v = Inr a \<and> \<not> a_safe a \<and> a_minimum_fifo_depth_words a = None))"
proof (intro conjI impI)
  assume "main_status to_float c v = Inr 0"
  then obtain a where a: "analyze to_float c v = Inr a" "a_safe a"
    by (auto simp: main_status_def split: sum.splits py_error.splits if_splits)
  then have "validate c = Inr ()" by (auto simp: analyze_def res_simps)
  moreover have "halfword_service_bound_mem_cycles c \<noteq> None"
  proof
    assume "halfword_service_bound_mem_cycles c = None"
    then have "a = base_analysis to_float c" using a(1) by (auto simp: analyze_def res_simps)
    then show False using a(2) by (simp add: base_analysis_def)
  qed
  ultimately show "bounded_config c" by (simp add: bounded_config_def)
next
  assume c: "validate c = Inr () \<and> halfword_service_bound_mem_cycles c = None"
  then have "analyze to_float c v = Inr (base_analysis to_float c)" by (simp add: analyze_def)
  then show "main_status to_float c v = Inr 2"
    and "\<exists>a. analyze to_float c v = Inr a \<and> \<not> a_safe a \<and> a_minimum_fifo_depth_words a = None"
    by (simp_all add: main_status_def base_analysis_def)
qed

text \<open>
  The depth of a fast producer in closed form. When a word is produced within one bridge
  period, a depth short of the whole payload is safe exactly when that many periods cover one
  service time and the setup margin.
\<close>

theorem fast_producer_depth:
  assumes "bounded_config c" and "word_service_bound_mem_cycles c = Some b"
    and "of_int b \<le> bridge_period_mem_cycles c" and "1 \<le> d" and "d < payload_words c"
  shows "\<exists>r. simulate_depth c d = Inr r \<and>
    (safe r \<longleftrightarrow> of_int (b + setup_margin_mem_cycles c) \<le> bridge_period_mem_cycles c * of_int d)"
  using simulate_depth_decides [OF assms(1,4)] depth_ok_fast [OF assms] assms(5) by fastforce

text \<open>A configuration with 16 words, a period of 8 memory cycles and a word service bound of 7.\<close>

definition small_config :: model_config where
  "small_config = \<lparr>payload_bytes = 64, bridge_clock_hz = 1, memory_clock_hz = 2,
     bridge_period_cycles = 4, setup_margin_mem_cycles = 2, reader_word_overhead_mem_cycles = 3,
     halfword_service_bound_mem_cycles = Some 2\<rparr>"

lemma small_config_ok: "bounded_config small_config"
  by (simp add: bounded_config_def validate_def small_config_def bridge_period_mem_cycles_def)

theorem simulation_decides_deadlines_witness: "\<exists>r. simulate_depth small_config 3 = Inr r \<and> depth_words r = 3"
proof -
  have "\<exists>r. simulate_depth small_config 3 = Inr r \<and> depth_words r = 3 \<and>
      (safe r \<longleftrightarrow> schedulable (sim_env_of small_config (the (word_service_bound_mem_cycles small_config)) 3)) \<and>
      (failed_word_index r = None \<longleftrightarrow> safe r)"
    by (rule simulation_decides_deadlines [OF small_config_ok]) (simp_all add: payload_words_def small_config_def)
  then show ?thesis by blast
qed

theorem minimum_depth_is_least_witness:
  "\<exists>d r. minimum_safe_depth small_config = Inr (d, r) \<and> 1 \<le> d \<and> d \<le> 16 \<and> safe r"
  using minimum_depth_is_least [OF small_config_ok] by (auto simp: payload_words_def small_config_def)

theorem verdict_fails_closed_witness:
  "main_status (\<lambda>_. ()) default_config None = Inr 2"
proof -
  have "validate default_config = Inr ()"
    by (simp add: validate_def default_config_def bridge_period_mem_cycles_def)
  then show ?thesis
    using verdict_fails_closed [of "\<lambda>_. ()" default_config None] by (simp add: default_config_def)
qed

theorem fast_producer_depth_witness:
  "(\<exists>r. simulate_depth small_config 1 = Inr r \<and> \<not> safe r) \<and> (\<exists>r. simulate_depth small_config 2 = Inr r \<and> safe r)"
  using fast_producer_depth [OF small_config_ok, of 7 1] fast_producer_depth [OF small_config_ok, of 7 2]
  by (auto simp: word_service_bound_mem_cycles_def bridge_period_mem_cycles_def payload_words_def small_config_def)

end
