(* ===== verification/Yokoi_Frames.thy ===== *)
theory Yokoi_Frames
  imports Checksums
begin

text \<open>
  The host client of the cartridge service
  (\<^verbatim>\<open>firmware/yokoi-cart-service/tools/yokoi_cart.py\<close>), its port and its frames: encoding,
  resynchronising and decoding. The device operations built on them are in \<open>Yokoi_Cart\<close>.

  The world of the client is a record: the bytes the port will deliver, as the chunks in which
  reads return them (an empty chunk is a read that timed out), the packets written so far, the
  peer with its reaction to a packet, the clock, and the output file. The peer and the clock are
  code outside the repository's Python: they are fields of the world and left arbitrary. An
  operation returns its result and the world it leaves, also when it raises.

  Two limits of the port: what the peer sends after a packet is a finite list of chunks, so a peer that
  streams without end, on which the search of \<open>read_frame\<close> for the magic would not return, cannot be
  expressed; and reading or writing the port raises no error of the serial driver.
\<close>

section \<open>The world and its operations\<close>

record 'd world =
  rx :: "byte list list"
  tx :: "byte list list"
  dev :: 'd
  react :: "'d \<Rightarrow> byte list \<Rightarrow> 'd \<times> byte list list"
  clock :: "nat \<Rightarrow> rat"
  ticks :: nat
  seqno :: byte
  out_file :: "byte list option"

type_synonym ('d, 'a) io = "'d world \<Rightarrow> 'a res \<times> 'd world"

definition io_return :: "'a \<Rightarrow> ('d, 'a) io" where
  "io_return x w = (Inr x, w)"

definition io_raise :: "py_error \<Rightarrow> ('d, 'a) io" where
  "io_raise e w = (Inl e, w)"

definition io_bind :: "('d, 'a) io \<Rightarrow> ('a \<Rightarrow> ('d, 'b) io) \<Rightarrow> ('d, 'b) io" where
  "io_bind m f w = (case m w of (Inl e, w') \<Rightarrow> (Inl e, w') | (Inr x, w') \<Rightarrow> f x w')"

definition io_lift :: "'a res \<Rightarrow> ('d, 'a) io" where
  "io_lift r w = (r, w)"

lemma io_bind_Inr [res_simps]:
  "io_bind m f w = (Inr y, w') \<longleftrightarrow> (\<exists>x u. m w = (Inr x, u) \<and> f x u = (Inr y, w'))"
  by (auto simp: io_bind_def split: prod.splits sum.splits)

lemma io_basic [res_simps]:
  "io_return x w = (Inr y, w') \<longleftrightarrow> y = x \<and> w' = w"
  "io_raise e w = (Inr y, w') \<longleftrightarrow> False"
  "io_lift r w = (r', w') \<longleftrightarrow> r' = r \<and> w' = w"
  by (auto simp: io_return_def io_raise_def io_lift_def)

lemma io_if_raise [res_simps]:
  "(if b then io_raise e else m) w = (Inr y, w') \<longleftrightarrow> \<not> b \<and> m w = (Inr y, w')"
  "(if b then m else io_raise e) w = (Inr y, w') \<longleftrightarrow> b \<and> m w = (Inr y, w')"
  by (auto simp: io_raise_def)

lemma io_bind_cong [fundef_cong]:
  "w = w' \<Longrightarrow> m w' = m' w' \<Longrightarrow> (\<And>x u. m' w' = (Inr x, u) \<Longrightarrow> f x u = f' x u) \<Longrightarrow>
   io_bind m f w = io_bind m' f' w'"
  by (auto simp: io_bind_def split: prod.splits sum.splits)

text \<open>\<open>stream.read(n)\<close>: at most \<open>n\<close> bytes of what has arrived, empty when the port timed out.\<close>

definition stream_read :: "nat \<Rightarrow> ('d, byte list) io" where
  "stream_read n w =
     (case rx w of
        [] \<Rightarrow> (Inr [], w)
      | c # cs \<Rightarrow> if length c \<le> n then (Inr c, w\<lparr>rx := cs\<rparr>)
                  else (Inr (take n c), w\<lparr>rx := drop n c # cs\<rparr>))"

text \<open>\<open>stream.write(packet)\<close>: the peer sees the packet and its answer arrives.\<close>

definition stream_write :: "byte list \<Rightarrow> ('d, unit) io" where
  "stream_write packet w =
     (let (d, answer) = react w (dev w) packet
      in (Inr (), w\<lparr>tx := tx w @ [packet], dev := d, rx := rx w @ answer\<rparr>))"

definition monotonic :: "('d, rat) io" where
  "monotonic w = (Inr (clock w (ticks w)), w\<lparr>ticks := ticks w + 1\<rparr>)"

section \<open>Frames\<close>

definition MAGIC :: "byte list" where "MAGIC = [0x59, 0x4B]"

definition PROTOCOL_VERSION :: byte where "PROTOCOL_VERSION = 1"

definition MAX_TRANSFER :: nat where "MAX_TRANSFER = 128"

definition CMD_HELLO :: byte where "CMD_HELLO = 0x01"
definition CMD_GET_CART_INFO :: byte where "CMD_GET_CART_INFO = 0x02"
definition CMD_READ_ROM :: byte where "CMD_READ_ROM = 0x10"
definition CMD_READ_SRAM :: byte where "CMD_READ_SRAM = 0x11"
definition CMD_READ_EEPROM :: byte where "CMD_READ_EEPROM = 0x12"
definition CMD_WRITE_SRAM :: byte where "CMD_WRITE_SRAM = 0x20"
definition CMD_WRITE_EEPROM :: byte where "CMD_WRITE_EEPROM = 0x21"
definition CMD_PREPARE_WRITE :: byte where "CMD_PREPARE_WRITE = 0x30"
definition CMD_BEGIN_WRITE :: byte where "CMD_BEGIN_WRITE = 0x31"
definition CMD_CANCEL_WRITE :: byte where "CMD_CANCEL_WRITE = 0x32"

definition XMODEM_SOH :: byte where "XMODEM_SOH = 0x01"
definition XMODEM_EOT :: byte where "XMODEM_EOT = 0x04"
definition XMODEM_ACK :: byte where "XMODEM_ACK = 0x06"
definition XMODEM_NAK :: byte where "XMODEM_NAK = 0x15"
definition XMODEM_CAN :: byte where "XMODEM_CAN = 0x18"

text \<open>Little-endian packing and unpacking of \<open>struct\<close>; a value out of range raises.\<close>

fun le_bytes :: "nat \<Rightarrow> nat \<Rightarrow> byte list" where
  "le_bytes 0 v = []"
| "le_bytes (Suc n) v = word_of_nat v # le_bytes n (v div 256)"

fun le_value :: "byte list \<Rightarrow> nat" where
  "le_value [] = 0"
| "le_value (b # bs) = unat b + 256 * le_value bs"

definition pack_uint :: "nat \<Rightarrow> int \<Rightarrow> byte list res" where
  "pack_uint n v = (if 0 \<le> v \<and> v < 256 ^ n then Inr (le_bytes n (nat v)) else Inl StructError)"

record frame =
  f_version :: byte
  f_sequence :: byte
  f_command :: byte
  f_payload :: "byte list"

definition frame_body :: "byte \<Rightarrow> byte \<Rightarrow> byte list \<Rightarrow> byte list" where
  "frame_body command sequence payload =
     [PROTOCOL_VERSION, sequence, command] @ le_bytes 2 (length payload) @ payload"

definition encode_frame :: "byte \<Rightarrow> byte \<Rightarrow> byte list \<Rightarrow> byte list res" where
  "encode_frame command sequence payload =
     (if length payload > 0xFFFF then Inl (ValueError ''payload is too large'')
      else let body = frame_body command sequence payload
           in Inr (MAGIC @ body @ le_bytes 2 (nat (crc16_ccitt body 0xFFFF))))"

function read_exact_loop :: "byte list \<Rightarrow> nat \<Rightarrow> ('d, byte list) io" where
  "read_exact_loop result n w =
     (if length result < n then
        io_bind (stream_read (n - length result)) (\<lambda>chunk.
          if chunk = []
          then io_raise (TimeoutError ''timed out waiting for cartridge-service response'')
          else read_exact_loop (result @ chunk) n) w
      else (Inr result, w))"
  by pat_completeness auto
termination
  by (relation "measure (\<lambda>(result, n, w). n - length result)")
    (auto split: if_splits intro!: diff_less_mono2)

declare read_exact_loop.simps [simp del]

definition read_exact :: "nat \<Rightarrow> ('d, byte list) io" where
  "read_exact n = read_exact_loop [] n"

text \<open>What is still to be read, however it is cut into chunks.\<close>

definition pending :: "'d world \<Rightarrow> byte list" where
  "pending w = concat (rx w)"

definition no_timeout :: "'d world \<Rightarrow> bool" where
  "no_timeout w \<longleftrightarrow> [] \<notin> set (rx w)"

text \<open>Reading changes nothing but the input.\<close>

definition reads_only :: "'d world \<Rightarrow> 'd world \<Rightarrow> bool" where
  "reads_only w w' \<longleftrightarrow> (\<exists>r. w' = w\<lparr>rx := r\<rparr>) \<and> (no_timeout w \<longrightarrow> no_timeout w')"

lemma reads_only_refl [simp]: "reads_only w w"
  unfolding reads_only_def by (metis world.surjective world.update_convs(1))

lemma reads_only_trans [trans]: "reads_only u v \<Longrightarrow> reads_only v w \<Longrightarrow> reads_only u w"
  by (auto simp: reads_only_def)

lemma reads_only_fields:
  "reads_only w w' \<Longrightarrow> tx w' = tx w \<and> dev w' = dev w \<and> react w' = react w \<and> clock w' = clock w \<and>
     ticks w' = ticks w \<and> seqno w' = seqno w \<and> out_file w' = out_file w"
  by (auto simp: reads_only_def)

lemma stream_read_pending:
  assumes "stream_read n w = (Inr chunk, w')"
  shows "pending w = chunk @ pending w' \<and> length chunk \<le> n \<and> reads_only w w' \<and>
    (no_timeout w \<and> 0 < n \<and> pending w \<noteq> [] \<longrightarrow> chunk \<noteq> [])"
  using assms
  by (cases "rx w")
    (auto simp: stream_read_def pending_def no_timeout_def reads_only_def
      split: if_splits intro: exI [of _ "[]"])

lemma stream_read_ok: "\<exists>chunk w'. stream_read n w = (Inr chunk, w')"
  by (auto simp: stream_read_def split: list.splits)

lemma read_exact_loop_pending:
  "read_exact_loop result n w = (Inr bs, w') \<Longrightarrow> length result \<le> n \<Longrightarrow>
   \<exists>new. bs = result @ new \<and> pending w = new @ pending w' \<and> length bs = n \<and> reads_only w w'"
proof (induction result n w arbitrary: bs rule: read_exact_loop.induct)
  case (1 result n w)
  show ?case
  proof (cases "length result < n")
    case False
    then show ?thesis using "1.prems" by (auto simp: read_exact_loop.simps [of result n w])
  next
    case True
    then obtain chunk u where c: "stream_read (n - length result) w = (Inr chunk, u)" "chunk \<noteq> []"
        "read_exact_loop (result @ chunk) n u = (Inr bs, w')"
      using "1.prems" by (auto simp: read_exact_loop.simps [of result n w] res_simps)
    note sr = stream_read_pending [OF c(1)]
    then have "length (result @ chunk) \<le> n" using True by auto
    then obtain new where new: "bs = (result @ chunk) @ new" "pending u = new @ pending w'" "length bs = n"
        "reads_only u w'"
      using "1.IH" [OF True c(1,2,3)] by blast
    then show ?thesis
      using sr reads_only_trans by (intro exI [of _ "chunk @ new"]) auto
  qed
qed

lemma read_exact_loop_ok:
  "no_timeout w \<Longrightarrow> length result \<le> n \<Longrightarrow> n - length result \<le> length (pending w) \<Longrightarrow>
   \<exists>bs w'. read_exact_loop result n w = (Inr bs, w')"
proof (induction result n w rule: read_exact_loop.induct)
  case (1 result n w)
  show ?case
  proof (cases "length result < n")
    case False
    then show ?thesis by (simp add: read_exact_loop.simps [of result n w])
  next
    case True
    obtain chunk u where c: "stream_read (n - length result) w = (Inr chunk, u)"
      using stream_read_ok by blast
    note sr = stream_read_pending [OF c]
    have ne: "chunk \<noteq> []" using sr True "1.prems" by force
    have "\<exists>bs w'. read_exact_loop (result @ chunk) n u = (Inr bs, w')"
      using "1.IH" [OF True c ne] sr True "1.prems" by (auto simp: reads_only_def)
    then show ?thesis
      using True c ne by (simp add: read_exact_loop.simps [of result n w] io_bind_def)
  qed
qed

text \<open>\<open>_read_exact\<close> returns the next bytes of the stream, whatever the chunks.\<close>

lemma read_exact_pending:
  assumes "read_exact n w = (Inr bs, w')"
  shows "pending w = bs @ pending w' \<and> length bs = n \<and> reads_only w w'"
  using read_exact_loop_pending [of "[]" n w bs w'] assms by (auto simp: read_exact_def)

lemma read_exact_ok:
  assumes "no_timeout w" and "n \<le> length (pending w)"
  shows "\<exists>w'. read_exact n w = (Inr (take n (pending w)), w') \<and> pending w' = drop n (pending w) \<and> reads_only w w'"
proof -
  obtain bs w' where r: "read_exact n w = (Inr bs, w')"
    using read_exact_loop_ok [of w "[]" n] assms by (auto simp: read_exact_def)
  note p = read_exact_pending [OF r]
  then have "take n (pending w) = bs" "drop n (pending w) = pending w'" by simp_all
  then show ?thesis using r p by auto
qed

text \<open>The search for the magic: \<open>matched\<close> counts the bytes of it seen so far.\<close>

function sync_magic :: "nat \<Rightarrow> ('d, unit) io" where
  "sync_magic matched w =
     (if matched < length MAGIC then
        io_bind (read_exact 1) (\<lambda>bs u.
          if hd bs = MAGIC ! matched then sync_magic (matched + 1) u
          else sync_magic (if hd bs = MAGIC ! 0 then 1 else 0) u) w
      else (Inr (), w))"
  by pat_completeness auto
termination
  by (relation "measure (\<lambda>(matched, w). length (pending w))") (auto dest!: read_exact_pending)

declare sync_magic.simps [simp del]

definition read_frame :: "('d, frame) io" where
  "read_frame =
     io_bind (sync_magic 0) (\<lambda>_.
     io_bind (read_exact 5) (\<lambda>header.
       let len = le_value (take 2 (drop 3 header)) in
     io_bind (read_exact len) (\<lambda>payload.
     io_bind (read_exact 2) (\<lambda>crc.
       if int (le_value crc) \<noteq> crc16_ccitt (header @ payload) 0xFFFF
       then io_raise (ValueError ''response CRC mismatch'')
       else io_return \<lparr>f_version = header ! 0, f_sequence = header ! 1, f_command = header ! 2,
                       f_payload = payload\<rparr>))))"

section \<open>Framing lemmas\<close>

lemma le_bytes_length [simp]: "length (le_bytes n v) = n"
  by (induction n arbitrary: v) simp_all

lemma le_value_bytes: "le_value (le_bytes n v) = v mod 256 ^ n"
proof (induction n arbitrary: v)
  case 0
  then show ?case by simp
next
  case (Suc n)
  have "unat (word_of_nat v :: byte) = v mod 256" by (simp add: unat_of_nat)
  then show ?case using Suc by (simp add: mod_mult2_eq)
qed

lemma le_value_lt: "le_value bs < 256 ^ length bs"
proof (induction bs)
  case Nil
  then show ?case by simp
next
  case (Cons b bs)
  have "unat b < 256" using unsigned_less [of b] by simp
  then show ?case using Cons by simp
qed

text \<open>The magic search on plain bytes.\<close>

fun scan_magic :: "nat \<Rightarrow> byte list \<Rightarrow> byte list option" where
  "scan_magic m bs =
     (if m < length MAGIC then
        (case bs of [] \<Rightarrow> None
         | b # cs \<Rightarrow> scan_magic (if b = MAGIC ! m then m + 1 else if b = MAGIC ! 0 then 1 else 0) cs)
      else Some bs)"

declare scan_magic.simps [simp del]

lemma sync_magic_scan:
  "scan_magic m bs = Some rest \<Longrightarrow> pending w = bs \<Longrightarrow> no_timeout w \<Longrightarrow>
   \<exists>w'. sync_magic m w = (Inr (), w') \<and> pending w' = rest \<and> reads_only w w'"
proof (induction m bs arbitrary: w rule: scan_magic.induct)
  case (1 m bs)
  show ?case
  proof (cases "m < length MAGIC")
    case False
    then show ?thesis
      using "1.prems" by (simp add: scan_magic.simps [of m bs] sync_magic.simps [of m w])
  next
    case True
    then obtain b cs where bs: "bs = b # cs"
      using "1.prems"(1) by (auto simp: scan_magic.simps [of m bs] split: list.splits)
    let ?m = "if b = MAGIC ! m then m + 1 else if b = MAGIC ! 0 then 1 else 0"
    obtain u where u: "read_exact 1 w = (Inr [b], u)" "pending u = cs" "reads_only w u"
      using read_exact_ok [of w 1] "1.prems" bs by auto
    have "scan_magic m bs = scan_magic ?m cs"
      using True bs by (simp only: scan_magic.simps [of m "b # cs"] if_True list.case)
    then have "scan_magic ?m cs = Some rest" using "1.prems"(1) by simp
    moreover have "no_timeout u" using u(3) "1.prems"(3) by (auto simp: reads_only_def)
    ultimately obtain w' where w': "sync_magic ?m u = (Inr (), w')" "pending w' = rest" "reads_only u w'"
      using "1.IH" [OF True bs] u(2) by blast
    moreover have "sync_magic m w = sync_magic ?m u"
      using True u(1) by (simp add: sync_magic.simps [of m w] io_bind_def)
    ultimately show ?thesis using u(3) reads_only_trans by metis
  qed
qed

definition free_of_magic :: "byte list \<Rightarrow> bool" where
  "free_of_magic bs \<longleftrightarrow> (\<forall>p q. bs \<noteq> p @ MAGIC @ q)"

lemma free_of_magic_Cons: "free_of_magic (b # bs) \<Longrightarrow> free_of_magic bs"
  unfolding free_of_magic_def by (metis append_Cons)

lemma free_of_magic_head: "free_of_magic (0x59 # c # bs) \<Longrightarrow> c \<noteq> 0x4B"
  unfolding free_of_magic_def MAGIC_def by (metis append_Cons append_Nil)

lemma scan_magic_junk:
  "free_of_magic junk \<Longrightarrow> m = 0 \<or> m = 1 \<and> (junk = [] \<or> hd junk \<noteq> 0x4B) \<Longrightarrow>
   scan_magic m (junk @ MAGIC @ rest) = Some rest"
proof (induction junk arbitrary: m)
  case Nil
  have two: "scan_magic (Suc (Suc 0)) rest = Some rest" by (simp add: scan_magic.simps MAGIC_def)
  then have one: "scan_magic (Suc 0) (0x4B # rest) = Some rest"
    by (subst scan_magic.simps) (simp add: MAGIC_def)
  then have "scan_magic 0 (0x59 # 0x4B # rest) = Some rest"
    by (subst scan_magic.simps) (simp add: MAGIC_def)
  moreover have "scan_magic (Suc 0) (0x59 # 0x4B # rest) = Some rest"
    using one by (subst scan_magic.simps) (simp add: MAGIC_def)
  ultimately show ?case using Nil by (auto simp: MAGIC_def)
next
  case (Cons b junk)
  let ?m = "if b = MAGIC ! m then m + 1 else if b = MAGIC ! 0 then 1 else 0"
  have m: "?m = (if b = 0x59 then 1 else 0)"
    using Cons.prems(2) by (auto simp: MAGIC_def)
  have "scan_magic ?m (junk @ MAGIC @ rest) = Some rest"
  proof (rule Cons.IH)
    show "free_of_magic junk" using Cons.prems(1) by (rule free_of_magic_Cons)
    show "?m = 0 \<or> ?m = 1 \<and> (junk = [] \<or> hd junk \<noteq> 0x4B)"
      using Cons.prems(1) free_of_magic_head unfolding m by (cases junk) auto
  qed
  moreover have "m < length MAGIC" using Cons.prems(2) by (auto simp: MAGIC_def)
  ultimately show ?case by (subst scan_magic.simps) simp
qed

lemma crc16_seed_range: "0 \<le> crc16_ccitt bs 0xFFFF \<and> crc16_ccitt bs 0xFFFF < 0x10000"
  by (rule crc16_ccitt_range) simp_all

text \<open>
  What \<open>read_frame\<close> does once the magic has been found: the header and payload of the announced
  length are read, and their checksum decides.
\<close>

lemma read_frame_body:
  assumes "pending w = junk @ MAGIC @ header @ payload @ crc @ rest" and "free_of_magic junk"
    and "no_timeout w" and "length header = 5" and "length crc = 2"
    and "le_value (take 2 (drop 3 header)) = length payload"
  shows "\<exists>w'. reads_only w w' \<and> pending w' = rest \<and> read_frame w =
    (if int (le_value crc) \<noteq> crc16_ccitt (header @ payload) 0xFFFF
     then Inl (ValueError ''response CRC mismatch'')
     else Inr \<lparr>f_version = header ! 0, f_sequence = header ! 1, f_command = header ! 2,
               f_payload = payload\<rparr>, w')"
proof -
  have "scan_magic 0 (pending w) = Some (header @ payload @ crc @ rest)"
    unfolding assms(1) using scan_magic_junk [OF assms(2)] by simp
  from sync_magic_scan [OF this refl assms(3)] obtain w1 where
    w1: "sync_magic 0 w = (Inr (), w1)" "pending w1 = header @ payload @ crc @ rest" "reads_only w w1"
    by blast
  have "no_timeout w1" using w1(3) assms(3) by (auto simp: reads_only_def)
  then obtain w2 where w2: "read_exact 5 w1 = (Inr header, w2)" "pending w2 = payload @ crc @ rest" "reads_only w1 w2"
    using read_exact_ok [of w1 5] w1(2) assms(4) by auto
  have "no_timeout w2" using w2(3) \<open>no_timeout w1\<close> by (auto simp: reads_only_def)
  then obtain w3 where w3: "read_exact (length payload) w2 = (Inr payload, w3)" "pending w3 = crc @ rest" "reads_only w2 w3"
    using read_exact_ok [of w2 "length payload"] w2(2) by auto
  have "no_timeout w3" using w3(3) \<open>no_timeout w2\<close> by (auto simp: reads_only_def)
  then obtain w4 where w4: "read_exact 2 w3 = (Inr crc, w4)" "pending w4 = rest" "reads_only w3 w4"
    using read_exact_ok [of w3 2] w3(2) assms(5) by auto
  have "reads_only w w4" using w1(3) w2(3) w3(3) w4(3) reads_only_trans by metis
  then show ?thesis
    using w1(1) w2(1) w3(1) w4 assms(6)
    by (auto simp: read_frame_def io_bind_def Let_def io_raise_def io_return_def)
qed

lemma frame_header:
  "frame_body command sequence payload =
     ([PROTOCOL_VERSION, sequence, command] @ le_bytes 2 (length payload)) @ payload"
  by (simp add: frame_body_def)

lemma encoded_length_field:
  "length payload \<le> 0xFFFF \<Longrightarrow>
   le_value (take 2 (drop 3 ([PROTOCOL_VERSION, sequence, command] @ le_bytes 2 (length payload)))) = length payload"
  by (simp add: le_value_bytes)

text \<open>A header and payload in which one byte outside the length field differs, checked as one list.\<close>

lemma read_frame_corrupt:
  fixes w :: "'d world"
  assumes pending: "pending w = junk @ MAGIC @ body[i := b] @ le_bytes 2 (nat (crc16_ccitt body 0xFFFF)) @ rest"
    and body: "body = frame_body command sequence payload" and len: "length payload \<le> 0xFFFF"
    and junk: "free_of_magic junk" and nt: "no_timeout w"
    and i: "i < length body" "i < 3 \<or> 5 \<le> i" and b: "b \<noteq> body ! i"
  shows "\<exists>w'. read_frame w = (Inl (ValueError ''response CRC mismatch''), w') \<and> reads_only w w' \<and> pending w' = rest"
proof -
  let ?h = "[PROTOCOL_VERSION, sequence, command] @ le_bytes 2 (length payload)"
  let ?bad = "body[i := b]"
  have bl: "length body = 5 + length payload" by (simp add: body frame_header)
  have split: "?bad = take 5 ?bad @ drop 5 ?bad" by simp
  have field: "take 2 (drop 3 (take 5 ?bad)) = le_bytes 2 (length payload)"
  proof (rule nth_equalityI)
    show "length (take 2 (drop 3 (take 5 ?bad))) = length (le_bytes 2 (length payload))"
      using bl by simp
    fix j assume "j < length (take 2 (drop 3 (take 5 ?bad)))"
    then have j: "j < 2" by simp
    have "?bad ! (3 + j) = body ! (3 + j)" using i(2) j by auto
    also have "\<dots> = le_bytes 2 (length payload) ! j"
      using j by (simp add: body frame_body_def nth_append nth_Cons' del: le_bytes.simps)
    finally show "take 2 (drop 3 (take 5 ?bad)) ! j = le_bytes 2 (length payload) ! j"
      using j bl by (simp add: nth_take nth_drop)
  qed
  have crc_range: "crc16_ccitt body 0xFFFF < 0x10000" "0 \<le> crc16_ccitt body 0xFFFF"
    using crc16_seed_range by auto
  then have crc: "int (le_value (le_bytes 2 (nat (crc16_ccitt body 0xFFFF)))) = crc16_ccitt body 0xFFFF"
    by (simp add: le_value_bytes)
  have parts: "?bad = take i body @ b # drop (Suc i) body" "body = take i body @ body ! i # drop (Suc i) body"
    using i(1) by (simp_all add: upd_conv_take_nth_drop id_take_nth_drop)
  have differ: "crc16_ccitt ?bad 0xFFFF \<noteq> crc16_ccitt body 0xFFFF"
    using crc16_change_detected [OF _ _ b, of "0xFFFF" "take i body" "drop (Suc i) body"] parts by simp
  obtain w' where "reads_only w w'" "pending w' = rest" "read_frame w =
    (if int (le_value (le_bytes 2 (nat (crc16_ccitt body 0xFFFF)))) \<noteq> crc16_ccitt (take 5 ?bad @ drop 5 ?bad) 0xFFFF
     then Inl (ValueError ''response CRC mismatch'')
     else Inr \<lparr>f_version = take 5 ?bad ! 0, f_sequence = take 5 ?bad ! 1, f_command = take 5 ?bad ! 2,
               f_payload = drop 5 ?bad\<rparr>, w')"
    using read_frame_body [of w junk "take 5 ?bad" "drop 5 ?bad" "le_bytes 2 (nat (crc16_ccitt body 0xFFFF))" rest]
      pending junk nt bl field len by (auto simp: le_value_bytes)
  then show ?thesis using crc differ split by auto
qed

lemma le_bytes_2: "le_bytes 2 v = [word_of_nat v, word_of_nat (v div 256)]"
  by (simp add: numeral_2_eq_2)

lemma crc_example: "crc16_ccitt [0x01, 0x07, 0x81, 0x01, 0x00, 0xAA] 0xFFFF = 0xA478"
  unfolding crc16_ccitt_def crc16_bit_def funpow_8 by simp

lemma read_frame_encoded:
  fixes w :: "'d world"
  assumes "encode_frame command sequence payload = Inr packet"
    and "pending w = junk @ packet @ rest" and "free_of_magic junk" and "no_timeout w"
  shows "\<exists>w'. read_frame w = (Inr \<lparr>f_version = PROTOCOL_VERSION, f_sequence = sequence,
      f_command = command, f_payload = payload\<rparr>, w') \<and> pending w' = rest \<and> reads_only w w'"
proof -
  let ?h = "[PROTOCOL_VERSION, sequence, command] @ le_bytes 2 (length payload)"
  let ?c = "crc16_ccitt (?h @ payload) 0xFFFF"
  have len: "length payload \<le> 0xFFFF" and packet: "packet = MAGIC @ (?h @ payload) @ le_bytes 2 (nat ?c)"
    using assms(1) by (auto simp: encode_frame_def frame_header Let_def split: if_splits)
  have "?c < 0x10000" "0 \<le> ?c" using crc16_seed_range by auto
  then have crc: "int (le_value (le_bytes 2 (nat ?c))) = ?c" by (simp add: le_value_bytes)
  have at: "pending w = junk @ MAGIC @ ?h @ payload @ le_bytes 2 (nat ?c) @ rest"
    using assms(2) packet by simp
  have "\<exists>w'. reads_only w w' \<and> pending w' = rest \<and> read_frame w =
    (if int (le_value (le_bytes 2 (nat ?c))) \<noteq> ?c then Inl (ValueError ''response CRC mismatch'')
     else Inr \<lparr>f_version = ?h ! 0, f_sequence = ?h ! 1, f_command = ?h ! 2, f_payload = payload\<rparr>, w')"
    by (rule read_frame_body [OF at assms(3,4)])
      (simp_all only: encoded_length_field [OF len] length_append le_bytes_length, simp_all)
  then show ?thesis unfolding crc by auto
qed

section \<open>Properties of the frames\<close>

text \<open>
  C35: A frame read back is the frame sent. Whatever noise without the magic precedes it, and
  however the port cuts the stream into reads, reading an encoded frame returns its version,
  sequence, command and payload, consumes exactly the noise and the frame, and writes nothing.
\<close>

theorem frame_roundtrip:
  fixes w :: "'d world"
  assumes "encode_frame command sequence payload = Inr packet"
    and "pending w = junk @ packet @ rest" and "free_of_magic junk" and "no_timeout w"
  shows "\<exists>w'. read_frame w = (Inr \<lparr>f_version = PROTOCOL_VERSION, f_sequence = sequence,
      f_command = command, f_payload = payload\<rparr>, w') \<and> pending w' = rest \<and> tx w' = tx w"
  using read_frame_encoded [OF assms] by (auto dest: reads_only_fields)

theorem frame_roundtrip_witness:
  "\<exists>w'. read_frame \<lparr>rx = [[0x00, 0x59], [0x59], [0x4B, 0x01, 0x07, 0x81, 0x01, 0x00], [0xAA, 0x78, 0xA4]],
      tx = [], dev = (), react = \<lambda>_ _. ((), []), clock = of_nat, ticks = 0, seqno = 0, out_file = None\<rparr> =
    (Inr \<lparr>f_version = PROTOCOL_VERSION, f_sequence = 0x07, f_command = 0x81, f_payload = [0xAA]\<rparr>, w')"
proof -
  have "free_of_magic [0x00, 0x59]"
    by (auto simp: free_of_magic_def MAGIC_def Cons_eq_append_conv)
  moreover have "encode_frame 0x81 0x07 [0xAA] =
      Inr [0x59, 0x4B, 0x01, 0x07, 0x81, 0x01, 0x00, 0xAA, 0x78, 0xA4]"
    by (simp add: encode_frame_def frame_body_def MAGIC_def PROTOCOL_VERSION_def le_bytes_2 crc_example)
  ultimately show ?thesis
    using frame_roundtrip [where command = "0x81" and sequence = "0x07" and payload = "[0xAA]"
        and junk = "[0x00, 0x59]" and rest = "[]" and w = "\<lparr>rx = [[0x00, 0x59], [0x59],
          [0x4B, 0x01, 0x07, 0x81, 0x01, 0x00], [0xAA, 0x78, 0xA4]], tx = [], dev = (),
          react = \<lambda>_ _. ((), []), clock = of_nat, ticks = 0, seqno = 0, out_file = None\<rparr>"]
    by (fastforce simp: pending_def no_timeout_def)
qed

text \<open>
  C36: Damage is detected. If one byte of the version, sequence, command or payload of a frame
  arrives changed, reading fails with the CRC mismatch: the frame is never delivered with the
  wrong contents. (A changed length field moves the end of the frame and is not covered.)
\<close>

theorem frame_damage_detected:
  fixes w :: "'d world"
  assumes "length payload \<le> 0xFFFF" and "i < 5 + length payload" and "i < 3 \<or> 5 \<le> i"
    and "b \<noteq> frame_body command sequence payload ! i"
    and "pending w = junk @ MAGIC @ (frame_body command sequence payload)[i := b] @
      le_bytes 2 (nat (crc16_ccitt (frame_body command sequence payload) 0xFFFF)) @ rest"
    and "free_of_magic junk" and "no_timeout w"
  shows "\<exists>w'. read_frame w = (Inl (ValueError ''response CRC mismatch''), w') \<and> pending w' = rest"
  using read_frame_corrupt [OF assms(5) refl assms(1) assms(6,7) _ assms(3,4)] assms(2)
  by (auto simp: frame_header)

theorem frame_damage_detected_witness:
  "\<exists>w'. read_frame \<lparr>rx = [[0x00], [0x59, 0x4B, 0x01, 0x07, 0x81, 0x01, 0x00], [0xAB, 0x78, 0xA4]],
      tx = [], dev = (), react = \<lambda>_ _. ((), []), clock = of_nat, ticks = 0, seqno = 0, out_file = None\<rparr> =
    (Inl (ValueError ''response CRC mismatch''), w')"
proof -
  have "free_of_magic [0x00]"
    by (auto simp: free_of_magic_def MAGIC_def Cons_eq_append_conv)
  moreover have "(frame_body 0x81 0x07 [0xAA])[5 := 0xAB] = [0x01, 0x07, 0x81, 0x01, 0x00, 0xAB]"
    and "le_bytes 2 (nat (crc16_ccitt (frame_body 0x81 0x07 [0xAA]) 0xFFFF)) = [0x78, 0xA4]"
    and "frame_body 0x81 0x07 [0xAA] ! 5 = 0xAA"
    by (simp_all add: frame_body_def PROTOCOL_VERSION_def le_bytes_2 crc_example)
  ultimately show ?thesis
    using frame_damage_detected [where command = "0x81" and sequence = "0x07" and payload = "[0xAA]"
        and i = 5 and b = "0xAB" and junk = "[0x00]" and rest = "[]" and w = "\<lparr>rx = [[0x00],
          [0x59, 0x4B, 0x01, 0x07, 0x81, 0x01, 0x00], [0xAB, 0x78, 0xA4]], tx = [], dev = (),
          react = \<lambda>_ _. ((), []), clock = of_nat, ticks = 0, seqno = 0, out_file = None\<rparr>"]
    by (fastforce simp: pending_def no_timeout_def MAGIC_def)
qed

end
