(* ===== verification/Yokoi_Cart.thy ===== *)
theory Yokoi_Cart
  imports Yokoi_Frames
begin

unbundle bit_operations_syntax

text \<open>
  The device operations of the cartridge-service client
  (\<^verbatim>\<open>firmware/yokoi-cart-service/tools/yokoi_cart.py\<close>): request and response, cartridge
  information, reads and writes, the XMODEM upload, the dump and restore commands and the command
  dispatch. The peer is arbitrary: nothing is assumed of what it answers.
\<close>

section \<open>Requests\<close>

definition STATUS_NAMES :: "nat \<rightharpoonup> string" where
  "STATUS_NAMES = map_of
     [(0x00, ''ok''), (0x01, ''bad CRC''), (0x02, ''bad length''),
      (0x03, ''unsupported command or protocol''), (0x04, ''range error''),
      (0x05, ''write path is locked''), (0x06, ''requested save-memory type is absent''),
      (0x07, ''hold A+B on the console to confirm''),
      (0x08, ''cartridge changed during the write session''),
      (0x09, ''device readback verification failed''),
      (0x0A, ''write session or chunk sequence is invalid''),
      (0x0B, ''completed image CRC does not match'')]"

definition device_error_message :: "byte \<Rightarrow> string" where
  "device_error_message status =
     (case STATUS_NAMES (unat status) of Some name \<Rightarrow> name
      | None \<Rightarrow> ''device error 0x'' @ py_hex 2 (unat status))"

definition next_sequence :: "('d, byte) io" where
  "next_sequence w = (Inr (seqno w), w\<lparr>seqno := (seqno w + 1) AND 0xFF\<rparr>)"

definition check_response :: "byte \<Rightarrow> byte \<Rightarrow> frame \<Rightarrow> byte list res" where
  "check_response command sequence fr =
     (if f_version fr \<noteq> PROTOCOL_VERSION
      then Inl (RuntimeError ''device protocol version is unsupported'')
      else if f_sequence fr \<noteq> sequence \<or> f_command fr \<noteq> command OR 0x80
      then Inl (RuntimeError ''response does not match request'')
      else case f_payload fr of
             [] \<Rightarrow> Inl (RuntimeError ''response omitted its status byte'')
           | status # data \<Rightarrow> if status \<noteq> 0 then Inl (DeviceError (uint status)) else Inr data)"

definition request :: "byte \<Rightarrow> byte list \<Rightarrow> ('d, byte list) io" where
  "request command payload =
     io_bind next_sequence (\<lambda>sequence.
     io_bind (io_lift (encode_frame command sequence payload)) (\<lambda>packet.
     io_bind (stream_write packet) (\<lambda>_.
     io_bind read_frame (\<lambda>fr. io_lift (check_response command sequence fr)))))"

record cart_information =
  ci_flags :: nat
  ci_model :: nat
  ci_system_control :: nat
  ci_save_kind :: nat
  ci_eeprom_address_bits :: nat
  ci_rom_size :: nat
  ci_save_size :: nat
  ci_footer :: "byte list"

definition footer_valid :: "cart_information \<Rightarrow> bool" where
  "footer_valid info \<longleftrightarrow> ci_flags info AND 0x02 \<noteq> 0 \<and> ci_flags info AND 0x04 \<noteq> 0"

definition hello :: "('d, byte list) io" where
  "hello = request CMD_HELLO []"

definition parse_cart_info :: "byte list \<Rightarrow> cart_information" where
  "parse_cart_info data =
     \<lparr>ci_flags = unat (data ! 0), ci_model = unat (data ! 1), ci_system_control = unat (data ! 2),
      ci_save_kind = unat (data ! 3), ci_eeprom_address_bits = unat (data ! 4),
      ci_rom_size = le_value (take 4 (drop 5 data)), ci_save_size = le_value (take 4 (drop 9 data)),
      ci_footer = take 16 (drop 13 data)\<rparr>"

definition cart_info :: "('d, cart_information) io" where
  "cart_info =
     io_bind (request CMD_GET_CART_INFO []) (\<lambda>data.
       if length data \<noteq> 29 then io_raise (RuntimeError ''unexpected cartridge-info length'')
       else io_return (parse_cart_info data))"

text \<open>\<open>struct.pack\<close> of several unsigned fields, each with its width in bytes.\<close>

fun pack_fields :: "(nat \<times> int) list \<Rightarrow> byte list res" where
  "pack_fields [] = Inr []"
| "pack_fields ((n, v) # fs) = rbind (pack_uint n v) (\<lambda>b. rbind (pack_fields fs) (\<lambda>bs. Inr (b @ bs)))"

definition read_rom :: "int \<Rightarrow> int \<Rightarrow> int \<Rightarrow> ('d, byte list) io" where
  "read_rom bank offset count =
     io_bind (io_lift (pack_fields [(2, bank AND 0xFFFF), (2, offset), (1, count)])) (\<lambda>payload.
     io_bind (request CMD_READ_ROM payload) (\<lambda>data.
       if int (length data) \<noteq> count then io_raise (RuntimeError ''short ROM read'') else io_return data))"

definition read_sram :: "int \<Rightarrow> int \<Rightarrow> int \<Rightarrow> ('d, byte list) io" where
  "read_sram bank offset count =
     io_bind (io_lift (pack_fields [(2, bank AND 0xFFFF), (2, offset), (1, count)])) (\<lambda>payload.
     io_bind (request CMD_READ_SRAM payload) (\<lambda>data.
       if int (length data) \<noteq> count then io_raise (RuntimeError ''short SRAM read'') else io_return data))"

definition read_eeprom :: "int \<Rightarrow> int \<Rightarrow> ('d, byte list) io" where
  "read_eeprom address count =
     io_bind (io_lift (pack_fields [(2, address), (1, count)])) (\<lambda>payload.
     io_bind (request CMD_READ_EEPROM payload) (\<lambda>data.
       if int (length data) \<noteq> count then io_raise (RuntimeError ''short EEPROM read'') else io_return data))"

definition prepare_write :: "int \<Rightarrow> int \<Rightarrow> int \<Rightarrow> ('d, int) io" where
  "prepare_write save_kind image_size crc32 =
     io_bind (io_lift (pack_fields [(1, save_kind), (4, image_size), (4, crc32)])) (\<lambda>payload.
     io_bind (request CMD_PREPARE_WRITE payload) (\<lambda>data.
       if length data \<noteq> 2 then io_raise (RuntimeError ''unexpected prepare-write response length'')
       else io_return (int (le_value data))))"

definition begin_write :: "int \<Rightarrow> ('d, int) io" where
  "begin_write token =
     io_bind (io_lift (pack_fields [(2, token)])) (\<lambda>payload.
     io_bind (request CMD_BEGIN_WRITE payload) (\<lambda>data.
       if length data \<noteq> 4 then io_raise (RuntimeError ''unexpected begin-write response length'')
       else io_return (int (le_value data))))"

definition write_save :: "nat \<Rightarrow> byte list \<Rightarrow> ('d, int \<times> bool) io" where
  "write_save save_kind data =
     io_bind (request (if save_kind = 1 then CMD_WRITE_SRAM else CMD_WRITE_EEPROM) data) (\<lambda>answer.
       if length answer \<noteq> 5 then io_raise (RuntimeError ''unexpected write response length'')
       else io_return (int (le_value (take 4 answer)), answer ! 4 \<noteq> 0))"

definition cancel_write :: "('d, unit) io" where
  "cancel_write = io_bind (request CMD_CANCEL_WRITE []) (\<lambda>_. io_return ())"

section \<open>XMODEM upload\<close>

definition is_bootfriend :: "byte list \<Rightarrow> bool" where
  "is_bootfriend img \<longleftrightarrow> 4 \<le> length img \<and> take 2 img = [0x62, 0x46]"

definition xmodem_chunk :: "byte list \<Rightarrow> nat \<Rightarrow> byte list" where
  "xmodem_chunk img index =
     (let chunk = take 128 (drop (index * 128) img)
      in chunk @ replicate (128 - length chunk) 0x1A)"

definition xmodem_packet :: "byte list \<Rightarrow> nat \<Rightarrow> byte list" where
  "xmodem_packet img index =
     (let block_id = word_of_nat ((index + 1) mod 256) :: byte; chunk = xmodem_chunk img index
      in [XMODEM_SOH, block_id, block_id XOR 0xFF] @ chunk @ [word_of_nat (sum_list (map unat chunk))])"

fun send_block :: "byte list \<Rightarrow> nat \<Rightarrow> ('d, unit) io" where
  "send_block packet 0 = io_raise (RuntimeError ''XMODEM block failed'')"
| "send_block packet (Suc attempts) =
     io_bind (stream_write packet) (\<lambda>_.
     io_bind (read_exact 1) (\<lambda>reply.
       if hd reply = XMODEM_ACK then io_return ()
       else if hd reply = XMODEM_CAN then io_raise (RuntimeError ''Yokoi Boot cancelled the transfer'')
       else if hd reply \<noteq> XMODEM_NAK then io_raise (RuntimeError ''unexpected XMODEM response'')
       else send_block packet attempts))"

fun send_blocks :: "byte list \<Rightarrow> nat \<Rightarrow> nat list \<Rightarrow> ('d, unit) io" where
  "send_blocks img retries [] = io_return ()"
| "send_blocks img retries (i # is) =
     io_bind (send_block (xmodem_packet img i) retries) (\<lambda>_. send_blocks img retries is)"

fun send_eot :: "nat \<Rightarrow> ('d, unit) io" where
  "send_eot 0 = io_raise (RuntimeError ''Yokoi Boot did not acknowledge the end of the transfer'')"
| "send_eot (Suc attempts) =
     io_bind (stream_write [XMODEM_EOT]) (\<lambda>_.
     io_bind (read_exact 1) (\<lambda>reply.
       if hd reply = XMODEM_ACK then io_return ()
       else if hd reply = XMODEM_CAN then io_raise (RuntimeError ''Yokoi Boot cancelled the transfer'')
       else send_eot attempts))"

definition block_count :: "byte list \<Rightarrow> nat" where
  "block_count img = (length img + 127) div 128"

definition xmodem_send :: "byte list \<Rightarrow> nat \<Rightarrow> ('d, unit) io" where
  "xmodem_send img retries =
     (if \<not> is_bootfriend img
      then io_raise (ValueError ''firmware is not a BootFriend .bfb image'')
      else io_bind (read_exact 1) (\<lambda>start.
        if hd start \<noteq> XMODEM_NAK
        then io_raise (RuntimeError ''Yokoi Boot did not request an XMODEM transfer'')
        else io_bind (send_blocks img retries [0..<block_count img]) (\<lambda>_. send_eot retries)))"

text \<open>\<open>boot_service\<close>: the image file is read, then sent with the default number of attempts.\<close>

definition boot_service :: "byte list res \<Rightarrow> ('d, unit) io" where
  "boot_service firmware = io_bind (io_lift firmware) (\<lambda>img. xmodem_send img 10)"

section \<open>Dump and restore\<close>

text \<open>A \<open>for\<close> loop over a list, threading its variables; \<open>range(0, n, step)\<close>.\<close>

fun io_for :: "('e \<Rightarrow> 's \<Rightarrow> ('d, 's) io) \<Rightarrow> 'e list \<Rightarrow> 's \<Rightarrow> ('d, 's) io" where
  "io_for f [] s = io_return s"
| "io_for f (x # xs) s = io_bind (f x s) (\<lambda>t. io_for f xs t)"

definition range_step :: "nat \<Rightarrow> nat \<Rightarrow> nat list" where
  "range_step n step = map (\<lambda>k. k * step) [0..<(n + step - 1) div step]"

definition read_save_linear :: "cart_information \<Rightarrow> nat \<Rightarrow> nat \<Rightarrow> ('d, byte list) io" where
  "read_save_linear info position count =
     (if ci_save_kind info = 1 then
        let bank_count = (ci_save_size info + 0xFFFF) div 0x10000;
            bank_index = position div 0x10000;
            bank = (- int bank_count + int bank_index) AND 0xFFFF
        in read_sram bank (int position AND 0xFFFF) (int count)
      else if ci_save_kind info = 2 then read_eeprom (int position) (int count)
      else io_raise (RuntimeError ''cartridge does not have writable save memory''))"

text \<open>\<open>zlib.crc32\<close>: the reflected CRC-32 of the standard library.\<close>

definition crc32_bit :: "32 word \<Rightarrow> 32 word" where
  "crc32_bit c = (if bit c 0 then drop_bit 1 c XOR 0xEDB88320 else drop_bit 1 c)"

definition crc32 :: "byte list \<Rightarrow> int" where
  "crc32 data = uint (NOT (foldl (\<lambda>c b. (crc32_bit ^^ 8) (c XOR ucast b)) (NOT 0) data) :: 32 word)"

text \<open>
  The confirmation loop of \<open>restore_save\<close>: it asks again while the peer answers "hold A+B" and
  the deadline has not passed. Nothing in the code bounds it but the clock, so its value is
  \<open>None\<close> when it never returns.
\<close>

partial_function (option) await_confirm :: "int \<Rightarrow> rat \<Rightarrow> 'd world \<Rightarrow> (unit res \<times> 'd world) option" where
  "await_confirm token deadline w =
     (case begin_write token w of
        (Inr _, w1) \<Rightarrow> Some (Inr (), w1)
      | (Inl e, w1) \<Rightarrow>
          if (case e of DeviceError status \<Rightarrow> status \<noteq> 0x07 | _ \<Rightarrow> True) then Some (Inl e, w1)
          else (case monotonic w1 of
                  (Inl e', w2) \<Rightarrow> Some (Inl e', w2)
                | (Inr now, w2) \<Rightarrow>
                    if deadline \<le> now then Some (Inl e, w2) else await_confirm token deadline w2))"

declare await_confirm.simps [code]

definition write_step :: "nat \<Rightarrow> byte list \<Rightarrow> nat \<Rightarrow> bool \<Rightarrow> ('d, bool) io" where
  "write_step save_kind img position completed =
     (let chunk = take MAX_TRANSFER (drop position img) in
      io_bind (write_save save_kind chunk) (\<lambda>(next_position, completed').
        if next_position \<noteq> int position + int (length chunk)
        then io_raise (RuntimeError ''device advanced to unexpected write position'')
        else io_return completed'))"

definition verify_step :: "cart_information \<Rightarrow> byte list \<Rightarrow> nat \<Rightarrow> unit \<Rightarrow> ('d, unit) io" where
  "verify_step info img position u =
     (let expected = take MAX_TRANSFER (drop position img) in
      io_bind (read_save_linear info position (length expected)) (\<lambda>actual.
        if actual \<noteq> expected then io_raise (RuntimeError ''full readback mismatch'') else io_return ()))"

text \<open>\<open>restore_save\<close>, in the three parts the confirmation loop separates.\<close>

definition restore_checks :: "cart_information \<Rightarrow> byte list \<Rightarrow> bool \<Rightarrow> string \<Rightarrow> unit res" where
  "restore_checks info img assume_yes answer =
     (if ci_save_kind info \<notin> {1, 2} \<or> ci_save_size info = 0
      then Inl (RuntimeError ''cartridge footer does not declare SRAM or EEPROM save memory'')
      else if length img \<noteq> ci_save_size info
      then Inl (RuntimeError ''save image does not have the size the cartridge requires'')
      else if \<not> assume_yes \<and> answer \<noteq> ''WRITE'' then Inl (RuntimeError ''write cancelled'')
      else Inr ())"

definition restore_open :: "cart_information \<Rightarrow> byte list res \<Rightarrow> bool \<Rightarrow> string \<Rightarrow> ('d, byte list \<times> int \<times> rat) io" where
  "restore_open info source assume_yes answer =
     io_bind (io_lift source) (\<lambda>img.
     io_bind (io_lift (restore_checks info img assume_yes answer)) (\<lambda>_.
     io_bind (prepare_write (int (ci_save_kind info)) (int (length img)) (crc32 img AND 0xFFFFFFFF)) (\<lambda>token.
     io_bind monotonic (\<lambda>now. io_return (img, token, now + 20)))))"

definition restore_body :: "cart_information \<Rightarrow> byte list \<Rightarrow> ('d, unit) io" where
  "restore_body info img =
     io_bind (io_for (write_step (ci_save_kind info) img) (range_step (length img) MAX_TRANSFER) False) (\<lambda>completed.
       if \<not> completed then io_raise (RuntimeError ''device did not mark the final write chunk complete'')
       else io_for (verify_step info img) (range_step (length img) MAX_TRANSFER) ())"

definition restore_save ::
  "cart_information \<Rightarrow> byte list res \<Rightarrow> bool \<Rightarrow> string \<Rightarrow> 'd world \<Rightarrow> (unit res \<times> 'd world) option" where
  "restore_save info source assume_yes answer w =
     (case restore_open info source assume_yes answer w of
        (Inl e, w1) \<Rightarrow> Some (Inl e, w1)
      | (Inr (img, token, deadline), w1) \<Rightarrow>
          (case await_confirm token deadline w1 of
             None \<Rightarrow> None
           | Some (Inl e, w2) \<Rightarrow> Some (Inl e, w2)
           | Some (Inr u, w2) \<Rightarrow> Some (restore_body info img w2)))"

text \<open>\<open>output.open("xb")\<close> refuses an existing file; \<open>destination.write\<close> appends.\<close>

definition open_exclusive :: "('d, unit) io" where
  "open_exclusive w =
     (case out_file w of
        Some _ \<Rightarrow> (Inl (OSError ''File exists''), w)
      | None \<Rightarrow> (Inr (), w\<lparr>out_file := Some []\<rparr>))"

definition out_write :: "byte list \<Rightarrow> ('d, unit) io" where
  "out_write data w = (Inr (), w\<lparr>out_file := map_option (\<lambda>old. old @ data) (out_file w)\<rparr>)"

definition byte_sum :: "byte list \<Rightarrow> int" where
  "byte_sum bs = sum_list (map uint bs)"

definition rom_step :: "int \<Rightarrow> nat \<Rightarrow> int \<times> byte list \<Rightarrow> ('d, int \<times> byte list) io" where
  "rom_step bank offset acc =
     io_bind (read_rom bank (int offset) (int MAX_TRANSFER)) (\<lambda>data.
     io_bind (out_write data) (\<lambda>_.
       let tail = snd acc @ data
       in io_return ((fst acc + byte_sum data) AND 0xFFFF, drop (length tail - 2) tail)))"

definition rom_bank :: "nat \<Rightarrow> nat \<Rightarrow> int \<times> byte list \<Rightarrow> ('d, int \<times> byte list) io" where
  "rom_bank banks index acc =
     (let bank = (- int banks + int index) AND 0xFFFF
      in io_for (rom_step bank) (range_step 0x10000 MAX_TRANSFER) acc)"

definition dump_rom :: "cart_information \<Rightarrow> ('d, unit) io" where
  "dump_rom info =
     (if \<not> footer_valid info \<or> ci_rom_size info = 0 \<or> ci_rom_size info mod 0x10000 \<noteq> 0
      then io_raise (RuntimeError ''cartridge footer does not declare a supported ROM size'')
      else
        let banks = ci_rom_size info div 0x10000 in
        io_bind open_exclusive (\<lambda>_.
        io_bind (io_for (rom_bank banks) [0..<banks] (0, [])) (\<lambda>(checksum, final_bytes).
          if int (le_value final_bytes) \<noteq> (checksum - byte_sum final_bytes) AND 0xFFFF
          then io_raise (RuntimeError ''dumped ROM checksum mismatch'')
          else io_return ())))"

definition sram_step :: "int \<Rightarrow> nat \<Rightarrow> nat \<Rightarrow> unit \<Rightarrow> ('d, unit) io" where
  "sram_step bank bank_length offset u =
     io_bind (read_sram bank (int offset) (int (min MAX_TRANSFER (bank_length - offset)))) out_write"

definition sram_bank :: "nat \<Rightarrow> nat \<Rightarrow> nat \<Rightarrow> ('d, nat) io" where
  "sram_bank banks index remaining =
     (let bank = (- int banks + int index) AND 0xFFFF;
          bank_length = min remaining 0x10000
      in io_bind (io_for (sram_step bank bank_length) (range_step bank_length MAX_TRANSFER) ())
           (\<lambda>_. io_return (remaining - bank_length)))"

definition eeprom_step :: "nat \<Rightarrow> nat \<Rightarrow> unit \<Rightarrow> ('d, unit) io" where
  "eeprom_step save_size address u =
     io_bind (read_eeprom (int address) (int (min MAX_TRANSFER (save_size - address)))) out_write"

definition dump_save :: "cart_information \<Rightarrow> ('d, unit) io" where
  "dump_save info =
     (if ci_save_size info = 0 \<or> ci_save_kind info \<notin> {1, 2}
      then io_raise (RuntimeError ''cartridge footer does not declare supported save memory'')
      else io_bind open_exclusive (\<lambda>_.
        if ci_save_kind info = 1 then
          let banks = (ci_save_size info + 0xFFFF) div 0x10000
          in io_bind (io_for (sram_bank banks) [0..<banks] (ci_save_size info)) (\<lambda>_. io_return ())
        else io_for (eeprom_step (ci_save_size info)) (range_step (ci_save_size info) MAX_TRANSFER) ()))"

section \<open>The command line\<close>

definition model_name :: "nat \<Rightarrow> string" where
  "model_name value =
     (case map_of [(0x00, ''WonderSwan''), (0x01, ''Pocket Challenge V2''),
                   (0x82, ''WonderSwan Color''), (0x83, ''SwanCrystal'')] value of
        Some name \<Rightarrow> name | None \<Rightarrow> ''unknown (0x'' @ py_hex 2 value @ '')'')"

definition save_name :: "nat \<Rightarrow> string" where
  "save_name value =
     (case map_of [(0, ''none''), (1, ''SRAM''), (2, ''EEPROM''), (0xFF, ''unknown'')] value of
        Some name \<Rightarrow> name | None \<Rightarrow> ''unknown ('' @ py_str (int value) @ '')'')"

datatype action =
    Info
  | DumpRom
  | DumpSave
  | RestoreSave "byte list res" bool string

definition info_lines :: "cart_information \<Rightarrow> string list" where
  "info_lines info =
     [''Console: '' @ model_name (ci_model info),
      ''Cartridge self-test: '' @ (if ci_flags info AND 1 \<noteq> 0 then ''passed'' else ''not reported''),
      ''Footer: '' @ concat (map (\<lambda>b. py_hex 2 (unat b)) (ci_footer info)),
      ''ROM: '' @ py_str (int (ci_rom_size info)) @ '' bytes'',
      ''Save: '' @ save_name (ci_save_kind info) @ '', '' @ py_str (int (ci_save_size info)) @ '' bytes'']"

definition connect :: "byte list res option \<Rightarrow> ('d, cart_information) io" where
  "connect boot =
     io_bind (case boot of Some firmware \<Rightarrow> boot_service firmware | None \<Rightarrow> io_return ()) (\<lambda>_.
     io_bind hello (\<lambda>greeting.
       if length greeting < 14 \<or> take 5 (drop 9 greeting) \<noteq> map (\<lambda>c. word_of_nat (char_code c)) ''YOKOI''
       then io_raise (RuntimeError ''connected device is not Yokoi Cart Service'')
       else cart_info))"

definition main :: "byte list res option \<Rightarrow> action \<Rightarrow> 'd world \<Rightarrow> (string list res \<times> 'd world) option" where
  "main boot act w =
     (case connect boot w of
        (Inl e, w1) \<Rightarrow> Some (Inl e, w1)
      | (Inr info, w1) \<Rightarrow>
          (case act of
             Info \<Rightarrow> Some (io_return (info_lines info) w1)
           | DumpRom \<Rightarrow> Some (io_bind (dump_rom info) (\<lambda>_. io_return []) w1)
           | DumpSave \<Rightarrow> Some (io_bind (dump_save info) (\<lambda>_. io_return []) w1)
           | RestoreSave source assume_yes answer \<Rightarrow>
               map_option (\<lambda>(r, w2). (rbind r (\<lambda>_. Inr []), w2)) (restore_save info source assume_yes answer w1)))"

section \<open>What operations do to the world\<close>

text \<open>
  Frame facts: whatever happens, reading only consumes input, and a request adds exactly one
  packet to what was written (none when the payload does not fit a frame).
\<close>

lemma read_exact_loop_frame: "read_exact_loop result n w = (r, w') \<Longrightarrow> reads_only w w'"
proof (induction result n w rule: read_exact_loop.induct)
  case (1 result n w)
  show ?case
  proof (cases "length result < n")
    case False
    then show ?thesis using "1.prems" by (simp add: read_exact_loop.simps [of result n w])
  next
    case True
    obtain chunk u where c: "stream_read (n - length result) w = (Inr chunk, u)"
      using stream_read_ok by blast
    have ro: "reads_only w u" using stream_read_pending [OF c] by blast
    show ?thesis
    proof (cases "chunk = []")
      case True
      then show ?thesis using "1.prems" c ro \<open>length result < n\<close>
        by (simp add: read_exact_loop.simps [of result n w] io_bind_def io_raise_def)
    next
      case False
      have "read_exact_loop (result @ chunk) n u = (r, w')"
        using "1.prems" c False \<open>length result < n\<close>
        by (simp add: read_exact_loop.simps [of result n w] io_bind_def)
      then have "reads_only u w'" using "1.IH" [OF True c] False by simp
      then show ?thesis using ro reads_only_trans by blast
    qed
  qed
qed

lemma read_exact_frame: "read_exact n w = (r, w') \<Longrightarrow> reads_only w w'"
  by (auto simp: read_exact_def dest: read_exact_loop_frame)

lemma sync_magic_frame: "sync_magic m w = (r, w') \<Longrightarrow> reads_only w w'"
proof (induction m w rule: sync_magic.induct)
  case (1 m w)
  obtain x u where x: "read_exact 1 w = (x, u)" by fastforce
  note ro = read_exact_frame [OF x]
  show ?case
  proof (cases "m < length MAGIC")
    case False
    then show ?thesis using "1.prems" by (simp add: sync_magic.simps [of m w])
  next
    case True
    show ?thesis
    proof (cases x)
      case (Inl e)
      then show ?thesis using "1.prems" True x ro by (simp add: sync_magic.simps [of m w] io_bind_def)
    next
      case (Inr bs)
      note ih = "1.IH" [OF True x [unfolded Inr]]
      have "sync_magic (if hd bs = MAGIC ! m then m + 1 else if hd bs = MAGIC ! 0 then 1 else 0) u = (r, w')"
        using "1.prems" True x Inr by (auto simp: sync_magic.simps [of m w] io_bind_def split: if_splits)
      then have "reads_only u w'" using ih by (auto split: if_splits)
      then show ?thesis using ro reads_only_trans by blast
    qed
  qed
qed

lemma io_bind_reads_only:
  assumes "io_bind m f w = (r, w')"
    and "\<And>x u. m w = (x, u) \<Longrightarrow> reads_only w u"
    and "\<And>x u. m w = (Inr x, u) \<Longrightarrow> f x u = (r, w') \<Longrightarrow> reads_only u w'"
  shows "reads_only w w'"
  using assms by (cases "m w"; cases "fst (m w)") (auto simp: io_bind_def intro: reads_only_trans)

lemma read_frame_frame: "read_frame w = (r, w') \<Longrightarrow> reads_only w w'"
  unfolding read_frame_def
  by (erule io_bind_reads_only, erule sync_magic_frame, erule io_bind_reads_only, erule read_exact_frame,
      unfold Let_def, erule io_bind_reads_only, erule read_exact_frame, erule io_bind_reads_only,
      erule read_exact_frame) (auto simp: io_raise_def io_return_def split: if_splits)

text \<open>
  \<open>requests rs w w'\<close>: between the two states exactly the requests \<open>rs\<close> (command and payload) were
  written, each as one frame.
\<close>

definition request_packet :: "byte list \<Rightarrow> byte \<times> byte list \<Rightarrow> bool" where
  "request_packet packet r \<longleftrightarrow> (\<exists>sequence. encode_frame (fst r) sequence (snd r) = Inr packet)"

definition requests :: "(byte \<times> byte list) list \<Rightarrow> 'd world \<Rightarrow> 'd world \<Rightarrow> bool" where
  "requests rs w w' \<longleftrightarrow>
     (\<exists>ps. tx w' = tx w @ ps \<and> list_all2 request_packet ps rs)"

lemma requests_refl [simp]: "requests [] w w"
  by (simp add: requests_def)

lemma requests_trans: "requests rs u v \<Longrightarrow> requests rs' v w \<Longrightarrow> requests (rs @ rs') u w"
  unfolding requests_def by (auto intro!: list_all2_appendI)

lemma reads_only_requests: "reads_only w w' \<Longrightarrow> requests [] w w'"
  by (auto simp: requests_def dest: reads_only_fields)

definition quiet :: "'d world \<Rightarrow> 'd world \<Rightarrow> bool" where
  "quiet w w' \<longleftrightarrow> out_file w' = out_file w \<and> ticks w' = ticks w \<and> clock w' = clock w"

lemma quiet_refl [simp]: "quiet w w"
  by (simp add: quiet_def)

lemma request_frame:
  assumes "request command payload w = (r, w')" and "length payload \<le> 0xFFFF"
  shows "requests [(command, payload)] w w' \<and> quiet w w'"
proof -
  let ?w1 = "w\<lparr>seqno := (seqno w + 1) AND 0xFF\<rparr>"
  obtain packet where packet: "encode_frame command (seqno w) payload = Inr packet"
    using assms(2) by (auto simp: encode_frame_def Let_def)
  obtain d answer where react: "react w (dev w) packet = (d, answer)" by fastforce
  let ?w2 = "?w1\<lparr>tx := tx w @ [packet], dev := d, rx := rx w @ answer\<rparr>"
  obtain x u where x: "read_frame ?w2 = (x, u)" by fastforce
  note fr = reads_only_fields [OF read_frame_frame [OF x]]
  have "w' = u"
    using assms(1) packet react x
    by (auto simp: request_def io_bind_def next_sequence_def io_lift_def stream_write_def split: sum.splits)
  then show ?thesis using fr packet
    by (auto simp: requests_def request_packet_def quiet_def intro: exI [of _ "[packet]"])
qed

text \<open>The length of a packed payload.\<close>

lemma pack_uint_length: "pack_uint n v = Inr bs \<Longrightarrow> length bs = n"
  by (auto simp: pack_uint_def split: if_splits)

lemma pack_fields_length: "pack_fields fs = Inr bs \<Longrightarrow> length bs = sum_list (map fst fs)"
proof (induction fs arbitrary: bs)
  case Nil
  then show ?case by simp
next
  case (Cons f fs)
  then show ?case by (cases f) (auto simp: res_simps dest: pack_uint_length)
qed

text \<open>A request whose payload is packed: the payload is sent, or the packing error is returned.\<close>

lemma packed_request_frame:
  assumes "io_bind (io_lift (pack_fields fs)) (\<lambda>payload. io_bind (request command payload) (\<lambda>data u. (f data, u))) w = (r, w')"
    and "sum_list (map fst fs) \<le> 0xFFFF"
  shows "quiet w w' \<and>
    (case pack_fields fs of Inl e \<Rightarrow> r = Inl e \<and> w' = w
     | Inr payload \<Rightarrow> requests [(command, payload)] w w')"
proof (cases "pack_fields fs")
  case (Inl e)
  then show ?thesis using assms(1) by (simp add: io_bind_def io_lift_def)
next
  case (Inr payload)
  obtain x u where x: "request command payload w = (x, u)" by fastforce
  have "w' = u" using assms(1) Inr x by (auto simp: io_bind_def io_lift_def split: sum.splits)
  then show ?thesis using request_frame [OF x] pack_fields_length [OF Inr] assms(2) Inr by simp
qed

text \<open>
  \<open>follows rs r w w'\<close>: an operation that ended with \<open>r\<close> issued a prefix of the requests \<open>rs\<close>, and
  all of them when it succeeded.
\<close>

definition follows :: "(byte \<times> byte list) list \<Rightarrow> 'a res \<Rightarrow> 'd world \<Rightarrow> 'd world \<Rightarrow> bool" where
  "follows rs r w w' \<longleftrightarrow> (\<exists>k. requests (take k rs) w w') \<and> (isOk r \<longrightarrow> requests rs w w')"

lemma follows_all: "requests rs w w' \<Longrightarrow> follows rs r w w'"
  unfolding follows_def by (auto intro: exI [of _ "length rs"])

lemma follows_none: "follows rs (Inl e) w w"
  unfolding follows_def by (auto intro: exI [of _ 0])

lemma follows_return: "follows [] r w w"
  by (simp add: follows_all)

lemma follows_Inl: "follows rs (Inl e) w w' \<Longrightarrow> follows (rs @ rs') (Inl e') w w'"
proof -
  assume "follows rs (Inl e) w w'"
  then obtain k where "requests (take k rs) w w'" by (auto simp: follows_def)
  then have "requests (take (min k (length rs)) (rs @ rs')) w w'" by (cases "k \<le> length rs") simp_all
  then show ?thesis unfolding follows_def by (metis isOk_simps(2))
qed

lemma follows_append:
  assumes "follows rs (Inr x) w u" and "follows rs' r u w'"
  shows "follows (rs @ rs') r w w'"
proof -
  have a: "requests rs w u" using assms(1) by (simp add: follows_def)
  obtain k where "requests (take k rs') u w'" using assms(2) by (auto simp: follows_def)
  then have "requests (take (length rs + k) (rs @ rs')) w w'" using requests_trans [OF a] by simp
  moreover have "isOk r \<Longrightarrow> requests (rs @ rs') w w'"
    using assms(2) requests_trans [OF a] by (simp add: follows_def)
  ultimately show ?thesis unfolding follows_def by blast
qed

lemma follows_bind:
  assumes "io_bind m f w = (r, w')"
    and "\<And>x u. m w = (x, u) \<Longrightarrow> follows rs x w u"
    and "\<And>x u. m w = (Inr x, u) \<Longrightarrow> f x u = (r, w') \<Longrightarrow> follows rs' r u w'"
  shows "follows (rs @ rs') r w w'"
proof -
  obtain x u where x: "m w = (x, u)" by fastforce
  show ?thesis
  proof (cases x)
    case (Inl e)
    then show ?thesis using assms(1) x assms(2) [OF x] by (auto simp: io_bind_def intro: follows_Inl)
  next
    case (Inr y)
    then show ?thesis
      using assms(1) x assms(2) [OF x] assms(3) by (auto simp: io_bind_def intro: follows_append)
  qed
qed

lemma follows_for:
  assumes "\<And>x s w r w'. f x s w = (r, w') \<Longrightarrow> follows (q x) r w w'"
  shows "io_for f xs s w = (r, w') \<Longrightarrow> follows (concat (map q xs)) r w w'"
proof (induction xs arbitrary: s w)
  case Nil
  then show ?case by (simp add: io_return_def follows_return)
next
  case (Cons x xs)
  have "follows (q x @ concat (map q xs)) r w w'"
    by (rule follows_bind [OF Cons.prems [unfolded io_for.simps]]) (auto intro: assms Cons.IH)
  then show ?case by simp
qed

definition packed :: "byte \<Rightarrow> (nat \<times> int) list \<Rightarrow> byte \<times> byte list" where
  "packed command fs = (command, case pack_fields fs of Inl _ \<Rightarrow> [] | Inr payload \<Rightarrow> payload)"

lemma packed_follows:
  assumes "io_bind (io_lift (pack_fields fs)) (\<lambda>payload. io_bind (request command payload)
      (\<lambda>data. if bad data then io_raise e else io_return (g data))) w = (r, w')"
    and "sum_list (map fst fs) \<le> 0xFFFF"
  shows "follows [packed command fs] r w w' \<and> quiet w w'"
proof -
  have eq: "(\<lambda>data. if bad data then io_raise e else io_return (g data)) =
      (\<lambda>data u. (if bad data then Inl e else Inr (g data), u))"
    by (intro ext) (simp add: io_raise_def io_return_def)
  show ?thesis
    using packed_request_frame [OF assms(1) [unfolded eq] assms(2)]
    by (cases "pack_fields fs") (auto simp: packed_def follows_all follows_none)
qed

text \<open>The request each operation issues.\<close>

definition rom_request :: "int \<Rightarrow> nat \<Rightarrow> byte \<times> byte list" where
  "rom_request bank offset = packed CMD_READ_ROM [(2, bank AND 0xFFFF), (2, int offset), (1, int MAX_TRANSFER)]"

definition linear_request :: "cart_information \<Rightarrow> nat \<Rightarrow> nat \<Rightarrow> byte \<times> byte list" where
  "linear_request info position count =
     (if ci_save_kind info = 1
      then packed CMD_READ_SRAM
        [(2, (int (position div 0x10000) - int ((ci_save_size info + 0xFFFF) div 0x10000)) AND 0xFFFF),
         (2, int position AND 0xFFFF), (1, int count)]
      else packed CMD_READ_EEPROM [(2, int position), (1, int count)])"

definition write_request :: "nat \<Rightarrow> byte list \<Rightarrow> nat \<Rightarrow> byte \<times> byte list" where
  "write_request save_kind img position =
     (if save_kind = 1 then CMD_WRITE_SRAM else CMD_WRITE_EEPROM, take MAX_TRANSFER (drop position img))"

lemma read_rom_follows:
  "read_rom bank (int offset) (int MAX_TRANSFER) w = (r, w') \<Longrightarrow>
   follows [rom_request bank offset] r w w' \<and> quiet w w'"
  unfolding read_rom_def rom_request_def by (erule packed_follows) simp

lemma read_sram_follows:
  "read_sram bank offset count w = (r, w') \<Longrightarrow>
   follows [packed CMD_READ_SRAM [(2, bank AND 0xFFFF), (2, offset), (1, count)]] r w w' \<and> quiet w w'"
  unfolding read_sram_def by (erule packed_follows) simp

lemma read_eeprom_follows:
  "read_eeprom address count w = (r, w') \<Longrightarrow>
   follows [packed CMD_READ_EEPROM [(2, address), (1, count)]] r w w' \<and> quiet w w'"
  unfolding read_eeprom_def by (erule packed_follows) simp

lemma and_FFFF_idem [simp]: "(x :: int) AND 0xFFFF AND 0xFFFF = x AND 0xFFFF"
  by (simp add: and.assoc)

lemma read_save_linear_follows:
  assumes "read_save_linear info position count w = (r, w')"
  shows "follows [linear_request info position count] r w w' \<and> quiet w w'"
proof (cases "ci_save_kind info \<in> {1, 2}")
  case False
  then show ?thesis using assms by (auto simp: read_save_linear_def io_raise_def follows_none)
next
  case True
  then show ?thesis using assms
    by (auto simp: read_save_linear_def linear_request_def Let_def algebra_simps
        dest!: read_sram_follows read_eeprom_follows)
qed

lemma write_step_follows:
  assumes "write_step kind img position done w = (r, w')"
  shows "follows [write_request kind img position] r w w'"
proof -
  let ?chunk = "take MAX_TRANSFER (drop position img)"
  obtain x u where x: "request (if kind = 1 then CMD_WRITE_SRAM else CMD_WRITE_EEPROM) ?chunk w = (x, u)"
    by fastforce
  have "w' = u"
    using assms x
    by (auto simp: write_step_def write_save_def Let_def io_bind_def io_raise_def io_return_def
        split: sum.splits if_splits prod.splits)
  moreover have "length ?chunk \<le> 0xFFFF" by (simp add: MAX_TRANSFER_def)
  ultimately show ?thesis
    using request_frame [OF x] by (simp add: write_request_def follows_all)
qed

lemma verify_step_follows:
  assumes "verify_step info img position u w = (r, w')"
  shows "follows [linear_request info position (min MAX_TRANSFER (length img - position))] r w w'"
proof -
  have "follows ([linear_request info position (min MAX_TRANSFER (length img - position))] @ []) r w w'"
  proof (rule follows_bind)
    show "io_bind (read_save_linear info position (min MAX_TRANSFER (length img - position)))
       (\<lambda>actual. if actual \<noteq> take MAX_TRANSFER (drop position img)
         then io_raise (RuntimeError ''full readback mismatch'') else io_return ()) w = (r, w')"
      using assms by (simp add: verify_step_def Let_def min.commute)
  qed (auto simp: io_raise_def io_return_def follows_return split: if_splits dest: read_save_linear_follows)
  then show ?thesis by simp
qed

lemma begin_write_follows:
  assumes "begin_write token w = (r, w')"
  shows "follows [packed CMD_BEGIN_WRITE [(2, token)]] r w w' \<and> quiet w w'"
  using assms unfolding begin_write_def by (rule packed_follows) simp

lemma prepare_write_follows:
  assumes "prepare_write kind n crc w = (r, w')"
  shows "follows [packed CMD_PREPARE_WRITE [(1, kind), (4, n), (4, crc)]] r w w' \<and> quiet w w'"
  using assms unfolding prepare_write_def by (rule packed_follows) simp

text \<open>The token the peer hands out fits its field, so asking for confirmation always sends a packet.\<close>

lemma pack_uint_Inr: "0 \<le> v \<Longrightarrow> v < 256 ^ n \<Longrightarrow> pack_uint n v = Inr (le_bytes n (nat v))"
  by (simp add: pack_uint_def)

lemma prepare_write_token:
  assumes "prepare_write kind n crc w = (Inr token, w')"
  shows "0 \<le> token \<and> token < 0x10000"
proof -
  obtain data :: "byte list" where "length data = 2" "token = int (le_value data)"
    using assms by (auto simp: prepare_write_def res_simps)
  then show ?thesis using le_value_lt [of data] by simp
qed

lemma begin_write_requests:
  assumes "begin_write token w = (r, w')" and "0 \<le> token" and "token < 0x10000"
  shows "requests [packed CMD_BEGIN_WRITE [(2, token)]] w w'"
proof -
  have p: "pack_fields [(2, token)] = Inr (le_bytes 2 (nat token))"
    using assms(2,3) by (simp add: pack_uint_Inr)
  obtain x u where x: "request CMD_BEGIN_WRITE (le_bytes 2 (nat token)) w = (x, u)" by fastforce
  have "w' = u"
    using assms(1) x p
    by (auto simp: begin_write_def io_bind_def io_lift_def io_raise_def io_return_def split: sum.splits if_splits)
  then show ?thesis using request_frame [OF x] p by (simp add: packed_def)
qed

lemma monotonic_requests: "monotonic w = (r, w') \<Longrightarrow> requests [] w w'"
  by (auto simp: monotonic_def requests_def)

lemma await_confirm_requests:
  "await_confirm token deadline w = Some y \<Longrightarrow> 0 \<le> token \<and> token < 0x10000 \<longrightarrow>
    (\<exists>n. requests (replicate (Suc n) (packed CMD_BEGIN_WRITE [(2, token)])) w (snd y))"
proof (induction rule: await_confirm.raw_induct [rotated, consumes 1, case_names step])
  case (step rec token deadline w y)
  show ?case
  proof
    assume token: "0 \<le> token \<and> token < 0x10000"
    obtain x u where x: "begin_write token w = (x, u)" by fastforce
    note sent = begin_write_requests [OF x] token
    obtain now v where m: "monotonic u = (Inr now, v)" by (simp add: monotonic_def)
    have sent_v: "requests [packed CMD_BEGIN_WRITE [(2, token)]] w v"
      using requests_trans [OF begin_write_requests [OF x] monotonic_requests [OF m]] token by simp
    consider "snd y = u" | "snd y = v" | "rec token deadline v = Some y"
      using step.hyps x m by (auto split: sum.splits if_splits py_error.splits)
    then show "\<exists>n. requests (replicate (Suc n) (packed CMD_BEGIN_WRITE [(2, token)])) w (snd y)"
    proof cases
      case 1
      then show ?thesis using begin_write_requests [OF x] token by (intro exI [of _ 0]) simp
    next
      case 2
      then show ?thesis using sent_v by (intro exI [of _ 0]) simp
    next
      case 3
      then obtain n where "requests (replicate (Suc n) (packed CMD_BEGIN_WRITE [(2, token)])) v (snd y)"
        using step.IH token by blast
      then show ?thesis using requests_trans [OF sent_v] by (intro exI [of _ "Suc n"]) simp
    qed
  qed
qed

text \<open>The loop returns as soon as the clock has passed the deadline.\<close>

lemma await_confirm_returns:
  assumes "deadline \<le> clock w n" and "ticks w \<le> n"
  shows "\<exists>y. await_confirm token deadline w = Some y"
  using assms
proof (induction "n - ticks w" arbitrary: w rule: less_induct)
  case less
  obtain x u where x: "begin_write token w = (x, u)" by fastforce
  have t: "ticks u = ticks w" "clock u = clock w"
    using begin_write_follows [OF x] by (simp_all add: quiet_def)
  let ?v = "u\<lparr>ticks := ticks u + 1\<rparr>"
  have rec: "\<exists>y. await_confirm token deadline ?v = Some y" if "\<not> deadline \<le> clock u (ticks u)"
  proof (rule less.hyps)
    have "ticks w \<noteq> n" using that less.prems(1) t by auto
    then show "n - ticks ?v < n - ticks w" "ticks ?v \<le> n" using less.prems(2) t by auto
    show "deadline \<le> clock ?v n" using less.prems(1) t by simp
  qed
  then show ?case
    by (subst await_confirm.simps) (auto simp: x monotonic_def split: sum.splits py_error.splits)
qed

end
