(* ===== verification/Yokoi_Sessions.thy ===== *)
theory Yokoi_Sessions
  imports Yokoi_Cart
begin

unbundle bit_operations_syntax

text \<open>
  What whole sessions of the cartridge-service client guarantee
  (\<^verbatim>\<open>firmware/yokoi-cart-service/tools/yokoi_cart.py\<close>): the order of the requests of a restore,
  that a reported restore was read back, that the confirmation loop ends, the contents of a dump,
  and the packets of an XMODEM upload.
\<close>

section \<open>Chunks of an image\<close>

lemma concat_take_drop:
  "concat (map (\<lambda>k. take s (drop (k * s) xs)) [0..<m]) = take (m * s) xs"
proof (induction m)
  case 0
  then show ?case by simp
next
  case (Suc m)
  have "take (Suc m * s) xs = take (m * s) xs @ take s (drop (m * s) xs)"
    using take_add [of "m * s" s xs] by (simp add: add.commute)
  then show ?case using Suc by simp
qed

lemma ceil_div_mult: "0 < (s :: nat) \<Longrightarrow> n \<le> (n + s - 1) div s * s"
proof -
  assume s: "0 < s"
  have "(n + s - 1) div s * s + (n + s - 1) mod s = n + s - 1" by simp
  moreover have "(n + s - 1) mod s < s" using s by simp
  ultimately show ?thesis using s by linarith
qed

lemma concat_chunks:
  "0 < s \<Longrightarrow> concat (map (\<lambda>p. take s (drop p img)) (range_step (length img) s)) = img"
  using concat_take_drop [of s img "(length img + s - 1) div s"] ceil_div_mult [of s "length img"]
  by (simp add: range_step_def comp_def)

section \<open>Restoring a save\<close>

text \<open>Reading the whole save memory linearly: what the final verification compares the image with.\<close>

definition read_save_image :: "cart_information \<Rightarrow> ('d, byte list) io" where
  "read_save_image info =
     io_for (\<lambda>position acc. io_bind (read_save_linear info position (min MAX_TRANSFER (ci_save_size info - position)))
         (\<lambda>data. io_return (acc @ data)))
       (range_step (ci_save_size info) MAX_TRANSFER) []"

lemma verify_collects:
  "io_for (verify_step info img) ps () w = (Inr u, w') \<Longrightarrow>
   io_for (\<lambda>position acc. io_bind (read_save_linear info position (min MAX_TRANSFER (length img - position)))
       (\<lambda>data. io_return (acc @ data))) ps acc w
     = (Inr (acc @ concat (map (\<lambda>p. take MAX_TRANSFER (drop p img)) ps)), w')"
proof (induction ps arbitrary: acc w)
  case Nil
  then show ?case by (simp add: io_return_def)
next
  case (Cons p ps)
  then obtain v where v: "verify_step info img p () w = (Inr (), v)"
      "io_for (verify_step info img) ps () v = (Inr u, w')"
    by (auto simp: res_simps)
  from v(1) have "read_save_linear info p (min MAX_TRANSFER (length img - p)) w =
      (Inr (take MAX_TRANSFER (drop p img)), v)"
    by (auto simp: verify_step_def Let_def res_simps min.commute)
  then show ?case using Cons.IH [OF v(2)] by (simp add: io_bind_def io_return_def)
qed

definition restore_plan :: "cart_information \<Rightarrow> byte list \<Rightarrow> int \<Rightarrow> nat \<Rightarrow> (byte \<times> byte list) list" where
  "restore_plan info img token n =
     [packed CMD_PREPARE_WRITE [(1, int (ci_save_kind info)), (4, int (length img)), (4, crc32 img AND 0xFFFFFFFF)]]
     @ replicate (Suc n) (packed CMD_BEGIN_WRITE [(2, token)])
     @ map (write_request (ci_save_kind info) img) (range_step (length img) MAX_TRANSFER)
     @ map (\<lambda>p. linear_request info p (min MAX_TRANSFER (length img - p))) (range_step (length img) MAX_TRANSFER)"

lemma follows_for1:
  assumes "\<And>x s w r w'. f x s w = (r, w') \<Longrightarrow> follows [q x] r w w'"
  shows "io_for f xs s w = (r, w') \<Longrightarrow> follows (map q xs) r w w'"
  using follows_for [of f "\<lambda>x. [q x]" xs s w r w'] assms by simp

lemma restore_body_follows:
  assumes "restore_body info img w = (r, w')"
  shows "follows (map (write_request (ci_save_kind info) img) (range_step (length img) MAX_TRANSFER)
     @ map (\<lambda>p. linear_request info p (min MAX_TRANSFER (length img - p))) (range_step (length img) MAX_TRANSFER)) r w w'"
  using assms unfolding restore_body_def
proof (rule follows_bind)
  show "io_for (write_step (ci_save_kind info) img) (range_step (length img) MAX_TRANSFER) False w = (x, u) \<Longrightarrow>
      follows (map (write_request (ci_save_kind info) img) (range_step (length img) MAX_TRANSFER)) x w u" for x u
    using write_step_follows by (rule follows_for1)
  show "(if \<not> done then io_raise (RuntimeError ''device did not mark the final write chunk complete'')
       else io_for (verify_step info img) (range_step (length img) MAX_TRANSFER) ()) u = (r, w') \<Longrightarrow>
      follows (map (\<lambda>p. linear_request info p (min MAX_TRANSFER (length img - p)))
        (range_step (length img) MAX_TRANSFER)) r u w'" for "done" u
    using follows_for1 [where f = "verify_step info img", OF verify_step_follows]
    by (auto simp: io_raise_def follows_none split: if_splits)
qed

lemma restore_open_Inr:
  assumes "restore_open info (Inr img) yes answer w = (Inr (img', token, deadline), u)"
  shows "img' = img \<and> restore_checks info img yes answer = Inr () \<and> 0 \<le> token \<and> token < 0x10000 \<and>
    requests [packed CMD_PREPARE_WRITE [(1, int (ci_save_kind info)), (4, int (length img)),
      (4, crc32 img AND 0xFFFFFFFF)]] w u"
proof -
  obtain v where v: "prepare_write (int (ci_save_kind info)) (int (length img)) (crc32 img AND 0xFFFFFFFF) w = (Inr token, v)"
      and m: "monotonic v = (Inr (deadline - 20), u)" and eq: "img' = img"
      "restore_checks info img yes answer = Inr ()"
    using assms by (auto simp: restore_open_def res_simps)
  have "requests [packed CMD_PREPARE_WRITE [(1, int (ci_save_kind info)), (4, int (length img)),
      (4, crc32 img AND 0xFFFFFFFF)]] w v"
    using prepare_write_follows [OF v] by (simp add: follows_def)
  then show ?thesis
    using requests_trans monotonic_requests [OF m] prepare_write_token [OF v] eq by fastforce
qed

lemma restore_open_Inl:
  assumes "restore_open info (Inr img) yes answer w = (Inl e, u)"
  shows "follows [packed CMD_PREPARE_WRITE [(1, int (ci_save_kind info)), (4, int (length img)),
      (4, crc32 img AND 0xFFFFFFFF)]] (Inl e :: unit res) w u"
proof (cases "restore_checks info img yes answer")
  case (Inl e')
  then show ?thesis using assms by (auto simp: restore_open_def io_bind_def io_lift_def follows_none)
next
  case (Inr _)
  let ?prepare = "prepare_write (int (ci_save_kind info)) (int (length img)) (crc32 img AND 0xFFFFFFFF)"
  obtain x v where x: "?prepare w = (x, v)" by fastforce
  have "x = Inl e \<and> u = v"
    using assms Inr x
    by (cases x) (auto simp: restore_open_def io_bind_def io_lift_def monotonic_def io_return_def)
  then show ?thesis using prepare_write_follows [OF x] by (auto simp: follows_def)
qed

lemma restore_save_cases:
  assumes "restore_save info (Inr img) yes answer w = Some (r, w')"
  obtains (refused) e where "restore_open info (Inr img) yes answer w = (Inl e, w')" "r = Inl e"
  | (unconfirmed) token deadline u e where "restore_open info (Inr img) yes answer w = (Inr (img, token, deadline), u)"
      "await_confirm token deadline u = Some (Inl e, w')" "r = Inl e"
  | (confirmed) token deadline u v where "restore_open info (Inr img) yes answer w = (Inr (img, token, deadline), u)"
      "await_confirm token deadline u = Some (Inr (), v)" "restore_body info img v = (r, w')"
proof -
  obtain x u where x: "restore_open info (Inr img) yes answer w = (x, u)" by fastforce
  show thesis
  proof (cases x)
    case (Inl e)
    then show ?thesis using assms x refused by (simp add: restore_save_def)
  next
    case (Inr t)
    then obtain token deadline where t: "x = Inr (img, token, deadline)"
      using restore_open_Inr x by (cases t) blast
    then obtain y v where y: "await_confirm token deadline u = Some (y, v)"
      using assms x by (cases "await_confirm token deadline u") (auto simp: restore_save_def)
    show ?thesis
    proof (cases y)
      case (Inl e)
      then have "r = Inl e" "v = w'" using assms x t y by (simp_all add: restore_save_def)
      then show ?thesis using unconfirmed [of token deadline u e] x t y Inl by simp
    next
      case (Inr c)
      then have "restore_body info img v = (r, w')" using assms x t y by (simp add: restore_save_def)
      then show ?thesis using confirmed [of token deadline u v] x t y Inr by simp
    qed
  qed
qed

lemma restore_save_follows:
  assumes "restore_save info (Inr img) yes answer w = Some (r, w')"
  shows "\<exists>token n. follows (restore_plan info img token n) r w w'"
  using assms
proof (cases rule: restore_save_cases)
  case (refused e)
  then show ?thesis
    using restore_open_Inl [OF refused(1)] follows_Inl by (fastforce simp: restore_plan_def)
next
  case (unconfirmed token deadline u e)
  note o = restore_open_Inr [OF unconfirmed(1)]
  obtain n where n: "requests (replicate (Suc n) (packed CMD_BEGIN_WRITE [(2, token)])) u w'"
    using await_confirm_requests [OF unconfirmed(2)] o by auto
  from o have prepare: "requests [packed CMD_PREPARE_WRITE [(1, int (ci_save_kind info)), (4, int (length img)),
      (4, crc32 img AND 0xFFFFFFFF)]] w u" by blast
  have "requests (take (2 + n) (restore_plan info img token n)) w w'"
    using requests_trans [OF prepare n] by (simp add: restore_plan_def)
  then show ?thesis unfolding follows_def unconfirmed(3) by (metis isOk_simps(2))
next
  case (confirmed token deadline u v)
  note o = restore_open_Inr [OF confirmed(1)]
  obtain n where n: "requests (replicate (Suc n) (packed CMD_BEGIN_WRITE [(2, token)])) u v"
    using await_confirm_requests [OF confirmed(2)] o by auto
  then have "requests ([packed CMD_PREPARE_WRITE [(1, int (ci_save_kind info)), (4, int (length img)),
      (4, crc32 img AND 0xFFFFFFFF)]] @ replicate (Suc n) (packed CMD_BEGIN_WRITE [(2, token)])) w v"
    using requests_trans o by blast
  from follows_append [OF follows_all [OF this] restore_body_follows [OF confirmed(3)]]
  show ?thesis unfolding restore_plan_def by (metis append_assoc)
qed

lemma restore_success:
  assumes "restore_save info (Inr img) yes answer w = Some (Inr u, w')"
  shows "restore_checks info img yes answer = Inr () \<and> (\<exists>v. read_save_image info v = (Inr img, w'))"
  using assms
proof (cases rule: restore_save_cases)
  case (confirmed token deadline v v')
  note o = restore_open_Inr [OF confirmed(1)]
  have len: "length img = ci_save_size info"
    using o by (auto simp: restore_checks_def split: if_splits)
  obtain x where "io_for (verify_step info img) (range_step (length img) MAX_TRANSFER) () x = (Inr (), w')"
    using confirmed(3) by (auto simp: restore_body_def res_simps)
  from verify_collects [OF this, of "[]"] have "read_save_image info x = (Inr img, w')"
    by (simp add: read_save_image_def len [symmetric] concat_chunks MAX_TRANSFER_def)
  then show ?thesis using o by blast
qed auto

text \<open>
  C1: The requests of a restore come in one order. Whatever the peer answers, the requests issued
  are a prefix of: one prepare carrying the memory kind, the image length and its CRC-32, at least
  one begin with the token, the image in 128-byte write chunks, then the reads of the whole
  memory. No write is sent before a begin, no read before the last write, and a restore that
  reports success issued all of them.
\<close>

theorem restore_request_order:
  assumes "restore_save info (Inr img) assume_yes answer w = Some (r, w')"
  shows "\<exists>token n k. requests (take k (restore_plan info img token n)) w w' \<and>
    (isOk r \<longrightarrow> requests (restore_plan info img token n) w w')"
  using restore_save_follows [OF assms] by (auto simp: follows_def)

text \<open>
  C2: A restore that reports success was verified. The image has exactly the size of the memory
  the cartridge declares, that memory is SRAM or EEPROM, the host confirmed the overwrite, and
  reading the whole memory from some later state of the session returned the image, byte for byte.
\<close>

theorem restore_verified:
  assumes "restore_save info (Inr img) assume_yes answer w = Some (Inr u, w')"
  shows "ci_save_kind info \<in> {1, 2} \<and> length img = ci_save_size info \<and> (assume_yes \<or> answer = ''WRITE'') \<and>
    (\<exists>v. read_save_image info v = (Inr img, w'))"
  using restore_success [OF assms] by (auto simp: restore_checks_def split: if_splits)

text \<open>
  A refused restore leaves the cartridge alone. If the footer declares no save memory, the
  image has another size or the host did not type WRITE, the restore raises and the world is
  unchanged: not one packet was written.
\<close>

theorem restore_refused_untouched:
  assumes "ci_save_kind info \<notin> {1, 2} \<or> ci_save_size info = 0 \<or> length img \<noteq> ci_save_size info \<or>
    (\<not> assume_yes \<and> answer \<noteq> ''WRITE'')"
  shows "\<exists>message. restore_save info (Inr img) assume_yes answer w = Some (Inl (RuntimeError message), w)"
proof -
  have "\<exists>message. restore_checks info img assume_yes answer = Inl (RuntimeError message)"
    using assms by (auto simp: restore_checks_def)
  then show ?thesis
    by (auto simp: restore_save_def restore_open_def io_bind_def io_lift_def)
qed


section \<open>Dumping the ROM and the save memory\<close>

lemma quiet_out: "quiet w w' \<Longrightarrow> out_file w' = out_file w"
  by (simp add: quiet_def)

text \<open>An invariant of a loop that may depend on the number of iterations done.\<close>

lemma io_for_inv:
  assumes step: "\<And>x s w s' w' k. f x s w = (Inr s', w') \<Longrightarrow> I k s w \<Longrightarrow> I (k + n) s' w'"
  shows "io_for f xs s w = (Inr s', w') \<Longrightarrow> I k s w \<Longrightarrow> I (k + n * length xs) s' w'"
proof (induction xs arbitrary: k s w)
  case Nil
  then show ?case by (simp add: io_return_def)
next
  case (Cons x xs)
  then obtain t u where t: "f x s w = (Inr t, u)" "io_for f xs t u = (Inr s', w')"
    by (auto simp: res_simps)
  have "I (k + n + n * length xs) s' w'" using Cons.IH [OF t(2)] step [OF t(1) Cons.prems(2)] by simp
  then show ?case by (simp add: add.assoc)
qed

definition rom_acc :: "nat \<Rightarrow> int \<times> byte list \<Rightarrow> 'd world \<Rightarrow> bool" where
  "rom_acc n acc w \<longleftrightarrow> (\<exists>rom. out_file w = Some rom \<and> length rom = n \<and>
     acc = (byte_sum rom AND 0xFFFF, drop (n - 2) rom))"

lemma byte_sum_append [simp]: "byte_sum (xs @ ys) = byte_sum xs + byte_sum ys"
  by (simp add: byte_sum_def)

lemma and_FFFF: "(x :: int) AND 0xFFFF = x mod 0x10000"
  using take_bit_eq_mask [of 16 x] by (simp add: take_bit_eq_mod mask_eq_exp_minus_1)

lemma last_two: "drop (length (drop (length a - 2) a @ b) - 2) (drop (length a - 2) a @ b) = drop (length (a @ b) - 2) (a @ b)"
  by (cases "length b \<ge> 2"; cases "length a \<ge> 2") (auto simp: le_diff_conv drop_append add.commute)

lemma rom_step_acc:
  assumes "rom_step bank offset acc w = (Inr acc', w')" and "rom_acc n acc w"
  shows "rom_acc (n + 128) acc' w'"
proof -
  obtain data u where data: "read_rom bank (int offset) (int MAX_TRANSFER) w = (Inr data, u)"
      and w': "w' = u\<lparr>out_file := map_option (\<lambda>old. old @ data) (out_file u)\<rparr>"
      and acc': "acc' = ((fst acc + byte_sum data) AND 0xFFFF,
          drop (length (snd acc @ data) - 2) (snd acc @ data))"
    using assms(1) by (auto simp: rom_step_def res_simps Let_def out_write_def)
  have len: "length data = 128"
    using data by (auto simp: read_rom_def res_simps MAX_TRANSFER_def)
  have out: "out_file u = out_file w" using read_rom_follows [OF data] by (auto dest: quiet_out)
  from assms(2) obtain rom where rom: "out_file w = Some rom" "length rom = n"
      "acc = (byte_sum rom AND 0xFFFF, drop (n - 2) rom)" by (auto simp: rom_acc_def)
  have "(byte_sum rom AND 0xFFFF) + byte_sum data AND 0xFFFF = byte_sum (rom @ data) AND 0xFFFF"
    by (simp add: and_FFFF mod_add_left_eq)
  moreover have "drop (length (drop (n - 2) rom @ data) - 2) (drop (n - 2) rom @ data) =
      drop (length (rom @ data) - 2) (rom @ data)"
    using last_two [of rom data] rom(2) by simp
  ultimately show ?thesis
    using acc' rom w' out len unfolding rom_acc_def by auto
qed

lemma rom_bank_acc:
  assumes "rom_bank banks index acc w = (Inr acc', w')" and "rom_acc n acc w"
  shows "rom_acc (n + 0x10000) acc' w'"
  using io_for_inv [of "rom_step ((- int banks + int index) AND 0xFFFF)" rom_acc 128
      "range_step 0x10000 MAX_TRANSFER" acc w acc' w' n] rom_step_acc assms
  by (fastforce simp: rom_bank_def Let_def range_step_def MAX_TRANSFER_def)

definition rom_plan :: "cart_information \<Rightarrow> (byte \<times> byte list) list" where
  "rom_plan info =
     (let banks = ci_rom_size info div 0x10000
      in concat (map (\<lambda>index. map (rom_request ((int index - int banks) AND 0xFFFF))
           (range_step 0x10000 MAX_TRANSFER)) [0..<banks]))"

lemma follows_bind_silent:
  assumes "io_bind m f w = (r, w')" and "\<And>x u. m w = (x, u) \<Longrightarrow> follows rs x w u"
    and "\<And>x u. f x u = (r, w') \<Longrightarrow> requests [] u w'"
  shows "follows rs r w w'"
proof -
  have "follows (rs @ []) r w w'"
    by (rule follows_bind [OF assms(1,2)]) (auto intro: follows_all assms(3))
  then show ?thesis by simp
qed

lemma rom_step_follows:
  assumes "rom_step bank offset acc w = (r, w')"
  shows "follows [rom_request bank offset] r w w'"
  using assms unfolding rom_step_def
proof (rule follows_bind_silent)
  show "read_rom bank (int offset) (int MAX_TRANSFER) w = (x, u) \<Longrightarrow>
      follows [rom_request bank offset] x w u" for x u
    using read_rom_follows by blast
qed (auto simp: io_bind_def out_write_def io_return_def Let_def requests_def)

lemma rom_bank_follows:
  assumes "rom_bank banks index acc w = (r, w')"
  shows "follows (map (rom_request ((int index - int banks) AND 0xFFFF)) (range_step 0x10000 MAX_TRANSFER)) r w w'"
  using follows_for1 [where f = "rom_step ((int index - int banks) AND 0xFFFF)", OF rom_step_follows] assms
  by (simp add: rom_bank_def Let_def algebra_simps)

lemma open_exclusive_Inr: "open_exclusive w = (Inr u, w') \<longleftrightarrow> out_file w = None \<and> w' = w\<lparr>out_file := Some []\<rparr>"
  by (auto simp: open_exclusive_def split: option.splits)

lemma open_exclusive_requests: "open_exclusive w = (r, w') \<Longrightarrow> requests [] w w'"
  by (auto simp: open_exclusive_def requests_def split: option.splits)

lemma dump_rom_follows:
  assumes "dump_rom info w = (r, w')"
  shows "follows (rom_plan info) r w w'"
proof (cases "\<not> footer_valid info \<or> ci_rom_size info = 0 \<or> ci_rom_size info mod 0x10000 \<noteq> 0")
  case True
  then show ?thesis using assms by (auto simp: dump_rom_def io_raise_def follows_none)
next
  case False
  let ?banks = "ci_rom_size info div 0x10000"
  let ?rest = "\<lambda>(checksum, final_bytes). if int (le_value final_bytes) \<noteq> (checksum - byte_sum final_bytes) AND 0xFFFF
      then io_raise (RuntimeError ''dumped ROM checksum mismatch'') else io_return ()"
  from False assms have run: "io_bind open_exclusive (\<lambda>_. io_bind (io_for (rom_bank ?banks) [0..<?banks] (0, [])) ?rest) w = (r, w')"
    by (simp only: dump_rom_def if_False Let_def)
  have "follows ([] @ rom_plan info) r w w'"
    using run
  proof (rule follows_bind)
    fix x u assume "io_bind (io_for (rom_bank ?banks) [0..<?banks] (0, [])) ?rest u = (r, w')"
    then show "follows (rom_plan info) r u w'"
    proof (rule follows_bind_silent)
      show "io_for (rom_bank ?banks) [0..<?banks] (0, []) u = (x', v) \<Longrightarrow> follows (rom_plan info) x' u v" for x' v
        unfolding rom_plan_def Let_def using rom_bank_follows by (rule follows_for)
    qed (auto simp: io_raise_def io_return_def split: if_splits)
  qed (auto intro: follows_all open_exclusive_requests)
  then show ?thesis by simp
qed

lemma dump_rom_success:
  assumes "dump_rom info w = (Inr u, w')"
  shows "out_file w = None \<and> (\<exists>rom. out_file w' = Some rom \<and> length rom = ci_rom_size info \<and>
    int (le_value (drop (ci_rom_size info - 2) rom)) = byte_sum (take (ci_rom_size info - 2) rom) mod 0x10000)"
proof -
  let ?banks = "ci_rom_size info div 0x10000"
  have size: "ci_rom_size info = 0x10000 * ?banks"
    using assms by (auto simp: dump_rom_def io_raise_def split: if_splits)
  obtain v checksum final where v: "out_file w = None" "v = w\<lparr>out_file := Some []\<rparr>"
      "io_for (rom_bank ?banks) [0..<?banks] (0, []) v = (Inr (checksum, final), w')"
      and stored: "int (le_value final) = (checksum - byte_sum final) AND 0xFFFF"
    using assms
    by (auto simp: dump_rom_def Let_def res_simps open_exclusive_Inr io_raise_def io_return_def split: if_splits)
  have "rom_acc 0 (0, []) v" using v(2) by (simp add: rom_acc_def byte_sum_def)
  with v(3) have "rom_acc (0 + 0x10000 * length [0..<?banks]) (checksum, final) w'"
    by (rule io_for_inv [where I = rom_acc and n = "0x10000", rotated]) (erule rom_bank_acc)
  then obtain rom where rom: "out_file w' = Some rom" "length rom = ci_rom_size info"
      "checksum = byte_sum rom AND 0xFFFF" "final = drop (ci_rom_size info - 2) rom"
    using size by (auto simp: rom_acc_def)
  let ?head = "take (ci_rom_size info - 2) rom"
  have "byte_sum rom = byte_sum ?head + byte_sum final"
    using byte_sum_append [of ?head final] rom(4) by simp
  then have "(checksum - byte_sum final) AND 0xFFFF = byte_sum ?head mod 0x10000"
    unfolding rom(3) and_FFFF by (simp add: mod_diff_left_eq)
  then show ?thesis using v(1) rom stored by auto
qed

text \<open>
  C33: A ROM dump that reports success is complete and consistent. The output file did not exist,
  every 128-byte block of every bank was requested once and in order, the file has exactly the ROM
  size the footer declares, and its last two bytes, little-endian, are the sum of all its other
  bytes modulo 65536. A dump that fails issued a prefix of the same requests.
\<close>

theorem dump_rom_complete:
  "case dump_rom info w of
     (Inr _, w') \<Rightarrow> requests (rom_plan info) w w' \<and> out_file w = None \<and>
       (\<exists>rom. out_file w' = Some rom \<and> length rom = ci_rom_size info \<and>
          int (le_value (drop (ci_rom_size info - 2) rom)) = byte_sum (take (ci_rom_size info - 2) rom) mod 0x10000)
   | (Inl _, w') \<Rightarrow> (\<exists>k. requests (take k (rom_plan info)) w w')"
proof (cases "dump_rom info w")
  case (Pair r w')
  then show ?thesis
    using dump_rom_follows [OF Pair] dump_rom_success [of info w _ w'] by (cases r) (auto simp: follows_def)
qed

text \<open>The save dump reads the memory in the order of the linear readback of a restore.\<close>

definition save_plan :: "cart_information \<Rightarrow> (byte \<times> byte list) list" where
  "save_plan info = map (\<lambda>p. linear_request info p (min MAX_TRANSFER (ci_save_size info - p)))
     (range_step (ci_save_size info) MAX_TRANSFER)"

definition saved :: "nat \<Rightarrow> unit \<Rightarrow> 'd world \<Rightarrow> bool" where
  "saved n u w \<longleftrightarrow> (\<exists>f. out_file w = Some f \<and> length f = n)"

lemma range_step_split:
  assumes "s dvd b" and "0 < s" and "b \<le> n"
  shows "range_step n s = range_step b s @ map ((+) b) (range_step (n - b) s)"
proof -
  obtain m where m: "b = s * m" using assms(1) by blast
  have b: "(b + s - 1) div s = m" using assms(2) m by (intro div_nat_eqI) auto
  have "n + s - 1 = (n - b + s - 1) + m * s" using assms(2,3) m by simp
  then have "(n + s - 1) div s = ((n - b + s - 1) + m * s) div s" by (rule arg_cong)
  also have "\<dots> = m + (n - b + s - 1) div s" by (rule div_mult_self1) (use assms(2) in simp)
  finally have n: "(n + s - 1) div s = m + (n - b + s - 1) div s" .
  have "[0..<m + (n - b + s - 1) div s] = [0..<m] @ map (\<lambda>i. i + m) [0..<(n - b + s - 1) div s]"
    using upt_add_eq_append [of 0 m "(n - b + s - 1) div s"] map_add_upt [of m "(n - b + s - 1) div s"]
    by (simp only: le0 add.commute)
  then show ?thesis
    unfolding range_step_def b n by (simp add: m comp_def algebra_simps)
qed

lemma range_step_0 [simp]: "0 < s \<Longrightarrow> range_step 0 s = []"
  by (simp add: range_step_def)

lemma range_step_lt: "p \<in> set (range_step n s) \<Longrightarrow> 0 < s \<Longrightarrow> p < n"
proof -
  assume p: "p \<in> set (range_step n s)" and s: "0 < s"
  then obtain k where k: "p = k * s" "k < (n + s - 1) div s" by (auto simp: range_step_def)
  then have "Suc k * s \<le> (n + s - 1) div s * s" by (intro mult_le_mono1) simp
  also have "\<dots> \<le> n + s - 1" by simp
  finally show "p < n" using k(1) s by simp
qed

lemma sram_step_follows:
  assumes "sram_step bank n offset u w = (r, w')"
  shows "follows [packed CMD_READ_SRAM [(2, bank AND 0xFFFF), (2, int offset), (1, int (min MAX_TRANSFER (n - offset)))]] r w w'"
  using assms unfolding sram_step_def
proof (rule follows_bind_silent)
  show "read_sram bank (int offset) (int (min MAX_TRANSFER (n - offset))) w = (x, v) \<Longrightarrow> follows
      [packed CMD_READ_SRAM [(2, bank AND 0xFFFF), (2, int offset), (1, int (min MAX_TRANSFER (n - offset)))]] x w v"
    for x v using read_sram_follows by blast
qed (auto simp: out_write_def requests_def)

lemma eeprom_step_follows:
  assumes "eeprom_step n address u w = (r, w')"
  shows "follows [packed CMD_READ_EEPROM [(2, int address), (1, int (min MAX_TRANSFER (n - address)))]] r w w'"
  using assms unfolding eeprom_step_def
proof (rule follows_bind_silent)
  show "read_eeprom (int address) (int (min MAX_TRANSFER (n - address))) w = (x, v) \<Longrightarrow> follows
      [packed CMD_READ_EEPROM [(2, int address), (1, int (min MAX_TRANSFER (n - address)))]] x w v"
    for x v using read_eeprom_follows by blast
qed (auto simp: out_write_def requests_def)

text \<open>One bank of SRAM: the requests are those of the linear positions it holds.\<close>

lemma linear_request_bank:
  assumes "ci_save_kind info = 1" and "offset < 0x10000"
  shows "linear_request info (index * 0x10000 + offset) count =
    packed CMD_READ_SRAM [(2, (int index - int ((ci_save_size info + 0xFFFF) div 0x10000)) AND 0xFFFF),
      (2, int offset), (1, int count)]"
proof -
  have "(index * 0x10000 + offset) div 0x10000 = index" using assms(2) by simp
  moreover have "int (index * 0x10000 + offset) AND 0xFFFF = int offset"
    using assms(2) unfolding and_FFFF by (simp add: mod_pos_pos_trivial)
  ultimately show ?thesis using assms(1) by (simp add: linear_request_def)
qed

lemma sram_bank_follows:
  assumes kind: "ci_save_kind info = 1" and size: "ci_save_size info = index * 0x10000 + remaining"
    and run: "sram_bank ((ci_save_size info + 0xFFFF) div 0x10000) index remaining w = (r, w')"
  shows "follows (map (\<lambda>p. linear_request info p (min MAX_TRANSFER (ci_save_size info - p)))
      (map ((+) (index * 0x10000)) (range_step (min remaining 0x10000) MAX_TRANSFER))) r w w'"
proof -
  let ?n = "min remaining 0x10000"
  let ?bank = "(- int ((ci_save_size info + 0xFFFF) div 0x10000) + int index) AND 0xFFFF"
  have "follows (map (\<lambda>o'. packed CMD_READ_SRAM [(2, ?bank AND 0xFFFF), (2, int o'), (1, int (min MAX_TRANSFER (?n - o')))])
      (range_step ?n MAX_TRANSFER)) r w w'"
    using run unfolding sram_bank_def Let_def
  proof (rule follows_bind_silent)
    show "io_for (sram_step ?bank ?n) (range_step ?n MAX_TRANSFER) () w = (x, u) \<Longrightarrow>
        follows (map (\<lambda>o'. packed CMD_READ_SRAM [(2, ?bank AND 0xFFFF), (2, int o'), (1, int (min MAX_TRANSFER (?n - o')))])
          (range_step ?n MAX_TRANSFER)) x w u" for x u
      using sram_step_follows by (rule follows_for1)
  qed (auto simp: io_return_def)
  moreover have "packed CMD_READ_SRAM [(2, ?bank AND 0xFFFF), (2, int o'), (1, int (min MAX_TRANSFER (?n - o')))] =
      linear_request info (index * 0x10000 + o') (min MAX_TRANSFER (ci_save_size info - (index * 0x10000 + o')))"
    if o': "o' \<in> set (range_step ?n MAX_TRANSFER)" for o'
  proof -
    have lt: "o' < ?n" using range_step_lt [OF o'] by (simp add: MAX_TRANSFER_def)
    obtain k where k: "o' = k * 128" using o' by (auto simp: range_step_def MAX_TRANSFER_def)
    have "min MAX_TRANSFER (?n - o') = min MAX_TRANSFER (remaining - o')"
      using lt k by (cases "remaining \<le> 0x10000") (auto simp: MAX_TRANSFER_def min_def)
    then show ?thesis
      using linear_request_bank [OF kind, of o' index] lt size
      by (simp add: algebra_simps)
  qed
  ultimately show ?thesis by (simp add: comp_def cong: map_cong)
qed

lemma sram_banks_follows:
  assumes kind: "ci_save_kind info = 1" and banks: "banks = (ci_save_size info + 0xFFFF) div 0x10000"
  shows "index \<le> banks \<Longrightarrow> ci_save_size info = index * 0x10000 + remaining \<Longrightarrow>
    io_for (sram_bank banks) [index..<banks] remaining w = (r, w') \<Longrightarrow>
    follows (map (\<lambda>p. linear_request info p (min MAX_TRANSFER (ci_save_size info - p)))
      (map ((+) (index * 0x10000)) (range_step remaining MAX_TRANSFER))) r w w'"
proof (induction "banks - index" arbitrary: index remaining w)
  case 0
  then have "remaining = 0" using banks by auto
  then show ?case using 0 by (simp add: io_return_def MAX_TRANSFER_def follows_return)
next
  case (Suc d)
  then have upt: "[index..<banks] = index # [Suc index..<banks]" by (simp add: upt_conv_Cons)
  let ?q = "\<lambda>p. linear_request info p (min MAX_TRANSFER (ci_save_size info - p))"
  let ?n = "min remaining 0x10000"
  have "follows (map ?q (map ((+) (index * 0x10000)) (range_step ?n MAX_TRANSFER)) @
      map ?q (map ((+) (Suc index * 0x10000)) (range_step (remaining - ?n) MAX_TRANSFER))) r w w'"
    using Suc.prems(3) unfolding upt io_for.simps
  proof (rule follows_bind)
    show "sram_bank banks index remaining w = (x, u) \<Longrightarrow>
        follows (map ?q (map ((+) (index * 0x10000)) (range_step ?n MAX_TRANSFER))) x w u" for x u
      using sram_bank_follows [OF kind Suc.prems(2)] banks by simp
    fix t u assume "sram_bank banks index remaining w = (Inr t, u)"
    then have t: "t = remaining - ?n" by (auto simp: sram_bank_def Let_def res_simps)
    assume run: "io_for (sram_bank banks) [Suc index..<banks] t u = (r, w')"
    show "follows (map ?q (map ((+) (Suc index * 0x10000)) (range_step (remaining - ?n) MAX_TRANSFER))) r u w'"
    proof (cases "remaining < 0x10000")
      case True
      then have "Suc index = banks" using Suc.prems(2) Suc.hyps(2) banks by auto
      then show ?thesis using run t True by (simp add: io_return_def MAX_TRANSFER_def follows_return)
    next
      case False
      then show ?thesis
        using Suc.hyps(1) [of "Suc index" t u] Suc.hyps(2) Suc.prems(2) run t by simp
    qed
  qed
  moreover have "map ((+) (index * 0x10000)) (range_step remaining MAX_TRANSFER) =
      map ((+) (index * 0x10000)) (range_step ?n MAX_TRANSFER) @
      map ((+) (Suc index * 0x10000)) (range_step (remaining - ?n) MAX_TRANSFER)"
  proof (cases "remaining \<le> 0x10000")
    case True
    then show ?thesis by (simp add: MAX_TRANSFER_def)
  next
    case False
    then show ?thesis
      using range_step_split [of MAX_TRANSFER "0x10000" remaining]
      by (simp add: MAX_TRANSFER_def comp_def algebra_simps)
  qed
  ultimately show ?case by simp
qed

text \<open>The file grows by what was read.\<close>

lemma sram_step_saved:
  assumes "sram_step bank n offset u w = (Inr u', w')" and "saved k u w"
  shows "saved (k + min MAX_TRANSFER (n - offset)) u' w'"
proof -
  obtain data v where data: "read_sram bank (int offset) (int (min MAX_TRANSFER (n - offset))) w = (Inr data, v)"
      and w': "w' = v\<lparr>out_file := map_option (\<lambda>old. old @ data) (out_file v)\<rparr>"
    using assms(1) by (auto simp: sram_step_def res_simps out_write_def)
  have "length data = min MAX_TRANSFER (n - offset)" using data by (auto simp: read_sram_def res_simps)
  then show ?thesis
    using assms(2) w' read_sram_follows [OF data] by (auto simp: saved_def dest!: quiet_out)
qed

lemma eeprom_step_saved:
  assumes "eeprom_step n address u w = (Inr u', w')" and "saved k u w"
  shows "saved (k + min MAX_TRANSFER (n - address)) u' w'"
proof -
  obtain data v where data: "read_eeprom (int address) (int (min MAX_TRANSFER (n - address))) w = (Inr data, v)"
      and w': "w' = v\<lparr>out_file := map_option (\<lambda>old. old @ data) (out_file v)\<rparr>"
    using assms(1) by (auto simp: eeprom_step_def res_simps out_write_def)
  have "length data = min MAX_TRANSFER (n - address)" using data by (auto simp: read_eeprom_def res_simps)
  then show ?thesis
    using assms(2) w' read_eeprom_follows [OF data] by (auto simp: saved_def dest!: quiet_out)
qed

lemma io_for_sum:
  assumes step: "\<And>x s w s' w' k. f x s w = (Inr s', w') \<Longrightarrow> I k s w \<Longrightarrow> I (k + g x) s' w'"
  shows "io_for f xs s w = (Inr s', w') \<Longrightarrow> I k s w \<Longrightarrow> I (k + sum_list (map g xs)) s' w'"
proof (induction xs arbitrary: k s w)
  case Nil
  then show ?case by (simp add: io_return_def)
next
  case (Cons x xs)
  then obtain t u where t: "f x s w = (Inr t, u)" "io_for f xs t u = (Inr s', w')"
    by (auto simp: res_simps)
  have "I (k + g x + sum_list (map g xs)) s' w'" using Cons.IH [OF t(2)] step [OF t(1) Cons.prems(2)] by simp
  then show ?case by (simp add: add.assoc)
qed

lemma sum_chunks: "0 < s \<Longrightarrow> sum_list (map (\<lambda>p. min s (n - p)) (range_step n s)) = n"
  using arg_cong [OF concat_chunks [of s "replicate n ()"], of length]
  by (simp add: length_concat comp_def min.commute)

lemma sram_bank_saved:
  assumes "sram_bank banks index remaining w = (Inr rest, w')" and "saved k () w"
  shows "rest = remaining - min remaining 0x10000 \<and> saved (k + min remaining 0x10000) () w'"
proof -
  let ?n = "min remaining 0x10000"
  have rest: "rest = remaining - ?n"
    and run: "io_for (sram_step ((- int banks + int index) AND 0xFFFF) ?n) (range_step ?n MAX_TRANSFER) () w = (Inr (), w')"
    using assms(1) by (auto simp: sram_bank_def Let_def res_simps)
  have "saved (k + sum_list (map (\<lambda>p. min MAX_TRANSFER (?n - p)) (range_step ?n MAX_TRANSFER))) () w'"
    using run assms(2) by (rule io_for_sum [where I = saved, rotated]) (erule sram_step_saved)
  then show ?thesis using rest sum_chunks [of MAX_TRANSFER ?n] by (simp add: MAX_TRANSFER_def)
qed

lemma sram_banks_saved:
  "io_for (sram_bank banks) is remaining w = (Inr rest, w') \<Longrightarrow> saved k () w \<Longrightarrow>
   rest \<le> remaining \<and> remaining - rest = min remaining (length is * 0x10000) \<and> saved (k + (remaining - rest)) () w'"
proof (induction "is" arbitrary: remaining k w)
  case Nil
  then show ?case by (simp add: io_return_def)
next
  case (Cons i "is")
  then obtain t u where t: "sram_bank banks i remaining w = (Inr t, u)"
      "io_for (sram_bank banks) is t u = (Inr rest, w')" by (auto simp: res_simps)
  note b = sram_bank_saved [OF t(1) Cons.prems(2)]
  then have "saved (k + min remaining 0x10000) () u" by blast
  note ih = Cons.IH [OF t(2) this]
  have 1: "k + min remaining 0x10000 + (t - rest) = k + (remaining - rest)"
    using ih b by linarith
  have 2: "remaining - rest = min remaining (length (i # is) * 0x10000)" "rest \<le> remaining"
    using ih b unfolding length_Cons mult_Suc by linarith+
  show ?case using ih 2 unfolding 1 by blast
qed

lemma dump_save_run:
  assumes "dump_save info w = (r, w')"
  shows "follows (save_plan info) r w w' \<and>
    (isOk r \<longrightarrow> out_file w = None \<and> saved (ci_save_size info) () w')"
proof (cases "ci_save_size info = 0 \<or> ci_save_kind info \<notin> {1, 2}")
  case True
  then show ?thesis using assms by (auto simp: dump_save_def io_raise_def follows_none)
next
  case False
  let ?size = "ci_save_size info"
  let ?banks = "(?size + 0xFFFF) div 0x10000"
  let ?sram = "io_bind (io_for (sram_bank ?banks) [0..<?banks] ?size) (\<lambda>_. io_return ())"
  let ?eeprom = "io_for (eeprom_step ?size) (range_step ?size MAX_TRANSFER) ()"
  let ?body = "if ci_save_kind info = 1 then ?sram else ?eeprom"
  have run: "io_bind open_exclusive (\<lambda>_. ?body) w = (r, w')"
    using assms False by (simp only: dump_save_def if_False Let_def)
  have "follows ([] @ save_plan info) r w w'"
    using run
  proof (rule follows_bind)
    fix x u assume body: "?body u = (r, w')"
    show "follows (save_plan info) r u w'"
    proof (cases "ci_save_kind info = 1")
      case True
      then have "?sram u = (r, w')" using body by simp
      then show ?thesis
      proof (rule follows_bind_silent)
        show "io_for (sram_bank ?banks) [0..<?banks] ?size u = (y, v) \<Longrightarrow> follows (save_plan info) y u v" for y v
          using sram_banks_follows [OF True refl, of 0 ?size u y v] by (simp add: save_plan_def comp_def)
      qed (auto simp: io_return_def)
    next
      case False
      then have "?eeprom u = (r, w')" using body by simp
      from follows_for1 [where f = "eeprom_step ?size", OF eeprom_step_follows this]
      have "follows (map (\<lambda>p. packed CMD_READ_EEPROM [(2, int p), (1, int (min MAX_TRANSFER (?size - p)))])
          (range_step ?size MAX_TRANSFER)) r u w'" .
      moreover have "map (\<lambda>p. packed CMD_READ_EEPROM [(2, int p), (1, int (min MAX_TRANSFER (?size - p)))])
          (range_step ?size MAX_TRANSFER) = save_plan info"
        using False by (simp add: save_plan_def linear_request_def)
      ultimately show ?thesis by simp
    qed
  qed (auto intro: follows_all open_exclusive_requests)
  moreover have "out_file w = None \<and> saved ?size () w'" if ok: "isOk r"
  proof -
    obtain y where r: "r = Inr y" using ok by (auto simp: isOk_iff)
    obtain u where u: "out_file w = None" "u = w\<lparr>out_file := Some []\<rparr>" "?body u = (Inr y, w')"
      using run unfolding r by (auto simp: io_bind_Inr open_exclusive_Inr)
    have start: "saved 0 () u" using u(2) by (simp add: saved_def)
    have "saved ?size () w'"
    proof (cases "ci_save_kind info = 1")
      case True
      then obtain rest where "io_for (sram_bank ?banks) [0..<?banks] ?size u = (Inr rest, w')"
        using u(3) by (auto simp: res_simps)
      note run = sram_banks_saved [OF this start]
      have all: "?size - rest = min ?size (?banks * 0x10000)" using run by simp
      have size: "?size - rest = ?size" unfolding all by linarith
      have "saved (0 + (?size - rest)) () w'" using run by blast
      then show ?thesis unfolding size by simp
    next
      case False
      then have "?eeprom u = (Inr y, w')" using u(3) by simp
      then have "saved (0 + sum_list (map (\<lambda>p. min MAX_TRANSFER (?size - p)) (range_step ?size MAX_TRANSFER))) y w'"
        using start by (rule io_for_sum [where I = saved, rotated]) (erule eeprom_step_saved)
      then show ?thesis using sum_chunks [of MAX_TRANSFER ?size] by (simp add: MAX_TRANSFER_def saved_def)
    qed
    then show ?thesis using u(1) by blast
  qed
  ultimately show ?thesis by simp
qed

text \<open>
  A save dump reads the memory linearly. Although the code walks SRAM bank by bank, the
  requests are those of the linear readback a restore does, position by position; a dump that
  reports success issued all of them, created the file, and left in it exactly the number of bytes
  the footer declares. A dump that fails issued a prefix of the same requests.
\<close>

theorem dump_save_linear:
  "case dump_save info w of
     (Inr _, w') \<Rightarrow> requests (save_plan info) w w' \<and> out_file w = None \<and>
       (\<exists>f. out_file w' = Some f \<and> length f = ci_save_size info)
   | (Inl _, w') \<Rightarrow> (\<exists>k. requests (take k (save_plan info)) w w')"
proof (cases "dump_save info w")
  case (Pair r w')
  then show ?thesis
    using dump_save_run [OF Pair] by (cases r) (auto simp: follows_def saved_def)
qed

text \<open>
  A dump never overwrites a file. If the output exists, both dumps raise without sending a
  packet and the world, the file included, is unchanged.
\<close>

theorem dump_never_overwrites:
  assumes "out_file w = Some f"
  shows "(\<exists>e. dump_rom info w = (Inl e, w)) \<and> (\<exists>e. dump_save info w = (Inl e, w))"
  using assms
  by (auto simp: dump_rom_def dump_save_def Let_def io_bind_def io_raise_def open_exclusive_def)

section \<open>The XMODEM upload\<close>

lemma read_exact_tx: "read_exact n w = (r, w') \<Longrightarrow> tx w' = tx w"
  using read_exact_frame reads_only_fields by blast

lemma stream_write_Inr: "stream_write p w = (r, u) \<Longrightarrow> r = Inr () \<and> tx u = tx w @ [p]"
  by (auto simp: stream_write_def split: prod.splits)

text \<open>A block goes out at least once and at most as often as there are attempts.\<close>

lemma send_block_tx:
  "send_block packet n w = (r, w') \<Longrightarrow>
   \<exists>k\<le>n. tx w' = tx w @ replicate k packet \<and> (isOk r \<longrightarrow> 1 \<le> k)"
proof (induction n arbitrary: w)
  case 0
  then show ?case by (auto simp: io_raise_def)
next
  case (Suc n)
  obtain u where u: "stream_write packet w = (Inr (), u)" "tx u = tx w @ [packet]"
    using stream_write_Inr by (metis surj_pair)
  obtain x v where x: "read_exact 1 u = (x, v)" by fastforce
  have v: "tx v = tx w @ [packet]" using read_exact_tx [OF x] u(2) by simp
  have "w' = v \<or> send_block packet n v = (r, w')"
    using Suc.prems u(1) x by (auto simp: io_bind_def io_return_def io_raise_def split: sum.splits if_splits)
  then show ?case
  proof
    assume "w' = v"
    then show ?thesis using v by (intro exI [of _ 1]) simp
  next
    assume "send_block packet n v = (r, w')"
    from Suc.IH [OF this] obtain k where "k \<le> n" "tx w' = tx v @ replicate k packet" by blast
    then show ?thesis using v by (intro exI [of _ "Suc k"]) simp
  qed
qed

lemma send_eot_tx:
  "send_eot n w = (r, w') \<Longrightarrow> \<exists>k\<le>n. tx w' = tx w @ replicate k [XMODEM_EOT] \<and> (isOk r \<longrightarrow> 1 \<le> k)"
proof (induction n arbitrary: w)
  case 0
  then show ?case by (auto simp: io_raise_def)
next
  case (Suc n)
  obtain u where u: "stream_write [XMODEM_EOT] w = (Inr (), u)" "tx u = tx w @ [[XMODEM_EOT]]"
    using stream_write_Inr by (metis surj_pair)
  obtain x v where x: "read_exact 1 u = (x, v)" by fastforce
  have v: "tx v = tx w @ [[XMODEM_EOT]]" using read_exact_tx [OF x] u(2) by simp
  have "w' = v \<or> send_eot n v = (r, w')"
    using Suc.prems u(1) x by (auto simp: io_bind_def io_return_def io_raise_def split: sum.splits if_splits)
  then show ?case
  proof
    assume "w' = v"
    then show ?thesis using v by (intro exI [of _ 1]) simp
  next
    assume "send_eot n v = (r, w')"
    from Suc.IH [OF this] obtain k where "k \<le> n" "tx w' = tx v @ replicate k [XMODEM_EOT]" by blast
    then show ?thesis using v by (intro exI [of _ "Suc k"]) simp
  qed
qed

lemma send_blocks_tx:
  "send_blocks img retries is w = (r, w') \<Longrightarrow>
   \<exists>ks. length ks \<le> length is \<and> list_all (\<lambda>k. k \<le> retries) ks \<and> (isOk r \<longrightarrow> length ks = length is) \<and>
     tx w' = tx w @ concat (map2 (\<lambda>i k. replicate k (xmodem_packet img i)) is ks)"
proof (induction "is" arbitrary: w)
  case Nil
  then show ?case by (auto simp: io_return_def)
next
  case (Cons i "is")
  obtain x v where x: "send_block (xmodem_packet img i) retries w = (x, v)" by fastforce
  obtain k where k: "k \<le> retries" "tx v = tx w @ replicate k (xmodem_packet img i)"
    using send_block_tx [OF x] by blast
  show ?case
  proof (cases x)
    case (Inl e)
    then have "r = Inl e" "w' = v" using Cons.prems x by (auto simp: io_bind_def)
    then show ?thesis using k by (intro exI [of _ "[k]"]) simp
  next
    case (Inr u)
    then have "send_blocks img retries is v = (r, w')" using Cons.prems x by (simp add: io_bind_def)
    from Cons.IH [OF this] obtain ks where "length ks \<le> length is" "list_all (\<lambda>k. k \<le> retries) ks"
        "isOk r \<longrightarrow> length ks = length is"
        "tx w' = tx v @ concat (map2 (\<lambda>i k. replicate k (xmodem_packet img i)) is ks)" by blast
    then show ?thesis using k by (intro exI [of _ "k # ks"]) simp
  qed
qed

text \<open>
  A packet is delivered when it was written some number of times, a one-byte answer was read after each
  of them, and the last answer, and only that, is the acknowledgement.
\<close>

primrec delivered :: "byte list \<Rightarrow> nat \<Rightarrow> 'd world \<Rightarrow> 'd world \<Rightarrow> bool" where
  "delivered packet 0 w w' = False"
| "delivered packet (Suc k) w w' =
     (\<exists>u reply v. stream_write packet w = (Inr (), u) \<and> read_exact 1 u = (Inr reply, v) \<and>
       (if k = 0 then hd reply = XMODEM_ACK \<and> w' = v else hd reply \<noteq> XMODEM_ACK \<and> delivered packet k v w'))"

fun delivered_blocks :: "byte list \<Rightarrow> nat list \<Rightarrow> nat list \<Rightarrow> 'd world \<Rightarrow> 'd world \<Rightarrow> bool" where
  "delivered_blocks img [] [] w w' = (w' = w)"
| "delivered_blocks img (i # is) (k # ks) w w' =
     (\<exists>u. delivered (xmodem_packet img i) k w u \<and> delivered_blocks img is ks u w')"
| "delivered_blocks img is ks w w' = False"

lemma delivered_again:
  assumes "stream_write packet w = (Inr (), u)" and "read_exact 1 u = (Inr reply, v)"
    and "hd reply = XMODEM_ACK \<and> w' = v \<or> hd reply \<noteq> XMODEM_ACK \<and> (\<exists>k\<le>n. delivered packet k v w')"
  shows "\<exists>k\<le>Suc n. delivered packet k w w'"
  using assms(3)
proof
  assume "hd reply = XMODEM_ACK \<and> w' = v"
  then show ?thesis using assms(1,2) by (intro exI [of _ 1]) auto
next
  assume "hd reply \<noteq> XMODEM_ACK \<and> (\<exists>k\<le>n. delivered packet k v w')"
  then obtain k where k: "hd reply \<noteq> XMODEM_ACK" "k \<le> n" "delivered packet k v w'" by blast
  then have "k \<noteq> 0" by (cases k) auto
  then show ?thesis using assms(1,2) k by (intro exI [of _ "Suc k"]) auto
qed

lemma send_block_delivered: "send_block packet n w = (Inr u, w') \<Longrightarrow> \<exists>k\<le>n. delivered packet k w w'"
proof (induction n arbitrary: w)
  case 0
  then show ?case by (simp add: io_raise_def)
next
  case (Suc n)
  from Suc.prems obtain a reply v where a: "stream_write packet w = (Inr (), a)" "read_exact 1 a = (Inr reply, v)"
    and c: "hd reply = XMODEM_ACK \<and> w' = v \<or> hd reply \<noteq> XMODEM_ACK \<and> send_block packet n v = (Inr u, w')"
    by (auto simp: res_simps split: if_splits)
  show ?case by (rule delivered_again [OF a]) (use c Suc.IH in blast)
qed

lemma send_eot_delivered: "send_eot n w = (Inr u, w') \<Longrightarrow> \<exists>k\<le>n. delivered [XMODEM_EOT] k w w'"
proof (induction n arbitrary: w)
  case 0
  then show ?case by (simp add: io_raise_def)
next
  case (Suc n)
  from Suc.prems obtain a reply v where a: "stream_write [XMODEM_EOT] w = (Inr (), a)" "read_exact 1 a = (Inr reply, v)"
    and c: "hd reply = XMODEM_ACK \<and> w' = v \<or> hd reply \<noteq> XMODEM_ACK \<and> send_eot n v = (Inr u, w')"
    by (auto simp: res_simps split: if_splits)
  show ?case by (rule delivered_again [OF a]) (use c Suc.IH in blast)
qed

lemma send_blocks_delivered:
  "send_blocks img retries is w = (Inr u, w') \<Longrightarrow>
   \<exists>ks. list_all (\<lambda>k. k \<le> retries) ks \<and> delivered_blocks img is ks w w'"
proof (induction "is" arbitrary: w)
  case Nil
  then show ?case by (intro exI [of _ "[]"]) (simp add: res_simps)
next
  case (Cons i "is")
  then obtain v where v: "send_block (xmodem_packet img i) retries w = (Inr (), v)"
      "send_blocks img retries is v = (Inr u, w')" by (auto simp: res_simps)
  from send_block_delivered [OF v(1)] obtain k where k: "k \<le> retries" "delivered (xmodem_packet img i) k w v" by blast
  from Cons.IH [OF v(2)] obtain ks where "list_all (\<lambda>k. k \<le> retries) ks" "delivered_blocks img is ks v w'" by blast
  then show ?case using k by (intro exI [of _ "k # ks"]) auto
qed

lemma xmodem_chunk_padded:
  assumes "i < block_count img"
  shows "xmodem_chunk img i = take 128 (drop (i * 128) (img @ replicate (block_count img * 128 - length img) 0x1A))"
proof -
  have "Suc i * 128 \<le> block_count img * 128" using assms by (intro mult_le_mono1) simp
  moreover have "block_count img * 128 < length img + 128" by (simp add: block_count_def)
  ultimately have lt: "i * 128 < length img"
    and pad: "128 - length (drop (i * 128) img) \<le> block_count img * 128 - length img" by simp_all
  have "128 - length (take 128 (drop (i * 128) img)) = 128 - length (drop (i * 128) img)" by simp
  then show ?thesis using lt pad by (simp add: xmodem_chunk_def Let_def min_absorb2)
qed

lemma xmodem_payload:
  "concat (map (\<lambda>i. take 128 (drop 3 (xmodem_packet img i))) [0..<block_count img]) =
   img @ replicate (block_count img * 128 - length img) 0x1A"
proof -
  let ?padded = "img @ replicate (block_count img * 128 - length img) 0x1A"
  have payload: "take 128 (drop 3 (xmodem_packet img i)) = xmodem_chunk img i" for i
    by (simp add: xmodem_packet_def xmodem_chunk_def Let_def)
  have chunks: "map (\<lambda>i. take 128 (drop 3 (xmodem_packet img i))) [0..<block_count img] =
      map (\<lambda>i. take 128 (drop (i * 128) ?padded)) [0..<block_count img]"
    unfolding payload by (intro map_cong refl xmodem_chunk_padded) simp
  have "length img \<le> block_count img * 128"
    unfolding block_count_def by linarith
  then have "take (block_count img * 128) ?padded = ?padded" by (intro take_all) simp
  then show ?thesis unfolding chunks concat_take_drop .
qed

lemma xmodem_send_tx:
  assumes "xmodem_send img retries w = (r, w')" and "is_bootfriend img"
  shows "\<exists>ks m. length ks \<le> block_count img \<and> list_all (\<lambda>k. k \<le> retries) ks \<and> m \<le> retries \<and>
      (0 < m \<longrightarrow> length ks = block_count img) \<and>
      tx w' = tx w @ concat (map2 (\<lambda>i k. replicate k (xmodem_packet img i)) [0..<block_count img] ks) @
        replicate m [XMODEM_EOT]"
proof -
  let ?sent = "\<lambda>ks. concat (map2 (\<lambda>i k. replicate k (xmodem_packet img i)) [0..<block_count img] ks)"
  obtain x a where x: "read_exact 1 w = (x, a)" by fastforce
  have a: "tx a = tx w" using read_exact_tx [OF x] by simp
  obtain y b where y: "send_blocks img retries [0..<block_count img] a = (y, b)" by fastforce
  obtain z c where z: "send_eot retries b = (z, c)" by fastforce
  from send_blocks_tx [OF y] obtain ks where ks: "length ks \<le> block_count img" "list_all (\<lambda>k. k \<le> retries) ks"
      "isOk y \<longrightarrow> length ks = block_count img" "tx b = tx a @ ?sent ks" by auto
  from send_eot_tx [OF z] obtain m where m: "m \<le> retries" "tx c = tx b @ replicate m [XMODEM_EOT]" by blast
  from assms x y z consider "w' = a" | "w' = b" | "isOk y" "w' = c"
    by (auto simp: xmodem_send_def io_bind_def io_raise_def split: sum.splits if_splits)
  then show ?thesis
  proof cases
    case 1
    then show ?thesis using a by (intro exI [of _ "[]"] exI [of _ 0]) simp
  next
    case 2
    then show ?thesis using a ks by (intro exI [of _ ks] exI [of _ 0]) simp
  next
    case 3
    then show ?thesis using a ks m by (intro exI [of _ ks] exI [of _ m]) simp
  qed
qed

text \<open>
  C34: What an XMODEM upload sends, and what its success means. Whatever the outcome, nothing is written
  unless the image is a BootFriend image, and what was written is block 0, 1, 2, ... in order, each at
  most \<open>retries\<close> times, and the end-of-transfer byte at most \<open>retries\<close> times and only after all blocks.
  If the upload reports success, the peer asked for the transfer and every block and the
  end-of-transfer byte was delivered: sent until the peer answered it with an acknowledgement. The
  payloads of the blocks, taken once each, are the image followed by fewer than 128 bytes of padding.
\<close>

theorem xmodem_transfer:
  assumes "xmodem_send img retries w = (r, w')"
  shows "(\<not> is_bootfriend img \<longrightarrow> tx w' = tx w \<and> \<not> isOk r) \<and>
    (\<exists>ks m. length ks \<le> block_count img \<and> list_all (\<lambda>k. k \<le> retries) ks \<and> m \<le> retries \<and>
      (0 < m \<longrightarrow> length ks = block_count img) \<and>
      tx w' = tx w @ concat (map2 (\<lambda>i k. replicate k (xmodem_packet img i)) [0..<block_count img] ks) @
        replicate m [XMODEM_EOT]) \<and>
    (isOk r \<longrightarrow> (\<exists>start a ks b m. read_exact 1 w = (Inr start, a) \<and> hd start = XMODEM_NAK \<and>
      list_all (\<lambda>k. k \<le> retries) ks \<and> delivered_blocks img [0..<block_count img] ks a b \<and>
      m \<le> retries \<and> delivered [XMODEM_EOT] m b w') \<and>
      (\<exists>pad<128. concat (map (\<lambda>i. take 128 (drop 3 (xmodem_packet img i))) [0..<block_count img]) =
        img @ replicate pad 0x1A))"
proof (cases "is_bootfriend img")
  case False
  then have "w' = w" "\<not> isOk r" using assms by (auto simp: xmodem_send_def io_raise_def)
  then show ?thesis using False by (auto intro!: exI [of _ "[]"] exI [of _ 0])
next
  case True
  have pad: "block_count img * 128 - length img < 128" using True by (auto simp: block_count_def is_bootfriend_def)
  have "\<exists>start a ks b m. read_exact 1 w = (Inr start, a) \<and> hd start = XMODEM_NAK \<and>
      list_all (\<lambda>k. k \<le> retries) ks \<and> delivered_blocks img [0..<block_count img] ks a b \<and>
      m \<le> retries \<and> delivered [XMODEM_EOT] m b w'" if "isOk r"
  proof -
    from that assms obtain start a b where a: "read_exact 1 w = (Inr start, a)" "hd start = XMODEM_NAK"
        and b: "send_blocks img retries [0..<block_count img] a = (Inr (), b)" and e: "send_eot retries b = (Inr (), w')"
      by (cases r) (auto simp: xmodem_send_def res_simps)
    show ?thesis using a send_blocks_delivered [OF b] send_eot_delivered [OF e] by blast
  qed
  then show ?thesis using True pad xmodem_send_tx [OF assms True] xmodem_payload by blast
qed

text \<open>The upload of a four-byte image to a peer that acknowledges everything.\<close>

definition obliging :: "unit world" where
  "obliging = \<lparr>rx = [[0x15]], tx = [], dev = (), react = \<lambda>_ _. ((), [[0x06]]), clock = of_nat, ticks = 0,
     seqno = 0, out_file = None\<rparr>"

theorem xmodem_transfer_witness:
  "\<exists>w' a ks b m. xmodem_send [0x62, 0x46, 0x00, 0x00] 10 obliging = (Inr (), w') \<and>
     delivered_blocks [0x62, 0x46, 0x00, 0x00] [0] ks a b \<and> m \<le> 10 \<and> delivered [XMODEM_EOT] m b w'"
proof -
  have bc: "block_count [0x62, 0x46, 0x00, 0x00] = 1" by (simp add: block_count_def)
  have "\<exists>w'. xmodem_send [0x62, 0x46, 0x00, 0x00] 10 obliging = (Inr (), w')"
    by (simp add: xmodem_send_def is_bootfriend_def bc io_bind_def obliging_def read_exact_def stream_read_def
        read_exact_loop.simps io_return_def eval_nat_numeral stream_write_def XMODEM_NAK_def XMODEM_ACK_def)
  then obtain w' where w': "xmodem_send [0x62, 0x46, 0x00, 0x00] 10 obliging = (Inr (), w')" by blast
  show ?thesis using w' xmodem_transfer [OF w'] by (auto simp: bc)
qed

section \<open>A scripted session\<close>

text \<open>
  A peer that answers the packets it receives with prepared frames, one per packet: the concrete
  session on which the restore properties are shown to apply.
\<close>

definition scripted :: "byte list list \<Rightarrow> byte list \<Rightarrow> byte list list \<times> byte list list" where
  "scripted script packet = (case script of [] \<Rightarrow> ([], []) | a # as \<Rightarrow> (as, [a]))"

definition good_answer :: "byte \<Rightarrow> byte \<Rightarrow> byte list \<Rightarrow> byte list" where
  "good_answer command sequence data =
     (case encode_frame (command OR 0x80) sequence (0 # data) of Inr packet \<Rightarrow> packet | Inl _ \<Rightarrow> [])"

definition at_script :: "byte \<Rightarrow> byte list list \<Rightarrow> byte list list world \<Rightarrow> bool" where
  "at_script s script w \<longleftrightarrow> pending w = [] \<and> no_timeout w \<and> react w = scripted \<and> dev w = script \<and> seqno w = s"

lemma request_answered:
  assumes "at_script s (good_answer command s data # script) w"
    and "length payload \<le> 0xFFFF" and "length data < 0xFFFF"
  shows "\<exists>w'. request command payload w = (Inr data, w') \<and> at_script ((s + 1) AND 0xFF) script w'"
proof -
  obtain packet where packet: "encode_frame command s payload = Inr packet"
    using assms(2) by (auto simp: encode_frame_def Let_def)
  obtain ans where ans: "encode_frame (command OR 0x80) s (0 # data) = Inr ans"
    using assms(3) by (auto simp: encode_frame_def Let_def)
  then have ga: "good_answer command s data = ans" by (simp add: good_answer_def)
  have ne: "ans \<noteq> []" using ans by (auto simp: encode_frame_def Let_def MAGIC_def split: if_splits)
  let ?w2 = "w\<lparr>seqno := (s + 1) AND 0xFF, tx := tx w @ [packet], dev := script, rx := rx w @ [ans]\<rparr>"
  have w2: "pending ?w2 = [] @ ans @ []" "no_timeout ?w2"
    using assms(1) ne by (auto simp: at_script_def pending_def no_timeout_def)
  have "free_of_magic []" by (simp add: free_of_magic_def MAGIC_def)
  from read_frame_encoded [OF ans w2(1) this w2(2)] obtain w' where
    w': "read_frame ?w2 = (Inr \<lparr>f_version = PROTOCOL_VERSION, f_sequence = s, f_command = command OR 0x80,
        f_payload = 0 # data\<rparr>, w')" "pending w' = []" "reads_only ?w2 w'" by blast
  have "request command payload w = (Inr data, w')"
    using assms(1) packet w'(1) ga
    by (simp add: request_def io_bind_def next_sequence_def io_lift_def stream_write_def scripted_def
        at_script_def check_response_def)
  moreover have "at_script ((s + 1) AND 0xFF) script w'"
    using w' w2(2) reads_only_fields [OF w'(3)] assms(1) by (auto simp: at_script_def reads_only_def)
  ultimately show ?thesis by blast
qed

definition demo_info :: cart_information where
  "demo_info = \<lparr>ci_flags = 7, ci_model = 0x82, ci_system_control = 0, ci_save_kind = 2,
     ci_eeprom_address_bits = 6, ci_rom_size = 0x10000, ci_save_size = 1, ci_footer = []\<rparr>"

definition demo_script :: "byte list list" where
  "demo_script = [good_answer CMD_PREPARE_WRITE 0 [0x34, 0x12], good_answer CMD_BEGIN_WRITE 1 [0, 0, 0, 0],
     good_answer CMD_WRITE_EEPROM 2 [1, 0, 0, 0, 1], good_answer CMD_READ_EEPROM 3 [0x41]]"

definition demo_world :: "byte list list world" where
  "demo_world = \<lparr>rx = [], tx = [], dev = demo_script, react = scripted, clock = of_nat, ticks = 0,
     seqno = 0, out_file = None\<rparr>"

lemma demo_restore: "\<exists>w'. restore_save demo_info (Inr [0x41]) False ''WRITE'' demo_world = Some (Inr (), w')"
proof -
  have crc: "0 \<le> crc32 [0x41] AND 0xFFFFFFFF" "crc32 [0x41] AND 0xFFFFFFFF < 256 ^ 4"
    by (simp_all add: crc32_def)
  obtain p where p: "pack_fields [(1, 2), (4, 1), (4, crc32 [0x41] AND 0xFFFFFFFF)] = Inr p"
    using crc by (auto simp: pack_uint_def)
  have "at_script 0 demo_script demo_world"
    by (simp add: at_script_def demo_world_def pending_def no_timeout_def)
  then obtain w1 where w1: "request CMD_PREPARE_WRITE p demo_world = (Inr [0x34, 0x12], w1)"
      "at_script 1 (tl demo_script) w1"
    using request_answered [of 0 CMD_PREPARE_WRITE "[0x34, 0x12]" "tl demo_script" demo_world p]
      pack_fields_length [OF p] by (auto simp: demo_script_def)
  let ?v1 = "w1\<lparr>ticks := ticks w1 + 1\<rparr>"
  have "at_script 1 (tl demo_script) ?v1" using w1(2) by (simp add: at_script_def pending_def no_timeout_def)
  then obtain w2 where w2: "request CMD_BEGIN_WRITE [0x34, 0x12] ?v1 = (Inr [0, 0, 0, 0], w2)"
      "at_script 2 (tl (tl demo_script)) w2"
    using request_answered [of 1 CMD_BEGIN_WRITE "[0, 0, 0, 0]" "tl (tl demo_script)" ?v1 "[0x34, 0x12]"]
      by (auto simp: demo_script_def)
  obtain w3 where w3: "request CMD_WRITE_EEPROM [0x41] w2 = (Inr [1, 0, 0, 0, 1], w3)"
      "at_script 3 (tl (tl (tl demo_script))) w3"
    using request_answered [of 2 CMD_WRITE_EEPROM "[1, 0, 0, 0, 1]" "tl (tl (tl demo_script))" w2 "[0x41]"]
      w2(2) by (auto simp: demo_script_def)
  obtain w4 where w4: "request CMD_READ_EEPROM [0, 0, 1] w3 = (Inr [0x41], w4)"
    using request_answered [of 3 CMD_READ_EEPROM "[0x41]" "[]" w3 "[0, 0, 1]"] w3(2)
    by (auto simp: demo_script_def)
  have prepare: "prepare_write 2 1 (crc32 [0x41] AND 0xFFFFFFFF) demo_world = (Inr 0x1234, w1)"
    using p w1(1) by (simp add: prepare_write_def io_bind_def io_lift_def io_return_def)
  have opened: "restore_open demo_info (Inr [0x41]) False ''WRITE'' demo_world =
      (Inr ([0x41], 0x1234, clock w1 (ticks w1) + 20), ?v1)"
    using prepare by (simp add: restore_open_def restore_checks_def demo_info_def io_bind_def io_lift_def
        io_return_def monotonic_def)
  have "pack_fields [(2, 0x1234)] = Inr [0x34, 0x12]"
    by (simp add: pack_uint_def le_bytes_2)
  then have "begin_write 0x1234 ?v1 = (Inr 0, w2)"
    using w2(1) by (simp add: begin_write_def io_bind_def io_lift_def io_return_def)
  then have confirmed: "await_confirm 0x1234 d ?v1 = Some (Inr (), w2)" for d
    by (subst await_confirm.simps) simp
  have positions: "range_step 1 MAX_TRANSFER = [0]" by (simp add: range_step_def MAX_TRANSFER_def)
  have written: "write_step 2 [0x41] 0 False w2 = (Inr True, w3)"
    using w3(1) by (simp add: write_step_def write_save_def io_bind_def io_return_def MAX_TRANSFER_def
        Let_def eval_nat_numeral)
  have "pack_fields [(2, 0), (1, 1)] = Inr [0, 0, 1]"
    by (simp add: pack_uint_def le_bytes_2)
  then have verify: "verify_step demo_info [0x41] 0 () w3 = (Inr (), w4)"
    using w4 by (simp add: verify_step_def read_save_linear_def read_eeprom_def demo_info_def io_bind_def
        io_lift_def io_return_def MAX_TRANSFER_def Let_def)
  have "restore_body demo_info [0x41] w2 = (Inr (), w4)"
    using written verify positions by (simp add: restore_body_def io_bind_def io_return_def demo_info_def)
  then show ?thesis using opened confirmed by (simp add: restore_save_def)
qed

theorem restore_request_order_witness:
  "\<exists>w' token n. restore_save demo_info (Inr [0x41]) False ''WRITE'' demo_world = Some (Inr (), w') \<and>
     requests (restore_plan demo_info [0x41] token n) demo_world w'"
proof -
  obtain w' where w': "restore_save demo_info (Inr [0x41]) False ''WRITE'' demo_world = Some (Inr (), w')"
    using demo_restore by blast
  show ?thesis using w' restore_request_order [OF w'] by auto
qed

theorem restore_verified_witness:
  "\<exists>v w'. restore_save demo_info (Inr [0x41]) False ''WRITE'' demo_world = Some (Inr (), w') \<and>
     read_save_image demo_info v = (Inr [0x41], w')"
proof -
  obtain w' where w': "restore_save demo_info (Inr [0x41]) False ''WRITE'' demo_world = Some (Inr (), w')"
    using demo_restore by blast
  show ?thesis using w' restore_verified [OF w'] by auto
qed

theorem restore_refused_untouched_witness:
  "\<exists>message. restore_save demo_info (Inr [0x41]) False ''no'' demo_world = Some (Inl (RuntimeError message), demo_world)"
  by (rule restore_refused_untouched) simp


theorem dump_never_overwrites_witness:
  "(\<exists>e. dump_rom demo_info (demo_world\<lparr>out_file := Some [7]\<rparr>) = (Inl e, demo_world\<lparr>out_file := Some [7]\<rparr>)) \<and>
   (\<exists>e. dump_save demo_info (demo_world\<lparr>out_file := Some [7]\<rparr>) = (Inl e, demo_world\<lparr>out_file := Some [7]\<rparr>))"
  by (rule dump_never_overwrites) simp

end
