(* ===== verification/Trace_Rows.thy ===== *)
theory Trace_Rows
  imports Swan_Prelude
begin

unbundle bit_operations_syntax

text \<open>
  The structured traces of the simulator and their validator
  (\<^verbatim>\<open>sim/verilator/verify_trace.py\<close>): the column sets of the six schema versions, the argument
  parsers, one validator per event type, and the loop over the rows with its coverage
  requirements.

  A row is a function from column names to texts. \<open>csv.DictReader\<close> leaves a missing column as
  \<open>None\<close>, which every test of the code treats like the empty text, so a missing column reads as
  the empty text here; splitting the file into rows of fields is done before the model starts.
\<close>

section \<open>Columns and vocabularies\<close>

definition FIELDS_V1 :: "string list" where
  "FIELDS_V1 = [''cycle'', ''event'', ''physical_pc'', ''cs'', ''ip'', ''address'', ''value'']"

definition FIELDS_V2 :: "string list" where "FIELDS_V2 = FIELDS_V1 @ [''role'']"

definition MEM_FIELDS :: "string list" where
  "MEM_FIELDS = [''initiator'', ''access'', ''byte_enable'', ''space'', ''mapped_offset'',
     ''instruction_id'', ''origin_pc'', ''origin_status'']"

definition FIELDS_V3 :: "string list" where "FIELDS_V3 = FIELDS_V2 @ MEM_FIELDS"

definition FETCH_FIELDS :: "string list" where "FETCH_FIELDS = [''fetch_value'', ''fetch_collision'']"

definition FIELDS_V4 :: "string list" where "FIELDS_V4 = FIELDS_V3 @ FETCH_FIELDS"

definition BG_FIELDS :: "string list" where
  "BG_FIELDS = [''bg_layer'', ''map_address'', ''map_value'', ''map_x'', ''map_y'',
     ''tile_bank_enabled'', ''tile_index'', ''palette'', ''hflip'', ''vflip'', ''bpp'', ''packed'',
     ''tile_row'', ''tile_row_address'', ''tile_row_bytes'', ''tile_row_value'', ''map_collision'',
     ''tile_row_collision'']"

definition FIELDS_V5 :: "string list" where "FIELDS_V5 = FIELDS_V4 @ BG_FIELDS"

definition SPRITE_FIELDS :: "string list" where
  "SPRITE_FIELDS = [''sprite_table_address'', ''sprite_table_value'', ''sprite_table_collision'',
     ''sprite_line_y'', ''sprite_line_slot'', ''sprite_table_generation'', ''sprite_line_epoch'']"

definition FIELDS_V6 :: "string list" where "FIELDS_V6 = FIELDS_V5 @ SPRITE_FIELDS"

definition EVENTS :: "string set" where
  "EVENTS = {''cpu'', ''bank'', ''vram'', ''mem'', ''bg_cell'', ''sprite_row''}"

definition VRAM_ROLES :: "string set" where
  "VRAM_ROLES = {''screen1_map'', ''screen1_tile'', ''screen2_map'', ''screen2_tile'',
     ''sprite_table'', ''sprite_tile''}"

definition MEM_INITIATORS :: "string set" where "MEM_INITIATORS = {''cpu'', ''gdma'', ''sdma''}"

definition MEM_ACCESSES :: "string set" where "MEM_ACCESSES = {''read'', ''write''}"

definition MEM_SPACES :: "string set" where
  "MEM_SPACES = {''iram'', ''cart_sram'', ''cart_rom0'', ''cart_rom1'', ''cart_rom_linear'',
     ''boot_rom'', ''unmapped'', ''absent_sram'', ''cart_flash''}"

definition ORIGIN_STATUSES :: "string set" where
  "ORIGIN_STATUSES = {''exact'', ''unattributed'', ''not_applicable''}"

definition BANK_ADDRESSES :: "int set" where
  "BANK_ADDRESSES = {0xC0, 0xC1, 0xC2, 0xC3, 0xCE, 0xCF, 0xD0, 0xD1, 0xD2, 0xD3, 0xD4, 0xD5}"

section \<open>Fields of a row\<close>

type_synonym row = "string \<Rightarrow> string"

definition dict_row :: "string list \<Rightarrow> string list \<Rightarrow> row" where
  "dict_row fieldnames values field =
     (case map_of (zip fieldnames values) field of Some v \<Rightarrow> v | None \<Rightarrow> [])"

definition number :: "string \<Rightarrow> string \<Rightarrow> int \<Rightarrow> int \<Rightarrow> int res" where
  "number value field line maximum =
     (if value = [] then Inl (LineError line (field @ '' is empty''))
      else case py_int10 value of
             None \<Rightarrow> Inl (LineError line (field @ '' is not a decimal integer''))
           | Some result \<Rightarrow>
               if 0 \<le> result \<and> result \<le> maximum then Inr result
               else Inl (LineError line (field @ '' is out of range'')))"

definition empty_fields :: "row \<Rightarrow> string list \<Rightarrow> int \<Rightarrow> unit res" where
  "empty_fields row fields line =
     (if filter (\<lambda>field. row field \<noteq> []) fields \<noteq> []
      then Inl (LineError line ''unexpected fields'') else Inr ())"

section \<open>Argument parsers\<close>

definition py_lower :: "string \<Rightarrow> string" where
  "py_lower = map (\<lambda>c. let n = char_code c in if 65 \<le> n \<and> n \<le> 90 then char_of (n + 32) else c)"

fun split_on :: "char \<Rightarrow> string \<Rightarrow> string list" where
  "split_on sep [] = [[]]"
| "split_on sep (c # cs) =
     (if c = sep then [] # split_on sep cs
      else case split_on sep cs of [] \<Rightarrow> [[c]] | w # ws \<Rightarrow> (c # w) # ws)"

definition items :: "string \<Rightarrow> string list" where
  "items value = map (\<lambda>i. py_lower (strip i)) (filter (\<lambda>i. strip i \<noteq> []) (split_on CHR '','' value))"

definition event_set :: "string \<Rightarrow> string set res" where
  "event_set value =
     (let result = set (items value); unknown = result - EVENTS
      in if unknown \<noteq> {} then Inl (ArgumentTypeError ''unknown event type(s)'') else Inr result)"

definition choice_set :: "string set \<Rightarrow> string \<Rightarrow> string set res" where
  "choice_set choices value =
     (let given = set (items value);
          result = (if ''all'' \<in> given then given - {''all''} \<union> choices else given);
          unknown = result - choices
      in if result = {} \<or> unknown \<noteq> {} then Inl (ArgumentTypeError ''unknown or empty list'')
         else Inr result)"

definition mem_initiator_set :: "string \<Rightarrow> string set res" where
  "mem_initiator_set = choice_set MEM_INITIATORS"

definition mem_access_set :: "string \<Rightarrow> string set res" where
  "mem_access_set = choice_set MEM_ACCESSES"

definition mem_space_set :: "string \<Rightarrow> string set res" where
  "mem_space_set = choice_set MEM_SPACES"

definition origin_status_set :: "string \<Rightarrow> string set res" where
  "origin_status_set = choice_set ORIGIN_STATUSES"

definition vram_role_set :: "string \<Rightarrow> string set res" where
  "vram_role_set = choice_set VRAM_ROLES"

text \<open>
  \<open>int(text, 0)\<close>: a prefix selects the base; without one the number is decimal and may not have
  leading zeros unless it is zero. One underscore may follow the prefix or separate digits.
\<close>

definition after_prefix :: "string \<Rightarrow> string" where
  "after_prefix s = (case s of [] \<Rightarrow> [] | c # cs \<Rightarrow> if c = CHR ''_'' then cs else s)"

definition plain_digits :: "string \<Rightarrow> nat option" where
  "plain_digits s =
     (case digits_val 10 False 0 s of
        None \<Rightarrow> None
      | Some v \<Rightarrow> if hd s = CHR ''0'' \<and> v \<noteq> 0 then None else Some v)"

definition radix_digits :: "string \<Rightarrow> nat option" where
  "radix_digits s =
     (case s of
        a # b # cs \<Rightarrow>
          if a = CHR ''0'' \<and> b \<in> {CHR ''x'', CHR ''X''} then digits_val 16 False 0 (after_prefix cs)
          else if a = CHR ''0'' \<and> b \<in> {CHR ''o'', CHR ''O''} then digits_val 8 False 0 (after_prefix cs)
          else if a = CHR ''0'' \<and> b \<in> {CHR ''b'', CHR ''B''} then digits_val 2 False 0 (after_prefix cs)
          else plain_digits s
      | _ \<Rightarrow> plain_digits s)"

definition py_int0 :: "string \<Rightarrow> int option" where
  "py_int0 s =
     (case strip s of
        [] \<Rightarrow> None
      | c # cs \<Rightarrow>
          if c = CHR ''-'' then map_option (\<lambda>n. - int n) (radix_digits cs)
          else if c = CHR ''+'' then map_option int (radix_digits cs)
          else map_option int (radix_digits (c # cs)))"

fun split_first :: "char \<Rightarrow> string \<Rightarrow> (string \<times> string) option" where
  "split_first sep [] = None"
| "split_first sep (c # cs) =
     (if c = sep then Some ([], cs) else map_option (\<lambda>(a, b). (c # a, b)) (split_first sep cs))"

definition bounded_range :: "int \<Rightarrow> string \<Rightarrow> string \<Rightarrow> (int \<times> int) option" where
  "bounded_range maximum first_text last_text =
     (case (py_int0 first_text, py_int0 last_text) of
        (Some first, Some last') \<Rightarrow>
          if 0 \<le> first \<and> first \<le> last' \<and> last' \<le> maximum then Some (first, last') else None
      | _ \<Rightarrow> None)"

definition pc_range_item :: "string \<Rightarrow> (int \<times> int) option" where
  "pc_range_item text =
     (let item = strip text
      in if item = [] then None
         else case split_first CHR ''-'' item of
                None \<Rightarrow> None
              | Some (first_text, last_text) \<Rightarrow> bounded_range 0xFFFFF first_text last_text)"

definition wide_range_item :: "int \<Rightarrow> string \<Rightarrow> (int \<times> int) option" where
  "wide_range_item maximum text =
     (let item = strip text
      in if item = [] then None
         else case split_first CHR ''-'' item of
                None \<Rightarrow> bounded_range maximum item item
              | Some (first_text, last_text) \<Rightarrow> bounded_range maximum first_text last_text)"

definition pc_ranges :: "string \<Rightarrow> (int \<times> int) list res" where
  "pc_ranges value =
     (case those (map pc_range_item (split_on CHR '','' value)) of
        None \<Rightarrow> Inl (ArgumentTypeError ''PC filter must be comma-separated START-END ranges'')
      | Some ranges \<Rightarrow> Inr ranges)"

definition address_ranges :: "string \<Rightarrow> (int \<times> int) list res" where
  "address_ranges value =
     (case those (map (wide_range_item 0xFFFF) (split_on CHR '','' value)) of
        None \<Rightarrow> Inl (ArgumentTypeError ''VRAM address must be ADDR or comma-separated START-END ranges'')
      | Some ranges \<Rightarrow> Inr ranges)"

definition wide_ranges :: "int \<Rightarrow> string \<Rightarrow> (int \<times> int) list res" where
  "wide_ranges maximum value =
     (case those (map (wide_range_item maximum) (split_on CHR '','' value)) of
        None \<Rightarrow> Inl (ArgumentTypeError ''not ADDR or comma-separated START-END ranges'')
      | Some ranges \<Rightarrow> Inr ranges)"

definition mem_address_ranges :: "string \<Rightarrow> (int \<times> int) list res" where
  "mem_address_ranges = wide_ranges 0xFFFFF"

definition mem_offset_ranges :: "string \<Rightarrow> (int \<times> int) list res" where
  "mem_offset_ranges = wide_ranges 0xFFFFFF"

definition bank_address_set :: "string \<Rightarrow> int set res" where
  "bank_address_set value =
     (case those (map (\<lambda>item. py_int0 (strip item)) (filter (\<lambda>item. strip item \<noteq> []) (split_on CHR '','' value))) of
        None \<Rightarrow> Inl (ArgumentTypeError ''bank addresses must be comma-separated integers'')
      | Some addresses \<Rightarrow>
          if set addresses = {} then Inl (ArgumentTypeError ''at least one bank address is required'')
          else if filter (\<lambda>a. a \<notin> BANK_ADDRESSES) addresses \<noteq> []
          then Inl (ArgumentTypeError ''bank addresses are not documented mapper bank ports'')
          else Inr (set addresses))"

section \<open>The event validators\<close>

record verify_options =
  allowed :: "string set"
  required :: "string set"
  pc_filter :: "(int \<times> int) list option"
  required_bank_addresses :: "int set"
  vram_address_filter :: "(int \<times> int) list option"
  vram_role_filter :: "string set option"
  required_vram_roles :: "string set"
  mem_initiator_filter :: "string set option"
  mem_access_filter :: "string set option"
  mem_space_filter :: "string set option"
  mem_address_filter :: "(int \<times> int) list option"
  mem_offset_filter :: "(int \<times> int) list option"
  origin_status_filter :: "string set option"
  origin_pc_filter :: "(int \<times> int) list option"
  require_fetch_values :: bool
  reject_fetch_collisions :: bool
  required_mem_initiators :: "string set"
  required_origin_statuses :: "string set"

text \<open>\<open>filter and not any(first <= x <= last ...)\<close>; \<open>filter is not None and x not in filter\<close>.\<close>

definition given_ranges :: "(int \<times> int) list option \<Rightarrow> bool" where
  "given_ranges f \<longleftrightarrow> (case f of None \<Rightarrow> False | Some ranges \<Rightarrow> ranges \<noteq> [])"

definition in_ranges :: "(int \<times> int) list option \<Rightarrow> int \<Rightarrow> bool" where
  "in_ranges f x \<longleftrightarrow> (case f of None \<Rightarrow> False | Some ranges \<Rightarrow> list_ex (\<lambda>(a, b). a \<le> x \<and> x \<le> b) ranges)"

definition escapes :: "(int \<times> int) list option \<Rightarrow> int \<Rightarrow> bool" where
  "escapes f x \<longleftrightarrow> given_ranges f \<and> \<not> in_ranges f x"

definition escapes_set :: "string set option \<Rightarrow> string \<Rightarrow> bool" where
  "escapes_set f x \<longleftrightarrow> (case f of None \<Rightarrow> False | Some s \<Rightarrow> x \<notin> s)"

definition reject :: "bool \<Rightarrow> int \<Rightarrow> string \<Rightarrow> unit res" where
  "reject bad line message = (if bad then Inl (LineError line message) else Inr ())"

lemma reject_Inr [res_simps]: "reject bad line message = Inr u \<longleftrightarrow> \<not> bad"
  by (simp add: reject_def)

definition verify_cpu :: "verify_options \<Rightarrow> row \<Rightarrow> int \<Rightarrow> unit res" where
  "verify_cpu opts row line =
     rbind (number (row ''physical_pc'') ''physical_pc'' line 0xFFFFF) (\<lambda>physical_pc.
     rbind (number (row ''cs'') ''cs'' line 0xFFFF) (\<lambda>cs.
     rbind (number (row ''ip'') ''ip'' line 0xFFFF) (\<lambda>ip.
     rbind (empty_fields row ([''address'', ''value'', ''role''] @ MEM_FIELDS @ FETCH_FIELDS @
              BG_FIELDS @ SPRITE_FIELDS) line) (\<lambda>_.
     rbind (reject (physical_pc \<noteq> (push_bit 4 cs + ip) AND 0xFFFFF) line
              ''physical_pc does not match CS:IP'') (\<lambda>_.
     reject (escapes (pc_filter opts) physical_pc) line ''CPU PC escaped requested filter'')))))"

definition verify_bank :: "nat \<Rightarrow> row \<Rightarrow> int \<Rightarrow> int res" where
  "verify_bank schema row line =
     rbind (empty_fields row ([''physical_pc'', ''cs'', ''ip'', ''role''] @
              (if 5 \<le> schema then take 5 MEM_FIELDS else MEM_FIELDS) @
              FETCH_FIELDS @ BG_FIELDS @ SPRITE_FIELDS) line) (\<lambda>_.
     rbind (number (row ''address'') ''address'' line 0xFF) (\<lambda>address.
     rbind (number (row ''value'') ''value'' line 0xFF) (\<lambda>_.
     rbind (reject (address \<notin> BANK_ADDRESSES) line
              ''bank address is not a documented mapper bank port'') (\<lambda>_.
     rbind (if 5 \<le> schema then
              rbind (number (row ''instruction_id'') ''instruction_id'' line 0xFFFFFFFF) (\<lambda>instruction_id.
              rbind (reject (instruction_id = 0) line ''v5 bank instruction_id must be nonzero'') (\<lambda>_.
              rbind (number (row ''origin_pc'') ''origin_pc'' line 0xFFFFF) (\<lambda>_.
              reject (row ''origin_status'' \<noteq> ''exact'') line ''v5 bank event requires exact origin_status'')))
            else Inr ()) (\<lambda>_. Inr address)))))"

definition verify_vram :: "verify_options \<Rightarrow> nat \<Rightarrow> row \<Rightarrow> int \<Rightarrow> string option res" where
  "verify_vram opts schema row line =
     rbind (empty_fields row ([''physical_pc'', ''cs'', ''ip'', ''value''] @ MEM_FIELDS @
              BG_FIELDS @ SPRITE_FIELDS) line) (\<lambda>_.
     rbind (number (row ''address'') ''address'' line 0xFFFF) (\<lambda>address.
     rbind (reject (address AND 1 \<noteq> 0) line ''VRAM word address is not aligned'') (\<lambda>_.
     rbind (reject (escapes (vram_address_filter opts) address) line
              ''VRAM address escaped requested filter'') (\<lambda>_.
     rbind (if 2 \<le> schema then
              rbind (reject (row ''role'' \<notin> VRAM_ROLES) line ''invalid or missing VRAM role'') (\<lambda>_.
              rbind (reject (escapes_set (vram_role_filter opts) (row ''role'')) line
                       ''VRAM role escaped requested filter'') (\<lambda>_.
              Inr (Some (row ''role''))))
            else Inr None) (\<lambda>role.
     rbind (if 4 \<le> schema then
              rbind (number (row ''fetch_value'') ''fetch_value'' line 0xFFFF) (\<lambda>_.
              rbind (number (row ''fetch_collision'') ''fetch_collision'' line 1) (\<lambda>collision.
              reject (reject_fetch_collisions opts \<and> collision \<noteq> 0) line
                ''display fetch collided with an IRAM write''))
            else empty_fields row FETCH_FIELDS line) (\<lambda>_. Inr role))))))"

definition expected_segment :: "string \<Rightarrow> int option" where
  "expected_segment =
     map_of [(''iram'', 0x0), (''unmapped'', 0x0), (''cart_sram'', 0x1), (''absent_sram'', 0x1),
             (''cart_flash'', 0x1), (''cart_rom0'', 0x2), (''cart_rom1'', 0x3)]"

definition verify_mem_offset :: "verify_options \<Rightarrow> row \<Rightarrow> int \<Rightarrow> int \<Rightarrow> unit res" where
  "verify_mem_offset opts row line address =
     (let space = row ''space'' in
      rbind (if space \<in> {''unmapped'', ''absent_sram''} then
               rbind (reject (row ''mapped_offset'' \<noteq> []) line (space @ '' must not have mapped_offset''))
                 (\<lambda>_. Inr None)
             else rbind (number (row ''mapped_offset'') ''mapped_offset'' line 0xFFFFFF) (\<lambda>offset. Inr (Some offset)))
       (\<lambda>mapped_offset.
        let segment = drop_bit 16 address in
      rbind (reject (case expected_segment space of None \<Rightarrow> False | Some expected \<Rightarrow> segment \<noteq> expected) line
               (space @ '' is inconsistent with raw address'')) (\<lambda>_.
      rbind (reject (space = ''cart_rom_linear'' \<and> segment < 0x4) line
               ''linear ROM requires address >= 0x40000'') (\<lambda>_.
      rbind (reject (space = ''iram'' \<and> mapped_offset \<noteq> Some (address AND 0xFFFF)) line
               ''IRAM offset does not match raw address'') (\<lambda>_.
      rbind (reject (space = ''boot_rom'' \<and> (case mapped_offset of None \<Rightarrow> False | Some offset \<Rightarrow> offset > 0x1FFF)) line
               ''boot ROM offset exceeds 8 KiB'') (\<lambda>_.
      reject (given_ranges (mem_offset_filter opts) \<and>
              (case mapped_offset of None \<Rightarrow> True | Some offset \<Rightarrow> \<not> in_ranges (mem_offset_filter opts) offset))
        line ''memory offset escaped requested filter''))))))"

definition verify_mem_origin :: "verify_options \<Rightarrow> row \<Rightarrow> int \<Rightarrow> unit res" where
  "verify_mem_origin opts row line =
     (let initiator = row ''initiator''; origin_status = row ''origin_status'' in
      rbind (reject (escapes_set (origin_status_filter opts) origin_status) line
               ''origin status escaped requested filter'') (\<lambda>_.
      if origin_status = ''exact'' then
        rbind (number (row ''instruction_id'') ''instruction_id'' line 0xFFFFFFFF) (\<lambda>_.
        rbind (number (row ''origin_pc'') ''origin_pc'' line 0xFFFFF) (\<lambda>origin_pc.
        rbind (reject (initiator \<noteq> ''cpu'') line ''exact origin requires CPU initiator'') (\<lambda>_.
        reject (escapes (origin_pc_filter opts) origin_pc) line ''origin PC escaped requested filter'')))
      else
        rbind (empty_fields row [''instruction_id'', ''origin_pc''] line) (\<lambda>_.
        rbind (reject (origin_status = ''not_applicable'' \<and> initiator = ''cpu'') line
                 ''CPU memory event cannot use not_applicable origin'') (\<lambda>_.
        rbind (reject (origin_status = ''unattributed'' \<and> initiator \<noteq> ''cpu'') line
                 ''DMA memory event must use not_applicable origin'') (\<lambda>_.
        reject (given_ranges (origin_pc_filter opts)) line
          ''unattributed event escaped origin PC filter'')))))"

definition verify_mem :: "verify_options \<Rightarrow> nat \<Rightarrow> row \<Rightarrow> int \<Rightarrow> (string \<times> string) res" where
  "verify_mem opts schema row line =
     rbind (reject (schema < 3) line ''memory event requires v3 schema'') (\<lambda>_.
     rbind (empty_fields row ([''physical_pc'', ''cs'', ''ip'', ''role''] @ FETCH_FIELDS @
              BG_FIELDS @ SPRITE_FIELDS) line) (\<lambda>_.
     rbind (number (row ''address'') ''address'' line 0xFFFFF) (\<lambda>address.
     rbind (number (row ''value'') ''value'' line 0xFFFF) (\<lambda>_.
     rbind (number (row ''byte_enable'') ''byte_enable'' line 3) (\<lambda>byte_enable.
     let initiator = row ''initiator''; access = row ''access''; space = row ''space'';
         origin_status = row ''origin_status'' in
     rbind (reject (initiator \<notin> MEM_INITIATORS) line ''invalid memory initiator'') (\<lambda>_.
     rbind (reject (access \<notin> MEM_ACCESSES) line ''invalid memory access'') (\<lambda>_.
     rbind (reject (space \<notin> MEM_SPACES) line ''invalid memory space'') (\<lambda>_.
     rbind (reject (origin_status \<notin> ORIGIN_STATUSES) line ''invalid origin status'') (\<lambda>_.
     rbind (reject (5 \<le> schema \<and> initiator = ''cpu'' \<and> access = ''read'' \<and> byte_enable \<noteq> 0) line
              ''v5 CPU read byte_enable must be zero'') (\<lambda>_.
     rbind (reject (escapes_set (mem_initiator_filter opts) initiator) line
              ''memory initiator escaped requested filter'') (\<lambda>_.
     rbind (reject (escapes_set (mem_access_filter opts) access) line
              ''memory access escaped requested filter'') (\<lambda>_.
     rbind (reject (escapes_set (mem_space_filter opts) space) line
              ''memory space escaped requested filter'') (\<lambda>_.
     rbind (reject (escapes (mem_address_filter opts) address) line
              ''memory address escaped requested filter'') (\<lambda>_.
     rbind (verify_mem_offset opts row line address) (\<lambda>_.
     rbind (verify_mem_origin opts row line) (\<lambda>_.
     Inr (initiator, origin_status)))))))))))))))))"

text \<open>The address of a row of tile data, and what the validators recompute from a map word.\<close>

definition tile_row_location :: "int \<Rightarrow> int \<Rightarrow> int \<Rightarrow> int \<Rightarrow> int" where
  "tile_row_location bpp tile_index row_bytes tile_row =
     (if bpp = 2 then 0x2000 else 0x4000) + tile_index * row_bytes * 8 + tile_row * row_bytes"

definition map_tile_index :: "int \<Rightarrow> int \<Rightarrow> int" where
  "map_tile_index map_value tile_bank_enabled =
     (if tile_bank_enabled \<noteq> 0 then (map_value AND 0x1FF) OR push_bit 9 (drop_bit 13 map_value AND 1)
      else map_value AND 0x1FF)"

definition verify_bg_cell :: "nat \<Rightarrow> row \<Rightarrow> int \<Rightarrow> unit res" where
  "verify_bg_cell schema row line =
     rbind (reject (schema < 5) line ''background-cell event requires v5 schema'') (\<lambda>_.
     rbind (empty_fields row ([''physical_pc'', ''cs'', ''ip'', ''address'', ''value'', ''role''] @
              MEM_FIELDS @ FETCH_FIELDS @ SPRITE_FIELDS) line) (\<lambda>_.
     rbind (number (row ''bg_layer'') ''bg_layer'' line 2) (\<lambda>bg_layer.
     rbind (reject (bg_layer \<notin> {1, 2}) line ''bg_layer must be 1 or 2'') (\<lambda>_.
     rbind (number (row ''map_address'') ''map_address'' line 0xFFFF) (\<lambda>map_address.
     rbind (reject (map_address AND 1 \<noteq> 0) line ''background map word address is not aligned'') (\<lambda>_.
     rbind (number (row ''map_value'') ''map_value'' line 0xFFFF) (\<lambda>map_value.
     rbind (number (row ''map_x'') ''map_x'' line 31) (\<lambda>map_x.
     rbind (number (row ''map_y'') ''map_y'' line 31) (\<lambda>map_y.
     rbind (number (row ''tile_bank_enabled'') ''tile_bank_enabled'' line 1) (\<lambda>tile_bank_enabled.
     rbind (number (row ''tile_index'') ''tile_index'' line 1023) (\<lambda>tile_index.
     rbind (number (row ''palette'') ''palette'' line 15) (\<lambda>palette.
     rbind (number (row ''hflip'') ''hflip'' line 1) (\<lambda>hflip.
     rbind (number (row ''vflip'') ''vflip'' line 1) (\<lambda>vflip.
     rbind (number (row ''bpp'') ''bpp'' line 4) (\<lambda>bpp.
     rbind (reject (bpp \<notin> {2, 4}) line ''bpp must be 2 or 4'') (\<lambda>_.
     rbind (number (row ''packed'') ''packed'' line 1) (\<lambda>_.
     rbind (number (row ''tile_row'') ''tile_row'' line 7) (\<lambda>tile_row.
     rbind (number (row ''tile_row_address'') ''tile_row_address'' line 0xFFFF) (\<lambda>tile_row_address.
     rbind (number (row ''tile_row_bytes'') ''tile_row_bytes'' line 4) (\<lambda>tile_row_bytes.
     rbind (reject (tile_row_bytes \<noteq> (if bpp = 2 then 2 else 4)) line
              ''tile_row_bytes does not match bpp'') (\<lambda>_.
     rbind (number (row ''tile_row_value'') ''tile_row_value'' line 0xFFFFFFFF) (\<lambda>tile_row_value.
     rbind (reject (tile_row_value \<ge> push_bit (nat (8 * tile_row_bytes)) 1) line
              ''tile_row_value exceeds its width'') (\<lambda>_.
     rbind (number (row ''map_collision'') ''map_collision'' line 1) (\<lambda>_.
     rbind (number (row ''tile_row_collision'') ''tile_row_collision'' line 1) (\<lambda>_.
     rbind (reject ((map_x, map_y) \<noteq> (drop_bit 1 map_address AND 31, drop_bit 6 map_address AND 31)) line
              ''map coordinates do not match address'') (\<lambda>_.
     rbind (reject (tile_index \<noteq> map_tile_index map_value tile_bank_enabled) line
              ''tile_index does not match map word'') (\<lambda>_.
     rbind (reject ((palette, hflip, vflip) \<noteq>
                (drop_bit 9 map_value AND 15, drop_bit 14 map_value AND 1, drop_bit 15 map_value AND 1)) line
              ''palette/flip fields do not match map word'') (\<lambda>_.
     reject (tile_row_address \<noteq> tile_row_location bpp tile_index tile_row_bytes tile_row) line
       ''tile_row_address does not match decoded tile row''))))))))))))))))))))))))))))"

definition verify_sprite_row :: "nat \<Rightarrow> row \<Rightarrow> int \<Rightarrow> unit res" where
  "verify_sprite_row schema row line =
     rbind (reject (schema < 6) line ''sprite-row event requires v6 schema'') (\<lambda>_.
     rbind (empty_fields row ([''physical_pc'', ''cs'', ''ip'', ''address'', ''value'', ''role''] @
              MEM_FIELDS @ FETCH_FIELDS @ [''bg_layer'', ''map_address'', ''map_value'', ''map_x'',
              ''map_y'', ''tile_bank_enabled'', ''map_collision'']) line) (\<lambda>_.
     rbind (number (row ''sprite_table_address'') ''sprite_table_address'' line 0xFFFF) (\<lambda>table_address.
     rbind (reject (table_address AND 3 \<noteq> 0) line ''sprite table address is not 4-byte aligned'') (\<lambda>_.
     rbind (number (row ''sprite_table_value'') ''sprite_table_value'' line 0xFFFFFFFF) (\<lambda>table_value.
     rbind (number (row ''sprite_table_collision'') ''sprite_table_collision'' line 1) (\<lambda>_.
     rbind (number (row ''sprite_line_y'') ''sprite_line_y'' line 0xFF) (\<lambda>line_y.
     rbind (number (row ''sprite_line_slot'') ''sprite_line_slot'' line 31) (\<lambda>_.
     rbind (number (row ''sprite_table_generation'') ''sprite_table_generation'' line 0xFFFFFFFF) (\<lambda>_.
     rbind (number (row ''sprite_line_epoch'') ''sprite_line_epoch'' line 0xFFFFFFFF) (\<lambda>_.
     rbind (number (row ''tile_index'') ''tile_index'' line 0x1FF) (\<lambda>tile_index.
     rbind (number (row ''palette'') ''palette'' line 15) (\<lambda>palette.
     rbind (number (row ''hflip'') ''hflip'' line 1) (\<lambda>hflip.
     rbind (number (row ''vflip'') ''vflip'' line 1) (\<lambda>vflip.
     rbind (number (row ''bpp'') ''bpp'' line 4) (\<lambda>bpp.
     rbind (reject (bpp \<notin> {2, 4}) line ''bpp must be 2 or 4'') (\<lambda>_.
     rbind (number (row ''packed'') ''packed'' line 1) (\<lambda>_.
     rbind (number (row ''tile_row'') ''tile_row'' line 7) (\<lambda>tile_row.
     rbind (number (row ''tile_row_address'') ''tile_row_address'' line 0xFFFF) (\<lambda>row_address.
     rbind (number (row ''tile_row_bytes'') ''tile_row_bytes'' line 4) (\<lambda>row_bytes.
     let expected_bytes = (if bpp = 2 then 2 else 4) in
     rbind (reject (row_bytes \<noteq> expected_bytes) line ''tile_row_bytes does not match bpp'') (\<lambda>_.
     rbind (number (row ''tile_row_value'') ''tile_row_value'' line 0xFFFFFFFF) (\<lambda>row_value.
     rbind (reject (row_value \<ge> push_bit (nat (8 * row_bytes)) 1) line
              ''tile_row_value exceeds its width'') (\<lambda>_.
     rbind (number (row ''tile_row_collision'') ''tile_row_collision'' line 1) (\<lambda>_.
     rbind (reject ((tile_index, palette, hflip, vflip) \<noteq>
                (table_value AND 0x1FF, 8 OR (drop_bit 9 table_value AND 7),
                 drop_bit 14 table_value AND 1, drop_bit 15 table_value AND 1)) line
              ''sprite tile/palette/flip fields do not match descriptor'') (\<lambda>_.
     let sprite_y = drop_bit 16 table_value AND 0xFF;
         delta = (line_y - sprite_y) AND 0xFF in
     rbind (reject (delta \<ge> 8) line ''sprite is not vertically active on sprite_line_y'') (\<lambda>_.
     rbind (reject (tile_row \<noteq> (if vflip \<noteq> 0 then 7 - delta else delta)) line
              ''tile_row does not match descriptor/line'') (\<lambda>_.
     reject (row_address \<noteq> tile_row_location bpp tile_index expected_bytes tile_row) line
       ''tile_row_address does not match descriptor/line'')))))))))))))))))))))))))))"

section \<open>The trace\<close>

record verify_state =
  counts :: "string \<Rightarrow> nat"
  bank_addresses :: "int set"
  vram_roles :: "string set"
  mem_initiators :: "string set"
  origin_statuses :: "string set"
  previous_cycle :: int

definition verify_start :: verify_state where
  "verify_start = \<lparr>counts = (\<lambda>_. 0), bank_addresses = {}, vram_roles = {}, mem_initiators = {},
     origin_statuses = {}, previous_cycle = -1\<rparr>"

definition count_event :: "string \<Rightarrow> verify_state \<Rightarrow> verify_state" where
  "count_event event s = s\<lparr>counts := (counts s)(event := counts s event + 1)\<rparr>"

definition verify_row :: "verify_options \<Rightarrow> nat \<Rightarrow> int \<times> row \<Rightarrow> verify_state \<Rightarrow> verify_state res" where
  "verify_row opts schema numbered s =
     (let (line, row) = numbered; event = row ''event'' in
      rbind (reject (event \<notin> allowed opts) line ''event is not allowed'') (\<lambda>_.
      rbind (number (row ''cycle'') ''cycle'' line (2 ^ 64 - 1)) (\<lambda>cycle.
      rbind (reject (cycle < previous_cycle s) line ''cycle follows later cycle'') (\<lambda>_.
      let s = s\<lparr>previous_cycle := cycle\<rparr> in
      if event = ''cpu'' then rbind (verify_cpu opts row line) (\<lambda>_. Inr (count_event event s))
      else if event = ''bank'' then
        rbind (verify_bank schema row line) (\<lambda>address.
        Inr (count_event event (s\<lparr>bank_addresses := insert address (bank_addresses s)\<rparr>)))
      else if event = ''vram'' then
        rbind (verify_vram opts schema row line) (\<lambda>role.
        Inr (count_event event (s\<lparr>vram_roles := set_option role \<union> vram_roles s\<rparr>)))
      else if event = ''mem'' then
        rbind (verify_mem opts schema row line) (\<lambda>(initiator, origin_status).
        Inr (count_event event (s\<lparr>mem_initiators := insert initiator (mem_initiators s),
                                  origin_statuses := insert origin_status (origin_statuses s)\<rparr>)))
      else if event = ''bg_cell'' then rbind (verify_bg_cell schema row line) (\<lambda>_. Inr (count_event event s))
      else if event = ''sprite_row'' then
        rbind (verify_sprite_row schema row line) (\<lambda>_. Inr (count_event event s))
      else Inr (count_event event s)))))"

definition schema_of :: "string list \<Rightarrow> nat option" where
  "schema_of fieldnames =
     (if fieldnames = FIELDS_V1 then Some 1 else if fieldnames = FIELDS_V2 then Some 2
      else if fieldnames = FIELDS_V3 then Some 3 else if fieldnames = FIELDS_V4 then Some 4
      else if fieldnames = FIELDS_V5 then Some 5 else if fieldnames = FIELDS_V6 then Some 6 else None)"

definition schema_checks :: "verify_options \<Rightarrow> nat \<Rightarrow> unit res" where
  "schema_checks opts schema =
     (if schema = 1 \<and> (vram_role_filter opts \<noteq> None \<or> required_vram_roles opts \<noteq> {})
      then Inl (ValueError ''legacy v1 trace has no role field; VRAM role assertions require v2'')
      else if schema < 3 \<and> (mem_initiator_filter opts \<noteq> None \<or> mem_access_filter opts \<noteq> None \<or>
          mem_space_filter opts \<noteq> None \<or> mem_address_filter opts \<noteq> None \<or> mem_offset_filter opts \<noteq> None \<or>
          origin_status_filter opts \<noteq> None \<or> origin_pc_filter opts \<noteq> None \<or> ''mem'' \<in> required opts \<or>
          required_mem_initiators opts \<noteq> {} \<or> required_origin_statuses opts \<noteq> {})
      then Inl (ValueError ''legacy v1/v2 trace has no memory provenance fields; memory assertions require v3'')
      else if schema < 4 \<and> (require_fetch_values opts \<or> reject_fetch_collisions opts)
      then Inl (ValueError ''legacy v1/v2/v3 trace has no fetched display values; assertion requires v4'')
      else Inr ())"

definition coverage_checks :: "verify_options \<Rightarrow> verify_state \<Rightarrow> unit res" where
  "coverage_checks opts s =
     (if \<exists>event\<in>required opts. counts s event = 0 then Inl (ValueError ''missing required event type(s)'')
      else if required_bank_addresses opts - bank_addresses s \<noteq> {}
      then Inl (ValueError ''missing required bank address(es)'')
      else if required_vram_roles opts - vram_roles s \<noteq> {} then Inl (ValueError ''missing required VRAM role(s)'')
      else if required_mem_initiators opts - mem_initiators s \<noteq> {}
      then Inl (ValueError ''missing required memory initiator(s)'')
      else if required_origin_statuses opts - origin_statuses s \<noteq> {}
      then Inl (ValueError ''missing required origin status(es)'')
      else Inr ())"

text \<open>The rows of the file, numbered from line 2 as the code does.\<close>

definition numbered_rows :: "string list \<Rightarrow> string list list \<Rightarrow> (int \<times> row) list" where
  "numbered_rows fieldnames records =
     map (\<lambda>(i, values). (int i + 2, dict_row fieldnames values)) (enumerate 0 records)"

definition verify :: "verify_options \<Rightarrow> string list \<Rightarrow> string list list \<Rightarrow> verify_state res" where
  "verify opts fieldnames records =
     (case schema_of fieldnames of
        None \<Rightarrow> Inl (ValueError ''unexpected CSV header'')
      | Some schema \<Rightarrow>
          rbind (schema_checks opts schema) (\<lambda>_.
          rbind (fold_res (verify_row opts schema) (numbered_rows fieldnames records) verify_start) (\<lambda>s.
          rbind (coverage_checks opts s) (\<lambda>_. Inr s))))"

section \<open>What an accepted row says\<close>

lemma number_Inr [res_simps]:
  "number v f line m = Inr r \<longleftrightarrow> v \<noteq> [] \<and> py_int10 v = Some r \<and> 0 \<le> r \<and> r \<le> m"
  by (auto simp: number_def split: option.splits)

lemma empty_fields_Inr [res_simps]:
  "empty_fields row fs line = Inr u \<longleftrightarrow> (\<forall>f\<in>set fs. row f = [])"
  by (auto simp: empty_fields_def filter_empty_conv)

text \<open>The number a column holds, and that it does hold one.\<close>

definition field :: "row \<Rightarrow> string \<Rightarrow> int" where
  "field row f = the (py_int10 (row f))"

text \<open>
  The decode of a background map word and of a sprite descriptor: the columns of a row that
  restate what the hardware read, as functions of what it read.
\<close>

definition bg_decode :: "int \<Rightarrow> int \<Rightarrow> int \<Rightarrow> int \<Rightarrow> int \<Rightarrow> (string \<times> int) list" where
  "bg_decode map_address map_value bank bpp tile_row =
     [(''map_x'', drop_bit 1 map_address AND 31), (''map_y'', drop_bit 6 map_address AND 31),
      (''tile_index'', map_tile_index map_value bank),
      (''palette'', drop_bit 9 map_value AND 15), (''hflip'', drop_bit 14 map_value AND 1),
      (''vflip'', drop_bit 15 map_value AND 1), (''tile_row_bytes'', bpp),
      (''tile_row_address'', tile_row_location bpp (map_tile_index map_value bank) bpp tile_row)]"

definition sprite_decode :: "int \<Rightarrow> int \<Rightarrow> int \<Rightarrow> (string \<times> int) list" where
  "sprite_decode table_value line_y bpp =
     (let delta = (line_y - (drop_bit 16 table_value AND 0xFF)) AND 0xFF;
          tile_row = (if drop_bit 15 table_value AND 1 \<noteq> 0 then 7 - delta else delta)
      in [(''tile_index'', table_value AND 0x1FF), (''palette'', 8 OR (drop_bit 9 table_value AND 7)),
          (''hflip'', drop_bit 14 table_value AND 1), (''vflip'', drop_bit 15 table_value AND 1),
          (''tile_row'', tile_row), (''tile_row_bytes'', bpp),
          (''tile_row_address'', tile_row_location bpp (table_value AND 0x1FF) bpp tile_row)])"

definition row_shows :: "row \<Rightarrow> (string \<times> int) list \<Rightarrow> bool" where
  "row_shows row fs \<longleftrightarrow> list_all (\<lambda>(f, v). py_int10 (row f) = Some v) fs"

definition bg_cell_ok :: "row \<Rightarrow> bool" where
  "bg_cell_ok row \<longleftrightarrow> field row ''bpp'' \<in> {2, 4} \<and> field row ''map_address'' AND 1 = 0 \<and>
     0 \<le> field row ''tile_row'' \<and> field row ''tile_row'' \<le> 7 \<and>
     0 \<le> field row ''tile_index'' \<and> field row ''tile_index'' \<le> 1023 \<and>
     0 \<le> field row ''tile_row_value'' \<and> field row ''tile_row_value'' < push_bit (nat (8 * field row ''bpp'')) 1 \<and>
     row_shows row (bg_decode (field row ''map_address'') (field row ''map_value'')
       (field row ''tile_bank_enabled'') (field row ''bpp'') (field row ''tile_row''))"

definition sprite_row_ok :: "row \<Rightarrow> bool" where
  "sprite_row_ok row \<longleftrightarrow> field row ''bpp'' \<in> {2, 4} \<and> field row ''sprite_table_address'' AND 3 = 0 \<and>
     0 \<le> field row ''tile_row'' \<and> field row ''tile_row'' \<le> 7 \<and>
     0 \<le> field row ''tile_index'' \<and> field row ''tile_index'' \<le> 511 \<and>
     (field row ''sprite_line_y'' - (drop_bit 16 (field row ''sprite_table_value'') AND 0xFF)) AND 0xFF < 8 \<and>
     0 \<le> field row ''tile_row_value'' \<and> field row ''tile_row_value'' < push_bit (nat (8 * field row ''bpp'')) 1 \<and>
     row_shows row (sprite_decode (field row ''sprite_table_value'') (field row ''sprite_line_y'') (field row ''bpp''))"

lemmas peel = not_not not_less not_le field_def option.sel row_shows_def list.pred_inject prod.case prod.inject

lemma bpp_bytes: "bpp \<in> {2, 4 :: int} \<Longrightarrow> (if bpp = 2 then 2 else 4) = bpp"
  by auto

lemma bg_cell_accepted:
  assumes "verify_bg_cell schema row line = Inr u"
  shows "5 \<le> schema \<and> bg_cell_ok row"
  using assms unfolding verify_bg_cell_def
  apply (simp only: res_simps)
  apply (elim exE conjE)
  apply (simp only: peel bg_cell_ok_def bg_decode_def bpp_bytes)
  done

lemma sprite_row_accepted:
  assumes "verify_sprite_row schema row line = Inr u"
  shows "6 \<le> schema \<and> sprite_row_ok row"
  using assms unfolding verify_sprite_row_def
  apply (simp only: res_simps Let_def)
  apply (elim exE conjE)
  apply (simp only: peel sprite_row_ok_def sprite_decode_def bpp_bytes Let_def)
  done

text \<open>The tile data of both depths: 0x2000 to 0x5FFF for two planes, 0x4000 to 0xBFFF for four.\<close>

lemma tile_row_location_bounds:
  assumes "bpp \<in> {2, 4}" and "0 \<le> ti" and "ti \<le> 1023" and "0 \<le> tr" and "tr \<le> 7"
  shows "(if bpp = 2 then 0x2000 else 0x4000) \<le> tile_row_location bpp ti bpp tr \<and>
    tile_row_location bpp ti bpp tr + bpp \<le> (if bpp = 2 then 0x6000 else 0xC000)"
  using assms by (auto simp: tile_row_location_def)

lemma row_shows_field: "row_shows row fs \<Longrightarrow> (f, v) \<in> set fs \<Longrightarrow> field row f = v"
  by (auto simp: row_shows_def field_def list_all_iff)

section \<open>What an accepted trace says\<close>

definition row_checked :: "verify_options \<Rightarrow> nat \<Rightarrow> int \<times> row \<Rightarrow> bool" where
  "row_checked opts schema numbered \<longleftrightarrow>
     (let (line, row) = numbered; event = row ''event''
      in event \<in> allowed opts \<and>
         (event = ''bg_cell'' \<longrightarrow> bg_cell_ok row) \<and> (event = ''sprite_row'' \<longrightarrow> sprite_row_ok row))"

lemma verify_row_step:
  assumes "verify_row opts schema (line, row) s = Inr t"
  shows "row_checked opts schema (line, row)" and "previous_cycle s \<le> field row ''cycle''"
    and "previous_cycle t = field row ''cycle''"
    and "counts t = (counts s)(row ''event'' := counts s (row ''event'') + 1)"
  using assms bg_cell_accepted [of schema row line] sprite_row_accepted [of schema row line]
  by (auto simp: verify_row_def row_checked_def res_simps Let_def count_event_def field_def split: if_splits)

lemma verify_bank_address:
  "verify_bank schema row line = Inr a \<Longrightarrow> a \<in> BANK_ADDRESSES \<and> a = field row ''address''"
  unfolding verify_bank_def field_def by (auto simp only: res_simps option.sel)

lemma verify_vram_role:
  "verify_vram opts schema row line = Inr r \<Longrightarrow>
   set_option r \<subseteq> VRAM_ROLES \<and> r = (if 2 \<le> schema then Some (row ''role'') else None)"
  unfolding verify_vram_def by (auto simp: res_simps split: if_splits)

lemma verify_mem_origins:
  "verify_mem opts schema row line = Inr (i, st) \<Longrightarrow>
   i \<in> MEM_INITIATORS \<and> st \<in> ORIGIN_STATUSES \<and> i = row ''initiator'' \<and> st = row ''origin_status''"
  unfolding verify_mem_def by (simp only: res_simps Let_def) blast

text \<open>What a trace covers: the values of a column in the rows of one event.\<close>

definition seen_in :: "string \<Rightarrow> (row \<Rightarrow> 'a) \<Rightarrow> (int \<times> row) list \<Rightarrow> 'a set" where
  "seen_in event column rows = (\<lambda>(line, row). column row) ` set (filter (\<lambda>(line, row). row ''event'' = event) rows)"

lemma seen_in_simps [simp]:
  "seen_in event column [] = {}"
  "seen_in event column ((line, row) # rows) =
     (if row ''event'' = event then insert (column row) (seen_in event column rows) else seen_in event column rows)"
  by (auto simp: seen_in_def)

lemma verify_row_covers:
  assumes "verify_row opts schema (line, row) s = Inr t"
  shows "bank_addresses t = seen_in ''bank'' (\<lambda>row. field row ''address'') [(line, row)] \<union> bank_addresses s"
    and "vram_roles t = (if 2 \<le> schema then seen_in ''vram'' (\<lambda>row. row ''role'') [(line, row)] else {}) \<union> vram_roles s"
    and "mem_initiators t = seen_in ''mem'' (\<lambda>row. row ''initiator'') [(line, row)] \<union> mem_initiators s"
    and "origin_statuses t = seen_in ''mem'' (\<lambda>row. row ''origin_status'') [(line, row)] \<union> origin_statuses s"
  using assms verify_bank_address [of schema row line] verify_vram_role [of opts schema row line]
    verify_mem_origins [of opts schema row line]
  by (auto simp: verify_row_def res_simps Let_def count_event_def split: if_splits)

lemma seen_in_Cons: "seen_in event column (x # rows) = seen_in event column [x] \<union> seen_in event column rows"
  by (cases x) simp

lemma verify_rows_cover:
  "fold_res (verify_row opts schema) rows s = Inr s' \<Longrightarrow>
   bank_addresses s' = bank_addresses s \<union> seen_in ''bank'' (\<lambda>row. field row ''address'') rows \<and>
   vram_roles s' = vram_roles s \<union> (if 2 \<le> schema then seen_in ''vram'' (\<lambda>row. row ''role'') rows else {}) \<and>
   mem_initiators s' = mem_initiators s \<union> seen_in ''mem'' (\<lambda>row. row ''initiator'') rows \<and>
   origin_statuses s' = origin_statuses s \<union> seen_in ''mem'' (\<lambda>row. row ''origin_status'') rows"
proof (induction rows arbitrary: s)
  case Nil
  then show ?case by simp
next
  case (Cons x rows)
  obtain line row where x: "x = (line, row)" by (cases x)
  obtain t where t: "verify_row opts schema (line, row) s = Inr t" "fold_res (verify_row opts schema) rows t = Inr s'"
    using Cons.prems x by (auto simp: res_simps)
  note rest = Cons.IH [OF t(2), unfolded verify_row_covers [OF t(1)]]
  show ?case
    unfolding x seen_in_Cons [of _ _ "(line, row)" rows] using rest by (auto simp del: seen_in_simps)
qed

definition trace_wf :: "verify_state \<Rightarrow> bool" where
  "trace_wf s \<longleftrightarrow> bank_addresses s \<subseteq> BANK_ADDRESSES \<and> vram_roles s \<subseteq> VRAM_ROLES \<and>
     mem_initiators s \<subseteq> MEM_INITIATORS \<and> origin_statuses s \<subseteq> ORIGIN_STATUSES"

interpretation trace_rows: res_machine "verify_row opts schema" trace_wf for opts schema
proof
  fix s s' and numbered :: "int \<times> row"
  assume wf: "trace_wf s" and step: "verify_row opts schema numbered s = Inr s'"
  obtain line row where n: "numbered = (line, row)" by (cases numbered)
  show "trace_wf s'"
    using wf step verify_bank_address [of schema row line] verify_vram_role [of opts schema row line]
      verify_mem_origins [of opts schema row line] unfolding n
    by (auto simp: verify_row_def trace_wf_def res_simps Let_def count_event_def split: if_splits)
qed

lemma verify_rows_run:
  "fold_res (verify_row opts schema) rows s = Inr s' \<Longrightarrow>
   list_all (row_checked opts schema) rows \<and>
   sorted (previous_cycle s # map (\<lambda>(l, r). field r ''cycle'') rows) \<and>
   (\<forall>e. counts s' e = counts s e + length (filter (\<lambda>(l, r). r ''event'' = e) rows))"
proof (induction rows arbitrary: s)
  case Nil
  then show ?case by simp
next
  case (Cons x rows)
  obtain line row where x: "x = (line, row)" by (cases x)
  obtain t where t: "verify_row opts schema (line, row) s = Inr t" "fold_res (verify_row opts schema) rows t = Inr s'"
    using Cons.prems x by (auto simp: res_simps)
  note st = verify_row_step [OF t(1)]
  show ?case using Cons.IH [OF t(2)] st x by (auto simp: le_trans)
qed

lemma verify_Inr:
  assumes "verify opts fieldnames records = Inr s"
  obtains schema where "schema_of fieldnames = Some schema" and "schema_checks opts schema = Inr ()"
    and "fold_res (verify_row opts schema) (numbered_rows fieldnames records) verify_start = Inr s"
    and "coverage_checks opts s = Inr ()"
  using assms by (auto simp: verify_def res_simps split: option.splits)

text \<open>Blank columns read as empty, so a row of the old schema is a row of the new one.\<close>

lemma map_of_zip_padded:
  assumes "length fs = length vs"
  shows "(case map_of (zip (fs @ gs) (vs @ replicate (length gs) [])) f of Some v \<Rightarrow> v | None \<Rightarrow> []) =
    (case map_of (zip fs vs) f of Some v \<Rightarrow> v | None \<Rightarrow> [])"
proof -
  have "(case map_of (zip gs (replicate (length gs) [])) f of None \<Rightarrow> [] | Some v \<Rightarrow> v) = []"
    by (induction gs) auto
  moreover have "map_of (zip (fs @ gs) (vs @ replicate (length gs) [])) f =
      (case map_of (zip fs vs) f of None \<Rightarrow> map_of (zip gs (replicate (length gs) [])) f | Some v \<Rightarrow> Some v)"
    unfolding zip_append [OF assms] map_of_append map_add_def ..
  ultimately show ?thesis
    by (cases "map_of (zip fs vs) f") auto
qed

lemma verify_row_v6:
  assumes "verify_row opts 5 numbered s = Inr t"
  shows "verify_row opts 6 numbered s = Inr t"
proof -
  have "verify_sprite_row 5 row line = Inr () \<Longrightarrow> False" for row line
    unfolding verify_sprite_row_def by (simp only: res_simps) simp
  moreover have "verify_bank 5 row line = verify_bank 6 row line" for row line
    by (simp add: verify_bank_def)
  moreover have "verify_vram opts 5 row line = verify_vram opts 6 row line" for row line
    by (simp add: verify_vram_def)
  moreover have "verify_mem opts 5 row line = verify_mem opts 6 row line" for row line
    by (simp add: verify_mem_def)
  moreover have "verify_bg_cell 5 row line = verify_bg_cell 6 row line" for row line
    by (simp add: verify_bg_cell_def)
  ultimately show ?thesis
    using assms unfolding verify_row_def Let_def by (auto simp: res_simps split: if_splits prod.splits)
qed

lemma verify_rows_v6:
  "fold_res (verify_row opts 5) rows s = Inr t \<Longrightarrow> fold_res (verify_row opts 6) rows s = Inr t"
  by (induction rows arbitrary: s) (auto simp: res_simps dest: verify_row_v6)

section \<open>Properties of the trace validator\<close>

text \<open>
  C12: An accepted trace is ordered, allowed and covered. The cycles never decrease, every row has
  an allowed event, each event's count is the number of its rows and every required event occurs. What
  the trace is reported to cover is what its rows hold: the bank ports of the bank rows, the roles of
  the display rows (none in a version 1 trace, which has no roles), the initiators and origins of the
  memory rows. Each of these sets contains all that was required and nothing outside the documented
  vocabulary.
\<close>

theorem accepted_trace:
  assumes "verify opts fieldnames records = Inr s"
  shows "sorted (map (\<lambda>(line, row). field row ''cycle'') (numbered_rows fieldnames records)) \<and>
    (\<forall>e. counts s e = length (filter (\<lambda>(line, row). row ''event'' = e) (numbered_rows fieldnames records))) \<and>
    list_all (\<lambda>(line, row). row ''event'' \<in> allowed opts) (numbered_rows fieldnames records) \<and>
    (\<forall>e\<in>required opts. counts s e \<noteq> 0) \<and>
    required_bank_addresses opts \<subseteq> bank_addresses s \<and> bank_addresses s \<subseteq> BANK_ADDRESSES \<and>
    required_vram_roles opts \<subseteq> vram_roles s \<and> vram_roles s \<subseteq> VRAM_ROLES \<and>
    required_mem_initiators opts \<subseteq> mem_initiators s \<and> mem_initiators s \<subseteq> MEM_INITIATORS \<and>
    required_origin_statuses opts \<subseteq> origin_statuses s \<and> origin_statuses s \<subseteq> ORIGIN_STATUSES \<and>
    bank_addresses s = seen_in ''bank'' (\<lambda>row. field row ''address'') (numbered_rows fieldnames records) \<and>
    vram_roles s = (if fieldnames = FIELDS_V1 then {}
      else seen_in ''vram'' (\<lambda>row. row ''role'') (numbered_rows fieldnames records)) \<and>
    mem_initiators s = seen_in ''mem'' (\<lambda>row. row ''initiator'') (numbered_rows fieldnames records) \<and>
    origin_statuses s = seen_in ''mem'' (\<lambda>row. row ''origin_status'') (numbered_rows fieldnames records)"
proof -
  from assms obtain schema where run:
      "fold_res (verify_row opts schema) (numbered_rows fieldnames records) verify_start = Inr s"
      and cov: "coverage_checks opts s = Inr ()" and schema: "schema_of fieldnames = Some schema" by (rule verify_Inr)
  have v1: "(2 \<le> schema) = (fieldnames \<noteq> FIELDS_V1)"
    using schema by (auto simp: schema_of_def split: if_splits)
  have covers: "bank_addresses s = seen_in ''bank'' (\<lambda>row. field row ''address'') (numbered_rows fieldnames records)"
    "vram_roles s = (if fieldnames = FIELDS_V1 then {} else seen_in ''vram'' (\<lambda>row. row ''role'') (numbered_rows fieldnames records))"
    "mem_initiators s = seen_in ''mem'' (\<lambda>row. row ''initiator'') (numbered_rows fieldnames records)"
    "origin_statuses s = seen_in ''mem'' (\<lambda>row. row ''origin_status'') (numbered_rows fieldnames records)"
    using verify_rows_cover [OF run] by (simp_all add: verify_start_def v1)
  have "trace_wf verify_start" by (simp add: trace_wf_def verify_start_def)
  then have wf: "trace_wf s" using run by (rule trace_rows.run_inv)
  have "list_all (\<lambda>(line, row). row ''event'' \<in> allowed opts) (numbered_rows fieldnames records)"
    using verify_rows_run [OF run] by (auto simp: row_checked_def Let_def list_all_iff)
  moreover have "sorted (map (\<lambda>(line, row). field row ''cycle'') (numbered_rows fieldnames records))"
    "counts s e = length (filter (\<lambda>(line, row). row ''event'' = e) (numbered_rows fieldnames records))" for e
    using verify_rows_run [OF run] by (simp_all add: verify_start_def)
  moreover have "\<forall>e\<in>required opts. counts s e \<noteq> 0" "required_bank_addresses opts \<subseteq> bank_addresses s"
    "required_vram_roles opts \<subseteq> vram_roles s" "required_mem_initiators opts \<subseteq> mem_initiators s"
    "required_origin_statuses opts \<subseteq> origin_statuses s"
    using cov by (auto simp: coverage_checks_def split: if_splits)
  moreover note wf [unfolded trace_wf_def]
  ultimately show ?thesis using covers by blast
qed

text \<open>
  The redundant columns of an accepted background row are the hardware's decode. Map
  coordinates, tile index, palette, flips, row width and row address are the functions of map
  address, map word, bank flag, depth and row that the hardware computes, and the row lies inside
  the tile data of its depth.
\<close>

theorem background_row_decoded:
  assumes "verify opts fieldnames records = Inr s"
    and "(line, row) \<in> set (numbered_rows fieldnames records)" and "row ''event'' = ''bg_cell''"
  shows "row_shows row (bg_decode (field row ''map_address'') (field row ''map_value'')
      (field row ''tile_bank_enabled'') (field row ''bpp'') (field row ''tile_row'')) \<and>
    field row ''bpp'' \<in> {2, 4} \<and>
    (if field row ''bpp'' = 2 then 0x2000 else 0x4000) \<le> field row ''tile_row_address'' \<and>
    field row ''tile_row_address'' + field row ''tile_row_bytes'' \<le> (if field row ''bpp'' = 2 then 0x6000 else 0xC000)"
proof -
  from assms(1) obtain schema where run:
      "fold_res (verify_row opts schema) (numbered_rows fieldnames records) verify_start = Inr s" by (rule verify_Inr)
  have ok: "bg_cell_ok row"
    using verify_rows_run [OF run] assms(2,3) by (auto simp: list_all_iff row_checked_def Let_def)
  note shown = ok [unfolded bg_cell_ok_def] 
  note f = row_shows_field [OF shown [THEN conjunct2, THEN conjunct2, THEN conjunct2, THEN conjunct2,
      THEN conjunct2, THEN conjunct2, THEN conjunct2, THEN conjunct2]]
  have "field row ''tile_row_address'' = tile_row_location (field row ''bpp'') (field row ''tile_index'')
      (field row ''bpp'') (field row ''tile_row'')" "field row ''tile_row_bytes'' = field row ''bpp''"
    using f [of "''tile_index''"] f [of "''tile_row_address''"] f [of "''tile_row_bytes''"]
    by (auto simp: bg_decode_def)
  then show ?thesis
    using shown tile_row_location_bounds [of "field row ''bpp''" "field row ''tile_index''" "field row ''tile_row''"]
    by simp
qed

text \<open>
  The redundant columns of an accepted sprite row are the decode of the descriptor. Tile,
  palette, flips and the row of the tile are functions of the descriptor word, the line and the
  depth; the sprite covers the line, and the row lies inside the tile data of its depth.
\<close>

theorem sprite_row_decoded:
  assumes "verify opts fieldnames records = Inr s"
    and "(line, row) \<in> set (numbered_rows fieldnames records)" and "row ''event'' = ''sprite_row''"
  shows "row_shows row (sprite_decode (field row ''sprite_table_value'') (field row ''sprite_line_y'') (field row ''bpp'')) \<and>
    (field row ''sprite_line_y'' - (drop_bit 16 (field row ''sprite_table_value'') AND 0xFF)) AND 0xFF < 8 \<and>
    0 \<le> field row ''tile_row'' \<and> field row ''tile_row'' \<le> 7 \<and>
    field row ''tile_row_address'' + field row ''tile_row_bytes'' \<le> (if field row ''bpp'' = 2 then 0x4000 else 0x8000)"
proof -
  from assms(1) obtain schema where run:
      "fold_res (verify_row opts schema) (numbered_rows fieldnames records) verify_start = Inr s" by (rule verify_Inr)
  have "sprite_row_ok row"
    using verify_rows_run [OF run] assms(2,3) by (auto simp: list_all_iff row_checked_def Let_def)
  note ok = this [unfolded sprite_row_ok_def]
  then have shown: "row_shows row (sprite_decode (field row ''sprite_table_value'') (field row ''sprite_line_y'') (field row ''bpp''))"
    by blast
  note f = row_shows_field [OF shown]
  have "field row ''tile_row_address'' = tile_row_location (field row ''bpp'') (field row ''tile_index'')
      (field row ''bpp'') (field row ''tile_row'')" "field row ''tile_row_bytes'' = field row ''bpp''"
    using f [of "''tile_index''"] f [of "''tile_row''"] f [of "''tile_row_address''"] f [of "''tile_row_bytes''"]
    by (auto simp: sprite_decode_def Let_def)
  then show ?thesis
    using ok by (auto simp: tile_row_location_def)
qed

text \<open>
  The newest schema extends the previous one. A trace accepted with the version 5 header is
  accepted with the version 6 header when the seven sprite columns are added blank, with the same
  counts and coverage.
\<close>

theorem version_six_extends_five:
  assumes "verify opts FIELDS_V5 records = Inr s" and "list_all (\<lambda>r. length r = length FIELDS_V5) records"
  shows "verify opts FIELDS_V6 (map (\<lambda>r. r @ replicate 7 []) records) = Inr s"
proof -
  have len: "length SPRITE_FIELDS = 7" by (simp add: SPRITE_FIELDS_def)
  have ne: "FIELDS_V6 \<noteq> FIELDS_V5" "FIELDS_V5 \<noteq> FIELDS_V1" "FIELDS_V5 \<noteq> FIELDS_V2" "FIELDS_V5 \<noteq> FIELDS_V3"
      "FIELDS_V5 \<noteq> FIELDS_V4" "FIELDS_V6 \<noteq> FIELDS_V1" "FIELDS_V6 \<noteq> FIELDS_V2" "FIELDS_V6 \<noteq> FIELDS_V3" "FIELDS_V6 \<noteq> FIELDS_V4"
    by (simp_all add: FIELDS_V1_def FIELDS_V2_def FIELDS_V3_def FIELDS_V4_def FIELDS_V5_def FIELDS_V6_def
        MEM_FIELDS_def FETCH_FIELDS_def BG_FIELDS_def SPRITE_FIELDS_def)
  have five: "schema_of FIELDS_V5 = Some 5" and six: "schema_of FIELDS_V6 = Some 6"
    using ne by (simp_all add: schema_of_def)
  have rows: "numbered_rows FIELDS_V6 (map (\<lambda>r. r @ replicate 7 []) records) = numbered_rows FIELDS_V5 records"
  proof -
    have "dict_row FIELDS_V6 (r @ replicate 7 []) = dict_row FIELDS_V5 r" if "r \<in> set records" for r
      using map_of_zip_padded [of FIELDS_V5 r SPRITE_FIELDS] that assms(2)
      by (intro ext) (simp add: dict_row_def FIELDS_V6_def len list_all_iff)
    then show ?thesis
      unfolding numbered_rows_def by (auto simp: enumerate_eq_zip zip_map2 dest: set_zip_rightD)
  qed
  from assms(1) show ?thesis
    using verify_rows_v6 unfolding verify_def five six rows
    by (auto simp: res_simps schema_checks_def)
qed

section \<open>Two accepted traces\<close>

text \<open>One background row and one sprite row that the validator accepts, on which the properties apply.\<close>

definition lax_options :: verify_options where
  "lax_options = \<lparr>allowed = EVENTS, required = {}, pc_filter = None, required_bank_addresses = {},
     vram_address_filter = None, vram_role_filter = None, required_vram_roles = {},
     mem_initiator_filter = None, mem_access_filter = None, mem_space_filter = None,
     mem_address_filter = None, mem_offset_filter = None, origin_status_filter = None,
     origin_pc_filter = None, require_fetch_values = False, reject_fetch_collisions = False,
     required_mem_initiators = {}, required_origin_statuses = {}\<rparr>"

definition bg_example :: "string list" where
  "bg_example = [''12'', ''bg_cell''] @ replicate 16 [] @
     [''1'', ''4226'', ''517'', ''1'', ''2'', ''0'', ''5'', ''1'', ''0'', ''0'', ''2'', ''0'', ''3'', ''8278'', ''2'', ''1'', ''0'', ''0'']"

definition sprite_example :: "string list" where
  "sprite_example = [''15'', ''sprite_row''] @ replicate 22 [] @
     [''5'', ''8'', ''0'', ''0'', ''2'', ''0'', ''2'', ''8276'', ''2'', ''1'', [], ''0'',
      ''512'', ''1310725'', ''0'', ''22'', ''0'', ''1'', ''1'']"

lemmas columns = FIELDS_V1_def FIELDS_V2_def FIELDS_V3_def FIELDS_V4_def FIELDS_V5_def FIELDS_V6_def
   MEM_FIELDS_def FETCH_FIELDS_def BG_FIELDS_def SPRITE_FIELDS_def
lemma schema_examples: "schema_of FIELDS_V5 = Some 5" "schema_of FIELDS_V6 = Some 6" by (simp_all add: schema_of_def columns)
definition bg_row :: row where "bg_row = dict_row FIELDS_V5 bg_example"

definition sprite_row :: row where "sprite_row = dict_row FIELDS_V6 sprite_example"

lemma bg_row_values:
  "bg_row ''cycle'' = ''12''"
  "bg_row ''event'' = ''bg_cell''"
  "bg_row ''physical_pc'' = []"
  "bg_row ''cs'' = []"
  "bg_row ''ip'' = []"
  "bg_row ''address'' = []"
  "bg_row ''value'' = []"
  "bg_row ''role'' = []"
  "bg_row ''initiator'' = []"
  "bg_row ''access'' = []"
  "bg_row ''byte_enable'' = []"
  "bg_row ''space'' = []"
  "bg_row ''mapped_offset'' = []"
  "bg_row ''instruction_id'' = []"
  "bg_row ''origin_pc'' = []"
  "bg_row ''origin_status'' = []"
  "bg_row ''fetch_value'' = []"
  "bg_row ''fetch_collision'' = []"
  "bg_row ''bg_layer'' = ''1''"
  "bg_row ''map_address'' = ''4226''"
  "bg_row ''map_value'' = ''517''"
  "bg_row ''map_x'' = ''1''"
  "bg_row ''map_y'' = ''2''"
  "bg_row ''tile_bank_enabled'' = ''0''"
  "bg_row ''tile_index'' = ''5''"
  "bg_row ''palette'' = ''1''"
  "bg_row ''hflip'' = ''0''"
  "bg_row ''vflip'' = ''0''"
  "bg_row ''bpp'' = ''2''"
  "bg_row ''packed'' = ''0''"
  "bg_row ''tile_row'' = ''3''"
  "bg_row ''tile_row_address'' = ''8278''"
  "bg_row ''tile_row_bytes'' = ''2''"
  "bg_row ''tile_row_value'' = ''1''"
  "bg_row ''map_collision'' = ''0''"
  "bg_row ''tile_row_collision'' = ''0''"
  "bg_row ''sprite_table_address'' = []"
  "bg_row ''sprite_table_value'' = []"
  "bg_row ''sprite_table_collision'' = []"
  "bg_row ''sprite_line_y'' = []"
  "bg_row ''sprite_line_slot'' = []"
  "bg_row ''sprite_table_generation'' = []"
  "bg_row ''sprite_line_epoch'' = []"
  by code_simp+

lemma sprite_row_values:
  "sprite_row ''cycle'' = ''15''"
  "sprite_row ''event'' = ''sprite_row''"
  "sprite_row ''physical_pc'' = []"
  "sprite_row ''cs'' = []"
  "sprite_row ''ip'' = []"
  "sprite_row ''address'' = []"
  "sprite_row ''value'' = []"
  "sprite_row ''role'' = []"
  "sprite_row ''initiator'' = []"
  "sprite_row ''access'' = []"
  "sprite_row ''byte_enable'' = []"
  "sprite_row ''space'' = []"
  "sprite_row ''mapped_offset'' = []"
  "sprite_row ''instruction_id'' = []"
  "sprite_row ''origin_pc'' = []"
  "sprite_row ''origin_status'' = []"
  "sprite_row ''fetch_value'' = []"
  "sprite_row ''fetch_collision'' = []"
  "sprite_row ''bg_layer'' = []"
  "sprite_row ''map_address'' = []"
  "sprite_row ''map_value'' = []"
  "sprite_row ''map_x'' = []"
  "sprite_row ''map_y'' = []"
  "sprite_row ''tile_bank_enabled'' = []"
  "sprite_row ''tile_index'' = ''5''"
  "sprite_row ''palette'' = ''8''"
  "sprite_row ''hflip'' = ''0''"
  "sprite_row ''vflip'' = ''0''"
  "sprite_row ''bpp'' = ''2''"
  "sprite_row ''packed'' = ''0''"
  "sprite_row ''tile_row'' = ''2''"
  "sprite_row ''tile_row_address'' = ''8276''"
  "sprite_row ''tile_row_bytes'' = ''2''"
  "sprite_row ''tile_row_value'' = ''1''"
  "sprite_row ''map_collision'' = []"
  "sprite_row ''tile_row_collision'' = ''0''"
  "sprite_row ''sprite_table_address'' = ''512''"
  "sprite_row ''sprite_table_value'' = ''1310725''"
  "sprite_row ''sprite_table_collision'' = ''0''"
  "sprite_row ''sprite_line_y'' = ''22''"
  "sprite_row ''sprite_line_slot'' = ''0''"
  "sprite_row ''sprite_table_generation'' = ''1''"
  "sprite_row ''sprite_line_epoch'' = ''1''"
  by code_simp+

lemma int_texts:
  "py_int10 ''0'' = Some 0"
  "py_int10 ''1'' = Some 1"
  "py_int10 ''2'' = Some 2"
  "py_int10 ''3'' = Some 3"
  "py_int10 ''5'' = Some 5"
  "py_int10 ''8'' = Some 8"
  "py_int10 ''12'' = Some 12"
  "py_int10 ''15'' = Some 15"
  "py_int10 ''22'' = Some 22"
  "py_int10 ''512'' = Some 512"
  "py_int10 ''517'' = Some 517"
  "py_int10 ''4226'' = Some 4226"
  "py_int10 ''8276'' = Some 8276"
  "py_int10 ''8278'' = Some 8278"
  "py_int10 ''1310725'' = Some 1310725"
  by (simp_all add: py_int10_def strip_def is_space_def char_code_def digit_val_def)

lemma bg_valid: "verify_bg_cell 5 bg_row 2 = Inr ()"
  by (simp add: verify_bg_cell_def number_def bg_row_values int_texts reject_def empty_fields_def columns
    map_tile_index_def tile_row_location_def)

lemma sprite_valid: "verify_sprite_row 6 sprite_row 2 = Inr ()"
  by (simp add: verify_sprite_row_def number_def sprite_row_values int_texts reject_def empty_fields_def columns
    map_tile_index_def tile_row_location_def Let_def)

lemma bg_accepted: "\<exists>s. verify lax_options FIELDS_V5 [bg_example] = Inr s"
  by (simp add: verify_def schema_examples schema_checks_def numbered_rows_def flip: bg_row_def)
   (simp add: verify_row_def lax_options_def EVENTS_def bg_row_values number_def int_texts verify_start_def
     bg_valid Let_def reject_def coverage_checks_def)

lemma sprite_accepted: "\<exists>s. verify lax_options FIELDS_V6 [sprite_example] = Inr s"
  by (simp add: verify_def schema_examples schema_checks_def numbered_rows_def flip: sprite_row_def)
   (simp add: verify_row_def lax_options_def EVENTS_def sprite_row_values number_def int_texts verify_start_def
     sprite_valid Let_def reject_def coverage_checks_def)

theorem accepted_trace_witness:
  "\<exists>s. verify lax_options FIELDS_V5 [bg_example] = Inr s \<and> counts s ''bg_cell'' = 1 \<and> bank_addresses s = {}"
proof -
  obtain s where s: "verify lax_options FIELDS_V5 [bg_example] = Inr s" using bg_accepted by blast
  have "numbered_rows FIELDS_V5 [bg_example] = [(2, bg_row)]" by (simp add: numbered_rows_def bg_row_def)
  then show ?thesis using s accepted_trace [OF s] by (auto simp: bg_row_values)
qed

theorem background_row_decoded_witness:
  "row_shows bg_row (bg_decode 4226 517 0 2 3) \<and> field bg_row ''tile_row_address'' + 2 \<le> 0x6000"
proof -
  obtain s where s: "verify lax_options FIELDS_V5 [bg_example] = Inr s" using bg_accepted by blast
  have "(2, bg_row) \<in> set (numbered_rows FIELDS_V5 [bg_example])" by (simp add: numbered_rows_def bg_row_def)
  then show ?thesis
    using background_row_decoded [OF s, of 2 bg_row] by (simp add: bg_row_values field_def int_texts)
qed

theorem sprite_row_decoded_witness:
  "row_shows sprite_row (sprite_decode 1310725 22 2) \<and> field sprite_row ''tile_row'' = 2"
proof -
  obtain s where s: "verify lax_options FIELDS_V6 [sprite_example] = Inr s" using sprite_accepted by blast
  have "(2, sprite_row) \<in> set (numbered_rows FIELDS_V6 [sprite_example])"
    by (simp add: numbered_rows_def sprite_row_def)
  then show ?thesis
    using sprite_row_decoded [OF s, of 2 sprite_row] by (simp add: sprite_row_values field_def int_texts)
qed

theorem version_six_extends_five_witness:
  "\<exists>s. verify lax_options FIELDS_V6 [bg_example @ replicate 7 []] = Inr s"
proof -
  obtain s where s: "verify lax_options FIELDS_V5 [bg_example] = Inr s" using bg_accepted by blast
  have "length bg_example = length FIELDS_V5" by (simp add: bg_example_def columns)
  then show ?thesis using version_six_extends_five [OF s] by simp
qed

end
