(* ===== verification/Frame_Manifest.thy ===== *)
theory Frame_Manifest
  imports Checksums Trace_Rows
begin

text \<open>
  Manifest helpers (\<^verbatim>\<open>sim/verilator/frame_manifest.py\<close>): the strict validation of a version 2
  manifest and of every raw frame file it binds.

  A manifest is the value \<open>json.loads\<close> returns. The file system is a parameter: it gives for a
  path, as its components, what \<open>lstat\<close> and \<open>stat\<close> report and the bytes of the file, or nothing
  when the call fails.
\<close>

section \<open>JSON values and files\<close>

datatype json =
    JNull
  | JBool bool
  | JInt int
  | JFloat rat
  | JStr string
  | JList "json list"
  | JObj "(string \<times> json) list"

type_synonym json_object = "(string \<times> json) list"

definition jget :: "json_object \<Rightarrow> string \<Rightarrow> json" where
  "jget obj key = (case map_of obj key of None \<Rightarrow> JNull | Some v \<Rightarrow> v)"

definition jkeys :: "json_object \<Rightarrow> string set" where
  "jkeys obj = set (map fst obj)"

record file_stat =
  is_link :: bool
  is_regular :: bool
  file_id :: "nat \<times> nat"
  file_bytes :: "byte list"

type_synonym file_system = "string list \<Rightarrow> file_stat option"

text \<open>\<open>pathlib\<close>: the components of a POSIX path, its last one, and whether it is absolute.\<close>

definition path_parts :: "string \<Rightarrow> string list" where
  "path_parts s = filter (\<lambda>p. p \<noteq> [] \<and> p \<noteq> ''.'') (split_on CHR ''/'' s)"

definition path_name :: "string list \<Rightarrow> string" where
  "path_name parts = (if parts = [] then [] else last parts)"

definition is_absolute :: "string \<Rightarrow> bool" where
  "is_absolute s \<longleftrightarrow> (case s of [] \<Rightarrow> False | c # _ \<Rightarrow> c = CHR ''/'')"

section \<open>The manifest\<close>

definition SCHEMA_V1 :: string where "SCHEMA_V1 = ''swan-song-trace-manifest-v1''"
definition SCHEMA_V2 :: string where "SCHEMA_V2 = ''swan-song-trace-manifest-v2''"
definition FRAME_WIDTH :: int where "FRAME_WIDTH = 224"
definition FRAME_HEIGHT :: int where "FRAME_HEIGHT = 144"
definition FRAME_SIZE_BYTES :: int where "FRAME_SIZE_BYTES = FRAME_WIDTH * FRAME_HEIGHT * 3"

definition FRAME_FIELDS :: "string set" where
  "FRAME_FIELDS = {''index'', ''completion_cycle'', ''file'', ''size_bytes'', ''fnv1a64''}"

definition BASE_FIELDS :: "string set" where
  "BASE_FIELDS = {''schema'', ''trace_schema'', ''trace_file'', ''trace_size_bytes'', ''trace_fnv1a64'',
     ''capture_start'', ''capture_completed'', ''capture_cycles'', ''completed_frames'', ''rom_size'',
     ''rom_fnv1a64'', ''open_ipl_size'', ''open_ipl_fnv1a64'', ''iram_initial_state'',
     ''savestate_inputs_asserted'', ''events'', ''memory_filters_active'', ''display_filters_active'',
     ''complete_memory_history'', ''complete_display_history'', ''complete_bg_cell_history''}"

record frame_binding =
  fb_index :: int
  fb_completion_cycle :: int
  fb_file :: "string list"
  fb_size_bytes :: int
  fb_fnv1a64 :: string

definition exact_int :: "json \<Rightarrow> string \<Rightarrow> int \<Rightarrow> int res" where
  "exact_int v name minimum =
     (case v of
        JInt i \<Rightarrow> if i < minimum then Inl (ValueError (name @ '' is below its minimum'')) else Inr i
      | _ \<Rightarrow> Inl (ValueError (name @ '' must be an integer'')))"

definition invalid :: "bool \<Rightarrow> string \<Rightarrow> unit res" where
  "invalid bad message = (if bad then Inl (ValueError message) else Inr ())"

lemma invalid_Inr [res_simps]: "invalid bad message = Inr u \<longleftrightarrow> \<not> bad"
  by (simp add: invalid_def)

lemma exact_int_Inr [res_simps]: "exact_int v name m = Inr i \<longleftrightarrow> v = JInt i \<and> m \<le> i"
  by (auto simp: exact_int_def split: json.splits)

text \<open>The loop over the frames: position, previous cycle, paths and files seen, bindings so far.\<close>

record frame_loop =
  fl_position :: nat
  fl_previous :: int
  fl_files :: "string set"
  fl_ids :: "(nat \<times> nat) set"
  fl_result :: "frame_binding list"

definition hex_digest :: "string \<Rightarrow> bool" where
  "hex_digest d \<longleftrightarrow> length d = 16 \<and> list_all (\<lambda>c. c \<in> set ''0123456789abcdef'') d"

definition frame_digest :: "json \<Rightarrow> string res" where
  "frame_digest v =
     (case v of
        JStr d \<Rightarrow> if hex_digest d then Inr d else Inl (ValueError ''fnv1a64 must be 16 lowercase hex digits'')
      | _ \<Rightarrow> Inl (ValueError ''fnv1a64 must be 16 lowercase hex digits''))"

lemma frame_digest_Inr [res_simps]: "frame_digest v = Inr d \<longleftrightarrow> v = JStr d \<and> hex_digest d"
  by (auto simp: frame_digest_def split: json.splits)

definition check_artifact :: "file_system \<Rightarrow> string list \<Rightarrow> (nat \<times> nat) set \<Rightarrow> file_stat res" where
  "check_artifact fs artifact seen =
     (case fs artifact of
        None \<Rightarrow> Inl (ValueError ''cannot stat frame file'')
      | Some st \<Rightarrow>
          if is_link st \<or> \<not> is_regular st then Inl (ValueError ''frame file must be a regular non-symlink file'')
          else if file_id st \<in> seen then Inl (ValueError ''trace and frame artifacts must be distinct files'')
          else Inr st)"

definition file_text :: "json \<Rightarrow> string res" where
  "file_text v = (case v of JStr f \<Rightarrow> if f = [] then Inl (ValueError ''file must be a nonempty string'') else Inr f
     | _ \<Rightarrow> Inl (ValueError ''file must be a nonempty string''))"

definition check_frame :: "file_system \<Rightarrow> string list \<Rightarrow> int \<Rightarrow> json \<Rightarrow> frame_loop \<Rightarrow> frame_loop res" where
  "check_frame fs parent capture_cycles item s =
     (case item of
        JObj obj \<Rightarrow>
          rbind (invalid (jkeys obj \<noteq> FRAME_FIELDS) ''field set mismatch'') (\<lambda>_.
          rbind (exact_int (jget obj ''index'') ''index'' 0) (\<lambda>index.
          rbind (invalid (index \<noteq> int (fl_position s)) ''index is not contiguous'') (\<lambda>_.
          rbind (exact_int (jget obj ''completion_cycle'') ''completion_cycle'' 0) (\<lambda>completion_cycle.
          rbind (invalid (completion_cycle \<le> fl_previous s)
                   ''frame completion cycles are not strictly increasing'') (\<lambda>_.
          rbind (invalid (completion_cycle \<ge> capture_cycles) ''completion_cycle is outside capture'') (\<lambda>_.
          rbind (file_text (jget obj ''file'')) (\<lambda>file_value.
          rbind (invalid (is_absolute file_value) ''file must be relative to the manifest'') (\<lambda>_.
          rbind (invalid (path_name (path_parts file_value) \<noteq> ''frame-'' @ py_str index @ ''.rgb'')
                   ''file does not match its frame index'') (\<lambda>_.
          rbind (invalid (file_value \<in> fl_files s) ''frame artifact paths are not unique'') (\<lambda>_.
          let artifact = parent @ path_parts file_value in
          rbind (check_artifact fs artifact (fl_ids s)) (\<lambda>st.
          rbind (exact_int (jget obj ''size_bytes'') ''size_bytes'' 1) (\<lambda>size_bytes.
          rbind (invalid (size_bytes \<noteq> FRAME_SIZE_BYTES) ''size_bytes is not raw RGB888 frame size'') (\<lambda>_.
          rbind (invalid (int (length (file_bytes st)) \<noteq> size_bytes) ''size_bytes mismatch'') (\<lambda>_.
          rbind (frame_digest (jget obj ''fnv1a64'')) (\<lambda>digest.
          rbind (invalid (fnv1a64 (file_bytes st) \<noteq> digest) ''fnv1a64 mismatch'') (\<lambda>_.
          Inr \<lparr>fl_position = fl_position s + 1, fl_previous = completion_cycle,
               fl_files = insert file_value (fl_files s), fl_ids = insert (file_id st) (fl_ids s),
               fl_result = fl_result s @
                 [\<lparr>fb_index = index, fb_completion_cycle = completion_cycle, fb_file = artifact,
                   fb_size_bytes = size_bytes, fb_fnv1a64 = digest\<rparr>]\<rparr>))))))))))))))))
      | _ \<Rightarrow> Inl (ValueError ''field set mismatch''))"

definition check_manifest :: "json_object \<Rightarrow> (int \<times> json list) res" where
  "check_manifest manifest =
     rbind (invalid (jget manifest ''schema'' \<noteq> JStr SCHEMA_V2)
              ''trace manifest does not use frame-binding schema v2'') (\<lambda>_.
     rbind (exact_int (jget manifest ''trace_schema'') ''trace_schema'' 5) (\<lambda>trace_schema.
     rbind (invalid (trace_schema \<notin> {5, 6}) ''trace_schema must be 5 or 6 for manifest v2'') (\<lambda>_.
     rbind (invalid (jkeys manifest \<noteq> BASE_FIELDS \<union> {''frames''} \<union>
                (if ''input_script'' \<in> jkeys manifest then {''input_script''} else {}) \<union>
                (if trace_schema = 6 then {''complete_sprite_row_history''} else {}))
              ''trace manifest v2 field set mismatch'') (\<lambda>_.
     rbind (case jget manifest ''events'' of JObj ev \<Rightarrow> Inr ev
            | _ \<Rightarrow> Inl (ValueError ''trace manifest v2 event field set mismatch'')) (\<lambda>events.
     rbind (invalid (jkeys events \<noteq> {''cpu'', ''bank'', ''vram'', ''mem'', ''bg_cell''} \<union>
                (if trace_schema = 6 then {''sprite_row''} else {}))
              ''trace manifest v2 event field set mismatch'') (\<lambda>_.
     rbind (invalid (\<not> list_all (\<lambda>(k, v). \<exists>b\<in>{True, False}. v = JBool b) events)
              ''trace manifest v2 event values must be booleans'') (\<lambda>_.
     rbind (invalid (trace_schema = 6 \<and> jget events ''sprite_row'' \<noteq> JBool True)
              ''trace schema v6 must include sprite_row'') (\<lambda>_.
     rbind (exact_int (jget manifest ''capture_cycles'') ''capture_cycles'' 1) (\<lambda>capture_cycles.
     rbind (exact_int (jget manifest ''completed_frames'') ''completed_frames'' 1) (\<lambda>completed_frames.
     rbind (case jget manifest ''frames'' of JList fr \<Rightarrow> Inr fr
            | _ \<Rightarrow> Inl (ValueError ''frames must be an array'')) (\<lambda>frames.
     rbind (invalid (int (length frames) \<noteq> completed_frames)
              ''frames length does not match completed_frames'') (\<lambda>_.
     Inr (capture_cycles, frames)))))))))))))"

definition trace_identity :: "file_system \<Rightarrow> string list option \<Rightarrow> (nat \<times> nat) set res" where
  "trace_identity fs trace_path =
     (case trace_path of
        None \<Rightarrow> Inr {}
      | Some path \<Rightarrow>
          (case fs path of
             None \<Rightarrow> Inl (ValueError ''cannot stat frame-bound trace'')
           | Some st \<Rightarrow>
               if is_link st \<or> \<not> is_regular st
               then Inl (ValueError ''frame-bound trace must be a regular non-symlink file'')
               else Inr {file_id st}))"

definition validate_v2_frame_timeline ::
  "file_system \<Rightarrow> json_object \<Rightarrow> string list \<Rightarrow> string list option \<Rightarrow> frame_binding list res" where
  "validate_v2_frame_timeline fs manifest parent trace_path =
     rbind (check_manifest manifest) (\<lambda>(capture_cycles, frames).
     rbind (trace_identity fs trace_path) (\<lambda>ids.
     rbind (fold_res (check_frame fs parent capture_cycles) frames
              \<lparr>fl_position = 0, fl_previous = -1, fl_files = {}, fl_ids = ids, fl_result = []\<rparr>) (\<lambda>s.
       if fb_completion_cycle (last (fl_result s)) + 1 \<noteq> capture_cycles
       then Inl (ValueError ''final frame completion does not end the capture'')
       else Inr (fl_result s))))"

definition accepts_complete_schema ::
  "file_system \<Rightarrow> json_object \<Rightarrow> string list \<Rightarrow> string list option \<Rightarrow> bool res" where
  "accepts_complete_schema fs manifest parent trace_path =
     (if jget manifest ''schema'' = JStr SCHEMA_V1 then Inr True
      else if jget manifest ''schema'' = JStr SCHEMA_V2
      then rbind (validate_v2_frame_timeline fs manifest parent trace_path) (\<lambda>_. Inr True)
      else Inr False)"

section \<open>The frame timeline\<close>

definition artifact_ok :: "file_system \<Rightarrow> frame_binding \<Rightarrow> bool" where
  "artifact_ok fs b \<longleftrightarrow> (case fs (fb_file b) of None \<Rightarrow> False | Some st \<Rightarrow>
     \<not> is_link st \<and> is_regular st \<and> int (length (file_bytes st)) = FRAME_SIZE_BYTES \<and>
     fb_size_bytes b = FRAME_SIZE_BYTES \<and> fb_fnv1a64 b = fnv1a64 (file_bytes st))"

definition artifact_id :: "file_system \<Rightarrow> frame_binding \<Rightarrow> nat \<times> nat" where
  "artifact_id fs b = file_id (the (fs (fb_file b)))"

definition timeline_inv :: "file_system \<Rightarrow> (nat \<times> nat) set \<Rightarrow> int \<Rightarrow> frame_loop \<Rightarrow> bool" where
  "timeline_inv fs ids capture s \<longleftrightarrow>
     map fb_index (fl_result s) = map int [0..<fl_position s] \<and>
     sorted_wrt (<) (map fb_completion_cycle (fl_result s)) \<and>
     list_all (\<lambda>b. 0 \<le> fb_completion_cycle b \<and> fb_completion_cycle b \<le> fl_previous s \<and>
       fb_completion_cycle b < capture) (fl_result s) \<and>
     list_all (artifact_ok fs) (fl_result s) \<and>
     fl_ids s = ids \<union> set (map (artifact_id fs) (fl_result s)) \<and>
     distinct (map (artifact_id fs) (fl_result s)) \<and> ids \<inter> set (map (artifact_id fs) (fl_result s)) = {}"

lemma check_artifact_Inr [res_simps]:
  "check_artifact fs path seen = Inr st \<longleftrightarrow>
     fs path = Some st \<and> \<not> is_link st \<and> is_regular st \<and> file_id st \<notin> seen"
  by (auto simp: check_artifact_def split: option.splits)

text \<open>What one accepted frame adds.\<close>

lemma check_frame_Inr:
  assumes "check_frame fs parent capture item s = Inr t"
  shows "\<exists>obj f st cycle. item = JObj obj \<and> jkeys obj = FRAME_FIELDS \<and>
    jget obj ''index'' = JInt (int (fl_position s)) \<and> jget obj ''completion_cycle'' = JInt cycle \<and>
    0 \<le> cycle \<and> fl_previous s < cycle \<and> cycle < capture \<and>
    file_text (jget obj ''file'') = Inr f \<and> \<not> is_absolute f \<and>
    path_name (path_parts f) = ''frame-'' @ py_str (int (fl_position s)) @ ''.rgb'' \<and> f \<notin> fl_files s \<and>
    fs (parent @ path_parts f) = Some st \<and> \<not> is_link st \<and> is_regular st \<and> file_id st \<notin> fl_ids s \<and>
    jget obj ''size_bytes'' = JInt FRAME_SIZE_BYTES \<and> int (length (file_bytes st)) = FRAME_SIZE_BYTES \<and>
    hex_digest (fnv1a64 (file_bytes st)) \<and> jget obj ''fnv1a64'' = JStr (fnv1a64 (file_bytes st)) \<and>
    t = \<lparr>fl_position = fl_position s + 1, fl_previous = cycle, fl_files = insert f (fl_files s),
         fl_ids = insert (file_id st) (fl_ids s),
         fl_result = fl_result s @
           [\<lparr>fb_index = int (fl_position s), fb_completion_cycle = cycle, fb_file = parent @ path_parts f,
             fb_size_bytes = FRAME_SIZE_BYTES, fb_fnv1a64 = fnv1a64 (file_bytes st)\<rparr>]\<rparr>"
proof (cases item)
  case (JObj obj)
  from assms show ?thesis
    unfolding JObj check_frame_def json.case
    by (auto simp only: res_simps Let_def not_le not_not sum.inject)
qed (use assms in \<open>simp_all add: check_frame_def\<close>)

lemma check_frame_step:
  assumes "check_frame fs parent capture item s = Inr t"
  obtains b st where "fl_result t = fl_result s @ [b]" and "fl_position t = fl_position s + 1"
    and "fl_previous t = fb_completion_cycle b" and "fl_ids t = insert (file_id st) (fl_ids s)"
    and "fb_index b = int (fl_position s)" and "0 \<le> fb_completion_cycle b"
    and "fl_previous s < fb_completion_cycle b" and "fb_completion_cycle b < capture"
    and "fs (fb_file b) = Some st" and "file_id st \<notin> fl_ids s" and "artifact_ok fs b"
  using check_frame_Inr [OF assms] by (force simp: artifact_ok_def)

interpretation timeline: res_machine "check_frame fs parent capture" "timeline_inv fs ids capture"
  for fs parent capture ids
proof
  fix s t item
  assume inv: "timeline_inv fs ids capture s" and step: "check_frame fs parent capture item s = Inr t"
  from step obtain b st where b: "fl_result t = fl_result s @ [b]" "fl_position t = fl_position s + 1"
      "fl_previous t = fb_completion_cycle b" "fl_ids t = insert (file_id st) (fl_ids s)"
      "fb_index b = int (fl_position s)" "0 \<le> fb_completion_cycle b"
      "fl_previous s < fb_completion_cycle b" "fb_completion_cycle b < capture"
      "fs (fb_file b) = Some st" "file_id st \<notin> fl_ids s" "artifact_ok fs b"
    by (rule check_frame_step)
  have "artifact_id fs b = file_id st" using b(9) by (simp add: artifact_id_def)
  then show "timeline_inv fs ids capture t"
    using inv b unfolding timeline_inv_def
    by (auto simp: sorted_wrt_append list_all_iff)
qed

text \<open>The same loop when one of the files has changed.\<close>

lemma check_frame_other:
  assumes "check_frame fs parent capture item s = Inr t" and "fb_file (last (fl_result t)) \<noteq> path"
  shows "check_frame (fs(path := x)) parent capture item s = Inr t"
proof -
  from check_frame_Inr [OF assms(1)] obtain obj f st cycle where *: "item = JObj obj" "jkeys obj = FRAME_FIELDS"
    "jget obj ''index'' = JInt (int (fl_position s))" "jget obj ''completion_cycle'' = JInt cycle"
    "0 \<le> cycle" "fl_previous s < cycle" "cycle < capture" "file_text (jget obj ''file'') = Inr f" "\<not> is_absolute f"
    "path_name (path_parts f) = ''frame-'' @ py_str (int (fl_position s)) @ ''.rgb''" "f \<notin> fl_files s"
    "fs (parent @ path_parts f) = Some st" "\<not> is_link st" "is_regular st" "file_id st \<notin> fl_ids s"
    "jget obj ''size_bytes'' = JInt FRAME_SIZE_BYTES" "int (length (file_bytes st)) = FRAME_SIZE_BYTES"
    "hex_digest (fnv1a64 (file_bytes st))" "jget obj ''fnv1a64'' = JStr (fnv1a64 (file_bytes st))"
    "t = \<lparr>fl_position = fl_position s + 1, fl_previous = cycle, fl_files = insert f (fl_files s),
         fl_ids = insert (file_id st) (fl_ids s), fl_result = fl_result s @
           [\<lparr>fb_index = int (fl_position s), fb_completion_cycle = cycle, fb_file = parent @ path_parts f,
             fb_size_bytes = FRAME_SIZE_BYTES, fb_fnv1a64 = fnv1a64 (file_bytes st)\<rparr>]\<rparr>" by blast
  have "(fs(path := x)) (parent @ path_parts f) = Some st" using assms(2) *(12,20) by auto
  moreover have size: "1 \<le> FRAME_SIZE_BYTES" by (simp add: FRAME_SIZE_BYTES_def FRAME_WIDTH_def FRAME_HEIGHT_def)
  ultimately show ?thesis
    unfolding *(1,20) check_frame_def json.case Let_def
    using *(3-7,13-15,18)
    by (simp add: invalid_def exact_int_def check_artifact_def frame_digest_def *(2,4,8-11,16,17,19) not_le)
qed

lemma check_frame_tampered:
  assumes "check_frame fs parent capture item s = Inr t" and "fb_file (last (fl_result t)) = path"
    and "fs path = Some st" and "length bytes = length (file_bytes st)" and "fnv1a64 bytes \<noteq> fnv1a64 (file_bytes st)"
  shows "check_frame (fs(path := Some (st\<lparr>file_bytes := bytes\<rparr>))) parent capture item s =
    Inl (ValueError ''fnv1a64 mismatch'')"
proof -
  from check_frame_Inr [OF assms(1)] obtain obj f st' cycle where *: "item = JObj obj" "jkeys obj = FRAME_FIELDS"
    "jget obj ''index'' = JInt (int (fl_position s))" "jget obj ''completion_cycle'' = JInt cycle"
    "0 \<le> cycle" "fl_previous s < cycle" "cycle < capture" "file_text (jget obj ''file'') = Inr f" "\<not> is_absolute f"
    "path_name (path_parts f) = ''frame-'' @ py_str (int (fl_position s)) @ ''.rgb''" "f \<notin> fl_files s"
    "fs (parent @ path_parts f) = Some st'" "\<not> is_link st'" "is_regular st'" "file_id st' \<notin> fl_ids s"
    "jget obj ''size_bytes'' = JInt FRAME_SIZE_BYTES" "int (length (file_bytes st')) = FRAME_SIZE_BYTES"
    "hex_digest (fnv1a64 (file_bytes st'))" "jget obj ''fnv1a64'' = JStr (fnv1a64 (file_bytes st'))"
    "t = \<lparr>fl_position = fl_position s + 1, fl_previous = cycle, fl_files = insert f (fl_files s),
         fl_ids = insert (file_id st') (fl_ids s), fl_result = fl_result s @
           [\<lparr>fb_index = int (fl_position s), fb_completion_cycle = cycle, fb_file = parent @ path_parts f,
             fb_size_bytes = FRAME_SIZE_BYTES, fb_fnv1a64 = fnv1a64 (file_bytes st')\<rparr>]\<rparr>" by blast
  have path: "parent @ path_parts f = path" using assms(2) *(20) by simp
  then have st: "st' = st" using *(12) assms(3) by simp
  have size: "1 \<le> FRAME_SIZE_BYTES" by (simp add: FRAME_SIZE_BYTES_def FRAME_WIDTH_def FRAME_HEIGHT_def)
  have len: "int (length bytes) = FRAME_SIZE_BYTES" using *(17) assms(4) st by simp
  show ?thesis
    unfolding *(1) check_frame_def json.case Let_def
    using *(3-7,13-15,18) size assms(5)
    by (simp add: invalid_def exact_int_def check_artifact_def frame_digest_def *(2,4,8-11,16,19) not_le path st len)
qed

lemma check_frames_tampered:
  assumes fs': "fs' = fs(path := Some (st\<lparr>file_bytes := bytes\<rparr>))" and "fs path = Some st" and "length bytes = length (file_bytes st)" and "fnv1a64 bytes \<noteq> fnv1a64 (file_bytes st)"
  shows "fold_res (check_frame fs parent capture) frames s = Inr t \<Longrightarrow>
    \<exists>rs. fl_result t = fl_result s @ rs \<and> (path \<in> fb_file ` set rs \<longrightarrow>
      fold_res (check_frame fs' parent capture) frames s =
        Inl (ValueError ''fnv1a64 mismatch''))"
proof (induction frames arbitrary: s)
  case Nil
  then show ?case by simp
next
  case (Cons item frames)
  then obtain u where u: "check_frame fs parent capture item s = Inr u"
      "fold_res (check_frame fs parent capture) frames u = Inr t" by (auto simp: res_simps)
  from u(1) obtain b where b: "fl_result u = fl_result s @ [b]" by (rule check_frame_step)
  from Cons.IH [OF u(2)] obtain rs where rs: "fl_result t = fl_result u @ rs"
      "path \<in> fb_file ` set rs \<longrightarrow> fold_res (check_frame fs' parent capture) frames u =
        Inl (ValueError ''fnv1a64 mismatch'')" by blast
  show ?case
  proof (cases "fb_file b = path")
    case True
    then have "check_frame fs' parent capture item s =
        Inl (ValueError ''fnv1a64 mismatch'')"
      unfolding fs' using check_frame_tampered [OF u(1) _ assms(2-4)] b by simp
    then show ?thesis using b rs(1) by simp
  next
    case False
    then have "check_frame fs' parent capture item s = Inr u"
      unfolding fs' using check_frame_other [OF u(1)] b by simp
    then show ?thesis using b rs False by auto
  qed
qed

lemma fnv1a64_differs: "a \<noteq> b \<Longrightarrow> fnv1a64 (xs @ a # ys) \<noteq> fnv1a64 (xs @ b # ys)"
proof
  assume ab: "a \<noteq> b" and eq: "fnv1a64 (xs @ a # ys) = fnv1a64 (xs @ b # ys)"
  have "nat (fnv_chunks 0xCBF29CE484222325 (xs @ a # ys)) = nat (fnv_chunks 0xCBF29CE484222325 (xs @ b # ys))"
    using eq unfolding fnv1a64_def by (rule py_hex_inj)
  then show False
    using eq_nat_nat_iff fnv_chunks_range [of "0xCBF29CE484222325"]
      fnv_change_detected [OF _ _ ab, of "0xCBF29CE484222325" xs ys] by simp
qed

lemma validate_Inr:
  assumes "validate_v2_frame_timeline fs manifest parent trace = Inr bindings"
  obtains capture frames ids s where "check_manifest manifest = Inr (capture, frames)"
    and "trace_identity fs trace = Inr ids"
    and "fold_res (check_frame fs parent capture) frames
      \<lparr>fl_position = 0, fl_previous = -1, fl_files = {}, fl_ids = ids, fl_result = []\<rparr> = Inr s"
    and "bindings = fl_result s" and "fb_completion_cycle (last bindings) + 1 = capture"
  using assms by (auto simp: validate_v2_frame_timeline_def res_simps)

lemma check_manifest_frames:
  assumes "check_manifest manifest = Inr (capture, frames)"
  shows "frames \<noteq> [] \<and> jget manifest ''capture_cycles'' = JInt capture \<and>
    jget manifest ''completed_frames'' = JInt (int (length frames)) \<and> jget manifest ''frames'' = JList frames"
proof -
  have list: "(case v of JList fr \<Rightarrow> Inr fr | _ \<Rightarrow> Inl e) = Inr fr \<longleftrightarrow> v = JList fr" for v fr and e :: py_error
    by (cases v) auto
  from assms show ?thesis
    unfolding check_manifest_def
    apply (simp only: res_simps list prod.inject sum.inject not_not)
    apply (elim exE conjE)
    apply hypsubst_thin
    apply (intro conjI)
    subgoal by (cases frames) auto
    apply assumption
    apply simp
    apply assumption
    done
qed

text \<open>A binding is what its item of the manifest records: nothing in it is recomputed.\<close>

definition frame_recorded :: "string list \<Rightarrow> json \<Rightarrow> frame_binding \<Rightarrow> bool" where
  "frame_recorded parent item b =
     (case item of
        JObj obj \<Rightarrow>
          jget obj ''index'' = JInt (fb_index b) \<and> jget obj ''completion_cycle'' = JInt (fb_completion_cycle b) \<and>
          (case jget obj ''file'' of JStr f \<Rightarrow> fb_file b = parent @ path_parts f | _ \<Rightarrow> False) \<and>
          jget obj ''size_bytes'' = JInt (fb_size_bytes b) \<and> jget obj ''fnv1a64'' = JStr (fb_fnv1a64 b)
      | _ \<Rightarrow> False)"

lemma check_frame_recorded:
  assumes "check_frame fs parent capture item s = Inr t"
  shows "\<exists>b. fl_result t = fl_result s @ [b] \<and> frame_recorded parent item b"
  using check_frame_Inr [OF assms] by (force simp: frame_recorded_def file_text_def split: json.splits if_splits)

lemma check_frames_recorded:
  "fold_res (check_frame fs parent capture) frames s = Inr t \<Longrightarrow>
   \<exists>rs. fl_result t = fl_result s @ rs \<and> list_all2 (frame_recorded parent) frames rs"
proof (induction frames arbitrary: s)
  case Nil
  then show ?case by simp
next
  case (Cons item frames)
  then obtain u where u: "check_frame fs parent capture item s = Inr u"
      "fold_res (check_frame fs parent capture) frames u = Inr t" by (auto simp: res_simps)
  then show ?case using check_frame_recorded [OF u(1)] Cons.IH [OF u(2)] by fastforce
qed

lemma check_frames_length:
  "fold_res (check_frame fs parent capture) frames s = Inr t \<Longrightarrow> fl_position t = fl_position s + length frames"
proof (induction frames arbitrary: s)
  case Nil
  then show ?case by simp
next
  case (Cons item frames)
  then obtain u where u: "check_frame fs parent capture item s = Inr u"
      "fold_res (check_frame fs parent capture) frames u = Inr t" by (auto simp: res_simps)
  from u(1) have "fl_position u = fl_position s + 1" by (rule check_frame_step)
  then show ?case using Cons.IH [OF u(2)] by simp
qed

section \<open>Properties of the manifest\<close>

text \<open>
  C31: An accepted manifest is an exact timeline. There is one binding per completed frame, indexed
  0, 1, 2, ...; the completion cycles strictly increase and the last one ends the capture; every
  artifact is a regular, distinct file of exactly one raw frame. Every binding is made of the values its
  item of the manifest records, digest included, and that recorded digest is the FNV-1a value of the file.
\<close>

theorem manifest_timeline:
  assumes "validate_v2_frame_timeline fs manifest parent trace = Inr bindings"
  shows "jget manifest ''completed_frames'' = JInt (int (length bindings)) \<and> bindings \<noteq> [] \<and>
    map fb_index bindings = map int [0..<length bindings] \<and>
    sorted_wrt (<) (map fb_completion_cycle bindings) \<and>
    jget manifest ''capture_cycles'' = JInt (fb_completion_cycle (last bindings) + 1) \<and>
    (\<exists>frames. jget manifest ''frames'' = JList frames \<and> list_all2 (frame_recorded parent) frames bindings) \<and>
    list_all (artifact_ok fs) bindings \<and> distinct (map (artifact_id fs) bindings)"
  using assms
proof (rule validate_Inr)
  fix capture frames ids s
  assume m: "check_manifest manifest = Inr (capture, frames)" and "trace_identity fs trace = Inr ids"
    and run: "fold_res (check_frame fs parent capture) frames
      \<lparr>fl_position = 0, fl_previous = -1, fl_files = {}, fl_ids = ids, fl_result = []\<rparr> = Inr s"
    and s: "bindings = fl_result s" "fb_completion_cycle (last bindings) + 1 = capture"
  have "timeline_inv fs ids capture \<lparr>fl_position = 0, fl_previous = -1, fl_files = {}, fl_ids = ids, fl_result = []\<rparr>"
    by (simp add: timeline_inv_def)
  then have inv: "timeline_inv fs ids capture s" using run by (rule timeline.run_inv)
  have n: "fl_position s = length frames" using check_frames_length [OF run] by simp
  have "map fb_index bindings = map int [0..<fl_position s]" using inv s(1) by (simp add: timeline_inv_def)
  then have len: "length bindings = length frames" using n by (metis length_map length_upt diff_zero)
  moreover have "list_all2 (frame_recorded parent) frames bindings"
    using check_frames_recorded [OF run] s(1) by simp
  ultimately show ?thesis
    using inv s n check_manifest_frames [OF m] by (auto simp: timeline_inv_def)
qed

text \<open>
  A damaged frame file is noticed. If a manifest is accepted and afterwards one byte of one of
  the bound frame files is different, validation fails with the digest mismatch.
\<close>

theorem frame_damage_noticed:
  assumes "validate_v2_frame_timeline fs manifest parent trace = Inr bindings" and "b \<in> set bindings"
    and "fs (fb_file b) = Some st" and "file_bytes st = xs @ old # ys" and "new \<noteq> old"
  shows "validate_v2_frame_timeline (fs(fb_file b := Some (st\<lparr>file_bytes := xs @ new # ys\<rparr>))) manifest parent trace =
    Inl (ValueError ''fnv1a64 mismatch'')"
  using assms(1)
proof (rule validate_Inr)
  fix capture frames ids s
  let ?fs = "fs(fb_file b := Some (st\<lparr>file_bytes := xs @ new # ys\<rparr>))"
  let ?start = "\<lparr>fl_position = 0, fl_previous = -1, fl_files = {}, fl_ids = ids, fl_result = []\<rparr>"
  assume m: "check_manifest manifest = Inr (capture, frames)" and t: "trace_identity fs trace = Inr ids"
    and run: "fold_res (check_frame fs parent capture) frames ?start = Inr s" and s: "bindings = fl_result s"
  have "fnv1a64 (xs @ new # ys) \<noteq> fnv1a64 (file_bytes st)"
    unfolding assms(4) using assms(5) by (rule fnv1a64_differs)
  then have "fold_res (check_frame ?fs parent capture) frames ?start = Inl (ValueError ''fnv1a64 mismatch'')"
    using check_frames_tampered [OF refl assms(3) _ _ run, of "xs @ new # ys"] s assms(2,4) by auto
  moreover have "trace_identity ?fs trace = Inr ids"
    using t assms(3) by (auto simp: trace_identity_def split: option.splits if_splits)
  ultimately show ?thesis using m by (simp add: validate_v2_frame_timeline_def)
qed

section \<open>An accepted manifest\<close>

lemma show_nat_base_length: "1 < b \<Longrightarrow> n < b ^ k \<Longrightarrow> 0 < k \<Longrightarrow> length (show_nat_base b n) \<le> k"
proof (induction b n arbitrary: k rule: show_nat_base.induct)
  case (1 b n)
  show ?case
  proof (cases "n < b")
    case True
    then show ?thesis using 1 by (subst show_nat_base.simps) simp
  next
    case False
    then obtain k' where k: "k = Suc k'" "0 < k'" using "1.prems"(2,3) by (cases k; cases "k - 1") auto
    have "n div b < b ^ k'" using "1.prems"(1,2) k(1) by (simp add: less_mult_imp_div_less mult.commute)
    then have "length (show_nat_base b (n div b)) \<le> k'" using 1 False k(2) by simp
    then show ?thesis using False "1.prems"(1) k(1) by (subst show_nat_base.simps) simp
  qed
qed

lemma digit_char_hex: "digit_char ` {..<16} \<subseteq> set ''0123456789abcdef''"
proof -
  have "map digit_char [0..<16] = ''0123456789abcdef''" by code_simp
  then have "set (map digit_char [0..<16]) = set ''0123456789abcdef''" by (rule arg_cong)
  then show ?thesis by (simp add: lessThan_atLeast0)
qed

lemma fnv1a64_hex: "hex_digest (fnv1a64 content)"
proof -
  let ?n = "nat (fnv_chunks 0xCBF29CE484222325 content)"
  have bound: "unat w < 2 ^ LENGTH(64)" for w :: "64 word" by (rule unsigned_less)
  have "?n < 16 ^ 16"
    using fnv_chunks_refines [of "0xCBF29CE484222325" content] bound [of "foldl fnv_feed (word_of_int 0xCBF29CE484222325) content"]
    by simp
  then have "length (show_nat_base 16 ?n) \<le> 16" by (intro show_nat_base_length) simp_all
  moreover have "set (show_nat_base 16 ?n) \<subseteq> set ''0123456789abcdef''"
    by (rule subset_trans [OF conjunct1 [OF show_nat_base_digits] digit_char_hex]) simp_all
  moreover define D where "D = set ''0123456789abcdef''"
  moreover have "CHR ''0'' \<in> D" by (simp add: D_def)
  ultimately have "length (fnv1a64 content) = 16" "set (fnv1a64 content) \<subseteq> D"
    unfolding D_def [symmetric] fnv1a64_def py_hex_def Let_def by auto
  then show ?thesis
    unfolding hex_digest_def list_all_iff D_def by blast
qed

definition blank_frame :: "byte list" where "blank_frame = replicate 96768 0"

definition demo_files :: file_system where
  "demo_files path = (if path = [''out'', ''frame-0.rgb'']
     then Some \<lparr>is_link = False, is_regular = True, file_id = (1, 7), file_bytes = blank_frame\<rparr> else None)"

definition demo_manifest :: json_object where
  "demo_manifest =
     [(''schema'', JStr SCHEMA_V2), (''trace_schema'', JInt 5), (''trace_file'', JNull), (''trace_size_bytes'', JNull),
      (''trace_fnv1a64'', JNull), (''capture_start'', JNull), (''capture_completed'', JBool True),
      (''capture_cycles'', JInt 100), (''completed_frames'', JInt 1), (''rom_size'', JNull), (''rom_fnv1a64'', JNull),
      (''open_ipl_size'', JNull), (''open_ipl_fnv1a64'', JNull), (''iram_initial_state'', JNull),
      (''savestate_inputs_asserted'', JNull),
      (''events'', JObj [(''cpu'', JBool True), (''bank'', JBool True), (''vram'', JBool True), (''mem'', JBool True),
         (''bg_cell'', JBool True)]),
      (''memory_filters_active'', JNull), (''display_filters_active'', JNull), (''complete_memory_history'', JNull),
      (''complete_display_history'', JNull), (''complete_bg_cell_history'', JNull),
      (''frames'', JList [JObj [(''index'', JInt 0), (''completion_cycle'', JInt 99), (''file'', JStr ''frame-0.rgb''),
         (''size_bytes'', JInt 96768), (''fnv1a64'', JStr (fnv1a64 blank_frame))]])]"

definition demo_binding :: frame_binding where
  "demo_binding = \<lparr>fb_index = 0, fb_completion_cycle = 99, fb_file = [''out'', ''frame-0.rgb''],
     fb_size_bytes = 96768, fb_fnv1a64 = fnv1a64 blank_frame\<rparr>"

lemma demo_manifest_keys: "jkeys demo_manifest = BASE_FIELDS \<union> {''frames''}"
proof -
  have "map fst demo_manifest = [''schema'', ''trace_schema'', ''trace_file'', ''trace_size_bytes'',
      ''trace_fnv1a64'', ''capture_start'', ''capture_completed'', ''capture_cycles'', ''completed_frames'',
      ''rom_size'', ''rom_fnv1a64'', ''open_ipl_size'', ''open_ipl_fnv1a64'', ''iram_initial_state'',
      ''savestate_inputs_asserted'', ''events'', ''memory_filters_active'', ''display_filters_active'',
      ''complete_memory_history'', ''complete_display_history'', ''complete_bg_cell_history'', ''frames'']"
    by (simp add: demo_manifest_def)
  then show ?thesis unfolding jkeys_def BASE_FIELDS_def by (simp only: list.set) (simp only: insert_commute Un_insert_left Un_empty_left)
qed

lemma demo_manifest_values:
  "jget demo_manifest ''schema'' = JStr SCHEMA_V2" "jget demo_manifest ''trace_schema'' = JInt 5"
  "jget demo_manifest ''capture_cycles'' = JInt 100" "jget demo_manifest ''completed_frames'' = JInt 1"
  "jget demo_manifest ''events'' = JObj [(''cpu'', JBool True), (''bank'', JBool True), (''vram'', JBool True),
     (''mem'', JBool True), (''bg_cell'', JBool True)]"
  "jget demo_manifest ''frames'' = JList [JObj [(''index'', JInt 0), (''completion_cycle'', JInt 99),
     (''file'', JStr ''frame-0.rgb''), (''size_bytes'', JInt 96768), (''fnv1a64'', JStr (fnv1a64 blank_frame))]]"
  by (simp_all add: jget_def demo_manifest_def)

lemma demo_manifest_checked:
  "check_manifest demo_manifest = Inr (100, [JObj [(''index'', JInt 0), (''completion_cycle'', JInt 99),
     (''file'', JStr ''frame-0.rgb''), (''size_bytes'', JInt 96768), (''fnv1a64'', JStr (fnv1a64 blank_frame))]])"
proof -
  have "''input_script'' \<notin> jkeys demo_manifest" unfolding demo_manifest_keys BASE_FIELDS_def by simp
  moreover have events: "jkeys [(''cpu'', JBool True), (''bank'', JBool True), (''vram'', JBool True), (''mem'', JBool True),
      (''bg_cell'', JBool True)] = {''cpu'', ''bank'', ''vram'', ''mem'', ''bg_cell''}" by (simp add: jkeys_def)
  ultimately show ?thesis
    unfolding check_manifest_def
    by (simp add: invalid_def exact_int_def demo_manifest_values demo_manifest_keys events)
qed

lemma demo_frame_checked:
  "check_frame demo_files [''out''] 100 (JObj [(''index'', JInt 0), (''completion_cycle'', JInt 99),
     (''file'', JStr ''frame-0.rgb''), (''size_bytes'', JInt 96768), (''fnv1a64'', JStr (fnv1a64 blank_frame))])
     \<lparr>fl_position = 0, fl_previous = -1, fl_files = {}, fl_ids = {}, fl_result = []\<rparr> =
   Inr \<lparr>fl_position = 1, fl_previous = 99, fl_files = {''frame-0.rgb''}, fl_ids = {(1, 7)}, fl_result = [demo_binding]\<rparr>"
proof -
  have keys: "{''index'', ''completion_cycle'', ''file'', ''size_bytes'', ''fnv1a64''} = FRAME_FIELDS"
    by (simp add: FRAME_FIELDS_def)
  have parts: "path_parts ''frame-0.rgb'' = [''frame-0.rgb'']" by (simp add: path_parts_def)
  have name: "py_str 0 = ''0''" by code_simp
  have size: "FRAME_SIZE_BYTES = 96768" by (simp add: FRAME_SIZE_BYTES_def FRAME_WIDTH_def FRAME_HEIGHT_def)
  have len: "length blank_frame = 96768" unfolding blank_frame_def by (rule length_replicate)
  show ?thesis
    unfolding check_frame_def json.case Let_def
    by (simp add: invalid_def exact_int_def check_artifact_def jkeys_def keys jget_def file_text_def parts name size len
        frame_digest_def path_name_def is_absolute_def demo_files_def fnv1a64_hex demo_binding_def)
qed

lemma demo_accepted: "validate_v2_frame_timeline demo_files demo_manifest [''out''] None = Inr [demo_binding]"
  unfolding validate_v2_frame_timeline_def demo_manifest_checked trace_identity_def
  by (simp add: demo_frame_checked) (simp add: demo_binding_def)

theorem manifest_timeline_witness:
  "validate_v2_frame_timeline demo_files demo_manifest [''out''] None = Inr [demo_binding] \<and> artifact_ok demo_files demo_binding"
  using manifest_timeline [OF demo_accepted] demo_accepted by simp

theorem frame_damage_noticed_witness:
  "validate_v2_frame_timeline (demo_files([''out'', ''frame-0.rgb''] :=
     Some \<lparr>is_link = False, is_regular = True, file_id = (1, 7), file_bytes = 1 # replicate 96767 0\<rparr>))
     demo_manifest [''out''] None = Inl (ValueError ''fnv1a64 mismatch'')"
proof -
  have "blank_frame = [] @ 0 # replicate 96767 0"
    unfolding blank_frame_def by (simp only: append_Nil replicate_Suc [symmetric]) simp
  then show ?thesis
    using frame_damage_noticed [OF demo_accepted, of demo_binding "\<lparr>is_link = False, is_regular = True,
        file_id = (1, 7), file_bytes = blank_frame\<rparr>" "[]" 0 "replicate 96767 0" 1]
    by (simp add: demo_binding_def demo_files_def)
qed

end
