(* ===== verification/Provenance.thy ===== *)
theory Provenance
  imports Frame_Manifest
begin

unbundle bit_operations_syntax

text \<open>
  Correlation of display reads with observed IRAM writers and ROM sources
  (\<^verbatim>\<open>sim/verilator/correlate_provenance.py\<close>): the source tracker, the byte versions of the
  scoreboard, the classification of every display fetch, and the loop over the cycles of a trace.

  Rows of a trace are compared by identity in the code; a row is created once per line, so
  identity is equality of line numbers here. The IRAM list of 65536 entries is a function with
  Python's index rule (a negative index counts from the end, any other raises).
\<close>

section \<open>Rows and byte versions\<close>

definition ROM_SPACES :: "string set" where "ROM_SPACES = {''cart_rom0'', ''cart_rom1'', ''cart_rom_linear''}"

record trace_row =
  t_line :: int
  t_values :: row

definition row_cycle :: "trace_row \<Rightarrow> int" where
  "row_cycle r = field (t_values r) ''cycle''"

record byte_version =
  bv_value :: int
  bv_write :: "trace_row option"
  bv_source :: "trace_row option"
  bv_lane :: "int option"

definition POWERUP_ZERO :: byte_version where
  "POWERUP_ZERO = \<lparr>bv_value = 0, bv_write = None, bv_source = None, bv_lane = None\<rparr>"

definition REP_MOVSB_WORD :: int where "REP_MOVSB_WORD = 0xA4F3"
definition REP_OPCODE_MAX_AGE :: int where "REP_OPCODE_MAX_AGE = 4096"
definition REP_TRANSFER_MAX_AGE :: int where "REP_TRANSFER_MAX_AGE = 4096"

definition py_int :: "string \<Rightarrow> int res" where
  "py_int s = (case py_int10 s of None \<Rightarrow> Inl (ValueError ''invalid literal for int()'') | Some i \<Rightarrow> Inr i)"

lemma py_int_Inr [res_simps]: "py_int s = Inr i \<longleftrightarrow> py_int10 s = Some i"
  by (auto simp: py_int_def split: option.splits)

definition same_row :: "trace_row option \<Rightarrow> trace_row option \<Rightarrow> bool" where
  "same_row a b \<longleftrightarrow> map_option t_line a = map_option t_line b"

section \<open>The source tracker\<close>

record tracker =
  pending_gdma_read :: "trace_row option"
  pending_cpu_read :: "trace_row option"
  rep_opcode_signatures :: "int \<rightharpoonup> trace_row"
  active_rep_identity :: "(int \<times> int) option"
  active_rep_last_cycle :: "int option"
  cpu_rom_movsb_bytes :: int
  cpu_rom_movsb_origins :: "int set"

definition tracker_start :: tracker where
  "tracker_start = \<lparr>pending_gdma_read = None, pending_cpu_read = None, rep_opcode_signatures = Map.empty,
     active_rep_identity = None, active_rep_last_cycle = None, cpu_rom_movsb_bytes = 0,
     cpu_rom_movsb_origins = {}\<rparr>"

definition row_identity :: "trace_row \<Rightarrow> (int \<times> int) option" where
  "row_identity r =
     (let v = t_values r in
      if v ''origin_status'' \<noteq> ''exact'' then None
      else case (py_int10 (v ''instruction_id''), py_int10 (v ''origin_pc'')) of
             (Some instruction_id, Some origin_pc) \<Rightarrow>
               if instruction_id \<le> 0 \<or> \<not> (0 \<le> origin_pc \<and> origin_pc \<le> 0xFFFFF) then None
               else Some (instruction_id, origin_pc)
           | _ \<Rightarrow> None)"

definition remember_opcode_signature :: "trace_row \<Rightarrow> tracker \<Rightarrow> tracker res" where
  "remember_opcode_signature r tr =
     (let v = t_values r in
      if v ''initiator'' \<noteq> ''cpu'' \<or> v ''access'' \<noteq> ''read'' \<or> v ''origin_status'' \<noteq> ''unattributed'' \<or>
         v ''space'' \<notin> ROM_SPACES \<or> v ''byte_enable'' \<noteq> ''0'' \<or> v ''mapped_offset'' = []
      then Inr tr
      else rbind (py_int (v ''address'')) (\<lambda>address.
           rbind (py_int (v ''mapped_offset'')) (\<lambda>mapped_offset.
           rbind (if address AND 1 = 0 \<and> mapped_offset AND 1 = 0
                  then rbind (py_int (v ''value'')) (\<lambda>value. Inr (value = REP_MOVSB_WORD)) else Inr False) (\<lambda>signature.
           Inr (if signature
                then tr\<lparr>rep_opcode_signatures := (rep_opcode_signatures tr)(address \<mapsto> r)\<rparr>
                else tr\<lparr>rep_opcode_signatures := (rep_opcode_signatures tr)(address := None)\<rparr>)))))"

definition is_rep_movsb_read :: "trace_row \<Rightarrow> int \<times> int \<Rightarrow> tracker \<Rightarrow> bool \<times> tracker" where
  "is_rep_movsb_read r identity tr =
     (let v = t_values r in
      if v ''access'' \<noteq> ''read'' \<or> v ''space'' \<notin> ROM_SPACES \<or> v ''byte_enable'' \<noteq> ''0'' \<or> v ''mapped_offset'' = []
      then (False, tr)
      else if active_rep_identity tr = Some identity
      then (case active_rep_last_cycle tr of
              None \<Rightarrow> (False, tr)
            | Some c \<Rightarrow> (0 < row_cycle r - c \<and> row_cycle r - c \<le> REP_TRANSFER_MAX_AGE, tr))
      else case rep_opcode_signatures tr (snd identity) of
             None \<Rightarrow> (False, tr)
           | Some signature \<Rightarrow>
               if \<not> (0 < row_cycle r - row_cycle signature \<and> row_cycle r - row_cycle signature \<le> REP_OPCODE_MAX_AGE)
               then (False, tr)
               else (True, tr\<lparr>rep_opcode_signatures := (rep_opcode_signatures tr)(snd identity := None),
                              active_rep_identity := Some identity, active_rep_last_cycle := None\<rparr>))"

definition retire_cpu_chain :: "tracker \<Rightarrow> tracker" where
  "retire_cpu_chain tr = tr\<lparr>active_rep_identity := None, active_rep_last_cycle := None\<rparr>"

definition matches_cpu_byte_write :: "trace_row \<Rightarrow> trace_row \<Rightarrow> int \<times> int \<Rightarrow> bool res" where
  "matches_cpu_byte_write read' write' identity =
     (let v = t_values write' in
      if row_identity read' \<noteq> Some identity \<or> v ''access'' \<noteq> ''write'' \<or> v ''space'' \<noteq> ''iram'' \<or>
         v ''byte_enable'' \<noteq> ''1'' \<or> v ''mapped_offset'' \<noteq> v ''address''
      then Inr False
      else rbind (py_int (v ''value'')) (\<lambda>value.
           if value > 0xFF \<or> \<not> (0 < row_cycle write' - row_cycle read' \<and>
                row_cycle write' - row_cycle read' \<le> REP_TRANSFER_MAX_AGE)
           then Inr False
           else rbind (py_int (t_values read' ''value'')) (\<lambda>read_value. Inr (read_value AND 0xFF = value))))"

text \<open>\<open>observe\<close>: the part after the pending CPU read has been settled, and the whole.\<close>

definition observe_rest :: "trace_row \<Rightarrow> (int \<times> int) option \<Rightarrow> tracker \<Rightarrow> (trace_row option \<times> tracker) res" where
  "observe_rest r identity tr =
     (let v = t_values r; initiator = v ''initiator''; access = v ''access'' in
      if initiator = ''gdma'' then
        (let tr = retire_cpu_chain tr in
         if access = ''read'' then Inr (None, tr\<lparr>pending_gdma_read := Some r\<rparr>)
         else if access = ''write'' then
           (let source = pending_gdma_read tr; tr = tr\<lparr>pending_gdma_read := None\<rparr> in
            case source of
              None \<Rightarrow> Inr (None, tr)
            | Some s \<Rightarrow>
                if t_values s ''value'' = v ''value'' \<and> t_values s ''byte_enable'' = v ''byte_enable''
                then Inr (Some s, tr) else Inr (None, tr))
         else Inr (None, tr))
      else if initiator \<noteq> ''cpu'' then Inr (None, retire_cpu_chain tr)
      else rbind (remember_opcode_signature r tr) (\<lambda>tr.
        case identity of
          None \<Rightarrow> Inr (None, retire_cpu_chain tr)
        | Some i \<Rightarrow>
            (let tr = (if active_rep_identity tr \<noteq> None \<and> active_rep_identity tr \<noteq> Some i
                       then retire_cpu_chain tr else tr);
                 (accepted, tr) = is_rep_movsb_read r i tr
             in if accepted then Inr (None, tr\<lparr>pending_cpu_read := Some r\<rparr>)
                else Inr (None, retire_cpu_chain tr))))"

definition observe :: "trace_row \<Rightarrow> tracker \<Rightarrow> (trace_row option \<times> tracker) res" where
  "observe r tr =
     (let pending_cpu = pending_cpu_read tr;
          tr = tr\<lparr>pending_cpu_read := None\<rparr>;
          identity = (if t_values r ''initiator'' = ''cpu'' then row_identity r else None)
      in case pending_cpu of
           None \<Rightarrow> observe_rest r identity tr
         | Some read' \<Rightarrow>
             rbind (case identity of
                      None \<Rightarrow> Inr False
                    | Some i \<Rightarrow> if active_rep_identity tr = Some i then matches_cpu_byte_write read' r i else Inr False)
               (\<lambda>matched.
                if matched
                then Inr (Some read',
                       tr\<lparr>cpu_rom_movsb_bytes := cpu_rom_movsb_bytes tr + 1,
                          cpu_rom_movsb_origins := insert (snd (the identity)) (cpu_rom_movsb_origins tr),
                          active_rep_last_cycle := Some (row_cycle r)\<rparr>)
                else observe_rest r identity (retire_cpu_chain tr)))"

definition source_lane :: "trace_row option \<Rightarrow> int \<Rightarrow> int option" where
  "source_lane source_read write_lane =
     (case source_read of
        None \<Rightarrow> None
      | Some s \<Rightarrow> if t_values s ''initiator'' = ''cpu'' then Some 0 else Some write_lane)"

section \<open>The manifest of a trace\<close>

datatype coverage = CompleteFromReset | ObservedOnly

text \<open>A manifest that is missing, unreadable, no JSON object, or an object.\<close>

datatype manifest_source = NoManifest | BrokenManifest | ManifestOther | ManifestObject json_object

text \<open>Python equality of a JSON value with an integer, and membership in a set of integers.\<close>

definition json_is_int :: "json \<Rightarrow> int \<Rightarrow> bool" where
  "json_is_int v n = (case v of
     JInt i \<Rightarrow> i = n | JFloat q \<Rightarrow> q = of_int n | JBool b \<Rightarrow> (if b then 1 else 0) = n | _ \<Rightarrow> False)"

definition json_in_ints :: "json \<Rightarrow> int list \<Rightarrow> bool res" where
  "json_in_ints v ns = (case v of
     JList _ \<Rightarrow> Inl TypeError | JObj _ \<Rightarrow> Inl TypeError | _ \<Rightarrow> Inr (list_ex (json_is_int v) ns))"

definition positive_integer :: "json \<Rightarrow> bool" where
  "positive_integer v = (case v of JInt i \<Rightarrow> 0 < i | _ \<Rightarrow> False)"

definition parse_range :: "string \<Rightarrow> int \<Rightarrow> (int \<times> int) res" where
  "parse_range value maximum =
     (case (case split_first CHR ''-'' value of
              Some (a, b) \<Rightarrow> (py_int0 a, py_int0 b) | None \<Rightarrow> (py_int0 value, py_int0 value)) of
        (Some first, Some last') \<Rightarrow>
          if 0 \<le> first \<and> first \<le> last' \<and> last' \<le> maximum then Inr (first, last')
          else Inl (ArgumentTypeError ''range is out of bounds'')
      | _ \<Rightarrow> Inl (ArgumentTypeError ''range must be ADDR or START-END''))"

definition manifest_events :: "json_object \<Rightarrow> string list \<Rightarrow> bool" where
  "manifest_events manifest names =
     (case jget manifest ''events'' of
        JObj events \<Rightarrow> list_all (\<lambda>n. jget events n = JBool True) names
      | _ \<Rightarrow> False)"

type_synonym iram = "int \<Rightarrow> byte_version option"

definition read_manifest :: "file_system \<Rightarrow> string list \<Rightarrow> manifest_source \<Rightarrow> (coverage \<times> iram) res" where
  "read_manifest fs trace source =
     (case source of
        NoManifest \<Rightarrow> Inr (ObservedOnly, \<lambda>_. None)
      | BrokenManifest \<Rightarrow> Inl (ValueError ''invalid trace manifest'')
      | ManifestOther \<Rightarrow> Inl AttributeError
      | ManifestObject m \<Rightarrow>
          (case fs trace of
             None \<Rightarrow> Inl (ValueError ''cannot validate trace binding'')
           | Some st \<Rightarrow>
               let binding_matches = json_is_int (jget m ''trace_size_bytes'') (int (length (file_bytes st))) \<and>
                     jget m ''trace_fnv1a64'' = JStr (fnv1a64 (file_bytes st)) in
               rbind (accepts_complete_schema fs m (butlast trace) (Some trace)) (\<lambda>accepted.
               rbind (if accepted then json_in_ints (jget m ''trace_schema'') [4, 5, 6] else Inr False) (\<lambda>schema_ok.
               Inr (if accepted \<and> schema_ok \<and> binding_matches \<and>
                       jget m ''capture_start'' = JStr ''reset_release'' \<and>
                       jget m ''capture_completed'' = JBool True \<and>
                       positive_integer (jget m ''capture_cycles'') \<and>
                       positive_integer (jget m ''completed_frames'') \<and>
                       positive_integer (jget m ''rom_size'') \<and>
                       jget m ''complete_memory_history'' = JBool True \<and>
                       jget m ''complete_display_history'' = JBool True \<and>
                       jget m ''memory_filters_active'' = JBool False \<and>
                       jget m ''display_filters_active'' = JBool False \<and>
                       manifest_events m [''mem'', ''vram''] \<and>
                       jget m ''savestate_inputs_asserted'' = JBool False \<and>
                       jget m ''iram_initial_state'' = JStr ''zero''
                    then (CompleteFromReset, \<lambda>_. Some POWERUP_ZERO)
                    else (ObservedOnly, \<lambda>_. None))))))"

section \<open>Reporting a byte\<close>

datatype cell = CInt int | CText string

type_synonym out_record = "(string \<times> cell) list"

definition optional_int :: "trace_row option \<Rightarrow> string \<Rightarrow> cell" where
  "optional_int r f = (case r of None \<Rightarrow> CText [] | Some r \<Rightarrow> CText (t_values r f))"

definition byte_fields :: "string \<Rightarrow> byte_version option \<Rightarrow> out_record res" where
  "byte_fields prefix version =
     (case version of
        None \<Rightarrow> Inr ((prefix @ ''_value'', CText []) #
          map (\<lambda>suffix. (prefix @ ''_'' @ suffix, CText []))
            [''write_line'', ''write_cycle'', ''initiator'', ''instruction_id'', ''origin_pc'',
             ''source_space'', ''source_offset'', ''source_read_cycle''])
      | Some v \<Rightarrow>
          let write' = bv_write v; source = bv_source v in
          rbind (case (source, bv_lane v) of
                   (Some s, Some source_byte) \<Rightarrow>
                     if t_values s ''mapped_offset'' \<noteq> []
                     then rbind (py_int (t_values s ''mapped_offset'')) (\<lambda>offset. Inr (CInt (offset + source_byte)))
                     else Inr (CText [])
                 | _ \<Rightarrow> Inr (CText [])) (\<lambda>offset.
          Inr [(prefix @ ''_value'', CInt (bv_value v)),
               (prefix @ ''_write_line'', case write' of None \<Rightarrow> CText [] | Some w \<Rightarrow> CInt (t_line w)),
               (prefix @ ''_write_cycle'', case write' of None \<Rightarrow> CText [] | Some w \<Rightarrow> CInt (row_cycle w)),
               (prefix @ ''_initiator'', optional_int write' ''initiator''),
               (prefix @ ''_instruction_id'', optional_int write' ''instruction_id''),
               (prefix @ ''_origin_pc'', optional_int write' ''origin_pc''),
               (prefix @ ''_source_space'', optional_int source ''space''),
               (prefix @ ''_source_offset'', offset),
               (prefix @ ''_source_read_cycle'', case source of None \<Rightarrow> CText [] | Some s \<Rightarrow> CInt (row_cycle s))]))"

text \<open>\<open>summarize_versions\<close>: RAM status, writer summary, source summary.\<close>

definition option_list :: "'a option \<Rightarrow> 'a list" where
  "option_list x = (case x of None \<Rightarrow> [] | Some y \<Rightarrow> [y])"

definition writer_summary :: "string set \<Rightarrow> string set \<Rightarrow> string" where
  "writer_summary initiators origins =
     (if initiators = {''cpu''} then (if origins = {''exact''} then ''cpu_exact'' else ''cpu_unattributed'')
      else if card initiators = 1 then the_elem initiators
      else ''mixed'')"

definition source_summary :: "trace_row option \<Rightarrow> trace_row option \<Rightarrow> string set \<Rightarrow> string" where
  "source_summary low high initiators =
     (let known = option_list low @ option_list high;
          source_initiators = set (map (\<lambda>s. t_values s ''initiator'') known) in
      if low \<noteq> None \<and> same_row low high
      then (let s = the low in
            if t_values s ''initiator'' = ''cpu'' \<and> t_values s ''space'' \<in> ROM_SPACES then ''cpu_rom_movsb''
            else if t_values s ''space'' \<in> ROM_SPACES then ''gdma_rom_same_transfer''
            else ''gdma_nonrom_same_transfer'')
      else if length known = 2 \<and> source_initiators = {''cpu''} \<and>
              list_all (\<lambda>s. t_values s ''space'' \<in> ROM_SPACES) known
      then ''cpu_rom_movsb''
      else if known \<noteq> [] then ''mixed_or_partial_sources''
      else if initiators = {''gdma''} then ''gdma_unpaired''
      else if initiators = {''cpu''} then ''cpu_write''
      else ''mixed'')"

definition summarize_versions :: "byte_version option \<Rightarrow> byte_version option \<Rightarrow> string \<times> string \<times> string" where
  "summarize_versions low high =
     (case (low, high) of
        (None, None) \<Rightarrow> (''none_observed'', ''none_observed'', ''none_observed'')
      | (None, Some _) \<Rightarrow> (''partial_high'', ''partial'', ''partial'')
      | (Some _, None) \<Rightarrow> (''partial_low'', ''partial'', ''partial'')
      | (Some l, Some h) \<Rightarrow>
          let ram_status = (if same_row (bv_write l) (bv_write h) then ''complete_same_write'' else ''complete_mixed_writes'') in
          if bv_write l = None \<and> bv_write h = None then (ram_status, ''initial_powerup'', ''initial_powerup'')
          else
            let writes = option_list (bv_write l) @ option_list (bv_write h);
                initiators = set (map (\<lambda>w. t_values w ''initiator'') writes);
                origins = set (map (\<lambda>w. t_values w ''origin_status'') writes)
            in (ram_status, writer_summary initiators origins,
                source_summary (bv_source l) (bv_source h) initiators))"

section \<open>The correlation\<close>

record correlate_options =
  roles :: "string set option"
  address_range :: "(int \<times> int) option"
  only_status :: "string set option"
  fail_on_mismatch :: bool
  require_matches :: int
  require_complete_coverage :: bool
  require_exact_fetches :: bool

definition COUNT_NAMES :: "string list" where
  "COUNT_NAMES = [''fetches'', ''written'', ''match'', ''mismatch'', ''partial'', ''unobserved'', ''collision'',
     ''cpu_exact'', ''initial_powerup'', ''gdma_rom'', ''cpu_rom_movsb'', ''cpu_rom_movsb_bytes'',
     ''cpu_rom_movsb_origins'']"

record correlation =
  c_iram :: iram
  c_counts :: "string \<Rightarrow> int"
  c_tracker :: tracker
  c_fetch_index :: int
  c_output :: "out_record list"

definition bump :: "string \<Rightarrow> (string \<Rightarrow> int) \<Rightarrow> (string \<Rightarrow> int)" where
  "bump name counts' = counts'(name := counts' name + 1)"

definition bump_if :: "bool \<Rightarrow> string \<Rightarrow> (string \<Rightarrow> int) \<Rightarrow> (string \<Rightarrow> int)" where
  "bump_if b name counts' = (if b then bump name counts' else counts')"

text \<open>Index into a Python list of 65536 entries.\<close>

definition iram_index :: "int \<Rightarrow> int res" where
  "iram_index i = (if 0 \<le> i \<and> i < 0x10000 then Inr i
     else if - 0x10000 \<le> i \<and> i < 0 then Inr (i + 0x10000) else Inl IndexError)"

definition scoreboard_status :: "int \<Rightarrow> int \<Rightarrow> byte_version option \<Rightarrow> byte_version option \<Rightarrow> string" where
  "scoreboard_status collision fetch_value low high =
     (if collision \<noteq> 0 then ''unspecified_collision''
      else case (low, high) of
             (Some l, Some h) \<Rightarrow>
               if bv_value l OR push_bit 8 (bv_value h) = fetch_value then ''match'' else ''mismatch''
           | (None, None) \<Rightarrow> ''unobserved''
           | _ \<Rightarrow> ''partial'')"

definition status_count :: "string \<Rightarrow> string" where
  "status_count status = (if status = ''unspecified_collision'' then ''collision'' else status)"

definition coverage_text :: "coverage \<Rightarrow> string" where
  "coverage_text c = (case c of CompleteFromReset \<Rightarrow> ''complete_from_reset'' | ObservedOnly \<Rightarrow> ''observed_only'')"

definition fetch_selected :: "correlate_options \<Rightarrow> string \<Rightarrow> int \<Rightarrow> string \<Rightarrow> bool" where
  "fetch_selected opts role address status \<longleftrightarrow>
     (case roles opts of None \<Rightarrow> True | Some s \<Rightarrow> role \<in> s) \<and>
     (case address_range opts of None \<Rightarrow> True | Some (a, b) \<Rightarrow> a \<le> address \<and> address \<le> b) \<and>
     (case only_status opts of None \<Rightarrow> True | Some s \<Rightarrow> status \<in> s)"

definition count_fetch :: "string \<Rightarrow> string \<Rightarrow> string \<Rightarrow> bool \<Rightarrow> (string \<Rightarrow> int) \<Rightarrow> (string \<Rightarrow> int)" where
  "count_fetch status writer source selected counts' =
     bump ''fetches'' (bump_if selected ''written''
       (bump_if (source = ''cpu_rom_movsb'') ''cpu_rom_movsb''
       (bump_if (source = ''gdma_rom_same_transfer'') ''gdma_rom''
       (bump_if (writer = ''initial_powerup'') ''initial_powerup''
       (bump_if (writer = ''cpu_exact'') ''cpu_exact'' (bump (status_count status) counts'))))))"

definition fetch_row :: "correlate_options \<Rightarrow> coverage \<Rightarrow> trace_row \<Rightarrow> correlation \<Rightarrow> correlation res" where
  "fetch_row opts coverage r c =
     (let v = t_values r in
      if v ''event'' \<noteq> ''vram'' then Inr c
      else
        rbind (py_int (v ''address'')) (\<lambda>address.
        if address AND 1 \<noteq> 0 \<or> address = 0xFFFF
        then Inl (LineError (t_line r) ''invalid display word address'')
        else
        rbind (py_int (v ''fetch_value'')) (\<lambda>fetch_value.
        rbind (py_int (v ''fetch_collision'')) (\<lambda>collision.
        rbind (iram_index address) (\<lambda>low_index.
        rbind (iram_index (address + 1)) (\<lambda>high_index.
        let low = c_iram c low_index; high = c_iram c high_index;
            (ram_status, writer, source) = summarize_versions low high;
            status = scoreboard_status collision fetch_value low high;
            reconstructed = (case (low, high) of
              (Some l, Some h) \<Rightarrow> CInt (bv_value l OR push_bit 8 (bv_value h)) | _ \<Rightarrow> CText [])
        in
        rbind (byte_fields ''lo'' low) (\<lambda>lo_fields.
        rbind (byte_fields ''hi'' high) (\<lambda>hi_fields.
        let record' = [(''fetch_index'', CInt (c_fetch_index c)), (''cycle'', CInt (row_cycle r)),
              (''role'', CText (v ''role'')), (''address'', CInt address), (''fetch_value'', CInt fetch_value),
              (''fetch_collision'', CInt collision), (''reconstructed_value'', reconstructed),
              (''scoreboard_status'', CText status), (''ram_status'', CText ram_status),
              (''writer_summary'', CText writer), (''source_summary'', CText source),
              (''coverage_status'', CText (coverage_text coverage))] @ lo_fields @ hi_fields;
            selected = fetch_selected opts (v ''role'') address status
        in Inr (c\<lparr>c_counts := count_fetch status writer source selected (c_counts c),
                  c_fetch_index := c_fetch_index c + 1,
                  c_output := (if selected then c_output c @ [record'] else c_output c)\<rparr>)))))))))"

text \<open>One lane of a write; the lanes of a completed IRAM write; the write rows of a cycle.\<close>

definition write_lane :: "trace_row \<Rightarrow> trace_row option \<Rightarrow> int \<Rightarrow> int \<Rightarrow> int \<Rightarrow> nat \<Rightarrow> iram \<Rightarrow> iram res" where
  "write_lane r source address byte_enable value byte_lane ram =
     (if byte_enable AND push_bit byte_lane 1 = 0 then Inr ram
      else let target = address + int byte_lane in
        if target > 0xFFFF then Inl (LineError (t_line r) ''IRAM write crosses 0xffff'')
        else rbind (iram_index target) (\<lambda>index.
          Inr (ram(index := Some \<lparr>bv_value = drop_bit (8 * byte_lane) value AND 0xFF, bv_write = Some r,
                 bv_source = source, bv_lane = source_lane source (int byte_lane)\<rparr>))))"

definition mem_row :: "trace_row \<Rightarrow> correlation \<Rightarrow> correlation res" where
  "mem_row r c =
     (let v = t_values r in
      if v ''event'' \<noteq> ''mem'' then Inr c
      else
        rbind (observe r (c_tracker c)) (\<lambda>(source_read, tr).
        let c = c\<lparr>c_tracker := tr\<rparr> in
        if v ''access'' \<noteq> ''write'' \<or> v ''space'' \<noteq> ''iram'' then Inr c
        else
          rbind (py_int (v ''address'')) (\<lambda>address.
          rbind (py_int (v ''byte_enable'')) (\<lambda>byte_enable.
          rbind (py_int (v ''value'')) (\<lambda>value.
          rbind (fold_res (write_lane r source_read address byte_enable value) [0, 1] (c_iram c)) (\<lambda>ram.
          Inr (c\<lparr>c_iram := ram\<rparr>)))))))"

definition process_cycle :: "correlate_options \<Rightarrow> coverage \<Rightarrow> trace_row list \<Rightarrow> correlation \<Rightarrow> correlation res" where
  "process_cycle opts coverage rows c =
     rbind (fold_res (fetch_row opts coverage) rows c) (fold_res mem_row rows)"

text \<open>
  \<open>iter_rows\<close> feeds \<open>groupby\<close> lazily: a row is checked when it is pulled, and the rows of a cycle
  are processed when the next cycle's first row has been pulled or the file ends.
\<close>

record 's grouping =
  g_previous :: int
  g_rows :: "trace_row list"
  g_state :: 's

definition pull_row :: "(trace_row list \<Rightarrow> 's \<Rightarrow> 's res) \<Rightarrow> int \<times> row \<Rightarrow> 's grouping \<Rightarrow> 's grouping res" where
  "pull_row process numbered g =
     (let (line, values) = numbered in
      case py_int10 (values ''cycle'') of
        None \<Rightarrow> Inl (LineError line ''invalid cycle'')
      | Some cycle \<Rightarrow>
          if cycle < g_previous g then Inl (LineError line ''cycles are not monotonic'')
          else let r = \<lparr>t_line = line, t_values = values\<rparr> in
            if g_rows g = [] \<or> row_cycle (hd (g_rows g)) = cycle
            then Inr (g\<lparr>g_previous := cycle, g_rows := g_rows g @ [r]\<rparr>)
            else rbind (process (g_rows g) (g_state g)) (\<lambda>c.
              Inr \<lparr>g_previous = cycle, g_rows = [r], g_state = c\<rparr>))"

definition final_checks :: "correlate_options \<Rightarrow> (string \<Rightarrow> int) \<Rightarrow> unit res" where
  "final_checks opts counts' =
     (if require_exact_fetches opts \<and>
         list_ex (\<lambda>n. counts' n \<noteq> 0) [''mismatch'', ''collision'', ''partial'', ''unobserved'']
      then Inl (ValueError ''exact display fetches required'')
      else if fail_on_mismatch opts \<and> counts' ''mismatch'' \<noteq> 0
      then Inl (ValueError ''display values disagree with the IRAM scoreboard'')
      else if counts' ''match'' < require_matches opts
      then Inl (ValueError ''required matching display values'')
      else Inr ())"

definition correlation_start :: "iram \<Rightarrow> correlation" where
  "correlation_start ram = \<lparr>c_iram = ram, c_counts = (\<lambda>_. 0), c_tracker = tracker_start,
     c_fetch_index = 0, c_output = []\<rparr>"

definition tracker_counts :: "correlation \<Rightarrow> string \<Rightarrow> int" where
  "tracker_counts c =
     (c_counts c)(''cpu_rom_movsb_bytes'' := cpu_rom_movsb_bytes (c_tracker c),
                  ''cpu_rom_movsb_origins'' := int (card (cpu_rom_movsb_origins (c_tracker c))))"

definition correlate :: "file_system \<Rightarrow> string list \<Rightarrow> manifest_source \<Rightarrow> correlate_options \<Rightarrow>
    string list \<Rightarrow> string list list \<Rightarrow> ((string \<Rightarrow> int) \<times> correlation) res" where
  "correlate fs trace source opts fieldnames records =
     rbind (read_manifest fs trace source) (\<lambda>(coverage, ram).
     if require_complete_coverage opts \<and> coverage \<noteq> CompleteFromReset
     then Inl (ValueError ''trace manifest does not prove complete mem+vram history from reset'')
     else if fieldnames \<notin> {FIELDS_V4, FIELDS_V5, FIELDS_V6}
     then Inl (ValueError ''provenance correlation requires an exact v4/v5/v6 header'')
     else
       rbind (fold_res (pull_row (process_cycle opts coverage)) (numbered_rows fieldnames records)
                \<lparr>g_previous = -1, g_rows = [], g_state = correlation_start ram\<rparr>) (\<lambda>g.
       rbind (process_cycle opts coverage (g_rows g) (g_state g)) (\<lambda>c.
       rbind (final_checks opts (tracker_counts c)) (\<lambda>_. Inr (tracker_counts c, c)))))"

definition role_set :: "string \<Rightarrow> string set res" where
  "role_set value =
     (let result = set (items value)
      in if result = {} \<or> result - VRAM_ROLES \<noteq> {} then Inl (ArgumentTypeError ''invalid display role list'')
         else Inr result)"

definition status_set :: "string \<Rightarrow> string set res" where
  "status_set value =
     (let valid = {''match'', ''mismatch'', ''partial'', ''unobserved'', ''unspecified_collision''};
          result = set (items value)
      in if result = {} \<or> result - valid \<noteq> {} then Inl (ArgumentTypeError ''invalid scoreboard status list'')
         else Inr result)"

definition expected_count :: "string \<Rightarrow> (string \<times> int) res" where
  "expected_count value =
     (case split_first CHR ''='' value of
        None \<Rightarrow> Inl (ArgumentTypeError ''expected count must be NAME=COUNT'')
      | Some (name, count_text) \<Rightarrow>
          (case py_int0 count_text of
             None \<Rightarrow> Inl (ArgumentTypeError ''expected count must be NAME=COUNT'')
           | Some count' \<Rightarrow>
               if name \<notin> set COUNT_NAMES \<or> count' < 0 then Inl (ArgumentTypeError ''invalid expected count'')
               else Inr (name, count')))"

end
