(* ===== verification/Provenance_Facts.thy ===== *)
theory Provenance_Facts
  imports Provenance
begin

unbundle bit_operations_syntax

text \<open>
  What the provenance correlation guarantees
  (\<^verbatim>\<open>sim/verilator/correlate_provenance.py\<close>): the scoreboard is the replay of the trace's IRAM
  writes, every display fetch is counted once, an exact run really saw every displayed word
  written, and a byte with a source holds the byte its source read.
\<close>

section \<open>The cycles of a trace\<close>

fun group_rows :: "trace_row list \<Rightarrow> trace_row list list" where
  "group_rows [] = []"
| "group_rows (r # rs) =
     (case group_rows rs of
        [] \<Rightarrow> [[r]]
      | g # gs \<Rightarrow> if row_cycle (hd g) = row_cycle r then (r # g) # gs else [r] # g # gs)"

lemma group_rows_Cons: "\<exists>g gs. group_rows (r # rs) = (r # g) # gs"
  by (auto split: list.splits)

lemma concat_group_rows: "concat (group_rows rs) = rs"
  by (induction rs) (auto split: list.splits)

lemma group_rows_same:
  assumes "\<forall>x\<in>set g. row_cycle x = k" and "g \<noteq> []"
  shows "group_rows g = [g]"
  using assms
proof (induction g)
  case Nil
  then show ?case by simp
next
  case (Cons x g)
  then show ?case by (cases g) auto
qed

lemma group_rows_split:
  "\<forall>x\<in>set g. row_cycle x = k \<Longrightarrow> g \<noteq> [] \<Longrightarrow> row_cycle r \<noteq> k \<Longrightarrow>
   group_rows (g @ r # rs) = g # group_rows (r # rs)"
proof (induction g)
  case Nil
  then show ?case by simp
next
  case (Cons x g)
  obtain h hs where h: "group_rows (r # rs) = (r # h) # hs" using group_rows_Cons by blast
  show ?case
  proof (cases "g = []")
    case True
    then show ?thesis using Cons.prems h by (simp del: group_rows.simps add: group_rows.simps(2) [of x "r # rs"])
  next
    case False
    then have "group_rows (g @ r # rs) = g # group_rows (r # rs)" using Cons by simp
    moreover have "row_cycle (hd g) = row_cycle x" using False Cons.prems(1) by (cases g) auto
    ultimately show ?thesis by (simp del: group_rows.simps add: group_rows.simps(2) [of x "g @ r # rs"])
  qed
qed

definition trace_row_of :: "int \<times> row \<Rightarrow> trace_row" where
  "trace_row_of numbered = \<lparr>t_line = fst numbered, t_values = snd numbered\<rparr>"

lemma pull_rows_groups:
  assumes "\<And>s. process [] s = Inr s"
  shows "fold_res (pull_row process) rows g = Inr g' \<Longrightarrow> \<forall>x\<in>set (g_rows g). row_cycle x = k \<Longrightarrow>
   process (g_rows g') (g_state g') = Inr c \<Longrightarrow>
   fold_res process (group_rows (g_rows g @ map trace_row_of rows)) (g_state g) = Inr c"
proof (induction rows arbitrary: g k)
  case Nil
  then show ?case
  proof (cases "g_rows g = []")
    case True
    then show ?thesis using Nil assms by simp
  next
    case False
    then show ?thesis using Nil group_rows_same [of "g_rows g" k] by simp
  qed
next
  case (Cons x rows)
  obtain h where h: "pull_row process x g = Inr h" "fold_res (pull_row process) rows h = Inr g'"
    using Cons.prems(1) by (auto simp: res_simps)
  let ?r = "trace_row_of x"
  obtain cycle where cycle: "py_int10 (snd x ''cycle'') = Some cycle"
    using h(1) by (auto simp: pull_row_def split: prod.splits option.splits)
  then have rc: "row_cycle ?r = cycle" by (simp add: row_cycle_def trace_row_of_def field_def)
  show ?case
  proof (cases "g_rows g = [] \<or> row_cycle (hd (g_rows g)) = cycle")
    case True
    then have hg: "g_rows h = g_rows g @ [?r]" "g_state h = g_state g"
      using h(1) cycle by (auto simp: pull_row_def Let_def trace_row_of_def split: prod.splits if_splits)
    have "\<forall>x\<in>set (g_rows h). row_cycle x = cycle"
      using True Cons.prems(2) hg(1) rc by (cases "g_rows g") auto
    from Cons.IH [OF h(2) this Cons.prems(3)] show ?thesis using hg by simp
  next
    case False
    then obtain c1 where c1: "process (g_rows g) (g_state g) = Inr c1"
        "g_rows h = [?r]" "g_state h = c1"
      using h(1) cycle
      by (auto simp: pull_row_def Let_def trace_row_of_def res_simps split: prod.splits if_splits)
    have "\<forall>x\<in>set (g_rows h). row_cycle x = cycle" using c1(2) rc by simp
    from Cons.IH [OF h(2) this Cons.prems(3)]
    have "fold_res process (group_rows (?r # map trace_row_of rows)) c1 = Inr c"
      using c1(2,3) by simp
    moreover have "row_cycle ?r \<noteq> k" using False Cons.prems(2) rc by (cases "g_rows g") auto
    ultimately show ?thesis
      using group_rows_split [of "g_rows g" k ?r "map trace_row_of rows"] Cons.prems(2) False c1(1)
      by simp
  qed
qed

lemma correlate_Inr:
  assumes "correlate fs trace source opts fieldnames records = Inr (counts', c)"
  obtains coverage ram where "read_manifest fs trace source = Inr (coverage, ram)"
    and "fold_res (process_cycle opts coverage)
      (group_rows (map trace_row_of (numbered_rows fieldnames records))) (correlation_start ram) = Inr c"
    and "counts' = tracker_counts c" and "final_checks opts counts' = Inr ()"
    and "require_complete_coverage opts \<Longrightarrow> coverage = CompleteFromReset"
proof -
  obtain coverage ram g where r: "read_manifest fs trace source = Inr (coverage, ram)"
      and g: "fold_res (pull_row (process_cycle opts coverage)) (numbered_rows fieldnames records)
        \<lparr>g_previous = -1, g_rows = [], g_state = correlation_start ram\<rparr> = Inr g"
      and p: "process_cycle opts coverage (g_rows g) (g_state g) = Inr c"
      and f: "counts' = tracker_counts c" "final_checks opts counts' = Inr ()"
      and cov: "require_complete_coverage opts \<Longrightarrow> coverage = CompleteFromReset"
    using assms by (auto simp: correlate_def res_simps)
  have nil: "process_cycle opts coverage [] s = Inr s" for s by (simp add: process_cycle_def)
  from pull_rows_groups [of "process_cycle opts coverage", OF nil g _ p] show thesis
    using that [OF r _ f cov] by simp
qed

section \<open>The scoreboard is the replay of the writes\<close>

text \<open>The reference memory: bytes by address, changed by completed IRAM writes only.\<close>

type_synonym memory = "int \<Rightarrow> int option"

definition wrap_index :: "int \<Rightarrow> int" where
  "wrap_index i = (if i < 0 then i + 0x10000 else i)"

definition store_lane :: "int \<Rightarrow> int \<Rightarrow> int \<Rightarrow> nat \<Rightarrow> memory \<Rightarrow> memory" where
  "store_lane address byte_enable value byte_lane mem =
     (if byte_enable AND push_bit byte_lane 1 = 0 then mem
      else mem(wrap_index (address + int byte_lane) := Some (drop_bit (8 * byte_lane) value AND 0xFF)))"

definition replay_row :: "trace_row \<Rightarrow> memory \<Rightarrow> memory" where
  "replay_row r mem =
     (let v = t_values r in
      if v ''event'' = ''mem'' \<and> v ''access'' = ''write'' \<and> v ''space'' = ''iram''
      then fold (store_lane (field v ''address'') (field v ''byte_enable'') (field v ''value'')) [0, 1] mem
      else mem)"

definition values_of :: "iram \<Rightarrow> memory" where
  "values_of ram i = map_option bv_value (ram i)"

lemma iram_index_Inr [res_simps]: "iram_index i = Inr j \<longleftrightarrow> - 0x10000 \<le> i \<and> i < 0x10000 \<and> j = wrap_index i"
  by (auto simp: iram_index_def wrap_index_def)

lemma write_lane_values:
  assumes "write_lane r source address byte_enable value byte_lane ram = Inr ram'"
  shows "values_of ram' = store_lane address byte_enable value byte_lane (values_of ram)"
  using assms
  by (auto simp: write_lane_def store_lane_def values_of_def res_simps Let_def split: if_splits)

lemma mem_row_step:
  assumes "mem_row r c = Inr c'"
  shows "values_of (c_iram c') = replay_row r (values_of (c_iram c)) \<and>
    c_counts c' = c_counts c \<and> c_output c' = c_output c \<and> c_fetch_index c' = c_fetch_index c"
proof -
  consider "t_values r ''event'' \<noteq> ''mem''" | "t_values r ''event'' = ''mem''" by blast
  then show ?thesis
  proof cases
    case 1
    then show ?thesis using assms by (simp add: mem_row_def replay_row_def)
  next
    case 2
    then obtain source tr where o: "observe r (c_tracker c) = Inr (source, tr)"
      using assms by (cases "observe r (c_tracker c)") (auto simp: mem_row_def Let_def)
    show ?thesis
    proof (cases "t_values r ''access'' = ''write'' \<and> t_values r ''space'' = ''iram''")
      case False
      then show ?thesis using assms 2 o by (auto simp: mem_row_def replay_row_def Let_def)
    next
      case True
      with assms 2 o obtain address byte_enable w0 ram where w:
          "py_int10 (t_values r ''address'') = Some address" "py_int10 (t_values r ''byte_enable'') = Some byte_enable"
          "py_int10 (t_values r ''value'') = Some w0"
          "fold_res (write_lane r source address byte_enable w0) [0, 1] (c_iram c) = Inr ram"
          "c' = c\<lparr>c_tracker := tr, c_iram := ram\<rparr>"
        by (auto simp: mem_row_def Let_def res_simps simp del: fold_res.simps)
      have "values_of ram = fold (store_lane address byte_enable w0) [0, 1] (values_of (c_iram c))"
        by (rule fold_res_simulation [OF _ _ w(4), of "\<lambda>s t. values_of s = t"])
          (simp_all add: write_lane_values)
      then show ?thesis using w 2 True by (simp add: replay_row_def field_def)
    qed
  qed
qed

section \<open>Every display fetch is counted once\<close>

definition OUTCOMES :: "string list" where
  "OUTCOMES = [''match'', ''mismatch'', ''partial'', ''unobserved'', ''collision'']"

definition outcome :: "iram \<Rightarrow> trace_row \<Rightarrow> string" where
  "outcome ram r =
     (let v = t_values r; a = field v ''address'' in
      status_count (scoreboard_status (field v ''fetch_collision'') (field v ''fetch_value'')
        (ram (wrap_index a)) (ram (wrap_index (a + 1)))))"

lemma outcome_names: "outcome ram r \<in> set OUTCOMES"
  by (auto simp: outcome_def scoreboard_status_def status_count_def OUTCOMES_def Let_def split: option.splits)

lemma bump_apply: "bump m cs n = cs n + (if n = m then 1 else 0)"
  "bump_if b m cs n = cs n + (if b \<and> n = m then 1 else 0)"
  by (simp_all add: bump_def bump_if_def)

lemma count_fetch_values:
  assumes "status_count status \<in> set OUTCOMES"
  shows "n \<in> set OUTCOMES \<Longrightarrow>
      count_fetch status writer source selected cs n = cs n + (if n = status_count status then 1 else 0)"
    and "count_fetch status writer source selected cs ''fetches'' = cs ''fetches'' + 1"
    and "count_fetch status writer source selected cs ''written'' = cs ''written'' + (if selected then 1 else 0)"
proof -
  have other: "''fetches'' \<noteq> status_count status" "''written'' \<noteq> status_count status"
    using assms by (auto simp: OUTCOMES_def)
  show "count_fetch status writer source selected cs n = cs n + (if n = status_count status then 1 else 0)"
    if "n \<in> set OUTCOMES"
    using that unfolding OUTCOMES_def count_fetch_def bump_apply by fastforce
  show "count_fetch status writer source selected cs ''fetches'' = cs ''fetches'' + 1"
    using other unfolding count_fetch_def bump_apply by simp
  show "count_fetch status writer source selected cs ''written'' = cs ''written'' + (if selected then 1 else 0)"
    using other unfolding count_fetch_def bump_apply by simp
qed

lemma fetch_row_vram:
  assumes "fetch_row opts coverage r c = Inr c'" and "t_values r ''event'' = ''vram''"
  shows "c_iram c' = c_iram c \<and> c_tracker c' = c_tracker c \<and> c_fetch_index c' = c_fetch_index c + 1 \<and>
    c_counts c' ''fetches'' = c_counts c ''fetches'' + 1 \<and>
    (\<forall>n\<in>set OUTCOMES. c_counts c' n = c_counts c n + (if n = outcome (c_iram c) r then 1 else 0)) \<and>
    c_counts c' ''written'' - c_counts c ''written'' = int (length (c_output c')) - int (length (c_output c)) \<and>
    length (c_output c) \<le> length (c_output c') \<and> length (c_output c') \<le> length (c_output c) + 1 \<and>
    py_int10 (t_values r ''address'') \<noteq> None \<and> py_int10 (t_values r ''fetch_value'') \<noteq> None \<and>
    py_int10 (t_values r ''fetch_collision'') \<noteq> None"
proof -
  obtain address fetch collision where p: "py_int10 (t_values r ''address'') = Some address"
      "py_int10 (t_values r ''fetch_value'') = Some fetch" "py_int10 (t_values r ''fetch_collision'') = Some collision"
    using assms by (auto simp: fetch_row_def Let_def res_simps split: if_splits)
  let ?low = "c_iram c (wrap_index address)" and ?high = "c_iram c (wrap_index (address + 1))"
  let ?status = "scoreboard_status collision fetch ?low ?high"
  obtain ram_status writer source where s: "summarize_versions ?low ?high = (ram_status, writer, source)"
    by (cases "summarize_versions ?low ?high")
  have out: "outcome (c_iram c) r = status_count ?status"
    using p by (simp add: outcome_def field_def Let_def)
  let ?sel = "fetch_selected opts (t_values r ''role'') address ?status"
  from assms p s obtain rec where c': "c' = c\<lparr>c_counts := count_fetch ?status writer source ?sel (c_counts c),
                  c_fetch_index := c_fetch_index c + 1,
                  c_output := (if ?sel then c_output c @ [rec] else c_output c)\<rparr>"
    unfolding fetch_row_def Let_def
    apply (simp only: res_simps prod.case if_Inl_eq_Inr not_not simp_thms if_False)
    apply (clarsimp simp: s res_simps split del: if_split)
    done
  have "status_count ?status \<in> set OUTCOMES" using outcome_names [of "c_iram c" r] unfolding out .
  note counted = count_fetch_values [OF this]
  show ?thesis
    unfolding c' out by (simp add: counted p)
qed

definition counts_ok :: "correlation \<Rightarrow> bool" where
  "counts_ok c \<longleftrightarrow> c_counts c ''fetches'' = sum_list (map (c_counts c) OUTCOMES) \<and>
     c_fetch_index c = c_counts c ''fetches'' \<and> c_counts c ''written'' = int (length (c_output c)) \<and>
     c_counts c ''written'' \<le> c_counts c ''fetches'' \<and> list_all (\<lambda>n. 0 \<le> c_counts c n) OUTCOMES"

lemma sum_outcomes: "n \<in> set OUTCOMES \<Longrightarrow> sum_list (map (\<lambda>m. if m = n then 1 else 0 :: int) OUTCOMES) = 1"
  by (auto simp: OUTCOMES_def)

lemma fetch_row_counts:
  assumes "counts_ok c" and "fetch_row opts coverage r c = Inr c'"
  shows "counts_ok c'"
proof (cases "t_values r ''event'' = ''vram''")
  case False
  then show ?thesis using assms by (simp add: fetch_row_def)
next
  case True
  note f = fetch_row_vram [OF assms(2) True]
  have "map (c_counts c') OUTCOMES = map (\<lambda>n. c_counts c n + (if n = outcome (c_iram c) r then 1 else 0)) OUTCOMES"
    using f by (intro map_cong) auto
  then have "sum_list (map (c_counts c') OUTCOMES) =
      sum_list (map (\<lambda>n. c_counts c n + (if n = outcome (c_iram c) r then 1 else 0)) OUTCOMES)" by (rule arg_cong)
  also have "\<dots> = sum_list (map (c_counts c) OUTCOMES) + 1"
    unfolding sum_list_addf sum_outcomes [OF outcome_names] ..
  finally have "sum_list (map (c_counts c') OUTCOMES) = sum_list (map (c_counts c) OUTCOMES) + 1" .
  then show ?thesis using assms(1) f by (auto simp: counts_ok_def list_all_iff)
qed

interpretation fetches: res_machine "fetch_row opts coverage" counts_ok for opts coverage
  by unfold_locales (rule fetch_row_counts)

interpretation mem_rows: res_machine mem_row counts_ok
  by unfold_locales (simp add: counts_ok_def mem_row_step)

interpretation cycles: res_machine "process_cycle opts coverage" counts_ok for opts coverage
  by unfold_locales (auto simp: process_cycle_def res_simps dest: fetches.run_inv mem_rows.run_inv)

section \<open>Exact fetches\<close>

text \<open>What a display fetch reads from the reference memory, and a trace all of whose fetches agree.\<close>

definition fetch_agrees :: "memory \<Rightarrow> trace_row \<Rightarrow> bool" where
  "fetch_agrees mem r \<longleftrightarrow>
     (let v = t_values r; a = field v ''address'' in
      v ''event'' = ''vram'' \<longrightarrow>
        field v ''fetch_collision'' = 0 \<and>
        (case (mem (wrap_index a), mem (wrap_index (a + 1))) of
           (Some low, Some high) \<Rightarrow> field v ''fetch_value'' = low OR push_bit 8 high
         | _ \<Rightarrow> False))"

fun cycles_agree :: "memory \<Rightarrow> trace_row list list \<Rightarrow> bool" where
  "cycles_agree mem [] \<longleftrightarrow> True"
| "cycles_agree mem (g # gs) \<longleftrightarrow> list_all (fetch_agrees mem) g \<and> cycles_agree (fold replay_row g mem) gs"

definition uncertain :: "correlation \<Rightarrow> int" where
  "uncertain c = c_counts c ''mismatch'' + c_counts c ''partial'' + c_counts c ''unobserved'' + c_counts c ''collision''"

lemma outcome_match:
  assumes "t_values r ''event'' = ''vram''"
  shows "outcome ram r = ''match'' \<longleftrightarrow> fetch_agrees (values_of ram) r"
  using assms
  by (auto simp: outcome_def fetch_agrees_def status_count_def scoreboard_status_def values_of_def Let_def
      split: option.splits)

lemma fetch_row_uncertain:
  assumes "fetch_row opts coverage r c = Inr c'"
  shows "uncertain c' = uncertain c + (if fetch_agrees (values_of (c_iram c)) r then 0 else 1) \<and> c_iram c' = c_iram c"
proof (cases "t_values r ''event'' = ''vram''")
  case False
  then show ?thesis using assms by (simp add: fetch_row_def fetch_agrees_def Let_def)
next
  case True
  note f = fetch_row_vram [OF assms True]
  define x where "x = outcome (c_iram c) r"
  have m: "fetch_agrees (values_of (c_iram c)) r \<longleftrightarrow> x = ''match''"
    using outcome_match [OF True, of "c_iram c"] by (simp add: x_def)
  have e: "c_counts c' n = c_counts c n + (if n = x then 1 else 0)" if "n \<in> set OUTCOMES" for n
    using f that by (simp add: x_def)
  have names: "''mismatch'' \<in> set OUTCOMES" "''partial'' \<in> set OUTCOMES" "''unobserved'' \<in> set OUTCOMES"
      "''collision'' \<in> set OUTCOMES" by (simp_all add: OUTCOMES_def)
  have "x \<in> {''match'', ''mismatch'', ''partial'', ''unobserved'', ''collision''}"
    using outcome_names [of "c_iram c" r] by (simp add: x_def OUTCOMES_def)
  then show ?thesis
    unfolding m uncertain_def names [THEN e] using f by (elim insertE emptyE) simp_all
qed

lemma fetch_rows_uncertain:
  "fold_res (fetch_row opts coverage) rows c = Inr c' \<Longrightarrow>
   c_iram c' = c_iram c \<and> uncertain c \<le> uncertain c' \<and>
   (uncertain c' = uncertain c \<longrightarrow> list_all (fetch_agrees (values_of (c_iram c))) rows)"
proof (induction rows arbitrary: c)
  case Nil
  then show ?case by simp
next
  case (Cons r rows)
  then obtain d where d: "fetch_row opts coverage r c = Inr d" "fold_res (fetch_row opts coverage) rows d = Inr c'"
    by (auto simp: res_simps)
  show ?case using Cons.IH [OF d(2)] fetch_row_uncertain [OF d(1)] by (auto split: if_splits)
qed

lemma mem_rows_replay:
  "fold_res mem_row rows c = Inr c' \<Longrightarrow>
   values_of (c_iram c') = fold replay_row rows (values_of (c_iram c)) \<and> uncertain c' = uncertain c"
proof (induction rows arbitrary: c)
  case Nil
  then show ?case by simp
next
  case (Cons r rows)
  then obtain d where d: "mem_row r c = Inr d" "fold_res mem_row rows d = Inr c'" by (auto simp: res_simps)
  show ?case using Cons.IH [OF d(2)] mem_row_step [OF d(1)] by (simp add: uncertain_def)
qed

lemma process_cycle_step:
  assumes "process_cycle opts coverage rows c = Inr c'"
  shows "values_of (c_iram c') = fold replay_row rows (values_of (c_iram c)) \<and> uncertain c \<le> uncertain c' \<and>
   (uncertain c' = uncertain c \<longrightarrow> list_all (fetch_agrees (values_of (c_iram c))) rows)"
proof -
  obtain d where d: "fold_res (fetch_row opts coverage) rows c = Inr d" "fold_res mem_row rows d = Inr c'"
    using assms by (auto simp: process_cycle_def res_simps)
  show ?thesis using fetch_rows_uncertain [OF d(1)] mem_rows_replay [OF d(2)] by simp
qed

lemma cycles_replay:
  "fold_res (process_cycle opts coverage) groups c = Inr c' \<Longrightarrow>
   values_of (c_iram c') = fold replay_row (concat groups) (values_of (c_iram c)) \<and> uncertain c \<le> uncertain c' \<and>
   (uncertain c' = uncertain c \<longrightarrow> cycles_agree (values_of (c_iram c)) groups)"
proof (induction groups arbitrary: c)
  case Nil
  then show ?case by simp
next
  case (Cons g groups)
  then obtain d where d: "process_cycle opts coverage g c = Inr d"
      "fold_res (process_cycle opts coverage) groups d = Inr c'" by (auto simp: res_simps)
  show ?case using Cons.IH [OF d(2)] process_cycle_step [OF d(1)] by auto
qed

section \<open>Sources are real\<close>

text \<open>
  What a recorded source says: it is a read, by DMA or of cartridge ROM by the CPU, and the byte
  is the byte of its value at the recorded lane.
\<close>

definition source_read_ok :: "trace_row \<Rightarrow> bool" where
  "source_read_ok s \<longleftrightarrow> t_values s ''access'' = ''read'' \<and>
     (t_values s ''initiator'' = ''gdma'' \<or>
      t_values s ''initiator'' = ''cpu'' \<and> t_values s ''space'' \<in> ROM_SPACES)"

definition byte_sourced :: "byte_version \<Rightarrow> bool" where
  "byte_sourced v \<longleftrightarrow>
     (case bv_source v of
        None \<Rightarrow> True
      | Some s \<Rightarrow> source_read_ok s \<and>
          (case (bv_lane v, py_int10 (t_values s ''value'')) of
             (Some l, Some read_value) \<Rightarrow> l \<in> {0, 1} \<and> bv_value v = drop_bit (8 * nat l) read_value AND 0xFF
           | _ \<Rightarrow> False))"

definition tracker_ok :: "tracker \<Rightarrow> bool" where
  "tracker_ok tr \<longleftrightarrow>
     (case pending_gdma_read tr of None \<Rightarrow> True | Some s \<Rightarrow> t_values s ''access'' = ''read'' \<and> t_values s ''initiator'' = ''gdma'') \<and>
     (case pending_cpu_read tr of None \<Rightarrow> True | Some s \<Rightarrow> t_values s ''access'' = ''read'' \<and>
        t_values s ''initiator'' = ''cpu'' \<and> t_values s ''space'' \<in> ROM_SPACES)"

definition sources_ok :: "correlation \<Rightarrow> bool" where
  "sources_ok c \<longleftrightarrow> tracker_ok (c_tracker c) \<and>
     (\<forall>i. case c_iram c i of None \<Rightarrow> True | Some v \<Rightarrow> byte_sourced v)"

lemma remember_pending:
  "remember_opcode_signature r tr = Inr tr' \<Longrightarrow>
   pending_gdma_read tr' = pending_gdma_read tr \<and> pending_cpu_read tr' = pending_cpu_read tr"
  by (auto simp: remember_opcode_signature_def Let_def res_simps split: if_splits)

lemma is_rep_pending:
  assumes "is_rep_movsb_read r i tr = (b, tr')"
  shows "pending_gdma_read tr' = pending_gdma_read tr \<and> pending_cpu_read tr' = pending_cpu_read tr \<and>
    (b \<longrightarrow> t_values r ''access'' = ''read'' \<and> t_values r ''space'' \<in> ROM_SPACES)"
  using assms by (auto simp: is_rep_movsb_read_def Let_def split: if_splits option.splits)

text \<open>A source returned for a write: DMA with the same value text, or a CPU byte with the same low byte.\<close>

definition pairs_with :: "trace_row \<Rightarrow> trace_row \<Rightarrow> bool" where
  "pairs_with s r \<longleftrightarrow> source_read_ok s \<and>
     (t_values s ''initiator'' = ''gdma'' \<and> t_values s ''value'' = t_values r ''value'' \<or>
      t_values s ''initiator'' = ''cpu'' \<and> t_values r ''byte_enable'' = ''1'' \<and>
        (case (py_int10 (t_values s ''value''), py_int10 (t_values r ''value'')) of
           (Some a, Some b) \<Rightarrow> a AND 0xFF = b | _ \<Rightarrow> False))"

lemma observe_rest_pairs:
  assumes "observe_rest r identity tr = Inr (source, tr')" and "tracker_ok tr" and "pending_cpu_read tr = None"
  shows "tracker_ok tr' \<and> (case source of None \<Rightarrow> True | Some s \<Rightarrow> pairs_with s r)"
proof -
  consider (gdma) "t_values r ''initiator'' = ''gdma''" | (cpu) "t_values r ''initiator'' = ''cpu''"
    | (other) "t_values r ''initiator'' \<noteq> ''gdma''" "t_values r ''initiator'' \<noteq> ''cpu''" by blast
  then show ?thesis
  proof cases
    case gdma
    then show ?thesis
      using assms
      by (auto simp: observe_rest_def Let_def retire_cpu_chain_def tracker_ok_def pairs_with_def source_read_ok_def
          split: if_splits option.splits)
  next
    case other
    then show ?thesis using assms by (auto simp: observe_rest_def Let_def retire_cpu_chain_def tracker_ok_def)
  next
    case cpu
    then obtain tr1 where tr1: "remember_opcode_signature r tr = Inr tr1"
      using assms(1) by (auto simp: observe_rest_def Let_def res_simps)
    note p1 = remember_pending [OF tr1]
    show ?thesis
    proof (cases identity)
      case None
      then show ?thesis using assms cpu tr1 p1
        by (auto simp: observe_rest_def Let_def retire_cpu_chain_def tracker_ok_def)
    next
      case (Some i)
      define tr2 where "tr2 = (if active_rep_identity tr1 \<noteq> None \<and> active_rep_identity tr1 \<noteq> Some i
        then retire_cpu_chain tr1 else tr1)"
      have p2: "pending_gdma_read tr2 = pending_gdma_read tr" "pending_cpu_read tr2 = None"
        using p1 assms(3) by (auto simp: tr2_def retire_cpu_chain_def)
      obtain b tr3 where tr3: "is_rep_movsb_read r i tr2 = (b, tr3)" by fastforce
      note p3 = is_rep_pending [OF tr3]
      have "source = None \<and> tr' = (if b then tr3\<lparr>pending_cpu_read := Some r\<rparr> else retire_cpu_chain tr3)"
      proof -
        have "observe_rest r identity tr = (case is_rep_movsb_read r i tr2 of (accepted, tr) \<Rightarrow>
            if accepted then Inr (None, tr\<lparr>pending_cpu_read := Some r\<rparr>) else Inr (None, retire_cpu_chain tr))"
          by (simp add: observe_rest_def Let_def cpu tr1 Some tr2_def split del: if_split)
        then show ?thesis using assms(1) tr3 by (auto split: if_splits)
      qed
      then show ?thesis
        using p2 p3 assms(2) cpu by (auto simp: tracker_ok_def retire_cpu_chain_def)
    qed
  qed
qed

lemma observe_pairs:
  assumes "observe r tr = Inr (source, tr')" and "tracker_ok tr"
  shows "tracker_ok tr' \<and> (case source of None \<Rightarrow> True | Some s \<Rightarrow> pairs_with s r)"
proof -
  let ?tr = "tr\<lparr>pending_cpu_read := None\<rparr>"
  let ?identity = "if t_values r ''initiator'' = ''cpu'' then row_identity r else None"
  have ok: "tracker_ok ?tr" "tracker_ok (retire_cpu_chain ?tr)" "pending_cpu_read ?tr = None"
      "pending_cpu_read (retire_cpu_chain ?tr) = None"
    using assms(2) by (auto simp: tracker_ok_def retire_cpu_chain_def)
  show ?thesis
  proof (cases "pending_cpu_read tr")
    case None
    then have "observe_rest r ?identity ?tr = Inr (source, tr')"
      using assms(1) by (simp add: observe_def Let_def)
    then show ?thesis using observe_rest_pairs ok by blast
  next
    case (Some s)
    let ?match = "case ?identity of None \<Rightarrow> Inr False
      | Some i \<Rightarrow> if active_rep_identity ?tr = Some i then matches_cpu_byte_write s r i else Inr False"
    obtain m where m: "?match = Inr m"
      and rest: "(if m then Inr (Some s, ?tr\<lparr>cpu_rom_movsb_bytes := cpu_rom_movsb_bytes ?tr + 1,
          cpu_rom_movsb_origins := insert (snd (the ?identity)) (cpu_rom_movsb_origins ?tr),
          active_rep_last_cycle := Some (row_cycle r)\<rparr>) else observe_rest r ?identity (retire_cpu_chain ?tr)) = Inr (source, tr')"
      using assms(1) Some unfolding observe_def Let_def by (auto simp: rbind_eq_Inr)
    show ?thesis
    proof (cases m)
      case False
      then show ?thesis using rest observe_rest_pairs ok by simp
    next
      case True
      then have eq: "source = Some s" and trk: "tracker_ok tr'"
        using rest ok by (auto simp: tracker_ok_def)
      obtain i where "matches_cpu_byte_write s r i = Inr True"
        using m True by (auto split: option.splits if_splits)
      then have "t_values r ''byte_enable'' = ''1'' \<and>
          (case (py_int10 (t_values s ''value''), py_int10 (t_values r ''value'')) of
             (Some a, Some b) \<Rightarrow> a AND 0xFF = b | _ \<Rightarrow> False)"
        unfolding matches_cpu_byte_write_def Let_def by (auto simp: res_simps split: if_splits)
      then show ?thesis
        using eq trk assms(2) Some by (simp add: pairs_with_def source_read_ok_def tracker_ok_def)
    qed
  qed
qed

lemma py_int10_one: "py_int10 ''1'' = Some 1"
  by code_simp

lemma int_and_byte [simp]: "(x AND 0xFF) AND 0xFF = (x AND 0xFF :: int)"
  by (simp add: and.assoc)

lemma write_lane_sourced:
  assumes "write_lane r source address byte_enable w0 byte_lane ram = Inr ram'"
    and "\<forall>i. case ram i of None \<Rightarrow> True | Some v \<Rightarrow> byte_sourced v"
    and "case source of None \<Rightarrow> True | Some s \<Rightarrow> pairs_with s r"
    and "py_int10 (t_values r ''byte_enable'') = Some byte_enable" and "py_int10 (t_values r ''value'') = Some w0"
    and "byte_lane \<in> {0, 1}"
  shows "\<forall>i. case ram' i of None \<Rightarrow> True | Some v \<Rightarrow> byte_sourced v"
proof (cases "byte_enable AND push_bit byte_lane 1 = 0")
  case True
  then show ?thesis using assms(1,2) by (simp add: write_lane_def)
next
  case False
  let ?v = "\<lparr>bv_value = drop_bit (8 * byte_lane) w0 AND 0xFF, bv_write = Some r, bv_source = source,
      bv_lane = source_lane source (int byte_lane)\<rparr>"
  have "byte_sourced ?v"
  proof (cases source)
    case None
    then show ?thesis by (simp add: byte_sourced_def)
  next
    case (Some s)
    then have p: "pairs_with s r" using assms(3) by simp
    show ?thesis
    proof (cases "t_values s ''initiator'' = ''cpu''")
      case True
      with p obtain a where a: "py_int10 (t_values s ''value'') = Some a" "a AND 0xFF = w0"
          "t_values r ''byte_enable'' = ''1''"
        using assms(5) by (auto simp: pairs_with_def split: option.splits)
      then have "byte_enable = 1" using assms(4) py_int10_one by simp
      then have "byte_lane = 0" using False assms(6) by auto
      then show ?thesis using p a True Some
        by (auto simp: byte_sourced_def source_lane_def pairs_with_def and.assoc)
    next
      case False
      then have "t_values s ''value'' = t_values r ''value''" using p by (auto simp: pairs_with_def)
      then show ?thesis using p False Some assms(5,6)
        by (auto simp: byte_sourced_def source_lane_def pairs_with_def)
    qed
  qed
  moreover obtain index where "ram' = ram(index := Some ?v)"
    using assms(1) False by (auto simp: write_lane_def Let_def res_simps split: if_splits)
  ultimately show ?thesis using assms(2) by simp
qed

lemma mem_row_sourced:
  assumes "sources_ok c" and "mem_row r c = Inr c'"
  shows "sources_ok c'"
proof (cases "t_values r ''event'' = ''mem''")
  case False
  then show ?thesis using assms by (simp add: mem_row_def)
next
  case mem: True
  then obtain source tr where o: "observe r (c_tracker c) = Inr (source, tr)"
    using assms by (cases "observe r (c_tracker c)") (auto simp: mem_row_def Let_def)
  have trk: "tracker_ok tr" and src: "case source of None \<Rightarrow> True | Some s \<Rightarrow> pairs_with s r"
    using observe_pairs [OF o] assms(1) by (auto simp: sources_ok_def)
  show ?thesis
  proof (cases "t_values r ''access'' = ''write'' \<and> t_values r ''space'' = ''iram''")
    case False
    then show ?thesis using assms mem o trk by (auto simp: mem_row_def Let_def sources_ok_def)
  next
    case True
    with assms mem o obtain address byte_enable w0 ram where w:
        "py_int10 (t_values r ''byte_enable'') = Some byte_enable" "py_int10 (t_values r ''value'') = Some w0"
        "fold_res (write_lane r source address byte_enable w0) [0, 1] (c_iram c) = Inr ram"
        "c' = c\<lparr>c_tracker := tr, c_iram := ram\<rparr>"
      by (auto simp: mem_row_def Let_def res_simps simp del: fold_res.simps)
    obtain ram1 where r1: "write_lane r source address byte_enable w0 0 (c_iram c) = Inr ram1"
        "write_lane r source address byte_enable w0 1 ram1 = Inr ram"
      using w(3) by (auto simp: res_simps)
    have "\<forall>i. case c_iram c i of None \<Rightarrow> True | Some v \<Rightarrow> byte_sourced v"
      using assms(1) by (simp add: sources_ok_def)
    from write_lane_sourced [OF r1(1) this src w(1,2)]
    have "\<forall>i. case ram1 i of None \<Rightarrow> True | Some v \<Rightarrow> byte_sourced v" by simp
    from write_lane_sourced [OF r1(2) this src w(1,2)] show ?thesis
      using trk w(4) by (simp add: sources_ok_def)
  qed
qed

lemma fetch_row_keeps: "fetch_row opts coverage r c = Inr c' \<Longrightarrow> c_iram c' = c_iram c \<and> c_tracker c' = c_tracker c"
  using fetch_row_vram [of opts coverage r c c'] by (cases "t_values r ''event'' = ''vram''") (auto simp: fetch_row_def)

interpretation sourced_fetches: res_machine "fetch_row opts coverage" sources_ok for opts coverage
  by unfold_locales (simp add: sources_ok_def fetch_row_keeps)

interpretation sourced_mem_rows: res_machine mem_row sources_ok
  by unfold_locales (rule mem_row_sourced)

interpretation sourced_cycles: res_machine "process_cycle opts coverage" sources_ok for opts coverage
  by unfold_locales (auto simp: process_cycle_def res_simps dest: sourced_fetches.run_inv sourced_mem_rows.run_inv)

lemma read_manifest_ram:
  "read_manifest fs trace source = Inr (coverage, ram) \<Longrightarrow>
   ram = (if coverage = CompleteFromReset then (\<lambda>_. Some POWERUP_ZERO) else (\<lambda>_. None))"
  by (auto simp: read_manifest_def Let_def res_simps split: manifest_source.splits if_splits)

end
