(* ===== verification/Provenance_Results.thy ===== *)
theory Provenance_Results
  imports Provenance_Facts
begin

unbundle bit_operations_syntax

text \<open>
  What a provenance correlation that succeeds shows (\<^verbatim>\<open>sim/verilator/correlate_provenance.py\<close>),
  and a small trace on which it does.
\<close>

section \<open>What a correlation that succeeds shows\<close>

definition display_fetch :: "trace_row \<Rightarrow> bool" where
  "display_fetch r \<longleftrightarrow> t_values r ''event'' = ''vram''"

lemma fetch_rows_number:
  "fold_res (fetch_row opts coverage) rows c = Inr c' \<Longrightarrow>
   c_counts c' ''fetches'' = c_counts c ''fetches'' + int (length (filter display_fetch rows))"
proof (induction rows arbitrary: c)
  case Nil
  then show ?case by simp
next
  case (Cons r rows)
  then obtain d where d: "fetch_row opts coverage r c = Inr d" "fold_res (fetch_row opts coverage) rows d = Inr c'"
    by (auto simp: res_simps)
  show ?case
  proof (cases "display_fetch r")
    case True
    then show ?thesis using Cons.IH [OF d(2)] fetch_row_vram [OF d(1)] by (simp add: display_fetch_def)
  next
    case False
    then show ?thesis using Cons.IH [OF d(2)] d(1) by (simp add: display_fetch_def fetch_row_def)
  qed
qed

lemma mem_rows_counts: "fold_res mem_row rows c = Inr c' \<Longrightarrow> c_counts c' = c_counts c"
proof (induction rows arbitrary: c)
  case (Cons r rows)
  then obtain d where d: "mem_row r c = Inr d" "fold_res mem_row rows d = Inr c'" by (auto simp: res_simps)
  show ?case using Cons.IH [OF d(2)] mem_row_step [OF d(1)] by simp
qed simp

lemma cycles_number:
  "fold_res (process_cycle opts coverage) groups c = Inr c' \<Longrightarrow>
   c_counts c' ''fetches'' = c_counts c ''fetches'' + int (length (filter display_fetch (concat groups)))"
proof (induction groups arbitrary: c)
  case Nil
  then show ?case by simp
next
  case (Cons g groups)
  then obtain d e where d: "fold_res (fetch_row opts coverage) g c = Inr e" "fold_res mem_row g e = Inr d"
      "fold_res (process_cycle opts coverage) groups d = Inr c'"
    using Cons.prems by (simp add: rbind_eq_Inr) (auto simp: process_cycle_def [of _ _ g] rbind_eq_Inr)
  show ?case using Cons.IH [OF d(3)] fetch_rows_number [OF d(1)] mem_rows_counts [OF d(2)] by simp
qed

definition trace_rows_of :: "string list \<Rightarrow> string list list \<Rightarrow> trace_row list" where
  "trace_rows_of fieldnames records = map trace_row_of (numbered_rows fieldnames records)"

text \<open>
  Every display fetch of the trace is counted exactly once. A run that succeeds counts as
  fetches the display rows of the trace, each of them under exactly one of match, mismatch,
  partial, unobserved and collision, and the rows it writes out are counted and no more than those.
\<close>

theorem fetches_partitioned:
  assumes "correlate fs trace source opts fieldnames records = Inr (counts', c)"
  shows "counts' ''fetches'' = int (length (filter display_fetch (trace_rows_of fieldnames records))) \<and>
    counts' ''fetches'' = sum_list (map counts' OUTCOMES) \<and> list_all (\<lambda>n. 0 \<le> counts' n) OUTCOMES \<and>
    counts' ''written'' = int (length (c_output c)) \<and> counts' ''written'' \<le> counts' ''fetches''"
proof -
  obtain coverage ram where run: "fold_res (process_cycle opts coverage)
      (group_rows (trace_rows_of fieldnames records)) (correlation_start ram) = Inr c"
      and eq: "counts' = tracker_counts c" using correlate_Inr [OF assms] unfolding trace_rows_of_def by metis
  have start: "counts_ok (correlation_start ram)" by (simp add: counts_ok_def correlation_start_def OUTCOMES_def)
  have other: "counts' n = c_counts c n" if "n \<in> {''fetches'', ''written''} \<union> set OUTCOMES" for n
    using that by (auto simp: eq tracker_counts_def OUTCOMES_def)
  have outs: "map counts' OUTCOMES = map (c_counts c) OUTCOMES" using other by (intro map_cong) auto
  show ?thesis
    using cycles.run_inv [OF start run] cycles_number [OF run] other
    unfolding outs by (simp add: counts_ok_def correlation_start_def concat_group_rows list_all_iff)
qed

text \<open>
  C14: The scoreboard is the replay of the trace. After a run that succeeds the byte values of the
  scoreboard are those of the initial memory (all zero if the manifest proves the history complete
  from reset, unknown otherwise) after the completed IRAM writes of all rows, applied in order.
\<close>

theorem scoreboard_replays_writes:
  assumes "correlate fs trace source opts fieldnames records = Inr (counts', c)"
  shows "\<exists>coverage ram. read_manifest fs trace source = Inr (coverage, ram) \<and>
    values_of ram = (\<lambda>_. if coverage = CompleteFromReset then Some 0 else None) \<and>
    values_of (c_iram c) = fold replay_row (trace_rows_of fieldnames records) (values_of ram)"
proof -
  obtain coverage ram where m: "read_manifest fs trace source = Inr (coverage, ram)"
      and run: "fold_res (process_cycle opts coverage)
      (group_rows (trace_rows_of fieldnames records)) (correlation_start ram) = Inr c"
    using correlate_Inr [OF assms] unfolding trace_rows_of_def by metis
  have "values_of ram = (\<lambda>_. if coverage = CompleteFromReset then Some 0 else None)"
    using read_manifest_ram [OF m] by (auto simp: values_of_def POWERUP_ZERO_def)
  then show ?thesis
    using m cycles_replay [OF run] by (simp add: correlation_start_def concat_group_rows)
qed

text \<open>
  C13: An exact run saw what the display showed. If a run that requires exact fetches succeeds,
  every display fetch of every cycle, collisions excluded, returned the word that the writes of the
  earlier cycles had left at its address: no fetch read memory whose content was not observed.
\<close>

theorem exact_run_agrees:
  assumes "correlate fs trace source opts fieldnames records = Inr (counts', c)" and "require_exact_fetches opts"
  shows "\<exists>coverage ram. read_manifest fs trace source = Inr (coverage, ram) \<and>
    (require_complete_coverage opts \<longrightarrow> values_of ram = (\<lambda>_. Some 0)) \<and>
    cycles_agree (values_of ram) (group_rows (trace_rows_of fieldnames records))"
proof -
  obtain coverage ram where m: "read_manifest fs trace source = Inr (coverage, ram)"
      and run: "fold_res (process_cycle opts coverage)
      (group_rows (trace_rows_of fieldnames records)) (correlation_start ram) = Inr c"
      and f: "counts' = tracker_counts c" "final_checks opts counts' = Inr ()"
      and cov: "require_complete_coverage opts \<Longrightarrow> coverage = CompleteFromReset"
    using correlate_Inr [OF assms(1)] unfolding trace_rows_of_def by metis
  have "uncertain c = 0"
    using f assms(2) by (auto simp: final_checks_def uncertain_def tracker_counts_def split: if_splits)
  moreover have "uncertain (correlation_start ram) = 0" by (simp add: uncertain_def correlation_start_def)
  moreover have "values_of ram = (\<lambda>_. Some 0)" if "require_complete_coverage opts"
    using read_manifest_ram [OF m] cov [OF that] by (auto simp: values_of_def POWERUP_ZERO_def)
  ultimately show ?thesis using m cycles_replay [OF run] by (auto simp: correlation_start_def)
qed

text \<open>
  A recorded source is a real read of that byte. Every byte of the scoreboard that carries a
  source was read by DMA, or by the CPU from cartridge ROM, and the byte equals the recorded lane
  of the value that was read.
\<close>

theorem sources_are_reads:
  assumes "correlate fs trace source opts fieldnames records = Inr (counts', c)"
    and "c_iram c i = Some v" and "bv_source v = Some s"
  shows "source_read_ok s \<and> (\<exists>l\<in>{0, 1}. bv_lane v = Some l \<and>
    bv_value v = drop_bit (8 * nat l) (field (t_values s) ''value'') AND 0xFF)"
proof -
  obtain coverage ram where m: "read_manifest fs trace source = Inr (coverage, ram)"
      and run: "fold_res (process_cycle opts coverage)
      (group_rows (trace_rows_of fieldnames records)) (correlation_start ram) = Inr c"
    using correlate_Inr [OF assms(1)] unfolding trace_rows_of_def by metis
  have "sources_ok (correlation_start ram)"
    using read_manifest_ram [OF m]
    by (auto simp: sources_ok_def correlation_start_def tracker_ok_def tracker_start_def byte_sourced_def POWERUP_ZERO_def)
  from sourced_cycles.run_inv [OF this run] have "byte_sourced v"
    using assms(2) by (force simp: sources_ok_def split: option.splits)
  then show ?thesis using assms(3) by (auto simp: byte_sourced_def field_def split: option.splits)
qed

section \<open>A trace that correlates\<close>

text \<open>A DMA read of the ROM, the DMA write of the same word to IRAM, and the display fetch of that word.\<close>

definition gdma_read_example :: "string list" where
  "gdma_read_example = [''5'', ''mem'', [], [], [], ''131072'', ''517'', [], ''gdma'', ''read'', ''3'', ''cart_rom0'',
     ''0'', [], [], ''not_applicable'', [], []]"

definition gdma_write_example :: "string list" where
  "gdma_write_example = [''8'', ''mem'', [], [], [], ''22'', ''517'', [], ''gdma'', ''write'', ''3'', ''iram'',
     ''22'', [], [], ''not_applicable'', [], []]"

definition fetch_example :: "string list" where
  "fetch_example = [''12'', ''vram'', [], [], [], ''22'', [], ''screen1_map'', [], [], [], [], [], [], [], [], ''517'', ''0'']"

definition gdma_read_row :: row where "gdma_read_row = dict_row FIELDS_V4 gdma_read_example"
definition gdma_write_row :: row where "gdma_write_row = dict_row FIELDS_V4 gdma_write_example"
definition fetch_example_row :: row where "fetch_example_row = dict_row FIELDS_V4 fetch_example"

lemma gdma_read_values:
  "gdma_read_row ''cycle'' = ''5''" "gdma_read_row ''event'' = ''mem''" "gdma_read_row ''value'' = ''517''"
  "gdma_read_row ''initiator'' = ''gdma''" "gdma_read_row ''access'' = ''read''" "gdma_read_row ''byte_enable'' = ''3''"
  "gdma_read_row ''space'' = ''cart_rom0''" "gdma_read_row ''mapped_offset'' = ''0''"
  by code_simp+

lemma gdma_write_values:
  "gdma_write_row ''cycle'' = ''8''" "gdma_write_row ''event'' = ''mem''" "gdma_write_row ''value'' = ''517''"
  "gdma_write_row ''initiator'' = ''gdma''" "gdma_write_row ''access'' = ''write''" "gdma_write_row ''byte_enable'' = ''3''"
  "gdma_write_row ''space'' = ''iram''" "gdma_write_row ''address'' = ''22''"
  by code_simp+

lemma fetch_example_values:
  "fetch_example_row ''cycle'' = ''12''" "fetch_example_row ''event'' = ''vram''" "fetch_example_row ''address'' = ''22''"
  "fetch_example_row ''role'' = ''screen1_map''" "fetch_example_row ''fetch_value'' = ''517''"
  "fetch_example_row ''fetch_collision'' = ''0''"
  by code_simp+

definition exact_options :: correlate_options where
  "exact_options = \<lparr>roles = None, address_range = None, only_status = None, fail_on_mismatch = True,
     require_matches = 1, require_complete_coverage = False, require_exact_fetches = True\<rparr>"

definition demo_records :: "string list list" where
  "demo_records = [gdma_read_example, gdma_write_example, fetch_example]"

lemma demo_rows: "numbered_rows FIELDS_V4 demo_records =
    [(2, gdma_read_row), (3, gdma_write_row), (4, fetch_example_row)]"
  by (simp add: numbered_rows_def demo_records_def gdma_read_row_def gdma_write_row_def fetch_example_row_def)

abbreviation (input) gdma_row_1 :: trace_row where "gdma_row_1 \<equiv> \<lparr>t_line = 2, t_values = gdma_read_row\<rparr>"
abbreviation (input) gdma_row_2 :: trace_row where "gdma_row_2 \<equiv> \<lparr>t_line = 3, t_values = gdma_write_row\<rparr>"

definition demo_ram :: iram where
  "demo_ram = (\<lambda>_. None)(22 := Some \<lparr>bv_value = 5, bv_write = Some gdma_row_2, bv_source = Some gdma_row_1, bv_lane = Some 0\<rparr>,
      23 := Some \<lparr>bv_value = 2, bv_write = Some gdma_row_2, bv_source = Some gdma_row_1, bv_lane = Some 1\<rparr>)"

lemmas demo_values = gdma_read_values gdma_write_values fetch_example_values int_texts row_cycle_def field_def py_int_def

definition demo_mid :: correlation where
  "demo_mid = (correlation_start (\<lambda>_. None))\<lparr>c_tracker := tracker_start\<lparr>pending_gdma_read := Some gdma_row_1\<rparr>\<rparr>"

lemma demo_read: "process_cycle exact_options ObservedOnly [gdma_row_1] (correlation_start (\<lambda>_. None)) = Inr demo_mid"
  by (simp add: process_cycle_def fetch_row_def mem_row_def Let_def demo_values observe_def observe_rest_def
      tracker_start_def retire_cpu_chain_def demo_mid_def correlation_start_def)

definition demo_written :: correlation where
  "demo_written = (correlation_start demo_ram)"

lemma demo_write: "process_cycle exact_options ObservedOnly [gdma_row_2] demo_mid = Inr demo_written"
  by (simp add: process_cycle_def fetch_row_def mem_row_def Let_def demo_values observe_def observe_rest_def
      tracker_start_def retire_cpu_chain_def demo_mid_def demo_written_def correlation_start_def
      write_lane_def source_lane_def iram_index_def demo_ram_def)

lemma demo_fetch: "\<exists>c. process_cycle exact_options ObservedOnly [\<lparr>t_line = 4, t_values = fetch_example_row\<rparr>] demo_written = Inr c \<and>
    c_iram c = demo_ram \<and> final_checks exact_options (tracker_counts c) = Inr ()"
  by (simp add: process_cycle_def fetch_row_def mem_row_def Let_def demo_values demo_written_def
     correlation_start_def iram_index_def demo_ram_def summarize_versions_def same_row_def option_list_def
     writer_summary_def source_summary_def scoreboard_status_def byte_fields_def ROM_SPACES_def
     count_fetch_def bump_def bump_if_def status_count_def fetch_selected_def exact_options_def final_checks_def
     tracker_counts_def tracker_start_def)

lemma demo_correlates: "\<exists>counts' c. correlate fs trace NoManifest exact_options FIELDS_V4 demo_records = Inr (counts', c) \<and>
    c_iram c = demo_ram"
proof -
  obtain c where c: "process_cycle exact_options ObservedOnly [\<lparr>t_line = 4, t_values = fetch_example_row\<rparr>] demo_written = Inr c"
      "c_iram c = demo_ram" "final_checks exact_options (tracker_counts c) = Inr ()" using demo_fetch by blast
  have "\<not> require_complete_coverage exact_options" by (simp add: exact_options_def)
  with c show ?thesis
    by (simp add: correlate_def read_manifest_def demo_rows pull_row_def demo_values demo_read demo_write)
qed

lemma demo_groups: "group_rows (trace_rows_of FIELDS_V4 demo_records) =
    [[gdma_row_1], [gdma_row_2], [\<lparr>t_line = 4, t_values = fetch_example_row\<rparr>]]"
  by (simp add: trace_rows_of_def demo_rows trace_row_of_def demo_values)

theorem fetches_partitioned_witness:
  "\<exists>counts' c. correlate (\<lambda>_. None) [] NoManifest exact_options FIELDS_V4 demo_records = Inr (counts', c) \<and>
    counts' ''fetches'' = 1 \<and> sum_list (map counts' OUTCOMES) = 1"
proof -
  obtain counts' c where c: "correlate (\<lambda>_. None) [] NoManifest exact_options FIELDS_V4 demo_records = Inr (counts', c)"
    using demo_correlates by blast
  have "filter display_fetch (trace_rows_of FIELDS_V4 demo_records) = [\<lparr>t_line = 4, t_values = fetch_example_row\<rparr>]"
    by (simp add: trace_rows_of_def demo_rows trace_row_of_def display_fetch_def demo_values)
  then show ?thesis using c fetches_partitioned [OF c] by auto
qed

theorem scoreboard_replays_writes_witness:
  "\<exists>counts' c. correlate (\<lambda>_. None) [] NoManifest exact_options FIELDS_V4 demo_records = Inr (counts', c) \<and>
    values_of (c_iram c) 22 = Some 5 \<and>
    values_of (c_iram c) = fold replay_row (trace_rows_of FIELDS_V4 demo_records) (\<lambda>_. None)"
proof -
  obtain counts' c where c: "correlate (\<lambda>_. None) [] NoManifest exact_options FIELDS_V4 demo_records = Inr (counts', c)"
      and ram: "c_iram c = demo_ram" using demo_correlates by blast
  have "values_of (c_iram c) 22 = Some 5" by (simp add: ram values_of_def demo_ram_def)
  then show ?thesis using c scoreboard_replays_writes [OF c] by (auto simp: read_manifest_def)
qed

theorem exact_run_agrees_witness:
  "cycles_agree (\<lambda>_. None) [[gdma_row_1], [gdma_row_2], [\<lparr>t_line = 4, t_values = fetch_example_row\<rparr>]]"
proof -
  obtain counts' c where c: "correlate (\<lambda>_. None) [] NoManifest exact_options FIELDS_V4 demo_records = Inr (counts', c)"
    using demo_correlates by blast
  have "require_exact_fetches exact_options" by (simp add: exact_options_def)
  from exact_run_agrees [OF c this] show ?thesis
    unfolding demo_groups by (auto simp: read_manifest_def values_of_def [abs_def])
qed

theorem sources_are_reads_witness:
  "source_read_ok gdma_row_1 \<and> (5 :: int) = 517 AND 0xFF"
proof -
  obtain counts' c where c: "correlate (\<lambda>_. None) [] NoManifest exact_options FIELDS_V4 demo_records = Inr (counts', c)"
      and ram: "c_iram c = demo_ram" using demo_correlates by blast
  have "c_iram c 22 = Some \<lparr>bv_value = 5, bv_write = Some gdma_row_2, bv_source = Some gdma_row_1, bv_lane = Some 0\<rparr>"
    by (simp add: ram demo_ram_def)
  from sources_are_reads [OF c this, of gdma_row_1] show ?thesis by (simp add: demo_values)
qed

end
