(* ===== verification/Display_Trace.thy ===== *)
theory Display_Trace
  imports Provenance
begin

unbundle bit_operations_syntax

text \<open>
  What the two display correlators (\<^verbatim>\<open>sim/verilator/correlate_bg_cells.py\<close> and
  \<^verbatim>\<open>sim/verilator/correlate_sprite_rows.py\<close>) have in common: the manifest check, the decimal
  columns, snapshots of raw reads, the scoreboard of IRAM bytes with its source tracker. The code has
  these functions twice, with the same text.
\<close>

section \<open>The manifest\<close>

text \<open>How the schema is tested is a parameter: by set membership in one, by \<open>==\<close> in the other.\<close>

definition display_manifest :: "file_system \<Rightarrow> string list \<Rightarrow> manifest_source \<Rightarrow> (json \<Rightarrow> bool res) \<Rightarrow> string \<Rightarrow> string list \<Rightarrow>
    (coverage \<times> iram) res" where
  "display_manifest fs trace source schema_accepted history_flag event_names =
     (case source of
        NoManifest \<Rightarrow> Inr (ObservedOnly, \<lambda>_. None)
      | BrokenManifest \<Rightarrow> Inl (ValueError ''invalid trace manifest'')
      | ManifestOther \<Rightarrow> Inl AttributeError
      | ManifestObject m \<Rightarrow>
          (case fs trace of
             None \<Rightarrow> Inl (ValueError ''invalid trace manifest'')
           | Some st \<Rightarrow>
               let binding_matches = json_is_int (jget m ''trace_size_bytes'') (int (length (file_bytes st))) \<and>
                     jget m ''trace_fnv1a64'' = JStr (fnv1a64 (file_bytes st)) in
               rbind (accepts_complete_schema fs m (butlast trace) (Some trace)) (\<lambda>accepted.
               rbind (if accepted then schema_accepted (jget m ''trace_schema'') else Inr False) (\<lambda>schema_ok.
               Inr (if accepted \<and> schema_ok \<and> binding_matches \<and>
                       jget m ''capture_start'' = JStr ''reset_release'' \<and>
                       jget m ''capture_completed'' = JBool True \<and>
                       positive_integer (jget m ''capture_cycles'') \<and>
                       positive_integer (jget m ''completed_frames'') \<and>
                       positive_integer (jget m ''rom_size'') \<and>
                       jget m ''complete_memory_history'' = JBool True \<and>
                       jget m ''complete_display_history'' = JBool True \<and>
                       jget m history_flag = JBool True \<and>
                       jget m ''memory_filters_active'' = JBool False \<and>
                       jget m ''display_filters_active'' = JBool False \<and>
                       manifest_events m event_names \<and>
                       jget m ''savestate_inputs_asserted'' = JBool False \<and>
                       jget m ''iram_initial_state'' = JStr ''zero''
                    then (CompleteFromReset, \<lambda>_. Some POWERUP_ZERO)
                    else (ObservedOnly, \<lambda>_. None))))))"

section \<open>Columns of a row and raw reads\<close>

definition decimal :: "trace_row \<Rightarrow> string \<Rightarrow> int \<Rightarrow> int res" where
  "decimal r column maximum =
     (case py_int10 (t_values r column) of
        None \<Rightarrow> Inl (LineError (t_line r) (''invalid '' @ column))
      | Some value \<Rightarrow>
          if 0 \<le> value \<and> value \<le> maximum then Inr value
          else Inl (LineError (t_line r) (column @ '' outside its range'')))"

definition refuse :: "bool \<Rightarrow> trace_row \<Rightarrow> string \<Rightarrow> unit res" where
  "refuse bad r message = (if bad then Inl (LineError (t_line r) message) else Inr ())"

record snapshot =
  sn_row :: trace_row
  sn_address :: int
  sn_value :: int
  sn_collision :: int
  sn_low :: "byte_version option"
  sn_high :: "byte_version option"
  sn_status :: string

definition summarize_row :: "byte_version option list \<Rightarrow> string \<times> string \<times> string" where
  "summarize_row versions =
     (if list_all (\<lambda>v. v = None) versions then (''unobserved'', ''none_observed'', ''none_observed'')
      else if list_ex (\<lambda>v. v = None) versions then (''partial'', ''partial'', ''partial'')
      else
        let known = map the versions in
        if list_all (\<lambda>v. bv_write v = None) known then (''match'', ''initial_powerup'', ''initial_powerup'')
        else
          let writes = map the (filter (\<lambda>w. w \<noteq> None) (map bv_write known));
              initiators = set (map (\<lambda>w. t_values w ''initiator'') writes);
              origins = set (map (\<lambda>w. t_values w ''origin_status'') writes);
              sources = map bv_source known;
              known_sources = map the (filter (\<lambda>s. s \<noteq> None) sources);
              source_initiators = set (map (\<lambda>s. t_values s ''initiator'') known_sources);
              source_summary =
                (if list_all (\<lambda>s. s = None) sources
                 then (if initiators = {''cpu''} then ''cpu_write'' else ''none'')
                 else if list_all (\<lambda>s. s \<noteq> None \<and> t_values (the s) ''space'' \<in> ROM_SPACES) sources
                 then (if source_initiators = {''cpu''} then ''cpu_rom_movsb''
                       else if source_initiators = {''gdma''} then ''gdma_rom''
                       else ''mixed_or_partial_sources'')
                 else if list_ex (\<lambda>s. s \<noteq> None) sources then ''mixed_or_partial_sources''
                 else ''none'')
          in (''match'', writer_summary initiators origins, source_summary))"

section \<open>The scoreboard\<close>

record scoreboard =
  sb_iram :: iram
  sb_tracker :: tracker

text \<open>A memory row: the tracker observes it, and the enabled lanes of an IRAM write are stored.\<close>

definition store_row :: "trace_row \<Rightarrow> scoreboard \<Rightarrow> scoreboard res" where
  "store_row r m =
     (let v = t_values r in
      rbind (observe r (sb_tracker m)) (\<lambda>(source_read, tr).
      let m = m\<lparr>sb_tracker := tr\<rparr> in
      if v ''access'' \<noteq> ''write'' \<or> v ''space'' \<noteq> ''iram'' then Inr m
      else
        rbind (decimal r ''address'' 0xFFFF) (\<lambda>address.
        rbind (decimal r ''byte_enable'' 3) (\<lambda>byte_enable.
        rbind (decimal r ''value'' 0xFFFF) (\<lambda>value.
        rbind (fold_res (write_lane r source_read address byte_enable value) [0, 1] (sb_iram m)) (\<lambda>ram.
        Inr (m\<lparr>sb_iram := ram\<rparr>)))))))"

section \<open>Exported text\<close>

definition add_count :: "string \<Rightarrow> int \<Rightarrow> (string \<Rightarrow> int) \<Rightarrow> (string \<Rightarrow> int)" where
  "add_count name n counts' = counts'(name := counts' name + n)"

fun join_semicolon :: "string list \<Rightarrow> string" where
  "join_semicolon [] = []"
| "join_semicolon [x] = x"
| "join_semicolon (x # y # ys) = x @ '';'' @ join_semicolon (y # ys)"

definition pad_versions :: "byte_version option list \<Rightarrow> byte_version option list" where
  "pad_versions versions = take 4 (versions @ [None, None, None, None])"

end
