(* ===== verification/Bg_Cells.thy ===== *)
theory Bg_Cells
  imports Display_Trace
begin

unbundle bit_operations_syntax

text \<open>
  The background-cell correlator (\<^verbatim>\<open>sim/verilator/correlate_bg_cells.py\<close>): every atomic cell
  event of a trace is matched with the raw map and tile reads that produced it, and with the
  writers of the bytes that were read. The scoreboard of IRAM bytes and the source tracker are those
  of the provenance correlator.
\<close>

section \<open>Snapshots and groups\<close>

definition bg_read_manifest :: "file_system \<Rightarrow> string list \<Rightarrow> manifest_source \<Rightarrow> (coverage \<times> iram) res" where
  "bg_read_manifest fs trace source =
     display_manifest fs trace source (\<lambda>v. json_in_ints v [5, 6]) ''complete_bg_cell_history'' [''mem'', ''vram'', ''bg_cell'']"

record bg_snapshot = snapshot +
  sn_writer :: string
  sn_source :: string

datatype screen = Screen1 | Screen2

definition screen_text :: "screen \<Rightarrow> string" where
  "screen_text l = (case l of Screen1 \<Rightarrow> ''screen1'' | Screen2 \<Rightarrow> ''screen2'')"

record raw_group =
  rg_layer :: screen
  rg_map :: bg_snapshot
  rg_tiles :: "bg_snapshot list"

definition layer_name :: "trace_row \<Rightarrow> screen res" where
  "layer_name r =
     rbind (decimal r ''bg_layer'' 2) (\<lambda>value.
     rbind (refuse (value \<notin> {1, 2}) r ''bg_layer must be 1 or 2'') (\<lambda>_.
     Inr (if value = 1 then Screen1 else Screen2)))"

definition snapshot_fetch :: "trace_row \<Rightarrow> iram \<Rightarrow> bg_snapshot res" where
  "snapshot_fetch r ram =
     rbind (decimal r ''address'' 0xFFFF) (\<lambda>address.
     rbind (refuse (address AND 1 \<noteq> 0 \<or> address = 0xFFFF) r ''invalid display word address'') (\<lambda>_.
     rbind (decimal r ''fetch_value'' 0xFFFF) (\<lambda>value.
     rbind (decimal r ''fetch_collision'' 1) (\<lambda>collision.
     let low = ram address; high = ram (address + 1);
         (ram_status, writer, source) = summarize_versions low high
     in Inr \<lparr>sn_row = r, sn_address = address, sn_value = value, sn_collision = collision,
             sn_low = low, sn_high = high, sn_status = scoreboard_status collision value low high,
             sn_writer = writer, sn_source = source\<rparr>))))"

definition check_snapshot :: "bg_snapshot \<Rightarrow> unit \<Rightarrow> unit res" where
  "check_snapshot sn _ =
     rbind (refuse (sn_collision sn \<noteq> 0) (sn_row sn) ''raw display fetch collided with an IRAM write'') (\<lambda>_.
     refuse (sn_status sn = ''mismatch'') (sn_row sn) ''raw display value disagrees with IRAM scoreboard'')"

section \<open>One cell against its raw group\<close>

text \<open>The map part: the raw map read, the decode of the map word, the coordinates.\<close>

definition check_decoded :: "trace_row \<Rightarrow> string \<times> int \<times> int \<Rightarrow> unit \<Rightarrow> unit res" where
  "check_decoded r expected u =
     (let (name, maximum, wanted) = expected in
      rbind (decimal r name maximum) (\<lambda>value.
      refuse (value \<noteq> wanted) r (name @ '' is inconsistent with map_value'')))"

definition validate_map :: "trace_row \<Rightarrow> raw_group \<Rightarrow> (int \<times> int) res" where
  "validate_map r g =
     rbind (decimal r ''map_address'' 0xFFFF) (\<lambda>map_address.
     rbind (decimal r ''map_value'' 0xFFFF) (\<lambda>map_value.
     rbind (decimal r ''map_collision'' 1) (\<lambda>map_collision.
     rbind (refuse ((sn_address (rg_map g), sn_value (rg_map g), sn_collision (rg_map g)) \<noteq>
                    (map_address, map_value, map_collision)) r
              ''atomic map fields do not match the preceding raw map fetch'') (\<lambda>_.
     rbind (decimal r ''tile_bank_enabled'' 1) (\<lambda>bank_enabled.
     let expected_index = (map_value AND 0x1FF) OR
           (if bank_enabled \<noteq> 0 then push_bit 9 (drop_bit 13 map_value AND 1) else 0) in
     rbind (fold_res (check_decoded r)
              [(''tile_index'', 0x3FF, expected_index), (''palette'', 0xF, drop_bit 9 map_value AND 0xF),
               (''hflip'', 1, drop_bit 14 map_value AND 1), (''vflip'', 1, drop_bit 15 map_value AND 1)] ()) (\<lambda>_.
     rbind (decimal r ''map_x'' 0x1F) (\<lambda>map_x.
     rbind (decimal r ''map_y'' 0x1F) (\<lambda>map_y.
     rbind (refuse ((map_x, map_y) \<noteq> (drop_bit 1 map_address AND 0x1F, drop_bit 6 map_address AND 0x1F)) r
              ''map coordinates are inconsistent with map_address'') (\<lambda>_.
     Inr (expected_index, map_collision))))))))))"

text \<open>The tile part: which raw words contribute, and the value and collision they give.\<close>

definition select_words :: "trace_row \<Rightarrow> int \<Rightarrow> int \<Rightarrow> bg_snapshot \<Rightarrow> bg_snapshot \<Rightarrow> (bg_snapshot list \<times> int \<times> int) res" where
  "select_words r bpp row_address tile0 tile1 =
     (if bpp = 2 then
        (case filter (\<lambda>fetch. sn_address fetch = row_address) [tile0, tile1] of
           [fetch] \<Rightarrow> Inr ([fetch], sn_value fetch, sn_collision fetch)
         | _ \<Rightarrow> Inl (LineError (t_line r) ''2bpp row does not select exactly one raw tile word''))
      else
        rbind (refuse (row_address \<noteq> sn_address tile0) r ''4bpp row does not start at the first raw tile word'') (\<lambda>_.
        Inr ([tile0, tile1], sn_value tile0 OR push_bit 16 (sn_value tile1),
             sn_collision tile0 OR sn_collision tile1)))"

definition validate_tiles :: "trace_row \<Rightarrow> int \<Rightarrow> bg_snapshot \<Rightarrow> bg_snapshot \<Rightarrow> (bg_snapshot list \<times> int) res" where
  "validate_tiles r expected_index tile0 tile1 =
     rbind (decimal r ''bpp'' 4) (\<lambda>bpp.
     rbind (refuse (bpp \<notin> {2, 4}) r ''bpp must be 2 or 4'') (\<lambda>_.
     rbind (decimal r ''packed'' 1) (\<lambda>_.
     rbind (decimal r ''tile_row'' 7) (\<lambda>tile_row.
     rbind (decimal r ''tile_row_address'' 0xFFFF) (\<lambda>row_address.
     rbind (decimal r ''tile_row_bytes'' 4) (\<lambda>row_bytes.
     rbind (decimal r ''tile_row_value'' 0xFFFFFFFF) (\<lambda>row_value.
     rbind (decimal r ''tile_row_collision'' 1) (\<lambda>row_collision.
     rbind (refuse (row_bytes \<noteq> bpp) r ''tile_row_bytes must equal bpp'') (\<lambda>_.
     rbind (refuse (row_address \<noteq> (if bpp = 2 then 0x2000 else 0x4000) + expected_index * row_bytes * 8 +
                      tile_row * row_bytes) r ''tile_row_address is inconsistent with decoded cell'') (\<lambda>_.
     rbind (refuse (sn_address tile0 AND 3 \<noteq> 0 \<or> sn_address tile1 \<noteq> sn_address tile0 + 2) r
              ''raw tile words are not one aligned four-byte fetch group'') (\<lambda>_.
     rbind (select_words r bpp row_address tile0 tile1) (\<lambda>(contributing, expected_value, expected_collision).
     rbind (refuse (row_value \<noteq> expected_value \<or> row_collision \<noteq> expected_collision) r
              ''atomic tile-row fields do not match raw tile fetches'') (\<lambda>_.
     Inr (contributing, row_collision))))))))))))))"

definition validate_cell :: "trace_row \<Rightarrow> raw_group \<Rightarrow> (bg_snapshot list \<times> byte_version option list) res" where
  "validate_cell r g =
     rbind (validate_map r g) (\<lambda>(expected_index, map_collision).
     case rg_tiles g of
       [tile0, tile1] \<Rightarrow>
         rbind (validate_tiles r expected_index tile0 tile1) (\<lambda>(contributing, row_collision).
         rbind (fold_res check_snapshot (rg_map g # contributing) ()) (\<lambda>_.
         rbind (refuse (map_collision \<noteq> 0 \<or> row_collision \<noteq> 0) r
                  ''atomic background cell contains a read/write collision'') (\<lambda>_.
         Inr (contributing, concat (map (\<lambda>fetch. [sn_low fetch, sn_high fetch]) contributing)))))
     | _ \<Rightarrow> Inl (ValueError ''unpack''))"

section \<open>The correlation\<close>

record bg_state =
  bg_memory :: scoreboard
  bg_counts :: "string \<Rightarrow> int"
  bg_building :: "screen \<Rightarrow> raw_group option"
  bg_completed :: "screen \<Rightarrow> raw_group list"
  bg_saw_map :: "screen \<Rightarrow> bool"
  bg_prefix :: "screen \<Rightarrow> bg_snapshot list"
  bg_output :: "out_record list"

definition bg_start :: "iram \<Rightarrow> bg_state" where
  "bg_start ram = \<lparr>bg_memory = \<lparr>sb_iram = ram, sb_tracker = tracker_start\<rparr>, bg_counts = (\<lambda>_. 0),
     bg_building = (\<lambda>_. None), bg_completed = (\<lambda>_. []), bg_saw_map = (\<lambda>_. False),
     bg_prefix = (\<lambda>_. []), bg_output = []\<rparr>"

text \<open>The role of a raw read: its layer, and whether it reads the map.\<close>

definition bg_role :: "string \<Rightarrow> (screen \<times> bool) option" where
  "bg_role = map_of [(''screen1_map'', (Screen1, True)), (''screen1_tile'', (Screen1, False)),
                     (''screen2_map'', (Screen2, True)), (''screen2_tile'', (Screen2, False))]"

definition valid_suffix :: "bg_snapshot list \<Rightarrow> bool" where
  "valid_suffix prefix \<longleftrightarrow>
     (case prefix of
        [a] \<Rightarrow> sn_address a AND 3 = 2
      | [a, b] \<Rightarrow> sn_address a AND 3 = 0 \<and> sn_address b = sn_address a + 2
      | _ \<Rightarrow> False)"

definition raw_map :: "trace_row \<Rightarrow> screen \<Rightarrow> bg_snapshot \<Rightarrow> bg_state \<Rightarrow> bg_state res" where
  "raw_map r l sn s =
     rbind (refuse (bg_building s l \<noteq> None) r ''new map before prior raw group completed'') (\<lambda>_.
     let prefix = bg_prefix s l in
     rbind (refuse (prefix \<noteq> [] \<and> \<not> valid_suffix prefix) r ''malformed reset-boundary tile suffix'') (\<lambda>_.
     Inr (s\<lparr>bg_counts := (if prefix \<noteq> [] then bump ''raw_prefix_truncated'' (bg_counts s) else bg_counts s),
            bg_prefix := (bg_prefix s)(l := []),
            bg_saw_map := (bg_saw_map s)(l := True),
            bg_building := (bg_building s)(l := Some \<lparr>rg_layer = l, rg_map = sn, rg_tiles = []\<rparr>)\<rparr>)))"

definition raw_tile :: "coverage \<Rightarrow> trace_row \<Rightarrow> screen \<Rightarrow> bg_snapshot \<Rightarrow> bg_state \<Rightarrow> bg_state res" where
  "raw_tile coverage r l sn s =
     (case bg_building s l of
        None \<Rightarrow>
          if \<not> bg_saw_map s l then
            rbind (refuse (coverage \<noteq> CompleteFromReset) r
                     ''reset-boundary tile suffix requires a complete reset-release manifest'') (\<lambda>_.
            rbind (refuse (length (bg_prefix s l) \<ge> 2) r ''malformed reset-boundary tile suffix'') (\<lambda>_.
            Inr (s\<lparr>bg_prefix := (bg_prefix s)(l := bg_prefix s l @ [sn])\<rparr>)))
          else Inl (LineError (t_line r) ''tile fetch has no preceding map'')
      | Some g \<Rightarrow>
          let g = g\<lparr>rg_tiles := rg_tiles g @ [sn]\<rparr> in
          if length (rg_tiles g) = 2
          then Inr (s\<lparr>bg_completed := (bg_completed s)(l := bg_completed s l @ [g]),
                      bg_building := (bg_building s)(l := None)\<rparr>)
          else if length (rg_tiles g) > 2
          then Inl (LineError (t_line r) ''too many tile words in raw group'')
          else Inr (s\<lparr>bg_building := (bg_building s)(l := Some g)\<rparr>))"

definition bg_raw_row :: "coverage \<Rightarrow> trace_row \<Rightarrow> bg_state \<Rightarrow> bg_state res" where
  "bg_raw_row coverage r s =
     (if t_values r ''event'' \<noteq> ''vram'' then Inr s
      else case bg_role (t_values r ''role'') of
             None \<Rightarrow> Inr s
           | Some (l, is_map) \<Rightarrow>
               rbind (snapshot_fetch r (sb_iram (bg_memory s))) (\<lambda>sn.
               if is_map then raw_map r l sn s else raw_tile coverage r l sn s))"

definition raw_columns :: "string \<Rightarrow> bg_snapshot \<Rightarrow> out_record" where
  "raw_columns prefix sn =
     [(prefix @ ''_raw_line'', CInt (t_line (sn_row sn))), (prefix @ ''_raw_cycle'', CInt (row_cycle (sn_row sn))),
      (prefix @ ''_raw_address'', CInt (sn_address sn)), (prefix @ ''_raw_value'', CInt (sn_value sn)),
      (prefix @ ''_raw_collision'', CInt (sn_collision sn))]"

definition bg_record :: "coverage \<Rightarrow> trace_row \<Rightarrow> int \<Rightarrow> raw_group \<Rightarrow> bg_snapshot list \<Rightarrow> byte_version option list \<Rightarrow> out_record res" where
  "bg_record coverage r index g contributing versions =
     (let (row_status, row_writer, row_source) = summarize_row versions; m = rg_map g in
      rbind (byte_fields ''map_lo'' (sn_low m)) (\<lambda>map_lo.
      rbind (byte_fields ''map_hi'' (sn_high m)) (\<lambda>map_hi.
      rbind (map_res (\<lambda>(p, v). byte_fields p v)
               (zip [''row_b0'', ''row_b1'', ''row_b2'', ''row_b3''] (pad_versions versions))) (\<lambda>rows.
      Inr ([(''cell_index'', CInt index), (''line'', CInt (t_line r)), (''cycle'', CInt (row_cycle r)),
            (''bg_layer'', CText (screen_text (rg_layer g))), (''coverage_status'', CText (coverage_text coverage)),
            (''map_raw_line'', CInt (t_line (sn_row m))), (''map_raw_cycle'', CInt (row_cycle (sn_row m))),
            (''map_raw_collision'', CInt (sn_collision m)), (''map_scoreboard_status'', CText (sn_status m)),
            (''map_writer_summary'', CText (sn_writer m)), (''map_source_summary'', CText (sn_source m))] @
           concat (map (\<lambda>(p, sn). raw_columns p sn) (zip [''tile0'', ''tile1''] (rg_tiles g))) @
           [(''contributing_raw_lines'', CText (join_semicolon (map (\<lambda>sn. py_str (t_line (sn_row sn))) contributing))),
            (''contributing_raw_cycles'', CText (join_semicolon (map (\<lambda>sn. py_str (row_cycle (sn_row sn))) contributing))),
            (''row_scoreboard_status'', CText row_status), (''row_writer_summary'', CText row_writer),
            (''row_source_summary'', CText row_source)] @
           map (\<lambda>name. (name, CText (t_values r name))) (filter (\<lambda>name. name \<noteq> ''bg_layer'') BG_FIELDS) @
           map_lo @ map_hi @ concat rows)))))"

text \<open>The newest completed group is the one the cell shows; the older ones are superseded.\<close>

definition bg_cell_row :: "coverage \<Rightarrow> trace_row \<Rightarrow> bg_state \<Rightarrow> bg_state res" where
  "bg_cell_row coverage r s =
     (if t_values r ''event'' \<noteq> ''bg_cell'' then Inr s
      else
        rbind (layer_name r) (\<lambda>l.
        rbind (refuse (bg_completed s l = []) r ''atomic cell has no completed raw fetch group'') (\<lambda>_.
        let g = last (bg_completed s l);
            counts' = add_count ''raw_superseded'' (int (length (butlast (bg_completed s l)))) (bg_counts s) in
        rbind (validate_cell r g) (\<lambda>(contributing, versions).
        rbind (bg_record coverage r (counts' ''cells'') g contributing versions) (\<lambda>record'.
        let bpp_count = ''bpp'' @ t_values r ''bpp'' in
        if bpp_count \<notin> {''bpp2'', ''bpp4''} then Inl (KeyError bpp_count)
        else
        Inr (s\<lparr>bg_completed := (bg_completed s)(l := []),
               bg_counts := bump_if (snd (snd (summarize_row versions)) = ''cpu_rom_movsb'') ''cpu_rom_movsb_cells''
                 (bump bpp_count (bump (screen_text l) (bump ''cells'' counts'))),
               bg_output := bg_output s @ [record']\<rparr>))))))"

definition bg_mem_row :: "trace_row \<Rightarrow> bg_state \<Rightarrow> bg_state res" where
  "bg_mem_row r s =
     (if t_values r ''event'' \<noteq> ''mem'' then Inr s
      else rbind (store_row r (bg_memory s)) (\<lambda>m. Inr (s\<lparr>bg_memory := m\<rparr>)))"

definition bg_cycle :: "coverage \<Rightarrow> trace_row list \<Rightarrow> bg_state \<Rightarrow> bg_state res" where
  "bg_cycle coverage rows s =
     rbind (fold_res (bg_raw_row coverage) rows s) (\<lambda>s.
     rbind (fold_res (bg_cell_row coverage) rows s) (fold_res bg_mem_row rows))"

definition bg_finish_layer :: "screen \<Rightarrow> bg_state \<Rightarrow> bg_state res" where
  "bg_finish_layer l s =
     (if bg_prefix s l \<noteq> [] then Inl (ValueError ''reset-boundary tile suffix has no following map'')
      else if bg_building s l \<noteq> None
      then Inr (s\<lparr>bg_counts := bump ''raw_inflight''
                 (add_count ''raw_superseded'' (int (length (bg_completed s l))) (bg_counts s))\<rparr>)
      else if bg_completed s l \<noteq> []
      then Inr (s\<lparr>bg_counts := bump ''raw_unpromoted''
                 (add_count ''raw_superseded'' (int (length (bg_completed s l)) - 1) (bg_counts s))\<rparr>)
      else Inr s)"

definition bg_tracker_counts :: "bg_state \<Rightarrow> string \<Rightarrow> int" where
  "bg_tracker_counts s =
     (bg_counts s)(''cpu_rom_movsb_bytes'' := cpu_rom_movsb_bytes (sb_tracker (bg_memory s)),
                   ''cpu_rom_movsb_origins'' := int (card (cpu_rom_movsb_origins (sb_tracker (bg_memory s)))))"

definition bg_correlate :: "file_system \<Rightarrow> string list \<Rightarrow> manifest_source \<Rightarrow> bool \<Rightarrow> string list \<Rightarrow> string list list \<Rightarrow>
    ((string \<Rightarrow> int) \<times> out_record list) res" where
  "bg_correlate fs trace source require_coverage fieldnames records =
     rbind (bg_read_manifest fs trace source) (\<lambda>(coverage, ram).
     if require_coverage \<and> coverage \<noteq> CompleteFromReset
     then Inl (ValueError ''trace manifest does not prove complete mem+vram+bg_cell history from reset'')
     else if fieldnames \<notin> {FIELDS_V5, FIELDS_V6}
     then Inl (ValueError ''background-cell correlation requires exact v5/v6 header'')
     else
       rbind (fold_res (pull_row (bg_cycle coverage)) (numbered_rows fieldnames records)
                \<lparr>g_previous = -1, g_rows = [], g_state = bg_start ram\<rparr>) (\<lambda>g.
       rbind (bg_cycle coverage (g_rows g) (g_state g)) (\<lambda>s.
       rbind (fold_res bg_finish_layer [Screen1, Screen2] s) (\<lambda>s.
       Inr (bg_tracker_counts s, bg_output s)))))"

end
