(* ===== verification/Bg_Facts.thy ===== *)
theory Bg_Facts
  imports Bg_Cells Provenance_Facts
begin

unbundle bit_operations_syntax

text \<open>
  What a background-cell correlation that succeeds shows
  (\<^verbatim>\<open>sim/verilator/correlate_bg_cells.py\<close>): every raw group is accounted for, and a cell marked as
  matching shows exactly the bytes the scoreboard held.
\<close>

section \<open>Accounting\<close>

definition is_map_read :: "trace_row \<Rightarrow> int" where
  "is_map_read r = (if t_values r ''event'' = ''vram'' \<and> t_values r ''role'' \<in> {''screen1_map'', ''screen2_map''} then 1 else 0)"

definition is_cell :: "trace_row \<Rightarrow> int" where
  "is_cell r = (if t_values r ''event'' = ''bg_cell'' then 1 else 0)"

definition waiting :: "screen \<Rightarrow> bg_state \<Rightarrow> int" where
  "waiting l s = int (length (bg_completed s l)) + (if bg_building s l \<noteq> None then 1 else 0)"

definition groups_seen :: "bg_state \<Rightarrow> int" where
  "groups_seen s = bg_counts s ''cells'' + bg_counts s ''raw_superseded'' + waiting Screen1 s + waiting Screen2 s"

definition cells_seen :: "bg_state \<Rightarrow> int" where
  "cells_seen s = bg_counts s ''cells''"

definition bg_tally :: "bg_state \<Rightarrow> bool" where
  "bg_tally s \<longleftrightarrow>
     bg_counts s ''cells'' = bg_counts s ''screen1'' + bg_counts s ''screen2'' \<and>
     bg_counts s ''cells'' = bg_counts s ''bpp2'' + bg_counts s ''bpp4'' \<and>
     bg_counts s ''cells'' = int (length (bg_output s)) \<and>
     bg_counts s ''raw_unpromoted'' = 0 \<and> bg_counts s ''raw_inflight'' = 0"

lemma refuse_Inr [res_simps]: "refuse bad r m = Inr u \<longleftrightarrow> \<not> bad"
  by (simp add: refuse_def)

lemma add_count_apply: "add_count m k cs n = cs n + (if n = m then k else 0)"
  by (simp add: add_count_def)

text \<open>Steps that count nothing but truncated prefixes and change what one layer waits for.\<close>

lemma counts_frame:
  assumes "\<And>n. n \<noteq> ''raw_prefix_truncated'' \<Longrightarrow> bg_counts s' n = bg_counts s n" and "bg_output s' = bg_output s"
    and "\<And>m. waiting m s' = waiting m s + (if m = l then k else 0)"
  shows "groups_seen s' = groups_seen s + k \<and> cells_seen s' = cells_seen s \<and> (bg_tally s \<longrightarrow> bg_tally s')"
  using assms(1) by (cases l) (simp_all add: groups_seen_def cells_seen_def bg_tally_def assms(2,3))

lemma raw_map_counts:
  assumes "raw_map r l sn s = Inr s'"
  shows "groups_seen s' = groups_seen s + 1 \<and> cells_seen s' = cells_seen s \<and> (bg_tally s \<longrightarrow> bg_tally s')"
proof (rule counts_frame [of _ _ l])
  obtain cs where free: "bg_building s l = None" and cs: "\<And>n. n \<noteq> ''raw_prefix_truncated'' \<Longrightarrow> cs n = bg_counts s n"
      and s': "s' = s\<lparr>bg_counts := cs, bg_prefix := (bg_prefix s)(l := []), bg_saw_map := (bg_saw_map s)(l := True),
        bg_building := (bg_building s)(l := Some \<lparr>rg_layer = l, rg_map = sn, rg_tiles = []\<rparr>)\<rparr>"
  proof
    show "s' = s\<lparr>bg_counts := if bg_prefix s l \<noteq> [] then bump ''raw_prefix_truncated'' (bg_counts s) else bg_counts s,
        bg_prefix := (bg_prefix s)(l := []), bg_saw_map := (bg_saw_map s)(l := True),
        bg_building := (bg_building s)(l := Some \<lparr>rg_layer = l, rg_map = sn, rg_tiles = []\<rparr>)\<rparr>"
      using assms unfolding raw_map_def Let_def by (simp only: res_simps) blast
  qed (use assms in \<open>auto simp: raw_map_def Let_def res_simps bump_apply\<close>)
  show "bg_counts s' n = bg_counts s n" if "n \<noteq> ''raw_prefix_truncated''" for n
    using cs [OF that] by (simp add: s')
  show "bg_output s' = bg_output s" by (simp add: s')
  show "waiting m s' = waiting m s + (if m = l then 1 else 0)" for m
    using free by (simp add: s' waiting_def)
qed

lemma raw_tile_counts:
  assumes "raw_tile coverage r l sn s = Inr s'"
  shows "groups_seen s' = groups_seen s + 0 \<and> cells_seen s' = cells_seen s \<and> (bg_tally s \<longrightarrow> bg_tally s')"
proof (rule counts_frame [of _ _ l])
  have "bg_counts s' = bg_counts s \<and> bg_output s' = bg_output s \<and> (\<forall>m. waiting m s' = waiting m s)"
  proof (cases "bg_building s l")
    case None
    then show ?thesis using assms by (auto simp: raw_tile_def res_simps waiting_def split: if_splits)
  next
    case (Some g)
    let ?g = "g\<lparr>rg_tiles := rg_tiles g @ [sn]\<rparr>"
    consider (full) "s' = s\<lparr>bg_completed := (bg_completed s)(l := bg_completed s l @ [?g]),
        bg_building := (bg_building s)(l := None)\<rparr>"
      | (part) "s' = s\<lparr>bg_building := (bg_building s)(l := Some ?g)\<rparr>"
      using assms Some unfolding raw_tile_def Let_def by (simp split: if_splits)
    then show ?thesis by cases (simp_all add: waiting_def Some)
  qed
  then show "bg_counts s' n = bg_counts s n" "bg_output s' = bg_output s"
    "waiting m s' = waiting m s + (if m = l then 0 else 0)" for n m by simp_all
qed

lemma bg_role_map: "bg_role role = Some (l, is_map) \<Longrightarrow> is_map \<longleftrightarrow> role \<in> {''screen1_map'', ''screen2_map''}"
  by (auto simp: bg_role_def split: if_splits)

lemma bg_role_none: "bg_role role = None \<Longrightarrow> role \<notin> {''screen1_map'', ''screen2_map''}"
  by (auto simp: bg_role_def split: if_splits)

lemma bg_raw_row_cases:
  assumes "bg_raw_row coverage r s = Inr s'"
  obtains (skip) "s' = s" and "is_map_read r = 0"
  | (map_read) l sn where "snapshot_fetch r (sb_iram (bg_memory s)) = Inr sn" and "raw_map r l sn s = Inr s'"
      and "is_map_read r = 1"
  | (tile_read) l sn where "snapshot_fetch r (sb_iram (bg_memory s)) = Inr sn"
      and "raw_tile coverage r l sn s = Inr s'" and "is_map_read r = 0"
proof (cases "t_values r ''event'' = ''vram''")
  case False
  then show ?thesis using assms skip by (simp add: bg_raw_row_def is_map_read_def)
next
  case vram: True
  show ?thesis
  proof (cases "bg_role (t_values r ''role'')")
    case None
    then show ?thesis using assms vram skip bg_role_none [OF None] by (simp add: bg_raw_row_def is_map_read_def)
  next
    case (Some p)
    obtain l is_map where p: "p = (l, is_map)" by (cases p)
    note m = bg_role_map [OF Some [unfolded p]]
    obtain sn where sn: "snapshot_fetch r (sb_iram (bg_memory s)) = Inr sn"
        "(if is_map then raw_map r l sn s else raw_tile coverage r l sn s) = Inr s'"
      using assms vram Some p by (auto simp: bg_raw_row_def rbind_eq_Inr)
    show ?thesis
    proof (cases is_map)
      case True
      then show ?thesis using map_read [OF sn(1)] sn(2) vram m by (simp add: is_map_read_def)
    next
      case False
      then show ?thesis using tile_read [OF sn(1)] sn(2) vram m by (simp add: is_map_read_def)
    qed
  qed
qed

lemma bg_raw_row_counts:
  assumes "bg_raw_row coverage r s = Inr s'"
  shows "groups_seen s' = groups_seen s + is_map_read r \<and> cells_seen s' = cells_seen s \<and> (bg_tally s \<longrightarrow> bg_tally s')"
  using assms by (rule bg_raw_row_cases) (auto dest: raw_map_counts raw_tile_counts)

text \<open>What an accepted cell does to the state.\<close>

lemma bg_cell_row_cell:
  assumes "bg_cell_row coverage r s = Inr s'" and "t_values r ''event'' = ''bg_cell''"
  obtains l g contributing versions record' where "bg_completed s l \<noteq> []" and "g = last (bg_completed s l)"
    and "validate_cell r g = Inr (contributing, versions)"
    and "bg_record coverage r (bg_counts s ''cells'') g contributing versions = Inr record'"
    and "t_values r ''bpp'' \<in> {''2'', ''4''}"
    and "s' = s\<lparr>bg_completed := (bg_completed s)(l := []),
               bg_counts := bump_if (snd (snd (summarize_row versions)) = ''cpu_rom_movsb'') ''cpu_rom_movsb_cells''
                 (bump (''bpp'' @ t_values r ''bpp'') (bump (screen_text l) (bump ''cells''
                   (add_count ''raw_superseded'' (int (length (butlast (bg_completed s l)))) (bg_counts s))))),
               bg_output := bg_output s @ [record']\<rparr>"
proof -
  obtain l where l: "layer_name r = Inr l" and ne: "bg_completed s l \<noteq> []"
    using assms by (auto simp: bg_cell_row_def res_simps)
  let ?g = "last (bg_completed s l)"
  obtain contributing versions where v: "validate_cell r ?g = Inr (contributing, versions)"
    using assms l ne by (auto simp: bg_cell_row_def res_simps Let_def)
  obtain record' where o: "bg_record coverage r (bg_counts s ''cells'') ?g contributing versions = Inr record'"
    using assms l ne v by (auto simp: bg_cell_row_def res_simps Let_def add_count_def)
  have b: "''bpp'' @ t_values r ''bpp'' \<in> {''bpp2'', ''bpp4''}"
    using assms l ne v o by (auto simp: bg_cell_row_def res_simps Let_def add_count_def split: if_splits)
  show thesis
    using that [OF ne refl v o] b assms l ne v o
    by (simp add: bg_cell_row_def res_simps Let_def add_count_def)
qed

lemma bg_cell_row_counts:
  assumes "bg_cell_row coverage r s = Inr s'"
  shows "groups_seen s' = groups_seen s \<and> cells_seen s' = cells_seen s + is_cell r \<and> (bg_tally s \<longrightarrow> bg_tally s')"
proof (cases "t_values r ''event'' = ''bg_cell''")
  case False
  then show ?thesis using assms by (simp add: bg_cell_row_def is_cell_def)
next
  case True
  from assms True obtain l versions record' where ne: "bg_completed s l \<noteq> []"
      and b: "t_values r ''bpp'' \<in> {''2'', ''4''}"
      and s': "s' = s\<lparr>bg_completed := (bg_completed s)(l := []),
               bg_counts := bump_if (snd (snd (summarize_row versions)) = ''cpu_rom_movsb'') ''cpu_rom_movsb_cells''
                 (bump (''bpp'' @ t_values r ''bpp'') (bump (screen_text l) (bump ''cells''
                   (add_count ''raw_superseded'' (int (length (butlast (bg_completed s l)))) (bg_counts s))))),
               bg_output := bg_output s @ [record']\<rparr>"
    by (rule bg_cell_row_cell)
  define k where "k = int (length (butlast (bg_completed s l)))"
  have len: "int (length (bg_completed s l)) = k + 1"
    using ne by (cases "bg_completed s l") (auto simp: k_def)
  have c: "bg_counts s' n = bg_counts s n + (if n = ''bpp'' @ t_values r ''bpp'' then 1 else 0) +
      (if n = screen_text l then 1 else 0) + (if n = ''cells'' then 1 else 0) +
      (if n = ''raw_superseded'' then k else 0)" if "n \<noteq> ''cpu_rom_movsb_cells''" for n
    using that unfolding s' k_def [symmetric] by (simp add: bump_apply add_count_apply split del: if_split)
  have w: "waiting m s' = (if m = l then waiting l s - k - 1 else waiting m s)" for m
    unfolding s' waiting_def using len by simp
  have o: "length (bg_output s') = length (bg_output s) + 1" unfolding s' by simp
  have layers: "groups_seen s' = groups_seen s" "cells_seen s' = cells_seen s + 1"
    by (cases l; use b in \<open>auto simp: groups_seen_def cells_seen_def c w screen_text_def\<close>)+
  consider "t_values r ''bpp'' = ''2''" | "t_values r ''bpp'' = ''4''" using b by auto
  then have "bg_tally s \<longrightarrow> bg_tally s'"
    by cases (cases l; simp add: bg_tally_def c o screen_text_def)+
  then show ?thesis using layers True by (simp add: is_cell_def)
qed

lemma bg_mem_row_counts:
  assumes "bg_mem_row r s = Inr s'"
  shows "groups_seen s' = groups_seen s + 0 \<and> cells_seen s' = cells_seen s \<and> (bg_tally s \<longrightarrow> bg_tally s')"
proof (rule counts_frame [of _ _ Screen1])
  obtain m where "s' = s\<lparr>bg_memory := m\<rparr>"
    using assms by (cases "t_values r ''event'' = ''mem''") (auto simp: bg_mem_row_def rbind_eq_Inr intro: that [of "bg_memory s"])
  then show "bg_counts s' n = bg_counts s n" "bg_output s' = bg_output s"
    "waiting l s' = waiting l s + (if l = Screen1 then 0 else 0)" for n l by (simp_all add: waiting_def)
qed

interpretation raw_groups: res_counter "bg_raw_row coverage" bg_tally groups_seen is_map_read for coverage
  by unfold_locales (auto dest: bg_raw_row_counts)
interpretation raw_cells: res_counter "bg_raw_row coverage" bg_tally cells_seen "\<lambda>_. 0" for coverage
  by unfold_locales (auto dest: bg_raw_row_counts)
interpretation cell_groups: res_counter "bg_cell_row coverage" bg_tally groups_seen "\<lambda>_. 0" for coverage
  by unfold_locales (auto dest: bg_cell_row_counts)
interpretation cell_cells: res_counter "bg_cell_row coverage" bg_tally cells_seen is_cell for coverage
  by unfold_locales (auto dest: bg_cell_row_counts)
interpretation mem_groups: res_counter bg_mem_row bg_tally groups_seen "\<lambda>_. 0"
  by unfold_locales (auto dest: bg_mem_row_counts)
interpretation mem_cells: res_counter bg_mem_row bg_tally cells_seen "\<lambda>_. 0"
  by unfold_locales (auto dest: bg_mem_row_counts)

lemma bg_cycle_parts:
  assumes "bg_cycle coverage rows s = Inr s'"
  obtains s1 s2 where "fold_res (bg_raw_row coverage) rows s = Inr s1" "fold_res (bg_cell_row coverage) rows s1 = Inr s2"
    "fold_res bg_mem_row rows s2 = Inr s'"
  using assms by (auto simp: bg_cycle_def rbind_eq_Inr)

lemma bg_cycle_counts:
  assumes "bg_tally s" and "bg_cycle coverage rows s = Inr s'"
  shows "bg_tally s' \<and> groups_seen s' = groups_seen s + sum_list (map is_map_read rows) \<and>
    cells_seen s' = cells_seen s + sum_list (map is_cell rows)"
proof -
  from assms(2) obtain s1 s2 where c: "fold_res (bg_raw_row coverage) rows s = Inr s1"
      "fold_res (bg_cell_row coverage) rows s1 = Inr s2" "fold_res bg_mem_row rows s2 = Inr s'" by (rule bg_cycle_parts)
  note t1 = raw_groups.run_inv [OF assms(1) c(1)]
  note t2 = cell_groups.run_inv [OF t1 c(2)]
  show ?thesis
    using raw_groups.run_total [OF assms(1) c(1)] raw_cells.run_total [OF assms(1) c(1)]
      cell_groups.run_total [OF t1 c(2)] cell_cells.run_total [OF t1 c(2)]
      mem_groups.run_total [OF t2 c(3)] mem_cells.run_total [OF t2 c(3)] mem_groups.run_inv [OF t2 c(3)] by simp
qed

interpretation bg_groups: res_counter "bg_cycle coverage" bg_tally groups_seen "\<lambda>rows. sum_list (map is_map_read rows)"
  for coverage
  by unfold_locales (auto dest: bg_cycle_counts)
interpretation bg_cells: res_counter "bg_cycle coverage" bg_tally cells_seen "\<lambda>rows. sum_list (map is_cell rows)"
  for coverage
  by unfold_locales (auto dest: bg_cycle_counts)

lemma bg_correlate_Inr:
  assumes "bg_correlate fs trace source require_coverage fieldnames records = Inr (counts', out)"
  obtains coverage ram s s' where "bg_read_manifest fs trace source = Inr (coverage, ram)"
    and "fold_res (bg_cycle coverage) (group_rows (map trace_row_of (numbered_rows fieldnames records))) (bg_start ram) = Inr s"
    and "fold_res bg_finish_layer [Screen1, Screen2] s = Inr s'" and "counts' = bg_tracker_counts s'"
    and "out = bg_output s'"
proof -
  obtain coverage ram g s s' where r: "bg_read_manifest fs trace source = Inr (coverage, ram)"
      and g: "fold_res (pull_row (bg_cycle coverage)) (numbered_rows fieldnames records)
        \<lparr>g_previous = -1, g_rows = [], g_state = bg_start ram\<rparr> = Inr g"
      and p: "bg_cycle coverage (g_rows g) (g_state g) = Inr s"
      and f: "fold_res bg_finish_layer [Screen1, Screen2] s = Inr s'" "counts' = bg_tracker_counts s'" "out = bg_output s'"
    using assms unfolding bg_correlate_def by (auto simp: rbind_eq_Inr split: if_splits simp del: fold_res.simps)
  have nil: "bg_cycle coverage [] s = Inr s" for s by (simp add: bg_cycle_def)
  from pull_rows_groups [of "bg_cycle coverage", OF nil g _ p] show thesis using that [OF r _ f] by simp
qed

lemma bg_finish_counts:
  assumes "bg_finish_layer l s = Inr s'"
  shows "bg_counts s' ''raw_superseded'' + bg_counts s' ''raw_unpromoted'' + bg_counts s' ''raw_inflight'' =
      bg_counts s ''raw_superseded'' + bg_counts s ''raw_unpromoted'' + bg_counts s ''raw_inflight'' + waiting l s \<and>
    bg_building s' = bg_building s \<and> bg_completed s' = bg_completed s \<and> bg_output s' = bg_output s \<and>
    (\<forall>n\<in>{''cells'', ''screen1'', ''screen2'', ''bpp2'', ''bpp4''}. bg_counts s' n = bg_counts s n)"
  using assms by (auto simp: bg_finish_layer_def waiting_def bump_def add_count_def split: if_splits)

lemma sum_list_concat_map: "sum_list (map (\<lambda>g. sum_list (map f g)) gs) = sum_list (map f (concat gs))" for f :: "'a \<Rightarrow> int"
  by (induction gs) auto

text \<open>
  C18: Every raw map fetch is accounted for. When a background correlation succeeds, the map fetches of
  the trace are exactly the cells shown, the groups superseded, the groups never promoted and the groups
  still in flight at the end; the cells are the cell events of the trace, each written out once, and
  they split by layer and by depth.
\<close>

theorem bg_groups_accounted:
  assumes "bg_correlate fs trace source require_coverage fieldnames records = Inr (counts', out)"
  shows "(\<Sum>r\<leftarrow>numbered_rows fieldnames records. is_map_read (trace_row_of r)) =
      counts' ''cells'' + counts' ''raw_superseded'' + counts' ''raw_unpromoted'' + counts' ''raw_inflight'' \<and>
    counts' ''cells'' = (\<Sum>r\<leftarrow>numbered_rows fieldnames records. is_cell (trace_row_of r)) \<and>
    counts' ''cells'' = int (length out) \<and>
    counts' ''cells'' = counts' ''screen1'' + counts' ''screen2'' \<and>
    counts' ''cells'' = counts' ''bpp2'' + counts' ''bpp4''"
proof -
  obtain coverage ram s s' where run: "fold_res (bg_cycle coverage)
        (group_rows (map trace_row_of (numbered_rows fieldnames records))) (bg_start ram) = Inr s"
      and f: "fold_res bg_finish_layer [Screen1, Screen2] s = Inr s'" "counts' = bg_tracker_counts s'" "out = bg_output s'"
    using bg_correlate_Inr [OF assms] by metis
  have start: "bg_tally (bg_start ram)" "groups_seen (bg_start ram) = 0" "cells_seen (bg_start ram) = 0"
    by (simp_all add: bg_tally_def groups_seen_def cells_seen_def waiting_def bg_start_def)
  have tally: "bg_tally s" by (rule bg_groups.run_inv [OF start(1) run])
  have groups: "groups_seen s = (\<Sum>r\<leftarrow>numbered_rows fieldnames records. is_map_read (trace_row_of r))"
    using bg_groups.run_total [OF start(1) run] start
    by (simp add: sum_list_concat_map concat_group_rows o_def)
  have cells: "cells_seen s = (\<Sum>r\<leftarrow>numbered_rows fieldnames records. is_cell (trace_row_of r))"
    using bg_cells.run_total [OF start(1) run] start
    by (simp add: sum_list_concat_map concat_group_rows o_def)
  obtain s1 where f1: "bg_finish_layer Screen1 s = Inr s1" "bg_finish_layer Screen2 s1 = Inr s'"
    using f(1) by (auto simp: rbind_eq_Inr)
  have w: "waiting Screen2 s1 = waiting Screen2 s" using bg_finish_counts [OF f1(1)] by (simp add: waiting_def)
  have other: "counts' n = bg_counts s' n" if "n \<notin> {''cpu_rom_movsb_bytes'', ''cpu_rom_movsb_origins''}" for n
    using that by (simp add: f(2) bg_tracker_counts_def)
  show ?thesis
    using bg_finish_counts [OF f1(1)] bg_finish_counts [OF f1(2)] w tally groups cells
    by (simp add: other f(3) bg_tally_def groups_seen_def cells_seen_def)
qed

end
