(* ===== verification/Display_Facts.thy ===== *)
theory Display_Facts
  imports Bg_Facts
begin

unbundle bit_operations_syntax

text \<open>
  Facts the two display correlators share: what a raw snapshot says of the scoreboard bytes, how a
  word is composed from its bytes, and how the exported byte columns are read back.
\<close>

section \<open>Words and bytes\<close>

text \<open>A word or a row from its bytes, least significant first.\<close>

fun compose :: "int list \<Rightarrow> int" where
  "compose [] = 0"
| "compose (b # bs) = b OR push_bit 8 (compose bs)"

definition snap_ok :: "'a snapshot_scheme \<Rightarrow> bool" where
  "snap_ok sn \<longleftrightarrow> (sn_status sn = ''match'' \<longrightarrow> sn_low sn \<noteq> None \<and> sn_high sn \<noteq> None \<and>
       sn_value sn = compose [bv_value (the (sn_low sn)), bv_value (the (sn_high sn))]) \<and>
     (sn_low sn \<noteq> None \<longrightarrow> sn_high sn \<noteq> None \<longrightarrow> sn_collision sn = 0 \<longrightarrow> sn_status sn \<in> {''match'', ''mismatch''})"

lemma decimal_Inr [res_simps]:
  "decimal r name m = Inr x \<longleftrightarrow> py_int10 (t_values r name) = Some x \<and> 0 \<le> x \<and> x \<le> m"
  by (auto simp: decimal_def split: option.splits)

lemma accepted_word:
  assumes "snap_ok sn" and "sn_collision sn = 0" and "sn_status sn \<noteq> ''mismatch''"
    and "sn_low sn = Some low" and "sn_high sn = Some high"
  shows "sn_value sn = compose [bv_value low, bv_value high]"
  using assms by (auto simp: snap_ok_def)

lemma compose_four: "compose [a, b] OR push_bit 16 (compose [c, d]) = compose [a, b, c, d]"
  by (simp add: push_bit_or or.assoc)

lemma summarize_match: "fst (summarize_row versions) = ''match'' \<Longrightarrow> list_all (\<lambda>v. v \<noteq> None) versions"
proof (rule ccontr)
  assume "\<not> list_all (\<lambda>v. v \<noteq> None) versions" and "fst (summarize_row versions) = ''match''"
  moreover from this(1) have "list_ex (\<lambda>v. v = None) versions" by (auto simp: list_ex_iff list_all_iff)
  ultimately show False by (simp add: summarize_row_def split: if_splits)
qed

section \<open>The exported columns\<close>

text \<open>The number a column of an exported record holds, and the row bytes it exports.\<close>

definition byte_column :: "out_record \<Rightarrow> string \<Rightarrow> int option" where
  "byte_column o' prefix = (case map_of o' (prefix @ ''_value'') of Some (CInt n) \<Rightarrow> Some n | _ \<Rightarrow> None)"

definition text_column :: "out_record \<Rightarrow> string \<Rightarrow> string" where
  "text_column o' name = (case map_of o' name of Some (CText t) \<Rightarrow> t | _ \<Rightarrow> [])"

definition row_bytes_of :: "out_record \<Rightarrow> int list" where
  "row_bytes_of o' = map the (filter (\<lambda>b. b \<noteq> None) (map (byte_column o') [''row_b0'', ''row_b1'', ''row_b2'', ''row_b3'']))"

definition value_cell :: "byte_version option \<Rightarrow> cell" where
  "value_cell v = (case v of None \<Rightarrow> CText [] | Some v \<Rightarrow> CInt (bv_value v))"

lemma byte_fields_columns:
  assumes "byte_fields p v = Inr o'"
  shows "(\<forall>k. take (length p) k \<noteq> p \<longrightarrow> map_of o' k = None) \<and> map_of o' (p @ ''_value'') = Some (value_cell v)"
proof (cases v)
  case None
  then have "o' = (p @ ''_value'', CText []) #
          map (\<lambda>suffix. (p @ ''_'' @ suffix, CText []))
            [''write_line'', ''write_cycle'', ''initiator'', ''instruction_id'', ''origin_pc'',
             ''source_space'', ''source_offset'', ''source_read_cycle'']"
    using assms by (simp add: byte_fields_def)
  then show ?thesis using None by (auto simp: value_cell_def)
next
  case (Some x)
  then obtain a b c d e f g h where "o' = [(p @ ''_value'', CInt (bv_value x)), (p @ ''_write_line'', a), (p @ ''_write_cycle'', b),
      (p @ ''_initiator'', c), (p @ ''_instruction_id'', d), (p @ ''_origin_pc'', e), (p @ ''_source_space'', f),
      (p @ ''_source_offset'', g), (p @ ''_source_read_cycle'', h)]"
    using assms by (auto simp: byte_fields_def Let_def rbind_eq_Inr)
  then show ?thesis using Some by (auto simp: value_cell_def)
qed

lemma value_cell_number: "(case value_cell v of CInt n \<Rightarrow> Some n | CText t \<Rightarrow> None) = map_option bv_value v"
  by (simp add: value_cell_def split: option.splits)

lemma pad_filter:
  assumes "length versions \<le> 4" and "list_all (\<lambda>v. v \<noteq> None) versions"
  shows "map the (filter (\<lambda>b. b \<noteq> None) (map (map_option bv_value) (pad_versions versions))) = map (bv_value \<circ> the) versions"
proof -
  have p: "pad_versions versions = versions @ replicate (4 - length versions) None"
  proof -
    have "[None, None, None, None] = replicate 4 (None :: byte_version option)" by (simp add: numeral_eq_Suc)
    then show ?thesis using assms(1) by (simp add: pad_versions_def min_def)
  qed
  have "filter (\<lambda>b. b \<noteq> None) (map (map_option bv_value) versions) = map (map_option bv_value) versions"
    using assms(2) by (auto simp: filter_id_conv list_all_iff)
  moreover have "map the (map (map_option bv_value) versions) = map (bv_value \<circ> the) versions"
    using assms(2) by (auto simp: list_all_iff)
  ultimately show ?thesis by (simp add: p)
qed

end
