(* ===== verification/Bg_Results.thy ===== *)
theory Bg_Results
  imports Display_Facts
begin

unbundle bit_operations_syntax

text \<open>
  Every background cell that is exported as matching shows the bytes of the scoreboard
  (\<^verbatim>\<open>sim/verilator/correlate_bg_cells.py\<close>), and a trace with one such cell.
\<close>

lemma snapshot_fetch_Inr:
  assumes "snapshot_fetch r ram = Inr sn"
  obtains address value' collision writer source where "decimal r ''address'' 0xFFFF = Inr address"
    and "decimal r ''fetch_value'' 0xFFFF = Inr value'" and "decimal r ''fetch_collision'' 1 = Inr collision"
    and "sn = \<lparr>sn_row = r, sn_address = address, sn_value = value', sn_collision = collision,
             sn_low = ram address, sn_high = ram (address + 1),
             sn_status = scoreboard_status collision value' (ram address) (ram (address + 1)),
             sn_writer = writer, sn_source = source\<rparr>"
proof -
  obtain address value' collision where a: "decimal r ''address'' 0xFFFF = Inr address"
      "\<not> (address AND 1 \<noteq> 0 \<or> address = 0xFFFF)" "decimal r ''fetch_value'' 0xFFFF = Inr value'"
      "decimal r ''fetch_collision'' 1 = Inr collision"
    using assms by (auto simp: snapshot_fetch_def rbind_eq_Inr refuse_Inr)
  obtain ram_status writer source where s: "summarize_versions (ram address) (ram (address + 1)) = (ram_status, writer, source)"
    by (cases "summarize_versions (ram address) (ram (address + 1))")
  show thesis using assms a s by (intro that [OF a(1,3,4)]) (auto simp: snapshot_fetch_def refuse_def Let_def)
qed

lemma snapshot_fetch_ok:
  assumes "snapshot_fetch r ram = Inr sn"
  shows "snap_ok sn"
  using assms by (rule snapshot_fetch_Inr) (auto simp: snap_ok_def scoreboard_status_def split: option.splits if_splits)

definition group_ok :: "raw_group \<Rightarrow> bool" where
  "group_ok g \<longleftrightarrow> snap_ok (rg_map g) \<and> list_all snap_ok (rg_tiles g)"

lemma check_snapshot_Inr [res_simps]: "check_snapshot sn u = Inr v \<longleftrightarrow> sn_collision sn = 0 \<and> sn_status sn \<noteq> ''mismatch''"
  by (simp add: check_snapshot_def res_simps)

lemma check_snapshots_Inr: "fold_res check_snapshot sns u = Inr v \<longleftrightarrow>
    list_all (\<lambda>sn. sn_collision sn = 0 \<and> sn_status sn \<noteq> ''mismatch'') sns"
  by (induction sns) (auto simp: res_simps)

lemma select_words_Inr:
  assumes "select_words r bpp row_address tile0 tile1 = Inr (contributing, wanted, collision)"
  shows "contributing \<noteq> [] \<and> set contributing \<subseteq> {tile0, tile1} \<and>
    (contributing = [tile0] \<and> wanted = sn_value tile0 \<or> contributing = [tile1] \<and> wanted = sn_value tile1 \<or>
     contributing = [tile0, tile1] \<and> wanted = sn_value tile0 OR push_bit 16 (sn_value tile1))"
  using assms by (auto simp: select_words_def res_simps split: if_splits list.splits)

lemma validate_tiles_Inr:
  assumes "validate_tiles r i tile0 tile1 = Inr (contributing, collision)"
  shows "\<exists>bpp wanted row_address collision'. select_words r bpp row_address tile0 tile1 = Inr (contributing, wanted, collision') \<and>
    py_int10 (t_values r ''tile_row_value'') = Some wanted"
proof -
  show ?thesis
    using assms unfolding validate_tiles_def
    by (simp only: rbind_eq_Inr decimal_Inr refuse_Inr) (force simp: res_simps split: prod.splits)
qed

lemma validate_cell_value:
  assumes "validate_cell r g = Inr (contributing, versions)" and "group_ok g" and "list_all (\<lambda>v. v \<noteq> None) versions"
  shows "py_int10 (t_values r ''tile_row_value'') = Some (compose (map (bv_value \<circ> the) versions)) \<and>
    length versions \<le> 4"
proof -
  obtain i c0 where m: "validate_map r g = Inr (i, c0)" using assms(1) by (auto simp: validate_cell_def rbind_eq_Inr)
  obtain tile0 tile1 where t: "rg_tiles g = [tile0, tile1]"
    using assms(1) m by (auto simp: validate_cell_def split: list.splits)
  obtain rc where v: "validate_tiles r i tile0 tile1 = Inr (contributing, rc)"
      and ch: "list_all (\<lambda>sn. sn_collision sn = 0 \<and> sn_status sn \<noteq> ''mismatch'') contributing"
      and vs: "versions = concat (map (\<lambda>fetch. [sn_low fetch, sn_high fetch]) contributing)"
    using assms(1) m t by (auto simp: validate_cell_def rbind_eq_Inr check_snapshots_Inr refuse_Inr check_snapshot_Inr)
  obtain wanted where w: "py_int10 (t_values r ''tile_row_value'') = Some wanted"
      and sel: "contributing = [tile0] \<and> wanted = sn_value tile0 \<or> contributing = [tile1] \<and> wanted = sn_value tile1 \<or>
       contributing = [tile0, tile1] \<and> wanted = sn_value tile0 OR push_bit 16 (sn_value tile1)"
    using validate_tiles_Inr [OF v] select_words_Inr by metis
  have word: "sn_value sn = compose [bv_value (the (sn_low sn)), bv_value (the (sn_high sn))]"
    if "sn \<in> set contributing" for sn
  proof -
    have "snap_ok sn" using that sel assms(2) t by (auto simp: group_ok_def)
    moreover have "sn_low sn \<noteq> None" "sn_high sn \<noteq> None" using that assms(3) vs by (auto simp: list_all_iff)
    ultimately show ?thesis using that ch accepted_word [of sn] by (auto simp: list_all_iff)
  qed
  from sel show ?thesis
    using w word vs compose_four by (elim disjE conjE) (auto simp: o_def simp del: compose.simps)
qed

lemma bg_record_columns:
  assumes "bg_record coverage r index g contributing versions = Inr o'" and "rg_tiles g = [tile0, tile1]"
  shows "map_of o' ''row_scoreboard_status'' = Some (CText (fst (summarize_row versions))) \<and>
    map_of o' ''tile_row_value'' = Some (CText (t_values r ''tile_row_value'')) \<and>
    map_of o' ''map_value'' = Some (CText (t_values r ''map_value'')) \<and>
    map_of o' ''map_scoreboard_status'' = Some (CText (sn_status (rg_map g))) \<and>
    map_of o' ''map_lo_value'' = Some (value_cell (sn_low (rg_map g))) \<and>
    map_of o' ''map_hi_value'' = Some (value_cell (sn_high (rg_map g))) \<and>
    map (\<lambda>p. map_of o' (p @ ''_value'')) [''row_b0'', ''row_b1'', ''row_b2'', ''row_b3''] =
      map (\<lambda>v. Some (value_cell v)) (pad_versions versions)"
proof -
  obtain row_status row_writer row_source where s: "summarize_row versions = (row_status, row_writer, row_source)"
    by (cases "summarize_row versions")
  obtain lo hi rows where lo: "byte_fields ''map_lo'' (sn_low (rg_map g)) = Inr lo"
      and hi: "byte_fields ''map_hi'' (sn_high (rg_map g)) = Inr hi"
      and rows: "map_res (\<lambda>(p, v). byte_fields p v)
               (zip [''row_b0'', ''row_b1'', ''row_b2'', ''row_b3''] (pad_versions versions)) = Inr rows"
      and o': "o' = ([(''cell_index'', CInt index), (''line'', CInt (t_line r)), (''cycle'', CInt (row_cycle r)),
            (''bg_layer'', CText (screen_text (rg_layer g))), (''coverage_status'', CText (coverage_text coverage)),
            (''map_raw_line'', CInt (t_line (sn_row (rg_map g)))), (''map_raw_cycle'', CInt (row_cycle (sn_row (rg_map g)))),
            (''map_raw_collision'', CInt (sn_collision (rg_map g))), (''map_scoreboard_status'', CText (sn_status (rg_map g))),
            (''map_writer_summary'', CText (sn_writer (rg_map g))), (''map_source_summary'', CText (sn_source (rg_map g)))] @
           (raw_columns ''tile0'' tile0 @ raw_columns ''tile1'' tile1) @
           [(''contributing_raw_lines'', CText (join_semicolon (map (\<lambda>sn. py_str (t_line (sn_row sn))) contributing))),
            (''contributing_raw_cycles'', CText (join_semicolon (map (\<lambda>sn. py_str (row_cycle (sn_row sn))) contributing))),
            (''row_scoreboard_status'', CText row_status), (''row_writer_summary'', CText row_writer),
            (''row_source_summary'', CText row_source)] @
           map (\<lambda>name. (name, CText (t_values r name))) (filter (\<lambda>name. name \<noteq> ''bg_layer'') BG_FIELDS)) @
           lo @ hi @ concat rows"
    using assms unfolding bg_record_def Let_def s by (auto simp: rbind_eq_Inr)
  have "length (pad_versions versions) = 4" by (simp add: pad_versions_def)
  then obtain v0 v1 v2 v3 where v: "pad_versions versions = [v0, v1, v2, v3]"
    by (auto simp: numeral_eq_Suc length_Suc_conv)
  obtain r0 r1 r2 r3 where r: "rows = [r0, r1, r2, r3]" "byte_fields ''row_b0'' v0 = Inr r0" "byte_fields ''row_b1'' v1 = Inr r1"
      "byte_fields ''row_b2'' v2 = Inr r2" "byte_fields ''row_b3'' v3 = Inr r3"
    using rows v by (auto simp: rbind_eq_Inr)
  note cols = byte_fields_columns [OF lo] byte_fields_columns [OF hi] byte_fields_columns [OF r(2)]
    byte_fields_columns [OF r(3)] byte_fields_columns [OF r(4)] byte_fields_columns [OF r(5)]
  show ?thesis
    unfolding o' v r(1) s
    using cols by (simp add: raw_columns_def BG_FIELDS_def map_add_def)
qed

definition cell_shows :: "out_record \<Rightarrow> bool" where
  "cell_shows o' \<longleftrightarrow>
     (text_column o' ''row_scoreboard_status'' = ''match'' \<longrightarrow>
        py_int10 (text_column o' ''tile_row_value'') = Some (compose (row_bytes_of o'))) \<and>
     (text_column o' ''map_scoreboard_status'' = ''match'' \<longrightarrow>
        (\<exists>low high. byte_column o' ''map_lo'' = Some low \<and> byte_column o' ''map_hi'' = Some high \<and>
           py_int10 (text_column o' ''map_value'') = Some (compose [low, high])))"

lemma validate_map_word:
  assumes "validate_map r g = Inr x"
  shows "py_int10 (t_values r ''map_value'') = Some (sn_value (rg_map g))"
  using assms unfolding validate_map_def Let_def
  by (simp only: rbind_eq_Inr decimal_Inr refuse_Inr not_not) auto

lemma validate_cell_parts:
  assumes "validate_cell r g = Inr (contributing, versions)"
  shows "\<exists>tile0 tile1. rg_tiles g = [tile0, tile1]" and "\<exists>x. validate_map r g = Inr x"
proof -
  show m: "\<exists>x. validate_map r g = Inr x" using assms by (auto simp: validate_cell_def rbind_eq_Inr)
  then show "\<exists>tile0 tile1. rg_tiles g = [tile0, tile1]"
    using assms by (auto simp: validate_cell_def split: list.splits)
qed

lemma bg_record_shows:
  assumes "bg_record coverage r index g contributing versions = Inr o'"
    and "validate_cell r g = Inr (contributing, versions)" and "group_ok g"
  shows "cell_shows o'"
proof -
  obtain tile0 tile1 where t: "rg_tiles g = [tile0, tile1]" using validate_cell_parts [OF assms(2)] by blast
  note c = bg_record_columns [OF assms(1) t]
  have bytes: "map (byte_column o') [''row_b0'', ''row_b1'', ''row_b2'', ''row_b3''] = map (map_option bv_value) (pad_versions versions)"
  proof -
    have "map (byte_column o') [''row_b0'', ''row_b1'', ''row_b2'', ''row_b3''] =
        map (\<lambda>c. case c of Some (CInt n) \<Rightarrow> Some n | _ \<Rightarrow> None)
          (map (\<lambda>p. map_of o' (p @ ''_value'')) [''row_b0'', ''row_b1'', ''row_b2'', ''row_b3''])"
      by (simp add: byte_column_def)
    also have "\<dots> = map (map_option bv_value) (pad_versions versions)"
      using c by (simp add: value_cell_number o_def del: map_of.simps)
    finally show ?thesis .
  qed
  have row: "py_int10 (t_values r ''tile_row_value'') = Some (compose (row_bytes_of o'))"
    if "fst (summarize_row versions) = ''match''"
  proof -
    note v = validate_cell_value [OF assms(2,3) summarize_match [OF that]]
    show ?thesis
      using v pad_filter [OF _ summarize_match [OF that]] unfolding row_bytes_of_def bytes by simp
  qed
  have word: "\<exists>low high. byte_column o' ''map_lo'' = Some low \<and> byte_column o' ''map_hi'' = Some high \<and>
      py_int10 (t_values r ''map_value'') = Some (compose [low, high])" if m: "sn_status (rg_map g) = ''match''"
  proof -
    obtain low high where lh: "sn_low (rg_map g) = Some low" "sn_high (rg_map g) = Some high"
        "sn_value (rg_map g) = compose [bv_value low, bv_value high]"
      using assms(3) m by (auto simp: group_ok_def snap_ok_def)
    have "byte_column o' ''map_lo'' = Some (bv_value low)" "byte_column o' ''map_hi'' = Some (bv_value high)"
      using c lh by (simp_all add: byte_column_def value_cell_def)
    then show ?thesis using validate_cell_parts(2) [OF assms(2)] validate_map_word lh(3) by fastforce
  qed
  show ?thesis using c row word by (auto simp: cell_shows_def text_column_def)
qed

definition bg_backed :: "bg_state \<Rightarrow> bool" where
  "bg_backed s \<longleftrightarrow> (\<forall>l. case bg_building s l of None \<Rightarrow> True | Some g \<Rightarrow> group_ok g) \<and>
     (\<forall>l. list_all group_ok (bg_completed s l)) \<and> list_all cell_shows (bg_output s)"

lemma raw_map_backed:
  assumes "raw_map r l sn s = Inr s'" and "snap_ok sn" and "bg_backed s"
  shows "bg_backed s'"
proof -
  have "bg_building s' = (bg_building s)(l := Some \<lparr>rg_layer = l, rg_map = sn, rg_tiles = []\<rparr>) \<and>
      bg_completed s' = bg_completed s \<and> bg_output s' = bg_output s"
    using assms(1) by (auto simp: raw_map_def Let_def res_simps)
  then show ?thesis using assms(2,3) by (auto simp: bg_backed_def group_ok_def)
qed

lemma raw_tile_backed:
  assumes "raw_tile coverage r l sn s = Inr s'" and "snap_ok sn" and "bg_backed s"
  shows "bg_backed s'"
proof (cases "bg_building s l")
  case None
  then show ?thesis using assms by (auto simp: raw_tile_def res_simps bg_backed_def split: if_splits)
next
  case (Some g)
  let ?g = "g\<lparr>rg_tiles := rg_tiles g @ [sn]\<rparr>"
  have g: "group_ok ?g" using assms(2,3) Some by (auto simp: bg_backed_def group_ok_def split: option.splits)
  consider (full) "s' = s\<lparr>bg_completed := (bg_completed s)(l := bg_completed s l @ [?g]),
      bg_building := (bg_building s)(l := None)\<rparr>"
    | (part) "s' = s\<lparr>bg_building := (bg_building s)(l := Some ?g)\<rparr>"
    using assms Some unfolding raw_tile_def Let_def by (simp split: if_splits)
  then show ?thesis using g assms(3) by cases (auto simp: bg_backed_def)
qed

lemma bg_raw_row_backed:
  assumes "bg_backed s" and "bg_raw_row coverage r s = Inr s'"
  shows "bg_backed s'"
  using assms(2)
proof (rule bg_raw_row_cases)
  show "bg_backed s'" if "s' = s" using that assms(1) by simp
  show "bg_backed s'" if "snapshot_fetch r (sb_iram (bg_memory s)) = Inr sn" "raw_map r l sn s = Inr s'" for l sn
    using raw_map_backed [OF that(2) snapshot_fetch_ok [OF that(1)] assms(1)] .
  show "bg_backed s'" if "snapshot_fetch r (sb_iram (bg_memory s)) = Inr sn" "raw_tile coverage r l sn s = Inr s'" for l sn
    using raw_tile_backed [OF that(2) snapshot_fetch_ok [OF that(1)] assms(1)] .
qed

lemma bg_cell_row_backed:
  assumes "bg_backed s" and "bg_cell_row coverage r s = Inr s'"
  shows "bg_backed s'"
proof (cases "t_values r ''event'' = ''bg_cell''")
  case False
  then show ?thesis using assms by (simp add: bg_cell_row_def)
next
  case True
  from assms(2) True obtain l g contributing versions record' cs where ne: "bg_completed s l \<noteq> []"
      and g: "g = last (bg_completed s l)" and v: "validate_cell r g = Inr (contributing, versions)"
      and o': "bg_record coverage r (bg_counts s ''cells'') g contributing versions = Inr record'"
      and s': "s' = s\<lparr>bg_completed := (bg_completed s)(l := []), bg_counts := cs, bg_output := bg_output s @ [record']\<rparr>"
    by (rule bg_cell_row_cell) blast
  have "group_ok g" using assms(1) last_in_set [OF ne] g by (auto simp: bg_backed_def list_all_iff)
  then have "cell_shows record'" using bg_record_shows [OF o' v] by simp
  then show ?thesis using assms(1) by (auto simp: s' bg_backed_def)
qed

lemma bg_mem_row_backed:
  assumes "bg_backed s" and "bg_mem_row r s = Inr s'"
  shows "bg_backed s'"
  using assms by (auto simp: bg_mem_row_def bg_backed_def rbind_eq_Inr split: if_splits)

interpretation raw_backed: res_machine "bg_raw_row coverage" bg_backed for coverage
  by unfold_locales (rule bg_raw_row_backed)
interpretation cell_backed: res_machine "bg_cell_row coverage" bg_backed for coverage
  by unfold_locales (rule bg_cell_row_backed)
interpretation mem_backed: res_machine bg_mem_row bg_backed
  by unfold_locales (rule bg_mem_row_backed)

lemma bg_cycle_backed:
  assumes "bg_backed s" and "bg_cycle coverage rows s = Inr s'"
  shows "bg_backed s'"
proof -
  from assms(2) obtain s1 s2 where c: "fold_res (bg_raw_row coverage) rows s = Inr s1"
      "fold_res (bg_cell_row coverage) rows s1 = Inr s2" "fold_res bg_mem_row rows s2 = Inr s'" by (rule bg_cycle_parts)
  show ?thesis
    by (rule mem_backed.run_inv [OF cell_backed.run_inv [OF raw_backed.run_inv [OF assms(1) c(1)] c(2)] c(3)])
qed

interpretation cycle_backed: res_machine "bg_cycle coverage" bg_backed for coverage
  by unfold_locales (rule bg_cycle_backed)

text \<open>
  C16: An exported cell that matches shows the bytes of memory. In every record a successful background
  correlation writes out, a row marked as matching has as tile value exactly its exported scoreboard
  bytes, least significant first, and a map word marked as matching is its two exported bytes.
\<close>

theorem bg_cells_show_memory:
  assumes "bg_correlate fs trace source require_coverage fieldnames records = Inr (counts', out)"
  shows "list_all cell_shows out"
proof -
  obtain coverage ram s s' where run: "fold_res (bg_cycle coverage)
        (group_rows (map trace_row_of (numbered_rows fieldnames records))) (bg_start ram) = Inr s"
      and f: "fold_res bg_finish_layer [Screen1, Screen2] s = Inr s'" "out = bg_output s'"
    using bg_correlate_Inr [OF assms] by metis
  have start: "bg_backed (bg_start ram)" by (simp add: bg_backed_def bg_start_def)
  have "bg_output s' = bg_output s"
    using f(1) by (auto simp: rbind_eq_Inr dest!: bg_finish_counts)
  then show ?thesis using cycle_backed.run_inv [OF start run] f(2) by (simp add: bg_backed_def)
qed

section \<open>A cell and its reads\<close>

text \<open>Two DMA writes, the raw reads of one map word and one tile row, and the cell they make.\<close>

definition bg_map_write_example :: "string list" where
  "bg_map_write_example = [''1'', ''mem'', [], [], [], ''4226'', ''517'', [], ''gdma'', ''write'', ''3'', ''iram'', ''4226'', [], [], ''not_applicable'', [], []] @ replicate 18 []"

definition bg_map_write :: row where "bg_map_write = dict_row FIELDS_V5 bg_map_write_example"

definition bg_tile_write_example :: "string list" where
  "bg_tile_write_example = [''2'', ''mem'', [], [], [], ''8278'', ''1'', [], ''gdma'', ''write'', ''3'', ''iram'', ''8278'', [], [], ''not_applicable'', [], []] @ replicate 18 []"

definition bg_tile_write :: row where "bg_tile_write = dict_row FIELDS_V5 bg_tile_write_example"

definition bg_map_read_example :: "string list" where
  "bg_map_read_example = [''3'', ''vram'', [], [], [], ''4226'', [], ''screen1_map'', [], [], [], [], [], [], [], [], ''517'', ''0''] @ replicate 18 []"

definition bg_map_read :: row where "bg_map_read = dict_row FIELDS_V5 bg_map_read_example"

definition bg_tile_read_0_example :: "string list" where
  "bg_tile_read_0_example = [''5'', ''vram'', [], [], [], ''8276'', [], ''screen1_tile'', [], [], [], [], [], [], [], [], ''0'', ''0''] @ replicate 18 []"

definition bg_tile_read_0 :: row where "bg_tile_read_0 = dict_row FIELDS_V5 bg_tile_read_0_example"

definition bg_tile_read_1_example :: "string list" where
  "bg_tile_read_1_example = [''8'', ''vram'', [], [], [], ''8278'', [], ''screen1_tile'', [], [], [], [], [], [], [], [], ''1'', ''0''] @ replicate 18 []"

definition bg_tile_read_1 :: row where "bg_tile_read_1 = dict_row FIELDS_V5 bg_tile_read_1_example"

lemma bg_map_write_values:
  "bg_map_write ''cycle'' = ''1''"
  "bg_map_write ''event'' = ''mem''"
  "bg_map_write ''address'' = ''4226''"
  "bg_map_write ''value'' = ''517''"
  "bg_map_write ''initiator'' = ''gdma''"
  "bg_map_write ''access'' = ''write''"
  "bg_map_write ''byte_enable'' = ''3''"
  "bg_map_write ''space'' = ''iram''"
  by code_simp+

lemma bg_tile_write_values:
  "bg_tile_write ''cycle'' = ''2''"
  "bg_tile_write ''event'' = ''mem''"
  "bg_tile_write ''address'' = ''8278''"
  "bg_tile_write ''value'' = ''1''"
  "bg_tile_write ''initiator'' = ''gdma''"
  "bg_tile_write ''access'' = ''write''"
  "bg_tile_write ''byte_enable'' = ''3''"
  "bg_tile_write ''space'' = ''iram''"
  by code_simp+

lemma bg_map_read_values:
  "bg_map_read ''cycle'' = ''3''"
  "bg_map_read ''event'' = ''vram''"
  "bg_map_read ''address'' = ''4226''"
  "bg_map_read ''role'' = ''screen1_map''"
  "bg_map_read ''fetch_value'' = ''517''"
  "bg_map_read ''fetch_collision'' = ''0''"
  by code_simp+

lemma bg_tile_read_0_values:
  "bg_tile_read_0 ''cycle'' = ''5''"
  "bg_tile_read_0 ''event'' = ''vram''"
  "bg_tile_read_0 ''address'' = ''8276''"
  "bg_tile_read_0 ''role'' = ''screen1_tile''"
  "bg_tile_read_0 ''fetch_value'' = ''0''"
  "bg_tile_read_0 ''fetch_collision'' = ''0''"
  by code_simp+

lemma bg_tile_read_1_values:
  "bg_tile_read_1 ''cycle'' = ''8''"
  "bg_tile_read_1 ''event'' = ''vram''"
  "bg_tile_read_1 ''address'' = ''8278''"
  "bg_tile_read_1 ''role'' = ''screen1_tile''"
  "bg_tile_read_1 ''fetch_value'' = ''1''"
  "bg_tile_read_1 ''fetch_collision'' = ''0''"
  by code_simp+

lemmas bg_demo_values = bg_map_write_values bg_tile_write_values bg_map_read_values bg_tile_read_0_values bg_tile_read_1_values bg_row_values int_texts row_cycle_def field_def

definition bg_demo_records :: "string list list" where
  "bg_demo_records = [bg_map_write_example, bg_tile_write_example, bg_map_read_example, bg_tile_read_0_example, bg_tile_read_1_example, bg_example]"

lemma bg_demo_rows: "numbered_rows FIELDS_V5 bg_demo_records = [(2, bg_map_write), (3, bg_tile_write), (4, bg_map_read), (5, bg_tile_read_0), (6, bg_tile_read_1), (7, bg_row)]"
  by (simp add: numbered_rows_def bg_demo_records_def bg_row_def bg_map_write_def bg_tile_write_def bg_map_read_def bg_tile_read_0_def bg_tile_read_1_def)


definition bg_written :: "int \<Rightarrow> row \<Rightarrow> int \<Rightarrow> byte_version" where
  "bg_written line_no r b = \<lparr>bv_value = b, bv_write = Some \<lparr>t_line = line_no, t_values = r\<rparr>, bv_source = None, bv_lane = None\<rparr>"

definition bg_ram_1 :: iram where
  "bg_ram_1 = (\<lambda>_. None)(4226 := Some (bg_written 2 bg_map_write 5), 4227 := Some (bg_written 2 bg_map_write 2))"

definition bg_ram_2 :: iram where
  "bg_ram_2 = bg_ram_1(8278 := Some (bg_written 3 bg_tile_write 1), 8279 := Some (bg_written 3 bg_tile_write 0))"

lemmas bg_step_defs = bg_cycle_def bg_raw_row_def bg_cell_row_def bg_mem_row_def store_row_def observe_def
   observe_rest_def tracker_start_def retire_cpu_chain_def write_lane_def source_lane_def iram_index_def decimal_def refuse_def
   bg_role_def snapshot_fetch_def raw_map_def raw_tile_def

lemma bg_demo_1: "bg_cycle ObservedOnly [\<lparr>t_line = 2, t_values = bg_map_write\<rparr>] (bg_start (\<lambda>_. None)) = Inr (bg_start bg_ram_1)"
  by (simp add: bg_step_defs bg_demo_values bg_start_def Let_def bg_ram_1_def bg_written_def)

lemma bg_demo_2: "bg_cycle ObservedOnly [\<lparr>t_line = 3, t_values = bg_tile_write\<rparr>] (bg_start bg_ram_1) = Inr (bg_start bg_ram_2)"
  by (simp add: bg_step_defs bg_demo_values bg_start_def Let_def bg_ram_2_def bg_written_def)

definition bg_demo_snapshot :: "int \<Rightarrow> row \<Rightarrow> int \<Rightarrow> int \<Rightarrow> string \<Rightarrow> string \<Rightarrow> string \<Rightarrow> bg_snapshot" where
  "bg_demo_snapshot line_no r address word status writer source = \<lparr>sn_row = \<lparr>t_line = line_no, t_values = r\<rparr>, sn_address = address,
     sn_value = word, sn_collision = 0, sn_low = bg_ram_2 address, sn_high = bg_ram_2 (address + 1), sn_status = status,
     sn_writer = writer, sn_source = source\<rparr>"

definition bg_demo_group :: raw_group where
  "bg_demo_group = \<lparr>rg_layer = Screen1, rg_map = bg_demo_snapshot 4 bg_map_read 4226 517 ''match'' ''gdma'' ''gdma_unpaired'',
     rg_tiles = [bg_demo_snapshot 5 bg_tile_read_0 8276 0 ''unobserved'' ''none_observed'' ''none_observed'',
                 bg_demo_snapshot 6 bg_tile_read_1 8278 1 ''match'' ''gdma'' ''gdma_unpaired'']\<rparr>"

definition bg_demo_state :: "nat \<Rightarrow> bg_state" where
  "bg_demo_state n = (bg_start bg_ram_2)\<lparr>bg_saw_map := (\<lambda>_. False)(Screen1 := True),
     bg_building := (\<lambda>_. None)(Screen1 := Some (bg_demo_group\<lparr>rg_tiles := take n (rg_tiles bg_demo_group)\<rparr>))\<rparr>"

lemma bg_ram_2_values:
  "bg_ram_2 4226 = Some (bg_written 2 bg_map_write 5)" "bg_ram_2 4227 = Some (bg_written 2 bg_map_write 2)"
  "bg_ram_2 8276 = None" "bg_ram_2 8277 = None"
  "bg_ram_2 8278 = Some (bg_written 3 bg_tile_write 1)" "bg_ram_2 8279 = Some (bg_written 3 bg_tile_write 0)"
  by (simp_all add: bg_ram_2_def bg_ram_1_def)

lemmas bg_summary_defs = bg_ram_2_values summarize_versions_def same_row_def option_list_def writer_summary_def source_summary_def
   scoreboard_status_def bg_written_def

lemma bg_snapshot_map: "snapshot_fetch \<lparr>t_line = 4, t_values = bg_map_read\<rparr> bg_ram_2 =
    Inr (bg_demo_snapshot 4 bg_map_read 4226 517 ''match'' ''gdma'' ''gdma_unpaired'')"
  by (simp add: snapshot_fetch_def decimal_def refuse_def bg_demo_values bg_summary_defs Let_def bg_demo_snapshot_def)

lemma bg_snapshot_tile_0: "snapshot_fetch \<lparr>t_line = 5, t_values = bg_tile_read_0\<rparr> bg_ram_2 =
    Inr (bg_demo_snapshot 5 bg_tile_read_0 8276 0 ''unobserved'' ''none_observed'' ''none_observed'')"
  by (simp add: snapshot_fetch_def decimal_def refuse_def bg_demo_values bg_summary_defs Let_def bg_demo_snapshot_def)

lemma bg_snapshot_tile_1: "snapshot_fetch \<lparr>t_line = 6, t_values = bg_tile_read_1\<rparr> bg_ram_2 =
    Inr (bg_demo_snapshot 6 bg_tile_read_1 8278 1 ''match'' ''gdma'' ''gdma_unpaired'')"
  by (simp add: snapshot_fetch_def decimal_def refuse_def bg_demo_values bg_summary_defs Let_def bg_demo_snapshot_def)

lemma bg_demo_3: "bg_cycle ObservedOnly [\<lparr>t_line = 4, t_values = bg_map_read\<rparr>] (bg_start bg_ram_2) = Inr (bg_demo_state 0)"
  by (simp add: bg_cycle_def bg_raw_row_def bg_cell_row_def bg_mem_row_def bg_demo_values bg_role_def bg_snapshot_map
    raw_map_def refuse_def bg_start_def bg_demo_state_def bg_demo_group_def fun_upd_idem)

lemma bg_demo_4: "bg_cycle ObservedOnly [\<lparr>t_line = 5, t_values = bg_tile_read_0\<rparr>] (bg_demo_state 0) = Inr (bg_demo_state (Suc 0))"
  by (simp add: bg_cycle_def bg_raw_row_def bg_cell_row_def bg_mem_row_def bg_demo_values bg_role_def bg_snapshot_tile_0
    raw_tile_def Let_def bg_start_def bg_demo_state_def bg_demo_group_def)

definition bg_demo_done :: bg_state where
  "bg_demo_done = (bg_start bg_ram_2)\<lparr>bg_saw_map := (\<lambda>_. False)(Screen1 := True),
     bg_completed := (\<lambda>_. [])(Screen1 := [bg_demo_group])\<rparr>"

lemma bg_demo_5: "bg_cycle ObservedOnly [\<lparr>t_line = 6, t_values = bg_tile_read_1\<rparr>] (bg_demo_state (Suc 0)) = Inr bg_demo_done"
  by (simp add: bg_cycle_def bg_raw_row_def bg_cell_row_def bg_mem_row_def bg_demo_values bg_role_def bg_snapshot_tile_1
    raw_tile_def Let_def bg_start_def bg_demo_state_def bg_demo_group_def bg_demo_done_def)

definition bg_demo_bytes :: "byte_version option list" where
  "bg_demo_bytes = [Some (bg_written 3 bg_tile_write 1), Some (bg_written 3 bg_tile_write 0)]"

lemma bg_demo_map: "validate_map \<lparr>t_line = 7, t_values = bg_row\<rparr> bg_demo_group = Inr (5, 0)"
  by (simp add: validate_map_def check_decoded_def decimal_def refuse_def bg_demo_values bg_demo_group_def bg_demo_snapshot_def Let_def)

lemma bg_demo_tiles: "validate_tiles \<lparr>t_line = 7, t_values = bg_row\<rparr> 5 (rg_tiles bg_demo_group ! 0) (rg_tiles bg_demo_group ! Suc 0) =
    Inr ([rg_tiles bg_demo_group ! Suc 0], 0)"
  by (simp add: validate_tiles_def select_words_def decimal_def refuse_def bg_demo_values bg_demo_group_def bg_demo_snapshot_def)

lemma bg_demo_cell: "validate_cell \<lparr>t_line = 7, t_values = bg_row\<rparr> bg_demo_group =
    Inr ([rg_tiles bg_demo_group ! Suc 0], bg_demo_bytes)"
  using bg_demo_tiles
  by (simp add: validate_cell_def bg_demo_map)
   (simp add: bg_demo_group_def bg_demo_snapshot_def check_snapshot_def refuse_def bg_ram_2_values bg_demo_bytes_def)

lemma bg_demo_summary: "summarize_row bg_demo_bytes = (''match'', ''gdma'', ''none'')"
  by (simp add: summarize_row_def bg_demo_bytes_def bg_written_def writer_summary_def bg_demo_values Let_def)

lemma bg_demo_record: "\<exists>o'. bg_record ObservedOnly \<lparr>t_line = 7, t_values = bg_row\<rparr> 0 bg_demo_group
    [rg_tiles bg_demo_group ! Suc 0] bg_demo_bytes = Inr o' \<and> text_column o' ''row_scoreboard_status'' = ''match''"
proof -
  obtain o' where o': "bg_record ObservedOnly \<lparr>t_line = 7, t_values = bg_row\<rparr> 0 bg_demo_group
    [rg_tiles bg_demo_group ! Suc 0] bg_demo_bytes = Inr o'"
    unfolding bg_record_def bg_demo_summary prod.case Let_def
    by atomize_elim (simp add: byte_fields_def bg_demo_group_def bg_demo_snapshot_def bg_ram_2_values
     bg_written_def bg_demo_bytes_def pad_versions_def Let_def)
  moreover have "rg_tiles bg_demo_group = [rg_tiles bg_demo_group ! 0, rg_tiles bg_demo_group ! Suc 0]"
    by (simp add: bg_demo_group_def)
  ultimately show ?thesis using bg_record_columns by (auto simp: text_column_def bg_demo_summary)
qed

lemma bg_demo_6: "\<exists>s o'. bg_cycle ObservedOnly [\<lparr>t_line = 7, t_values = bg_row\<rparr>] bg_demo_done = Inr s \<and>
    text_column o' ''row_scoreboard_status'' = ''match'' \<and> bg_output s = [o'] \<and> bg_prefix s = (\<lambda>_. []) \<and> bg_building s = (\<lambda>_. None) \<and> bg_completed s = (\<lambda>_. [])"
proof -
  obtain o' where o': "bg_record ObservedOnly \<lparr>t_line = 7, t_values = bg_row\<rparr> 0 bg_demo_group
    [rg_tiles bg_demo_group ! Suc 0] bg_demo_bytes = Inr o'"
      and mt: "text_column o' ''row_scoreboard_status'' = ''match''" using bg_demo_record by blast
  have l: "layer_name \<lparr>t_line = 7, t_values = bg_row\<rparr> = Inr Screen1"
    by (simp add: layer_name_def decimal_def refuse_def bg_demo_values)
  have e: "fold_res (bg_raw_row ObservedOnly) [\<lparr>t_line = 7, t_values = bg_row\<rparr>] s = Inr s"
    "fold_res bg_mem_row [\<lparr>t_line = 7, t_values = bg_row\<rparr>] s = Inr s" for s
    by (simp_all add: bg_raw_row_def bg_mem_row_def bg_demo_values)
  have "\<exists>s. bg_cell_row ObservedOnly \<lparr>t_line = 7, t_values = bg_row\<rparr> bg_demo_done = Inr s \<and>
    bg_output s = [o'] \<and> bg_prefix s = (\<lambda>_. []) \<and> bg_building s = (\<lambda>_. None) \<and> bg_completed s = (\<lambda>_. [])"
    by (simp add: bg_cell_row_def bg_demo_values l refuse_def bg_demo_done_def bg_start_def bg_demo_cell Let_def o' add_count_def)
      auto
  then obtain s where s: "bg_cell_row ObservedOnly \<lparr>t_line = 7, t_values = bg_row\<rparr> bg_demo_done = Inr s"
    "bg_output s = [o']" "bg_prefix s = (\<lambda>_. [])" "bg_building s = (\<lambda>_. None)" "bg_completed s = (\<lambda>_. [])" by blast
  have "bg_cycle ObservedOnly [\<lparr>t_line = 7, t_values = bg_row\<rparr>] bg_demo_done = Inr s"
    unfolding bg_cycle_def e rbind_simps by (simp add: s(1) e [unfolded fold_res.simps])
  then show ?thesis using s mt by blast
qed

lemma bg_demo_correlates: "\<exists>counts' o'. bg_correlate fs trace NoManifest False FIELDS_V5 bg_demo_records = Inr (counts', [o']) \<and>
    text_column o' ''row_scoreboard_status'' = ''match''"
proof -
  obtain s o' where s: "bg_cycle ObservedOnly [\<lparr>t_line = 7, t_values = bg_row\<rparr>] bg_demo_done = Inr s"
    "bg_output s = [o']" "bg_prefix s = (\<lambda>_. [])" "bg_building s = (\<lambda>_. None)" "bg_completed s = (\<lambda>_. [])"
    "text_column o' ''row_scoreboard_status'' = ''match''"
    using bg_demo_6 by blast
  then show ?thesis
    by (simp add: bg_correlate_def bg_read_manifest_def display_manifest_def bg_demo_rows pull_row_def bg_demo_values
      bg_demo_1 bg_demo_2 bg_demo_3 bg_demo_4 bg_demo_5 bg_finish_layer_def)
qed

theorem bg_groups_accounted_witness:
  "\<exists>counts' o'. bg_correlate (\<lambda>_. None) [] NoManifest False FIELDS_V5 bg_demo_records = Inr (counts', [o']) \<and>
    counts' ''cells'' = 1 \<and> counts' ''raw_superseded'' + counts' ''raw_unpromoted'' + counts' ''raw_inflight'' = 0"
proof -
  obtain counts' o' where c: "bg_correlate (\<lambda>_. None) [] NoManifest False FIELDS_V5 bg_demo_records = Inr (counts', [o'])"
    using bg_demo_correlates by blast
  have "(\<Sum>r\<leftarrow>numbered_rows FIELDS_V5 bg_demo_records. is_map_read (trace_row_of r)) = 1"
    by (simp add: bg_demo_rows is_map_read_def trace_row_of_def bg_demo_values)
  then show ?thesis using c bg_groups_accounted [OF c] by auto
qed

theorem bg_cells_show_memory_witness:
  "\<exists>counts' o'. bg_correlate (\<lambda>_. None) [] NoManifest False FIELDS_V5 bg_demo_records = Inr (counts', [o']) \<and>
    text_column o' ''row_scoreboard_status'' = ''match'' \<and> py_int10 (text_column o' ''tile_row_value'') = Some (compose (row_bytes_of o'))"
proof -
  obtain counts' o' where c: "bg_correlate (\<lambda>_. None) [] NoManifest False FIELDS_V5 bg_demo_records = Inr (counts', [o'])"
      and "text_column o' ''row_scoreboard_status'' = ''match''"
    using bg_demo_correlates by blast
  then show ?thesis using bg_cells_show_memory [OF c] by (auto simp: cell_shows_def)
qed

end
