(* ===== verification/Sprite_Rows.thy ===== *)
theory Sprite_Rows
  imports Display_Trace
begin

unbundle bit_operations_syntax

text \<open>
  The sprite-row correlator (\<^verbatim>\<open>sim/verilator/correlate_sprite_rows.py\<close>): descriptors are read
  once as a pair of words and referenced by their generation number; each atomic row consumes the
  next pair of tile reads; the slots of a scanline are numbered without gaps.
\<close>

definition ATOMIC_TILE_FIELDS :: "string list" where
  "ATOMIC_TILE_FIELDS = [''tile_index'', ''palette'', ''hflip'', ''vflip'', ''bpp'', ''packed'', ''tile_row'',
     ''tile_row_address'', ''tile_row_bytes'', ''tile_row_value'', ''tile_row_collision'']"

definition SPRITE_COUNT_NAMES :: "string list" where
  "SPRITE_COUNT_NAMES = [''sprite_rows'', ''bpp2'', ''bpp4'', ''packed'', ''planar'', ''raw_table_groups'',
     ''raw_table_unused'', ''raw_tile_groups'', ''raw_tile_unpromoted'', ''raw_table_inflight'',
     ''raw_tile_inflight'', ''descriptor_cpu_exact'', ''row_cpu_exact'', ''row_gdma'', ''row_source_gdma_rom'',
     ''descriptor_collision'', ''row_collision'', ''cpu_rom_movsb_rows'', ''cpu_rom_movsb_bytes'',
     ''cpu_rom_movsb_origins'']"

record sprite_group =
  sg_index :: int
  sg_first :: snapshot
  sg_second :: snapshot
  sg_references :: nat

definition group_value :: "sprite_group \<Rightarrow> int" where
  "group_value g = sn_value (sg_first g) OR push_bit 16 (sn_value (sg_second g))"

definition group_collision :: "sprite_group \<Rightarrow> int" where
  "group_collision g = sn_collision (sg_first g) OR sn_collision (sg_second g)"

definition sprite_read_manifest :: "file_system \<Rightarrow> string list \<Rightarrow> manifest_source \<Rightarrow> (coverage \<times> iram) res" where
  "sprite_read_manifest fs trace source =
     display_manifest fs trace source (\<lambda>v. Inr (json_is_int v 6)) ''complete_sprite_row_history'' [''mem'', ''vram'', ''sprite_row'']"

definition sprite_snapshot :: "trace_row \<Rightarrow> iram \<Rightarrow> snapshot res" where
  "sprite_snapshot r ram =
     rbind (decimal r ''address'' 0xFFFF) (\<lambda>address.
     rbind (refuse (address AND 1 \<noteq> 0 \<or> address = 0xFFFF) r ''invalid display word address'') (\<lambda>_.
     rbind (decimal r ''fetch_value'' 0xFFFF) (\<lambda>value.
     rbind (decimal r ''fetch_collision'' 1) (\<lambda>collision.
     Inr \<lparr>sn_row = r, sn_address = address, sn_value = value, sn_collision = collision,
          sn_low = ram address, sn_high = ram (address + 1),
          sn_status = scoreboard_status collision value (ram address) (ram (address + 1))\<rparr>))))"

text \<open>\<open>summarize_group\<close> has the text of the background correlator's \<open>summarize_row\<close>.\<close>

definition summarize_group :: "byte_version option list \<Rightarrow> string \<times> string \<times> string" where
  "summarize_group = summarize_row"

definition check_contributing :: "snapshot \<Rightarrow> unit \<Rightarrow> unit res" where
  "check_contributing sn _ =
     rbind (refuse (sn_collision sn \<noteq> 0) (sn_row sn) ''contributing sprite fetch collided with an IRAM write'') (\<lambda>_.
     refuse (sn_status sn = ''mismatch'') (sn_row sn) ''contributing sprite value disagrees with IRAM scoreboard'')"

section \<open>One row against its groups\<close>

definition validate_table_group :: "trace_row \<Rightarrow> sprite_group \<Rightarrow> byte_version option list res" where
  "validate_table_group r g =
     rbind (decimal r ''sprite_table_address'' 0xFFFF) (\<lambda>address.
     rbind (decimal r ''sprite_table_value'' 0xFFFFFFFF) (\<lambda>value.
     rbind (decimal r ''sprite_table_collision'' 1) (\<lambda>collision.
     rbind (refuse (sn_address (sg_first g) AND 3 \<noteq> 0 \<or> sn_address (sg_second g) \<noteq> sn_address (sg_first g) + 2) r
              ''cached sprite table group is not one aligned descriptor'') (\<lambda>_.
     rbind (refuse (row_cycle (sn_row (sg_second g)) \<ge> row_cycle r) r
              ''cached sprite descriptor must be fetched before the atomic handoff'') (\<lambda>_.
     rbind (refuse ((sn_address (sg_first g), group_value g, group_collision g) \<noteq> (address, value, collision)) r
              ''atomic sprite descriptor does not match its exact raw table generation'') (\<lambda>_.
     rbind (check_contributing (sg_first g) ()) (\<lambda>_.
     rbind (check_contributing (sg_second g) ()) (\<lambda>_.
     rbind (refuse (collision \<noteq> 0) r ''atomic sprite descriptor contains a collision'') (\<lambda>_.
     Inr [sn_low (sg_first g), sn_high (sg_first g), sn_low (sg_second g), sn_high (sg_second g)])))))))))"

record atomic_decode =
  ad_bpp :: int
  ad_row_address :: int
  ad_row_value :: int
  ad_line_y :: int
  ad_line_slot :: int
  ad_table_generation :: int
  ad_line_epoch :: int

definition check_descriptor :: "trace_row \<Rightarrow> int \<Rightarrow> int \<Rightarrow> int \<times> int \<times> int \<times> int \<Rightarrow> int \<Rightarrow> unit res" where
  "check_descriptor r table_value line_y shown tile_row =
     (let (tile_index, palette, hflip, vflip) = shown;
          delta = (line_y - (drop_bit 16 table_value AND 0xFF)) AND 0xFF in
      rbind (refuse ((tile_index, palette, hflip, vflip) \<noteq>
               (table_value AND 0x1FF, 8 OR (drop_bit 9 table_value AND 7),
                drop_bit 14 table_value AND 1, drop_bit 15 table_value AND 1)) r
               ''sprite tile/palette/flip fields do not match descriptor'') (\<lambda>_.
      rbind (refuse (delta \<ge> 8) r ''sprite is not vertically active'') (\<lambda>_.
      refuse (tile_row \<noteq> (if vflip \<noteq> 0 then 7 - delta else delta)) r ''tile_row does not match descriptor/line'')))"

definition validate_atomic_decode :: "trace_row \<Rightarrow> atomic_decode res" where
  "validate_atomic_decode r =
     rbind (decimal r ''sprite_table_address'' 0xFFFF) (\<lambda>table_address.
     rbind (refuse (table_address AND 3 \<noteq> 0) r ''sprite table address is not 4-byte aligned'') (\<lambda>_.
     rbind (decimal r ''sprite_table_value'' 0xFFFFFFFF) (\<lambda>table_value.
     rbind (decimal r ''sprite_line_y'' 0xFF) (\<lambda>line_y.
     rbind (decimal r ''sprite_line_slot'' 31) (\<lambda>line_slot.
     rbind (decimal r ''sprite_table_generation'' 0xFFFFFFFF) (\<lambda>table_generation.
     rbind (decimal r ''sprite_line_epoch'' 0xFFFFFFFF) (\<lambda>line_epoch.
     rbind (decimal r ''tile_index'' 0x1FF) (\<lambda>tile_index.
     rbind (decimal r ''palette'' 15) (\<lambda>palette.
     rbind (decimal r ''hflip'' 1) (\<lambda>hflip.
     rbind (decimal r ''vflip'' 1) (\<lambda>vflip.
     rbind (decimal r ''bpp'' 4) (\<lambda>bpp.
     rbind (refuse (bpp \<notin> {2, 4}) r ''bpp must be 2 or 4'') (\<lambda>_.
     rbind (decimal r ''packed'' 1) (\<lambda>_.
     rbind (decimal r ''tile_row'' 7) (\<lambda>tile_row.
     rbind (decimal r ''tile_row_address'' 0xFFFF) (\<lambda>row_address.
     rbind (decimal r ''tile_row_bytes'' 4) (\<lambda>row_bytes.
     rbind (decimal r ''tile_row_value'' 0xFFFFFFFF) (\<lambda>row_value.
     rbind (decimal r ''tile_row_collision'' 1) (\<lambda>_.
     rbind (check_descriptor r table_value line_y (tile_index, palette, hflip, vflip) tile_row) (\<lambda>_.
     let expected_bytes = (if bpp = 2 then 2 else 4) in
     rbind (refuse (row_bytes \<noteq> expected_bytes) r ''tile_row_bytes does not match bpp'') (\<lambda>_.
     rbind (refuse (row_address \<noteq> (if bpp = 2 then 0x2000 else 0x4000) + tile_index * expected_bytes * 8 +
                      tile_row * expected_bytes) r ''tile_row_address does not match descriptor/line'') (\<lambda>_.
     rbind (refuse (row_value \<ge> push_bit (nat (8 * row_bytes)) 1) r ''tile_row_value exceeds row width'') (\<lambda>_.
     Inr \<lparr>ad_bpp = bpp, ad_row_address = row_address, ad_row_value = row_value, ad_line_y = line_y,
          ad_line_slot = line_slot, ad_table_generation = table_generation,
          ad_line_epoch = line_epoch\<rparr>)))))))))))))))))))))))"

text \<open>The slot sequence: the epoch, the line and the slot expected next.\<close>

definition validate_slot_sequence :: "trace_row \<Rightarrow> int \<Rightarrow> int \<Rightarrow> int \<Rightarrow> int option \<Rightarrow> int option \<Rightarrow> int \<Rightarrow>
    (int \<times> int \<times> int) res" where
  "validate_slot_sequence r line_y line_slot line_epoch active_epoch active_line_y expected_slot =
     (if active_epoch = None \<or> line_epoch > the active_epoch then
        rbind (refuse (line_slot \<noteq> 0) r ''sprite line epoch must start at slot 0'') (\<lambda>_.
        Inr (line_epoch, line_y, 1))
      else
        rbind (refuse (line_epoch < the active_epoch) r ''sprite line epoch moved backwards'') (\<lambda>_.
        rbind (refuse (Some line_y \<noteq> active_line_y) r ''sprite line epoch changed target line'') (\<lambda>_.
        rbind (refuse (line_slot \<noteq> expected_slot) r ''sprite line epoch expected contiguous slot'') (\<lambda>_.
        Inr (line_epoch, line_y, expected_slot + 1)))))"

definition validate_tile_group :: "trace_row \<Rightarrow> sprite_group \<Rightarrow> int \<Rightarrow> int \<Rightarrow> int \<Rightarrow>
    (snapshot list \<times> byte_version option list) res" where
  "validate_tile_group r g bpp row_address row_value =
     (let first = sg_first g; second = sg_second g in
      rbind (refuse (row_cycle r \<noteq> row_cycle (sn_row second) + 1) r
               ''atomic sprite row must follow the second raw tile read by exactly one cycle'') (\<lambda>_.
      rbind (refuse (sn_address first \<noteq> row_address) r
               ''atomic sprite row does not match the next raw tile group'') (\<lambda>_.
      rbind (refuse (sn_address second \<noteq> (if bpp = 4 then sn_address first + 2 else sn_address first OR 2)) r
               ''raw sprite tile second-read address does not match timing'') (\<lambda>_.
      rbind (if bpp = 2 then Inr ([first], sn_value first, sn_collision first)
             else
               rbind (refuse (sn_address first AND 3 \<noteq> 0) r ''4bpp sprite row is not four-byte aligned'') (\<lambda>_.
               Inr ([first, second], sn_value first OR push_bit 16 (sn_value second),
                    sn_collision first OR sn_collision second)))
        (\<lambda>(contributing, expected_value, expected_collision).
      rbind (decimal r ''tile_row_collision'' 1) (\<lambda>row_collision.
      rbind (refuse ((row_value, row_collision) \<noteq> (expected_value, expected_collision)) r
               ''atomic sprite row does not match contributing raw tile reads'') (\<lambda>_.
      rbind (fold_res check_contributing contributing ()) (\<lambda>_.
      rbind (refuse (row_collision \<noteq> 0) r ''atomic sprite row contains a collision'') (\<lambda>_.
      Inr (contributing, concat (map (\<lambda>fetch. [sn_low fetch, sn_high fetch]) contributing)))))))))))"

section \<open>The correlation\<close>

record sprite_state =
  sp_memory :: scoreboard
  sp_counts :: "string \<Rightarrow> int"
  sp_table_first :: "snapshot option"
  sp_tile_first :: "snapshot option"
  sp_tables :: "sprite_group list"
  sp_tiles :: "sprite_group list"
  sp_active_epoch :: "int option"
  sp_active_line_y :: "int option"
  sp_expected_slot :: int
  sp_output :: "out_record list"

definition sprite_start :: "iram \<Rightarrow> sprite_state" where
  "sprite_start ram = \<lparr>sp_memory = \<lparr>sb_iram = ram, sb_tracker = tracker_start\<rparr>, sp_counts = (\<lambda>_. 0),
     sp_table_first = None, sp_tile_first = None, sp_tables = [], sp_tiles = [],
     sp_active_epoch = None, sp_active_line_y = None, sp_expected_slot = 0, sp_output = []\<rparr>"

definition table_read :: "trace_row \<Rightarrow> snapshot \<Rightarrow> sprite_state \<Rightarrow> sprite_state res" where
  "table_read r sn s =
     (case sp_table_first s of
        None \<Rightarrow>
          rbind (refuse (sn_address sn AND 3 \<noteq> 0) r ''sprite table group starts at an unaligned address'') (\<lambda>_.
          Inr (s\<lparr>sp_table_first := Some sn\<rparr>))
      | Some first \<Rightarrow>
          rbind (refuse (sn_address sn \<noteq> sn_address first + 2) r
                   ''sprite table words are not a contiguous descriptor'') (\<lambda>_.
          Inr (s\<lparr>sp_tables := sp_tables s @ [\<lparr>sg_index = sp_counts s ''raw_table_groups'', sg_first = first,
                                            sg_second = sn, sg_references = 0\<rparr>],
                 sp_counts := bump ''raw_table_groups'' (sp_counts s),
                 sp_table_first := None\<rparr>)))"

definition tile_read :: "snapshot \<Rightarrow> sprite_state \<Rightarrow> sprite_state" where
  "tile_read sn s =
     (case sp_tile_first s of
        None \<Rightarrow> s\<lparr>sp_tile_first := Some sn\<rparr>
      | Some first \<Rightarrow>
          s\<lparr>sp_tiles := sp_tiles s @ [\<lparr>sg_index = sp_counts s ''raw_tile_groups'', sg_first = first,
                                     sg_second = sn, sg_references = 0\<rparr>],
            sp_counts := bump ''raw_tile_groups'' (sp_counts s),
            sp_tile_first := None\<rparr>)"

definition sprite_raw_row :: "trace_row \<Rightarrow> sprite_state \<Rightarrow> sprite_state res" where
  "sprite_raw_row r s =
     (if t_values r ''event'' \<noteq> ''vram'' \<or> t_values r ''role'' \<notin> {''sprite_table'', ''sprite_tile''} then Inr s
      else
        rbind (sprite_snapshot r (sb_iram (sp_memory s))) (\<lambda>sn.
        if t_values r ''role'' = ''sprite_table'' then table_read r sn s else Inr (tile_read sn s)))"

definition sprite_raw_columns :: "string \<Rightarrow> snapshot \<Rightarrow> out_record" where
  "sprite_raw_columns prefix sn =
     [(prefix @ ''_raw_line'', CInt (t_line (sn_row sn))), (prefix @ ''_raw_cycle'', CInt (row_cycle (sn_row sn))),
      (prefix @ ''_raw_address'', CInt (sn_address sn)), (prefix @ ''_raw_value'', CInt (sn_value sn)),
      (prefix @ ''_raw_collision'', CInt (sn_collision sn)), (prefix @ ''_scoreboard_status'', CText (sn_status sn))]"

definition sprite_record :: "coverage \<Rightarrow> trace_row \<Rightarrow> int \<Rightarrow> int \<Rightarrow> sprite_group \<Rightarrow> byte_version option list \<Rightarrow>
    sprite_group \<Rightarrow> snapshot list \<Rightarrow> byte_version option list \<Rightarrow> out_record res" where
  "sprite_record coverage r index bpp table table_versions tile contributing row_versions =
     (let (table_status, table_writer, table_source) = summarize_group table_versions;
          (row_status, row_writer, row_source) = summarize_group row_versions in
      rbind (map_res (\<lambda>(p, v). byte_fields p v)
               (zip [''table_b0'', ''table_b1'', ''table_b2'', ''table_b3''] table_versions)) (\<lambda>table_bytes.
      rbind (map_res (\<lambda>(p, v). byte_fields p v)
               (zip [''row_b0'', ''row_b1'', ''row_b2'', ''row_b3''] (pad_versions row_versions))) (\<lambda>row_bytes.
      Inr ([(''sprite_row_index'', CInt index), (''line'', CInt (t_line r)), (''cycle'', CInt (row_cycle r)),
            (''coverage_status'', CText (coverage_text coverage)), (''table_group_index'', CInt (sg_index table)),
            (''table_scoreboard_status'', CText table_status), (''table_writer_summary'', CText table_writer),
            (''table_source_summary'', CText table_source), (''tile_group_index'', CInt (sg_index tile)),
            (''tile1_contributes'', CInt (if bpp = 4 then 1 else 0)),
            (''contributing_raw_lines'', CText (join_semicolon (map (\<lambda>sn. py_str (t_line (sn_row sn))) contributing))),
            (''contributing_raw_cycles'', CText (join_semicolon (map (\<lambda>sn. py_str (row_cycle (sn_row sn))) contributing))),
            (''row_scoreboard_status'', CText row_status), (''row_writer_summary'', CText row_writer),
            (''row_source_summary'', CText row_source)] @
           map (\<lambda>name. (name, CText (t_values r name))) (SPRITE_FIELDS @ ATOMIC_TILE_FIELDS) @
           sprite_raw_columns ''table0'' (sg_first table) @ sprite_raw_columns ''table1'' (sg_second table) @
           sprite_raw_columns ''tile0'' (sg_first tile) @ sprite_raw_columns ''tile1'' (sg_second tile) @
           concat table_bytes @ concat row_bytes))))"

definition count_sprite_row :: "int \<Rightarrow> int \<Rightarrow> int \<Rightarrow> int \<Rightarrow> string \<Rightarrow> string \<Rightarrow> string \<Rightarrow>
    (string \<Rightarrow> int) \<Rightarrow> (string \<Rightarrow> int)" where
  "count_sprite_row bpp packed' table_collision row_collision table_writer row_writer row_source counts' =
     bump_if (row_source = ''cpu_rom_movsb'') ''cpu_rom_movsb_rows''
       (bump_if (row_source = ''gdma_rom'') ''row_source_gdma_rom''
       (bump_if (row_writer = ''gdma'') ''row_gdma''
       (bump_if (row_writer = ''cpu_exact'') ''row_cpu_exact''
       (bump_if (table_writer = ''cpu_exact'') ''descriptor_cpu_exact''
       (add_count ''row_collision'' row_collision
       (add_count ''descriptor_collision'' table_collision
       (bump (if packed' \<noteq> 0 then ''packed'' else ''planar'')
       (bump (''bpp'' @ py_str bpp)
       (bump ''sprite_rows'' counts')))))))))"

definition sprite_atomic_row :: "coverage \<Rightarrow> trace_row \<Rightarrow> sprite_state \<Rightarrow> sprite_state res" where
  "sprite_atomic_row coverage r s =
     (if t_values r ''event'' \<noteq> ''sprite_row'' then Inr s
      else
        rbind (validate_atomic_decode r) (\<lambda>d.
        rbind (validate_slot_sequence r (ad_line_y d) (ad_line_slot d) (ad_line_epoch d)
                 (sp_active_epoch s) (sp_active_line_y s) (sp_expected_slot s)) (\<lambda>(epoch, line_y, expected_slot).
        let generation = ad_table_generation d in
        rbind (refuse (generation \<ge> int (length (sp_tables s))) r
                 ''atomic sprite row references unavailable raw table generation'') (\<lambda>_.
        let table = sp_tables s ! nat generation in
        if sg_index table \<noteq> generation then Inl (AssertionError ''raw table generation index drift'')
        else
        (case sp_tiles s of
           [] \<Rightarrow> Inl (LineError (t_line r) ''atomic sprite row has no completed raw tile group'')
         | tile # tiles \<Rightarrow>
             rbind (validate_table_group r table) (\<lambda>table_versions.
             rbind (validate_tile_group r tile (ad_bpp d) (ad_row_address d) (ad_row_value d)) (\<lambda>(contributing, row_versions).
             rbind (sprite_record coverage r (sp_counts s ''sprite_rows'') (ad_bpp d) table table_versions tile
                      contributing row_versions) (\<lambda>record'.
             rbind (decimal r ''packed'' 1) (\<lambda>packed'.
             rbind (decimal r ''sprite_table_collision'' 1) (\<lambda>table_collision.
             rbind (decimal r ''tile_row_collision'' 1) (\<lambda>row_collision.
             Inr (s\<lparr>sp_active_epoch := Some epoch, sp_active_line_y := Some line_y, sp_expected_slot := expected_slot,
                    sp_tables := (sp_tables s)[nat generation := table\<lparr>sg_references := sg_references table + 1\<rparr>],
                    sp_tiles := tiles,
                    sp_counts := count_sprite_row (ad_bpp d) packed' table_collision row_collision
                      (fst (snd (summarize_group table_versions))) (fst (snd (summarize_group row_versions)))
                      (snd (snd (summarize_group row_versions))) (sp_counts s),
                    sp_output := sp_output s @ [record']\<rparr>))))))))))))"

definition sprite_mem_row :: "trace_row \<Rightarrow> sprite_state \<Rightarrow> sprite_state res" where
  "sprite_mem_row r s =
     (if t_values r ''event'' \<noteq> ''mem'' then Inr s
      else rbind (store_row r (sp_memory s)) (\<lambda>m. Inr (s\<lparr>sp_memory := m\<rparr>)))"

definition sprite_cycle :: "coverage \<Rightarrow> trace_row list \<Rightarrow> sprite_state \<Rightarrow> sprite_state res" where
  "sprite_cycle coverage rows s =
     rbind (fold_res sprite_raw_row rows s) (\<lambda>s.
     rbind (fold_res (sprite_atomic_row coverage) rows s) (fold_res sprite_mem_row rows))"

definition sprite_finish :: "sprite_state \<Rightarrow> (string \<Rightarrow> int)" where
  "sprite_finish s = (sp_counts s)
     (''raw_table_unused'' := int (length (filter (\<lambda>g. sg_references g = 0) (sp_tables s))),
      ''raw_tile_unpromoted'' := int (length (sp_tiles s)),
      ''raw_table_inflight'' := (if sp_table_first s \<noteq> None then 1 else 0),
      ''raw_tile_inflight'' := (if sp_tile_first s \<noteq> None then 1 else 0),
      ''cpu_rom_movsb_bytes'' := cpu_rom_movsb_bytes (sb_tracker (sp_memory s)),
      ''cpu_rom_movsb_origins'' := int (card (cpu_rom_movsb_origins (sb_tracker (sp_memory s)))))"

definition sprite_correlate :: "file_system \<Rightarrow> string list \<Rightarrow> manifest_source \<Rightarrow> bool \<Rightarrow> string list \<Rightarrow> string list list \<Rightarrow>
    ((string \<Rightarrow> int) \<times> out_record list) res" where
  "sprite_correlate fs trace source require_coverage fieldnames records =
     rbind (sprite_read_manifest fs trace source) (\<lambda>(coverage, ram).
     if require_coverage \<and> coverage \<noteq> CompleteFromReset
     then Inl (ValueError ''trace manifest does not prove complete mem+vram+sprite_row history from reset'')
     else if fieldnames \<noteq> FIELDS_V6
     then Inl (ValueError ''sprite-row correlation requires exact v6 header'')
     else
       rbind (fold_res (pull_row (sprite_cycle coverage)) (numbered_rows fieldnames records)
                \<lparr>g_previous = -1, g_rows = [], g_state = sprite_start ram\<rparr>) (\<lambda>g.
       rbind (sprite_cycle coverage (g_rows g) (g_state g)) (\<lambda>s.
       Inr (sprite_finish s, sp_output s))))"

definition sprite_expected_count :: "string \<Rightarrow> (string \<times> int) res" where
  "sprite_expected_count text =
     (case split_first CHR ''='' text of
        None \<Rightarrow> Inl (ArgumentTypeError ''expected count must be NAME=COUNT'')
      | Some (name, count_text) \<Rightarrow>
          (case py_int0 count_text of
             None \<Rightarrow> Inl (ArgumentTypeError ''expected count must be NAME=COUNT'')
           | Some count' \<Rightarrow>
               if name \<notin> set SPRITE_COUNT_NAMES \<or> count' < 0 then Inl (ArgumentTypeError ''invalid expected count'')
               else Inr (name, count')))"

text \<open>\<open>main\<close>: the expected counts are compared after the correlation.\<close>

definition check_expected :: "(string \<Rightarrow> int) \<Rightarrow> (string \<times> int) list \<Rightarrow> unit res" where
  "check_expected counts' expected =
     fold_res (\<lambda>(name, count') _. if counts' name \<noteq> count' then Inl (ValueError ''expected count'') else Inr ()) expected ()"

end
