(* ===== verification/Sprite_Facts.thy ===== *)
theory Sprite_Facts
  imports Sprite_Rows Display_Facts
begin

unbundle bit_operations_syntax

text \<open>
  What a sprite-row correlation that succeeds shows (\<^verbatim>\<open>sim/verilator/correlate_sprite_rows.py\<close>):
  the raw reads are all accounted for, the slots of a scanline are contiguous, and a row marked as
  matching shows the scoreboard bytes.
\<close>

section \<open>An accepted row\<close>

lemma check_contributing_Inr [res_simps]:
  "check_contributing sn u = Inr v \<longleftrightarrow> sn_collision sn = 0 \<and> sn_status sn \<noteq> ''mismatch''"
  by (simp add: check_contributing_def res_simps)

lemma check_contributings_Inr: "fold_res check_contributing sns u = Inr v \<longleftrightarrow>
    list_all (\<lambda>sn. sn_collision sn = 0 \<and> sn_status sn \<noteq> ''mismatch'') sns"
  by (induction sns) (auto simp: res_simps)

lemma validate_table_group_Inr:
  assumes "validate_table_group r g = Inr versions"
  shows "py_int10 (t_values r ''sprite_table_value'') = Some (group_value g) \<and>
    py_int10 (t_values r ''sprite_table_collision'') = Some 0 \<and>
    versions = [sn_low (sg_first g), sn_high (sg_first g), sn_low (sg_second g), sn_high (sg_second g)] \<and>
    list_all (\<lambda>sn. sn_collision sn = 0 \<and> sn_status sn \<noteq> ''mismatch'') [sg_first g, sg_second g]"
  using assms unfolding validate_table_group_def
  by (simp only: rbind_eq_Inr decimal_Inr refuse_Inr check_contributing_Inr not_not) auto

lemma validate_tile_group_Inr:
  assumes "validate_tile_group r g bpp row_address row_value = Inr (contributing, versions)"
  shows "(if bpp = 2 then contributing = [sg_first g] \<and> row_value = sn_value (sg_first g)
     else contributing = [sg_first g, sg_second g] \<and> row_value = group_value g) \<and>
    py_int10 (t_values r ''tile_row_collision'') = Some 0 \<and>
    versions = concat (map (\<lambda>fetch. [sn_low fetch, sn_high fetch]) contributing) \<and>
    row_cycle r = row_cycle (sn_row (sg_second g)) + 1 \<and> row_address = sn_address (sg_first g) \<and>
    list_all (\<lambda>sn. sn_collision sn = 0 \<and> sn_status sn \<noteq> ''mismatch'') contributing"
  using assms unfolding validate_tile_group_def Let_def group_value_def
  by (cases "bpp = 2") (auto simp: rbind_eq_Inr decimal_Inr refuse_Inr check_contributings_Inr check_contributing_Inr)

lemma validate_atomic_decode_Inr:
  assumes "validate_atomic_decode r = Inr d"
  shows "ad_bpp d \<in> {2, 4} \<and> py_int10 (t_values r ''tile_row_value'') = Some (ad_row_value d) \<and>
    py_int10 (t_values r ''sprite_line_y'') = Some (ad_line_y d) \<and>
    py_int10 (t_values r ''sprite_line_slot'') = Some (ad_line_slot d) \<and> 0 \<le> ad_line_slot d \<and> ad_line_slot d \<le> 31 \<and>
    py_int10 (t_values r ''sprite_line_epoch'') = Some (ad_line_epoch d) \<and> 0 \<le> ad_table_generation d \<and>
    py_int10 (t_values r ''bpp'') = Some (ad_bpp d)"
  using assms unfolding validate_atomic_decode_def Let_def
  apply (simp only: rbind_eq_Inr decimal_Inr refuse_Inr not_not)
  apply (elim exE conjE)
  apply (simp only: sum.inject)
  apply hypsubst_thin
  apply simp
  done

text \<open>What an accepted sprite row does to the state.\<close>

lemma sprite_atomic_row_cases:
  assumes "sprite_atomic_row coverage r s = Inr s'" and "t_values r ''event'' = ''sprite_row''"
  obtains d epoch line_y expected tile tiles table_versions contributing row_versions record' packed'
  where "validate_atomic_decode r = Inr d"
    and "validate_slot_sequence r (ad_line_y d) (ad_line_slot d) (ad_line_epoch d)
                 (sp_active_epoch s) (sp_active_line_y s) (sp_expected_slot s) = Inr (epoch, line_y, expected)"
    and "nat (ad_table_generation d) < length (sp_tables s)" and "sp_tiles s = tile # tiles"
    and "validate_table_group r (sp_tables s ! nat (ad_table_generation d)) = Inr table_versions"
    and "validate_tile_group r tile (ad_bpp d) (ad_row_address d) (ad_row_value d) = Inr (contributing, row_versions)"
    and "sprite_record coverage r (sp_counts s ''sprite_rows'') (ad_bpp d) (sp_tables s ! nat (ad_table_generation d))
           table_versions tile contributing row_versions = Inr record'"
    and "s' = s\<lparr>sp_active_epoch := Some epoch, sp_active_line_y := Some line_y, sp_expected_slot := expected,
                    sp_tables := (sp_tables s)[nat (ad_table_generation d) :=
                      (sp_tables s ! nat (ad_table_generation d))\<lparr>sg_references :=
                         sg_references (sp_tables s ! nat (ad_table_generation d)) + 1\<rparr>],
                    sp_tiles := tiles,
                    sp_counts := count_sprite_row (ad_bpp d) packed' 0 0
                      (fst (snd (summarize_group table_versions))) (fst (snd (summarize_group row_versions)))
                      (snd (snd (summarize_group row_versions))) (sp_counts s),
                    sp_output := sp_output s @ [record']\<rparr>"
proof -
  obtain d where d: "validate_atomic_decode r = Inr d"
    using assms by (auto simp: sprite_atomic_row_def rbind_eq_Inr)
  obtain epoch line_y expected where v: "validate_slot_sequence r (ad_line_y d) (ad_line_slot d) (ad_line_epoch d)
                 (sp_active_epoch s) (sp_active_line_y s) (sp_expected_slot s) = Inr (epoch, line_y, expected)"
    using assms d by (auto simp: sprite_atomic_row_def rbind_eq_Inr)
  have gen: "nat (ad_table_generation d) < length (sp_tables s)"
    and idx: "sg_index (sp_tables s ! nat (ad_table_generation d)) = ad_table_generation d"
    using assms d v validate_atomic_decode_Inr [OF d]
    by (auto simp: sprite_atomic_row_def rbind_eq_Inr refuse_Inr Let_def split: if_splits)
  let ?table = "sp_tables s ! nat (ad_table_generation d)"
  have big: "\<not> ad_table_generation d \<ge> int (length (sp_tables s))" using gen by linarith
  obtain tile tiles where t: "sp_tiles s = tile # tiles"
    using assms d v big idx by (auto simp: sprite_atomic_row_def refuse_def Let_def split: list.splits)
  obtain table_versions where tv: "validate_table_group r ?table = Inr table_versions"
    using assms d v big idx t by (auto simp: sprite_atomic_row_def rbind_eq_Inr refuse_Inr Let_def)
  obtain contributing row_versions where rv:
      "validate_tile_group r tile (ad_bpp d) (ad_row_address d) (ad_row_value d) = Inr (contributing, row_versions)"
    using assms d v big idx t tv by (auto simp: sprite_atomic_row_def rbind_eq_Inr refuse_Inr Let_def)
  obtain record' where o': "sprite_record coverage r (sp_counts s ''sprite_rows'') (ad_bpp d) ?table
           table_versions tile contributing row_versions = Inr record'"
    using assms d v big idx t tv rv by (auto simp: sprite_atomic_row_def rbind_eq_Inr refuse_Inr Let_def)
  obtain packed' table_collision row_collision where p: "decimal r ''packed'' 1 = Inr packed'"
      "decimal r ''sprite_table_collision'' 1 = Inr table_collision" "decimal r ''tile_row_collision'' 1 = Inr row_collision"
    using assms d v big idx t tv rv o' by (auto simp: sprite_atomic_row_def rbind_eq_Inr refuse_Inr Let_def)
  have "table_collision = 0" "row_collision = 0"
    using p(2,3) validate_table_group_Inr [OF tv] validate_tile_group_Inr [OF rv] by (auto simp: decimal_Inr)
  then show thesis
    by (intro that [OF d v gen t tv rv o', of packed'])
      (use assms d v big idx t tv rv o' p in \<open>auto simp: sprite_atomic_row_def refuse_def Let_def\<close>)
qed

section \<open>Accounting\<close>

definition is_table_read :: "trace_row \<Rightarrow> int" where
  "is_table_read r = (if t_values r ''event'' = ''vram'' \<and> t_values r ''role'' = ''sprite_table'' then 1 else 0)"

definition is_tile_read :: "trace_row \<Rightarrow> int" where
  "is_tile_read r = (if t_values r ''event'' = ''vram'' \<and> t_values r ''role'' = ''sprite_tile'' then 1 else 0)"

definition is_sprite_row :: "trace_row \<Rightarrow> int" where
  "is_sprite_row r = (if t_values r ''event'' = ''sprite_row'' then 1 else 0)"

definition table_reads :: "sprite_state \<Rightarrow> int" where
  "table_reads s = 2 * sp_counts s ''raw_table_groups'' + (if sp_table_first s \<noteq> None then 1 else 0)"

definition tile_reads :: "sprite_state \<Rightarrow> int" where
  "tile_reads s = 2 * sp_counts s ''raw_tile_groups'' + (if sp_tile_first s \<noteq> None then 1 else 0)"

definition rows_seen :: "sprite_state \<Rightarrow> int" where
  "rows_seen s = sp_counts s ''sprite_rows''"

definition sprite_tally :: "sprite_state \<Rightarrow> bool" where
  "sprite_tally s \<longleftrightarrow>
     sp_counts s ''sprite_rows'' = sp_counts s ''bpp2'' + sp_counts s ''bpp4'' \<and>
     sp_counts s ''sprite_rows'' = sp_counts s ''packed'' + sp_counts s ''planar'' \<and>
     sp_counts s ''sprite_rows'' = int (length (sp_output s)) \<and>
     sp_counts s ''sprite_rows'' = int (sum_list (map sg_references (sp_tables s))) \<and>
     sp_counts s ''raw_tile_groups'' = sp_counts s ''sprite_rows'' + int (length (sp_tiles s)) \<and>
     sp_counts s ''raw_table_groups'' = int (length (sp_tables s)) \<and>
     sp_counts s ''descriptor_collision'' = 0 \<and> sp_counts s ''row_collision'' = 0 \<and>
     map sg_index (sp_tables s) = map int [0..<length (sp_tables s)]"

lemma py_str_bpp: "py_str 2 = ''2''" "py_str 4 = ''4''"
  by code_simp+

lemma count_sprite_row_values:
  assumes "bpp \<in> {2, 4}"
  shows "\<And>n. n \<in> {''sprite_rows'', ''raw_table_groups'', ''raw_tile_groups'', ''descriptor_collision'', ''row_collision''} \<Longrightarrow>
      count_sprite_row bpp p 0 0 tw rw rs cs n = cs n + (if n = ''sprite_rows'' then 1 else 0)"
    and "count_sprite_row bpp p 0 0 tw rw rs cs ''bpp2'' + count_sprite_row bpp p 0 0 tw rw rs cs ''bpp4'' =
      cs ''bpp2'' + cs ''bpp4'' + 1"
    and "count_sprite_row bpp p 0 0 tw rw rs cs ''packed'' + count_sprite_row bpp p 0 0 tw rw rs cs ''planar'' =
      cs ''packed'' + cs ''planar'' + 1"
proof -
  have b: "''bpp'' @ py_str bpp = (if bpp = 2 then ''bpp2'' else ''bpp4'')" using assms py_str_bpp by auto
  note c = count_sprite_row_def b bump_apply add_count_apply
  show "count_sprite_row bpp p 0 0 tw rw rs cs n = cs n + (if n = ''sprite_rows'' then 1 else 0)"
    if "n \<in> {''sprite_rows'', ''raw_table_groups'', ''raw_tile_groups'', ''descriptor_collision'', ''row_collision''}" for n
    using that unfolding c by (elim insertE emptyE) simp_all
  show "count_sprite_row bpp p 0 0 tw rw rs cs ''bpp2'' + count_sprite_row bpp p 0 0 tw rw rs cs ''bpp4'' =
      cs ''bpp2'' + cs ''bpp4'' + 1"
    unfolding c by (cases "bpp = 2"; cases "p = 0") simp_all
  show "count_sprite_row bpp p 0 0 tw rw rs cs ''packed'' + count_sprite_row bpp p 0 0 tw rw rs cs ''planar'' =
      cs ''packed'' + cs ''planar'' + 1"
    unfolding c by (cases "bpp = 2"; cases "p = 0") simp_all
qed

lemma sprite_atomic_row_counts:
  assumes "sprite_atomic_row coverage r s = Inr s'"
  shows "rows_seen s' = rows_seen s + is_sprite_row r \<and> table_reads s' = table_reads s \<and> tile_reads s' = tile_reads s \<and>
    (sprite_tally s \<longrightarrow> sprite_tally s')"
proof (cases "t_values r ''event'' = ''sprite_row''")
  case False
  then show ?thesis using assms by (simp add: sprite_atomic_row_def is_sprite_row_def)
next
  case True
  from assms True obtain d epoch line_y expected tile tiles record' packed' tw rw rs where
      d: "validate_atomic_decode r = Inr d" and gen: "nat (ad_table_generation d) < length (sp_tables s)"
      and t: "sp_tiles s = tile # tiles"
      and s': "s' = s\<lparr>sp_active_epoch := Some epoch, sp_active_line_y := Some line_y, sp_expected_slot := expected,
                    sp_tables := (sp_tables s)[nat (ad_table_generation d) :=
                      (sp_tables s ! nat (ad_table_generation d))\<lparr>sg_references :=
                         sg_references (sp_tables s ! nat (ad_table_generation d)) + 1\<rparr>],
                    sp_tiles := tiles,
                    sp_counts := count_sprite_row (ad_bpp d) packed' 0 0 tw rw rs (sp_counts s),
                    sp_output := sp_output s @ [record']\<rparr>"
    by (rule sprite_atomic_row_cases) blast
  have bpp: "ad_bpp d \<in> {2, 4}" using validate_atomic_decode_Inr [OF d] by simp
  define k where "k = nat (ad_table_generation d)"
  define cs where "cs = count_sprite_row (ad_bpp d) packed' 0 0 tw rw rs (sp_counts s)"
  note c = count_sprite_row_values [OF bpp, where p = packed' and tw = tw and rw = rw and rs = rs and cs = "sp_counts s",
      folded cs_def]
  have parts: "sp_counts s' = cs" "sp_tiles s' = tiles" "sp_output s' = sp_output s @ [record']"
    "sp_table_first s' = sp_table_first s" "sp_tile_first s' = sp_tile_first s"
    "sp_tables s' = (sp_tables s)[k := (sp_tables s ! k)\<lparr>sg_references := sg_references (sp_tables s ! k) + 1\<rparr>]"
    by (simp_all add: s' cs_def k_def)
  have kl: "k < length (sp_tables s)" using gen by (simp add: k_def)
  have refs: "sum_list (map sg_references (sp_tables s')) = sum_list (map sg_references (sp_tables s)) + 1"
    using kl elem_le_sum_list [of k "map sg_references (sp_tables s)"]
    by (simp add: parts map_update sum_list_update)
  have idx: "map sg_index (sp_tables s') = map sg_index (sp_tables s)"
    using kl by (simp add: parts map_update) (metis list_update_id nth_map)
  have "sprite_tally s \<longrightarrow> sprite_tally s'"
    using c refs idx t by (simp add: sprite_tally_def parts del: upt_Suc)
  then show ?thesis using c True by (simp add: rows_seen_def table_reads_def tile_reads_def parts is_sprite_row_def)
qed

lemma table_read_counts:
  assumes "table_read r sn s = Inr s'"
  shows "rows_seen s' = rows_seen s \<and> table_reads s' = table_reads s + 1 \<and> tile_reads s' = tile_reads s \<and>
    (sprite_tally s \<longrightarrow> sprite_tally s')"
proof (cases "sp_table_first s")
  case None
  then have "s' = s\<lparr>sp_table_first := Some sn\<rparr>" using assms by (auto simp: table_read_def res_simps)
  then show ?thesis using None by (simp add: rows_seen_def table_reads_def tile_reads_def sprite_tally_def)
next
  case (Some first)
  then have "s' = s\<lparr>sp_tables := sp_tables s @ [\<lparr>sg_index = sp_counts s ''raw_table_groups'', sg_first = first,
                                            sg_second = sn, sg_references = 0\<rparr>],
                 sp_counts := bump ''raw_table_groups'' (sp_counts s),
                 sp_table_first := None\<rparr>" using assms by (auto simp: table_read_def res_simps)
  then show ?thesis using Some
    by (simp add: rows_seen_def table_reads_def tile_reads_def sprite_tally_def bump_apply)
qed

lemma tile_read_counts:
  "rows_seen (tile_read sn s) = rows_seen s \<and> table_reads (tile_read sn s) = table_reads s \<and>
   tile_reads (tile_read sn s) = tile_reads s + 1 \<and> (sprite_tally s \<longrightarrow> sprite_tally (tile_read sn s))"
  by (cases "sp_tile_first s")
    (simp_all add: tile_read_def rows_seen_def table_reads_def tile_reads_def sprite_tally_def bump_apply)

lemma sprite_raw_row_cases:
  assumes "sprite_raw_row r s = Inr s'"
  obtains (skip) "s' = s" and "is_table_read r = 0" and "is_tile_read r = 0"
  | (table) sn where "sprite_snapshot r (sb_iram (sp_memory s)) = Inr sn" and "table_read r sn s = Inr s'"
      and "is_table_read r = 1" and "is_tile_read r = 0"
  | (tile) sn where "sprite_snapshot r (sb_iram (sp_memory s)) = Inr sn" and "s' = tile_read sn s"
      and "is_table_read r = 0" and "is_tile_read r = 1"
proof (cases "t_values r ''event'' = ''vram'' \<and> t_values r ''role'' \<in> {''sprite_table'', ''sprite_tile''}")
  case False
  then show ?thesis using assms skip by (auto simp: sprite_raw_row_def is_table_read_def is_tile_read_def)
next
  case True
  then obtain sn where sn: "sprite_snapshot r (sb_iram (sp_memory s)) = Inr sn"
      "(if t_values r ''role'' = ''sprite_table'' then table_read r sn s else Inr (tile_read sn s)) = Inr s'"
    using assms by (auto simp: sprite_raw_row_def rbind_eq_Inr)
  show ?thesis
  proof (cases "t_values r ''role'' = ''sprite_table''")
    case True
    then show ?thesis using table [OF sn(1)] sn(2) \<open>t_values r ''event'' = ''vram'' \<and> _\<close>
      by (simp add: is_table_read_def is_tile_read_def)
  next
    case False
    then show ?thesis using tile [OF sn(1)] sn(2) \<open>t_values r ''event'' = ''vram'' \<and> _\<close>
      by (auto simp: is_table_read_def is_tile_read_def)
  qed
qed

lemma sprite_raw_row_counts:
  assumes "sprite_raw_row r s = Inr s'"
  shows "rows_seen s' = rows_seen s \<and> table_reads s' = table_reads s + is_table_read r \<and>
    tile_reads s' = tile_reads s + is_tile_read r \<and> (sprite_tally s \<longrightarrow> sprite_tally s')"
  using assms by (rule sprite_raw_row_cases) (auto dest: table_read_counts simp: tile_read_counts)

lemma sprite_mem_row_counts:
  assumes "sprite_mem_row r s = Inr s'"
  shows "rows_seen s' = rows_seen s \<and> table_reads s' = table_reads s \<and> tile_reads s' = tile_reads s \<and>
    (sprite_tally s \<longrightarrow> sprite_tally s')"
proof -
  obtain m where "s' = s\<lparr>sp_memory := m\<rparr>"
    using assms by (cases "t_values r ''event'' = ''mem''") (auto simp: sprite_mem_row_def rbind_eq_Inr intro: that [of "sp_memory s"])
  then show ?thesis by (simp add: rows_seen_def table_reads_def tile_reads_def sprite_tally_def)
qed

end
