(* ===== verification/Sprite_Results.thy ===== *)
theory Sprite_Results
  imports Sprite_Facts
begin

unbundle bit_operations_syntax

text \<open>
  The results on sprite rows (\<^verbatim>\<open>sim/verilator/correlate_sprite_rows.py\<close>): accounting of the raw
  reads, the slot discipline of a scanline, and the bytes a row shows.
\<close>

section \<open>Every raw read is accounted for\<close>

text \<open>The three quantities are counted together, as an arbitrary linear combination.\<close>

definition seen :: "int \<Rightarrow> int \<Rightarrow> int \<Rightarrow> sprite_state \<Rightarrow> int" where
  "seen a b c s = a * rows_seen s + b * table_reads s + c * tile_reads s"

definition seen_weight :: "int \<Rightarrow> int \<Rightarrow> int \<Rightarrow> trace_row \<Rightarrow> int" where
  "seen_weight a b c r = a * is_sprite_row r + b * is_table_read r + c * is_tile_read r"

interpretation sprite_raw: res_counter sprite_raw_row sprite_tally "seen a b c" "seen_weight 0 b c" for a b c
  by unfold_locales (auto dest: sprite_raw_row_counts simp: seen_def seen_weight_def algebra_simps)
interpretation sprite_atomic: res_counter "sprite_atomic_row coverage" sprite_tally "seen a b c" "seen_weight a 0 0"
  for coverage a b c
  by unfold_locales (auto dest: sprite_atomic_row_counts simp: seen_def seen_weight_def algebra_simps)
interpretation sprite_mem: res_counter sprite_mem_row sprite_tally "seen a b c" "\<lambda>_. 0" for a b c
  by unfold_locales (auto dest: sprite_mem_row_counts simp: seen_def)

lemma sprite_cycle_parts:
  assumes "sprite_cycle coverage rows s = Inr s'"
  obtains s1 s2 where "fold_res sprite_raw_row rows s = Inr s1" "fold_res (sprite_atomic_row coverage) rows s1 = Inr s2"
    "fold_res sprite_mem_row rows s2 = Inr s'"
  using assms by (auto simp: sprite_cycle_def rbind_eq_Inr)

lemma sprite_cycle_counts:
  assumes "sprite_tally s" and "sprite_cycle coverage rows s = Inr s'"
  shows "sprite_tally s' \<and> seen a b c s' = seen a b c s + sum_list (map (seen_weight a b c) rows)"
proof -
  from assms(2) obtain s1 s2 where c: "fold_res sprite_raw_row rows s = Inr s1"
      "fold_res (sprite_atomic_row coverage) rows s1 = Inr s2" "fold_res sprite_mem_row rows s2 = Inr s'"
    by (rule sprite_cycle_parts)
  note t1 = sprite_raw.run_inv [OF assms(1) c(1)]
  note t2 = sprite_atomic.run_inv [OF t1 c(2)]
  have "seen_weight a b c = (\<lambda>r. seen_weight 0 b c r + seen_weight a 0 0 r)"
    by (rule ext) (simp add: seen_weight_def)
  then have "sum_list (map (seen_weight a b c) rows) =
      sum_list (map (seen_weight 0 b c) rows) + sum_list (map (seen_weight a 0 0) rows)"
    by (simp add: sum_list_addf)
  then show ?thesis
    using sprite_raw.run_total [OF assms(1) c(1), of a b c] sprite_atomic.run_total [OF t1 c(2), of a b c]
      sprite_mem.run_total [OF t2 c(3), of a b c] sprite_mem.run_inv [OF t2 c(3)] by simp
qed

interpretation sprite_cycles: res_counter "sprite_cycle coverage" sprite_tally "seen a b c"
    "\<lambda>rows. sum_list (map (seen_weight a b c) rows)" for coverage a b c
  by unfold_locales (auto dest: sprite_cycle_counts)

lemma sprite_correlate_Inr:
  assumes "sprite_correlate fs trace source require_coverage fieldnames records = Inr (counts', out)"
  obtains coverage ram s where "sprite_read_manifest fs trace source = Inr (coverage, ram)"
    and "fold_res (sprite_cycle coverage) (group_rows (map trace_row_of (numbered_rows fieldnames records)))
           (sprite_start ram) = Inr s"
    and "counts' = sprite_finish s" and "out = sp_output s"
proof -
  obtain coverage ram g s where r: "sprite_read_manifest fs trace source = Inr (coverage, ram)"
      and g: "fold_res (pull_row (sprite_cycle coverage)) (numbered_rows fieldnames records)
        \<lparr>g_previous = -1, g_rows = [], g_state = sprite_start ram\<rparr> = Inr g"
      and p: "sprite_cycle coverage (g_rows g) (g_state g) = Inr s"
      and f: "counts' = sprite_finish s" "out = sp_output s"
    using assms unfolding sprite_correlate_def by (auto simp: rbind_eq_Inr split: if_splits)
  have nil: "sprite_cycle coverage [] s = Inr s" for s by (simp add: sprite_cycle_def)
  from pull_rows_groups [of "sprite_cycle coverage", OF nil g _ p] show thesis using that [OF r _ f] by simp
qed

text \<open>
  Every raw sprite read is accounted for. When a sprite correlation succeeds, table reads pair up
  into descriptor groups and tile reads into row groups, with at most one read of each kind left over;
  every tile group either was shown by exactly one row or is counted as never promoted; the rows shown
  are the sprite rows of the trace, each written out once, they split by depth and by packing, and none
  of them collided.
\<close>

theorem sprite_reads_accounted:
  assumes "sprite_correlate fs trace source require_coverage fieldnames records = Inr (counts', out)"
  shows "(\<Sum>r\<leftarrow>numbered_rows fieldnames records. is_table_read (trace_row_of r)) =
      2 * counts' ''raw_table_groups'' + counts' ''raw_table_inflight'' \<and>
    (\<Sum>r\<leftarrow>numbered_rows fieldnames records. is_tile_read (trace_row_of r)) =
      2 * counts' ''raw_tile_groups'' + counts' ''raw_tile_inflight'' \<and>
    counts' ''raw_tile_groups'' = counts' ''sprite_rows'' + counts' ''raw_tile_unpromoted'' \<and>
    counts' ''sprite_rows'' = (\<Sum>r\<leftarrow>numbered_rows fieldnames records. is_sprite_row (trace_row_of r)) \<and>
    counts' ''sprite_rows'' = int (length out) \<and>
    counts' ''sprite_rows'' = counts' ''bpp2'' + counts' ''bpp4'' \<and>
    counts' ''sprite_rows'' = counts' ''packed'' + counts' ''planar'' \<and>
    counts' ''descriptor_collision'' = 0 \<and> counts' ''row_collision'' = 0 \<and>
    counts' ''raw_table_unused'' \<le> counts' ''raw_table_groups''"
proof -
  obtain coverage ram s where run: "fold_res (sprite_cycle coverage)
        (group_rows (map trace_row_of (numbered_rows fieldnames records))) (sprite_start ram) = Inr s"
      and f: "counts' = sprite_finish s" "out = sp_output s"
    using sprite_correlate_Inr [OF assms] by metis
  have start: "sprite_tally (sprite_start ram)" "seen a b c (sprite_start ram) = 0" for a b c
    by (simp_all add: sprite_tally_def seen_def rows_seen_def table_reads_def tile_reads_def sprite_start_def)
  have total: "seen a b c s = (\<Sum>r\<leftarrow>numbered_rows fieldnames records. seen_weight a b c (trace_row_of r))" for a b c
    using sprite_cycles.run_total [OF start(1) run, of a b c] start(2)
    by (simp add: sum_list_concat_map concat_group_rows o_def)
  have tally: "sprite_tally s" by (rule sprite_cycles.run_inv [OF start(1) run])
  have r: "rows_seen s = (\<Sum>r\<leftarrow>numbered_rows fieldnames records. is_sprite_row (trace_row_of r))"
    using total [of 1 0 0] by (simp add: seen_def seen_weight_def)
  have t: "table_reads s = (\<Sum>r\<leftarrow>numbered_rows fieldnames records. is_table_read (trace_row_of r))"
    using total [of 0 1 0] by (simp add: seen_def seen_weight_def)
  have l: "tile_reads s = (\<Sum>r\<leftarrow>numbered_rows fieldnames records. is_tile_read (trace_row_of r))"
    using total [of 0 0 1] by (simp add: seen_def seen_weight_def)
  have unused: "int (length (filter (\<lambda>g. sg_references g = 0) (sp_tables s))) \<le> int (length (sp_tables s))" by simp
  show ?thesis
    unfolding r [symmetric] t [symmetric] l [symmetric]
    using tally unused by (simp add: f sprite_finish_def sprite_tally_def rows_seen_def table_reads_def tile_reads_def)
qed

section \<open>The exported columns of a row\<close>

definition sprite_bytes :: "string \<Rightarrow> out_record \<Rightarrow> int list" where
  "sprite_bytes prefix o' = map the (filter (\<lambda>b. b \<noteq> None) (map (\<lambda>i. byte_column o' (prefix @ i)) [''0'', ''1'', ''2'', ''3'']))"

lemma sprite_record_columns:
  assumes "sprite_record coverage r index bpp table table_versions tile contributing row_versions = Inr o'"
    and "table_versions = [t0, t1, t2, t3]"
  shows "text_column o' ''row_scoreboard_status'' = fst (summarize_group row_versions) \<and>
    text_column o' ''table_scoreboard_status'' = fst (summarize_group table_versions) \<and>
    (\<forall>name\<in>{''tile_row_value'', ''sprite_table_value'', ''sprite_line_y'', ''sprite_line_slot'', ''sprite_line_epoch'', ''bpp''}.
       text_column o' name = t_values r name) \<and>
    map (\<lambda>i. map_of o' (''table_b'' @ i @ ''_value'')) [''0'', ''1'', ''2'', ''3''] = map (\<lambda>v. Some (value_cell v)) table_versions \<and>
    map (\<lambda>i. map_of o' (''row_b'' @ i @ ''_value'')) [''0'', ''1'', ''2'', ''3''] =
      map (\<lambda>v. Some (value_cell v)) (pad_versions row_versions)"
proof -
  obtain table_status table_writer table_source where ts: "summarize_group table_versions = (table_status, table_writer, table_source)"
    by (cases "summarize_group table_versions")
  obtain row_status row_writer row_source where rs: "summarize_group row_versions = (row_status, row_writer, row_source)"
    by (cases "summarize_group row_versions")
  obtain tb rb where tb: "map_res (\<lambda>(p, v). byte_fields p v)
               (zip [''table_b0'', ''table_b1'', ''table_b2'', ''table_b3''] table_versions) = Inr tb"
      and rb: "map_res (\<lambda>(p, v). byte_fields p v)
               (zip [''row_b0'', ''row_b1'', ''row_b2'', ''row_b3''] (pad_versions row_versions)) = Inr rb"
      and o': "o' = ([(''sprite_row_index'', CInt index), (''line'', CInt (t_line r)), (''cycle'', CInt (row_cycle r)),
            (''coverage_status'', CText (coverage_text coverage)), (''table_group_index'', CInt (sg_index table)),
            (''table_scoreboard_status'', CText table_status), (''table_writer_summary'', CText table_writer),
            (''table_source_summary'', CText table_source), (''tile_group_index'', CInt (sg_index tile)),
            (''tile1_contributes'', CInt (if bpp = 4 then 1 else 0)),
            (''contributing_raw_lines'', CText (join_semicolon (map (\<lambda>sn. py_str (t_line (sn_row sn))) contributing))),
            (''contributing_raw_cycles'', CText (join_semicolon (map (\<lambda>sn. py_str (row_cycle (sn_row sn))) contributing))),
            (''row_scoreboard_status'', CText row_status), (''row_writer_summary'', CText row_writer),
            (''row_source_summary'', CText row_source)] @
           map (\<lambda>name. (name, CText (t_values r name))) (SPRITE_FIELDS @ ATOMIC_TILE_FIELDS) @
           sprite_raw_columns ''table0'' (sg_first table) @ sprite_raw_columns ''table1'' (sg_second table) @
           sprite_raw_columns ''tile0'' (sg_first tile) @ sprite_raw_columns ''tile1'' (sg_second tile)) @
           concat tb @ concat rb"
    using assms(1) unfolding sprite_record_def Let_def ts rs by (auto simp: rbind_eq_Inr)
  have "length (pad_versions row_versions) = 4" by (simp add: pad_versions_def)
  then obtain v0 v1 v2 v3 where v: "pad_versions row_versions = [v0, v1, v2, v3]"
    by (auto simp: numeral_eq_Suc length_Suc_conv)
  obtain r0 r1 r2 r3 where r: "rb = [r0, r1, r2, r3]" "byte_fields ''row_b0'' v0 = Inr r0" "byte_fields ''row_b1'' v1 = Inr r1"
      "byte_fields ''row_b2'' v2 = Inr r2" "byte_fields ''row_b3'' v3 = Inr r3"
    using rb v by (auto simp: rbind_eq_Inr)
  obtain b0 b1 b2 b3 where b: "tb = [b0, b1, b2, b3]" "byte_fields ''table_b0'' t0 = Inr b0" "byte_fields ''table_b1'' t1 = Inr b1"
      "byte_fields ''table_b2'' t2 = Inr b2" "byte_fields ''table_b3'' t3 = Inr b3"
    using tb assms(2) by (auto simp: rbind_eq_Inr)
  note cols = byte_fields_columns [OF r(2)] byte_fields_columns [OF r(3)] byte_fields_columns [OF r(4)] byte_fields_columns [OF r(5)]
    byte_fields_columns [OF b(2)] byte_fields_columns [OF b(3)] byte_fields_columns [OF b(4)] byte_fields_columns [OF b(5)]
  note defs = sprite_raw_columns_def SPRITE_FIELDS_def ATOMIC_TILE_FIELDS_def map_add_def
  have texts: "text_column o' ''row_scoreboard_status'' = row_status" "text_column o' ''table_scoreboard_status'' = table_status"
    "text_column o' ''tile_row_value'' = t_values r ''tile_row_value''"
    "text_column o' ''sprite_table_value'' = t_values r ''sprite_table_value''"
    "text_column o' ''sprite_line_y'' = t_values r ''sprite_line_y''"
    "text_column o' ''sprite_line_slot'' = t_values r ''sprite_line_slot''"
    "text_column o' ''sprite_line_epoch'' = t_values r ''sprite_line_epoch''"
    "text_column o' ''bpp'' = t_values r ''bpp''"
    unfolding o' text_column_def by (simp_all add: defs)
  have bytes: "map_of o' ''row_b0_value'' = Some (value_cell v0)" "map_of o' ''row_b1_value'' = Some (value_cell v1)"
    "map_of o' ''row_b2_value'' = Some (value_cell v2)" "map_of o' ''row_b3_value'' = Some (value_cell v3)"
    "map_of o' ''table_b0_value'' = Some (value_cell t0)" "map_of o' ''table_b1_value'' = Some (value_cell t1)"
    "map_of o' ''table_b2_value'' = Some (value_cell t2)" "map_of o' ''table_b3_value'' = Some (value_cell t3)"
    unfolding o' r(1) b(1) using cols by (simp_all add: defs)
  show ?thesis using texts bytes by (simp add: ts [unfolded assms(2)] rs v assms(2))
qed

section \<open>The bytes of a row and of its descriptor\<close>

definition row_shows_memory :: "out_record \<Rightarrow> bool" where
  "row_shows_memory o' \<longleftrightarrow>
     (\<exists>bpp\<in>{2, 4}. py_int10 (text_column o' ''bpp'') = Some bpp \<and>
       (text_column o' ''row_scoreboard_status'' = ''match'' \<longrightarrow>
          int (length (sprite_bytes ''row_b'' o')) = bpp \<and>
          py_int10 (text_column o' ''tile_row_value'') = Some (compose (sprite_bytes ''row_b'' o')))) \<and>
     (text_column o' ''table_scoreboard_status'' = ''match'' \<longrightarrow>
        length (sprite_bytes ''table_b'' o') = 4 \<and>
        py_int10 (text_column o' ''sprite_table_value'') = Some (compose (sprite_bytes ''table_b'' o')))"

definition sprite_group_ok :: "sprite_group \<Rightarrow> bool" where
  "sprite_group_ok g \<longleftrightarrow> snap_ok (sg_first g) \<and> snap_ok (sg_second g)"

lemma sprite_snapshot_ok: "sprite_snapshot r ram = Inr sn \<Longrightarrow> snap_ok sn"
  by (auto simp: sprite_snapshot_def rbind_eq_Inr snap_ok_def scoreboard_status_def split: option.splits if_splits)

text \<open>A word or a pair of words whose bytes are known is composed of them.\<close>

lemma words_composed:
  assumes "list_all snap_ok sns" and "list_all (\<lambda>sn. sn_collision sn = 0 \<and> sn_status sn \<noteq> ''mismatch'') sns"
    and "list_all (\<lambda>v. v \<noteq> None) (concat (map (\<lambda>sn. [sn_low sn, sn_high sn]) sns))"
    and "sn \<in> set sns"
  shows "sn_value sn = compose [bv_value (the (sn_low sn)), bv_value (the (sn_high sn))]"
proof -
  have "sn_low sn \<noteq> None" "sn_high sn \<noteq> None" using assms(3,4) by (auto simp: list_all_iff)
  then show ?thesis using assms(1,2,4) accepted_word [of sn] by (auto simp: list_all_iff)
qed

lemma column_bytes:
  assumes "map (\<lambda>i. map_of o' (p @ i @ ''_value'')) [''0'', ''1'', ''2'', ''3''] = map (\<lambda>v. Some (value_cell v)) (pad_versions versions)"
    and "length versions \<le> 4" and "list_all (\<lambda>v. v \<noteq> None) versions"
  shows "sprite_bytes p o' = map (bv_value \<circ> the) versions"
proof -
  have "map (\<lambda>i. byte_column o' (p @ i)) [''0'', ''1'', ''2'', ''3''] =
      map (\<lambda>c. case c of Some (CInt n) \<Rightarrow> Some n | _ \<Rightarrow> None) (map (\<lambda>i. map_of o' (p @ i @ ''_value'')) [''0'', ''1'', ''2'', ''3''])"
    by (simp add: byte_column_def)
  also have "\<dots> = map (map_option bv_value) (pad_versions versions)"
    unfolding assms(1) by (simp add: value_cell_number)
  finally show ?thesis using pad_filter [OF assms(2,3)] by (simp add: sprite_bytes_def)
qed

lemma pair_composed:
  assumes "snap_ok a" and "snap_ok b" and "list_all (\<lambda>sn. sn_collision sn = 0 \<and> sn_status sn \<noteq> ''mismatch'') [a, b]"
    and "list_all (\<lambda>v. v \<noteq> None) [sn_low a, sn_high a, sn_low b, sn_high b]"
  shows "sn_value a OR push_bit 16 (sn_value b) =
    compose (map (bv_value \<circ> the) [sn_low a, sn_high a, sn_low b, sn_high b])"
proof -
  have "sn_value sn = compose [bv_value (the (sn_low sn)), bv_value (the (sn_high sn))]" if "sn \<in> set [a, b]" for sn
    using words_composed [of "[a, b]" sn] assms that by simp
  then have "sn_value a = compose [bv_value (the (sn_low a)), bv_value (the (sn_high a))]"
    "sn_value b = compose [bv_value (the (sn_low b)), bv_value (the (sn_high b))]" by simp_all
  then show ?thesis by (simp only: compose_four list.map o_apply)
qed

lemma sprite_record_shows:
  assumes "validate_atomic_decode r = Inr d" and "validate_table_group r table = Inr table_versions"
    and "validate_tile_group r tile (ad_bpp d) (ad_row_address d) (ad_row_value d) = Inr (contributing, row_versions)"
    and "sprite_record coverage r index (ad_bpp d) table table_versions tile contributing row_versions = Inr o'"
    and "sprite_group_ok table" and "sprite_group_ok tile"
  shows "row_shows_memory o'"
proof -
  note T = validate_table_group_Inr [OF assms(2)] and L = validate_tile_group_Inr [OF assms(3)]
    and D = validate_atomic_decode_Inr [OF assms(1)]
  from T obtain t0 t1 t2 t3 where tv: "table_versions = [t0, t1, t2, t3]" by blast
  note C = sprite_record_columns [OF assms(4) tv]
  have row: "int (length (sprite_bytes ''row_b'' o')) = ad_bpp d \<and>
      py_int10 (t_values r ''tile_row_value'') = Some (compose (sprite_bytes ''row_b'' o'))"
    if "fst (summarize_row row_versions) = ''match''"
  proof -
    note known = summarize_match [OF that]
    have len: "length row_versions \<le> 4" using L by (auto split: if_splits)
    have "ad_row_value d = compose (map (bv_value \<circ> the) row_versions)"
    proof (cases "ad_bpp d = 2")
      case True
      then have c: "contributing = [sg_first tile]" "ad_row_value d = sn_value (sg_first tile)"
          "row_versions = [sn_low (sg_first tile), sn_high (sg_first tile)]" using L by auto
      have "sn_value (sg_first tile) = compose [bv_value (the (sn_low (sg_first tile))), bv_value (the (sn_high (sg_first tile)))]"
        using words_composed [of "[sg_first tile]"] L c known assms(6) by (simp add: sprite_group_ok_def)
      then show ?thesis by (simp only: c(2,3) list.map o_apply)
    next
      case False
      then have c: "contributing = [sg_first tile, sg_second tile]" "ad_row_value d = group_value tile"
          "row_versions = [sn_low (sg_first tile), sn_high (sg_first tile), sn_low (sg_second tile), sn_high (sg_second tile)]"
        using L by auto
      have "list_all (\<lambda>sn. sn_collision sn = 0 \<and> sn_status sn \<noteq> ''mismatch'') contributing" using L by blast
      then show ?thesis
        using assms(6) known unfolding c group_value_def sprite_group_ok_def by (intro pair_composed) blast+
    qed
    moreover have "int (length row_versions) = ad_bpp d"
    proof (cases "ad_bpp d = 2")
      case True
      then show ?thesis using L by simp
    next
      case False
      then show ?thesis using L D by simp
    qed
    moreover have "sprite_bytes ''row_b'' o' = map (bv_value \<circ> the) row_versions"
      using C by (intro column_bytes [OF _ len known]) simp
    ultimately show ?thesis using D by simp
  qed
  have table: "length (sprite_bytes ''table_b'' o') = 4 \<and>
      py_int10 (t_values r ''sprite_table_value'') = Some (compose (sprite_bytes ''table_b'' o'))"
    if "fst (summarize_row table_versions) = ''match''"
  proof -
    note known = summarize_match [OF that]
    have v: "table_versions = [sn_low (sg_first table), sn_high (sg_first table), sn_low (sg_second table), sn_high (sg_second table)]"
      using T by simp
    have "list_all (\<lambda>sn. sn_collision sn = 0 \<and> sn_status sn \<noteq> ''mismatch'') [sg_first table, sg_second table]"
      using T by blast
    then have "group_value table = compose (map (bv_value \<circ> the) table_versions)"
      using assms(5) known unfolding v group_value_def sprite_group_ok_def by (intro pair_composed) blast+
    moreover have "pad_versions table_versions = table_versions" by (simp add: tv pad_versions_def)
    then have "sprite_bytes ''table_b'' o' = map (bv_value \<circ> the) table_versions"
      using C by (intro column_bytes [OF _ _ known]) (simp_all add: tv)
    ultimately show ?thesis using T by (simp add: tv)
  qed
  have "text_column o' ''bpp'' = t_values r ''bpp''" using C by simp
  with D have "ad_bpp d \<in> {2, 4} \<and> py_int10 (text_column o' ''bpp'') = Some (ad_bpp d)" by simp
  then show ?thesis using C row table unfolding row_shows_memory_def summarize_group_def by auto
qed

definition sprite_backed :: "sprite_state \<Rightarrow> bool" where
  "sprite_backed s \<longleftrightarrow> (case sp_table_first s of None \<Rightarrow> True | Some sn \<Rightarrow> snap_ok sn) \<and>
     (case sp_tile_first s of None \<Rightarrow> True | Some sn \<Rightarrow> snap_ok sn) \<and>
     list_all sprite_group_ok (sp_tables s) \<and> list_all sprite_group_ok (sp_tiles s) \<and>
     list_all row_shows_memory (sp_output s)"

lemma sprite_raw_row_backed:
  assumes "sprite_backed s" and "sprite_raw_row r s = Inr s'"
  shows "sprite_backed s'"
  using assms(2)
proof (rule sprite_raw_row_cases)
  show "sprite_backed s'" if "s' = s" using that assms(1) by simp
  show "sprite_backed s'" if "sprite_snapshot r (sb_iram (sp_memory s)) = Inr sn" "table_read r sn s = Inr s'" for sn
    using that(2) sprite_snapshot_ok [OF that(1)] assms(1)
    by (auto simp: table_read_def res_simps sprite_backed_def sprite_group_ok_def split: option.splits)
  show "sprite_backed s'" if "sprite_snapshot r (sb_iram (sp_memory s)) = Inr sn" "s' = tile_read sn s" for sn
    using that(2) sprite_snapshot_ok [OF that(1)] assms(1)
    by (auto simp: tile_read_def sprite_backed_def sprite_group_ok_def split: option.splits)
qed

lemma sprite_atomic_row_backed:
  assumes "sprite_backed s" and "sprite_atomic_row coverage r s = Inr s'"
  shows "sprite_backed s'"
proof (cases "t_values r ''event'' = ''sprite_row''")
  case False
  then show ?thesis using assms by (simp add: sprite_atomic_row_def)
next
  case True
  from assms(2) True obtain d epoch line_y expected tile tiles table_versions contributing row_versions record' cs where
      d: "validate_atomic_decode r = Inr d" and gen: "nat (ad_table_generation d) < length (sp_tables s)"
      and t: "sp_tiles s = tile # tiles"
      and tv: "validate_table_group r (sp_tables s ! nat (ad_table_generation d)) = Inr table_versions"
      and rv: "validate_tile_group r tile (ad_bpp d) (ad_row_address d) (ad_row_value d) = Inr (contributing, row_versions)"
      and o': "sprite_record coverage r (sp_counts s ''sprite_rows'') (ad_bpp d) (sp_tables s ! nat (ad_table_generation d))
           table_versions tile contributing row_versions = Inr record'"
      and s': "s' = s\<lparr>sp_active_epoch := Some epoch, sp_active_line_y := Some line_y, sp_expected_slot := expected,
                    sp_tables := (sp_tables s)[nat (ad_table_generation d) :=
                      (sp_tables s ! nat (ad_table_generation d))\<lparr>sg_references :=
                         sg_references (sp_tables s ! nat (ad_table_generation d)) + 1\<rparr>],
                    sp_tiles := tiles, sp_counts := cs, sp_output := sp_output s @ [record']\<rparr>"
    by (rule sprite_atomic_row_cases) blast
  define k where "k = nat (ad_table_generation d)"
  have ok: "sprite_group_ok (sp_tables s ! k)" "sprite_group_ok tile" "list_all sprite_group_ok tiles"
    using assms(1) gen t by (auto simp: sprite_backed_def list_all_iff k_def)
  have shown: "row_shows_memory record'" using sprite_record_shows [OF d tv rv o'] ok by (simp add: k_def)
  have "sprite_group_ok ((sp_tables s ! k)\<lparr>sg_references := n\<rparr>)" for n using ok(1) by (simp add: sprite_group_ok_def)
  then have "list_all sprite_group_ok ((sp_tables s)[k := (sp_tables s ! k)\<lparr>sg_references := n\<rparr>])" for n
    using assms(1) by (auto simp: sprite_backed_def list_all_iff dest!: subsetD [OF set_update_subset_insert])
  then show ?thesis using assms(1) ok shown by (simp add: sprite_backed_def s' k_def)
qed

lemma sprite_mem_row_backed:
  assumes "sprite_backed s" and "sprite_mem_row r s = Inr s'"
  shows "sprite_backed s'"
  using assms by (auto simp: sprite_mem_row_def sprite_backed_def rbind_eq_Inr split: if_splits)

interpretation sprite_raw_backed: res_machine sprite_raw_row sprite_backed
  by unfold_locales (rule sprite_raw_row_backed)
interpretation sprite_atomic_backed: res_machine "sprite_atomic_row coverage" sprite_backed for coverage
  by unfold_locales (rule sprite_atomic_row_backed)
interpretation sprite_mem_backed: res_machine sprite_mem_row sprite_backed
  by unfold_locales (rule sprite_mem_row_backed)

lemma sprite_cycle_backed:
  assumes "sprite_backed s" and "sprite_cycle coverage rows s = Inr s'"
  shows "sprite_backed s'"
proof -
  from assms(2) obtain s1 s2 where c: "fold_res sprite_raw_row rows s = Inr s1"
      "fold_res (sprite_atomic_row coverage) rows s1 = Inr s2" "fold_res sprite_mem_row rows s2 = Inr s'"
    by (rule sprite_cycle_parts)
  show ?thesis
    by (rule sprite_mem_backed.run_inv [OF sprite_atomic_backed.run_inv [OF sprite_raw_backed.run_inv [OF assms(1) c(1)] c(2)] c(3)])
qed

interpretation sprite_cycles_backed: res_machine "sprite_cycle coverage" sprite_backed for coverage
  by unfold_locales (rule sprite_cycle_backed)

text \<open>
  C17: An exported sprite row that matches shows the bytes of memory. Every record a successful sprite
  correlation writes out has two or four bits per pixel; a row marked as matching exports as many
  scoreboard bytes (two for two planes, four for four) and its tile value is exactly those bytes, least
  significant first; and a descriptor marked as matching exports four bytes and its value is those four.
\<close>

theorem sprite_rows_show_memory:
  assumes "sprite_correlate fs trace source require_coverage fieldnames records = Inr (counts', out)"
  shows "list_all row_shows_memory out"
proof -
  obtain coverage ram s where run: "fold_res (sprite_cycle coverage)
        (group_rows (map trace_row_of (numbered_rows fieldnames records))) (sprite_start ram) = Inr s"
      and f: "out = sp_output s"
    using sprite_correlate_Inr [OF assms] by metis
  have start: "sprite_backed (sprite_start ram)" by (simp add: sprite_backed_def sprite_start_def)
  show ?thesis using sprite_cycles_backed.run_inv [OF start run] f by (simp add: sprite_backed_def)
qed

end
