(* ===== verification/Sprite_Slots.thy ===== *)
theory Sprite_Slots
  imports Sprite_Results
begin

unbundle bit_operations_syntax

text \<open>
  The slots of a scanline, and a concrete trace of one sprite row (two descriptor words, one tile
  pair, the atomic row) at which the properties of \<^verbatim>\<open>sim/verilator/correlate_sprite_rows.py\<close> are applied.
\<close>

section \<open>The slots of a scanline\<close>

text \<open>
  The slot discipline as a transition system: a run over (epoch, line, slot) triples, with the epoch,
  the line and the next slot as its state. A later epoch starts a line at slot 0; the same epoch
  continues its line with the next slot.
\<close>

type_synonym slot_key = "int \<times> int \<times> int"

inductive slot_run :: "slot_key list \<Rightarrow> slot_key option \<Rightarrow> bool" where
  start: "slot_run [] None"
| first: "slot_run ks None \<Longrightarrow> slot_run (ks @ [(e, y, 0)]) (Some (e, y, 1))"
| later: "slot_run ks (Some (e', y', n)) \<Longrightarrow> e' < e \<Longrightarrow> slot_run (ks @ [(e, y, 0)]) (Some (e, y, 1))"
| same: "slot_run ks (Some (e, y, n)) \<Longrightarrow> slot_run (ks @ [(e, y, n)]) (Some (e, y, n + 1))"

inductive_cases slot_run_None: "slot_run ks None"
inductive_simps slot_run_Nil: "slot_run [] st"

definition slots_of :: "int \<Rightarrow> slot_key list \<Rightarrow> int list" where
  "slots_of e ks = map (snd \<circ> snd) (filter (\<lambda>k. fst k = e) ks)"

definition lines_of :: "int \<Rightarrow> slot_key list \<Rightarrow> int set" where
  "lines_of e ks = (fst \<circ> snd) ` {k \<in> set ks. fst k = e}"

lemma slots_of_append [simp]: "slots_of e (ks @ ls) = slots_of e ks @ slots_of e ls"
  by (simp add: slots_of_def)

lemma lines_of_append [simp]: "lines_of e (ks @ ls) = lines_of e ks \<union> lines_of e ls"
  by (auto simp: lines_of_def)

lemma one_key [simp]:
  "slots_of e [(e', y, n)] = (if e' = e then [n] else [])" "lines_of e [(e', y, n)] = (if e' = e then {y} else {})"
  by (auto simp: slots_of_def lines_of_def)

lemma no_later_epochs:
  "slot_run ks st \<Longrightarrow> case st of None \<Rightarrow> ks = [] | Some (e, y, n) \<Rightarrow> \<forall>k\<in>set ks. fst k \<le> e"
  by (induction rule: slot_run.induct) (auto split: option.splits)

lemma no_slots: "\<forall>k\<in>set ks. fst k \<noteq> e \<Longrightarrow> slots_of e ks = [] \<and> lines_of e ks = {}"
  by (auto simp: slots_of_def lines_of_def filter_empty_conv)

text \<open>Within an epoch the slots are numbered from 0 without gaps, on one line.\<close>

lemma slot_run_contiguous:
  "slot_run ks st \<Longrightarrow> (\<forall>e. slots_of e ks = map int [0..<length (slots_of e ks)]) \<and>
   (\<forall>e. \<exists>y. lines_of e ks \<subseteq> {y}) \<and>
   (case st of None \<Rightarrow> ks = [] | Some (e, y, n) \<Rightarrow> int (length (slots_of e ks)) = n \<and> lines_of e ks \<subseteq> {y})"
proof (induction rule: slot_run.induct)
  case start
  then show ?case by (simp add: slots_of_def lines_of_def)
next
  case (first ks e y)
  then show ?case by (auto simp: slots_of_def lines_of_def)
next
  case (later ks e' y' n e y)
  have "\<forall>k\<in>set ks. fst k \<noteq> e" using no_later_epochs [OF later.hyps(1)] later.hyps(2) by fastforce
  note none = no_slots [OF this]
  show ?case using later.IH none by auto
next
  case (same ks e y n)
  have n: "n = int (length (slots_of e ks))" and l: "lines_of e ks \<subseteq> {y}" using same.IH by auto
  have "slots_of e ks = map int [0..<length (slots_of e ks)]" using same.IH by blast
  then have "slots_of e ks @ [n] = map int [0..<Suc (length (slots_of e ks))]" using n by simp
  then show ?case using same.IH n l by auto
qed

definition slot_key_of :: "out_record \<Rightarrow> slot_key" where
  "slot_key_of o' = (the (py_int10 (text_column o' ''sprite_line_epoch'')),
     the (py_int10 (text_column o' ''sprite_line_y'')), the (py_int10 (text_column o' ''sprite_line_slot'')))"

definition slot_state :: "sprite_state \<Rightarrow> slot_key option" where
  "slot_state s = (case (sp_active_epoch s, sp_active_line_y s) of
     (Some e, Some y) \<Rightarrow> Some (e, y, sp_expected_slot s) | _ \<Rightarrow> None)"

definition slots_ok :: "sprite_state \<Rightarrow> bool" where
  "slots_ok s \<longleftrightarrow> slot_run (map slot_key_of (sp_output s)) (slot_state s) \<and>
     (sp_active_epoch s = None \<longleftrightarrow> sp_active_line_y s = None) \<and>
     list_all (\<lambda>o'. 0 \<le> snd (snd (slot_key_of o')) \<and> snd (snd (slot_key_of o')) \<le> 31) (sp_output s)"

lemma sprite_raw_row_slots:
  assumes "slots_ok s" and "sprite_raw_row r s = Inr s'"
  shows "slots_ok s'"
proof -
  have "sp_output s' = sp_output s \<and> sp_active_epoch s' = sp_active_epoch s \<and>
      sp_active_line_y s' = sp_active_line_y s \<and> sp_expected_slot s' = sp_expected_slot s"
    using assms(2)
    by (rule sprite_raw_row_cases) (auto simp: table_read_def tile_read_def res_simps split: option.splits)
  then have e: "sp_output s' = sp_output s" "sp_active_epoch s' = sp_active_epoch s"
      "sp_active_line_y s' = sp_active_line_y s" "sp_expected_slot s' = sp_expected_slot s" by simp_all
  show ?thesis using assms(1) unfolding slots_ok_def slot_state_def e .
qed

lemma sprite_atomic_row_slots:
  assumes "slots_ok s" and "sprite_atomic_row coverage r s = Inr s'"
  shows "slots_ok s'"
proof (cases "t_values r ''event'' = ''sprite_row''")
  case False
  then show ?thesis using assms by (simp add: sprite_atomic_row_def)
next
  case True
  from assms(2) True obtain d epoch line_y expected tile table table_versions contributing row_versions record' where
      d: "validate_atomic_decode r = Inr d"
      and v: "validate_slot_sequence r (ad_line_y d) (ad_line_slot d) (ad_line_epoch d)
                 (sp_active_epoch s) (sp_active_line_y s) (sp_expected_slot s) = Inr (epoch, line_y, expected)"
      and tv: "validate_table_group r table = Inr table_versions"
      and o': "sprite_record coverage r (sp_counts s ''sprite_rows'') (ad_bpp d) table
           table_versions tile contributing row_versions = Inr record'"
      and s': "sp_active_epoch s' = Some epoch" "sp_active_line_y s' = Some line_y" "sp_expected_slot s' = expected"
        "sp_output s' = sp_output s @ [record']"
    by (rule sprite_atomic_row_cases) simp
  note D = validate_atomic_decode_Inr [OF d]
  obtain t0 t1 t2 t3 where "table_versions = [t0, t1, t2, t3]" using validate_table_group_Inr [OF tv] by blast
  from sprite_record_columns [OF o' this] have key: "slot_key_of record' = (ad_line_epoch d, ad_line_y d, ad_line_slot d)"
    using D by (simp add: slot_key_of_def)
  have run: "slot_run (map slot_key_of (sp_output s)) (slot_state s)" using assms(1) by (simp add: slots_ok_def)
  have "slot_run (map slot_key_of (sp_output s) @ [(ad_line_epoch d, ad_line_y d, ad_line_slot d)]) (Some (epoch, line_y, expected))"
  proof (cases "sp_active_epoch s")
    case None
    then have "slot_state s = None" by (simp add: slot_state_def)
    then show ?thesis using v None run slot_run.first by (auto simp: validate_slot_sequence_def res_simps)
  next
    case (Some e')
    then obtain y' where y': "sp_active_line_y s = Some y'" using assms(1) by (auto simp: slots_ok_def)
    then have st: "slot_state s = Some (e', y', sp_expected_slot s)" using Some by (simp add: slot_state_def)
    show ?thesis
    proof (cases "e' < ad_line_epoch d")
      case True
      then show ?thesis using v Some run st slot_run.later by (auto simp: validate_slot_sequence_def res_simps)
    next
      case False
      then have "ad_line_epoch d = e'" "ad_line_y d = y'" "ad_line_slot d = sp_expected_slot s"
        "epoch = e'" "line_y = y'" "expected = sp_expected_slot s + 1"
        using v Some y' by (auto simp: validate_slot_sequence_def res_simps)
      then show ?thesis using slot_run.same run st by simp
    qed
  qed
  then show ?thesis using assms(1) key D by (simp add: slots_ok_def s' slot_state_def)
qed

lemma sprite_mem_row_slots:
  assumes "slots_ok s" and "sprite_mem_row r s = Inr s'"
  shows "slots_ok s'"
  using assms by (auto simp: sprite_mem_row_def slots_ok_def slot_state_def rbind_eq_Inr split: if_splits)

interpretation sprite_raw_slots: res_machine sprite_raw_row slots_ok
  by unfold_locales (rule sprite_raw_row_slots)
interpretation sprite_atomic_slots: res_machine "sprite_atomic_row coverage" slots_ok for coverage
  by unfold_locales (rule sprite_atomic_row_slots)
interpretation sprite_mem_slots: res_machine sprite_mem_row slots_ok
  by unfold_locales (rule sprite_mem_row_slots)

lemma sprite_cycle_slots:
  assumes "slots_ok s" and "sprite_cycle coverage rows s = Inr s'"
  shows "slots_ok s'"
proof -
  from assms(2) obtain s1 s2 where c: "fold_res sprite_raw_row rows s = Inr s1"
      "fold_res (sprite_atomic_row coverage) rows s1 = Inr s2" "fold_res sprite_mem_row rows s2 = Inr s'"
    by (rule sprite_cycle_parts)
  show ?thesis
    by (rule sprite_mem_slots.run_inv [OF sprite_atomic_slots.run_inv [OF sprite_raw_slots.run_inv [OF assms(1) c(1)] c(2)] c(3)])
qed

interpretation sprite_cycles_slots: res_machine "sprite_cycle coverage" slots_ok for coverage
  by unfold_locales (rule sprite_cycle_slots)

text \<open>
  C28: A scanline shows at most 32 sprites, numbered without gaps. In the records a successful sprite
  correlation writes out, the rows of one line epoch are all on one line, their slots are 0, 1, 2, ... in
  this order, and there are at most 32 of them; the whole sequence is a run of the slot discipline, in
  which epochs never go back.
\<close>

theorem sprite_slots_contiguous:
  assumes "sprite_correlate fs trace source require_coverage fieldnames records = Inr (counts', out)"
  shows "(\<exists>st. slot_run (map slot_key_of out) st) \<and>
    (\<forall>e. slots_of e (map slot_key_of out) = map int [0..<length (slots_of e (map slot_key_of out))] \<and>
      length (slots_of e (map slot_key_of out)) \<le> 32 \<and> (\<exists>y. lines_of e (map slot_key_of out) \<subseteq> {y}))"
proof -
  obtain coverage ram s where run: "fold_res (sprite_cycle coverage)
        (group_rows (map trace_row_of (numbered_rows fieldnames records))) (sprite_start ram) = Inr s"
      and f: "out = sp_output s"
    using sprite_correlate_Inr [OF assms] by metis
  have "slots_ok (sprite_start ram)" by (simp add: slots_ok_def slot_state_def sprite_start_def slot_run.start)
  from sprite_cycles_slots.run_inv [OF this run] have ok: "slots_ok s" .
  then have r: "slot_run (map slot_key_of out) (slot_state s)" by (simp add: slots_ok_def f)
  note c = slot_run_contiguous [OF r]
  have "length (slots_of e (map slot_key_of out)) \<le> 32" for e
  proof (rule ccontr)
    let ?l = "slots_of e (map slot_key_of out)"
    assume "\<not> length ?l \<le> 32"
    then have "32 < length ?l" by simp
    moreover have "?l = map int [0..<length ?l]" using c by blast
    ultimately have "?l ! 32 = 32" by (metis nth_map_upt add_0 of_nat_numeral diff_zero)
    with \<open>32 < length ?l\<close> have "(32 :: int) \<in> set ?l" by (metis nth_mem)
    then obtain o' where "o' \<in> set (sp_output s)" "snd (snd (slot_key_of o')) = 32"
      by (auto simp: slots_of_def f simp del: split_paired_Ex)
    then show False using ok by (auto simp: slots_ok_def list_all_iff)
  qed
  then show ?thesis using r c by blast
qed

section \<open>A sprite row and its reads\<close>

text \<open>Three DMA writes, the two reads of a descriptor, the two tile reads and the row they make.\<close>

definition sp_low_write_example :: "string list" where
  "sp_low_write_example = [''0'', ''mem'', [], [], [], ''512'', ''5'', [], ''gdma'', ''write'', ''3'', ''iram'', ''512'', [], [], ''not_applicable'', [], []] @ replicate 25 []"

definition sp_low_write :: row where "sp_low_write = dict_row FIELDS_V6 sp_low_write_example"

definition sp_high_write_example :: "string list" where
  "sp_high_write_example = [''0'', ''mem'', [], [], [], ''514'', ''20'', [], ''gdma'', ''write'', ''3'', ''iram'', ''514'', [], [], ''not_applicable'', [], []] @ replicate 25 []"

definition sp_high_write :: row where "sp_high_write = dict_row FIELDS_V6 sp_high_write_example"

definition sp_row_write_example :: "string list" where
  "sp_row_write_example = [''0'', ''mem'', [], [], [], ''8276'', ''1'', [], ''gdma'', ''write'', ''3'', ''iram'', ''8276'', [], [], ''not_applicable'', [], []] @ replicate 25 []"

definition sp_row_write :: row where "sp_row_write = dict_row FIELDS_V6 sp_row_write_example"

definition sp_low_read_example :: "string list" where
  "sp_low_read_example = [''1'', ''vram'', [], [], [], ''512'', [], ''sprite_table'', [], [], [], [], [], [], [], [], ''5'', ''0''] @ replicate 25 []"

definition sp_low_read :: row where "sp_low_read = dict_row FIELDS_V6 sp_low_read_example"

definition sp_high_read_example :: "string list" where
  "sp_high_read_example = [''1'', ''vram'', [], [], [], ''514'', [], ''sprite_table'', [], [], [], [], [], [], [], [], ''20'', ''0''] @ replicate 25 []"

definition sp_high_read :: row where "sp_high_read = dict_row FIELDS_V6 sp_high_read_example"

definition sp_row_read_example :: "string list" where
  "sp_row_read_example = [''2'', ''vram'', [], [], [], ''8276'', [], ''sprite_tile'', [], [], [], [], [], [], [], [], ''1'', ''0''] @ replicate 25 []"

definition sp_row_read :: row where "sp_row_read = dict_row FIELDS_V6 sp_row_read_example"

definition sp_sync_read_example :: "string list" where
  "sp_sync_read_example = [''2'', ''vram'', [], [], [], ''8278'', [], ''sprite_tile'', [], [], [], [], [], [], [], [], ''0'', ''0''] @ replicate 25 []"

definition sp_sync_read :: row where "sp_sync_read = dict_row FIELDS_V6 sp_sync_read_example"

definition sp_shown_example :: "string list" where
  "sp_shown_example = [''3'', ''sprite_row''] @ replicate 22 [] @
     [''5'', ''8'', ''0'', ''0'', ''2'', ''0'', ''2'', ''8276'', ''2'', ''1'', [], ''0'',
      ''512'', ''1310725'', ''0'', ''22'', ''0'', ''0'', ''1'']"

definition sp_shown :: row where "sp_shown = dict_row FIELDS_V6 sp_shown_example"

lemma sp_low_write_values:
  "sp_low_write ''cycle'' = ''0''"
  "sp_low_write ''event'' = ''mem''"
  "sp_low_write ''address'' = ''512''"
  "sp_low_write ''value'' = ''5''"
  "sp_low_write ''initiator'' = ''gdma''"
  "sp_low_write ''access'' = ''write''"
  "sp_low_write ''byte_enable'' = ''3''"
  "sp_low_write ''space'' = ''iram''"
  by code_simp+

lemma sp_high_write_values:
  "sp_high_write ''cycle'' = ''0''"
  "sp_high_write ''event'' = ''mem''"
  "sp_high_write ''address'' = ''514''"
  "sp_high_write ''value'' = ''20''"
  "sp_high_write ''initiator'' = ''gdma''"
  "sp_high_write ''access'' = ''write''"
  "sp_high_write ''byte_enable'' = ''3''"
  "sp_high_write ''space'' = ''iram''"
  by code_simp+

lemma sp_row_write_values:
  "sp_row_write ''cycle'' = ''0''"
  "sp_row_write ''event'' = ''mem''"
  "sp_row_write ''address'' = ''8276''"
  "sp_row_write ''value'' = ''1''"
  "sp_row_write ''initiator'' = ''gdma''"
  "sp_row_write ''access'' = ''write''"
  "sp_row_write ''byte_enable'' = ''3''"
  "sp_row_write ''space'' = ''iram''"
  by code_simp+

lemma sp_low_read_values:
  "sp_low_read ''cycle'' = ''1''"
  "sp_low_read ''event'' = ''vram''"
  "sp_low_read ''address'' = ''512''"
  "sp_low_read ''role'' = ''sprite_table''"
  "sp_low_read ''fetch_value'' = ''5''"
  "sp_low_read ''fetch_collision'' = ''0''"
  by code_simp+

lemma sp_high_read_values:
  "sp_high_read ''cycle'' = ''1''"
  "sp_high_read ''event'' = ''vram''"
  "sp_high_read ''address'' = ''514''"
  "sp_high_read ''role'' = ''sprite_table''"
  "sp_high_read ''fetch_value'' = ''20''"
  "sp_high_read ''fetch_collision'' = ''0''"
  by code_simp+

lemma sp_row_read_values:
  "sp_row_read ''cycle'' = ''2''"
  "sp_row_read ''event'' = ''vram''"
  "sp_row_read ''address'' = ''8276''"
  "sp_row_read ''role'' = ''sprite_tile''"
  "sp_row_read ''fetch_value'' = ''1''"
  "sp_row_read ''fetch_collision'' = ''0''"
  by code_simp+

lemma sp_sync_read_values:
  "sp_sync_read ''cycle'' = ''2''"
  "sp_sync_read ''event'' = ''vram''"
  "sp_sync_read ''address'' = ''8278''"
  "sp_sync_read ''role'' = ''sprite_tile''"
  "sp_sync_read ''fetch_value'' = ''0''"
  "sp_sync_read ''fetch_collision'' = ''0''"
  by code_simp+

lemma sp_shown_values:
  "sp_shown ''cycle'' = ''3''"
  "sp_shown ''event'' = ''sprite_row''"
  "sp_shown ''tile_index'' = ''5''"
  "sp_shown ''palette'' = ''8''"
  "sp_shown ''hflip'' = ''0''"
  "sp_shown ''vflip'' = ''0''"
  "sp_shown ''bpp'' = ''2''"
  "sp_shown ''packed'' = ''0''"
  "sp_shown ''tile_row'' = ''2''"
  "sp_shown ''tile_row_address'' = ''8276''"
  "sp_shown ''tile_row_bytes'' = ''2''"
  "sp_shown ''tile_row_value'' = ''1''"
  "sp_shown ''tile_row_collision'' = ''0''"
  "sp_shown ''sprite_table_address'' = ''512''"
  "sp_shown ''sprite_table_value'' = ''1310725''"
  "sp_shown ''sprite_table_collision'' = ''0''"
  "sp_shown ''sprite_line_y'' = ''22''"
  "sp_shown ''sprite_line_slot'' = ''0''"
  "sp_shown ''sprite_table_generation'' = ''0''"
  "sp_shown ''sprite_line_epoch'' = ''1''"
  by code_simp+

lemma sp_int_texts: "py_int10 ''20'' = Some 20" "py_int10 ''514'' = Some 514"
  by (simp_all add: py_int10_def strip_def is_space_def char_code_def digit_val_def)

lemmas sp_demo_values = sp_low_write_values sp_high_write_values sp_row_write_values sp_low_read_values sp_high_read_values sp_row_read_values sp_sync_read_values sp_shown_values int_texts sp_int_texts row_cycle_def field_def

definition sp_demo_records :: "string list list" where
  "sp_demo_records = [sp_low_write_example, sp_high_write_example, sp_row_write_example, sp_low_read_example, sp_high_read_example, sp_row_read_example, sp_sync_read_example, sp_shown_example]"

lemma sp_demo_rows: "numbered_rows FIELDS_V6 sp_demo_records = [(2, sp_low_write), (3, sp_high_write), (4, sp_row_write), (5, sp_low_read), (6, sp_high_read), (7, sp_row_read), (8, sp_sync_read), (9, sp_shown)]"
  by (simp add: numbered_rows_def sp_demo_records_def sp_shown_def sp_low_write_def sp_high_write_def sp_row_write_def sp_low_read_def sp_high_read_def sp_row_read_def sp_sync_read_def)

abbreviation (input) sp_row :: "int \<Rightarrow> row \<Rightarrow> trace_row" where "sp_row n r \<equiv> \<lparr>t_line = n, t_values = r\<rparr>"

definition sp_byte :: "int \<Rightarrow> row \<Rightarrow> int \<Rightarrow> byte_version option" where
  "sp_byte n r b = Some \<lparr>bv_value = b, bv_write = Some (sp_row n r), bv_source = None, bv_lane = None\<rparr>"

definition sp_ram_1 :: iram where
  "sp_ram_1 = (\<lambda>_. None)(512 := sp_byte 2 sp_low_write 5, 513 := sp_byte 2 sp_low_write 0)"

definition sp_ram_2 :: iram where
  "sp_ram_2 = sp_ram_1(514 := sp_byte 3 sp_high_write 20, 515 := sp_byte 3 sp_high_write 0)"

definition sp_ram :: iram where
  "sp_ram = sp_ram_2(8276 := sp_byte 4 sp_row_write 1, 8277 := sp_byte 4 sp_row_write 0)"

lemmas sp_store_defs = sprite_mem_row_def store_row_def observe_def observe_rest_def tracker_start_def
   retire_cpu_chain_def write_lane_def source_lane_def iram_index_def decimal_def Let_def

lemma sp_store:
  "sprite_mem_row (sp_row 2 sp_low_write) (sprite_start (\<lambda>_. None)) = Inr (sprite_start sp_ram_1)"
  "sprite_mem_row (sp_row 3 sp_high_write) (sprite_start sp_ram_1) = Inr (sprite_start sp_ram_2)"
  "sprite_mem_row (sp_row 4 sp_row_write) (sprite_start sp_ram_2) = Inr (sprite_start sp_ram)"
  by (simp_all add: sp_store_defs sp_demo_values sprite_start_def sp_ram_1_def sp_ram_2_def sp_ram_def sp_byte_def)

lemma sp_demo_1: "sprite_cycle ObservedOnly [sp_row 2 sp_low_write, sp_row 3 sp_high_write, sp_row 4 sp_row_write]
    (sprite_start (\<lambda>_. None)) = Inr (sprite_start sp_ram)"
  by (simp add: sprite_cycle_def sp_store sprite_raw_row_def sprite_atomic_row_def sp_demo_values)

lemma sp_ram_values:
  "sp_ram 512 = sp_byte 2 sp_low_write 5" "sp_ram 513 = sp_byte 2 sp_low_write 0"
  "sp_ram 514 = sp_byte 3 sp_high_write 20" "sp_ram 515 = sp_byte 3 sp_high_write 0"
  "sp_ram 8276 = sp_byte 4 sp_row_write 1" "sp_ram 8277 = sp_byte 4 sp_row_write 0"
  "sp_ram 8278 = None" "sp_ram 8279 = None"
  by (simp_all add: sp_ram_def sp_ram_2_def sp_ram_1_def)

definition sp_snap :: "int \<Rightarrow> row \<Rightarrow> int \<Rightarrow> int \<Rightarrow> string \<Rightarrow> snapshot" where
  "sp_snap n r address word status = \<lparr>sn_row = sp_row n r, sn_address = address, sn_value = word, sn_collision = 0,
     sn_low = sp_ram address, sn_high = sp_ram (address + 1), sn_status = status\<rparr>"

lemma sp_snapshots:
  "sprite_snapshot (sp_row 5 sp_low_read) sp_ram = Inr (sp_snap 5 sp_low_read 512 5 ''match'')"
  "sprite_snapshot (sp_row 6 sp_high_read) sp_ram = Inr (sp_snap 6 sp_high_read 514 20 ''match'')"
  "sprite_snapshot (sp_row 7 sp_row_read) sp_ram = Inr (sp_snap 7 sp_row_read 8276 1 ''match'')"
  "sprite_snapshot (sp_row 8 sp_sync_read) sp_ram = Inr (sp_snap 8 sp_sync_read 8278 0 ''unobserved'')"
  by (simp_all add: sprite_snapshot_def decimal_def refuse_def sp_demo_values sp_ram_values sp_byte_def sp_snap_def
    scoreboard_status_def)

definition sp_table :: sprite_group where
  "sp_table = \<lparr>sg_index = 0, sg_first = sp_snap 5 sp_low_read 512 5 ''match'',
     sg_second = sp_snap 6 sp_high_read 514 20 ''match'', sg_references = 0\<rparr>"

definition sp_tile :: sprite_group where
  "sp_tile = \<lparr>sg_index = 0, sg_first = sp_snap 7 sp_row_read 8276 1 ''match'',
     sg_second = sp_snap 8 sp_sync_read 8278 0 ''unobserved'', sg_references = 0\<rparr>"

definition sp_loaded :: sprite_state where
  "sp_loaded = (sprite_start sp_ram)\<lparr>sp_tables := [sp_table], sp_counts := bump ''raw_table_groups'' (\<lambda>_. 0)\<rparr>"

definition sp_fetched :: sprite_state where
  "sp_fetched = sp_loaded\<lparr>sp_tiles := [sp_tile], sp_counts := bump ''raw_tile_groups'' (bump ''raw_table_groups'' (\<lambda>_. 0))\<rparr>"

lemma sp_demo_2: "sprite_cycle ObservedOnly [sp_row 5 sp_low_read, sp_row 6 sp_high_read] (sprite_start sp_ram) = Inr sp_loaded"
  by (simp add: sprite_cycle_def sprite_raw_row_def sprite_atomic_row_def sprite_mem_row_def sp_demo_values sprite_start_def
    sp_snapshots table_read_def refuse_def sp_loaded_def sp_table_def)
   (simp add: sp_snap_def)

lemma sp_demo_3: "sprite_cycle ObservedOnly [sp_row 7 sp_row_read, sp_row 8 sp_sync_read] sp_loaded = Inr sp_fetched"
  by (simp add: sprite_cycle_def sprite_raw_row_def sprite_atomic_row_def sprite_mem_row_def sp_demo_values sprite_start_def
    sp_snapshots tile_read_def sp_loaded_def sp_fetched_def sp_tile_def bump_apply)

definition sp_decode :: atomic_decode where
  "sp_decode = \<lparr>ad_bpp = 2, ad_row_address = 8276, ad_row_value = 1, ad_line_y = 22, ad_line_slot = 0,
     ad_table_generation = 0, ad_line_epoch = 1\<rparr>"

lemma sp_decoded: "validate_atomic_decode (sp_row 9 sp_shown) = Inr sp_decode"
  by (simp add: validate_atomic_decode_def check_descriptor_def decimal_def refuse_def sp_demo_values Let_def sp_decode_def)

definition sp_table_bytes :: "byte_version option list" where
  "sp_table_bytes = [sp_byte 2 sp_low_write 5, sp_byte 2 sp_low_write 0, sp_byte 3 sp_high_write 20, sp_byte 3 sp_high_write 0]"

definition sp_row_bytes :: "byte_version option list" where
  "sp_row_bytes = [sp_byte 4 sp_row_write 1, sp_byte 4 sp_row_write 0]"

lemma sp_table_valid: "validate_table_group (sp_row 9 sp_shown) sp_table = Inr sp_table_bytes"
  by (simp add: validate_table_group_def check_contributing_def decimal_def refuse_def sp_demo_values sp_table_def sp_snap_def
     group_value_def group_collision_def sp_ram_values sp_table_bytes_def)

lemma sp_tile_valid: "validate_tile_group (sp_row 9 sp_shown) sp_tile 2 8276 1 = Inr ([sg_first sp_tile], sp_row_bytes)"
  by (simp add: validate_tile_group_def check_contributing_def decimal_def refuse_def sp_demo_values sp_tile_def sp_snap_def
     sp_ram_values sp_row_bytes_def)

lemma sp_summary: "fst (summarize_group sp_row_bytes) = ''match''"
  by (simp add: summarize_group_def summarize_row_def sp_row_bytes_def sp_byte_def Let_def)

lemma sp_recorded: "\<exists>o'. sprite_record ObservedOnly (sp_row 9 sp_shown) 0 2 sp_table sp_table_bytes sp_tile
    [sg_first sp_tile] sp_row_bytes = Inr o'"
proof -
  obtain a b where a: "summarize_group sp_table_bytes = (a, b)" by (cases "summarize_group sp_table_bytes")
  obtain c d where c: "summarize_group sp_row_bytes = (c, d)" by (cases "summarize_group sp_row_bytes")
  have "\<exists>o'. byte_fields p (sp_byte n r x) = Inr o'" "\<exists>o'. byte_fields p None = Inr o'" for p n r x
    by (simp_all add: byte_fields_def sp_byte_def Let_def)
  then have "\<exists>bs. map_res (\<lambda>(p, v). byte_fields p v) (zip [''table_b0'', ''table_b1'', ''table_b2'', ''table_b3''] sp_table_bytes) = Inr bs"
    "\<exists>bs. map_res (\<lambda>(p, v). byte_fields p v) (zip [''row_b0'', ''row_b1'', ''row_b2'', ''row_b3''] (pad_versions sp_row_bytes)) = Inr bs"
    unfolding sp_table_bytes_def sp_row_bytes_def pad_versions_def
    by (simp_all add: byte_fields_def sp_byte_def Let_def rbind_eq_Inr)
  then show ?thesis by (auto simp: sprite_record_def a c split: prod.splits)
qed

lemma sp_demo_4: "\<exists>s o'. sprite_cycle ObservedOnly [sp_row 9 sp_shown] sp_fetched = Inr s \<and> sp_output s = [o'] \<and>
    text_column o' ''row_scoreboard_status'' = ''match'' \<and> slot_key_of o' = (1, 22, 0)"
proof -
  obtain o' where o': "sprite_record ObservedOnly (sp_row 9 sp_shown) 0 2 sp_table sp_table_bytes sp_tile
    [sg_first sp_tile] sp_row_bytes = Inr o'" using sp_recorded by blast
  have cols: "text_column o' ''row_scoreboard_status'' = ''match''" "slot_key_of o' = (1, 22, 0)"
    using sprite_record_columns [OF o' sp_table_bytes_def] sp_summary
    by (simp_all add: slot_key_of_def sp_demo_values)
  have e: "sprite_raw_row (sp_row 9 sp_shown) s = Inr s" "sprite_mem_row (sp_row 9 sp_shown) s = Inr s" for s
    by (simp_all add: sprite_raw_row_def sprite_mem_row_def sp_demo_values)
  have p: "decimal (sp_row 9 sp_shown) ''packed'' 1 = Inr 0" "decimal (sp_row 9 sp_shown) ''sprite_table_collision'' 1 = Inr 0"
    "decimal (sp_row 9 sp_shown) ''tile_row_collision'' 1 = Inr 0" by (simp_all add: decimal_def sp_demo_values)
  have st: "sp_active_epoch sp_fetched = None" "sp_tables sp_fetched = [sp_table]" "sp_tiles sp_fetched = [sp_tile]"
    "sp_counts sp_fetched ''sprite_rows'' = 0" "sp_output sp_fetched = []"
    by (simp_all add: sp_fetched_def sp_loaded_def sprite_start_def bump_apply)
  have v: "validate_slot_sequence (sp_row 9 sp_shown) 22 0 1 None y k = Inr (1, 22, 1)" for y k
    by (simp add: validate_slot_sequence_def refuse_def)
  have i: "sg_index sp_table = 0" by (simp add: sp_table_def)
  obtain s where "sprite_atomic_row ObservedOnly (sp_row 9 sp_shown) sp_fetched = Inr s" "sp_output s = [o']"
    by atomize_elim (simp add: sprite_atomic_row_def sp_demo_values sp_decoded sp_decode_def st v refuse_def i
      sp_table_valid sp_tile_valid o' p)
  then show ?thesis using cols by (auto simp: sprite_cycle_def e)
qed

lemma sp_demo_correlates: "\<exists>counts' o'. sprite_correlate fs trace NoManifest False FIELDS_V6 sp_demo_records = Inr (counts', [o']) \<and>
    text_column o' ''row_scoreboard_status'' = ''match'' \<and> slot_key_of o' = (1, 22, 0)"
proof -
  obtain s o' where "sprite_cycle ObservedOnly [sp_row 9 sp_shown] sp_fetched = Inr s" "sp_output s = [o']"
    "text_column o' ''row_scoreboard_status'' = ''match''" "slot_key_of o' = (1, 22, 0)"
    using sp_demo_4 by blast
  then show ?thesis
    by (simp add: sprite_correlate_def sprite_read_manifest_def display_manifest_def sp_demo_rows pull_row_def sp_demo_values
      sp_demo_1 sp_demo_2 sp_demo_3)
qed

theorem sprite_reads_accounted_witness:
  "\<exists>counts' o'. sprite_correlate (\<lambda>_. None) [] NoManifest False FIELDS_V6 sp_demo_records = Inr (counts', [o']) \<and>
    counts' ''sprite_rows'' = 1 \<and> 2 * counts' ''raw_tile_groups'' + counts' ''raw_tile_inflight'' = 2"
proof -
  obtain counts' o' where c: "sprite_correlate (\<lambda>_. None) [] NoManifest False FIELDS_V6 sp_demo_records = Inr (counts', [o'])"
    using sp_demo_correlates by blast
  have "(\<Sum>r\<leftarrow>numbered_rows FIELDS_V6 sp_demo_records. is_tile_read (trace_row_of r)) = 2"
    by (simp add: sp_demo_rows is_tile_read_def trace_row_of_def sp_demo_values)
  then show ?thesis using c sprite_reads_accounted [OF c] by auto
qed

theorem sprite_rows_show_memory_witness:
  "\<exists>counts' o'. sprite_correlate (\<lambda>_. None) [] NoManifest False FIELDS_V6 sp_demo_records = Inr (counts', [o']) \<and>
    text_column o' ''row_scoreboard_status'' = ''match'' \<and>
    int (length (sprite_bytes ''row_b'' o')) \<in> {2, 4} \<and>
    py_int10 (text_column o' ''tile_row_value'') = Some (compose (sprite_bytes ''row_b'' o'))"
proof -
  obtain counts' o' where c: "sprite_correlate (\<lambda>_. None) [] NoManifest False FIELDS_V6 sp_demo_records = Inr (counts', [o'])"
      and m: "text_column o' ''row_scoreboard_status'' = ''match''"
    using sp_demo_correlates by blast
  then show ?thesis using sprite_rows_show_memory [OF c] by (auto simp: row_shows_memory_def)
qed

theorem sprite_slots_contiguous_witness:
  "\<exists>counts' o' st. sprite_correlate (\<lambda>_. None) [] NoManifest False FIELDS_V6 sp_demo_records = Inr (counts', [o']) \<and>
    slot_run [(1, 22, 0)] st \<and> slots_of 1 (map slot_key_of [o']) = [0]"
proof -
  obtain counts' o' where c: "sprite_correlate (\<lambda>_. None) [] NoManifest False FIELDS_V6 sp_demo_records = Inr (counts', [o'])"
      and k: "slot_key_of o' = (1, 22, 0)"
    using sp_demo_correlates by blast
  then show ?thesis using sprite_slots_contiguous [OF c] by auto
qed

end
