(* ===== verification/Phase_Residues.thy ===== *)
theory Phase_Residues
  imports Swan_Prelude "HOL-Library.Multiset"
begin

text \<open>
  The arithmetic shared by the frame timing models. A producer with period \<open>P\<close> is sampled every
  \<open>C\<close> cycles, from an initial phase \<open>r\<close>: the \<open>k\<close>-th sample falls at phase \<open>(r + k * C) mod P\<close>, in
  period \<open>(r + k * C) div P\<close>. With the quantum \<open>q = gcd P C\<close> and \<open>r < q\<close>, one superperiod of
  \<open>P div q\<close> samples visits every phase congruent to \<open>r\<close> exactly once, and the sequence of periods
  does not depend on \<open>r\<close>. The scripts establish this by enumeration; here it is the interface the
  models share.
\<close>

locale phase_sampler =
  fixes P C :: int
  assumes period_pos: "0 < P"
begin

lemma quantum_pos: "0 < gcd P C"
  using period_pos by simp

lemma samples_pos: "0 < P div gcd P C"
  using period_pos quantum_pos by (simp add: pos_imp_zdiv_pos_iff zdvd_imp_le)

lemma period_split: "P = gcd P C * (P div gcd P C)" and step_split: "C = gcd P C * (C div gcd P C)"
  by simp_all

lemma superperiod: "P div gcd P C * C = P * (C div gcd P C)"
  by (metis dvd_div_mult gcd_dvd1 gcd_dvd2 mult.commute div_mult_swap)

lemma sample_split: "r + k * C = r + gcd P C * (k * (C div gcd P C))"
  using step_split by (metis mult.left_commute)

lemma sample_period:
  assumes "0 \<le> r" "r < gcd P C"
  shows "(r + k * C) div P = k * (C div gcd P C) div (P div gcd P C)"
proof -
  have "(r + k * C) div P = (r + gcd P C * (k * (C div gcd P C))) div (gcd P C * (P div gcd P C))"
    by (simp only: flip: sample_split period_split)
  also have "\<dots> = (r + gcd P C * (k * (C div gcd P C))) div gcd P C div (P div gcd P C)"
    using samples_pos by (intro zdiv_zmult2_eq less_imp_le)
  also have "(r + gcd P C * (k * (C div gcd P C))) div gcd P C = k * (C div gcd P C)"
    using assms quantum_pos by (simp add: div_pos_pos_trivial)
  finally show ?thesis .
qed

lemma sample_phase:
  assumes "0 \<le> r" "r < gcd P C"
  shows "(r + k * C) mod P = r + gcd P C * (k * (C div gcd P C) mod (P div gcd P C))"
proof -
  have "(r + k * C) mod P = r + k * C - P * ((r + k * C) div P)"
    by (simp add: minus_mult_div_eq_mod)
  also have "\<dots> = r + gcd P C * (k * (C div gcd P C)) -
      gcd P C * (P div gcd P C) * (k * (C div gcd P C) div (P div gcd P C))"
    using sample_split [of r k] sample_period [OF assms] period_split by simp
  also have "\<dots> = r + gcd P C * (k * (C div gcd P C) mod (P div gcd P C))"
    by (simp add: algebra_simps flip: minus_mult_div_eq_mod)
  finally show ?thesis .
qed

lemma residues_inj: "inj_on (\<lambda>k. k * (C div gcd P C) mod (P div gcd P C)) {0..P div gcd P C - 1}"
proof (rule inj_onI)
  fix k l assume k: "k \<in> {0..P div gcd P C - 1}" and l: "l \<in> {0..P div gcd P C - 1}"
    and eq: "k * (C div gcd P C) mod (P div gcd P C) = l * (C div gcd P C) mod (P div gcd P C)"
  have "coprime (P div gcd P C) (C div gcd P C)" using period_pos by (simp add: div_gcd_coprime)
  moreover have "P div gcd P C dvd (k - l) * (C div gcd P C)"
    using eq by (simp add: mod_eq_dvd_iff left_diff_distrib)
  ultimately have d: "P div gcd P C dvd k - l" by (simp add: coprime_dvd_mult_left_iff)
  show "k = l"
  proof (rule ccontr)
    assume "k \<noteq> l"
    then have "P div gcd P C \<le> \<bar>k - l\<bar>" using d by (intro zdvd_imp_le) simp_all
    then show False using k l by auto
  qed
qed

text \<open>One superperiod of samples, as a multiset of phases.\<close>

lemma phases_visited:
  assumes "0 \<le> r" "r < gcd P C"
  shows "mset (map (\<lambda>k. (r + k * C) mod P) [0..P div gcd P C - 1]) =
    mset (map (\<lambda>j. r + gcd P C * j) [0..P div gcd P C - 1])"
proof -
  let ?p = "P div gcd P C" and ?c = "C div gcd P C"
  let ?f = "\<lambda>k. k * ?c mod ?p"
  have "?f ` {0..?p - 1} \<subseteq> {0..?p - 1}" using samples_pos by (auto simp: zle_diff1_eq)
  then have surj: "?f ` {0..?p - 1} = {0..?p - 1}" using residues_inj by (simp add: endo_inj_surj)
  have "mset (map ?f [0..?p - 1]) = mset [0..?p - 1]"
    using residues_inj surj by (intro set_eq_iff_mset_eq_distinct [THEN iffD1]) (simp_all add: distinct_map)
  then have "image_mset (\<lambda>j. r + gcd P C * j) (mset (map ?f [0..?p - 1])) =
      image_mset (\<lambda>j. r + gcd P C * j) (mset [0..?p - 1])" by simp
  then show ?thesis
    using sample_phase [OF assms] by (simp add: image_mset.compositionality comp_def multiset.map_comp)
qed

lemma sum_visited:
  assumes "0 \<le> r" "r < gcd P C"
  shows "2 * sum_list (map (\<lambda>k. (r + k * C) mod P) [0..P div gcd P C - 1]) =
    P div gcd P C * (2 * r + P - gcd P C)"
proof -
  let ?p = "P div gcd P C" and ?q = "gcd P C"
  have gauss: "0 \<le> n \<Longrightarrow> 2 * sum_list (map (\<lambda>j. r + ?q * j) [0..n - 1]) = n * (2 * r + ?q * n - ?q)" for n
  proof (induction n rule: int_ge_induct)
    case base
    then show ?case by simp
  next
    case (step i)
    have "[0..i + 1 - 1] = [0..i - 1] @ [i]" using step.hyps upto_rec2 [of 0 i] by simp
    then show ?case using step.IH by (simp add: algebra_simps)
  qed
  have "sum_list (map (\<lambda>k. (r + k * C) mod P) [0..?p - 1]) = sum_list (map (\<lambda>j. r + ?q * j) [0..?p - 1])"
    using phases_visited [OF assms] by (metis sum_mset_sum_list)
  then show ?thesis using gauss [of ?p] samples_pos period_split by simp
qed

lemma set_visited:
  assumes "0 \<le> r" "r < gcd P C"
  shows "set (map (\<lambda>k. (r + k * C) mod P) [0..P div gcd P C - 1]) = {v. 0 \<le> v \<and> v < P \<and> v mod gcd P C = r}"
proof -
  let ?p = "P div gcd P C" and ?q = "gcd P C"
  have "set (map (\<lambda>k. (r + k * C) mod P) [0..?p - 1]) = (\<lambda>j. r + ?q * j) ` {0..?p - 1}"
    using mset_eq_setD [OF phases_visited [OF assms]] by simp
  also have "\<dots> = {v. 0 \<le> v \<and> v < P \<and> v mod ?q = r}"
  proof (intro set_eqI iffI)
    fix v assume "v \<in> (\<lambda>j. r + ?q * j) ` {0..?p - 1}"
    then obtain j where j: "0 \<le> j" "j + 1 \<le> ?p" "v = r + ?q * j" by auto
    have "?q * (j + 1) \<le> ?q * ?p" using j quantum_pos by (simp only: mult_left_mono)
    then have "v < P" using j assms period_split by (simp add: algebra_simps)
    moreover have "0 \<le> v" using j assms quantum_pos by simp
    ultimately show "v \<in> {v. 0 \<le> v \<and> v < P \<and> v mod ?q = r}" using j assms by (simp add: mod_pos_pos_trivial)
  next
    fix v assume v: "v \<in> {v. 0 \<le> v \<and> v < P \<and> v mod ?q = r}"
    have split: "v = r + ?q * (v div ?q)" using v mult_div_mod_eq [of ?q v] by simp
    have "?q * (v div ?q) < ?q * ?p" using split v assms period_split by simp
    then have "v div ?q < ?p" using quantum_pos by (simp only: mult_less_cancel_left_pos)
    moreover have "0 \<le> v div ?q" using v quantum_pos by (simp add: pos_imp_zdiv_nonneg_iff)
    ultimately show "v \<in> (\<lambda>j. r + ?q * j) ` {0..?p - 1}" using split by (intro image_eqI [of v _ "v div ?q"]) simp_all
  qed
  finally show ?thesis .
qed

text \<open>How many samples of a superperiod fall within the first \<open>L\<close> phases after phase zero.\<close>

lemma count_visited:
  assumes "0 \<le> r" "r < gcd P C"
  shows "length (filter Q (map (\<lambda>k. (r + k * C) mod P) [0..P div gcd P C - 1])) =
    length (filter Q (map (\<lambda>j. r + gcd P C * j) [0..P div gcd P C - 1]))"
  using phases_visited [OF assms] by (metis mset_filter size_mset)

end

end
