(* ===== verification/Late_Frames.thy ===== *)
theory Late_Frames
  imports Phase_Residues
begin

text \<open>
  The timing model of the late-frame candidate (\<^verbatim>\<open>scripts/late_frame_delivery.py\<close>): how old a
  complete frame is when the scanout selects it, for the current and for the late raster. A
  \<open>Fraction\<close> is a rational number.
\<close>

section \<open>Geometry\<close>

definition SYSTEM_CLOCK_HZ :: int where "SYSTEM_CLOCK_HZ = 36864000"
definition PIXEL_DIVIDE :: int where "PIXEL_DIVIDE = 6"
definition PRODUCER_LINE_SYSTEM_CYCLES :: int where "PRODUCER_LINE_SYSTEM_CYCLES = 256 * 12"
definition PRODUCER_SYSTEM_CYCLES :: int where "PRODUCER_SYSTEM_CYCLES = 159 * PRODUCER_LINE_SYSTEM_CYCLES"
definition WIDTH :: int where "WIDTH = 224"
definition HEIGHT :: int where "HEIGHT = 144"
definition CURRENT_H_TOTAL :: int where "CURRENT_H_TOTAL = 397"
definition CURRENT_V_TOTAL :: int where "CURRENT_V_TOTAL = 258"
definition CURRENT_ACTIVE_X :: int where "CURRENT_ACTIVE_X = 31"
definition CURRENT_ACTIVE_Y :: int where "CURRENT_ACTIVE_Y = 66"
definition LATE_H_TOTAL :: int where "LATE_H_TOTAL = 256"
definition LATE_V_TOTAL :: int where "LATE_V_TOTAL = 400"
definition LATE_ACTIVE_X :: int where "LATE_ACTIVE_X = 9"
definition LATE_ACTIVE_Y :: int where "LATE_ACTIVE_Y = 256"
definition LATE_HS_X :: int where "LATE_HS_X = 7"
definition LATE_EOL_X :: int where "LATE_EOL_X = LATE_ACTIVE_X + WIDTH"

lemmas late_constants = SYSTEM_CLOCK_HZ_def PIXEL_DIVIDE_def PRODUCER_LINE_SYSTEM_CYCLES_def
  PRODUCER_SYSTEM_CYCLES_def WIDTH_def HEIGHT_def CURRENT_H_TOTAL_def CURRENT_V_TOTAL_def
  CURRENT_ACTIVE_X_def CURRENT_ACTIVE_Y_def LATE_H_TOTAL_def LATE_V_TOTAL_def LATE_ACTIVE_X_def
  LATE_ACTIVE_Y_def LATE_HS_X_def LATE_EOL_X_def

definition fraction :: "int \<Rightarrow> int \<Rightarrow> rat" where
  "fraction a b = of_int a / of_int b"

record phase_age =
  consumer_system_cycles :: int
  phase_quantum_cycles :: int
  reset_residues_checked :: int
  selections_per_residue :: int
  selection_mean_min_cycles :: rat
  selection_mean_max_cycles :: rat
  mean_pixel_offset_cycles :: rat
  first_pixel_offset_cycles :: int

definition mean_pixel_age_min_cycles :: "phase_age \<Rightarrow> rat" where
  "mean_pixel_age_min_cycles a = selection_mean_min_cycles a + mean_pixel_offset_cycles a"

definition mean_pixel_age_max_cycles :: "phase_age \<Rightarrow> rat" where
  "mean_pixel_age_max_cycles a = selection_mean_max_cycles a + mean_pixel_offset_cycles a"

definition first_pixel_age_min_cycles :: "phase_age \<Rightarrow> rat" where
  "first_pixel_age_min_cycles a = selection_mean_min_cycles a + of_int (first_pixel_offset_cycles a)"

definition first_pixel_age_max_cycles :: "phase_age \<Rightarrow> rat" where
  "first_pixel_age_max_cycles a = selection_mean_max_cycles a + of_int (first_pixel_offset_cycles a)"

record late_metrics =
  m_current :: phase_age
  m_late :: phase_age
  m_late_refresh_hz :: rat
  m_late_selection_after_vs_cycles :: int
  m_newer_generation_residues :: int
  m_producer_residues_checked :: int

definition newer_generation_fraction :: "late_metrics \<Rightarrow> rat" where
  "newer_generation_fraction m = fraction (m_newer_generation_residues m) (m_producer_residues_checked m)"

definition guaranteed_mean_pixel_improvement_cycles :: "late_metrics \<Rightarrow> rat" where
  "guaranteed_mean_pixel_improvement_cycles m =
     mean_pixel_age_min_cycles (m_current m) - mean_pixel_age_max_cycles (m_late m)"

definition guaranteed_first_pixel_improvement_cycles :: "late_metrics \<Rightarrow> rat" where
  "guaranteed_first_pixel_improvement_cycles m =
     first_pixel_age_min_cycles (m_current m) - first_pixel_age_max_cycles (m_late m)"

definition active_mean_offset_cycles :: "int \<Rightarrow> int \<Rightarrow> int \<Rightarrow> rat" where
  "active_mean_offset_cycles h_total active_x active_y_offset =
     (let mean_row = fraction (HEIGHT - 1) 2; mean_column = fraction (WIDTH - 1) 2 in
      ((of_int active_y_offset + mean_row) * of_int h_total + of_int active_x + mean_column) * of_int PIXEL_DIVIDE)"

section \<open>The enumeration of phases\<close>

text \<open>The ages seen from one reset residue; the loop over the residues.\<close>

definition residue_ages :: "int \<Rightarrow> int \<Rightarrow> int \<Rightarrow> int list" where
  "residue_ages consumer_cycles selections initial_residue =
     map (\<lambda>selection. (initial_residue + selection * consumer_cycles) mod PRODUCER_SYSTEM_CYCLES) [0..selections - 1]"

definition age_step :: "int \<Rightarrow> int \<Rightarrow> int \<Rightarrow> rat list \<times> int set \<Rightarrow> rat list \<times> int set" where
  "age_step consumer_cycles selections initial_residue = (\<lambda>(means, phases_seen).
     let ages = residue_ages consumer_cycles selections initial_residue in
     (means @ [fraction (sum_list ages) (int (length ages))], phases_seen \<union> set ages))"

definition enumerate_phase_age :: "int \<Rightarrow> int \<Rightarrow> int \<Rightarrow> int \<Rightarrow> phase_age res" where
  "enumerate_phase_age h_total v_total active_x active_y_offset =
     (let consumer_cycles = h_total * v_total * PIXEL_DIVIDE;
          quantum = gcd PRODUCER_SYSTEM_CYCLES consumer_cycles;
          selections = PRODUCER_SYSTEM_CYCLES div quantum;
          (means, phases_seen) = fold (age_step consumer_cycles selections) [0..quantum - 1] ([], {})
      in if int (card phases_seen) \<noteq> PRODUCER_SYSTEM_CYCLES
         then Inl (AssertionError ''phase enumeration did not cover every producer cycle'')
         else Inr \<lparr>consumer_system_cycles = consumer_cycles, phase_quantum_cycles = quantum,
                   reset_residues_checked = quantum, selections_per_residue = selections,
                   selection_mean_min_cycles = Min (set means), selection_mean_max_cycles = Max (set means),
                   mean_pixel_offset_cycles = active_mean_offset_cycles h_total active_x active_y_offset,
                   first_pixel_offset_cycles = (active_y_offset * h_total + active_x) * PIXEL_DIVIDE\<rparr>)"

definition validate_apf_geometry :: "unit res" where
  "validate_apf_geometry =
     rbind (ensure (LATE_H_TOTAL * LATE_V_TOTAL = 102400)
              (AssertionError ''late raster is not exact 60 Hz at 6.144 MHz'')) (\<lambda>_.
     rbind (ensure (\<not> LATE_HS_X < 3) (AssertionError ''first HS violates APF's VS-to-HS minimum'')) (\<lambda>_.
     rbind (ensure (\<not> LATE_ACTIVE_X - LATE_HS_X < 2)
              (AssertionError ''no inactive clock remains between HS and DE'')) (\<lambda>_.
     rbind (ensure (\<not> LATE_EOL_X \<ge> LATE_H_TOTAL)
              (AssertionError ''no room remains for APF EOL or line tail'')) (\<lambda>_.
     ensure (LATE_ACTIVE_Y + HEIGHT = LATE_V_TOTAL)
       (AssertionError ''active image is not the final 144 lines'')))))"

definition until_next_completion :: "int \<Rightarrow> int" where
  "until_next_completion age_at_vs =
     (if age_at_vs \<noteq> 0 then PRODUCER_SYSTEM_CYCLES - age_at_vs else PRODUCER_SYSTEM_CYCLES)"

definition late_derive :: "late_metrics res" where
  "late_derive =
     rbind validate_apf_geometry (\<lambda>_.
     rbind (enumerate_phase_age CURRENT_H_TOTAL CURRENT_V_TOTAL CURRENT_ACTIVE_X CURRENT_ACTIVE_Y) (\<lambda>current.
     rbind (enumerate_phase_age LATE_H_TOTAL LATE_V_TOTAL LATE_ACTIVE_X 0) (\<lambda>late.
     let late_selection_after_vs = LATE_ACTIVE_Y * LATE_H_TOTAL * PIXEL_DIVIDE;
         newer = fold (\<lambda>age_at_vs newer. if until_next_completion age_at_vs \<le> late_selection_after_vs
                                          then newer + 1 else newer) [0..PRODUCER_SYSTEM_CYCLES - 1] (0::int)
     in Inr \<lparr>m_current = current, m_late = late,
             m_late_refresh_hz = fraction SYSTEM_CLOCK_HZ (consumer_system_cycles late),
             m_late_selection_after_vs_cycles = late_selection_after_vs,
             m_newer_generation_residues = newer, m_producer_residues_checked = PRODUCER_SYSTEM_CYCLES\<rparr>)))"

section \<open>Orientation changes\<close>

record orientation_frame =
  of_frame :: int
  of_presented_slot :: int
  of_expected_applied_slot :: int
  of_command_for_next_frame :: int
  of_repeated :: bool

definition of_matched :: "orientation_frame \<Rightarrow> bool" where
  "of_matched f = (of_presented_slot f = of_expected_applied_slot f)"

definition orientation :: "int \<Rightarrow> int \<Rightarrow> int \<Rightarrow> int \<Rightarrow> bool \<Rightarrow> orientation_frame" where
  "orientation frame presented expected command repeated =
     \<lparr>of_frame = frame, of_presented_slot = presented, of_expected_applied_slot = expected,
      of_command_for_next_frame = command, of_repeated = repeated\<rparr>"

definition model_current_dynamic_orientation :: "orientation_frame list" where
  "model_current_dynamic_orientation =
     [orientation 0 0 0 0 False, orientation 1 1 0 1 False, orientation 2 1 1 1 False]"

definition model_safe_deferred_orientation :: "orientation_frame list" where
  "model_safe_deferred_orientation =
     [orientation 0 0 0 0 False, orientation 1 0 0 1 True, orientation 2 1 1 1 False]"

section \<open>Every phase is covered, for every raster\<close>

interpretation raster: phase_sampler PRODUCER_SYSTEM_CYCLES "h_total * v_total * PIXEL_DIVIDE" for h_total v_total
  by unfold_locales (simp add: late_constants)

lemma age_steps:
  "fold (age_step c n) rs (means, seen) =
     (means @ map (\<lambda>r. fraction (sum_list (residue_ages c n r)) (int (length (residue_ages c n r)))) rs,
      seen \<union> (\<Union>r\<in>set rs. set (residue_ages c n r)))"
  by (induction rs arbitrary: means seen) (auto simp: age_step_def Let_def)

lemma residue_mean:
  fixes h v :: int
  defines "c \<equiv> h * v * PIXEL_DIVIDE"
  assumes "0 \<le> r" "r < gcd PRODUCER_SYSTEM_CYCLES c"
  shows "fraction (sum_list (residue_ages c (PRODUCER_SYSTEM_CYCLES div gcd PRODUCER_SYSTEM_CYCLES c) r))
      (int (length (residue_ages c (PRODUCER_SYSTEM_CYCLES div gcd PRODUCER_SYSTEM_CYCLES c) r))) =
    of_int r + fraction (PRODUCER_SYSTEM_CYCLES - gcd PRODUCER_SYSTEM_CYCLES c) 2"
proof -
  let ?n = "PRODUCER_SYSTEM_CYCLES div gcd PRODUCER_SYSTEM_CYCLES c"
  have n: "0 < ?n" unfolding c_def by (rule raster.samples_pos)
  have "2 * sum_list (residue_ages c ?n r) = ?n * (2 * r + PRODUCER_SYSTEM_CYCLES - gcd PRODUCER_SYSTEM_CYCLES c)"
    using raster.sum_visited [OF assms(2,3) [unfolded c_def]] by (simp add: residue_ages_def c_def)
  then have "2 * rat_of_int (sum_list (residue_ages c ?n r)) =
      of_int ?n * (2 * of_int r + of_int (PRODUCER_SYSTEM_CYCLES - gcd PRODUCER_SYSTEM_CYCLES c))"
    by (metis (no_types, opaque_lifting) add_diff_eq of_int_add of_int_mult of_int_numeral)
  moreover have "int (length (residue_ages c ?n r)) = ?n" using n by (simp add: residue_ages_def)
  ultimately show ?thesis using n by (simp add: fraction_def field_simps)
qed

lemma phases_covered:
  fixes h v :: int
  defines "c \<equiv> h * v * PIXEL_DIVIDE"
  shows "(\<Union>r\<in>set [0..gcd PRODUCER_SYSTEM_CYCLES c - 1].
      set (residue_ages c (PRODUCER_SYSTEM_CYCLES div gcd PRODUCER_SYSTEM_CYCLES c) r)) = {0..<PRODUCER_SYSTEM_CYCLES}"
proof -
  have "set (residue_ages c (PRODUCER_SYSTEM_CYCLES div gcd PRODUCER_SYSTEM_CYCLES c) r) =
      {a. 0 \<le> a \<and> a < PRODUCER_SYSTEM_CYCLES \<and> a mod gcd PRODUCER_SYSTEM_CYCLES c = r}"
    if "r \<in> set [0..gcd PRODUCER_SYSTEM_CYCLES c - 1]" for r
    using that raster.set_visited [of r h v] by (simp only: residue_ages_def c_def) simp
  moreover have "0 \<le> a mod gcd PRODUCER_SYSTEM_CYCLES c \<and> a mod gcd PRODUCER_SYSTEM_CYCLES c < gcd PRODUCER_SYSTEM_CYCLES c" for a
    using raster.quantum_pos [of h v] by (simp add: c_def)
  ultimately show ?thesis by (auto simp: zle_diff1_eq)
qed

lemma Min_Max_residues:
  fixes b :: rat
  assumes "0 < q"
  shows "Min ((\<lambda>r. of_int r + b) ` {0..q - 1}) = b" "Max ((\<lambda>r. of_int r + b) ` {0..q - 1}) = of_int (q - 1) + b"
  using assms by (auto intro!: Min_eqI Max_eqI image_eqI [of b _ 0] image_eqI [of "of_int q - 1 + b" _ "q - 1"])

lemma enumerate_phase_age_value:
  "enumerate_phase_age h v x y =
     (let c = h * v * PIXEL_DIVIDE; q = gcd PRODUCER_SYSTEM_CYCLES c in
      Inr \<lparr>consumer_system_cycles = c, phase_quantum_cycles = q, reset_residues_checked = q,
           selections_per_residue = PRODUCER_SYSTEM_CYCLES div q,
           selection_mean_min_cycles = fraction (PRODUCER_SYSTEM_CYCLES - q) 2,
           selection_mean_max_cycles = of_int (q - 1) + fraction (PRODUCER_SYSTEM_CYCLES - q) 2,
           mean_pixel_offset_cycles = active_mean_offset_cycles h x y,
           first_pixel_offset_cycles = (y * h + x) * PIXEL_DIVIDE\<rparr>)"
proof -
  let ?c = "h * v * PIXEL_DIVIDE"
  let ?q = "gcd PRODUCER_SYSTEM_CYCLES ?c"
  let ?b = "fraction (PRODUCER_SYSTEM_CYCLES - ?q) 2"
  let ?n = "PRODUCER_SYSTEM_CYCLES div ?q"
  have q: "0 < ?q" by (rule raster.quantum_pos)
  have means: "map (\<lambda>r. fraction (sum_list (residue_ages ?c ?n r)) (int (length (residue_ages ?c ?n r)))) [0..?q - 1] =
      map (\<lambda>r. of_int r + ?b) [0..?q - 1]"
    using residue_mean by (intro map_cong) simp_all
  have run: "fold (age_step ?c ?n) [0..?q - 1] ([], {}) = (map (\<lambda>r. of_int r + ?b) [0..?q - 1], {0..<PRODUCER_SYSTEM_CYCLES})"
    by (simp only: age_steps means phases_covered) simp
  have "int (card {0..<PRODUCER_SYSTEM_CYCLES}) = PRODUCER_SYSTEM_CYCLES" by (simp add: late_constants)
  then show ?thesis
    by (simp only: enumerate_phase_age_def Let_def run prod.case) (simp add: Min_Max_residues [OF q])
qed

text \<open>
  The enumeration of phases succeeds for every raster, and its extremes have a closed form. For any
  line width, frame height and active origin, \<open>enumerate_phase_age\<close> raises no assertion: with the
  quantum \<open>q\<close>, the greatest common divisor of producer and consumer periods, the mean age over a
  superperiod lies between \<open>(P - q) / 2\<close> and \<open>(P - q) / 2 + q - 1\<close>, both attained.
\<close>
theorem phase_age_closed_form:
  "enumerate_phase_age h v x y =
     (let c = h * v * PIXEL_DIVIDE; q = gcd PRODUCER_SYSTEM_CYCLES c in
      Inr \<lparr>consumer_system_cycles = c, phase_quantum_cycles = q, reset_residues_checked = q,
           selections_per_residue = PRODUCER_SYSTEM_CYCLES div q,
           selection_mean_min_cycles = fraction (PRODUCER_SYSTEM_CYCLES - q) 2,
           selection_mean_max_cycles = of_int (q - 1) + fraction (PRODUCER_SYSTEM_CYCLES - q) 2,
           mean_pixel_offset_cycles = active_mean_offset_cycles h x y,
           first_pixel_offset_cycles = (y * h + x) * PIXEL_DIVIDE\<rparr>)"
  by (rule enumerate_phase_age_value)

lemma newer_count:
  assumes "0 \<le> n" "n < PRODUCER_SYSTEM_CYCLES" "m \<le> PRODUCER_SYSTEM_CYCLES"
  shows "fold (\<lambda>age newer. if until_next_completion age \<le> n then newer + 1 else newer) [0..m - 1] (0::int) =
    max 0 (m - (PRODUCER_SYSTEM_CYCLES - n))"
proof (cases "0 \<le> m")
  case True
  then show ?thesis using assms
  proof (induction m rule: int_ge_induct)
    case base
    then show ?case by simp
  next
    case (step i)
    have "[0..i + 1 - 1] = [0..i - 1] @ [i]" using step.hyps upto_rec2 [of 0 i] by simp
    then show ?case using step by (auto simp: until_next_completion_def)
  qed
qed (use assms in simp)

text \<open>
  The late raster delivers younger frames. The derivation completes; the scanout of the late raster is
  at 60 Hz, a newer generation is selected in 393216 of the 488448 producer phases, and the guaranteed
  improvement of the mean active pixel is 216280 system cycles and of the first active pixel 155791 cycles.
\<close>
theorem late_delivery_improves:
  "\<exists>m. late_derive = Inr m \<and> m_late_refresh_hz m = 60 \<and>
     m_newer_generation_residues m = 393216 \<and> m_producer_residues_checked m = 488448 \<and>
     guaranteed_mean_pixel_improvement_cycles m = 216280 \<and>
     guaranteed_first_pixel_improvement_cycles m = 155791"
proof -
  have geometry: "validate_apf_geometry = Inr ()" by (simp add: validate_apf_geometry_def late_constants)
  have current: "gcd PRODUCER_SYSTEM_CYCLES (CURRENT_H_TOTAL * CURRENT_V_TOTAL * PIXEL_DIVIDE) = 36"
    and late: "gcd PRODUCER_SYSTEM_CYCLES (LATE_H_TOTAL * LATE_V_TOTAL * PIXEL_DIVIDE) = 3072"
    by code_simp+
  have newer: "fold (\<lambda>age newer. if until_next_completion age \<le> LATE_ACTIVE_Y * LATE_H_TOTAL * PIXEL_DIVIDE
      then newer + 1 else newer) [0..PRODUCER_SYSTEM_CYCLES - 1] (0::int) = 393216"
    by (subst newer_count) (simp_all add: late_constants)
  show ?thesis
    unfolding late_derive_def geometry enumerate_phase_age_value Let_def rbind_simps newer current late
    by (simp add: guaranteed_mean_pixel_improvement_cycles_def guaranteed_first_pixel_improvement_cycles_def
       mean_pixel_age_min_cycles_def mean_pixel_age_max_cycles_def first_pixel_age_min_cycles_def
       first_pixel_age_max_cycles_def active_mean_offset_cycles_def fraction_def late_constants)
qed

end
