(* ===== verification/Frame_Cadence.thy ===== *)
theory Frame_Cadence
  imports Phase_Residues
begin

text \<open>
  The delivery cadence (\<^verbatim>\<open>scripts/frame_delivery_metrics.py\<close>): which producer frame each output
  frame shows, where frames are skipped, and how far apart the skips are. The fields the script
  converts with \<open>float\<close> hold here the exact fractions it converts.
\<close>

section \<open>The derivation\<close>

definition SYSTEM_CLOCK_HZ :: int where "SYSTEM_CLOCK_HZ = 36864000"
definition PIXEL_CLOCK_HZ :: int where "PIXEL_CLOCK_HZ = 6144000"
definition FRAME_LINES :: int where "FRAME_LINES = 258"
definition PIXEL_DIVIDE :: int where "PIXEL_DIVIDE = 6"
definition WS_CLOCK_HZ :: int where "WS_CLOCK_HZ = 3072000"
definition WS_FRAME_CLOCKS :: int where "WS_FRAME_CLOCKS = 256 * 159"
definition PRODUCER_SYSTEM_CYCLES :: int where
  "PRODUCER_SYSTEM_CYCLES = WS_FRAME_CLOCKS * (SYSTEM_CLOCK_HZ div WS_CLOCK_HZ)"

lemmas cadence_constants = SYSTEM_CLOCK_HZ_def PIXEL_CLOCK_HZ_def FRAME_LINES_def PIXEL_DIVIDE_def
  WS_CLOCK_HZ_def WS_FRAME_CLOCKS_def PRODUCER_SYSTEM_CYCLES_def

record delivery_metrics =
  dm_line_pixels :: int
  dm_frame_system_cycles :: int
  dm_refresh_hz :: rat
  dm_refresh_error_from_60_percent :: rat
  dm_output_period_ms :: rat
  dm_producer_refresh_hz :: rat
  dm_producer_drop_rate_hz :: rat
  dm_producer_drops_per_superperiod :: int
  dm_output_frames_per_superperiod :: int
  dm_producer_frames_per_superperiod :: int
  dm_skip_gap_3_count :: int
  dm_skip_gap_4_count :: int
  dm_skip_gap_5_count :: int
  dm_completion_phase_quantum_cycles :: int
  dm_delivery_phase_residues_checked :: int
  dm_age_envelope_min_ms :: rat
  dm_age_envelope_max_ms :: rat
  dm_age_phase_mean_min_ms :: rat
  dm_age_phase_mean_max_ms :: rat

text \<open>One phase: the frames shown, the steps between them, the steps of two and their spacing.\<close>

definition producer_ids :: "int \<Rightarrow> int \<Rightarrow> int \<Rightarrow> int list" where
  "producer_ids consumer_cycles output_frames initial_phase =
     map (\<lambda>boundary. (initial_phase + boundary * consumer_cycles) div PRODUCER_SYSTEM_CYCLES) [0..output_frames]"

definition increments_of :: "int list \<Rightarrow> int list" where
  "increments_of ids = map (\<lambda>index. ids ! index - ids ! (index - 1)) [1..<length ids]"

definition skip_indices :: "int list \<Rightarrow> nat list" where
  "skip_indices increments = map fst (filter (\<lambda>(index, increment). increment = 2) (enumerate 0 increments))"

definition skip_gaps :: "nat list \<Rightarrow> int \<Rightarrow> int list" where
  "skip_gaps skips output_frames =
     map (\<lambda>index. let next_skip = int (skips ! ((index + 1) mod length skips)) in
            (if index = length skips - 1 then next_skip + output_frames else next_skip) - int (skips ! index))
       [0..<length skips]"

definition occurrences :: "int \<Rightarrow> int list \<Rightarrow> int" where
  "occurrences v xs = int (length (filter (\<lambda>x. x = v) xs))"

definition phase_signature :: "int \<Rightarrow> int \<Rightarrow> int \<Rightarrow> (int \<times> int \<times> int \<times> int \<times> int) res" where
  "phase_signature consumer_cycles output_frames initial_phase =
     (let increments = increments_of (producer_ids consumer_cycles output_frames initial_phase) in
      if set increments - {1, 2} \<noteq> {}
      then Inl (ValueError ''model assumption violated: output did not advance 1-2 frames'')
      else
        let gaps = skip_gaps (skip_indices increments) output_frames in
        if set gaps - {3, 4, 5} \<noteq> {} then Inl (ValueError ''unexpected producer-skip spacing'')
        else Inr (occurrences 1 increments, occurrences 2 increments,
                  occurrences 3 gaps, occurrences 4 gaps, occurrences 5 gaps))"

definition cadence_step :: "int \<Rightarrow> int \<Rightarrow> int \<Rightarrow> (int \<times> int \<times> int \<times> int \<times> int) list \<Rightarrow>
    (int \<times> int \<times> int \<times> int \<times> int) list res" where
  "cadence_step consumer_cycles output_frames initial_phase sequence_signatures =
     rbind (phase_signature consumer_cycles output_frames initial_phase) (\<lambda>signature.
     Inr (List.insert signature sequence_signatures))"

text \<open>The set of signatures is a list without duplicates; \<open>pop\<close> takes its head once it has one element.\<close>

definition cadence_metrics :: "int \<Rightarrow> int \<Rightarrow> int \<Rightarrow> int \<Rightarrow> int \<Rightarrow> int \<Rightarrow> int \<Rightarrow> int \<Rightarrow> delivery_metrics" where
  "cadence_metrics line_pixels consumer_cycles divisor output_frames producer_frames gap_3 gap_4 gap_5 =
     (let refresh = rat_of_int SYSTEM_CLOCK_HZ / of_int consumer_cycles;
          producer_refresh = rat_of_int WS_CLOCK_HZ / of_int WS_FRAME_CLOCKS;
          phase_mean_min_cycles = rat_of_int (PRODUCER_SYSTEM_CYCLES - divisor) / 2;
          phase_mean_max_cycles = phase_mean_min_cycles + of_int divisor - 1
      in \<lparr>dm_line_pixels = line_pixels, dm_frame_system_cycles = consumer_cycles, dm_refresh_hz = refresh,
          dm_refresh_error_from_60_percent = (refresh - 60) / 60 * 100, dm_output_period_ms = 1000 / refresh,
          dm_producer_refresh_hz = producer_refresh, dm_producer_drop_rate_hz = producer_refresh - refresh,
          dm_producer_drops_per_superperiod = producer_frames - output_frames,
          dm_output_frames_per_superperiod = output_frames, dm_producer_frames_per_superperiod = producer_frames,
          dm_skip_gap_3_count = gap_3, dm_skip_gap_4_count = gap_4, dm_skip_gap_5_count = gap_5,
          dm_completion_phase_quantum_cycles = divisor, dm_delivery_phase_residues_checked = divisor,
          dm_age_envelope_min_ms = 0,
          dm_age_envelope_max_ms = of_int ((PRODUCER_SYSTEM_CYCLES - 1) * 1000) / of_int SYSTEM_CLOCK_HZ,
          dm_age_phase_mean_min_ms = phase_mean_min_cycles * 1000 / of_int SYSTEM_CLOCK_HZ,
          dm_age_phase_mean_max_ms = phase_mean_max_cycles * 1000 / of_int SYSTEM_CLOCK_HZ\<rparr>)"

definition cadence_derive :: "int \<Rightarrow> delivery_metrics res" where
  "cadence_derive line_pixels =
     (if line_pixels < 224 then Inl (ValueError ''line raster cannot be narrower than the active image'')
      else
        let consumer_cycles = line_pixels * FRAME_LINES * PIXEL_DIVIDE;
            divisor = gcd PRODUCER_SYSTEM_CYCLES consumer_cycles;
            output_frames = PRODUCER_SYSTEM_CYCLES div divisor;
            producer_frames = consumer_cycles div divisor in
        rbind (fold_res (cadence_step consumer_cycles output_frames) [0..divisor - 1] []) (\<lambda>sequence_signatures.
        if length sequence_signatures \<noteq> 1
        then Inl (AssertionError ''delivery cadence depends on unproven reset/event phase'')
        else
          let (increment_1, increment_2, gap_3, gap_4, gap_5) = hd sequence_signatures in
          if increment_1 + increment_2 \<noteq> output_frames
          then Inl (AssertionError ''delivery sequence did not cover its complete phase period'')
          else Inr (cadence_metrics line_pixels consumer_cycles divisor output_frames producer_frames gap_3 gap_4 gap_5)))"

section \<open>Every phase has the same cadence\<close>

interpretation cadence: phase_sampler PRODUCER_SYSTEM_CYCLES "line_pixels * FRAME_LINES * PIXEL_DIVIDE" for line_pixels
  by unfold_locales (simp add: cadence_constants)

lemma increments_of_map:
  assumes "0 \<le> n"
  shows "increments_of (map f [0..n]) = map (\<lambda>k. f (int k + 1) - f (int k)) [0..<nat n]"
proof -
  have "[1..<length (map f [0..n])] = map Suc [0..<nat n]" using assms by (simp add: map_Suc_upt nat_add_distrib)
  then show ?thesis using assms by (auto simp: increments_of_def add.commute)
qed

lemma skip_indices_map: "skip_indices (map D [0..<N]) = filter (\<lambda>k. D k = 2) [0..<N]"
proof -
  have "map fst (filter (\<lambda>(i, v). v = 2) (zip ks (map D ks))) = filter (\<lambda>k. D k = 2) ks" for ks :: "nat list"
    by (induction ks) auto
  then show ?thesis by (simp add: skip_indices_def enumerate_eq_zip)
qed

lemma phase_increments:
  fixes line_pixels :: int
  defines "C \<equiv> line_pixels * FRAME_LINES * PIXEL_DIVIDE"
  assumes "0 \<le> r" "r < gcd PRODUCER_SYSTEM_CYCLES C"
  shows "increments_of (producer_ids C (PRODUCER_SYSTEM_CYCLES div gcd PRODUCER_SYSTEM_CYCLES C) r) =
    map (\<lambda>k. (int k + 1) * (C div gcd PRODUCER_SYSTEM_CYCLES C) div (PRODUCER_SYSTEM_CYCLES div gcd PRODUCER_SYSTEM_CYCLES C) -
             int k * (C div gcd PRODUCER_SYSTEM_CYCLES C) div (PRODUCER_SYSTEM_CYCLES div gcd PRODUCER_SYSTEM_CYCLES C))
      [0..<nat (PRODUCER_SYSTEM_CYCLES div gcd PRODUCER_SYSTEM_CYCLES C)]"
  using cadence.samples_pos [of line_pixels] cadence.sample_period [OF assms(2,3) [unfolded C_def]]
  unfolding producer_ids_def C_def by (subst increments_of_map) simp_all

lemma phase_signature_same:
  fixes line_pixels :: int
  defines "C \<equiv> line_pixels * FRAME_LINES * PIXEL_DIVIDE"
  assumes "0 \<le> r" "r < gcd PRODUCER_SYSTEM_CYCLES C"
  shows "phase_signature C (PRODUCER_SYSTEM_CYCLES div gcd PRODUCER_SYSTEM_CYCLES C) r =
    phase_signature C (PRODUCER_SYSTEM_CYCLES div gcd PRODUCER_SYSTEM_CYCLES C) 0"
  unfolding phase_signature_def C_def
  using phase_increments [of r line_pixels] phase_increments [of 0 line_pixels] assms cadence.quantum_pos [of line_pixels]
  by simp

lemma cadence_signatures:
  fixes line_pixels :: int
  defines "C \<equiv> line_pixels * FRAME_LINES * PIXEL_DIVIDE"
  defines "n \<equiv> PRODUCER_SYSTEM_CYCLES div gcd PRODUCER_SYSTEM_CYCLES C"
  shows "fold_res (cadence_step C n) [0..gcd PRODUCER_SYSTEM_CYCLES C - 1] [] =
    rbind (phase_signature C n 0) (\<lambda>signature. Inr [signature])"
proof -
  have steps: "phase_signature C n 0 = Inr sg \<Longrightarrow>
      fold_res (\<lambda>_ ss. rbind (phase_signature C n 0) (\<lambda>sg. Inr (List.insert sg ss))) rs [sg] = Inr [sg]"
    for sg and rs :: "int list"
    by (induction rs) simp_all
  have pos: "0 < gcd PRODUCER_SYSTEM_CYCLES C" unfolding C_def by (rule cadence.quantum_pos)
  have "fold_res (cadence_step C n) [0..gcd PRODUCER_SYSTEM_CYCLES C - 1] [] =
      fold_res (\<lambda>_ ss. rbind (phase_signature C n 0) (\<lambda>sg. Inr (List.insert sg ss))) [0..gcd PRODUCER_SYSTEM_CYCLES C - 1] []"
    using phase_signature_same [of _ line_pixels] by (intro fold_res_cong) (auto simp: cadence_step_def C_def n_def zle_diff1_eq)
  also have "\<dots> = rbind (phase_signature C n 0) (\<lambda>signature. Inr [signature])"
    using pos steps by (cases "phase_signature C n 0") (simp_all add: upto_rec1)
  finally show ?thesis .
qed

text \<open>Every step counted is a one or a two.\<close>

lemma occurrences_cover: "set xs \<subseteq> {1, 2} \<Longrightarrow> occurrences 1 xs + occurrences 2 xs = int (length xs)"
  by (induction xs) (auto simp: occurrences_def)

lemma phase_signature_Inr:
  assumes "phase_signature C n r = Inr (a, b, g3, g4, g5)"
  shows "a + b = int (length (increments_of (producer_ids C n r)))"
  using assms occurrences_cover [of "increments_of (producer_ids C n r)"]
  by (auto simp: phase_signature_def Let_def split: if_splits)

lemma cadence_derive_value:
  fixes line_pixels :: int
  defines "C \<equiv> line_pixels * FRAME_LINES * PIXEL_DIVIDE"
  defines "q \<equiv> gcd PRODUCER_SYSTEM_CYCLES C"
  assumes "224 \<le> line_pixels"
  shows "cadence_derive line_pixels =
    rbind (phase_signature C (PRODUCER_SYSTEM_CYCLES div q) 0) (\<lambda>(a, b, gap_3, gap_4, gap_5).
    Inr (cadence_metrics line_pixels C q (PRODUCER_SYSTEM_CYCLES div q) (C div q) gap_3 gap_4 gap_5))"
proof -
  let ?n = "PRODUCER_SYSTEM_CYCLES div q"
  have n: "0 < ?n" "0 < q" unfolding C_def q_def by (rule cadence.samples_pos, rule cadence.quantum_pos)
  have "a + b = ?n" if "phase_signature C ?n 0 = Inr (a, b, g3, g4, g5)" for a b g3 g4 g5
    using phase_signature_Inr [OF that] phase_increments [of 0 line_pixels] n by (simp add: C_def q_def)
  then show ?thesis
    using assms(3) cadence_signatures [of line_pixels]
    by (cases "phase_signature C ?n 0") (auto simp: cadence_derive_def Let_def C_def q_def)
qed

text \<open>
  The delivery cadence never depends on the unknown phase between producer and output. For every
  line width the derivation either refuses the raster with a ValueError or returns metrics; neither
  assertion, that all residues have one signature and that the counted steps cover the
  superperiod, is ever raised.
\<close>
theorem cadence_phase_independent:
  "cadence_derive line_pixels \<noteq> Inl (AssertionError msg)"
proof (cases "224 \<le> line_pixels")
  case True
  then show ?thesis
    by (simp only: cadence_derive_value) (simp add: phase_signature_def Let_def)
qed (simp add: cadence_derive_def)

section \<open>The spacing of the skips\<close>

text \<open>
  The period of sample \<open>k\<close> is \<open>k * d div p\<close> ahead of \<open>k\<close>, where \<open>d\<close> is what the consumer's period
  exceeds the producer's by. A step of two is a step of this excess.
\<close>

definition excess_step :: "int \<Rightarrow> int \<Rightarrow> int \<Rightarrow> int" where
  "excess_step p d k = (k + 1) * d div p - k * d div p"

lemma excess_step_01:
  assumes "0 < p" "0 \<le> d" "d < p"
  shows "excess_step p d k = 0 \<or> excess_step p d k = 1"
proof -
  have "k * d div p \<le> (k + 1) * d div p" using assms by (intro zdiv_mono1) (simp_all add: algebra_simps)
  moreover have "(k + 1) * d div p \<le> (k * d + 1 * p) div p" using assms by (intro zdiv_mono1) (simp_all add: algebra_simps)
  moreover have "(k * d + 1 * p) div p = k * d div p + 1" using assms by (subst div_mult_self1) simp_all
  ultimately show ?thesis unfolding excess_step_def by linarith
qed

lemma excess_step_periodic: "0 < p \<Longrightarrow> excess_step p d (k + p) = excess_step p d k"
proof -
  assume p: "0 < p"
  have "(j + p) * d div p = d + j * d div p" for j
    using p div_mult_self2 [of p "j * d" d] by (simp add: distrib_right)
  from this [of k] this [of "k + 1"] show ?thesis by (simp add: excess_step_def algebra_simps)
qed

lemma excess_flat:
  assumes "0 < p" "k \<le> l" "\<forall>j. k \<le> j \<and> j < l \<longrightarrow> excess_step p d j = 0"
  shows "l * d div p = k * d div p"
  using assms(2,3)
proof (induction l rule: int_ge_induct)
  case base
  then show ?case by simp
next
  case (step i)
  then have "excess_step p d i = 0" by simp
  then show ?case using step by (simp add: excess_step_def)
qed

text \<open>Between a third and a fifth of a period of excess, successive skips are three to five samples apart.\<close>

lemma skip_distance:
  assumes p: "0 < p" "p \<le> 5 * d" "3 * d \<le> p"
    and k: "excess_step p d k = 1" and l: "excess_step p d l = 1" "k < l"
    and between: "\<forall>j. k < j \<and> j < l \<longrightarrow> excess_step p d j = 0"
  shows "l - k \<in> {3, 4, 5}"
proof -
  define m where "m = k * d div p"
  have d: "0 < d" using p by simp
  have k1: "(k + 1) * d div p = m + 1" using k by (simp add: excess_step_def m_def)
  moreover have "l * d div p = (k + 1) * d div p" using excess_flat [of p "k + 1" l d] p l between by auto
  ultimately have l0: "l * d div p = m + 1" and l1: "(l + 1) * d div p = m + 2"
    using l by (simp_all add: excess_step_def)
  have lower: "x div p * p \<le> x" and upper: "x < x div p * p + p" for x
    using p mod_pos_pos_trivial div_mult_mod_eq [of x p] pos_mod_sign [of p x] pos_mod_bound [of p x] by linarith+
  have a: "k * d < m * p + p" using upper [of "k * d"] by (simp add: m_def)
  have b: "m * p + 2 * p \<le> (l + 1) * d" using lower [of "(l + 1) * d"] l1 by (simp add: algebra_simps)
  have c: "l * d < m * p + 2 * p" using upper [of "l * d"] l0 by (simp add: algebra_simps)
  have e: "m * p + p \<le> (k + 1) * d" using lower [of "(k + 1) * d"] k1 by (simp add: algebra_simps)
  have "3 * d < (l + 1 - k) * d" using a b p by (simp add: algebra_simps)
  then have "3 < l + 1 - k" using d by (simp only: mult_less_cancel_right_pos)
  moreover have "(l - k) * d < 6 * d" using c e p by (simp add: algebra_simps)
  then have "l - k < 6" using d by (simp only: mult_less_cancel_right_pos)
  ultimately show ?thesis by auto
qed

text \<open>The elements of an ascending list, around one superperiod.\<close>

lemma ascending_neighbours:
  assumes "sorted_wrt (<) (xs :: nat list)" "Suc i < length xs" "j \<in> set xs"
  shows "\<not> (xs ! i < j \<and> j < xs ! Suc i)"
proof -
  obtain l where l: "l < length xs" "j = xs ! l" using assms(3) by (auto simp: in_set_conv_nth)
  consider "l \<le> i" | "Suc i \<le> l" by linarith
  then show ?thesis
  proof cases
    case 1
    then show ?thesis using l sorted_wrt_nth_less [OF assms(1), of l i] assms(2) by (cases "l = i") auto
  next
    case 2
    then show ?thesis using l sorted_wrt_nth_less [OF assms(1), of "Suc i" l] by (cases "l = Suc i") auto
  qed
qed

lemma ascending_ends:
  assumes "sorted_wrt (<) (xs :: nat list)" "j \<in> set xs"
  shows "xs ! 0 \<le> j" "j \<le> xs ! (length xs - 1)"
proof -
  obtain l where l: "l < length xs" "j = xs ! l" using assms(2) by (auto simp: in_set_conv_nth)
  show "xs ! 0 \<le> j" using l sorted_wrt_nth_less [OF assms(1), of 0 l] by (cases l) auto
  consider "l = length xs - 1" | "l < length xs - 1" using l by linarith
  then show "j \<le> xs ! (length xs - 1)"
    using l sorted_wrt_nth_less [OF assms(1), of l "length xs - 1"] by cases (auto intro: less_imp_le)
qed

lemma skip_gaps_nth:
  assumes "i < length xs"
  shows "skip_gaps xs n ! i =
    (if Suc i = length xs then int (xs ! 0) + n else int (xs ! Suc i)) - int (xs ! i)"
  using assms by (auto simp: skip_gaps_def Let_def)

lemma skip_gaps_length [simp]: "length (skip_gaps xs n) = length xs"
  by (simp add: skip_gaps_def)

lemma sum_skip_gaps: "xs \<noteq> [] \<Longrightarrow> sum_list (skip_gaps xs n) = n"
proof -
  assume xs: "xs \<noteq> []"
  have "sum_list (skip_gaps xs n) = (\<Sum>i<length xs. skip_gaps xs n ! i)"
    by (simp add: sum_list_sum_nth atLeast0LessThan)
  also have "\<dots> = (\<Sum>i<length xs. (if Suc i = length xs then int (xs ! 0) + n else int (xs ! Suc i)) - int (xs ! i))"
    by (simp add: skip_gaps_nth)
  also have "\<dots> = (\<Sum>i<length xs - 1. int (xs ! Suc i) - int (xs ! i)) + (int (xs ! 0) + n - int (xs ! (length xs - 1)))"
  proof -
    obtain N where N: "length xs = Suc N" using xs by (cases xs) auto
    show ?thesis by (simp add: N)
  qed
  also have "(\<Sum>i<length xs - 1. int (xs ! Suc i) - int (xs ! i)) = int (xs ! (length xs - 1)) - int (xs ! 0)"
    by (rule sum_lessThan_telescope)
  finally show ?thesis by simp
qed

lemma skip_gaps_range:
  assumes p: "0 < p" "p \<le> 5 * d" "3 * d \<le> p"
  shows "set (skip_gaps (filter (\<lambda>k. excess_step p d (int k) = 1) [0..<nat p]) p) \<subseteq> {3, 4, 5}"
proof
  let ?xs = "filter (\<lambda>k. excess_step p d (int k) = 1) [0..<nat p]"
  have asc: "sorted_wrt (<) ?xs" by (simp add: sorted_wrt_filter)
  have member: "j \<in> set ?xs \<longleftrightarrow> int j < p \<and> excess_step p d (int j) = 1" for j by auto
  have flat: "excess_step p d j = 0" if "0 \<le> j" "j < p" "nat j \<notin> set ?xs" for j
    using that excess_step_01 [of p d j] p member [of "nat j"] by auto
  fix g assume "g \<in> set (skip_gaps ?xs p)"
  then obtain i where i: "i < length ?xs" "g = skip_gaps ?xs p ! i" by (auto simp: in_set_conv_nth)
  have at: "\<And>l. l < length ?xs \<Longrightarrow> int (?xs ! l) < p \<and> excess_step p d (int (?xs ! l)) = 1"
    using member nth_mem by blast
  show "g \<in> {3, 4, 5}"
  proof (cases "Suc i = length ?xs")
    case False
    then have si: "Suc i < length ?xs" using i by simp
    have "\<forall>j. int (?xs ! i) < j \<and> j < int (?xs ! Suc i) \<longrightarrow> excess_step p d j = 0"
    proof (intro allI impI)
      fix j assume j: "int (?xs ! i) < j \<and> j < int (?xs ! Suc i)"
      then have "nat j \<notin> set ?xs" using ascending_neighbours [OF asc si, of "nat j"] by linarith
      then show "excess_step p d j = 0" using flat [of j] j at [OF si] by linarith
    qed
    moreover have "int (?xs ! i) < int (?xs ! Suc i)" using sorted_wrt_nth_less [OF asc, of i "Suc i"] si by simp
    ultimately have "int (?xs ! Suc i) - int (?xs ! i) \<in> {3, 4, 5}"
      using skip_distance [OF p] at [OF si] at [OF i(1)] by blast
    then show ?thesis using skip_gaps_nth [OF i(1), of p] False i(2) by simp
  next
    case True
    then have last': "length ?xs - 1 = i" by simp
    have "\<forall>j. int (?xs ! i) < j \<and> j < int (?xs ! 0) + p \<longrightarrow> excess_step p d j = 0"
    proof (intro allI impI)
      fix j assume j: "int (?xs ! i) < j \<and> j < int (?xs ! 0) + p"
      show "excess_step p d j = 0"
      proof (cases "j < p")
        case c: True
        have "nat j \<notin> set ?xs" using ascending_ends(2) [OF asc, of "nat j", unfolded last'] j by linarith
        then show ?thesis using flat [of j] j c by linarith
      next
        case c: False
        have "nat (j - p) \<notin> set ?xs" using ascending_ends(1) [OF asc, of "nat (j - p)"] j c by linarith
        moreover have "j - p < p" using j at [of 0] i by linarith
        ultimately have "excess_step p d (j - p) = 0" using flat [of "j - p"] c by linarith
        then show ?thesis using excess_step_periodic [OF p(1), of d "j - p"] by simp
      qed
    qed
    moreover have "excess_step p d (int (?xs ! 0) + p) = 1"
      using excess_step_periodic [OF p(1)] at [of 0] i by fastforce
    moreover have "int (?xs ! i) < int (?xs ! 0) + p" using at [OF i(1)] by linarith
    ultimately have "int (?xs ! 0) + p - int (?xs ! i) \<in> {3, 4, 5}"
      using skip_distance [OF p] at [OF i(1)] by blast
    then show ?thesis using skip_gaps_nth [OF i(1), of p] True i(2) by simp
  qed
qed

lemma skip_count:
  assumes p: "0 < p" "0 \<le> d" "d < p"
  shows "int (length (filter (\<lambda>k. excess_step p d (int k) = 1) [0..<nat p])) = d"
proof -
  have "int (length (filter (\<lambda>k. excess_step p d (int k) = 1) [0..<N])) = int N * d div p" for N
  proof (induction N)
    case 0
    then show ?case by simp
  next
    case (Suc N)
    then show ?case using excess_step_01 [OF p, of "int N"] by (auto simp: excess_step_def algebra_simps)
  qed
  from this [of "nat p"] show ?thesis using p by simp
qed

lemma occurrences_345:
  "set xs \<subseteq> {3, 4, 5} \<Longrightarrow> occurrences 3 xs + occurrences 4 xs + occurrences 5 xs = int (length xs) \<and>
     3 * occurrences 3 xs + 4 * occurrences 4 xs + 5 * occurrences 5 xs = sum_list xs"
  by (induction xs) (auto simp: occurrences_def)

lemma step_excess: "0 < p \<Longrightarrow> (k + 1) * c div p - k * c div p = 1 + excess_step p (c - p) k"
proof -
  assume p: "0 < p"
  have "j * c div p = j + j * (c - p) div p" for j
    using p div_mult_self1 [of p "j * (c - p)" j] by (simp add: algebra_simps)
  from this [of k] this [of "k + 1"] show ?thesis by (simp add: excess_step_def)
qed

lemma phase_signature_zero:
  fixes line_pixels :: int
  defines "C \<equiv> line_pixels * FRAME_LINES * PIXEL_DIVIDE"
  defines "p \<equiv> PRODUCER_SYSTEM_CYCLES div gcd PRODUCER_SYSTEM_CYCLES C"
  defines "d \<equiv> C div gcd PRODUCER_SYSTEM_CYCLES C - p"
  assumes d: "p \<le> 5 * d" "3 * d \<le> p"
  shows "\<exists>a b g3 g4 g5. phase_signature C p 0 = Inr (a, b, g3, g4, g5) \<and> g3 + g4 + g5 = d \<and> 3 * g3 + 4 * g4 + 5 * g5 = p"
proof -
  let ?skips = "filter (\<lambda>k. excess_step p d (int k) = 1) [0..<nat p]"
  let ?incs = "increments_of (producer_ids C p 0)"
  have p: "0 < p" unfolding p_def C_def by (rule cadence.samples_pos)
  have range: "0 \<le> d" "d < p" using p d by simp_all
  have incs: "?incs = map (\<lambda>k. 1 + excess_step p d (int k)) [0..<nat p]"
    using phase_increments [of 0 line_pixels] cadence.quantum_pos [of line_pixels] step_excess [OF p]
    by (simp add: C_def p_def d_def)
  have "1 + excess_step p d k \<in> {1, 2}" for k using excess_step_01 [OF p range, of k] by auto
  then have "set ?incs \<subseteq> {1, 2}" unfolding incs by fastforce
  then have steps: "set ?incs - {1, 2} = {}" by blast
  have skips: "skip_indices ?incs = ?skips" unfolding incs skip_indices_map by (rule filter_cong) auto
  have gaps: "set (skip_gaps ?skips p) \<subseteq> {3, 4, 5}" by (rule skip_gaps_range [OF p d])
  have "int (length ?skips) = d" by (rule skip_count [OF p range])
  moreover have "?skips \<noteq> []" using calculation p d by (cases ?skips) auto
  ultimately show ?thesis
    using occurrences_345 [OF gaps] sum_skip_gaps [of ?skips p] gaps steps skips
    by (simp add: phase_signature_def Let_def)
qed

text \<open>
  C32: Every line width between 379 and 420 pixels has a regular cadence. The derivation returns metrics;
  over a superperiod the drops are the producer frames less the output frames, there is one counted gap of
  three, four or five output frames for each drop, and the gaps together span the superperiod.
\<close>
theorem cadence_accounts_for_drops:
  assumes "379 \<le> line_pixels" "line_pixels \<le> 420"
  shows "\<exists>m. cadence_derive line_pixels = Inr m \<and>
     dm_producer_drops_per_superperiod m = dm_producer_frames_per_superperiod m - dm_output_frames_per_superperiod m \<and>
     dm_skip_gap_3_count m + dm_skip_gap_4_count m + dm_skip_gap_5_count m = dm_producer_drops_per_superperiod m \<and>
     3 * dm_skip_gap_3_count m + 4 * dm_skip_gap_4_count m + 5 * dm_skip_gap_5_count m = dm_output_frames_per_superperiod m"
proof -
  let ?C = "line_pixels * FRAME_LINES * PIXEL_DIVIDE"
  let ?q = "gcd PRODUCER_SYSTEM_CYCLES ?C"
  let ?p = "PRODUCER_SYSTEM_CYCLES div ?q" and ?c = "?C div ?q"
  have q: "0 < ?q" by (rule cadence.quantum_pos)
  have split: "PRODUCER_SYSTEM_CYCLES = ?q * ?p" "?C = ?q * ?c"
    by (rule cadence.period_split, rule cadence.step_split)
  have "?q * ?p \<le> ?q * (5 * (?c - ?p))" "?q * (3 * (?c - ?p)) \<le> ?q * ?p"
    using assms split by (simp_all add: algebra_simps cadence_constants)
  then have "?p \<le> 5 * (?c - ?p)" "3 * (?c - ?p) \<le> ?p" using q by (simp_all only: mult_le_cancel_left_pos)
  from phase_signature_zero [OF this] obtain a b g3 g4 g5
    where "phase_signature ?C ?p 0 = Inr (a, b, g3, g4, g5)" "g3 + g4 + g5 = ?c - ?p" "3 * g3 + 4 * g4 + 5 * g5 = ?p" by blast
  then show ?thesis using cadence_derive_value [of line_pixels] assms by (simp add: cadence_metrics_def Let_def)
qed

text \<open>The rasters the script prints: 401, 397 and 391 pixels wide.\<close>

theorem cadence_accounts_for_drops_witness:
  "\<exists>m. cadence_derive 397 = Inr m \<and>
     dm_skip_gap_3_count m + dm_skip_gap_4_count m + dm_skip_gap_5_count m = dm_producer_drops_per_superperiod m"
  using cadence_accounts_for_drops [of 397] by auto

end
