(* ===== verification/Beam_Race.thy ===== *)
theory Beam_Race
  imports Phase_Residues
begin

text \<open>
  The beam-race geometry (\<^verbatim>\<open>scripts/beam_race_safety.py\<close>): whether the scanout may start on a frame
  the producer is still writing. Quotients the script computes with \<open>/\<close> are exact rationals here.
\<close>

section \<open>Geometry\<close>

definition SYSTEM_CLOCK_HZ :: int where "SYSTEM_CLOCK_HZ = 36864000"
definition SYSTEM_CYCLES_PER_PIXEL :: int where "SYSTEM_CYCLES_PER_PIXEL = 6"
definition PRODUCER_CYCLES_PER_DOT :: int where "PRODUCER_CYCLES_PER_DOT = 12"
definition PRODUCER_LINE_DOTS :: int where "PRODUCER_LINE_DOTS = 256"
definition OUTPUT_LINE_PIXELS :: int where "OUTPUT_LINE_PIXELS = 397"
definition OUTPUT_ACTIVE_Y :: int where "OUTPUT_ACTIVE_Y = 66"
definition OUTPUT_ACTIVE_X :: int where "OUTPUT_ACTIVE_X = 31"
definition WIDTH :: int where "WIDTH = 224"
definition HEIGHT :: int where "HEIGHT = 144"
definition RAM_PIPELINE_GUARD_CYCLES :: int where "RAM_PIPELINE_GUARD_CYCLES = 4"
definition OUTPUT_FRAME_SYSTEM_CYCLES :: int where
  "OUTPUT_FRAME_SYSTEM_CYCLES = 397 * 258 * SYSTEM_CYCLES_PER_PIXEL"
definition LAST_VISIBLE_WRITE_PHASE :: int where
  "LAST_VISIBLE_WRITE_PHASE = (HEIGHT - 1) * PRODUCER_LINE_DOTS * PRODUCER_CYCLES_PER_DOT +
     (WIDTH - 1) * PRODUCER_CYCLES_PER_DOT"

lemmas beam_constants = SYSTEM_CLOCK_HZ_def SYSTEM_CYCLES_PER_PIXEL_def PRODUCER_CYCLES_PER_DOT_def
  PRODUCER_LINE_DOTS_def OUTPUT_LINE_PIXELS_def OUTPUT_ACTIVE_Y_def OUTPUT_ACTIVE_X_def WIDTH_def
  HEIGHT_def RAM_PIPELINE_GUARD_CYCLES_def OUTPUT_FRAME_SYSTEM_CYCLES_def LAST_VISIBLE_WRITE_PHASE_def

definition producer_write_time :: "int \<Rightarrow> int \<Rightarrow> int \<Rightarrow> int" where
  "producer_write_time row column phase_since_first_pixel =
     row * PRODUCER_LINE_DOTS * PRODUCER_CYCLES_PER_DOT + column * PRODUCER_CYCLES_PER_DOT - phase_since_first_pixel"

definition output_read_deadline :: "int \<Rightarrow> int \<Rightarrow> int" where
  "output_read_deadline row column =
     ((OUTPUT_ACTIVE_Y + row) * OUTPUT_LINE_PIXELS + OUTPUT_ACTIVE_X + column) * SYSTEM_CYCLES_PER_PIXEL -
     RAM_PIPELINE_GUARD_CYCLES"

record nominal_proof =
  np_pixels_checked :: int
  np_eligible_phase_cycles_checked :: int
  np_minimum_slack_cycles :: int
  np_minimum_slack_ms :: rat
  np_minimum_row :: int
  np_minimum_column :: int

text \<open>One pixel of the search for the least slack; the phases; the proof object.\<close>

definition slack_step :: "int \<Rightarrow> int \<Rightarrow> int option \<times> int \<times> int \<Rightarrow> int option \<times> int \<times> int" where
  "slack_step row column = (\<lambda>(minimum, minimum_location).
     let slack = output_read_deadline row column - producer_write_time row column 0 in
     if minimum = None \<or> slack < the minimum then (Some slack, (row, column)) else (minimum, minimum_location))"

definition phase_safe :: "int \<Rightarrow> int \<Rightarrow> unit \<Rightarrow> unit res" where
  "phase_safe minimum phase _ =
     (if minimum + phase \<le> 0 then Inl (AssertionError ''unsafe nominal phase'') else Inr ())"

definition prove_nominal_geometry :: "nominal_proof res" where
  "prove_nominal_geometry =
     (let (minimum, minimum_location) =
            fold (\<lambda>row. fold (slack_step row) [0..WIDTH - 1]) [0..HEIGHT - 1] (None, (0, 0)) in
      case minimum of
        None \<Rightarrow> Inl (AssertionError [])
      | Some minimum \<Rightarrow>
          rbind (ensure (minimum > 0) (AssertionError [])) (\<lambda>_.
          let visible_sweep_cycles = (HEIGHT - 1) * PRODUCER_LINE_DOTS * PRODUCER_CYCLES_PER_DOT +
                (WIDTH - 1) * PRODUCER_CYCLES_PER_DOT + 1 in
          rbind (fold_res (phase_safe minimum) [0..visible_sweep_cycles - 1] ()) (\<lambda>_.
          Inr \<lparr>np_pixels_checked = WIDTH * HEIGHT, np_eligible_phase_cycles_checked = visible_sweep_cycles,
               np_minimum_slack_cycles = minimum,
               np_minimum_slack_ms = of_int (minimum * 1000) / of_int SYSTEM_CLOCK_HZ,
               np_minimum_row = fst minimum_location, np_minimum_column = snd minimum_location\<rparr>)))"

record programmable_counterexample =
  pc_final_line :: int
  pc_first_stale_row :: int
  pc_first_stale_address :: int
  pc_read_deadline_cycles :: int

definition programmable_final_line_counterexample :: "int \<Rightarrow> programmable_counterexample res" where
  "programmable_final_line_counterexample final_line =
     (if final_line \<ge> HEIGHT then Inl (ValueError ''counterexample requires a frame shorter than 144 lines'')
      else
        let first_stale_row = final_line in
        Inr \<lparr>pc_final_line = final_line, pc_first_stale_row = first_stale_row,
             pc_first_stale_address = first_stale_row * WIDTH,
             pc_read_deadline_cycles = output_read_deadline first_stale_row 0\<rparr>)"

section \<open>The opportunity\<close>

record opportunity =
  op_final_line :: int
  op_output_frames_per_phase_period :: int
  op_eligible_output_frames :: int
  op_eligible_percent :: rat
  op_content_age_reduction_per_eligible_ms :: rat
  op_phase_average_content_age_reduction_ms :: rat

definition eligible_count :: "int \<Rightarrow> int \<Rightarrow> int \<Rightarrow> int" where
  "eligible_count producer_period output_frames initial_residue =
     int (length (filter (\<lambda>age. 0 < age \<and> age \<le> LAST_VISIBLE_WRITE_PHASE)
       (map (\<lambda>boundary. (initial_residue + boundary * OUTPUT_FRAME_SYSTEM_CYCLES) mod producer_period)
         [0..output_frames - 1])))"

definition quantify_opportunity :: "int \<Rightarrow> opportunity res" where
  "quantify_opportunity final_line =
     (if final_line < HEIGHT then Inl (ValueError ''beam candidate requires at least 144 producer lines'')
      else
        let producer_period = (final_line + 1) * PRODUCER_LINE_DOTS * PRODUCER_CYCLES_PER_DOT;
            phase_quantum = gcd producer_period OUTPUT_FRAME_SYSTEM_CYCLES;
            output_frames = producer_period div phase_quantum;
            eligible_counts = map (eligible_count producer_period output_frames) [0..phase_quantum - 1] in
        if Min (set eligible_counts) \<noteq> Max (set eligible_counts)
        then Inl (AssertionError ''candidate opportunity depends on unproven reset phase'')
        else
          let eligible = hd eligible_counts;
              generation_ms = rat_of_int (producer_period * 1000) / of_int SYSTEM_CLOCK_HZ;
              eligible_fraction = rat_of_int eligible / of_int output_frames in
          Inr \<lparr>op_final_line = final_line, op_output_frames_per_phase_period = output_frames,
               op_eligible_output_frames = eligible, op_eligible_percent = eligible_fraction * 100,
               op_content_age_reduction_per_eligible_ms = generation_ms,
               op_phase_average_content_age_reduction_ms = eligible_fraction * generation_ms\<rparr>)"

record arbiter_reuse_counterexample =
  ar_selected_bank :: int
  ar_next_writer_bank :: int
  ar_recycled_writer_bank :: int
  ar_producer_completions_before_consumer :: int

definition current_arbiter_reuse_counterexample :: "arbiter_reuse_counterexample res" where
  "current_arbiter_reuse_counterexample =
     (let selected = 2; pending = selected; next_writer = 3; recycled = pending in
      rbind (ensure (recycled = selected) (AssertionError [])) (\<lambda>_.
      Inr \<lparr>ar_selected_bank = selected, ar_next_writer_bank = next_writer, ar_recycled_writer_bank = recycled,
           ar_producer_completions_before_consumer = 2\<rparr>))"

section \<open>The least slack of the nominal geometry\<close>

definition slack :: "int \<Rightarrow> int \<Rightarrow> int" where
  "slack row column = output_read_deadline row column - producer_write_time row column 0"

lemma slack_value: "slack row column = 157394 - 690 * row - 6 * column"
  by (simp add: slack_def output_read_deadline_def producer_write_time_def beam_constants algebra_simps)

text \<open>What the search knows after some pixels: the least slack so far, at the pixel that has it.\<close>

definition least_slack :: "(int \<times> int) set \<Rightarrow> int option \<times> int \<times> int \<Rightarrow> bool" where
  "least_slack seen s \<longleftrightarrow> (case fst s of
     None \<Rightarrow> seen = {}
   | Some m \<Rightarrow> snd s \<in> seen \<and> m = slack (fst (snd s)) (snd (snd s)) \<and> (\<forall>(r, c)\<in>seen. m \<le> slack r c))"

lemma slack_step_least:
  assumes "least_slack seen s"
  shows "least_slack (insert (row, column) seen) (slack_step row column s)"
proof (cases "fst s")
  case None
  then show ?thesis using assms by (cases s) (simp add: least_slack_def slack_step_def slack_def)
next
  case (Some m)
  then obtain x y where s: "s = (Some m, (x, y))" by (cases s) auto
  have seen: "(x, y) \<in> seen" "m = slack x y" "m \<le> slack r c" if "(r, c) \<in> seen" for r c
    using assms that by (auto simp: least_slack_def s)
  have known: "(x, y) \<in> seen \<and> m = slack x y" using assms by (simp add: least_slack_def s)
  have step: "slack_step row column s =
      (if slack row column < m then (Some (slack row column), (row, column)) else s)"
    by (simp add: slack_step_def s slack_def)
  show ?thesis unfolding step using known seen(3)
    by (auto simp: least_slack_def s dest: less_le_trans [THEN less_imp_le])
qed

lemma slack_row_least: "least_slack seen s \<Longrightarrow> least_slack (seen \<union> Pair row ` set cs) (fold (slack_step row) cs s)"
proof (induction cs arbitrary: seen s)
  case Nil
  then show ?case by simp
next
  case (Cons c cs)
  have "insert (row, c) seen \<union> Pair row ` set cs = seen \<union> Pair row ` set (c # cs)" by auto
  then show ?case using Cons.IH [OF slack_step_least [OF Cons.prems, of row c]] by simp
qed

lemma slack_rows_least:
  "least_slack seen s \<Longrightarrow> least_slack (seen \<union> set rs \<times> set cs) (fold (\<lambda>row. fold (slack_step row) cs) rs s)"
proof (induction rs arbitrary: seen s)
  case Nil
  then show ?case by simp
next
  case (Cons r rs)
  have "seen \<union> Pair r ` set cs \<union> set rs \<times> set cs = seen \<union> set (r # rs) \<times> set cs" by auto
  then show ?case using Cons.IH [OF slack_row_least [OF Cons.prems, of r cs]] by simp
qed

lemma phases_safe: "0 < m \<Longrightarrow> fold_res (phase_safe m) [0..n] () = Inr ()"
proof -
  assume m: "0 < m"
  have "\<forall>p\<in>set ps. 0 \<le> p \<Longrightarrow> fold_res (phase_safe m) ps () = Inr ()" for ps
    by (induction ps) (use m in \<open>auto simp: phase_safe_def\<close>)
  then show ?thesis by simp
qed

text \<open>
  The nominal scanout never overtakes the producer. The geometry proof succeeds: over all 32256 pixels
  the least slack is 57386 cycles, at the last pixel, and it is the least slack for every phase at
  which the candidate is eligible, so every read comes after its write.
\<close>
theorem nominal_race_won:
  "\<exists>p. prove_nominal_geometry = Inr p \<and> np_pixels_checked p = 32256 \<and> np_minimum_slack_cycles p = 57386 \<and>
     (np_minimum_row p, np_minimum_column p) = (143, 223) \<and>
     (\<forall>row\<in>{0..<HEIGHT}. \<forall>column\<in>{0..<WIDTH}. \<forall>phase\<in>{0..<np_eligible_phase_cycles_checked p}.
        producer_write_time row column phase + np_minimum_slack_cycles p \<le> output_read_deadline row column)"
proof -
  obtain minimum loc where run: "fold (\<lambda>row. fold (slack_step row) [0..WIDTH - 1]) [0..HEIGHT - 1] (None, (0, 0)) = (minimum, loc)"
    by (rule prod.exhaust)
  have "least_slack {} (None, (0, 0))" by (simp add: least_slack_def)
  from slack_rows_least [OF this, of "[0..HEIGHT - 1]" "[0..WIDTH - 1]"]
  have least: "least_slack ({0..143} \<times> {0..223}) (minimum, loc)" using run by (simp add: beam_constants)
  then obtain m where m: "minimum = Some m" "loc \<in> {0..143} \<times> {0..223}" "m = slack (fst loc) (snd loc)" "m \<le> slack 143 223"
    by (cases minimum) (auto simp: least_slack_def dest!: bspec [of _ _ "(143, 223)"])
  then have "m = 57386" "loc = (143, 223)" by (cases loc; simp add: slack_value)+
  then have "prove_nominal_geometry = Inr \<lparr>np_pixels_checked = 32256, np_eligible_phase_cycles_checked = 441973,
      np_minimum_slack_cycles = 57386, np_minimum_slack_ms = of_int (57386 * 1000) / of_int SYSTEM_CLOCK_HZ,
      np_minimum_row = 143, np_minimum_column = 223\<rparr>"
    unfolding prove_nominal_geometry_def run Let_def prod.case m(1)
    by (simp add: phases_safe WIDTH_def HEIGHT_def PRODUCER_LINE_DOTS_def PRODUCER_CYCLES_PER_DOT_def)
  then show ?thesis
    by (auto simp: producer_write_time_def output_read_deadline_def beam_constants)
qed

theorem nominal_race_won_witness:
  "\<exists>p. prove_nominal_geometry = Inr p \<and> producer_write_time 143 223 0 + 57386 \<le> output_read_deadline 143 223"
  using nominal_race_won by (auto simp: producer_write_time_def output_read_deadline_def beam_constants)

section \<open>The eligible output frames\<close>

lemma le_quotient:
  fixes q :: int
  assumes q: "0 < q"
  shows "i \<le> x div q \<longleftrightarrow> i * q \<le> x"
proof
  assume "i \<le> x div q"
  then have "i * q \<le> x div q * q" using q by (simp add: mult_right_mono)
  also have "\<dots> \<le> x" using div_mult_mod_eq [of x q] pos_mod_sign [OF q, of x] by linarith
  finally show "i * q \<le> x" .
next
  assume "i * q \<le> x"
  then show "i \<le> x div q" using q zdiv_mono1 [of "i * q" x q] by simp
qed

lemma count_below:
  assumes q: "0 < q" and r: "0 \<le> r" "r < q" and L: "0 \<le> L" and n: "0 \<le> n"
  shows "int (length (filter (\<lambda>j. r + q * j \<le> L) [0..n - 1])) = min n ((L - r) div q + 1)"
  using n
proof (induction n rule: int_ge_induct)
  case base
  have "- q < L - r" using r L by simp
  then have "- 1 \<le> (L - r) div q" using q by (simp add: le_quotient)
  then show ?case by simp
next
  case (step i)
  have split: "[0..i + 1 - 1] = [0..i - 1] @ [i]" using step.hyps upto_rec2 [of 0 i] by simp
  have "r + q * i \<le> L \<longleftrightarrow> i * q \<le> L - r" by (simp add: algebra_simps le_diff_eq)
  also have "\<dots> \<longleftrightarrow> i \<le> (L - r) div q" using q by (simp add: le_quotient)
  finally show ?case using step.IH unfolding split by auto
qed

lemma eligible_count_value:
  assumes P: "LAST_VISIBLE_WRITE_PHASE < P" and r: "0 \<le> r" "r < gcd P OUTPUT_FRAME_SYSTEM_CYCLES"
  shows "eligible_count P (P div gcd P OUTPUT_FRAME_SYSTEM_CYCLES) r =
    (LAST_VISIBLE_WRITE_PHASE - r) div gcd P OUTPUT_FRAME_SYSTEM_CYCLES + (if r = 0 then 0 else 1)"
proof -
  let ?q = "gcd P OUTPUT_FRAME_SYSTEM_CYCLES" and ?L = LAST_VISIBLE_WRITE_PHASE
  let ?p = "P div ?q"
  have L: "0 \<le> ?L" by (simp add: beam_constants)
  have ps: "phase_sampler P" using P L by unfold_locales simp
  have q: "0 < ?q" and p: "0 < ?p" and split: "P = ?q * ?p"
    by (rule phase_sampler.quantum_pos [OF ps], rule phase_sampler.samples_pos [OF ps], rule phase_sampler.period_split [OF ps])
  have "(?L - r) div ?q < ?p" using P r split le_quotient [OF q, of ?p "?L - r"] by (simp add: mult.commute)
  then have below: "int (length (filter (\<lambda>j. r + ?q * j \<le> ?L) [0..?p - 1])) = (?L - r) div ?q + 1"
    using count_below [OF q r L, of ?p] p by simp
  have "eligible_count P ?p r = int (length (filter (\<lambda>j. 0 < r + ?q * j \<and> r + ?q * j \<le> ?L) [0..?p - 1]))"
    using phase_sampler.count_visited [OF ps r, of "\<lambda>age. 0 < age \<and> age \<le> ?L"]
    by (simp only: eligible_count_def) (simp add: filter_map comp_def)
  also have "\<dots> = (?L - r) div ?q + (if r = 0 then 0 else 1)"
  proof (cases "r = 0")
    case False
    have "filter (\<lambda>j. 0 < r + ?q * j \<and> r + ?q * j \<le> ?L) [0..?p - 1] = filter (\<lambda>j. r + ?q * j \<le> ?L) [0..?p - 1]"
      using False r q by (intro filter_cong) (auto intro: add_pos_nonneg)
    then show ?thesis using below False by simp
  next
    case True
    have rec: "[0..?p - 1] = 0 # [1..?p - 1]" using p upto_rec1 [of 0 "?p - 1"] by simp
    have "filter (\<lambda>j. 0 < ?q * j \<and> ?q * j \<le> ?L) [1..?p - 1] = filter (\<lambda>j. ?q * j \<le> ?L) [1..?p - 1]"
      using q by (intro filter_cong) auto
    then show ?thesis using below True L unfolding rec by simp
  qed
  finally show ?thesis .
qed

lemma residues_agree:
  fixes q L :: int
  assumes q: "0 < q" and L: "0 \<le> L"
  shows "q dvd L \<Longrightarrow> 0 \<le> r \<Longrightarrow> r < q \<Longrightarrow> (L - r) div q + (if r = 0 then 0 else 1) = L div q"
    and "\<not> q dvd L \<Longrightarrow> (L - L mod q) div q + 1 = L div q + 1 \<and> 0 < L mod q"
proof -
  show "(L - r) div q + (if r = 0 then 0 else 1) = L div q" if "q dvd L" "0 \<le> r" "r < q"
  proof (cases "r = 0")
    case False
    from that(1) obtain m where m: "L = q * m" ..
    have "(L - r) div q = (q - r + (m - 1) * q) div q" by (simp add: m algebra_simps)
    also have "\<dots> = m - 1" using q that False by (simp add: div_pos_pos_trivial)
    finally show ?thesis using q m False by simp
  qed simp
  show "(L - L mod q) div q + 1 = L div q + 1 \<and> 0 < L mod q" if "\<not> q dvd L"
    using that q pos_mod_sign [OF q, of L] by (auto simp: minus_mod_eq_mult_div dvd_eq_mod_eq_0 order_le_less)
qed

text \<open>
  The opportunity is phase-independent exactly when the phase quantum divides the visible sweep. For a
  frame of at least 144 lines the script returns the number \<open>L div q\<close> of eligible output frames if the
  quantum \<open>q\<close> divides the last visible write phase \<open>L\<close>, and raises its assertion if not: then two
  reset phases have different counts.
\<close>
theorem opportunity_phase_exact:
  assumes "HEIGHT \<le> final_line"
  defines "P \<equiv> (final_line + 1) * PRODUCER_LINE_DOTS * PRODUCER_CYCLES_PER_DOT"
  defines "q \<equiv> gcd P OUTPUT_FRAME_SYSTEM_CYCLES"
  shows "(q dvd LAST_VISIBLE_WRITE_PHASE \<longrightarrow> (\<exists>op. quantify_opportunity final_line = Inr op \<and>
       op_output_frames_per_phase_period op = P div q \<and> op_eligible_output_frames op = LAST_VISIBLE_WRITE_PHASE div q)) \<and>
     (\<not> q dvd LAST_VISIBLE_WRITE_PHASE \<longrightarrow> quantify_opportunity final_line =
       Inl (AssertionError ''candidate opportunity depends on unproven reset phase''))"
proof -
  let ?L = LAST_VISIBLE_WRITE_PHASE
  let ?f = "\<lambda>r. (?L - r) div q + (if r = 0 then 0 else 1)"
  have P: "?L < P" using assms(1) by (simp add: P_def beam_constants)
  have L: "0 \<le> ?L" by (simp add: beam_constants)
  have q: "0 < q" using P L by (simp add: q_def)
  have counts: "map (eligible_count P (P div q)) [0..q - 1] = map ?f [0..q - 1]"
    using eligible_count_value [OF P] by (intro map_cong) (simp_all add: q_def)
  have run: "quantify_opportunity final_line = (if Min (set (map ?f [0..q - 1])) \<noteq> Max (set (map ?f [0..q - 1]))
      then Inl (AssertionError ''candidate opportunity depends on unproven reset phase'')
      else Inr \<lparr>op_final_line = final_line, op_output_frames_per_phase_period = P div q,
         op_eligible_output_frames = ?f 0, op_eligible_percent = rat_of_int (?f 0) / of_int (P div q) * 100,
         op_content_age_reduction_per_eligible_ms = rat_of_int (P * 1000) / of_int SYSTEM_CLOCK_HZ,
         op_phase_average_content_age_reduction_ms =
           rat_of_int (?f 0) / of_int (P div q) * (rat_of_int (P * 1000) / of_int SYSTEM_CLOCK_HZ)\<rparr>)"
    using assms(1) q unfolding quantify_opportunity_def Let_def P_def [symmetric] q_def [symmetric] counts
    by (simp add: upto_rec1)
  show ?thesis
  proof (cases "q dvd ?L")
    case True
    have "?f r = ?L div q" if "r \<in> {0..q - 1}" for r
      using residues_agree(1) [OF q L True] that by (simp add: zle_diff1_eq)
    then have "?f ` {0..q - 1} = (\<lambda>_. ?L div q) ` {0..q - 1}" by (intro image_cong refl)
    also have "\<dots> = {?L div q}" using q by (simp add: image_constant_conv)
    finally have "?f ` {0..q - 1} = {?L div q}" .
    then show ?thesis using True run by simp
  next
    case False
    have "?f 0 \<in> ?f ` {0..q - 1}" "?f (?L mod q) \<in> ?f ` {0..q - 1}" using q by (intro imageI; simp add: zle_diff1_eq)+
    then have "Min (?f ` {0..q - 1}) \<le> ?f 0" "?f (?L mod q) \<le> Max (?f ` {0..q - 1})"
      by (intro Min_le Max_ge; simp)+
    moreover have "?f 0 < ?f (?L mod q)" using residues_agree(2) [OF q L False] by simp
    ultimately have "Min (?f ` {0..q - 1}) < Max (?f ` {0..q - 1})" by linarith
    then show ?thesis using False run by simp
  qed
qed

text \<open>The frame of 159 lines the script quantifies: 12277 of 13568 output frames.\<close>

theorem opportunity_phase_exact_witness:
  "\<exists>op. quantify_opportunity 158 = Inr op \<and> op_output_frames_per_phase_period op = 13568 \<and>
     op_eligible_output_frames op = 12277"
proof -
  have "gcd ((158 + 1) * PRODUCER_LINE_DOTS * PRODUCER_CYCLES_PER_DOT) OUTPUT_FRAME_SYSTEM_CYCLES = 36"
    by code_simp
  then show ?thesis using opportunity_phase_exact [of 158] by (simp add: beam_constants)
qed

end
