(* ===== verification/Sprite_Stream.thy ===== *)
theory Sprite_Stream
  imports Swan_Prelude "HOL-Library.AList"
begin

text \<open>
  The timing model of the handoff of sprites to row zero (\<^verbatim>\<open>scripts/gpu_final144_sprite_stream_model.py\<close>):
  descriptors arrive from the object table through the video memory arbiter, a streamer with one
  current and one pending job reads two tile words for each, and row zero starts after the last.
  A result \<open>None\<close> is a loop that does not end.
\<close>

section \<open>Arbiter slots\<close>

definition ARBITER_SLOTS :: int where "ARBITER_SLOTS = 8"
definition FAST_CE_CLOCKS :: int where "FAST_CE_CLOCKS = 4"
definition OAM_REQUEST_SLOTS :: "int set" where "OAM_REQUEST_SLOTS = {1, 5}"
definition OAM_RESPONSE_DELAY :: int where "OAM_RESPONSE_DELAY = 2"
definition TILE_REQUEST_SLOTS :: "int set" where "TILE_REQUEST_SLOTS = {2, 6}"
definition TILE_RESPONSE_DELAY :: int where "TILE_RESPONSE_DELAY = 2"
definition OAM_WORDS :: int where "OAM_WORDS = 256"
definition MAX_OBJECTS :: int where "MAX_OBJECTS = 32"
definition SPRITE_PREROLL_CYCLES :: int where "SPRITE_PREROLL_CYCLES = 15"

lemmas stream_constants = ARBITER_SLOTS_def FAST_CE_CLOCKS_def OAM_REQUEST_SLOTS_def OAM_RESPONSE_DELAY_def
  TILE_REQUEST_SLOTS_def TILE_RESPONSE_DELAY_def OAM_WORDS_def MAX_OBJECTS_def SPRITE_PREROLL_CYCLES_def

record job =
  jb_descriptor :: int
  jb_arrived :: int

record case_result =
  cr_boundary_phase :: int
  cr_sprite_count :: int
  cr_active :: "int list"
  cr_accepted :: "int list"
  cr_max_pending :: int
  cr_last_accept_clock :: "int option"
  cr_start_offset :: int
  cr_tile_requests :: int

text \<open>The search loop of \<open>next_slot\<close> does not end when no slot matches.\<close>

partial_function (option) seek_slot :: "int \<Rightarrow> int set \<Rightarrow> int option" where
  "seek_slot candidate slots =
     (if candidate mod ARBITER_SLOTS \<notin> slots then seek_slot (candidate + 1) slots else Some candidate)"

definition next_slot :: "int \<Rightarrow> int set \<Rightarrow> bool \<Rightarrow> int option" where
  "next_slot clock slots strict = seek_slot (clock + (if strict then 1 else 0)) slots"

definition arrival_word :: "int \<Rightarrow> int \<Rightarrow> int \<Rightarrow> (int \<times> int) list \<times> int \<Rightarrow> ((int \<times> int) list \<times> int) res" where
  "arrival_word boundary_phase word issue = (\<lambda>(arrivals, previous_issue).
     let request = word * FAST_CE_CLOCKS in
     rbind (ensure (issue - boundary_phase < request + FAST_CE_CLOCKS) (AssertionError [])) (\<lambda>_.
     rbind (ensure (issue > previous_issue) (AssertionError [])) (\<lambda>_.
     Inr (if word mod 2 = 1
          then (AList.update (word div 2) (issue - boundary_phase + OAM_RESPONSE_DELAY) arrivals, issue)
          else (arrivals, issue)))))"

fun arrival_words :: "int \<Rightarrow> int list \<Rightarrow> (int \<times> int) list \<times> int \<Rightarrow> ((int \<times> int) list \<times> int) res option" where
  "arrival_words boundary_phase [] s = Some (Inr s)"
| "arrival_words boundary_phase (word # words) s =
     (case next_slot (word * FAST_CE_CLOCKS + boundary_phase) OAM_REQUEST_SLOTS False of
        None \<Rightarrow> None
      | Some issue \<Rightarrow>
          (case arrival_word boundary_phase word issue s of
             Inl e \<Rightarrow> Some (Inl e)
           | Inr s' \<Rightarrow> arrival_words boundary_phase words s'))"

definition descriptor_arrivals :: "int \<Rightarrow> (int \<times> int) list res option" where
  "descriptor_arrivals boundary_phase =
     map_option (\<lambda>r. rbind r (\<lambda>(arrivals, previous_issue).
       rbind (ensure (map fst arrivals = [0..127]) (AssertionError [])) (\<lambda>_. Inr arrivals)))
     (arrival_words boundary_phase [0..OAM_WORDS - 1] ([], -1))"

function first_ce_strictly_after :: "int \<Rightarrow> int \<Rightarrow> int" where
  "first_ce_strictly_after clock first_ce =
     (if first_ce \<le> clock then first_ce_strictly_after clock (first_ce + FAST_CE_CLOCKS) else first_ce)"
  by pat_completeness auto
termination by (relation "measure (\<lambda>(clock, first_ce). nat (clock + 1 - first_ce))") (auto simp: stream_constants)

declare first_ce_strictly_after.simps [simp del]

section \<open>The streamer\<close>

record stream =
  st_current :: "job option"
  st_pending :: "job option"
  st_outstanding :: "(int \<times> job \<times> int) option"
  st_words_issued :: int
  st_max_pending :: int
  st_accepted :: "int list"
  st_accepted_at :: "int list"
  st_issued_for :: "(int \<times> int list) list"

definition stream_start :: stream where
  "stream_start = \<lparr>st_current = None, st_pending = None, st_outstanding = None, st_words_issued = 0,
     st_max_pending = 0, st_accepted = [], st_accepted_at = [], st_issued_for = []\<rparr>"

definition arbiter_phase :: "int \<Rightarrow> int \<Rightarrow> int" where
  "arbiter_phase boundary_phase clock = (clock + boundary_phase) mod ARBITER_SLOTS"

definition arrival_part :: "int \<Rightarrow> (int \<times> int) list \<Rightarrow> int \<Rightarrow> stream \<Rightarrow> stream res" where
  "arrival_part boundary_phase arrival_events clock s =
     (case map_of arrival_events clock of
        None \<Rightarrow> Inr s
      | Some descriptor \<Rightarrow>
          rbind (ensure (arbiter_phase boundary_phase clock \<in> {3, 7}) (AssertionError [])) (\<lambda>_.
          if int (length (st_accepted s)) + (if st_current s \<noteq> None then 1 else 0) +
             (if st_pending s \<noteq> None then 1 else 0) < MAX_OBJECTS
          then
            let new_job = \<lparr>jb_descriptor = descriptor, jb_arrived = clock\<rparr> in
            (if st_current s = None then Inr (s\<lparr>st_current := Some new_job\<rparr>)
             else
               rbind (ensure (st_pending s = None) (AssertionError ''pending overflow'')) (\<lambda>_.
               Inr (s\<lparr>st_pending := Some new_job, st_max_pending := 1\<rparr>)))
          else Inr s))"

definition response_part :: "int \<Rightarrow> stream \<Rightarrow> stream res" where
  "response_part clock s =
     (case st_outstanding s of
        None \<Rightarrow> Inr s
      | Some (due, response_job, word) \<Rightarrow>
          if due \<noteq> clock then Inr s
          else
            rbind (ensure (st_current s = Some response_job) (AssertionError [])) (\<lambda>_.
            let s = s\<lparr>st_outstanding := None\<rparr> in
            Inr (if word = 1
                 then s\<lparr>st_accepted := st_accepted s @ [jb_descriptor response_job],
                        st_accepted_at := st_accepted_at s @ [clock + 1],
                        st_current := st_pending s, st_pending := None\<rparr>
                 else s)))"

definition issued_words :: "stream \<Rightarrow> int \<Rightarrow> int list" where
  "issued_words s descriptor = (case map_of (st_issued_for s) descriptor of None \<Rightarrow> [] | Some words \<Rightarrow> words)"

definition request_part :: "int \<Rightarrow> int \<Rightarrow> stream \<Rightarrow> stream res" where
  "request_part boundary_phase clock s =
     (case st_current s of
        None \<Rightarrow> Inr s
      | Some current_job \<Rightarrow>
          if arbiter_phase boundary_phase clock \<notin> TILE_REQUEST_SLOTS then Inr s
          else
            rbind (ensure (st_outstanding s = None) (AssertionError [])) (\<lambda>_.
            let issued = issued_words s (jb_descriptor current_job); word = int (length issued) in
            rbind (ensure (word \<in> {0, 1}) (AssertionError [])) (\<lambda>_.
            rbind (ensure (clock > jb_arrived current_job) (AssertionError [])) (\<lambda>_.
            Inr (s\<lparr>st_issued_for := AList.update (jb_descriptor current_job) (issued @ [clock]) (st_issued_for s),
                   st_words_issued := st_words_issued s + 1,
                   st_outstanding := Some (clock + TILE_RESPONSE_DELAY, current_job, word)\<rparr>)))))"

definition clock_step :: "int \<Rightarrow> (int \<times> int) list \<Rightarrow> int \<Rightarrow> stream \<Rightarrow> stream res" where
  "clock_step boundary_phase arrival_events clock s =
     rbind (arrival_part boundary_phase arrival_events clock s) (\<lambda>s.
     rbind (response_part clock s) (request_part boundary_phase clock))"

section \<open>A case\<close>

definition eligible :: "int \<Rightarrow> int list \<Rightarrow> int \<Rightarrow> bool" where
  "eligible sprite_count active descriptor \<longleftrightarrow> descriptor < sprite_count \<and> descriptor \<in> set active"

definition arrival_table :: "int \<Rightarrow> int list \<Rightarrow> (int \<times> int) list \<Rightarrow> (int \<times> int) list" where
  "arrival_table sprite_count active arrivals =
     fold (\<lambda>(descriptor, clock) events. AList.update clock descriptor events)
       (filter (\<lambda>(descriptor, clock). eligible sprite_count active descriptor) arrivals) []"

definition expected_objects :: "int \<Rightarrow> int list \<Rightarrow> int list" where
  "expected_objects sprite_count active = take (nat MAX_OBJECTS) (filter (\<lambda>descriptor. descriptor < sprite_count) active)"

definition stream_checks :: "int list \<Rightarrow> stream \<Rightarrow> unit res" where
  "stream_checks expected s =
     rbind (ensure (st_accepted s = expected) (AssertionError ''accept order'')) (\<lambda>_.
     rbind (ensure (st_words_issued s = 2 * int (length expected)) (AssertionError [])) (\<lambda>_.
     rbind (ensure (st_current s = None \<and> st_pending s = None \<and> st_outstanding s = None) (AssertionError [])) (\<lambda>_.
     ensure (list_all (\<lambda>(_, words). length words = 2) (st_issued_for s)) (AssertionError []))))"

definition run_stream :: "int \<Rightarrow> int \<Rightarrow> int list \<Rightarrow> (int \<times> int) list \<Rightarrow> case_result res" where
  "run_stream boundary_phase sprite_count active arrivals =
     (let arrival_events = arrival_table sprite_count active arrivals in
      rbind (ensure (length arrival_events = length (filter (\<lambda>descriptor. descriptor < sprite_count) active))
               (AssertionError [])) (\<lambda>_.
      let frame_boundary = OAM_WORDS * FAST_CE_CLOCKS;
          first_row0_ce = frame_boundary + FAST_CE_CLOCKS;
          stop_clock = frame_boundary + 4 * SPRITE_PREROLL_CYCLES in
      rbind (fold_res (clock_step boundary_phase arrival_events) [0..stop_clock] stream_start) (\<lambda>s.
      rbind (stream_checks (expected_objects sprite_count active) s) (\<lambda>_.
      let last_accept = (if st_accepted_at s = [] then None else Some (last (st_accepted_at s)));
          start_clock = (case last_accept of None \<Rightarrow> first_row0_ce
                         | Some clock \<Rightarrow> first_ce_strictly_after clock first_row0_ce) in
      rbind (ensure ((start_clock - first_row0_ce) mod FAST_CE_CLOCKS = 0) (AssertionError [])) (\<lambda>_.
      let start_offset = (start_clock - first_row0_ce) div FAST_CE_CLOCKS in
      rbind (ensure (start_offset \<le> 2) (AssertionError ''row0 start deadline'')) (\<lambda>_.
      rbind (ensure (start_offset < SPRITE_PREROLL_CYCLES) (AssertionError [])) (\<lambda>_.
      Inr \<lparr>cr_boundary_phase = boundary_phase, cr_sprite_count = sprite_count, cr_active = active,
           cr_accepted = st_accepted s, cr_max_pending = st_max_pending s, cr_last_accept_clock = last_accept,
           cr_start_offset = start_offset, cr_tile_requests = st_words_issued s\<rparr>)))))))"

definition run_case :: "int \<Rightarrow> int \<Rightarrow> int list \<Rightarrow> case_result res option" where
  "run_case boundary_phase sprite_count active_descriptors =
     (let active = sort (remdups active_descriptors) in
      if \<not> (0 \<le> boundary_phase \<and> boundary_phase < ARBITER_SLOTS) \<or> \<not> (0 \<le> sprite_count \<and> sprite_count \<le> 128) \<or>
         \<not> list_all (\<lambda>descriptor. 0 \<le> descriptor \<and> descriptor < 128) active
      then Some (Inl (AssertionError []))
      else map_option (\<lambda>r. rbind r (run_stream boundary_phase sprite_count active)) (descriptor_arrivals boundary_phase))"

end
