(* ===== verification/Sprite_Stream_Facts.thy ===== *)
theory Sprite_Stream_Facts
  imports Sprite_Stream
begin

text \<open>
  The schedule of the sprite streamer. Every descriptor arrives at a fixed clock, its two tile words
  are issued three and seven clocks later, and it is accepted nine clocks after it arrived; since
  arrivals are at least eight clocks apart, one pending register is enough. The invariant of the
  clock loop says this of the state before, within and after a clock.
\<close>

section \<open>Association lists\<close>

lemma update_new: "k \<notin> fst ` set al \<Longrightarrow> AList.update k v al = al @ [(k, v)]"
  by (induction al) auto

lemma update_append: "k \<notin> fst ` set xs \<Longrightarrow> AList.update k v (xs @ ys) = xs @ AList.update k v ys"
  by (induction xs) auto

lemma update_all_new:
  "distinct (map snd xs) \<Longrightarrow> snd ` set xs \<inter> fst ` set al = {} \<Longrightarrow>
     fold (\<lambda>(d, c). AList.update c d) xs al = al @ map prod.swap xs"
proof (induction xs arbitrary: al)
  case (Cons x xs)
  obtain d c where x: "x = (d, c)" by (cases x)
  have "AList.update c d al = al @ [(c, d)]" using Cons.prems x by (intro update_new) auto
  moreover have "snd ` set xs \<inter> fst ` set (al @ [(c, d)]) = {}" using Cons.prems x by auto
  ultimately show ?case using Cons.IH [of "al @ [(c, d)]"] Cons.prems x by simp
qed simp

section \<open>Arrivals\<close>

definition arrival_clock :: "int \<Rightarrow> int \<Rightarrow> int" where
  "arrival_clock phase descriptor = 8 * descriptor + 6 + (1 - phase) mod 4"

lemma seek_slot_oam: "seek_slot c {1, 5} = Some (c + (1 - c) mod 4)"
proof (induction "nat ((1 - c) mod 4)" arbitrary: c)
  case 0
  then have "(1 - c) mod 4 = 0" using pos_mod_sign [of 4 "1 - c"] by linarith
  moreover from this have "c mod 8 = 1 \<or> c mod 8 = 5" by presburger
  ultimately show ?case by (subst seek_slot.simps) (auto simp: stream_constants)
next
  case (Suc n)
  from Suc.hyps(2) have ne: "(1 - c) mod 4 \<noteq> 0" by linarith
  from ne have less: "(1 - (c + 1)) mod 4 = (1 - c) mod 4 - 1" by presburger
  from ne have out: "c mod 8 \<noteq> 1 \<and> c mod 8 \<noteq> 5" by presburger
  have "seek_slot (c + 1) {1, 5} = Some (c + 1 + (1 - (c + 1)) mod 4)" using Suc.hyps(2) less by (intro Suc.hyps(1)) linarith
  then show ?case using out unfolding less by (subst seek_slot.simps) (simp add: stream_constants)
qed

lemma next_oam_slot: "next_slot (w * FAST_CE_CLOCKS + phase) OAM_REQUEST_SLOTS False = Some (4 * w + phase + (1 - phase) mod 4)"
proof -
  have "(1 - (w * 4 + phase)) mod 4 = (1 - phase) mod 4" by presburger
  then show ?thesis by (simp add: next_slot_def seek_slot_oam stream_constants)
qed

text \<open>The state of the arrival loop before word \<open>k\<close>.\<close>

definition arrivals_before :: "int \<Rightarrow> int \<Rightarrow> (int \<times> int) list \<times> int" where
  "arrivals_before phase k =
     (map (\<lambda>d. (d, arrival_clock phase d)) [0..k div 2 - 1],
      if k = 0 then -1 else 4 * (k - 1) + phase + (1 - phase) mod 4)"

lemma arrival_word_before:
  assumes "0 \<le> phase" "0 \<le> k"
  shows "arrival_word phase k (4 * k + phase + (1 - phase) mod 4) (arrivals_before phase k) = Inr (arrivals_before phase (k + 1))"
proof -
  have delay: "0 \<le> (1 - phase) mod 4" "(1 - phase) mod 4 < 4" by simp_all
  have asserts: "4 * k + (1 - phase) mod 4 < k * 4 + 4"
    "(if k = 0 then -1 else 4 * (k - 1) + phase + (1 - phase) mod 4) < 4 * k + phase + (1 - phase) mod 4"
    using delay assms by auto
  have odd: "AList.update (k div 2) (4 * k + (1 - phase) mod 4 + OAM_RESPONSE_DELAY) (map (\<lambda>d. (d, arrival_clock phase d)) [0..k div 2 - 1]) =
      map (\<lambda>d. (d, arrival_clock phase d)) [0..(k + 1) div 2 - 1]" if "k mod 2 = 1"
  proof -
    from that have half: "(k + 1) div 2 - 1 = k div 2" "4 * k = 8 * (k div 2) + 4" by presburger+
    have "AList.update (k div 2) (4 * k + (1 - phase) mod 4 + OAM_RESPONSE_DELAY) (map (\<lambda>d. (d, arrival_clock phase d)) [0..k div 2 - 1]) =
        map (\<lambda>d. (d, arrival_clock phase d)) ([0..k div 2 - 1] @ [k div 2])"
      using half(2) by (subst update_new) (auto simp: arrival_clock_def stream_constants)
    then show ?thesis using half(1) assms upto_rec2 [of 0 "k div 2"] by simp
  qed
  have even: "(k + 1) div 2 = k div 2" if "k mod 2 = 0" using that by presburger
  show ?thesis
    using asserts assms(2)
    by (simp add: arrival_word_def arrivals_before_def Let_def FAST_CE_CLOCKS_def split del: if_split)
      (simp add: odd even split: if_split)
qed

lemma arrival_words_from:
  assumes "0 \<le> phase" "k \<le> 256" "0 \<le> k"
  shows "arrival_words phase [k..255] (arrivals_before phase k) = Some (Inr (arrivals_before phase 256))"
  using assms(2,3)
proof (induction k rule: int_le_induct)
  case base
  then show ?case by simp
next
  case (step i)
  have "[i - 1..255] = (i - 1) # [i..255]" using step.hyps upto_rec1 [of "i - 1" 255] by simp
  then show ?case
    using step.IH step.prems arrival_word_before [OF assms(1), of "i - 1"] by (simp add: next_oam_slot)
qed

lemma descriptor_arrivals_value:
  "0 \<le> phase \<Longrightarrow> descriptor_arrivals phase = Some (Inr (map (\<lambda>d. (d, arrival_clock phase d)) [0..127]))"
  using arrival_words_from [of phase 0]
  by (simp add: descriptor_arrivals_def stream_constants arrivals_before_def comp_def split del: if_split)

text \<open>The descriptors of a case, and their arrival events.\<close>

definition objects :: "int \<Rightarrow> int list \<Rightarrow> int list" where
  "objects sprite_count active = filter (\<lambda>d. d < sprite_count) active"

lemma objects_range:
  assumes "sorted active" "distinct active" "set active \<subseteq> {0..<128}"
  shows "objects sprite_count active = filter (eligible sprite_count active) [0..127]"
  using assms
  by (intro sorted_distinct_set_unique) (auto simp: objects_def eligible_def sorted_wrt_filter)

lemma arrival_table_value:
  assumes "sorted active" "distinct active" "set active \<subseteq> {0..<128}"
  shows "arrival_table sprite_count active (map (\<lambda>d. (d, arrival_clock phase d)) [0..127]) =
    map (\<lambda>d. (arrival_clock phase d, d)) (objects sprite_count active)"
proof -
  have "filter (\<lambda>(d, clock). eligible sprite_count active d) (map (\<lambda>d. (d, arrival_clock phase d)) [0..127]) =
      map (\<lambda>d. (d, arrival_clock phase d)) (objects sprite_count active)"
    by (simp add: objects_range [OF assms] filter_map comp_def)
  moreover have "distinct (map (arrival_clock phase) (objects sprite_count active))"
    using assms(2) by (simp add: distinct_map objects_def inj_on_def arrival_clock_def)
  ultimately show ?thesis
    unfolding arrival_table_def by (subst update_all_new) (simp_all add: comp_def)
qed

lemma arrival_event:
  "map_of (map (\<lambda>d. (arrival_clock phase d, d)) ds) t = Some d \<longleftrightarrow> d \<in> set ds \<and> arrival_clock phase d = t"
proof -
  have "inj_on (arrival_clock phase) (set ds)" by (simp add: inj_on_def arrival_clock_def)
  then show ?thesis by (induction ds) (auto simp: inj_on_def arrival_clock_def image_iff)
qed

lemma no_arrival_event:
  "map_of (map (\<lambda>d. (arrival_clock phase d, d)) ds) t = None \<longleftrightarrow> (\<forall>d\<in>set ds. arrival_clock phase d \<noteq> t)"
  by (simp add: map_of_eq_None_iff image_image) blast

lemma arrival_residue: "\<exists>q. arrival_clock phase d + u + phase = 8 * d + 7 - 4 * q + u"
proof
  show "arrival_clock phase d + u + phase = 8 * d + 7 - 4 * ((1 - phase) div 4) + u"
    using mult_div_mod_eq [of 4 "1 - phase"] unfolding arrival_clock_def by linarith
qed

lemma tile_slot: "arbiter_phase phase (arrival_clock phase d + u) \<in> TILE_REQUEST_SLOTS \<longleftrightarrow> u mod 4 = 3"
proof -
  obtain q where q: "arrival_clock phase d + u + phase = 8 * d + 7 - 4 * q + u" using arrival_residue by blast
  have "(8 * d + 7 - 4 * q + u) mod 8 = 2 \<or> (8 * d + 7 - 4 * q + u) mod 8 = 6 \<longleftrightarrow> u mod 4 = 3" by presburger
  then show ?thesis by (simp add: arbiter_phase_def stream_constants q)
qed

lemma arrival_slot: "arbiter_phase phase (arrival_clock phase d) \<in> {3, 7}"
proof -
  obtain q where q: "arrival_clock phase d + 0 + phase = 8 * d + 7 - 4 * q + 0" using arrival_residue by blast
  have "(8 * d + 7 - 4 * q) mod 8 = 3 \<or> (8 * d + 7 - 4 * q) mod 8 = 7" by presburger
  then show ?thesis using q by (simp add: arbiter_phase_def stream_constants)
qed

section \<open>The invariant\<close>

text \<open>
  One job, \<open>u\<close> clocks after it arrived: what is outstanding, as the offset of the response and the
  word, and the offsets of the words issued. The three versions are before the clock, between
  response and request, and after the clock.
\<close>

definition outstanding_before :: "int \<Rightarrow> (int \<times> int) option" where
  "outstanding_before u = (if u \<in> {4, 5} then Some (5, 0) else if u \<in> {8, 9} then Some (9, 1) else None)"

definition outstanding_between :: "int \<Rightarrow> (int \<times> int) option" where
  "outstanding_between u = (if u = 4 then Some (5, 0) else if u = 8 then Some (9, 1) else None)"

definition issued_before :: "int \<Rightarrow> int list" where
  "issued_before u = (if u \<le> 3 then [] else if u \<le> 7 then [3] else [3, 7])"

definition new_job :: "int \<Rightarrow> int \<Rightarrow> job" where
  "new_job phase d = \<lparr>jb_descriptor = d, jb_arrived = arrival_clock phase d\<rparr>"

lemma new_job_fields [simp]: "jb_descriptor (new_job phase d) = d" "jb_arrived (new_job phase d) = arrival_clock phase d"
  by (simp_all add: new_job_def)

definition finished :: "int \<Rightarrow> int list \<Rightarrow> (int \<times> int list) list" where
  "finished phase ds = map (\<lambda>d. (d, [arrival_clock phase d + 3, arrival_clock phase d + 7])) ds"

definition partial_issue :: "int \<Rightarrow> int \<Rightarrow> int list \<Rightarrow> (int \<times> int list) list" where
  "partial_issue phase d offsets = (if offsets = [] then [] else [(d, map (\<lambda>o'. arrival_clock phase d + o') offsets)])"

text \<open>The streamer with objects \<open>ds\<close> done, \<open>cur\<close> in progress for \<open>u\<close> clocks and \<open>pend\<close> waiting.\<close>

definition streaming :: "int \<Rightarrow> int list \<Rightarrow> int option \<Rightarrow> int option \<Rightarrow> (int \<times> int) option \<Rightarrow> int list \<Rightarrow> stream \<Rightarrow> bool" where
  "streaming phase ds cur pend out offsets s \<longleftrightarrow>
     st_current s = map_option (new_job phase) cur \<and> st_pending s = map_option (new_job phase) pend \<and>
     st_accepted s = ds \<and> st_accepted_at s = map (\<lambda>d. arrival_clock phase d + 10) ds \<and>
     (case cur of
        None \<Rightarrow> pend = None \<and> st_outstanding s = None \<and> st_issued_for s = finished phase ds \<and>
                st_words_issued s = 2 * int (length ds)
      | Some d \<Rightarrow> st_outstanding s = map_option (\<lambda>(o', word). (arrival_clock phase d + o', new_job phase d, word)) out \<and>
                  st_issued_for s = finished phase ds @ partial_issue phase d offsets \<and>
                  st_words_issued s = 2 * int (length ds) + int (length offsets))"

text \<open>
  The objects are those done, the one in progress, the one pending, those beyond the limit, and
  those still to arrive at clock \<open>now\<close> or later.
\<close>

definition opt_list :: "'a option \<Rightarrow> 'a list" where
  "opt_list v = (case v of None \<Rightarrow> [] | Some x \<Rightarrow> [x])"

lemma opt_list_simps [simp]: "opt_list None = []" "opt_list (Some x) = [x]"
  by (simp_all add: opt_list_def)

definition arranged :: "int \<Rightarrow> int list \<Rightarrow> int list \<Rightarrow> int option \<Rightarrow> int option \<Rightarrow> int \<Rightarrow> bool" where
  "arranged phase objs ds cur pend now \<longleftrightarrow> (\<exists>skipped future.
     objs = ds @ opt_list cur @ opt_list pend @ skipped @ future \<and>
     length (ds @ opt_list cur @ opt_list pend) \<le> 32 \<and>
     (skipped \<noteq> [] \<longrightarrow> length (ds @ opt_list cur @ opt_list pend) = 32) \<and>
     (\<forall>d\<in>set (ds @ opt_list cur @ opt_list pend @ skipped). arrival_clock phase d < now) \<and>
     (\<forall>d\<in>set future. now \<le> arrival_clock phase d))"

lemma arrangedI:
  assumes "objs = ds @ opt_list cur @ opt_list pend @ skipped @ future"
    and "length (ds @ opt_list cur @ opt_list pend) \<le> 32"
    and "skipped \<noteq> [] \<longrightarrow> length (ds @ opt_list cur @ opt_list pend) = 32"
    and "\<And>d. d \<in> set (ds @ opt_list cur @ opt_list pend @ skipped) \<Longrightarrow> arrival_clock phase d < now"
    and "\<And>d. d \<in> set future \<Longrightarrow> now \<le> arrival_clock phase d"
  shows "arranged phase objs ds cur pend now"
  unfolding arranged_def using assms by blast

definition before_clock :: "int \<Rightarrow> int list \<Rightarrow> int \<Rightarrow> stream \<Rightarrow> bool" where
  "before_clock phase objs t s \<longleftrightarrow> (\<exists>ds cur pend. arranged phase objs ds cur pend t \<and>
     (\<forall>d. cur = Some d \<longrightarrow> 1 \<le> t - arrival_clock phase d \<and> t - arrival_clock phase d \<le> 9) \<and>
     (\<forall>d e. cur = Some d \<longrightarrow> pend = Some e \<longrightarrow> e = d + 1 \<and> t - arrival_clock phase d = 9) \<and>
     (case cur of None \<Rightarrow> streaming phase ds None pend None [] s
      | Some d \<Rightarrow> streaming phase ds cur pend (outstanding_before (t - arrival_clock phase d))
                    (issued_before (t - arrival_clock phase d)) s))"

text \<open>After the arrivals of clock \<open>t\<close>, and after its responses.\<close>

definition after_arrival :: "int \<Rightarrow> int list \<Rightarrow> int \<Rightarrow> stream \<Rightarrow> bool" where
  "after_arrival phase objs t s \<longleftrightarrow> (\<exists>ds cur pend. arranged phase objs ds cur pend (t + 1) \<and>
     (\<forall>d. cur = Some d \<longrightarrow> 0 \<le> t - arrival_clock phase d \<and> t - arrival_clock phase d \<le> 9) \<and>
     (\<forall>d e. cur = Some d \<longrightarrow> pend = Some e \<longrightarrow> e = d + 1 \<and> t - arrival_clock phase d \<in> {8, 9}) \<and>
     (case cur of None \<Rightarrow> streaming phase ds None pend None [] s
      | Some d \<Rightarrow> streaming phase ds cur pend (outstanding_before (t - arrival_clock phase d))
                    (issued_before (t - arrival_clock phase d)) s))"

definition after_response :: "int \<Rightarrow> int list \<Rightarrow> int \<Rightarrow> stream \<Rightarrow> bool" where
  "after_response phase objs t s \<longleftrightarrow> (\<exists>ds cur pend. arranged phase objs ds cur pend (t + 1) \<and>
     (\<forall>d. cur = Some d \<longrightarrow> 0 \<le> t - arrival_clock phase d \<and> t - arrival_clock phase d \<le> 8) \<and>
     (\<forall>d e. cur = Some d \<longrightarrow> pend = Some e \<longrightarrow> e = d + 1 \<and> t - arrival_clock phase d = 8) \<and>
     (case cur of None \<Rightarrow> streaming phase ds None pend None [] s
      | Some d \<Rightarrow> streaming phase ds cur pend (outstanding_between (t - arrival_clock phase d))
                    (issued_before (t - arrival_clock phase d)) s))"

lemma arrival_gap: "arrival_clock phase e - arrival_clock phase d = 8 * (e - d)"
  by (simp add: arrival_clock_def)

section \<open>The parts of a clock keep the schedule\<close>

lemma request_keeps:
  assumes "after_response phase objs t s" and "distinct objs"
  shows "\<exists>s'. request_part phase t s = Inr s' \<and> before_clock phase objs (t + 1) s'"
proof -
  obtain ds cur pend where arr: "arranged phase objs ds cur pend (t + 1)"
    and u: "\<forall>d. cur = Some d \<longrightarrow> 0 \<le> t - arrival_clock phase d \<and> t - arrival_clock phase d \<le> 8"
    and p: "\<forall>d e. cur = Some d \<longrightarrow> pend = Some e \<longrightarrow> e = d + 1 \<and> t - arrival_clock phase d = 8"
    and s: "case cur of None \<Rightarrow> streaming phase ds None pend None [] s
      | Some d \<Rightarrow> streaming phase ds cur pend (outstanding_between (t - arrival_clock phase d))
                    (issued_before (t - arrival_clock phase d)) s"
    using assms(1) unfolding after_response_def by blast
  show ?thesis
  proof (cases cur)
    case None
    then have "request_part phase t s = Inr s" using s by (simp add: streaming_def request_part_def)
    moreover have "before_clock phase objs (t + 1) s"
      unfolding before_clock_def using arr s None by (intro exI [of _ ds] exI [of _ cur] exI [of _ pend]) simp
    ultimately show ?thesis by blast
  next
    case (Some d)
    define v where "v = t - arrival_clock phase d"
    have t: "t = arrival_clock phase d + v" by (simp add: v_def)
    have v: "0 \<le> v" "v \<le> 8" using u Some by (auto simp: v_def)
    have d: "d \<notin> set ds" using arr assms(2) Some by (auto simp: arranged_def)
    have fin: "d \<notin> fst ` set (finished phase ds)" using d by (auto simp: finished_def)
    have st: "streaming phase ds (Some d) pend (outstanding_between v) (issued_before v) s"
      using s Some by (simp add: v_def)
    have keep: "before_clock phase objs (t + 1) s'"
      if "streaming phase ds (Some d) pend (outstanding_before (v + 1)) (issued_before (v + 1)) s'" for s'
      unfolding before_clock_def using arr p Some v that
      by (intro exI [of _ ds] exI [of _ cur] exI [of _ pend]) (auto simp: v_def algebra_simps)
    show ?thesis
    proof (cases "v mod 4 = 3")
      case False
      then have "request_part phase t s = Inr s"
        using st by (simp add: streaming_def request_part_def t tile_slot)
      moreover have "outstanding_before (v + 1) = outstanding_between v" "issued_before (v + 1) = issued_before v"
      proof -
        have "v = 0 \<or> v = 1 \<or> v = 2 \<or> v = 4 \<or> v = 5 \<or> v = 6 \<or> v = 8" using v False by presburger
        then show "outstanding_before (v + 1) = outstanding_between v" "issued_before (v + 1) = issued_before v"
          by (auto simp: outstanding_before_def outstanding_between_def issued_before_def)
      qed
      ultimately show ?thesis using keep st by simp
    next
      case True
      then have "v = 3 \<or> v = 7" using v by presburger
      then consider "v = 3" | "v = 7" by blast
      then show ?thesis
      proof cases
        case 1
        let ?s = "s\<lparr>st_issued_for := st_issued_for s @ [(d, [t])], st_words_issued := st_words_issued s + 1,
           st_outstanding := Some (t + 2, new_job phase d, 0)\<rparr>"
        have "issued_words s d = []" using st fin 1
          by (auto simp: issued_words_def streaming_def partial_issue_def issued_before_def map_of_eq_None_iff split: option.splits)
            (metis map_of_eq_None_iff option.distinct(1))
        then have "request_part phase t s = Inr ?s" using st fin 1 update_new [of d "st_issued_for s"]
          by (simp add: streaming_def request_part_def t tile_slot outstanding_between_def
              partial_issue_def issued_before_def TILE_RESPONSE_DELAY_def)
        moreover have "streaming phase ds (Some d) pend (outstanding_before (v + 1)) (issued_before (v + 1)) ?s"
          using st 1 t by (simp add: streaming_def outstanding_before_def issued_before_def partial_issue_def)
        ultimately show ?thesis using keep by blast
      next
        case 2
        let ?s = "s\<lparr>st_issued_for := finished phase ds @ [(d, [arrival_clock phase d + 3, t])],
           st_words_issued := st_words_issued s + 1, st_outstanding := Some (t + 2, new_job phase d, 1)\<rparr>"
        have iss: "st_issued_for s = finished phase ds @ [(d, [arrival_clock phase d + 3])]"
          using st 2 by (simp add: streaming_def partial_issue_def issued_before_def)
        moreover have "map_of (finished phase ds) d = None" using fin by (simp add: map_of_eq_None_iff)
        ultimately have "issued_words s d = [arrival_clock phase d + 3]" by (simp add: issued_words_def map_add_def)
        then have "request_part phase t s = Inr ?s" using st fin 2 iss update_append [of d "finished phase ds"]
          by (simp add: streaming_def request_part_def t tile_slot outstanding_between_def partial_issue_def
              issued_before_def TILE_RESPONSE_DELAY_def)
        moreover have "streaming phase ds (Some d) pend (outstanding_before (v + 1)) (issued_before (v + 1)) ?s"
          using st 2 t by (simp add: streaming_def outstanding_before_def issued_before_def partial_issue_def)
        ultimately show ?thesis using keep by blast
      qed
    qed
  qed
qed

lemma response_keeps:
  assumes "after_arrival phase objs t s"
  shows "\<exists>s'. response_part t s = Inr s' \<and> after_response phase objs t s'"
proof -
  obtain ds cur pend where arr: "arranged phase objs ds cur pend (t + 1)"
    and u: "\<forall>d. cur = Some d \<longrightarrow> 0 \<le> t - arrival_clock phase d \<and> t - arrival_clock phase d \<le> 9"
    and p: "\<forall>d e. cur = Some d \<longrightarrow> pend = Some e \<longrightarrow> e = d + 1 \<and> t - arrival_clock phase d \<in> {8, 9}"
    and s: "case cur of None \<Rightarrow> streaming phase ds None pend None [] s
      | Some d \<Rightarrow> streaming phase ds cur pend (outstanding_before (t - arrival_clock phase d))
                    (issued_before (t - arrival_clock phase d)) s"
    using assms(1) unfolding after_arrival_def by blast
  show ?thesis
  proof (cases cur)
    case None
    then have "response_part t s = Inr s" using s by (simp add: streaming_def response_part_def)
    moreover have "after_response phase objs t s"
      unfolding after_response_def using arr s None by (intro exI [of _ ds] exI [of _ cur] exI [of _ pend]) simp
    ultimately show ?thesis by blast
  next
    case (Some d)
    define v where "v = t - arrival_clock phase d"
    have t: "t = arrival_clock phase d + v" by (simp add: v_def)
    have v: "0 \<le> v" "v \<le> 9" using u Some by (auto simp: v_def)
    have st: "streaming phase ds (Some d) pend (outstanding_before v) (issued_before v) s"
      using s Some by (simp add: v_def)
    show ?thesis
    proof (cases "v = 9")
      case False
      have keep: "after_response phase objs t s'"
        if "streaming phase ds (Some d) pend (outstanding_between v) (issued_before v) s'" for s'
        unfolding after_response_def using arr p Some v False that
        by (intro exI [of _ ds] exI [of _ cur] exI [of _ pend]) (auto simp: v_def)
      show ?thesis
      proof (cases "v = 5")
        case True
        let ?s = "s\<lparr>st_outstanding := None\<rparr>"
        have "response_part t s = Inr ?s"
          using st True t by (simp add: streaming_def response_part_def outstanding_before_def Let_def)
        moreover have "streaming phase ds (Some d) pend (outstanding_between v) (issued_before v) ?s"
          using st True by (simp add: streaming_def outstanding_between_def)
        ultimately show ?thesis using keep by blast
      next
        case other: False
        have "response_part t s = Inr s" using st other False t
          by (auto simp: streaming_def response_part_def outstanding_before_def Let_def)
        moreover have "outstanding_between v = outstanding_before v"
          using other False by (auto simp: outstanding_before_def outstanding_between_def)
        ultimately show ?thesis using keep st by auto
      qed
    next
      case True
      let ?s = "s\<lparr>st_outstanding := None, st_accepted := ds @ [d], st_accepted_at := st_accepted_at s @ [t + 1],
         st_current := st_pending s, st_pending := None\<rparr>"
      have step: "response_part t s = Inr ?s"
        using st True t by (simp add: streaming_def response_part_def outstanding_before_def Let_def)
      have arr': "arranged phase objs (ds @ [d]) pend None (t + 1)"
        using arr Some by (auto simp: arranged_def)
      have st': "streaming phase (ds @ [d]) pend None None [] ?s"
        using st True t by (cases pend) (auto simp: streaming_def finished_def partial_issue_def issued_before_def)
      have next': "t - arrival_clock phase e = 1" if "pend = Some e" for e
        using p Some that True arrival_gap [of phase e d] by (auto simp: v_def)
      have "after_response phase objs t ?s"
        unfolding after_response_def using arr' st' next'
        by (intro exI [of _ "ds @ [d]"] exI [of _ pend] exI [of _ None])
          (auto simp: outstanding_between_def issued_before_def split: option.splits)
      then show ?thesis using step by blast
    qed
  qed
qed

lemma arrival_keeps:
  assumes "before_clock phase objs t s" and "sorted_wrt (<) objs"
  shows "\<exists>s'. arrival_part phase (map (\<lambda>d. (arrival_clock phase d, d)) objs) t s = Inr s' \<and> after_arrival phase objs t s'"
proof -
  let ?events = "map (\<lambda>d. (arrival_clock phase d, d)) objs"
  obtain ds cur pend where arr: "arranged phase objs ds cur pend t"
    and u: "\<forall>d. cur = Some d \<longrightarrow> 1 \<le> t - arrival_clock phase d \<and> t - arrival_clock phase d \<le> 9"
    and p: "\<forall>d e. cur = Some d \<longrightarrow> pend = Some e \<longrightarrow> e = d + 1 \<and> t - arrival_clock phase d = 9"
    and s: "case cur of None \<Rightarrow> streaming phase ds None pend None [] s
      | Some d \<Rightarrow> streaming phase ds cur pend (outstanding_before (t - arrival_clock phase d))
                    (issued_before (t - arrival_clock phase d)) s"
    using assms(1) unfolding before_clock_def by blast
  obtain skipped future where parts: "objs = ds @ opt_list cur @ opt_list pend @ skipped @ future"
    and limit: "length (ds @ opt_list cur @ opt_list pend) \<le> 32"
      "skipped \<noteq> [] \<longrightarrow> length (ds @ opt_list cur @ opt_list pend) = 32"
    and past: "\<forall>d\<in>set (ds @ opt_list cur @ opt_list pend @ skipped). arrival_clock phase d < t"
    and later: "\<forall>d\<in>set future. t \<le> arrival_clock phase d"
    using arr unfolding arranged_def by blast
  have load: "int (length (st_accepted s)) + (if st_current s \<noteq> None then 1 else 0) + (if st_pending s \<noteq> None then 1 else 0) =
      int (length (ds @ opt_list cur @ opt_list pend))"
    using s by (cases cur; cases pend) (auto simp: streaming_def)
  have keep: "after_arrival phase objs t s" if "arranged phase objs ds cur pend (t + 1)"
    unfolding after_arrival_def using that u p s
    by (intro exI [of _ ds] exI [of _ cur] exI [of _ pend]) (auto split: option.splits)
  show ?thesis
  proof (cases "map_of ?events t")
    case None
    then have none: "\<forall>d\<in>set objs. arrival_clock phase d \<noteq> t" using no_arrival_event by blast
    have "arranged phase objs ds cur pend (t + 1)"
    proof (rule arrangedI [OF parts limit])
      show "arrival_clock phase d < t + 1" if "d \<in> set (ds @ opt_list cur @ opt_list pend @ skipped)" for d
        using past that by fastforce
      show "t + 1 \<le> arrival_clock phase d" if "d \<in> set future" for d
        using later that none parts by (auto simp: zless_imp_add1_zle order_le_less)
    qed
    then show ?thesis using keep None by (simp add: arrival_part_def)
  next
    case (Some e)
    then have e: "e \<in> set objs" "arrival_clock phase e = t" using arrival_event by blast+
    then have "e \<in> set future" using parts past by auto
    then obtain rest where rest: "future = e # rest"
    proof (cases future)
      case (Cons f rest)
      have "sorted_wrt (<) (f # rest)" using assms(2) parts Cons by (simp add: sorted_wrt_append)
      moreover have "t \<le> arrival_clock phase f" using later Cons by simp
      ultimately have "e = f" using \<open>e \<in> set future\<close> e(2) Cons by (auto simp: arrival_clock_def)
      then show thesis using that Cons by simp
    qed simp
    have "sorted_wrt (<) (e # rest)" using assms(2) parts rest by (simp add: sorted_wrt_append)
    then have later': "\<forall>d\<in>set rest. t + 1 \<le> arrival_clock phase d" using e(2) by (auto simp: arrival_clock_def)
    have past': "d \<in> set (ds @ opt_list cur @ opt_list pend @ skipped) \<Longrightarrow> arrival_clock phase d < t + 1" for d
      using past by fastforce
    have slot: "arbiter_phase phase t = 3 \<or> arbiter_phase phase t = 7" using arrival_slot [of phase e] e(2) by simp
    show ?thesis
    proof (cases "length (ds @ opt_list cur @ opt_list pend) = 32")
      case True
      then have "arranged phase objs ds cur pend (t + 1)"
        using parts rest past' later' e(2) by (intro arrangedI [of _ _ _ _ "skipped @ [e]" rest]) auto
      then show ?thesis using keep Some load True slot by (simp add: arrival_part_def MAX_OBJECTS_def)
    next
      case False
      then have room: "length (ds @ opt_list cur @ opt_list pend) < 32" "skipped = []" using limit by auto
      show ?thesis
      proof (cases cur)
        case None
        then have idle: "pend = None" using s by (simp add: streaming_def)
        let ?s = "s\<lparr>st_current := Some (new_job phase e)\<rparr>"
        have "arranged phase objs ds (Some e) None (t + 1)"
          using parts rest past' later' e(2) room None idle by (intro arrangedI [of _ _ _ _ "[]" rest]) auto
        then have "after_arrival phase objs t ?s"
          unfolding after_arrival_def using s None idle e(2)
          by (intro exI [of _ ds] exI [of _ "Some e"] exI [of _ None])
            (auto simp: streaming_def outstanding_before_def issued_before_def partial_issue_def)
        moreover have "arrival_part phase ?events t s = Inr ?s"
          using Some load room slot s None e(2) by (simp add: arrival_part_def MAX_OBJECTS_def streaming_def new_job_def)
        ultimately show ?thesis by blast
      next
        case busy: (Some d)
        have "t - arrival_clock phase d = 8 * (e - d)" using e(2) arrival_gap [of phase e d] by simp
        moreover have "1 \<le> t - arrival_clock phase d" "t - arrival_clock phase d \<le> 9" using u busy by auto
        ultimately have v: "t - arrival_clock phase d = 8" "e = d + 1" by presburger+
        then have idle: "pend = None" using p busy by (cases pend) auto
        let ?s = "s\<lparr>st_pending := Some (new_job phase e), st_max_pending := 1\<rparr>"
        have "arranged phase objs ds (Some d) (Some e) (t + 1)"
          using parts rest past' later' e(2) room busy idle by (intro arrangedI [of _ _ _ _ "[]" rest]) auto
        then have "after_arrival phase objs t ?s"
          unfolding after_arrival_def using s busy idle v
          by (intro exI [of _ ds] exI [of _ "Some d"] exI [of _ "Some e"]) (auto simp: streaming_def)
        moreover have "arrival_part phase ?events t s = Inr ?s"
          using Some load room slot s busy idle e(2) by (simp add: arrival_part_def MAX_OBJECTS_def streaming_def new_job_def)
        ultimately show ?thesis by blast
      qed
    qed
  qed
qed

section \<open>The clock loop\<close>

lemma clock_step_keeps:
  assumes "before_clock phase objs t s" and "sorted_wrt (<) objs"
  shows "\<exists>s'. clock_step phase (map (\<lambda>d. (arrival_clock phase d, d)) objs) t s = Inr s' \<and> before_clock phase objs (t + 1) s'"
proof -
  have "distinct objs" using assms(2) strict_sorted_iff by blast
  obtain a where a: "arrival_part phase (map (\<lambda>d. (arrival_clock phase d, d)) objs) t s = Inr a" "after_arrival phase objs t a"
    using arrival_keeps [OF assms] by blast
  obtain b where b: "response_part t a = Inr b" "after_response phase objs t b" using response_keeps [OF a(2)] by blast
  then show ?thesis using request_keeps [OF b(2) \<open>distinct objs\<close>] a by (simp add: clock_step_def)
qed

lemma clocks_keep:
  assumes "before_clock phase objs 0 s" and "sorted_wrt (<) objs" and "0 \<le> n"
  shows "\<exists>s'. fold_res (clock_step phase (map (\<lambda>d. (arrival_clock phase d, d)) objs)) [0..n - 1] s = Inr s' \<and> before_clock phase objs n s'"
  using assms(3)
proof (induction n rule: int_ge_induct)
  case base
  then show ?case using assms(1) by simp
next
  case (step i)
  let ?step = "clock_step phase (map (\<lambda>d. (arrival_clock phase d, d)) objs)"
  have split: "[0..i + 1 - 1] = [0..i - 1] @ [i]" using step.hyps upto_rec2 [of 0 i] by simp
  obtain s1 where s1: "fold_res ?step [0..i - 1] s = Inr s1" "before_clock phase objs i s1" using step.IH by blast
  obtain s2 where "?step i s1 = Inr s2" "before_clock phase objs (i + 1) s2" using clock_step_keeps [OF s1(2) assms(2)] by blast
  then show ?case using s1(1) unfolding split by (simp add: fold_res_append)
qed

lemma before_first_clock:
  assumes "\<forall>d\<in>set objs. 0 \<le> d"
  shows "before_clock phase objs 0 stream_start"
proof -
  have "arranged phase objs [] None None 0"
    using assms by (intro arrangedI [of _ _ _ _ "[]" objs]) (auto simp: arrival_clock_def)
  then show ?thesis
    unfolding before_clock_def
    by (intro exI [of _ "[]"] exI [of _ None]) (auto simp: streaming_def stream_start_def finished_def)
qed

text \<open>When the loop stops, every arrival lies far enough back for the streamer to be idle.\<close>

lemma before_last_clock:
  assumes "before_clock phase objs 1085 s" and "\<forall>d\<in>set objs. d < 128"
  shows "streaming phase (take 32 objs) None None None [] s"
proof -
  obtain ds cur pend where arr: "arranged phase objs ds cur pend 1085"
    and u: "\<forall>d. cur = Some d \<longrightarrow> 1 \<le> 1085 - arrival_clock phase d \<and> 1085 - arrival_clock phase d \<le> 9"
    and s: "case cur of None \<Rightarrow> streaming phase ds None pend None [] s
      | Some d \<Rightarrow> streaming phase ds cur pend (outstanding_before (1085 - arrival_clock phase d))
                    (issued_before (1085 - arrival_clock phase d)) s"
    using assms(1) unfolding before_clock_def by blast
  obtain skipped future where parts: "objs = ds @ opt_list cur @ opt_list pend @ skipped @ future"
    and limit: "length (ds @ opt_list cur @ opt_list pend) \<le> 32"
      "skipped \<noteq> [] \<longrightarrow> length (ds @ opt_list cur @ opt_list pend) = 32"
    and later: "\<forall>d\<in>set future. 1085 \<le> arrival_clock phase d"
    using arr unfolding arranged_def by blast
  have early: "arrival_clock phase d < 1026" if "d \<in> set objs" for d
    using assms(2) that pos_mod_bound [of 4 "1 - phase"] by (auto simp: arrival_clock_def dest!: bspec)
  have "cur = None" using u parts early by (cases cur) force+
  moreover have "future = []" using later parts early by (cases future) force+
  moreover from calculation have "pend = None" using s by (simp add: streaming_def)
  ultimately have "take 32 objs = ds" "streaming phase ds None None None [] s" using parts limit s by auto
  then show ?thesis by simp
qed

section \<open>The deadline\<close>

lemma first_ce_bounds:
  assumes "c \<le> clock + FAST_CE_CLOCKS"
  shows "clock < first_ce_strictly_after clock c \<and> first_ce_strictly_after clock c \<le> clock + FAST_CE_CLOCKS \<and>
    (first_ce_strictly_after clock c - c) mod FAST_CE_CLOCKS = 0 \<and> c \<le> first_ce_strictly_after clock c"
  using assms
proof (induction clock c rule: first_ce_strictly_after.induct)
  case (1 clock c)
  show ?case
  proof (cases "c \<le> clock")
    case True
    have "(first_ce_strictly_after clock (c + FAST_CE_CLOCKS) - c) mod FAST_CE_CLOCKS =
        (first_ce_strictly_after clock (c + FAST_CE_CLOCKS) - (c + FAST_CE_CLOCKS)) mod FAST_CE_CLOCKS"
      unfolding FAST_CE_CLOCKS_def by presburger
    then show ?thesis using 1 True by (subst (1 2 3 4) first_ce_strictly_after.simps) (auto simp: FAST_CE_CLOCKS_def)
  next
    case False
    then show ?thesis using 1 by (subst (1 2 3 4) first_ce_strictly_after.simps) simp
  qed
qed

lemma run_stream_value:
  assumes active: "sorted active" "distinct active" "set active \<subseteq> {0..<128}"
  shows "\<exists>r. run_stream phase sprite_count active (map (\<lambda>d. (d, arrival_clock phase d)) [0..127]) = Inr r \<and>
     cr_accepted r = expected_objects sprite_count active \<and> 0 \<le> cr_start_offset r \<and> cr_start_offset r \<le> 2 \<and>
     cr_tile_requests r = 2 * int (length (cr_accepted r))"
proof -
  let ?objs = "objects sprite_count active"
  let ?events = "map (\<lambda>d. (arrival_clock phase d, d)) ?objs"
  have sorted: "sorted_wrt (<) ?objs" using active by (simp add: objects_def sorted_wrt_filter strict_sorted_iff)
  have range: "\<forall>d\<in>set ?objs. 0 \<le> d \<and> d < 128" using active(3) by (auto simp: objects_def)
  have expected: "expected_objects sprite_count active = take 32 ?objs"
    by (simp add: expected_objects_def objects_def MAX_OBJECTS_def)
  have "before_clock phase ?objs 0 stream_start" using range by (intro before_first_clock) simp
  from clocks_keep [OF this sorted, of 1085] obtain s
    where run: "fold_res (clock_step phase ?events) [0..1084] stream_start = Inr s" and "before_clock phase ?objs 1085 s"
    by auto
  then have done': "streaming phase (take 32 ?objs) None None None [] s" using range by (intro before_last_clock) auto
  have checks: "stream_checks (expected_objects sprite_count active) s = Inr ()"
    using done' by (simp add: stream_checks_def streaming_def expected finished_def list_all_iff)
  have "\<forall>c\<in>set (st_accepted_at s). c \<le> 1035"
  proof -
    have "arrival_clock phase d + 10 \<le> 1035" if "d \<in> set (take 32 ?objs)" for d
      using range in_set_takeD [OF that] pos_mod_bound [of 4 "1 - phase"] by (force simp: arrival_clock_def)
    then show ?thesis using done' by (auto simp: streaming_def)
  qed
  moreover have "\<forall>c\<in>set (st_accepted_at s). 0 \<le> c"
  proof -
    have "0 \<le> arrival_clock phase d + 10" if "d \<in> set (take 32 ?objs)" for d
      using range in_set_takeD [OF that] pos_mod_sign [of 4 "1 - phase"] by (force simp: arrival_clock_def)
    then show ?thesis using done' by (auto simp: streaming_def)
  qed
  ultimately obtain start where start: "start = (case (if st_accepted_at s = [] then None else Some (last (st_accepted_at s))) of
        None \<Rightarrow> 1028 | Some clock \<Rightarrow> first_ce_strictly_after clock 1028)"
    and window: "(start - 1028) mod 4 = 0" "1028 \<le> start" "start \<le> 1039"
  proof (cases "st_accepted_at s = []")
    case False
    then have "last (st_accepted_at s) \<le> 1035" using \<open>\<forall>c\<in>set (st_accepted_at s). c \<le> 1035\<close> by simp
    show thesis
    proof (cases "1028 \<le> last (st_accepted_at s)")
      case True
      then show thesis using first_ce_bounds [of 1028 "last (st_accepted_at s)"] False that
          \<open>last (st_accepted_at s) \<le> 1035\<close> by (simp add: FAST_CE_CLOCKS_def)
    next
      case early: False
      then have "first_ce_strictly_after (last (st_accepted_at s)) 1028 = 1028"
        by (subst first_ce_strictly_after.simps) simp
      then show thesis using False that by simp
    qed
  qed simp
  have offset: "0 \<le> (start - 1028) div 4" "(start - 1028) div 4 \<le> 2" using window by presburger+
  have table: "length ?events = length (filter (\<lambda>d. d < sprite_count) active)" by (simp add: objects_def)
  have accepted: "st_accepted s = expected_objects sprite_count active"
    "st_words_issued s = 2 * int (length (expected_objects sprite_count active))"
    using done' by (simp_all add: streaming_def expected)
  show ?thesis
    using run checks offset window accepted table
    unfolding run_stream_def arrival_table_value [OF active] Let_def start
    by (cases "st_accepted_at s = []") (simp_all add: OAM_WORDS_def FAST_CE_CLOCKS_def SPRITE_PREROLL_CYCLES_def)
qed

text \<open>
  C29: Row zero starts in time for every sprite table. For each of the eight boundary phases, every sprite
  count up to 128 and every choice of active descriptors, \<open>run_case\<close> returns: none of its assertions
  fails, the objects accepted are the first 32 active descriptors below the count in ascending
  order, each with two tile requests, and row zero starts at most two enabled clocks late.
\<close>
theorem sprite_stream_meets_deadline:
  assumes "0 \<le> boundary_phase" "boundary_phase < 8" and "0 \<le> sprite_count" "sprite_count \<le> 128"
    and "set active_descriptors \<subseteq> {0..<128}"
  shows "\<exists>r. run_case boundary_phase sprite_count active_descriptors = Some (Inr r) \<and>
     cr_accepted r = take 32 (filter (\<lambda>d. d < sprite_count) (sort (remdups active_descriptors))) \<and>
     0 \<le> cr_start_offset r \<and> cr_start_offset r \<le> 2 \<and> cr_tile_requests r = 2 * int (length (cr_accepted r))"
proof -
  let ?active = "sort (remdups active_descriptors)"
  have "list_all (\<lambda>d. 0 \<le> d \<and> d < 128) ?active" using assms(5) by (auto simp: list_all_iff)
  then show ?thesis
    using run_stream_value [of ?active boundary_phase sprite_count] assms
    by (simp add: run_case_def descriptor_arrivals_value ARBITER_SLOTS_def expected_objects_def MAX_OBJECTS_def)
qed

text \<open>The last 32 descriptors of a full table, at the latest phase.\<close>

theorem sprite_stream_meets_deadline_witness:
  "\<exists>r. run_case 2 128 [96..127] = Some (Inr r) \<and> cr_accepted r = [96..127] \<and> cr_start_offset r \<le> 2"
proof -
  have eligible: "filter (\<lambda>d. d < 128) (sort (remdups [96..127])) = [96..127 :: int]"
    by (simp add: distinct_remdups_id sorted_sort_id filter_id_conv del: upto_rec_numeral)
  have "set [96..127] \<subseteq> {0..<128 :: int}" by auto
  then show ?thesis
    using sprite_stream_meets_deadline [of 2 128 "[96..127]"] eligible by auto
qed

end
