(* ===== verification/Effects.thy ===== *)
theory Effects
  imports Swan_Prelude
begin

text \<open>
  Programs with a state and exceptions: an operation returns its result and the state it leaves,
  also when it raises. \<open>wp m Q E s\<close> says that \<open>m\<close>, started in \<open>s\<close>, ends with a result and a state
  in \<open>Q\<close>, or with an exception and a state in \<open>E\<close>; its equations turn a property of a program
  into a property of its basic operations.
\<close>

section \<open>Operations\<close>

type_synonym ('s, 'a) eff = "'s \<Rightarrow> 'a res \<times> 's"

definition ereturn :: "'a \<Rightarrow> ('s, 'a) eff" where
  "ereturn x s = (Inr x, s)"

definition eraise :: "py_error \<Rightarrow> ('s, 'a) eff" where
  "eraise e s = (Inl e, s)"

definition ebind :: "('s, 'a) eff \<Rightarrow> ('a \<Rightarrow> ('s, 'b) eff) \<Rightarrow> ('s, 'b) eff" where
  "ebind m f s = (case m s of (Inl e, t) \<Rightarrow> (Inl e, t) | (Inr x, t) \<Rightarrow> f x t)"

definition elift :: "'a res \<Rightarrow> ('s, 'a) eff" where
  "elift r s = (r, s)"

definition eguard :: "bool \<Rightarrow> py_error \<Rightarrow> ('s, unit) eff" where
  "eguard ok e = (if ok then ereturn () else eraise e)"

text \<open>\<open>try ... except\<close>: the handler sees every exception and may raise it again.\<close>

definition ecatch :: "('s, 'a) eff \<Rightarrow> (py_error \<Rightarrow> ('s, 'a) eff) \<Rightarrow> ('s, 'a) eff" where
  "ecatch m h s = (case m s of (Inl e, t) \<Rightarrow> h e t | (Inr x, t) \<Rightarrow> (Inr x, t))"

text \<open>\<open>try ... except OSError: raise ...\<close>: another exception in place of a system error.\<close>

definition os_errors_as :: "py_error \<Rightarrow> ('s, 'a) eff \<Rightarrow> ('s, 'a) eff" where
  "os_errors_as e' m = ecatch m (\<lambda>e. case e of OsErrno n \<Rightarrow> eraise e' | _ \<Rightarrow> eraise e)"

text \<open>A cleanup that runs when the body raises; the exception is raised again afterwards.\<close>

definition eon_error :: "('s, 'a) eff \<Rightarrow> ('s, unit) eff \<Rightarrow> ('s, 'a) eff" where
  "eon_error m c = ecatch m (\<lambda>e. ebind c (\<lambda>_. eraise e))"

text \<open>A loop over a list whose body may raise, and one that collects the results.\<close>

fun efold :: "('e \<Rightarrow> 'a \<Rightarrow> ('s, 'a) eff) \<Rightarrow> 'e list \<Rightarrow> 'a \<Rightarrow> ('s, 'a) eff" where
  "efold f [] a = ereturn a"
| "efold f (x # xs) a = ebind (f x a) (efold f xs)"

text \<open>
  A \<open>try\<close> block around a loop whose handler needs what the loop has collected so far: the loop ends
  with the exception, if any, as a value beside the collected state.
\<close>

fun eloop :: "('e \<Rightarrow> 'a \<Rightarrow> ('s, py_error option \<times> 'a) eff) \<Rightarrow> 'e list \<Rightarrow> 'a \<Rightarrow>
    ('s, py_error option \<times> 'a) eff" where
  "eloop f [] a = ereturn (None, a)"
| "eloop f (x # xs) a = ebind (f x a) (\<lambda>(stop, b).
     case stop of None \<Rightarrow> eloop f xs b | Some e \<Rightarrow> ereturn (Some e, b))"

definition etry :: "('s, 'a) eff \<Rightarrow> ('s, 'a res) eff" where
  "etry m s = (case m s of (r, t) \<Rightarrow> (Inr r, t))"

lemma ebind_cong [fundef_cong]:
  "s = s' \<Longrightarrow> m s' = m' s' \<Longrightarrow> (\<And>x t. m' s' = (Inr x, t) \<Longrightarrow> f x t = f' x t) \<Longrightarrow>
   ebind m f s = ebind m' f' s'"
  by (auto simp: ebind_def split: prod.splits sum.splits)

lemma ebind_Inr [res_simps]:
  "ebind m f s = (Inr y, t) \<longleftrightarrow> (\<exists>x u. m s = (Inr x, u) \<and> f x u = (Inr y, t))"
  by (auto simp: ebind_def split: prod.splits sum.splits)

lemma eff_basic [res_simps]:
  "ereturn x s = (Inr y, t) \<longleftrightarrow> y = x \<and> t = s"
  "eraise e s = (Inr y, t) \<longleftrightarrow> False"
  "elift r s = (r', t) \<longleftrightarrow> r' = r \<and> t = s"
  by (auto simp: ereturn_def eraise_def elift_def)

lemma eguard_Inr [res_simps]: "eguard ok e s = (Inr u, t) \<longleftrightarrow> ok \<and> t = s"
  by (auto simp: eguard_def ereturn_def eraise_def)

section \<open>Weakest preconditions\<close>

definition wp :: "('s, 'a) eff \<Rightarrow> ('a \<Rightarrow> 's \<Rightarrow> bool) \<Rightarrow> (py_error \<Rightarrow> 's \<Rightarrow> bool) \<Rightarrow> 's \<Rightarrow> bool" where
  "wp m Q E s = (case m s of (Inl e, t) \<Rightarrow> E e t | (Inr x, t) \<Rightarrow> Q x t)"

named_theorems wp_simps \<open>equations of wp for the ways programs are put together\<close>

lemma wp_basic [wp_simps]:
  "wp (ereturn x) Q E = Q x"
  "wp (eraise e) Q E = E e"
  "wp (elift r) Q E = (case r of Inl e \<Rightarrow> E e | Inr x \<Rightarrow> Q x)"
  by (simp_all add: fun_eq_iff wp_def ereturn_def eraise_def elift_def split: sum.splits)

lemma wp_guard [wp_simps]: "wp (eguard ok e) Q E = (if ok then Q () else E e)"
  by (simp add: eguard_def wp_basic)

lemma wp_bind [wp_simps]: "wp (ebind m f) Q E = wp m (\<lambda>x. wp (f x) Q E) E"
  by (simp add: fun_eq_iff wp_def ebind_def split: prod.splits sum.splits)

lemma wp_catch [wp_simps]: "wp (ecatch m h) Q E = wp m Q (\<lambda>e. wp (h e) Q E)"
  by (simp add: fun_eq_iff wp_def ecatch_def split: prod.splits sum.splits)

lemma wp_try [wp_simps]: "wp (etry m) Q E = wp m (\<lambda>x. Q (Inr x)) (\<lambda>e. Q (Inl e))"
  by (simp add: fun_eq_iff wp_def etry_def split: prod.splits sum.splits)

lemma wp_on_error [wp_simps]: "wp (eon_error m c) Q E = wp m Q (\<lambda>e. wp c (\<lambda>_. E e) E)"
  by (simp add: eon_error_def wp_simps)

lemma wp_if [wp_simps]: "wp (if b then m else n) Q E = (if b then wp m Q E else wp n Q E)"
  by simp

lemma wp_option [wp_simps]:
  "wp (case x of None \<Rightarrow> m | Some y \<Rightarrow> f y) Q E = (case x of None \<Rightarrow> wp m Q E | Some y \<Rightarrow> wp (f y) Q E)"
  by (simp split: option.splits)

lemma wp_prod [wp_simps]: "wp (case x of (a, b) \<Rightarrow> f a b) Q E = (case x of (a, b) \<Rightarrow> wp (f a b) Q E)"
  by (simp split: prod.splits)

lemma wp_prod_arg [wp_simps]:
  "wp ((case x of (a, b) \<Rightarrow> f a b) z) Q E = (case x of (a, b) \<Rightarrow> wp (f a b z) Q E)"
  by (simp split: prod.splits)

lemma wp_sum [wp_simps]:
  "wp (case x of Inl e \<Rightarrow> f e | Inr y \<Rightarrow> g y) Q E =
     (case x of Inl e \<Rightarrow> wp (f e) Q E | Inr y \<Rightarrow> wp (g y) Q E)"
  by (simp split: sum.splits)

lemma wp_mono:
  assumes "wp m Q E s"
    and "\<And>x t. Q x t \<Longrightarrow> Q' x t" and "\<And>e t. E e t \<Longrightarrow> E' e t"
  shows "wp m Q' E' s"
  using assms by (auto simp: wp_def split: prod.splits sum.splits)

lemma wp_os_errors_as:
  assumes "wp m Q (\<lambda>e t. E e t \<and> E e' t) s"
  shows "wp (os_errors_as e' m) Q E s"
proof -
  have "wp (case e of OsErrno n \<Rightarrow> eraise e' | _ \<Rightarrow> eraise e) Q E t" if "E e t" "E e' t" for e t
    using that by (cases e) (simp_all add: wp_simps)
  then show ?thesis
    unfolding os_errors_as_def wp_catch by (intro wp_mono [OF assms]) auto
qed

lemma wp_conj:
  assumes "wp m Q E s" and "wp m Q' E' s"
  shows "wp m (\<lambda>x t. Q x t \<and> Q' x t) (\<lambda>e t. E e t \<and> E' e t) s"
  using assms by (auto simp: wp_def split: prod.splits sum.splits)

lemma wp_Inr: "wp m Q E s \<Longrightarrow> m s = (Inr x, t) \<Longrightarrow> Q x t"
  by (simp add: wp_def)

lemma wp_Inl: "wp m Q E s \<Longrightarrow> m s = (Inl e, t) \<Longrightarrow> E e t"
  by (simp add: wp_def)

lemma wpI: "(\<And>x t. m s = (Inr x, t) \<Longrightarrow> Q x t) \<Longrightarrow> (\<And>e t. m s = (Inl e, t) \<Longrightarrow> E e t) \<Longrightarrow> wp m Q E s"
  by (auto simp: wp_def split: prod.splits sum.splits)

text \<open>Loops: a condition on the collected state and the remaining elements.\<close>

lemma wp_efold:
  assumes "\<And>x xs a s. x \<in> set ys \<Longrightarrow> I a s \<Longrightarrow> wp (f x a) I E s"
    and "I a s"
  shows "wp (efold f ys a) I E s"
  using assms
proof (induction ys arbitrary: a s)
  case Nil
  then show ?case by (simp add: wp_simps)
next
  case (Cons y ys)
  have "wp (f y a) I E s" by (rule Cons.prems(1)) (simp_all add: Cons.prems(2))
  then show ?case using Cons.IH Cons.prems(1)
    by (auto simp: wp_simps intro: wp_mono)
qed

lemma wp_eloop:
  assumes "\<And>x xs a s. I (x # xs) a s \<Longrightarrow>
      wp (f x a) (\<lambda>(stop, b) t. case stop of None \<Rightarrow> I xs b t | Some e \<Rightarrow> Q (Some e, b) t) E s"
    and "\<And>a s. I [] a s \<Longrightarrow> Q (None, a) s"
    and "I ys a s"
  shows "wp (eloop f ys a) Q E s"
  using assms(3)
proof (induction ys arbitrary: a s)
  case Nil
  then show ?case by (simp add: wp_simps assms(2))
next
  case (Cons y ys)
  show ?case
    using assms(1) [OF Cons.prems] Cons.IH
    by (auto simp: wp_simps elim!: wp_mono split: option.splits)
qed

text \<open>
  Programs that keep an invariant whatever happens; the rules below reduce it to the operations
  that change the state.
\<close>

definition keeps :: "('s \<Rightarrow> bool) \<Rightarrow> ('s, 'a) eff \<Rightarrow> bool" where
  "keeps I m = (\<forall>s. I s \<longrightarrow> wp m (\<lambda>_. I) (\<lambda>_. I) s)"

named_theorems keep_intros \<open>rules that take a program apart\<close>

lemma keepsI: "(\<And>s. I s \<Longrightarrow> wp m (\<lambda>_. I) (\<lambda>_. I) s) \<Longrightarrow> keeps I m"
  by (simp add: keeps_def)

lemma keepsD: "keeps I m \<Longrightarrow> I s \<Longrightarrow> wp m (\<lambda>_. I) (\<lambda>_. I) s"
  by (simp add: keeps_def)

lemma keeps_state: "keeps I m \<Longrightarrow> I s \<Longrightarrow> m s = (r, t) \<Longrightarrow> I t"
  by (auto simp: keeps_def wp_def split: sum.splits)

lemma keeps_basic [keep_intros]:
  "keeps I (ereturn x)" "keeps I (eraise e)" "keeps I (elift r)"
  by (auto simp: keeps_def wp_simps split: sum.splits)

lemma keeps_guard [keep_intros]: "keeps I (eguard ok e)"
  by (auto simp: keeps_def wp_simps)

lemma keeps_bind [keep_intros]: "keeps I m \<Longrightarrow> (\<And>x. keeps I (f x)) \<Longrightarrow> keeps I (ebind m f)"
  by (auto simp: keeps_def wp_simps intro: wp_mono)

lemma keeps_catch [keep_intros]: "keeps I m \<Longrightarrow> (\<And>e. keeps I (h e)) \<Longrightarrow> keeps I (ecatch m h)"
  by (auto simp: keeps_def wp_simps intro: wp_mono)

lemma keeps_try [keep_intros]: "keeps I m \<Longrightarrow> keeps I (etry m)"
  by (auto simp: keeps_def wp_simps)

lemma keeps_on_error [keep_intros]: "keeps I m \<Longrightarrow> keeps I c \<Longrightarrow> keeps I (eon_error m c)"
  unfolding eon_error_def by (intro keep_intros)

lemma keeps_os_errors_as [keep_intros]: "keeps I m \<Longrightarrow> keeps I (os_errors_as e m)"
  unfolding os_errors_as_def by (intro keep_intros) (auto intro: keep_intros split: py_error.splits)

lemma keeps_if [keep_intros]: "(b \<Longrightarrow> keeps I m) \<Longrightarrow> (\<not> b \<Longrightarrow> keeps I n) \<Longrightarrow> keeps I (if b then m else n)"
  by simp

lemma keeps_case [keep_intros]:
  "keeps I m \<Longrightarrow> (\<And>y. keeps I (f y)) \<Longrightarrow> keeps I (case x of None \<Rightarrow> m | Some y \<Rightarrow> f y)"
  "(\<And>a b. keeps I (g a b)) \<Longrightarrow> keeps I (case p of (a, b) \<Rightarrow> g a b)"
  "(\<And>a b. keeps I (g' a b z)) \<Longrightarrow> keeps I ((case p of (a, b) \<Rightarrow> g' a b) z)"
  "(\<And>e. keeps I (h e)) \<Longrightarrow> (\<And>y. keeps I (k y)) \<Longrightarrow> keeps I (case r of Inl e \<Rightarrow> h e | Inr y \<Rightarrow> k y)"
  by (simp_all split: option.splits prod.splits sum.splits)

lemma keeps_efold [keep_intros]: "(\<And>x a. keeps I (f x a)) \<Longrightarrow> keeps I (efold f xs a)"
  by (induction xs arbitrary: a) (auto intro!: keep_intros)

lemma keeps_eloop [keep_intros]: "(\<And>x a. keeps I (f x a)) \<Longrightarrow> keeps I (eloop f xs a)"
  by (induction xs arbitrary: a) (auto intro!: keep_intros)

text \<open>The exceptions a program can raise.\<close>

definition raises :: "(py_error \<Rightarrow> bool) \<Rightarrow> ('s, 'a) eff \<Rightarrow> bool" where
  "raises P m = (\<forall>s. wp m (\<lambda>_ _. True) (\<lambda>e _. P e) s)"

named_theorems raise_intros \<open>rules for the exceptions of a program\<close>

lemma raises_basic [raise_intros]:
  "raises P (ereturn x)" "P e \<Longrightarrow> raises P (eraise e)" "(\<And>e. r = Inl e \<Longrightarrow> P e) \<Longrightarrow> raises P (elift r)"
  by (auto simp: raises_def wp_simps split: sum.splits)

lemma raises_guard [raise_intros]: "P e \<Longrightarrow> raises P (eguard ok e)"
  by (auto simp: raises_def wp_simps)

lemma raises_bind [raise_intros]: "raises P m \<Longrightarrow> (\<And>x. raises P (f x)) \<Longrightarrow> raises P (ebind m f)"
  by (auto simp: raises_def wp_simps intro: wp_mono)

lemma raises_catch: "raises R m \<Longrightarrow> (\<And>e. R e \<Longrightarrow> raises P (h e)) \<Longrightarrow> raises P (ecatch m h)"
  by (auto simp: raises_def wp_simps intro: wp_mono)

lemma raises_os_errors_as [raise_intros]: "raises P m \<Longrightarrow> P e \<Longrightarrow> raises P (os_errors_as e m)"
  unfolding os_errors_as_def
  by (rule raises_catch [where R = P]) (auto intro: raise_intros split: py_error.splits)

lemma raises_if [raise_intros]:
  "(b \<Longrightarrow> raises P m) \<Longrightarrow> (\<not> b \<Longrightarrow> raises P n) \<Longrightarrow> raises P (if b then m else n)"
  by simp

lemma raises_case [raise_intros]:
  "raises P m \<Longrightarrow> (\<And>y. raises P (f y)) \<Longrightarrow> raises P (case x of None \<Rightarrow> m | Some y \<Rightarrow> f y)"
  "(\<And>a b. raises P (g a b)) \<Longrightarrow> raises P (case p of (a, b) \<Rightarrow> g a b)"
  "(\<And>e. raises P (h e)) \<Longrightarrow> (\<And>y. raises P (k y)) \<Longrightarrow> raises P (case r of Inl e \<Rightarrow> h e | Inr y \<Rightarrow> k y)"
  by (simp_all split: option.splits prod.splits sum.splits)

lemma raises_mono: "raises P m \<Longrightarrow> (\<And>e. P e \<Longrightarrow> R e) \<Longrightarrow> raises R m"
  by (auto simp: raises_def intro: wp_mono)

lemma raises_Inl: "raises P m \<Longrightarrow> m s = (Inl e, t) \<Longrightarrow> P e"
  by (auto simp: raises_def wp_def split: prod.splits sum.splits)

lemma raisesI: "(\<And>s e t. m s = (Inl e, t) \<Longrightarrow> P e) \<Longrightarrow> raises P m"
  by (auto simp: raises_def intro: wpI)

end
