(* ===== verification/Sd_Files.thy ===== *)
theory Sd_Files
  imports Effects
begin

text \<open>
  The files the scripts work on: the standard library's view of a POSIX file system, as a state and
  system calls.

  A disk maps inode numbers to nodes; inode 0 is the root of the host's file system. A directory is
  the list of its entries in the order \<open>listdir\<close> reports them. \<open>dk_fold\<close> says whether names are looked
  up without regard to case, as on the FAT file systems of SD cards. A descriptor is the number of
  the inode it refers to, so directory descriptors stay valid whatever happens to names.

  Every call may fail for a reason the state does not determine: \<open>dk_fault n\<close> is the error of the
  \<open>n\<close>-th call, and the number of bytes a failing write has stored. The answers "no such file" and
  "file exists" are always truthful, so they are not injected. \<open>dk_token\<close> is the stream of random
  tokens. Nothing here is assumed of faults and tokens. Other processes do not change the disk, and
  all inodes are on one device.
\<close>

section \<open>Names and paths\<close>

text \<open>Names are ASCII; \<open>str.casefold\<close> then lowers the letters A to Z.\<close>

definition fold_char :: "char \<Rightarrow> char" where
  "fold_char c = (let n = char_code c in if 65 \<le> n \<and> n \<le> 90 then char_of (n + 32) else c)"

definition casefold :: "string \<Rightarrow> string" where
  "casefold s = map fold_char s"

definition ends_with :: "string \<Rightarrow> string \<Rightarrow> bool" where
  "ends_with end s = (length end \<le> length s \<and> drop (length s - length end) s = end)"

definition starts_with :: "string \<Rightarrow> string \<Rightarrow> bool" where
  "starts_with start s = (take (length start) s = start)"

text \<open>\<open>PurePath.suffix\<close> and \<open>PurePath.stem\<close> of a final component.\<close>

definition last_dot :: "string \<Rightarrow> nat option" where
  "last_dot s = (case filter (\<lambda>i. s ! i = CHR ''.'') (rev [0..<length s]) of [] \<Rightarrow> None | i # _ \<Rightarrow> Some i)"

definition path_suffix :: "string \<Rightarrow> string" where
  "path_suffix s = (case last_dot s of
     Some i \<Rightarrow> if 0 < i \<and> i < length s - 1 then drop i s else []
   | None \<Rightarrow> [])"

definition path_stem :: "string \<Rightarrow> string" where
  "path_stem s = take (length s - length (path_suffix s)) s"

text \<open>\<open>with_suffix\<close> on a path given by its components, and \<open>as_posix\<close>.\<close>

definition with_suffix :: "string \<Rightarrow> string list \<Rightarrow> string list" where
  "with_suffix sfx parts = (if parts = [] then [] else butlast parts @ [path_stem (last parts) @ sfx])"

fun join_path :: "string list \<Rightarrow> string" where
  "join_path [] = []"
| "join_path [p] = p"
| "join_path (p # q # ps) = p @ CHR ''/'' # join_path (q # ps)"

fun split_slash :: "string \<Rightarrow> string \<Rightarrow> string list" where
  "split_slash acc [] = [rev acc]"
| "split_slash acc (c # cs) = (if c = CHR ''/'' then rev acc # split_slash [] cs else split_slash (c # acc) cs)"

text \<open>The components \<open>PurePosixPath(value).parts\<close> of a relative path.\<close>

definition posix_parts :: "string \<Rightarrow> string list" where
  "posix_parts value = filter (\<lambda>p. p \<noteq> [] \<and> p \<noteq> ''.'') (split_slash [] value)"

definition unsafe_char :: "char \<Rightarrow> bool" where
  "unsafe_char c = (char_code c < 0x20 \<or> char_code c = 0x7F)"

section \<open>The disk\<close>

type_synonym ino = nat

datatype node =
    DirNode "(string \<times> ino) list"
  | FileNode "byte list"
  | LinkNode bool "string list"
  | OtherNode

record disk =
  dk_nodes :: "ino \<Rightarrow> node option"
  dk_next :: ino
  dk_fold :: bool
  dk_calls :: nat
  dk_fault :: "nat \<Rightarrow> (errno \<times> nat) option"
  dk_token :: "nat \<Rightarrow> string"
  dk_drawn :: nat

type_synonym 'a fs = "(disk, 'a) eff"

definition name_key :: "disk \<Rightarrow> string \<Rightarrow> string" where
  "name_key d name = (if dk_fold d then casefold name else name)"

definition find_entry :: "disk \<Rightarrow> (string \<times> ino) list \<Rightarrow> string \<Rightarrow> ino option" where
  "find_entry d es name = map_option snd (List.find (\<lambda>(n, _). name_key d n = name_key d name) es)"

definition entries :: "disk \<Rightarrow> ino \<Rightarrow> (string \<times> ino) list" where
  "entries d dir = (case dk_nodes d dir of Some (DirNode es) \<Rightarrow> es | _ \<Rightarrow> [])"

definition entry_of :: "disk \<Rightarrow> ino \<Rightarrow> string \<Rightarrow> ino option" where
  "entry_of d dir name = find_entry d (entries d dir) name"

definition is_dir_node :: "node \<Rightarrow> bool" where
  "is_dir_node n = (case n of DirNode _ \<Rightarrow> True | _ \<Rightarrow> False)"

definition is_link_node :: "node \<Rightarrow> bool" where
  "is_link_node n = (case n of LinkNode _ _ \<Rightarrow> True | _ \<Rightarrow> False)"

definition is_file_node :: "node \<Rightarrow> bool" where
  "is_file_node n = (case n of FileNode _ \<Rightarrow> True | _ \<Rightarrow> False)"

definition node_bytes :: "node \<Rightarrow> byte list" where
  "node_bytes n = (case n of FileNode b \<Rightarrow> b | _ \<Rightarrow> [])"

section \<open>System calls on descriptors\<close>

definition truthful :: "errno \<Rightarrow> bool" where
  "truthful e = (e = ENOENT \<or> e = EEXIST)"

definition syscall :: "'a fs \<Rightarrow> 'a fs" where
  "syscall act d =
     (let d' = d\<lparr>dk_calls := dk_calls d + 1\<rparr>
      in case dk_fault d (dk_calls d) of
           Some (e, _) \<Rightarrow> if truthful e then act d' else (Inl (OsErrno e), d')
         | None \<Rightarrow> act d')"

definition get_state :: "(disk \<Rightarrow> 'a res) \<Rightarrow> 'a fs" where
  "get_state f d = (f d, d)"

definition put_node :: "ino \<Rightarrow> node \<Rightarrow> disk \<Rightarrow> disk" where
  "put_node i n d = d\<lparr>dk_nodes := (dk_nodes d)(i := Some n)\<rparr>"

definition add_entry :: "ino \<Rightarrow> string \<Rightarrow> ino \<Rightarrow> disk \<Rightarrow> disk" where
  "add_entry dir name i d = put_node dir (DirNode (entries d dir @ [(name, i)])) d"

definition drop_entry :: "ino \<Rightarrow> string \<Rightarrow> disk \<Rightarrow> disk" where
  "drop_entry dir name d =
     put_node dir (DirNode (filter (\<lambda>(n, _). name_key d n \<noteq> name_key d name) (entries d dir))) d"

definition is_dir :: "disk \<Rightarrow> ino \<Rightarrow> bool" where
  "is_dir d i = (case dk_nodes d i of Some n \<Rightarrow> is_dir_node n | None \<Rightarrow> False)"

definition new_node :: "ino \<Rightarrow> string \<Rightarrow> node \<Rightarrow> ino fs" where
  "new_node dir name n d =
     (if \<not> is_dir d dir then (Inl (OsErrno ENOTDIR), d)
      else if entry_of d dir name \<noteq> None then (Inl (OsErrno EEXIST), d)
      else let i = dk_next d
           in (Inr i, add_entry dir name i (put_node i n (d\<lparr>dk_next := i + 1\<rparr>))))"

definition sys_mkdir :: "ino \<Rightarrow> string \<Rightarrow> unit fs" where
  "sys_mkdir dir name = syscall (ebind (new_node dir name (DirNode [])) (\<lambda>_. ereturn ()))"

text \<open>\<open>O_CREAT | O_EXCL\<close>.\<close>

definition sys_create :: "ino \<Rightarrow> string \<Rightarrow> ino fs" where
  "sys_create dir name = syscall (new_node dir name (FileNode []))"

text \<open>Writing to the end of a file; a failing write may have stored a part.\<close>

definition store_bytes :: "ino \<Rightarrow> byte list \<Rightarrow> unit fs" where
  "store_bytes i bs d =
     (case dk_nodes d i of
        Some (FileNode old) \<Rightarrow> (Inr (), put_node i (FileNode (old @ bs)) d)
      | _ \<Rightarrow> (Inl (OsErrno EBADF), d))"

definition sys_write :: "ino \<Rightarrow> byte list \<Rightarrow> unit fs" where
  "sys_write i bs d =
     (let d' = d\<lparr>dk_calls := dk_calls d + 1\<rparr>
      in case dk_fault d (dk_calls d) of
           Some (e, k) \<Rightarrow> ebind (store_bytes i (take k bs)) (\<lambda>_. eraise (OsErrno e)) d'
         | None \<Rightarrow> store_bytes i bs d')"

definition sys_sync :: "ino \<Rightarrow> unit fs" where
  "sys_sync i = syscall (ereturn ())"

definition sys_fstat :: "ino \<Rightarrow> node fs" where
  "sys_fstat i = syscall (get_state (\<lambda>d. case dk_nodes d i of None \<Rightarrow> Inl (OsErrno EBADF) | Some n \<Rightarrow> Inr n))"

definition sys_listdir :: "ino \<Rightarrow> string list fs" where
  "sys_listdir dir = syscall (get_state (\<lambda>d.
     if is_dir d dir then Inr (map fst (entries d dir)) else Inl (OsErrno ENOTDIR)))"

definition child_node :: "disk \<Rightarrow> ino \<Rightarrow> string \<Rightarrow> (ino \<times> node) res" where
  "child_node d dir name =
     (if \<not> is_dir d dir then Inl (OsErrno ENOTDIR)
      else case entry_of d dir name of
             None \<Rightarrow> Inl (OsErrno ENOENT)
           | Some i \<Rightarrow> (case dk_nodes d i of None \<Rightarrow> Inl (OsErrno ENOENT) | Some n \<Rightarrow> Inr (i, n)))"

text \<open>\<open>os.stat(name, dir_fd=dir, follow_symlinks=False)\<close>.\<close>

definition sys_stat_at :: "ino \<Rightarrow> string \<Rightarrow> (ino \<times> node) fs" where
  "sys_stat_at dir name = syscall (get_state (\<lambda>d. child_node d dir name))"

text \<open>\<open>O_NOFOLLOW\<close>, without and with \<open>O_DIRECTORY\<close>.\<close>

definition sys_open_at :: "ino \<Rightarrow> string \<Rightarrow> ino fs" where
  "sys_open_at dir name = syscall (get_state (\<lambda>d. rbind (child_node d dir name)
     (\<lambda>(i, n). if is_link_node n then Inl (OsErrno ELOOP) else Inr i)))"

definition sys_open_dir_at :: "ino \<Rightarrow> string \<Rightarrow> ino fs" where
  "sys_open_dir_at dir name = syscall (get_state (\<lambda>d. rbind (child_node d dir name)
     (\<lambda>(i, n). if is_dir_node n then Inr i else Inl (OsErrno ENOTDIR))))"

text \<open>\<open>os.read\<close> at the current offset, and the loops that read to the end or to a limit.\<close>

definition sys_read :: "ino \<Rightarrow> nat \<Rightarrow> nat \<Rightarrow> byte list fs" where
  "sys_read i offset n = syscall (get_state (\<lambda>d.
     case dk_nodes d i of
       Some (FileNode bs) \<Rightarrow> Inr (take n (drop offset bs))
     | Some (DirNode _) \<Rightarrow> Inl (OsErrno EISDIR)
     | _ \<Rightarrow> Inl (OsErrno EINVAL)))"

definition READ_CHUNK :: nat where "READ_CHUNK = 1024 * 1024"

function read_upto :: "ino \<Rightarrow> nat \<Rightarrow> byte list \<Rightarrow> byte list fs" where
  "read_upto i limit acc d =
     (if limit \<le> length acc then ereturn acc d
      else ebind (sys_read i (length acc) (min READ_CHUNK (limit - length acc))) (\<lambda>chunk.
        if chunk = [] then ereturn acc else read_upto i limit (acc @ chunk)) d)"
  by pat_completeness auto
termination
  by (relation "measure (\<lambda>(i, limit, acc, d). limit - length acc)")
    (auto simp: neq_Nil_conv)

declare read_upto.simps [simp del]

text \<open>\<open>renameat2\<close> with \<open>RENAME_NOREPLACE\<close> within one directory, \<open>linkat\<close> and \<open>unlinkat\<close>.\<close>

definition move_entry :: "ino \<Rightarrow> string \<Rightarrow> string \<Rightarrow> unit fs" where
  "move_entry dir src dst d =
     (if \<not> is_dir d dir then (Inl (OsErrno ENOTDIR), d)
      else case entry_of d dir src of
             None \<Rightarrow> (Inl (OsErrno ENOENT), d)
           | Some i \<Rightarrow> if entry_of d dir dst \<noteq> None then (Inl (OsErrno EEXIST), d)
                       else (Inr (), add_entry dir dst i (drop_entry dir src d)))"

definition sys_rename_noreplace :: "ino \<Rightarrow> string \<Rightarrow> string \<Rightarrow> unit fs" where
  "sys_rename_noreplace dir src dst = syscall (move_entry dir src dst)"

definition copy_entry :: "ino \<Rightarrow> string \<Rightarrow> string \<Rightarrow> unit fs" where
  "copy_entry dir src dst d =
     (case child_node d dir src of
        Inl e \<Rightarrow> (Inl e, d)
      | Inr (i, n) \<Rightarrow> if is_dir_node n then (Inl (OsErrno EPERM), d)
                     else if entry_of d dir dst \<noteq> None then (Inl (OsErrno EEXIST), d)
                     else (Inr (), add_entry dir dst i d))"

definition sys_link :: "ino \<Rightarrow> string \<Rightarrow> string \<Rightarrow> unit fs" where
  "sys_link dir src dst = syscall (copy_entry dir src dst)"

definition remove_entry :: "ino \<Rightarrow> string \<Rightarrow> unit fs" where
  "remove_entry dir name d =
     (case child_node d dir name of
        Inl e \<Rightarrow> (Inl e, d)
      | Inr (i, n) \<Rightarrow> if is_dir_node n then (Inl (OsErrno EISDIR), d)
                     else (Inr (), drop_entry dir name d))"

definition sys_unlink :: "ino \<Rightarrow> string \<Rightarrow> unit fs" where
  "sys_unlink dir name = syscall (remove_entry dir name)"

definition draw_token :: "string fs" where
  "draw_token d = (Inr (dk_token d (dk_drawn d)), d\<lparr>dk_drawn := dk_drawn d + 1\<rparr>)"

section \<open>System calls on paths\<close>

text \<open>
  A path is the list of its components from the root. Resolving it follows links, at most forty of
  them; the result is the chain of directory entries that was walked, innermost first, so it gives
  both the inode and the canonical path.
\<close>

definition MAX_LINKS :: nat where "MAX_LINKS = 40"

definition top_ino :: "(string \<times> ino) list \<Rightarrow> ino" where
  "top_ino st = (case st of [] \<Rightarrow> 0 | (_, i) # _ \<Rightarrow> i)"

function walk_path :: "disk \<Rightarrow> nat \<Rightarrow> bool \<Rightarrow> (string \<times> ino) list \<Rightarrow> string list \<Rightarrow> (string \<times> ino) list res" where
  "walk_path d k follow st [] = Inr st"
| "walk_path d k follow st (c # cs) =
     (if c = ''..'' then walk_path d k follow (tl st) cs
      else rbind (child_node d (top_ino st) c) (\<lambda>(i, n).
        case n of
          LinkNode anchored target \<Rightarrow>
            if cs = [] \<and> \<not> follow then Inr ((c, i) # st)
            else (case k of 0 \<Rightarrow> Inl (OsErrno ELOOP)
                  | Suc k' \<Rightarrow> walk_path d k' follow (if anchored then [] else st) (target @ cs))
        | _ \<Rightarrow> walk_path d k follow ((c, i) # st) cs))"
  by pat_completeness auto
termination
  by (relation "measures [\<lambda>(d, k, follow, st, cs). k, \<lambda>(d, k, follow, st, cs). length cs]") auto

definition resolve_ino :: "disk \<Rightarrow> bool \<Rightarrow> string list \<Rightarrow> ino res" where
  "resolve_ino d follow path = rbind (walk_path d MAX_LINKS follow [] path) (\<lambda>st. Inr (top_ino st))"

definition node_at :: "disk \<Rightarrow> bool \<Rightarrow> string list \<Rightarrow> (ino \<times> node) res" where
  "node_at d follow path = rbind (resolve_ino d follow path) (\<lambda>i.
     case dk_nodes d i of None \<Rightarrow> Inl (OsErrno ENOENT) | Some n \<Rightarrow> Inr (i, n))"

definition sys_lstat :: "string list \<Rightarrow> (ino \<times> node) fs" where
  "sys_lstat path = syscall (get_state (\<lambda>d. node_at d False path))"

definition sys_stat :: "string list \<Rightarrow> (ino \<times> node) fs" where
  "sys_stat path = syscall (get_state (\<lambda>d. node_at d True path))"

text \<open>\<open>Path.resolve()\<close> of an existing path.\<close>

definition sys_realpath :: "string list \<Rightarrow> string list fs" where
  "sys_realpath path = syscall (get_state (\<lambda>d.
     rbind (walk_path d MAX_LINKS True [] path) (\<lambda>st. Inr (rev (map fst st)))))"

definition sys_open_path :: "string list \<Rightarrow> ino fs" where
  "sys_open_path path = syscall (get_state (\<lambda>d. rbind (node_at d False path)
     (\<lambda>(i, n). if is_link_node n then Inl (OsErrno ELOOP) else Inr i)))"

definition sys_open_dir_path :: "string list \<Rightarrow> ino fs" where
  "sys_open_dir_path path = syscall (get_state (\<lambda>d. rbind (node_at d False path)
     (\<lambda>(i, n). if is_dir_node n then Inr i else Inl (OsErrno ENOTDIR))))"

text \<open>\<open>os.scandir\<close>: names with the kind of their node, links not followed.\<close>

definition scan_entries :: "disk \<Rightarrow> ino \<Rightarrow> (string \<times> node) list" where
  "scan_entries d dir =
     map (\<lambda>(name, i). (name, case dk_nodes d i of Some n \<Rightarrow> n | None \<Rightarrow> OtherNode)) (entries d dir)"

definition sys_scandir :: "string list \<Rightarrow> (string \<times> node) list fs" where
  "sys_scandir path = syscall (get_state (\<lambda>d. rbind (node_at d True path)
     (\<lambda>(i, n). if is_dir_node n then Inr (scan_entries d i) else Inl (OsErrno ENOTDIR))))"

text \<open>
  \<open>Path.exists\<close> and \<open>Path.is_symlink\<close>: the errors that mean absence are the answer False, other
  errors are raised.
\<close>

definition absence :: "errno \<Rightarrow> bool" where
  "absence e = (e = ENOENT \<or> e = ENOTDIR \<or> e = EBADF \<or> e = ELOOP)"

definition answer_absence :: "bool fs \<Rightarrow> bool fs" where
  "answer_absence m = ecatch m (\<lambda>e. case e of
     OsErrno n \<Rightarrow> if absence n then ereturn False else eraise e | _ \<Rightarrow> eraise e)"

definition path_exists :: "string list \<Rightarrow> bool fs" where
  "path_exists path = answer_absence (ebind (sys_stat path) (\<lambda>_. ereturn True))"

definition path_is_symlink :: "string list \<Rightarrow> bool fs" where
  "path_is_symlink path = answer_absence (ebind (sys_lstat path) (\<lambda>(i, n). ereturn (is_link_node n)))"

end
