(* ===== verification/Save_Layouts.thy ===== *)
theory Save_Layouts
  imports Yokoi_Frames Sd_Files
begin

text \<open>
  The save layouts of cartridges: the checks of a ROM image and the conversions of an inherited save
  in \<^verbatim>\<open>scripts/migrate_cartridge_save_namespace.py\<close>, \<^verbatim>\<open>scripts/migrate_type01_save.py\<close> and
  \<^verbatim>\<open>scripts/migrate_legacy_eeprom_save.py\<close>. A save is the payload of the cartridge's memory, followed
  by a 12-byte clock trailer when the cartridge has a clock; other cores wrote other sizes.
\<close>

section \<open>The cartridge-save migration\<close>

definition MIN_ROM_BYTES :: nat where "MIN_ROM_BYTES = 64 * 1024"
definition MAX_ROM_BYTES :: nat where "MAX_ROM_BYTES = 16 * 1024 * 1024"
definition ROM_BANK_BYTES :: nat where "ROM_BANK_BYTES = 64 * 1024"
definition RTC_BYTES :: nat where "RTC_BYTES = 12"

definition PAYLOAD_BYTES :: "nat \<Rightarrow> nat option" where
  "PAYLOAD_BYTES = map_of
     [(0x00, 0), (0x01, 32 * 1024), (0x02, 32 * 1024), (0x03, 128 * 1024), (0x04, 256 * 1024),
      (0x05, 512 * 1024), (0x10, 128), (0x20, 2048), (0x50, 1024)]"

definition SRAM_TRAILER_TYPES :: "nat list" where
  "SRAM_TRAILER_TYPES = [0x02, 0x03, 0x04, 0x05]"

definition ROM_EXTENSIONS :: "string list" where
  "ROM_EXTENSIONS = [''.ws'', ''.wsc'']"

record rom_metadata =
  rm_relative :: "string list"
  rm_save_type :: nat
  rm_has_rtc :: bool

text \<open>\<open>xs[-n:]\<close>, and the checksum over everything but the last two bytes.\<close>

definition last_bytes :: "nat \<Rightarrow> byte list \<Rightarrow> byte list" where
  "last_bytes n bs = drop (length bs - n) bs"

definition rom_sum :: "byte list \<Rightarrow> nat" where
  "rom_sum rom = sum_list (map unat (take (length rom - 2) rom)) mod 0x10000"

definition stored_sum :: "byte list \<Rightarrow> nat" where
  "stored_sum rom = le_value (last_bytes 2 rom)"

text \<open>Successive checks; the first one that fails raises.\<close>

fun ensure_all :: "(bool \<times> py_error) list \<Rightarrow> unit res" where
  "ensure_all [] = Inr ()"
| "ensure_all ((ok, e) # checks) = (if ok then ensure_all checks else Inl e)"

definition rom_conditions :: "byte list \<Rightarrow> (bool \<times> py_error) list" where
  "rom_conditions rom =
     (let footer = last_bytes 16 rom in
      [(\<not> (length rom < MIN_ROM_BYTES \<or> length rom mod ROM_BANK_BYTES \<noteq> 0),
          MigrationError ''ROM size must be whole 64 KiB banks from 64 KiB to 16 MiB''),
       (footer ! 0 = 0xEA, MigrationError ''ROM footer entry marker is invalid''),
       (footer ! 7 = 0 \<or> footer ! 7 = 1, MigrationError ''ROM footer color flag is invalid''),
       (PAYLOAD_BYTES (unat (footer ! 11)) \<noteq> None, MigrationError ''ROM footer save type is unsupported''),
       (bit (footer ! 12) 2, MigrationError ''ROM footer bus flag is unsupported''),
       (footer ! 13 = 0 \<or> footer ! 13 = 1, MigrationError ''ROM footer RTC flag is invalid''),
       (stored_sum rom = rom_sum rom, MigrationError ''ROM footer checksum mismatch'')])"

definition rom_checks :: "string list \<Rightarrow> byte list \<Rightarrow> rom_metadata res" where
  "rom_checks relative rom =
     rbind (ensure_all (rom_conditions rom)) (\<lambda>_.
       let footer = last_bytes 16 rom
       in Inr \<lparr>rm_relative = relative, rm_save_type = unat (footer ! 11), rm_has_rtc = (footer ! 13 = 1)\<rparr>)"

definition save_relative :: "string list \<Rightarrow> string list" where
  "save_relative rom_relative = with_suffix ''.sav'' rom_relative"

text \<open>
  \<open>_convert_save\<close>; \<open>PAYLOAD_BYTES[save_type]\<close> of a type the table does not have raises.
\<close>

definition convert_save :: "rom_metadata \<Rightarrow> byte list \<Rightarrow> (byte list \<times> string) res" where
  "convert_save m inherited =
     (case PAYLOAD_BYTES (rm_save_type m) of
        None \<Rightarrow> Inl (KeyError ''save_type'')
      | Some payload_size \<Rightarrow>
        let save_type = rm_save_type m;
            rtc = (if rm_has_rtc m then last_bytes RTC_BYTES inherited else []);
            canonical_size = payload_size + (if rm_has_rtc m then RTC_BYTES else 0)
        in if length inherited = canonical_size then Inr (inherited, ''canonical'')
           else if save_type = 0x01 \<and> length inherited = 8 * 1024 + RTC_BYTES then
             Inr (take (8 * 1024) inherited @ replicate (24 * 1024) 0 @ rtc, ''agg type-01 expansion'')
           else if (save_type = 0x10 \<or> save_type = 0x50) \<and> length inherited = 2048 + RTC_BYTES then
             Inr (take payload_size inherited @ rtc, ''agg type-'' @ py_hex 2 save_type @ '' depadding'')
           else if (save_type = 0x20 \<or> save_type \<in> set SRAM_TRAILER_TYPES) \<and> \<not> rm_has_rtc m
                \<and> length inherited = payload_size + RTC_BYTES then
             if take 2 (last_bytes RTC_BYTES inherited) \<noteq> [0x52, 0x54] then
               Inl (MigrationError ''unrecognized trailing data for non-RTC type'')
             else Inr (take payload_size inherited, ''agg non-RTC trailer removal'')
           else Inl (MigrationError ''unrecognized save layout''))"

section \<open>The single-file migrations\<close>

definition TYPE01 :: nat where "TYPE01 = 0x01"
definition LEGACY_SRAM_SIZE :: nat where "LEGACY_SRAM_SIZE = 8 * 1024"
definition CORRECTED_SRAM_SIZE :: nat where "CORRECTED_SRAM_SIZE = 32 * 1024"
definition LEGACY_EEPROM_SIZE :: nat where "LEGACY_EEPROM_SIZE = 2048"

definition EXACT_EEPROM_SIZES :: "nat \<Rightarrow> nat option" where
  "EXACT_EEPROM_SIZES = map_of [(0x10, 128), (0x50, 1024)]"

text \<open>\<open>rom[-5]\<close>.\<close>

definition ram_type :: "byte list \<Rightarrow> nat" where
  "ram_type rom = unat (rom ! (length rom - 5))"

definition validate_rom01 :: "byte list \<Rightarrow> unit res" where
  "validate_rom01 rom =
     rbind (ensure (\<not> length rom < MIN_ROM_BYTES) (ValueError ''ROM is too small for a WonderSwan cartridge image'')) (\<lambda>_.
     rbind (ensure (ram_type rom = TYPE01) (ValueError ''ROM footer save type must be exactly 0x01'')) (\<lambda>_.
     ensure (stored_sum rom = rom_sum rom) (ValueError ''ROM footer checksum mismatch'')))"

definition validate_save01 :: "byte list \<Rightarrow> unit res" where
  "validate_save01 save = ensure (length save = LEGACY_SRAM_SIZE + RTC_BYTES)
     (ValueError ''legacy type-01 Pocket save must be exactly 8204 bytes'')"

definition migrated_type01 :: "byte list \<Rightarrow> byte list \<Rightarrow> byte list res" where
  "migrated_type01 rom save =
     rbind (validate_rom01 rom) (\<lambda>_.
     rbind (validate_save01 save) (\<lambda>_.
     let migrated = take LEGACY_SRAM_SIZE save @ replicate (CORRECTED_SRAM_SIZE - LEGACY_SRAM_SIZE) 0
           @ drop LEGACY_SRAM_SIZE save
     in rbind (ensure (length migrated = CORRECTED_SRAM_SIZE + RTC_BYTES)
          (AssertionError ''internal migrated save size invariant failed'')) (\<lambda>_. Inr migrated)))"

definition validate_rom_eeprom :: "byte list \<Rightarrow> (nat \<times> nat) res" where
  "validate_rom_eeprom rom =
     rbind (ensure (\<not> length rom < MIN_ROM_BYTES) (ValueError ''ROM is too small for a WonderSwan cartridge image'')) (\<lambda>_.
     case EXACT_EEPROM_SIZES (ram_type rom) of
       None \<Rightarrow> Inl (ValueError ''ROM footer save type must be legacy-padded external EEPROM type 0x10 or 0x50'')
     | Some payload_size \<Rightarrow>
         rbind (ensure (stored_sum rom = rom_sum rom) (ValueError ''ROM footer checksum mismatch'')) (\<lambda>_.
         Inr (ram_type rom, payload_size)))"

definition validate_save_eeprom :: "byte list \<Rightarrow> unit res" where
  "validate_save_eeprom save = ensure (length save = LEGACY_EEPROM_SIZE + RTC_BYTES)
     (ValueError ''legacy padded Pocket EEPROM save must be exactly 2060 bytes'')"

definition migrated_eeprom :: "byte list \<Rightarrow> byte list \<Rightarrow> byte list res" where
  "migrated_eeprom rom save =
     rbind (validate_rom_eeprom rom) (\<lambda>(rtype, payload_size).
     rbind (validate_save_eeprom save) (\<lambda>_.
     let payload = take payload_size save;
         rtc = take RTC_BYTES (drop LEGACY_EEPROM_SIZE save);
         migrated = payload @ rtc
     in rbind (ensure (length migrated = payload_size + RTC_BYTES)
          (AssertionError ''internal migrated save size invariant failed'')) (\<lambda>_. Inr migrated)))"

section \<open>What a conversion keeps\<close>

lemmas size_defs = RTC_BYTES_def LEGACY_SRAM_SIZE_def CORRECTED_SRAM_SIZE_def LEGACY_EEPROM_SIZE_def

definition canonical_size :: "rom_metadata \<Rightarrow> nat" where
  "canonical_size m = the (PAYLOAD_BYTES (rm_save_type m)) + (if rm_has_rtc m then RTC_BYTES else 0)"

lemma convert_save_form:
  assumes "convert_save m inherited = Inr (out, how)"
  shows "\<exists>p. PAYLOAD_BYTES (rm_save_type m) = Some p \<and>
    (let rtc = (if rm_has_rtc m then RTC_BYTES else 0);
         k = (if length inherited < p + rtc then 8 * 1024 else p)
     in k \<le> p \<and> k + rtc \<le> length inherited \<and>
        out = take k inherited @ replicate (p - k) 0 @ last_bytes rtc inherited)"
proof -
  from assms obtain p where p: "PAYLOAD_BYTES (rm_save_type m) = Some p"
    by (auto simp: convert_save_def split: option.splits)
  have split_at: "xs = take n xs @ last_bytes k xs" if "length xs = n + k" for n k and xs :: "byte list"
    using that by (simp add: last_bytes_def)
  have sizes: "rm_save_type m = 0x01 \<Longrightarrow> p = 32768" "rm_save_type m = 0x10 \<Longrightarrow> p = 128"
    "rm_save_type m = 0x50 \<Longrightarrow> p = 1024"
    using p by (simp_all add: PAYLOAD_BYTES_def)
  have none: "last_bytes 0 xs = []" for xs :: "byte list" by (simp add: last_bytes_def)
  show ?thesis
    using assms p sizes split_at [of inherited p "if rm_has_rtc m then RTC_BYTES else 0"]
    by (cases "rm_has_rtc m") (auto simp: convert_save_def Let_def none RTC_BYTES_def split: if_splits)
qed

lemma convert_save_length:
  assumes "convert_save m inherited = Inr (out, how)"
  shows "length out = canonical_size m"
  using convert_save_form [OF assms]
  by (auto simp: Let_def canonical_size_def last_bytes_def split: if_splits)

lemma convert_save_canonical:
  "PAYLOAD_BYTES (rm_save_type m) = Some p \<Longrightarrow> length save = canonical_size m \<Longrightarrow>
   convert_save m save = Inr (save, ''canonical'')"
  by (simp add: convert_save_def canonical_size_def Let_def)

lemma ensure_all_Inr: "ensure_all cs = Inr u \<longleftrightarrow> (\<forall>(ok, e) \<in> set cs. ok)"
  by (induction cs rule: ensure_all.induct) auto

lemma rom_checks_Inr:
  "rom_checks relative rom = Inr m \<longleftrightarrow>
     (\<forall>(ok, e) \<in> set (rom_conditions rom). ok) \<and>
     m = \<lparr>rm_relative = relative, rm_save_type = unat (last_bytes 16 rom ! 11),
          rm_has_rtc = (last_bytes 16 rom ! 13 = 1)\<rparr>"
  by (auto simp: rom_checks_def res_simps ensure_all_Inr Let_def)

text \<open>Which inherited saves are not of the size the ROM calls for.\<close>

lemma convert_save_layouts:
  assumes "convert_save m inherited = Inr (out, how)" and "PAYLOAD_BYTES (rm_save_type m) = Some p"
    and "rtc = (if rm_has_rtc m then RTC_BYTES else 0)"
  shows "(length inherited < p + rtc \<longrightarrow> rm_save_type m = 1 \<and> length inherited = 8 * 1024 + RTC_BYTES) \<and>
    (p + rtc < length inherited \<longrightarrow>
       rm_save_type m \<in> {0x10, 0x50} \<and> length inherited = 2048 + RTC_BYTES \<or>
       \<not> rm_has_rtc m \<and> length inherited = p + RTC_BYTES \<and> take 2 (last_bytes RTC_BYTES inherited) = [0x52, 0x54])"
  using assms by (auto simp: convert_save_def PAYLOAD_BYTES_def RTC_BYTES_def Let_def split: if_splits)

text \<open>
  C19: Whatever layout the migration accepts, the converted save has the size the ROM calls for and
  consists of the inherited payload, cut or filled with zero bytes at its end, and the inherited
  clock trailer when the cartridge has a clock. Nothing else is changed or moved. The only inherited
  save that is extended is that of a type 01 cartridge of exactly 8 KiB and a trailer; the only ones
  that are cut are the 2 KiB EEPROM of types 10 and 50 with a trailer, and a save of the right size
  followed by a trailer that begins with \<open>RT\<close>, where the cartridge has no clock.
\<close>

theorem conversion_keeps_save:
  assumes "convert_save m inherited = Inr (out, how)"
  shows "\<exists>p. PAYLOAD_BYTES (rm_save_type m) = Some p \<and>
    (let rtc = (if rm_has_rtc m then RTC_BYTES else 0);
         k = (if length inherited < p + rtc then 8 * 1024 else p)
     in length out = p + rtc \<and> k \<le> p \<and> k + rtc \<le> length inherited \<and>
        take k out = take k inherited \<and>
        (\<forall>i\<in>{k..<p}. out ! i = 0) \<and>
        last_bytes rtc out = last_bytes rtc inherited \<and>
        (length inherited < p + rtc \<longrightarrow> rm_save_type m = 1 \<and> length inherited = 8 * 1024 + RTC_BYTES) \<and>
        (p + rtc < length inherited \<longrightarrow>
           rm_save_type m \<in> {0x10, 0x50} \<and> length inherited = 2048 + RTC_BYTES \<or>
           \<not> rm_has_rtc m \<and> length inherited = p + RTC_BYTES \<and>
             take 2 (last_bytes RTC_BYTES inherited) = [0x52, 0x54]))"
proof -
  from convert_save_form [OF assms] obtain p where
    p: "PAYLOAD_BYTES (rm_save_type m) = Some p"
    and form: "let rtc = (if rm_has_rtc m then RTC_BYTES else 0);
         k = (if length inherited < p + rtc then 8 * 1024 else p)
     in k \<le> p \<and> k + rtc \<le> length inherited \<and>
        out = take k inherited @ replicate (p - k) 0 @ last_bytes rtc inherited" by blast
  have zeros: "(take k xs @ replicate (p - k) 0 @ ys) ! i = 0"
    if "k \<le> i" "i < p" "k \<le> length xs" for k i and xs ys :: "byte list"
  proof -
    have "i - k < p - k" using that by linarith
    then show ?thesis using that by (simp add: nth_append min_absorb2)
  qed
  show ?thesis
    using p form convert_save_layouts [OF assms p refl]
    by (intro exI [of _ p]) (auto simp: Let_def last_bytes_def zeros)
qed

lemma conversion_keeps_save_witness:
  "\<exists>p. PAYLOAD_BYTES 0x10 = Some p \<and>
    (let out = replicate 128 (7::byte) @ replicate 12 9;
         inherited = replicate 128 7 @ replicate 1920 0 @ replicate 12 9
     in length out = p + RTC_BYTES \<and> take p out = take p inherited)"
proof -
  let ?m = "\<lparr>rm_relative = [''a.ws''], rm_save_type = 0x10, rm_has_rtc = True\<rparr>"
  let ?in = "replicate 128 (7::byte) @ replicate 1920 0 @ replicate 12 9"
  have "convert_save ?m ?in = Inr (replicate 128 7 @ replicate 12 9, ''agg type-'' @ py_hex 2 16 @ '' depadding'')"
    by (simp add: convert_save_def PAYLOAD_BYTES_def RTC_BYTES_def last_bytes_def Let_def)
  from conversion_keeps_save [OF this] show ?thesis
    by (auto simp: Let_def RTC_BYTES_def split: if_splits)
qed

text \<open>
  Converting twice is converting once: the output of a conversion is a canonical save for the
  same ROM, and the migration leaves a canonical save as it is.
\<close>

theorem conversion_idempotent:
  assumes "convert_save m inherited = Inr (out, how)"
  shows "convert_save m out = Inr (out, ''canonical'')"
proof -
  from convert_save_form [OF assms] obtain p where "PAYLOAD_BYTES (rm_save_type m) = Some p" by blast
  then show ?thesis using convert_save_length [OF assms] by (rule convert_save_canonical)
qed

lemma conversion_idempotent_witness:
  "convert_save \<lparr>rm_relative = [''a.ws''], rm_save_type = 0x20, rm_has_rtc = False\<rparr> (replicate 2048 5)
     = Inr (replicate 2048 5, ''canonical'')"
proof -
  have "convert_save \<lparr>rm_relative = [''a.ws''], rm_save_type = 0x20, rm_has_rtc = False\<rparr>
      (replicate 2048 5 @ [0x52, 0x54] @ replicate 10 0) = Inr (replicate 2048 5, ''agg non-RTC trailer removal'')"
    by (simp add: convert_save_def PAYLOAD_BYTES_def RTC_BYTES_def last_bytes_def SRAM_TRAILER_TYPES_def Let_def)
  then show ?thesis by (rule conversion_idempotent)
qed

lemma footer_ram_type: "16 \<le> length rom \<Longrightarrow> unat (last_bytes 16 rom ! 11) = ram_type rom"
  by (simp add: last_bytes_def ram_type_def)

lemma rom_checks_length: "rom_checks r rom = Inr m \<Longrightarrow> MIN_ROM_BYTES \<le> length rom"
  by (auto simp: rom_checks_Inr rom_conditions_def Let_def)

text \<open>
  C40: The tools agree: for a cartridge with a clock whose ROM the namespace migration accepts, the
  output of either single-file migrator is exactly the save the namespace migration writes.
\<close>

theorem migrators_agree:
  assumes "rom_checks relative rom = Inr m" and "rm_has_rtc m"
    and "migrated_type01 rom save = Inr out \<or> migrated_eeprom rom save = Inr out"
  shows "\<exists>how. convert_save m save = Inr (out, how)"
proof -
  have "16 \<le> length rom" using rom_checks_length [OF assms(1)] by (simp add: MIN_ROM_BYTES_def)
  then have t: "rm_save_type m = ram_type rom"
    using assms(1) footer_ram_type by (auto simp: rom_checks_Inr)
  from assms(3) show ?thesis
  proof
    assume "migrated_type01 rom save = Inr out"
    then show ?thesis
      using assms(2) t
      by (auto simp: migrated_type01_def validate_rom01_def validate_save01_def TYPE01_def size_defs res_simps
          convert_save_def PAYLOAD_BYTES_def last_bytes_def Let_def)
  next
    assume "migrated_eeprom rom save = Inr out"
    then show ?thesis
      using assms(2) t
      by (auto simp: migrated_eeprom_def validate_rom_eeprom_def validate_save_eeprom_def EXACT_EEPROM_SIZES_def size_defs
          res_simps convert_save_def PAYLOAD_BYTES_def last_bytes_def Let_def split: option.splits if_splits)
  qed
qed

text \<open>
  A ROM image for the witnesses: a 64 KiB bank of zeros with a valid footer for the given type.
\<close>

definition sample_rom :: "byte \<Rightarrow> byte list" where
  "sample_rom stype = replicate 65520 0 @
     [0xEA, 0, 0, 0, 0, 0, 0, 0, 0, 0, 0, stype, 4, 1, 0xEF + stype, 0]"


lemma sample_footer:
  "last_bytes 16 (sample_rom t) = [0xEA, 0, 0, 0, 0, 0, 0, 0, 0, 0, 0, t, 4, 1, 0xEF + t, 0]"
  "length (sample_rom t) = 65536"
  by (simp_all add: last_bytes_def sample_rom_def)

lemma sample_sum:
  assumes "unat t \<le> 16"
  shows "stored_sum (sample_rom t) = rom_sum (sample_rom t)"
proof -
  have "unat (0xEF + t) = 0xEF + unat t"
    using assms by (simp add: unat_word_ariths)
  then show ?thesis
    using assms by (simp add: stored_sum_def rom_sum_def sample_rom_def last_bytes_def sum_list_replicate)
qed

lemma sample_checks:
  assumes "unat t \<le> 16" and "PAYLOAD_BYTES (unat t) \<noteq> None"
  shows "rom_checks r (sample_rom t) = Inr \<lparr>rm_relative = r, rm_save_type = unat t, rm_has_rtc = True\<rparr>"
  using assms sample_sum [OF assms(1)]
  by (simp add: rom_checks_Inr rom_conditions_def Let_def sample_footer MIN_ROM_BYTES_def ROM_BANK_BYTES_def
      bit_numeral_rec)

lemma migrators_agree_witness:
  "\<exists>how. convert_save \<lparr>rm_relative = [''a.ws''], rm_save_type = 1, rm_has_rtc = True\<rparr> (replicate 8204 7) =
     Inr (replicate 8192 7 @ replicate 24576 0 @ replicate 12 7, how)"
proof -
  have r: "rom_checks [''a.ws''] (sample_rom 1) =
      Inr \<lparr>rm_relative = [''a.ws''], rm_save_type = 1, rm_has_rtc = True\<rparr>"
    by (subst sample_checks) (simp_all add: PAYLOAD_BYTES_def)
  have "ram_type (sample_rom 1) = 1"
    using footer_ram_type [of "sample_rom 1"] by (simp add: sample_footer)
  then have "migrated_type01 (sample_rom 1) (replicate 8204 7) =
      Inr (replicate 8192 7 @ replicate 24576 0 @ replicate 12 7)"
    by (simp add: migrated_type01_def validate_rom01_def validate_save01_def TYPE01_def size_defs
        sample_footer sample_sum MIN_ROM_BYTES_def Let_def)
  with r show ?thesis by (intro migrators_agree [of "[''a.ws'']" "sample_rom 1"]) simp_all
qed

lemma small_difference:
  assumes "65536 dvd int x - int y" and "x < 256" and "y < 256"
  shows "x = y"
proof (rule ccontr)
  assume "x \<noteq> y"
  then have "int x - int y \<noteq> 0" by simp
  then have "65536 \<le> \<bar>int x - int y\<bar>" using dvd_imp_le_int [OF _ assms(1)] by simp
  then show False using assms(2,3) by linarith
qed

text \<open>
  A damaged ROM image does not decide the layout of a save: changing any single byte of an
  accepted image, in the body, the footer or the stored checksum, makes the migration refuse it.
\<close>

theorem rom_damage_refused:
  assumes "rom_checks r rom = Inr m" and i: "i < length rom" and b: "b \<noteq> rom ! i"
  shows "\<exists>e. rom_checks r (rom[i := b]) = Inl e"
proof (rule ccontr)
  assume "\<not> ?thesis"
  then obtain m' where "rom_checks r (rom[i := b]) = Inr m'"
    by (cases "rom_checks r (rom[i := b])") auto
  then have new: "stored_sum (rom[i := b]) = rom_sum (rom[i := b])"
    by (auto simp: rom_checks_Inr rom_conditions_def Let_def)
  from assms(1) have old: "stored_sum rom = rom_sum rom"
    by (auto simp: rom_checks_Inr rom_conditions_def Let_def)
  let ?n = "length rom - 2"
  have len: "2 \<le> length rom" using rom_checks_length [OF assms(1)] by (simp add: MIN_ROM_BYTES_def)
  have ne: "unat b \<noteq> unat (rom ! i)" using b by (metis word_unat_eq_iff)
  have byte: "unat b < 256" "unat (rom ! i) < 256"
    using unsigned_less [of b] unsigned_less [of "rom ! i"] by simp_all
  show False
  proof (cases "i < ?n")
    case True
    let ?xs = "map unat (take ?n rom)"
    have "stored_sum (rom[i := b]) = stored_sum rom"
      using True by (simp add: stored_sum_def last_bytes_def drop_update_cancel)
    then have eq: "rom_sum (rom[i := b]) = rom_sum rom" using old new by simp
    have upd: "map unat (take ?n (rom[i := b])) = ?xs[i := unat b]"
      by (simp add: take_update_swap map_update)
    let ?new = "sum_list (?xs[i := unat b])"
    have moved: "?new + unat (rom ! i) = sum_list ?xs + unat b"
      using True sum_list_update [of i ?xs "unat b"] elem_le_sum_list [of i ?xs] by simp
    have "?new mod 65536 = sum_list ?xs mod 65536"
      using eq upd by (simp add: rom_sum_def)
    then have "int ?new mod 65536 = int (sum_list ?xs) mod 65536" 
      using zmod_int [of ?new 65536] zmod_int [of "sum_list ?xs" 65536] by simp
    then have "65536 dvd int ?new - int (sum_list ?xs)" by (simp add: mod_eq_dvd_iff)
    moreover have "int ?new - int (sum_list ?xs) = int (unat b) - int (unat (rom ! i))" using moved by linarith
    ultimately have "65536 dvd int (unat b) - int (unat (rom ! i))" by simp
    then show False using ne byte small_difference by blast
  next
    case False
    then have "rom_sum (rom[i := b]) = rom_sum rom" by (simp add: rom_sum_def take_update_cancel)
    then have eq: "stored_sum (rom[i := b]) = stored_sum rom" using old new by simp
    have "length (last_bytes 2 rom) = 2" using len by (simp add: last_bytes_def)
    then obtain x y where xy: "last_bytes 2 rom = [x, y]" by (auto simp: numeral_2_eq_2 length_Suc_conv)
    have upd: "last_bytes 2 (rom[i := b]) = (last_bytes 2 rom)[i - ?n := b]"
      using False by (simp add: last_bytes_def drop_update_swap)
    have at: "rom ! i = last_bytes 2 rom ! (i - ?n)"
      using False i by (simp add: last_bytes_def)
    have "i - ?n = 0 \<or> i - ?n = 1" using i len by linarith
    then show False using eq upd at ne xy by (auto simp: stored_sum_def)
  qed
qed

lemma rom_damage_refused_witness:
  "\<exists>e. rom_checks [''a.ws''] ((sample_rom 1)[7 := 1]) = Inl e"
proof -
  have "rom_checks [''a.ws''] (sample_rom 1) =
      Inr \<lparr>rm_relative = [''a.ws''], rm_save_type = 1, rm_has_rtc = True\<rparr>"
    by (subst sample_checks) (simp_all add: PAYLOAD_BYTES_def)
  moreover have "sample_rom 1 ! 7 = 0" by (simp add: sample_rom_def nth_append)
  ultimately show ?thesis by (intro rom_damage_refused) (simp_all add: sample_footer)
qed

end
