(* ===== verification/Save_Migration.thy ===== *)
theory Save_Migration
  imports Save_Layouts "HOL-Library.List_Lexorder" "HOL-Library.Char_ord"
begin

text \<open>
  \<^verbatim>\<open>scripts/migrate_cartridge_save_namespace.py\<close>, with the helpers it takes from
  \<^verbatim>\<open>scripts/migrate_swan_song_namespace.py\<close>: the plan, which reads the ROMs and the shared saves of an
  SD root and decides what to write, and its application, which publishes each converted save
  without ever replacing a name and takes its own files back when a later one fails.

  Paths are lists of components from the root of the host. All inodes are on one device, so the
  device numbers the code compares are left out; closing descriptors has no effect and is left out.
\<close>

section \<open>Reading below the card's root\<close>

definition PLATFORM_ID :: string where "PLATFORM_ID = ''wonderswan''"
definition DESTINATION_CORE_ID :: string where "DESTINATION_CORE_ID = ''RegionallyFamous.SwanSong''"
definition ASSET_BASE :: "string list" where "ASSET_BASE = [''Assets'', PLATFORM_ID, ''common'']"
definition SOURCE_SAVE_BASE :: "string list" where "SOURCE_SAVE_BASE = [''Saves'', PLATFORM_ID, ''common'']"
definition DESTINATION_SAVE_BASE :: "string list" where
  "DESTINATION_SAVE_BASE = [''Saves'', PLATFORM_ID, DESTINATION_CORE_ID]"

definition MAX_TREE_ENTRIES :: nat where "MAX_TREE_ENTRIES = 8192"
definition MAX_SELECTED_ROMS :: nat where "MAX_SELECTED_ROMS = 1024"
definition MAX_OUTPUT_BYTES :: nat where "MAX_OUTPUT_BYTES = 512 * 1024 * 1024"

text \<open>\<open>except FileNotFoundError\<close> with another exception, or with a value, in its place.\<close>

definition missing_as :: "py_error \<Rightarrow> 'a fs \<Rightarrow> 'a fs" where
  "missing_as e' m = ecatch m (\<lambda>e. if e = OsErrno ENOENT then eraise e' else eraise e)"

definition if_present :: "'a fs \<Rightarrow> 'a option fs" where
  "if_present m = ecatch (ebind m (\<lambda>x. ereturn (Some x)))
     (\<lambda>e. if e = OsErrno ENOENT then ereturn None else eraise e)"

definition sd_root_of :: "string list \<Rightarrow> string list fs" where
  "sd_root_of path =
     ebind (missing_as (MigrationError ''SD root does not exist'') (sys_lstat path)) (\<lambda>(i, n).
     ebind (eguard (is_dir_node n) (MigrationError ''SD root must be an existing nonsymlink directory'')) (\<lambda>_.
     sys_realpath path))"

definition validate_name :: "string \<Rightarrow> unit res" where
  "validate_name name = ensure
     (name \<noteq> [] \<and> name \<noteq> ''.'' \<and> name \<noteq> ''..'' \<and> CHR ''/'' \<notin> set name \<and> CHR 0x5C \<notin> set name
      \<and> \<not> list_ex unsafe_char name) (MigrationError ''unsafe name'')"

text \<open>The names that differ from the wanted one at most in case must be that name alone.\<close>

definition case_safe :: "string \<Rightarrow> string list \<Rightarrow> bool res" where
  "case_safe name names =
     (let matches = filter (\<lambda>n. casefold n = casefold name) names
      in if length matches > 1 \<or> (matches \<noteq> [] \<and> hd matches \<noteq> name)
         then Inl (MigrationError ''case-colliding path'') else Inr (matches \<noteq> []))"

definition case_safe_child :: "string list \<Rightarrow> string \<Rightarrow> string list fs" where
  "case_safe_child parent name =
     ebind (elift (validate_name name)) (\<lambda>_.
     ebind (if_present (sys_lstat parent)) (\<lambda>found.
     case found of
       None \<Rightarrow> ereturn (parent @ [name])
     | Some (i, n) \<Rightarrow>
         ebind (eguard (is_dir_node n) (MigrationError ''parent must be a nonsymlink directory'')) (\<lambda>_.
         ebind (os_errors_as (MigrationError ''cannot inspect parent'') (sys_scandir parent)) (\<lambda>found.
         ebind (elift (case_safe name (map fst found))) (\<lambda>_. ereturn (parent @ [name]))))))"

fun path_below :: "string list \<Rightarrow> string list \<Rightarrow> string list fs" where
  "path_below current [] = ereturn current"
| "path_below current (component # parts) =
     ebind (case_safe_child current component) (\<lambda>child.
     ebind (path_is_symlink child) (\<lambda>link.
     ebind (eguard (\<not> link) (MigrationError ''path contains a symlink'')) (\<lambda>_.
     ebind (path_exists child) (\<lambda>present.
     ebind (if present \<and> parts \<noteq> [] then
              ebind (os_errors_as (MigrationError ''cannot inspect path'') (sys_lstat child)) (\<lambda>(i, n).
              eguard (is_dir_node n) (MigrationError ''parent is not a directory''))
            else ereturn ()) (\<lambda>_.
     path_below child parts)))))"

definition read_plain_file :: "string list \<Rightarrow> nat \<Rightarrow> byte list fs" where
  "read_plain_file path maximum =
     ebind (missing_as (MigrationError ''missing file'') (sys_lstat path)) (\<lambda>(i, n).
     ebind (eguard (is_file_node n) (MigrationError ''must be a regular nonsymlink file'')) (\<lambda>_.
     ebind (eguard (\<not> length (node_bytes n) > maximum) (MigrationError ''file exceeds the limit'')) (\<lambda>_.
     ebind (os_errors_as (MigrationError ''cannot open file'') (sys_open_path path)) (\<lambda>descriptor.
     ebind (sys_fstat descriptor) (\<lambda>opened.
     ebind (eguard (is_file_node opened \<and> descriptor = i) (MigrationError ''file changed while opening'')) (\<lambda>_.
     ebind (read_upto descriptor (maximum + 1) []) (\<lambda>payload.
     ebind (eguard (\<not> length payload > maximum) (MigrationError ''file grew beyond the limit'')) (\<lambda>_.
     ebind (sys_fstat descriptor) (\<lambda>final.
     ebind (eguard (length (node_bytes final) = length payload) (MigrationError ''file changed while reading'')) (\<lambda>_.
     ereturn payload))))))))))"

datatype dest_state = Copy | Identical

definition destination_state :: "string list \<Rightarrow> string list \<Rightarrow> byte list \<Rightarrow> dest_state fs" where
  "destination_state sdroot relative payload =
     ebind (path_below sdroot relative) (\<lambda>destination.
     ebind (path_exists destination) (\<lambda>present.
     if \<not> present then ereturn Copy
     else
       ebind (sys_lstat destination) (\<lambda>(i, n).
       ebind (eguard (is_file_node n) (MigrationError ''destination file must be a regular nonsymlink file'')) (\<lambda>_.
       ebind (eguard (length (node_bytes n) = length payload) (MigrationError ''destination differs; refusing to overwrite'')) (\<lambda>_.
       ebind (read_plain_file destination (length payload)) (\<lambda>observed.
       ebind (eguard (observed = payload) (MigrationError ''destination differs; refusing to overwrite'')) (\<lambda>_.
       ereturn Identical)))))))"

section \<open>Selecting ROMs\<close>

definition has_rom_extension :: "string \<Rightarrow> bool" where
  "has_rom_extension name = (casefold (path_suffix name) \<in> set ROM_EXTENSIONS)"

definition safe_selected_path :: "string \<Rightarrow> string list res" where
  "safe_selected_path value =
     (let parts = posix_parts value in
      rbind (ensure (\<not> starts_with ''/'' value \<and> parts \<noteq> [] \<and> ''..'' \<notin> set parts
          \<and> \<not> list_ex (\<lambda>p. CHR 0x5C \<in> set p) parts \<and> \<not> list_ex (list_ex unsafe_char) parts)
        (MigrationError ''unsafe selected ROM path'')) (\<lambda>_.
      rbind (ensure (has_rom_extension (last parts)) (MigrationError ''selected ROM must end in .ws or .wsc'')) (\<lambda>_.
      Inr parts)))"

definition ignored_name :: "string \<Rightarrow> bool" where
  "ignored_name name = (name = ''.DS_Store'' \<or> starts_with ''._'' name)"

text \<open>
  The walk of the asset tree carries the number of entries seen and the ROMs found. Each descent has
  counted an entry, so the limit on entries bounds the depth; the fuel is that bound.
\<close>

definition OUT_OF_FUEL :: py_error where "OUT_OF_FUEL = RuntimeError ''asset tree walk''"

definition walk_entry :: "(string list \<Rightarrow> string list \<Rightarrow> nat \<times> string list list \<Rightarrow> (nat \<times> string list list) fs) \<Rightarrow>
    string list \<Rightarrow> string list \<Rightarrow> string \<times> node \<Rightarrow> string list \<times> nat \<times> string list list \<Rightarrow>
    (string list \<times> nat \<times> string list list) fs" where
  "walk_entry descend directory relative = (\<lambda>(name, n) (folded, count, roms).
     if ignored_name name then ereturn (folded, count, roms)
     else
       ebind (eguard (\<not> count + 1 > MAX_TREE_ENTRIES) (MigrationError ''asset tree exceeds 8192 entries'')) (\<lambda>_.
       ebind (eguard (casefold name \<notin> set folded) (MigrationError ''case-colliding asset path'')) (\<lambda>_.
       ebind (eguard (\<not> is_link_node n) (MigrationError ''asset tree contains a symlink'')) (\<lambda>_.
       if is_dir_node n then
         ebind (descend (directory @ [name]) (relative @ [name]) (count + 1, roms))
           (\<lambda>(count', roms'). ereturn (casefold name # folded, count', roms'))
       else
         ebind (eguard (is_file_node n) (MigrationError ''asset tree contains a non-regular entry'')) (\<lambda>_.
         if has_rom_extension name then
           ebind (eguard (\<not> length (roms @ [relative @ [name]]) > MAX_SELECTED_ROMS)
               (MigrationError ''migration exceeds 1024 ROMs'')) (\<lambda>_.
           ereturn (casefold name # folded, count + 1, roms @ [relative @ [name]]))
         else ereturn (casefold name # folded, count + 1, roms))))))"

primrec walk_roms :: "nat \<Rightarrow> string list \<Rightarrow> string list \<Rightarrow> nat \<times> string list list \<Rightarrow> (nat \<times> string list list) fs" where
  "walk_roms 0 directory relative st = eraise OUT_OF_FUEL"
| "walk_roms (Suc fuel) directory relative st =
     ebind (os_errors_as (MigrationError ''cannot inspect asset tree'') (sys_scandir directory)) (\<lambda>found.
     ebind (efold (walk_entry (walk_roms fuel) directory relative) (sort_key fst found) ([], st)) (\<lambda>(folded, count, roms).
     ereturn (count, roms)))"

definition all_roms_of :: "string list \<Rightarrow> string list list fs" where
  "all_roms_of sdroot =
     ebind (path_below sdroot ASSET_BASE) (\<lambda>base.
     ebind (missing_as (MigrationError ''WonderSwan asset directory does not exist'') (sys_lstat base)) (\<lambda>(i, n).
     ebind (eguard (is_dir_node n) (MigrationError ''asset tree must be a nonsymlink directory'')) (\<lambda>_.
     ebind (walk_roms (MAX_TREE_ENTRIES + 1) base [] (0, [])) (\<lambda>(count, roms). ereturn roms))))"

definition selected_roms :: "string list \<Rightarrow> string list \<Rightarrow> bool \<Rightarrow> string list list fs" where
  "selected_roms sdroot selected all_roms =
     ebind (eguard (all_roms \<noteq> (selected \<noteq> []))
       (MigrationError ''choose exactly one of --all or one or more --select paths'')) (\<lambda>_.
     ebind (if all_roms then all_roms_of sdroot
            else ebind (elift (map_res safe_selected_path selected)) (\<lambda>result.
                 ebind (eguard (\<not> length result > MAX_SELECTED_ROMS) (MigrationError ''migration exceeds 1024 ROMs'')) (\<lambda>_.
                 ereturn result))) (\<lambda>result.
     ebind (eguard (distinct result) (MigrationError ''selected ROM list contains duplicates'')) (\<lambda>_.
     ebind (eguard (distinct (map (\<lambda>r. casefold (join_path r)) result))
       (MigrationError ''selected ROM list contains case-colliding paths'')) (\<lambda>_.
     ereturn (sort_key join_path result)))))"

section \<open>The plan\<close>

record cartridge_file =
  cf_rom :: "string list"
  cf_source :: "string list"
  cf_destination :: "string list"
  cf_payload :: "byte list"
  cf_conversion :: string

record cartridge_plan =
  cp_root :: "string list"
  cp_root_inode :: ino
  cp_files :: "cartridge_file list"
  cp_copies :: "string list list"
  cp_identical :: "string list list"
  cp_no_save :: "string list list"
  cp_missing :: "string list list"

definition inspect_rom :: "string list \<Rightarrow> string list \<Rightarrow> rom_metadata fs" where
  "inspect_rom sdroot relative =
     ebind (path_below sdroot (ASSET_BASE @ relative)) (\<lambda>source.
     ebind (read_plain_file source MAX_ROM_BYTES) (\<lambda>rom.
     elift (rom_checks relative rom)))"

definition collect_file :: "string list \<Rightarrow> rom_metadata \<Rightarrow> cartridge_file option fs" where
  "collect_file sdroot metadata =
     (let mirrored = save_relative (rm_relative metadata);
          source_relative = SOURCE_SAVE_BASE @ mirrored in
      ebind (path_below sdroot source_relative) (\<lambda>source.
      ebind (if_present (sys_lstat source)) (\<lambda>found.
      case found of
        None \<Rightarrow> ereturn None
      | Some (i, n) \<Rightarrow>
          ebind (eguard (is_file_node n) (MigrationError ''shared cartridge save must be a regular nonsymlink file'')) (\<lambda>_.
          ebind (read_plain_file source MAX_ROM_BYTES) (\<lambda>inherited.
          ebind (elift (convert_save metadata inherited)) (\<lambda>(output, conversion).
          ereturn (Some \<lparr>cf_rom = ASSET_BASE @ rm_relative metadata, cf_source = source_relative,
            cf_destination = DESTINATION_SAVE_BASE @ mirrored, cf_payload = output,
            cf_conversion = conversion\<rparr>)))))))"

record plan_acc =
  pa_files :: "cartridge_file list"
  pa_no_save :: "string list list"
  pa_missing :: "string list list"
  pa_total :: nat

definition plan_rom :: "string list \<Rightarrow> string list \<Rightarrow> plan_acc \<Rightarrow> plan_acc fs" where
  "plan_rom sdroot relative acc =
     ebind (inspect_rom sdroot relative) (\<lambda>metadata.
     if rm_save_type metadata = 0 then ereturn (acc\<lparr>pa_no_save := pa_no_save acc @ [ASSET_BASE @ relative]\<rparr>)
     else
       ebind (collect_file sdroot metadata) (\<lambda>managed.
       case managed of
         None \<Rightarrow> ereturn (acc\<lparr>pa_missing := pa_missing acc @ [SOURCE_SAVE_BASE @ save_relative relative]\<rparr>)
       | Some f \<Rightarrow>
           let total = pa_total acc + length (cf_payload f) in
           ebind (eguard (\<not> total > MAX_OUTPUT_BYTES) (MigrationError ''planned output exceeds 536870912 bytes'')) (\<lambda>_.
           ereturn (acc\<lparr>pa_total := total, pa_files := pa_files acc @ [f]\<rparr>))))"

definition plan_state :: "string list \<Rightarrow> cartridge_file \<Rightarrow> string list list \<times> string list list \<Rightarrow>
    (string list list \<times> string list list) fs" where
  "plan_state sdroot f = (\<lambda>(copies, identical).
     ebind (destination_state sdroot (cf_destination f) (cf_payload f)) (\<lambda>state.
     ereturn (if state = Copy then (copies @ [cf_destination f], identical)
              else (copies, identical @ [cf_destination f]))))"

definition plan_migration :: "string list \<Rightarrow> string list \<Rightarrow> bool \<Rightarrow> cartridge_plan fs" where
  "plan_migration sd_root selected all_roms =
     ebind (sd_root_of sd_root) (\<lambda>sdroot.
     ebind (sys_lstat sdroot) (\<lambda>(root_inode, root_node).
     ebind (selected_roms sdroot selected all_roms) (\<lambda>roms.
     ebind (efold (plan_rom sdroot) roms \<lparr>pa_files = [], pa_no_save = [], pa_missing = [], pa_total = 0\<rparr>) (\<lambda>acc.
     let destinations = map cf_destination (pa_files acc) in
     ebind (eguard (distinct destinations) (MigrationError ''multiple ROMs map to the same cartridge-save destination'')) (\<lambda>_.
     ebind (eguard (distinct (map (\<lambda>d. casefold (join_path d)) destinations))
       (MigrationError ''cartridge-save plan contains case-colliding destinations'')) (\<lambda>_.
     ebind (efold (plan_state sdroot) (pa_files acc) ([], [])) (\<lambda>(copies, identical).
     ereturn \<lparr>cp_root = sdroot, cp_root_inode = root_inode, cp_files = pa_files acc, cp_copies = copies,
       cp_identical = identical, cp_no_save = pa_no_save acc, cp_missing = pa_missing acc\<rparr>)))))))"

section \<open>Publishing below held directories\<close>

definition open_root_descriptor :: "string list \<Rightarrow> ino \<Rightarrow> ino fs" where
  "open_root_descriptor sdroot inode =
     ebind (os_errors_as (MigrationError ''SD root became unsafe after planning'') (sys_open_dir_path sdroot)) (\<lambda>descriptor.
     ebind (sys_fstat descriptor) (\<lambda>opened.
     ebind (sys_lstat sdroot) (\<lambda>(observed, n).
     ebind (eguard (\<not> (descriptor \<noteq> inode \<or> observed \<noteq> inode)) (MigrationError ''SD root identity changed after planning'')) (\<lambda>_.
     ereturn descriptor))))"

definition case_safe_name_at :: "ino \<Rightarrow> string \<Rightarrow> bool fs" where
  "case_safe_name_at directory name =
     ebind (os_errors_as (MigrationError ''cannot inspect directory'') (sys_listdir directory)) (\<lambda>names.
     elift (case_safe name names))"

fun open_below :: "ino \<Rightarrow> string list \<Rightarrow> bool \<Rightarrow> ino option fs" where
  "open_below current [] create = ereturn (Some current)"
| "open_below current (part # parts) create =
     ebind (case_safe_name_at current part) (\<lambda>present.
     if \<not> present \<and> \<not> create then ereturn None
     else
       ebind (if \<not> present then
                ebind (ecatch (sys_mkdir current part)
                    (\<lambda>e. if e = OsErrno EEXIST then ereturn () else eraise e)) (\<lambda>_.
                ebind (case_safe_name_at current part) (\<lambda>_. ereturn ()))
              else ereturn ()) (\<lambda>_.
       ebind (os_errors_as (MigrationError ''unsafe destination parent'') (sys_stat_at current part)) (\<lambda>(i, n).
       ebind (eguard (\<not> is_link_node n) (MigrationError ''destination parent must not be a symlink'')) (\<lambda>_.
       ebind (eguard (is_dir_node n) (MigrationError ''destination parent is not a directory'')) (\<lambda>_.
       ebind (os_errors_as (MigrationError ''unsafe destination parent'') (sys_open_dir_at current part)) (\<lambda>child.
       open_below child parts create))))))"

definition open_parent_at :: "ino \<Rightarrow> string list \<Rightarrow> bool \<Rightarrow> ino option fs" where
  "open_parent_at root_descriptor relative create = open_below root_descriptor (butlast relative) create"

definition read_destination_at :: "ino \<Rightarrow> string \<Rightarrow> byte list \<Rightarrow> (byte list \<times> ino) option fs" where
  "read_destination_at directory name expected =
     ebind (case_safe_name_at directory name) (\<lambda>present.
     if \<not> present then ereturn None
     else
       ebind (os_errors_as (MigrationError ''unsafe cartridge-save destination'') (sys_open_at directory name)) (\<lambda>descriptor.
       ebind (sys_fstat descriptor) (\<lambda>before.
       ebind (eguard (is_file_node before) (MigrationError ''cartridge-save destination is not a regular file'')) (\<lambda>_.
       ebind (eguard (length (node_bytes before) = length expected) (MigrationError ''destination differs; refusing to overwrite'')) (\<lambda>_.
       ebind (read_upto descriptor (length expected + 1) []) (\<lambda>payload.
       ebind (sys_fstat descriptor) (\<lambda>after.
       ebind (eguard (\<not> (length (node_bytes before) \<noteq> length (node_bytes after) \<or> length payload \<noteq> length (node_bytes after)))
         (MigrationError ''cartridge-save destination changed while reading'')) (\<lambda>_.
       ereturn (Some (payload, descriptor))))))))))"

definition destination_state_at :: "ino \<Rightarrow> string \<Rightarrow> byte list \<Rightarrow> dest_state fs" where
  "destination_state_at directory name payload =
     ebind (read_destination_at directory name payload) (\<lambda>observed.
     case observed of
       None \<Rightarrow> ereturn Copy
     | Some (found, i) \<Rightarrow>
         ebind (eguard (found = payload) (MigrationError ''destination differs; refusing to overwrite'')) (\<lambda>_.
         ereturn Identical))"

definition unsupported :: "errno \<Rightarrow> bool" where
  "unsupported e = (e = ENOSYS \<or> e = EINVAL \<or> e = ENOTSUP)"

definition link_no_replace :: "ino \<Rightarrow> string \<Rightarrow> string \<Rightarrow> bool fs" where
  "link_no_replace directory source destination =
     ebind (ecatch (sys_link directory source destination) (\<lambda>e. case e of
         OsErrno n \<Rightarrow>
           if n = EEXIST then eraise (MigrationError ''destination appeared before atomic no-clobber copy'')
           else eraise (MigrationError ''destination filesystem does not support an atomic no-clobber install'')
       | _ \<Rightarrow> eraise e)) (\<lambda>_.
     ereturn False)"

text \<open>The result says whether the temporary name has been consumed.\<close>

definition install_atomic_no_replace_at :: "ino \<Rightarrow> string \<Rightarrow> string \<Rightarrow> bool fs" where
  "install_atomic_no_replace_at directory source destination =
     ecatch (ebind (sys_rename_noreplace directory source destination) (\<lambda>_. ereturn True)) (\<lambda>e. case e of
         OsErrno n \<Rightarrow>
           if n = EEXIST then eraise (MigrationError ''destination appeared before atomic no-clobber copy'')
           else if unsupported n then link_no_replace directory source destination
           else eraise e
       | _ \<Rightarrow> eraise e)"

definition ignore_os_errors :: "unit fs \<Rightarrow> unit fs" where
  "ignore_os_errors m = ecatch m (\<lambda>e. case e of OsErrno n \<Rightarrow> ereturn () | _ \<Rightarrow> eraise e)"

definition fsync_directory_best_effort :: "ino \<Rightarrow> unit fs" where
  "fsync_directory_best_effort directory = ignore_os_errors (sys_sync directory)"

definition temp_name :: "string \<Rightarrow> string \<Rightarrow> string" where
  "temp_name name token = ''.'' @ name @ ''.'' @ token @ ''.tmp''"

primrec allocate_temporary :: "nat \<Rightarrow> ino \<Rightarrow> string \<Rightarrow> (string \<times> ino) fs" where
  "allocate_temporary 0 directory name = eraise (MigrationError ''could not allocate a temporary file'')"
| "allocate_temporary (Suc n) directory name =
     ebind draw_token (\<lambda>token.
     let candidate = temp_name name token in
     ecatch (ebind (sys_create directory candidate) (\<lambda>i. ereturn (candidate, i)))
       (\<lambda>e. if e = OsErrno EEXIST then allocate_temporary n directory name else eraise e))"

text \<open>What happens between the creation of the temporary file and its publication.\<close>

definition fill_and_install :: "ino \<Rightarrow> string \<Rightarrow> byte list \<Rightarrow> string \<Rightarrow> ino \<Rightarrow> bool fs" where
  "fill_and_install directory name payload temporary i =
     ebind (sys_write i payload) (\<lambda>_.
     ebind (sys_sync i) (\<lambda>_.
     ebind (sys_sync i) (\<lambda>_.
     ebind (sys_fstat i) (\<lambda>metadata.
     ebind (case_safe_name_at directory name) (\<lambda>_.
     install_atomic_no_replace_at directory temporary name)))))"

text \<open>
  The \<open>finally\<close> block: before publication the temporary name is removed and a failure to do so
  replaces the exception; after publication nothing can fail any more.
\<close>

definition atomic_write_new_at :: "ino \<Rightarrow> string \<Rightarrow> byte list \<Rightarrow> ino fs" where
  "atomic_write_new_at directory name payload =
     ebind (allocate_temporary 32 directory name) (\<lambda>(temporary, i).
     ebind (eon_error (fill_and_install directory name payload temporary i)
         (ecatch (sys_unlink directory temporary) (\<lambda>e. if e = OsErrno ENOENT then ereturn () else eraise e))) (\<lambda>consumed.
     ebind (if consumed then ereturn () else ignore_os_errors (sys_unlink directory temporary)) (\<lambda>_.
     ebind (fsync_directory_best_effort directory) (\<lambda>_.
     ereturn i))))"

section \<open>Applying a plan\<close>

record created_file =
  cd_parent :: ino
  cd_name :: string
  cd_relative :: "string list"
  cd_inode :: ino
  cd_payload :: "byte list"

definition confirm_parent_identity :: "ino \<Rightarrow> string list \<Rightarrow> ino \<Rightarrow> unit fs" where
  "confirm_parent_identity root_descriptor relative parent =
     ebind (open_parent_at root_descriptor relative False) (\<lambda>reopened.
     case reopened of
       None \<Rightarrow> eraise (MigrationError ''cartridge-save destination parent disappeared'')
     | Some again \<Rightarrow>
         ebind (sys_fstat parent) (\<lambda>expected.
         ebind (sys_fstat again) (\<lambda>observed.
         eguard (parent = again) (MigrationError ''cartridge-save destination parent identity changed''))))"

definition verify_created_at :: "created_file \<Rightarrow> unit fs" where
  "verify_created_at created =
     ebind (read_destination_at (cd_parent created) (cd_name created) (cd_payload created)) (\<lambda>observed.
     case observed of
       None \<Rightarrow> eraise (MigrationError ''copied file disappeared'')
     | Some (payload, i) \<Rightarrow>
         ebind (eguard (i = cd_inode created) (MigrationError ''copied file identity changed'')) (\<lambda>_.
         eguard (payload = cd_payload created) (MigrationError ''copied file verification failed'')))"

definition rollback_name :: "string \<Rightarrow> string \<Rightarrow> string" where
  "rollback_name name token = ''.'' @ name @ ''.'' @ token @ ''.rollback''"

text \<open>The quarantine loop: either the function has its answer or a quarantine name was taken.\<close>

primrec quarantine_created :: "nat \<Rightarrow> created_file \<Rightarrow> (bool + string) fs" where
  "quarantine_created 0 created = ereturn (Inl False)"
| "quarantine_created (Suc n) created =
     ebind draw_token (\<lambda>token.
     let candidate = rollback_name (cd_name created) token in
     ebind (case_safe_name_at (cd_parent created) candidate) (\<lambda>present.
     if present then quarantine_created n created
     else ecatch (ebind (sys_rename_noreplace (cd_parent created) (cd_name created) candidate)
              (\<lambda>_. ereturn (Inr candidate)))
            (\<lambda>e. case e of
               OsErrno m \<Rightarrow> if m = ENOENT then ereturn (Inl True)
                           else if m = EEXIST then quarantine_created n created
                           else ereturn (Inl False)
             | _ \<Rightarrow> eraise e)))"

definition remove_quarantined :: "created_file \<Rightarrow> string \<Rightarrow> bool fs" where
  "remove_quarantined created quarantine =
     ecatch (
       ebind (sys_stat_at (cd_parent created) quarantine) (\<lambda>(i, n).
       if i \<noteq> cd_inode created then ereturn False
       else
         ebind (sys_unlink (cd_parent created) quarantine) (\<lambda>_.
         ebind (fsync_directory_best_effort (cd_parent created)) (\<lambda>_. ereturn True))))
     (\<lambda>e. case e of OsErrno n \<Rightarrow> ereturn False | _ \<Rightarrow> eraise e)"

definition restore_quarantined :: "created_file \<Rightarrow> string \<Rightarrow> bool fs" where
  "restore_quarantined created quarantine =
     ebind (ignore_os_errors (sys_rename_noreplace (cd_parent created) quarantine (cd_name created))) (\<lambda>_.
     ereturn False)"

definition rollback_created_at :: "created_file \<Rightarrow> bool fs" where
  "rollback_created_at created =
     ebind (quarantine_created 32 created) (\<lambda>outcome.
     case outcome of
       Inl answer \<Rightarrow> ereturn answer
     | Inr quarantine \<Rightarrow>
         ebind (ecatch (read_destination_at (cd_parent created) quarantine (cd_payload created))
           (\<lambda>e. case e of MigrationError m \<Rightarrow> ereturn None | _ \<Rightarrow> eraise e)) (\<lambda>observed.
         case observed of
           None \<Rightarrow> restore_quarantined created quarantine
         | Some (payload, i) \<Rightarrow>
             if i = cd_inode created \<and> payload = cd_payload created
             then remove_quarantined created quarantine
             else restore_quarantined created quarantine))"

record apply_acc =
  aa_created :: "created_file list"
  aa_copied :: "string list list"
  aa_identical :: "string list list"

definition EMPTY_ACC :: apply_acc where
  "EMPTY_ACC = \<lparr>aa_created = [], aa_copied = [], aa_identical = []\<rparr>"

text \<open>One file up to its publication, and the checks after it.\<close>

definition publish_file :: "ino \<Rightarrow> cartridge_file \<Rightarrow> created_file option fs" where
  "publish_file root_descriptor f =
     ebind (open_parent_at root_descriptor (cf_destination f) True) (\<lambda>opened.
     case opened of
       None \<Rightarrow> eraise (AssertionError ''parent_descriptor is not None'')
     | Some parent \<Rightarrow>
         let name = last (cf_destination f) in
         ebind (destination_state_at parent name (cf_payload f)) (\<lambda>state.
         if state = Identical then ereturn None
         else
           ebind (atomic_write_new_at parent name (cf_payload f)) (\<lambda>i.
           ereturn (Some \<lparr>cd_parent = parent, cd_name = name, cd_relative = cf_destination f,
             cd_inode = i, cd_payload = cf_payload f\<rparr>))))"

definition check_published :: "ino \<Rightarrow> created_file \<Rightarrow> unit fs" where
  "check_published root_descriptor installed =
     ebind (confirm_parent_identity root_descriptor (cd_relative installed) (cd_parent installed)) (\<lambda>_.
     verify_created_at installed)"

definition apply_file :: "ino \<Rightarrow> cartridge_file \<Rightarrow> apply_acc \<Rightarrow> (py_error option \<times> apply_acc) fs" where
  "apply_file root_descriptor f acc =
     ebind (etry (publish_file root_descriptor f)) (\<lambda>outcome.
     case outcome of
       Inl e \<Rightarrow> ereturn (Some e, acc)
     | Inr None \<Rightarrow> ereturn (None, acc\<lparr>aa_identical := aa_identical acc @ [cf_destination f]\<rparr>)
     | Inr (Some installed) \<Rightarrow>
         let acc' = acc\<lparr>aa_created := aa_created acc @ [installed]\<rparr> in
         ebind (etry (check_published root_descriptor installed)) (\<lambda>checked.
         case checked of
           Inl e \<Rightarrow> ereturn (Some e, acc')
         | Inr _ \<Rightarrow> ereturn (None, acc'\<lparr>aa_copied := aa_copied acc' @ [cf_destination f]\<rparr>)))"

definition rollback_step :: "created_file \<Rightarrow> string list list \<Rightarrow> string list list fs" where
  "rollback_step installed leftovers =
     ecatch (ebind (rollback_created_at installed) (\<lambda>ok.
         ereturn (if ok then leftovers else leftovers @ [cd_relative installed])))
       (\<lambda>e. case e of
          MigrationError m \<Rightarrow> ereturn (leftovers @ [cd_relative installed])
        | OsErrno n \<Rightarrow> ereturn (leftovers @ [cd_relative installed])
        | ValueError m \<Rightarrow> ereturn (leftovers @ [cd_relative installed])
        | _ \<Rightarrow> eraise e)"

definition LEFTOVERS :: py_error where
  "LEFTOVERS = MigrationError ''cartridge-save apply failed; rollback left inode-changed or unverifiable file(s)''"

text \<open>The handler of the transaction.\<close>

definition undo_and_raise :: "py_error \<Rightarrow> created_file list \<Rightarrow> 'a fs" where
  "undo_and_raise e created =
     ebind (efold rollback_step (rev created) []) (\<lambda>leftovers.
     if leftovers \<noteq> [] then eraise LEFTOVERS else eraise e)"

definition same_plan :: "cartridge_plan \<Rightarrow> cartridge_plan \<Rightarrow> bool" where
  "same_plan current plan =
     (cp_root_inode current = cp_root_inode plan \<and> cp_files current = cp_files plan
      \<and> cp_no_save current = cp_no_save plan \<and> cp_missing current = cp_missing plan)"

definition replan :: "cartridge_plan \<Rightarrow> string list \<Rightarrow> string list \<Rightarrow> bool \<Rightarrow> cartridge_plan fs" where
  "replan plan sdroot selected all_roms =
     ebind (plan_migration sdroot selected all_roms) (\<lambda>current.
     ebind (eguard (same_plan current plan) (MigrationError ''cartridge-save source changed after planning'')) (\<lambda>_.
     ereturn current))"

definition apply_transaction :: "ino \<Rightarrow> cartridge_plan \<Rightarrow> (string list list \<times> string list list) fs" where
  "apply_transaction root_descriptor current =
     ebind (eloop (apply_file root_descriptor) (cp_files current) EMPTY_ACC) (\<lambda>(stop, acc).
     case stop of
       Some e \<Rightarrow> undo_and_raise e (aa_created acc)
     | None \<Rightarrow> ereturn (aa_copied acc, aa_identical acc))"

definition apply_migration :: "cartridge_plan \<Rightarrow> string list \<Rightarrow> bool \<Rightarrow> (string list list \<times> string list list) fs" where
  "apply_migration plan selected all_roms =
     ebind (sd_root_of (cp_root plan)) (\<lambda>sdroot.
     ebind (eguard (sdroot = cp_root plan) (MigrationError ''SD root identity changed after planning'')) (\<lambda>_.
     ebind (open_root_descriptor sdroot (cp_root_inode plan)) (\<lambda>root_descriptor.
     ebind (ecatch (replan plan sdroot selected all_roms) (\<lambda>e. undo_and_raise e [])) (\<lambda>current.
     apply_transaction root_descriptor current))))"

text \<open>The command: the plan, its application when asked for, and the exit status.\<close>

definition migration_command :: "string list \<Rightarrow> string list \<Rightarrow> bool \<Rightarrow> bool \<Rightarrow> nat fs" where
  "migration_command sd_root selected all_roms apply_it =
     ecatch (
       ebind (plan_migration sd_root selected all_roms) (\<lambda>plan.
       ebind (if apply_it then ebind (apply_migration plan selected all_roms) (\<lambda>_. ereturn ())
              else ereturn ()) (\<lambda>_.
       ereturn 0)))
     (\<lambda>e. case e of
        MigrationError m \<Rightarrow> ereturn 2
      | OsErrno n \<Rightarrow> ereturn 2
      | _ \<Rightarrow> eraise e)"

end
