(* ===== verification/Exclusive_Store.thy ===== *)
theory Exclusive_Store
  imports Sd_Files
begin

text \<open>
  The contract a transaction on files relies on, as a locale: what each system call does to an
  invariant of the disk when it is used only in ways that cannot destroy anything, and its proof for
  the model of the disk.

  \<^item> \<open>since d0 C d\<close>: compared with \<open>d0\<close>, the disk \<open>d\<close> has lost nothing and changed no file, and
    every entry it has gained is a directory, has a hidden temporary name or is listed in \<open>C\<close>.
  \<^item> \<open>same_files\<close>: a program that only reads leaves the files as they are.
  \<^item> \<open>exclusive_store\<close>: the laws of the calls; a name may be removed or moved only when it was
    absent at the beginning, an inode written only when it is new.
\<close>

section \<open>Reading changes nothing\<close>

definition same_files :: "disk \<Rightarrow> disk \<Rightarrow> bool" where
  "same_files d t = (dk_nodes t = dk_nodes d \<and> dk_next t = dk_next d \<and> dk_fold t = dk_fold d)"

lemma same_files_refl [simp]: "same_files d d"
  by (simp add: same_files_def)

lemma same_files_trans: "same_files a b \<Longrightarrow> same_files b c \<Longrightarrow> same_files a c"
  by (simp add: same_files_def)

lemma same_files_observe:
  assumes "same_files d t"
  shows "entries t = entries d" "find_entry t = find_entry d" "entry_of t = entry_of d" "is_dir t = is_dir d"
    "dk_nodes t = dk_nodes d" "child_node t = child_node d"
proof -
  show n: "dk_nodes t = dk_nodes d" using assms by (simp add: same_files_def)
  show e: "entries t = entries d" using n by (auto simp: fun_eq_iff entries_def)
  show f: "find_entry t = find_entry d" using assms by (auto simp: fun_eq_iff find_entry_def name_key_def same_files_def)
  show g: "entry_of t = entry_of d" using e f by (auto simp: fun_eq_iff entry_of_def)
  show h: "is_dir t = is_dir d" using n by (auto simp: fun_eq_iff is_dir_def)
  show "child_node t = child_node d" unfolding child_node_def [abs_def] n g h ..
qed

definition call_made :: "disk \<Rightarrow> disk" where
  "call_made d = d\<lparr>dk_calls := dk_calls d + 1\<rparr>"

lemma same_call [simp]: "same_files d (call_made d)"
  by (simp add: same_files_def call_made_def)

lemma wp_syscall:
  assumes "wp m Q E (call_made d)" and "\<And>e. \<not> truthful e \<Longrightarrow> E (OsErrno e) (call_made d)"
  shows "wp (syscall m) Q E d"
  using assms by (auto simp: wp_def syscall_def call_made_def Let_def split: option.splits)

lemma wp_get_state [wp_simps]: "wp (get_state f) Q E = (\<lambda>d. case f d of Inl e \<Rightarrow> E e d | Inr x \<Rightarrow> Q x d)"
  by (auto simp: fun_eq_iff wp_def get_state_def split: sum.splits)

lemma reads_syscall_get [keep_intros]: "keeps (same_files d) (syscall (get_state f))"
proof (rule keepsI)
  fix s assume "same_files d s"
  then have "same_files d (call_made s)" using same_files_trans same_call by blast
  then show "wp (syscall (get_state f)) (\<lambda>_. same_files d) (\<lambda>_. same_files d) s"
    by (intro wp_syscall) (simp_all add: wp_simps split: sum.splits)
qed

lemma reads_calls [keep_intros]:
  "keeps (same_files d) (sys_fstat i)" "keeps (same_files d) (sys_stat_at dir name)"
  "keeps (same_files d) (sys_open_at dir name)" "keeps (same_files d) (sys_open_dir_at dir name)"
  "keeps (same_files d) (sys_read i off n)" "keeps (same_files d) (sys_lstat path)"
  "keeps (same_files d) (sys_stat path)" "keeps (same_files d) (sys_realpath path)"
  "keeps (same_files d) (sys_open_path path)" "keeps (same_files d) (sys_open_dir_path path)"
  "keeps (same_files d) (sys_scandir path)" "keeps (same_files d) (sys_listdir dir)"
  by (simp_all add: sys_fstat_def sys_stat_at_def sys_open_at_def sys_open_dir_at_def sys_read_def
      sys_lstat_def sys_stat_def sys_realpath_def sys_open_path_def sys_open_dir_path_def sys_scandir_def
      sys_listdir_def reads_syscall_get)

lemma reads_sync [keep_intros]: "keeps (same_files d) (sys_sync i)"
proof -
  have "(ereturn () :: unit fs) = get_state (\<lambda>_. Inr ())"
    by (simp add: fun_eq_iff ereturn_def get_state_def)
  then show ?thesis by (simp add: sys_sync_def reads_syscall_get)
qed

lemma reads_token [keep_intros]: "keeps (same_files d) draw_token"
  by (auto simp: keeps_def wp_def draw_token_def same_files_def)

lemma reads_exists [keep_intros]:
  "keeps (same_files d) (answer_absence m)" if "keeps (same_files d) m"
  unfolding answer_absence_def using that
  by (auto intro!: keep_intros split: py_error.splits)

lemma reads_path [keep_intros]:
  "keeps (same_files d) (path_exists path)" "keeps (same_files d) (path_is_symlink path)"
  unfolding path_exists_def path_is_symlink_def by (intro keep_intros)+

lemma read_upto_same: "snd (read_upto i limit acc d) = t \<Longrightarrow> same_files s d \<Longrightarrow> same_files s t"
proof (induction i limit acc d arbitrary: t rule: read_upto.induct)
  case (1 i limit acc d)
  show ?case
  proof (cases "limit \<le> length acc")
    case True
    then show ?thesis using 1(2,3) by (subst (asm) read_upto.simps) (simp add: ereturn_def)
  next
    case False
    let ?rd = "sys_read i (length acc) (min READ_CHUNK (limit - length acc))"
    obtain r u where ru: "?rd d = (r, u)" by (cases "?rd d")
    have u: "same_files s u" using keeps_state [OF reads_calls(5) 1(3) ru] .
    show ?thesis
    proof (cases r)
      case (Inl e)
      then show ?thesis using 1(2) ru u False by (subst (asm) read_upto.simps) (simp add: ebind_def)
    next
      case (Inr chunk)
      show ?thesis
      proof (cases "chunk = []")
        case True
        then show ?thesis using 1(2) ru u False Inr
          by (subst (asm) read_upto.simps) (simp add: ebind_def ereturn_def)
      next
        case non: False
        then have "t = snd (read_upto i limit (acc @ chunk) u)"
          using 1(2) ru False Inr by (subst (asm) read_upto.simps) (simp add: ebind_def)
        then show ?thesis using 1(1) [OF False _ non, of u] ru Inr u by simp
      qed
    qed
  qed
qed

lemma reads_upto [keep_intros]: "keeps (same_files d) (read_upto i limit acc)"
  by (rule keepsI, rule wpI) (auto dest: read_upto_same [rotated] simp: prod_eq_iff)

text \<open>What a read returns: the contents of the file, up to the limit.\<close>

lemma sys_read_Inr:
  assumes "sys_read i off n d = (Inr bs, t)"
  shows "\<exists>all. dk_nodes d i = Some (FileNode all) \<and> bs = take n (drop off all)" "same_files d t"
  using assms
  by (auto simp: sys_read_def syscall_def get_state_def Let_def same_files_def split: option.splits node.splits if_splits)

lemma read_upto_contents:
  assumes "read_upto i limit acc d = (Inr bs, t)"
    and "dk_nodes d i = Some (FileNode all)" and "acc = take (length acc) all" and "length acc \<le> limit"
  shows "bs = take limit all"
  using assms
proof (induction i limit acc d arbitrary: bs t rule: read_upto.induct)
  case (1 i limit acc d)
  show ?case
  proof (cases "limit \<le> length acc")
    case True
    then have "length acc = limit" using 1(5) by simp
    then show ?thesis using True 1(2,4) by (subst (asm) read_upto.simps) (simp add: ereturn_def)
  next
    case False
    define n where "n = min READ_CHUNK (limit - length acc)"
    have pos: "0 < n" using False by (simp add: n_def READ_CHUNK_def)
    from 1(2) False obtain chunk u where
      ch: "sys_read i (length acc) n d = (Inr chunk, u)"
      and rest: "(if chunk = [] then ereturn acc else read_upto i limit (acc @ chunk)) u = (Inr bs, t)"
      by (subst (asm) read_upto.simps) (auto simp: res_simps n_def)
    have c: "chunk = take n (drop (length acc) all)" and u: "dk_nodes u i = Some (FileNode all)"
      using sys_read_Inr [OF ch] 1(3) by (auto simp: same_files_def)
    show ?thesis
    proof (cases "chunk = []")
      case True
      then have "length all \<le> length acc" using c pos by simp
      then have "acc = all" using 1(4) by simp
      then show ?thesis using True rest False \<open>length all \<le> length acc\<close> by (simp add: ereturn_def)
    next
      case non: False
      have pre: "acc @ chunk = take (length (acc @ chunk)) all"
      proof -
        have "acc @ chunk = take (length acc) all @ take n (drop (length acc) all)" using 1(4) c by metis
        also have "\<dots> = take (length acc + n) all" by (rule take_add [symmetric])
        finally have *: "acc @ chunk = take (length acc + n) all" .
        then show ?thesis by (metis length_take min.cobounded2 min_def take_all_iff take_all linorder_le_cases)
      qed
      have "length (acc @ chunk) \<le> limit" using c False by (simp add: n_def)
      with 1(1) [OF False _ non, of u] ch rest u pre non show ?thesis by (simp add: n_def)
    qed
  qed
qed

section \<open>Lookup after a change\<close>

lemma find_entry_append:
  "find_entry d (es @ [(n, i)]) m =
     (case find_entry d es m of Some j \<Rightarrow> Some j | None \<Rightarrow> if name_key d n = name_key d m then Some i else None)"
  by (induction es) (auto simp: find_entry_def)

lemma find_entry_filter:
  "find_entry d (filter (\<lambda>(n, _). name_key d n \<noteq> name_key d name) es) m =
     (if name_key d m = name_key d name then None else find_entry d es m)"
  by (induction es) (auto simp: find_entry_def)

lemma find_entry_None: "find_entry d es m = None \<longleftrightarrow> (\<forall>(n, i) \<in> set es. name_key d n \<noteq> name_key d m)"
  by (auto simp: find_entry_def find_None_iff)

lemma find_entry_key: "name_key d m = name_key d n \<Longrightarrow> find_entry d es m = find_entry d es n"
  by (simp add: find_entry_def)

lemma same_fold_find: "dk_fold t = dk_fold d \<Longrightarrow> find_entry t = find_entry d \<and> name_key t = name_key d"
  by (auto simp: fun_eq_iff find_entry_def name_key_def)

lemma put_node_simps [simp]:
  "dk_nodes (put_node i n d) = (dk_nodes d)(i := Some n)" "dk_fold (put_node i n d) = dk_fold d"
  "dk_next (put_node i n d) = dk_next d"
  by (simp_all add: put_node_def)

lemma entries_put: "entries (put_node j n d) dir = (if dir = j then (case n of DirNode es \<Rightarrow> es | _ \<Rightarrow> []) else entries d dir)"
  by (simp add: entries_def split: node.splits)

lemma is_dir_put: "is_dir (put_node j n d) i = (if i = j then is_dir_node n else is_dir d i)"
  by (simp add: is_dir_def)

lemma changed_fold [simp]:
  "dk_fold (add_entry dir name i d) = dk_fold d" "dk_fold (drop_entry dir name d) = dk_fold d"
  "dk_next (add_entry dir name i d) = dk_next d" "dk_next (drop_entry dir name d) = dk_next d"
  by (simp_all add: add_entry_def drop_entry_def)

lemma entries_add: "entries (add_entry dir name i d) e = (if e = dir then entries d dir @ [(name, i)] else entries d e)"
  by (simp add: add_entry_def entries_put)

lemma entries_drop:
  "entries (drop_entry dir name d) e =
     (if e = dir then filter (\<lambda>(n, _). name_key d n \<noteq> name_key d name) (entries d dir) else entries d e)"
  by (simp add: drop_entry_def entries_put)

lemma entry_of_add:
  "entry_of (add_entry dir name i d) e m =
     (if e = dir \<and> entry_of d dir m = None \<and> name_key d name = name_key d m then Some i else entry_of d e m)"
  using same_fold_find [of "add_entry dir name i d" d]
  by (auto simp: entry_of_def entries_add find_entry_append split: option.splits)

lemma entry_of_drop:
  "entry_of (drop_entry dir name d) e m =
     (if e = dir \<and> name_key d m = name_key d name then None else entry_of d e m)"
  using same_fold_find [of "drop_entry dir name d" d]
  by (auto simp: entry_of_def entries_drop find_entry_filter)

section \<open>The contract\<close>

definition hidden_name :: "string \<Rightarrow> bool" where
  "hidden_name name = (ends_with ''.tmp'' name \<or> ends_with ''.rollback'' name)"

text \<open>Calls used without destroying anything, and what they do to an invariant.\<close>

locale exclusive_store =
  fixes keep :: "(ino \<times> string) set \<Rightarrow> disk \<Rightarrow> bool"
    and absent :: "ino \<Rightarrow> string \<Rightarrow> bool"
    and fresh :: "ino \<Rightarrow> bool"
  assumes keep_same: "keep C d \<Longrightarrow> same_files d t \<Longrightarrow> keep C t"
    and keep_mono: "keep C d \<Longrightarrow> C \<subseteq> C' \<Longrightarrow> keep C' d"
    and keep_hidden: "keep (insert (dir, n) C) d \<Longrightarrow> hidden_name n \<Longrightarrow> keep C d"
    and mkdir_law: "keep C d \<Longrightarrow> wp (sys_mkdir dir name) (\<lambda>_. keep C) (\<lambda>_. keep C) d"
    and create_law: "keep C d \<Longrightarrow>
      wp (sys_create dir name) (\<lambda>i t. keep (insert (dir, name) C) t \<and> absent dir name \<and> fresh i) (\<lambda>_. keep C) d"
    and write_law: "keep C d \<Longrightarrow> fresh i \<Longrightarrow> wp (sys_write i bs) (\<lambda>_. keep C) (\<lambda>_. keep C) d"
    and rename_law: "keep C d \<Longrightarrow> absent dir src \<Longrightarrow>
      wp (sys_rename_noreplace dir src dst)
        (\<lambda>_ t. keep (insert (dir, dst) (C - {(dir, src)})) t \<and> absent dir dst)
        (\<lambda>e t. keep C t \<and> (e = OsErrno ENOENT \<longrightarrow> keep (C - {(dir, src)}) t)) d"
    and link_law: "keep C d \<Longrightarrow>
      wp (sys_link dir src dst) (\<lambda>_ t. keep (insert (dir, dst) C) t \<and> absent dir dst) (\<lambda>_. keep C) d"
    and unlink_law: "keep C d \<Longrightarrow> absent dir name \<Longrightarrow>
      wp (sys_unlink dir name) (\<lambda>_. keep (C - {(dir, name)})) (\<lambda>_. keep C) d"
begin

lemma read_law:
  assumes "\<And>s. keeps (same_files s) m" and "keep C d"
  shows "wp m (\<lambda>_. keep C) (\<lambda>_. keep C) d"
  by (rule wp_mono [OF keepsD [OF assms(1) same_files_refl]]) (auto intro: keep_same assms(2))

lemma remove_law: "keep C d \<Longrightarrow> absent dir name \<Longrightarrow> wp (sys_unlink dir name) (\<lambda>_. keep C) (\<lambda>_. keep C) d"
  by (rule wp_mono [OF unlink_law]) (auto intro: keep_mono)

end

section \<open>The disk keeps what it had\<close>

definition wf_disk :: "disk \<Rightarrow> bool" where
  "wf_disk d = (\<forall>i\<ge>dk_next d. dk_nodes d i = None)"

definition lost_nothing :: "disk \<Rightarrow> disk \<Rightarrow> bool" where
  "lost_nothing d0 d =
     ((\<forall>i n. dk_nodes d0 i = Some n \<longrightarrow> (if is_dir_node n then is_dir d i else dk_nodes d i = Some n)) \<and>
      (\<forall>dir name i. entry_of d0 dir name = Some i \<longrightarrow> entry_of d dir name = Some i))"

definition gained_only :: "(ino \<times> string) set \<Rightarrow> disk \<Rightarrow> disk \<Rightarrow> bool" where
  "gained_only C d0 d =
     (\<forall>dir name i. (name, i) \<in> set (entries d dir) \<longrightarrow> entry_of d0 dir name = None \<longrightarrow>
        is_dir d i \<or> hidden_name name \<or> (dir, name) \<in> C)"

definition since :: "disk \<Rightarrow> (ino \<times> string) set \<Rightarrow> disk \<Rightarrow> bool" where
  "since d0 C d =
     (wf_disk d0 \<and> wf_disk d \<and> dk_fold d = dk_fold d0 \<and> dk_next d0 \<le> dk_next d \<and> lost_nothing d0 d \<and> gained_only C d0 d)"

lemma entry_of_in:
  "(name, i) \<in> set (entries d dir) \<Longrightarrow> entry_of d dir name \<noteq> None"
  by (auto simp: entry_of_def find_entry_None)

lemma since_refl: "wf_disk d \<Longrightarrow> since d {} d"
  using entry_of_in by (fastforce simp: since_def lost_nothing_def gained_only_def is_dir_def)

lemma since_same:
  assumes "since d0 C d" and "same_files d t"
  shows "since d0 C t"
  using assms(1) same_files_observe [OF assms(2)] assms(2)
  by (simp add: since_def wf_disk_def lost_nothing_def gained_only_def same_files_def)

lemma since_mono: "since d0 C d \<Longrightarrow> C \<subseteq> C' \<Longrightarrow> since d0 C' d"
  unfolding since_def gained_only_def by blast

lemma since_hidden: "since d0 (insert (dir, n) C) d \<Longrightarrow> hidden_name n \<Longrightarrow> since d0 C d"
  unfolding since_def gained_only_def by blast

lemma since_call [intro]: "since d0 C d \<Longrightarrow> since d0 C (call_made d)"
  using since_same same_call by blast

lemma key_fold: "dk_fold d = dk_fold d0 \<Longrightarrow> name_key d = name_key d0"
  using same_fold_find [of d d0] by simp

lemma dir_below_next: "wf_disk d \<Longrightarrow> is_dir d i \<Longrightarrow> i < dk_next d"
  by (rule ccontr) (auto simp: wf_disk_def is_dir_def)

text \<open>Adding an entry for a name that is not in the directory.\<close>

lemma since_add:
  assumes s: "since d0 C d" and dir: "is_dir d dir" and new: "entry_of d dir name = None"
    and ok: "is_dir d i \<or> (dir, name) \<in> C"
  shows "since d0 C (add_entry dir name i d)"
proof -
  let ?t = "add_entry dir name i d"
  have dirs: "is_dir ?t j = is_dir d j" for j using dir by (simp add: add_entry_def is_dir_put is_dir_node_def)
  have nodes: "dk_nodes ?t j = dk_nodes d j" if "\<not> is_dir d j" for j
    using that dir by (auto simp: add_entry_def)
  have "wf_disk ?t" using s dir_below_next [OF _ dir]
    by (auto simp: since_def wf_disk_def add_entry_def)
  moreover have "lost_nothing d0 ?t"
  proof -
    have "if is_dir_node n then is_dir ?t j else dk_nodes ?t j = Some n" if "dk_nodes d0 j = Some n" for j n
    proof -
      have old: "if is_dir_node n then is_dir d j else dk_nodes d j = Some n"
        using s that by (simp add: since_def lost_nothing_def)
      then have "\<not> is_dir d j" if "\<not> is_dir_node n" using that by (simp add: is_dir_def)
      then show ?thesis using old dirs nodes by auto
    qed
    moreover have "entry_of ?t e m = Some j" if "entry_of d0 e m = Some j" for e m j
      using s that by (auto simp: since_def lost_nothing_def entry_of_add)
    ultimately show ?thesis by (simp add: lost_nothing_def)
  qed
  moreover have "gained_only C d0 ?t"
    using s ok by (auto simp: since_def gained_only_def entries_add dirs split: if_splits)
  ultimately show ?thesis using s by (simp add: since_def)
qed

text \<open>Dropping a name that was not there at the beginning.\<close>

lemma since_drop:
  assumes s: "since d0 C d" and dir: "is_dir d dir" and gone: "entry_of d0 dir name = None"
  shows "since d0 (C - {(dir, name)}) (drop_entry dir name d)"
proof -
  let ?t = "drop_entry dir name d"
  have dirs: "is_dir ?t j = is_dir d j" for j using dir by (simp add: drop_entry_def is_dir_put is_dir_node_def)
  have nodes: "dk_nodes ?t j = dk_nodes d j" if "\<not> is_dir d j" for j
    using that dir by (auto simp: drop_entry_def)
  have fold: "dk_fold d = dk_fold d0" using s by (simp add: since_def)
  have "wf_disk ?t" using s dir_below_next [OF _ dir]
    by (auto simp: since_def wf_disk_def drop_entry_def)
  moreover have "lost_nothing d0 ?t"
  proof -
    have "if is_dir_node n then is_dir ?t j else dk_nodes ?t j = Some n" if "dk_nodes d0 j = Some n" for j n
    proof -
      have old: "if is_dir_node n then is_dir d j else dk_nodes d j = Some n"
        using s that by (simp add: since_def lost_nothing_def)
      then have "\<not> is_dir d j" if "\<not> is_dir_node n" using that by (simp add: is_dir_def)
      then show ?thesis using old dirs nodes by auto
    qed
    moreover have "entry_of ?t e m = Some j" if old: "entry_of d0 e m = Some j" for e m j
    proof -
      have "\<not> (e = dir \<and> name_key d m = name_key d name)"
        using old gone find_entry_key [of d0 m name "entries d0 dir"] key_fold [OF fold] by (auto simp: entry_of_def)
      then show ?thesis using s old by (simp add: since_def lost_nothing_def entry_of_drop)
    qed
    ultimately show ?thesis by (simp add: lost_nothing_def)
  qed
  moreover have "gained_only (C - {(dir, name)}) d0 ?t"
    using s by (auto simp: since_def gained_only_def entries_drop dirs split: if_splits)
  ultimately show ?thesis using s by (simp add: since_def)
qed

lemma since_absent: "since d0 C d \<Longrightarrow> entry_of d dir name = None \<Longrightarrow> entry_of d0 dir name = None"
  by (cases "entry_of d0 dir name") (auto simp: since_def lost_nothing_def)

text \<open>Replacing a node that is not part of the original disk by one of the same kind.\<close>

lemma since_put:
  assumes s: "since d0 C d" and new: "dk_next d0 \<le> i" and i: "i < dk_next d"
    and kind: "is_dir d i = is_dir_node n" and es: "is_dir_node n \<Longrightarrow> entries d i = (case n of DirNode es \<Rightarrow> es | _ \<Rightarrow> [])"
  shows "since d0 C (put_node i n d)"
proof -
  have e: "entries (put_node i n d) = entries d"
    using kind es by (auto simp: fun_eq_iff entries_put entries_def is_dir_def is_dir_node_def split: node.splits option.splits)
  have f: "entry_of (put_node i n d) = entry_of d"
    using e same_fold_find [of "put_node i n d" d] by (auto simp: fun_eq_iff entry_of_def)
  have g: "is_dir (put_node i n d) = is_dir d" using kind by (auto simp: fun_eq_iff is_dir_put)
  have h: "dk_nodes d0 i = None" using s new by (simp add: since_def wf_disk_def)
  show ?thesis using s i h by (auto simp: since_def wf_disk_def lost_nothing_def gained_only_def e f g)
qed

lemma since_new:
  assumes s: "since d0 C d" and n: "is_dir_node n \<Longrightarrow> n = DirNode []"
  shows "since d0 C (put_node (dk_next d) n (d\<lparr>dk_next := Suc (dk_next d)\<rparr>))"
proof -
  let ?e = "d\<lparr>dk_next := Suc (dk_next d)\<rparr>"
  let ?i = "dk_next d"
  have none: "dk_nodes d ?i = None" using s by (simp add: since_def wf_disk_def)
  have obs: "entries ?e = entries d" "entry_of ?e = entry_of d" "is_dir ?e = is_dir d"
    by (auto simp: fun_eq_iff entries_def entry_of_def find_entry_def name_key_def is_dir_def)
  have e: "entries (put_node ?i n ?e) = entries d"
    using none n by (auto simp: fun_eq_iff entries_put obs entries_def is_dir_node_def split: node.splits)
  have f: "entry_of (put_node ?i n ?e) = entry_of d"
    using e same_fold_find [of "put_node ?i n ?e" d] by (auto simp: fun_eq_iff entry_of_def)
  have g: "is_dir d j \<Longrightarrow> is_dir (put_node ?i n ?e) j" for j
    using none by (auto simp: is_dir_put obs is_dir_def)
  have h: "dk_nodes d0 ?i = None" using s by (simp add: wf_disk_def since_def)
  have "lost_nothing d0 (put_node ?i n ?e)"
    using s h g by (auto simp: since_def lost_nothing_def f)
  moreover have "gained_only C d0 (put_node ?i n ?e)"
    using s g unfolding since_def gained_only_def e by blast
  moreover have "wf_disk (put_node ?i n ?e)" using s by (auto simp: since_def wf_disk_def)
  ultimately show ?thesis using s by (simp add: since_def)
qed

lemma new_node_cases:
  "new_node dir name n d =
     (if \<not> is_dir d dir then (Inl (OsErrno ENOTDIR), d)
      else if entry_of d dir name \<noteq> None then (Inl (OsErrno EEXIST), d)
      else (Inr (dk_next d), add_entry dir name (dk_next d)
        (put_node (dk_next d) n (d\<lparr>dk_next := Suc (dk_next d)\<rparr>))))"
  by (simp add: new_node_def Let_def)

lemma new_node_law:
  assumes s: "since d0 C d" and n: "is_dir_node n \<Longrightarrow> n = DirNode []"
    and C: "C \<subseteq> C'" and ok: "is_dir_node n \<or> (dir, name) \<in> C'"
  shows "wp (new_node dir name n)
    (\<lambda>i t. since d0 C' t \<and> entry_of d0 dir name = None \<and> dk_next d0 \<le> i) (\<lambda>_. since d0 C) d"
proof (cases "is_dir d dir \<and> entry_of d dir name = None")
  case False
  then show ?thesis using s by (auto simp: wp_def new_node_cases)
next
  case True
  let ?i = "dk_next d"
  let ?e = "d\<lparr>dk_next := Suc (dk_next d)\<rparr>"
  let ?f = "put_node ?i n ?e"
  have lt: "dir < ?i" using True s dir_below_next by (simp add: since_def)
  have f: "since d0 C' ?f" using since_new [OF since_mono [OF s C] n] .
  have d1: "is_dir ?f dir" using True lt by (simp add: is_dir_put is_dir_def)
  have d2: "is_dir ?f ?i = is_dir_node n" by (simp add: is_dir_put)
  have ent: "entries ?f dir = entries d dir" using lt by (simp add: entries_put entries_def)
  have e1: "entry_of ?f dir name = None"
    using True ent same_fold_find [of ?f d] by (simp add: entry_of_def)
  have "since d0 C' (add_entry dir name ?i ?f)"
    by (rule since_add [OF f d1 e1]) (use d2 ok in auto)
  then show ?thesis using True s since_absent [OF s]
    by (simp add: wp_def new_node_cases) (simp add: since_def)
qed

lemma store_bytes_law:
  assumes s: "since d0 C d" and i: "dk_next d0 \<le> i"
  shows "wp (store_bytes i bs) (\<lambda>_. since d0 C) (\<lambda>_. since d0 C) d"
proof (cases "\<exists>old. dk_nodes d i = Some (FileNode old)")
  case True
  then obtain old where old: "dk_nodes d i = Some (FileNode old)" by blast
  have "i < dk_next d" using s old by (auto simp: since_def wf_disk_def intro: ccontr)
  moreover have "\<not> is_dir d i" using old by (simp add: is_dir_def is_dir_node_def)
  ultimately have "since d0 C (put_node i (FileNode (old @ bs)) d)"
    using since_put [OF s i] by (simp add: is_dir_node_def)
  then show ?thesis by (simp add: wp_def store_bytes_def old)
next
  case False
  then show ?thesis using s by (auto simp: wp_def store_bytes_def split: option.splits node.splits)
qed

lemma move_entry_law:
  assumes s: "since d0 C d" and gone: "entry_of d0 dir src = None"
  shows "wp (move_entry dir src dst)
    (\<lambda>_ t. since d0 (insert (dir, dst) (C - {(dir, src)})) t \<and> entry_of d0 dir dst = None)
    (\<lambda>e t. since d0 C t \<and> (e = OsErrno ENOENT \<longrightarrow> since d0 (C - {(dir, src)}) t)) d"
proof (cases "is_dir d dir \<and> entry_of d dir src \<noteq> None \<and> entry_of d dir dst = None")
  case True
  then obtain i where i: "entry_of d dir src = Some i" by blast
  let ?m = "drop_entry dir src d"
  have m: "since d0 (C - {(dir, src)}) ?m" using since_drop [OF s _ gone] True by blast
  have "is_dir ?m dir" by (simp add: drop_entry_def is_dir_put is_dir_node_def)
  moreover have "entry_of ?m dir dst = None" using True by (simp add: entry_of_drop)
  moreover have "since d0 (insert (dir, dst) (C - {(dir, src)})) ?m" by (rule since_mono [OF m]) blast
  ultimately have "since d0 (insert (dir, dst) (C - {(dir, src)})) (add_entry dir dst i ?m)"
    by (intro since_add) auto
  then show ?thesis using True i since_absent [OF s] by (simp add: wp_def move_entry_def)
next
  case False
  have none: "since d0 (C - {(dir, src)}) d" if "entry_of d dir src = None"
    using s that entry_of_in [of src _ d dir] unfolding since_def gained_only_def by fastforce
  show ?thesis
    using False s none by (auto simp: wp_def move_entry_def split: option.splits)
qed

lemma copy_entry_law:
  assumes s: "since d0 C d"
  shows "wp (copy_entry dir src dst) (\<lambda>_ t. since d0 (insert (dir, dst) C) t \<and> entry_of d0 dir dst = None)
    (\<lambda>_. since d0 C) d"
proof (cases "\<exists>i n. child_node d dir src = Inr (i, n) \<and> \<not> is_dir_node n \<and> entry_of d dir dst = None")
  case True
  then obtain i n where c: "child_node d dir src = Inr (i, n)" "\<not> is_dir_node n" "entry_of d dir dst = None" by blast
  then have "is_dir d dir" by (simp add: child_node_def split: if_splits)
  moreover have "since d0 (insert (dir, dst) C) d" by (rule since_mono [OF s]) blast
  ultimately have "since d0 (insert (dir, dst) C) (add_entry dir dst i d)"
    using c by (intro since_add) auto
  then show ?thesis using c since_absent [OF s] by (simp add: wp_def copy_entry_def)
next
  case False
  then show ?thesis using s by (auto simp: wp_def copy_entry_def split: sum.splits)
qed

lemma remove_entry_law:
  assumes s: "since d0 C d" and gone: "entry_of d0 dir name = None"
  shows "wp (remove_entry dir name) (\<lambda>_. since d0 (C - {(dir, name)})) (\<lambda>_. since d0 C) d"
proof (cases "child_node d dir name")
  case (Inl e)
  then show ?thesis using s by (simp add: wp_def remove_entry_def)
next
  case (Inr p)
  then have "is_dir d dir" by (cases p) (simp add: child_node_def split: if_splits)
  then have "since d0 (C - {(dir, name)}) (drop_entry dir name d)" using since_drop [OF s _ gone] by blast
  then show ?thesis using Inr s by (cases p) (simp add: wp_def remove_entry_def)
qed

text \<open>The model of the disk fulfils the contract, whatever disk the transaction starts from.\<close>

interpretation card_store: exclusive_store "since d0" "\<lambda>dir name. entry_of d0 dir name = None" "\<lambda>i. dk_next d0 \<le> i"
  for d0
proof
  fix C C' d t dir name n i bs src dst
  show "since d0 C d \<Longrightarrow> same_files d t \<Longrightarrow> since d0 C t" by (rule since_same)
  show "since d0 C d \<Longrightarrow> C \<subseteq> C' \<Longrightarrow> since d0 C' d" by (rule since_mono)
  show "since d0 (insert (dir, n) C) d \<Longrightarrow> hidden_name n \<Longrightarrow> since d0 C d" by (rule since_hidden)
  show "since d0 C d \<Longrightarrow> wp (sys_mkdir dir name) (\<lambda>_. since d0 C) (\<lambda>_. since d0 C) d"
    unfolding sys_mkdir_def
    by (rule wp_syscall) (auto simp: wp_simps is_dir_node_def intro!: wp_mono [OF new_node_law])
  show "since d0 C d \<Longrightarrow> wp (sys_create dir name)
      (\<lambda>i t. since d0 (insert (dir, name) C) t \<and> entry_of d0 dir name = None \<and> dk_next d0 \<le> i) (\<lambda>_. since d0 C) d"
    unfolding sys_create_def
    by (rule wp_syscall) (auto simp: is_dir_node_def intro!: new_node_law)
  show "since d0 C d \<Longrightarrow> dk_next d0 \<le> i \<Longrightarrow> wp (sys_write i bs) (\<lambda>_. since d0 C) (\<lambda>_. since d0 C) d"
  proof -
    assume s: "since d0 C d" and i: "dk_next d0 \<le> i"
    from s have "since d0 C (call_made d)" by blast
    then have "wp (store_bytes i xs) (\<lambda>_. since d0 C) (\<lambda>_. since d0 C) (call_made d)" for xs
      using i by (rule store_bytes_law)
    moreover have "wp (ebind (store_bytes i xs) (\<lambda>_. eraise e) :: unit fs) (\<lambda>_. since d0 C) (\<lambda>_. since d0 C) (call_made d)" for xs e
      using calculation by (simp add: wp_simps)
    ultimately show ?thesis
      by (simp add: wp_def sys_write_def call_made_def Let_def split: option.splits)
  qed
  show "since d0 C d \<Longrightarrow> entry_of d0 dir src = None \<Longrightarrow> wp (sys_rename_noreplace dir src dst)
        (\<lambda>_ t. since d0 (insert (dir, dst) (C - {(dir, src)})) t \<and> entry_of d0 dir dst = None)
        (\<lambda>e t. since d0 C t \<and> (e = OsErrno ENOENT \<longrightarrow> since d0 (C - {(dir, src)}) t)) d"
    unfolding sys_rename_noreplace_def
    by (rule wp_syscall) (auto simp: truthful_def intro!: move_entry_law)
  show "since d0 C d \<Longrightarrow> wp (sys_link dir src dst)
      (\<lambda>_ t. since d0 (insert (dir, dst) C) t \<and> entry_of d0 dir dst = None) (\<lambda>_. since d0 C) d"
    unfolding sys_link_def by (rule wp_syscall) (auto intro!: copy_entry_law)
  show "since d0 C d \<Longrightarrow> entry_of d0 dir name = None \<Longrightarrow>
      wp (sys_unlink dir name) (\<lambda>_. since d0 (C - {(dir, name)})) (\<lambda>_. since d0 C) d"
    unfolding sys_unlink_def by (rule wp_syscall) (auto intro!: remove_entry_law)
qed

end
