(* ===== verification/Disk_Facts.thy ===== *)
theory Disk_Facts
  imports Exclusive_Store
begin

text \<open>
  Facts about the disk that every script's proofs share: what a call that succeeded says of the disk,
  the file a path leads to, steps that lose nothing, the exceptions of the system calls, and the
  equations that run a program on a disk without faults.
\<close>

section \<open>Results of calls\<close>

lemma get_call_Inr:
  assumes "syscall (get_state f) d = (Inr x, t)"
  shows "f (call_made d) = Inr x" "t = call_made d"
  using assms by (auto simp: syscall_def get_state_def call_made_def Let_def split: option.splits if_splits)

lemma get_call_both: "syscall (get_state f) d = (Inr x, t) \<Longrightarrow> f (call_made d) = Inr x \<and> t = call_made d"
  by (intro conjI; rule get_call_Inr)

lemma os_errors_as_Inr [res_simps]: "os_errors_as e m d = (Inr x, t) \<longleftrightarrow> m d = (Inr x, t)"
  by (auto simp: os_errors_as_def ecatch_def eraise_def split: prod.splits sum.splits py_error.splits)

lemma same_after:
  assumes "\<And>s. keeps (same_files s) m" and "m d = (r, t)"
  shows "same_files d t"
  by (rule keeps_state [OF assms(1) same_files_refl assms(2)])

lemma walk_path_same: "same_files d t \<Longrightarrow> walk_path t k follow st cs = walk_path d k follow st cs"
proof (induction d k follow st cs rule: walk_path.induct)
  case (1 d k follow st)
  then show ?case by simp
next
  case (2 d k follow st c cs)
  have ch: "child_node t = child_node d" by (rule same_files_observe(6) [OF "2.prems"])
  show ?case
  proof (cases "c = ''..''")
    case True
    then show ?thesis using 2 by simp
  next
    case False
    show ?thesis
      unfolding walk_path.simps(2) ch
      using False 2 by (auto intro!: rbind_cong split: node.splits nat.splits prod.splits)
  qed
qed

lemma node_at_same: "same_files d t \<Longrightarrow> node_at t = node_at d"
  using walk_path_same [of d t] by (auto simp: fun_eq_iff node_at_def resolve_ino_def same_files_def)

lemma lstat_Inr: "sys_lstat path d = (Inr p, t) \<Longrightarrow> node_at d False path = Inr p \<and> same_files d t"
  unfolding sys_lstat_def using get_call_Inr [of "\<lambda>d. node_at d False path" d p t] node_at_same [OF same_call [of d]]
  by auto

lemma fstat_Inr: "sys_fstat i d = (Inr n, t) \<Longrightarrow> dk_nodes d i = Some n \<and> same_files d t"
  unfolding sys_fstat_def
  by (drule get_call_both) (auto simp: call_made_def same_files_def split: option.splits)

lemma open_path_Inr:
  "sys_open_path path d = (Inr i, t) \<Longrightarrow> \<exists>n. node_at d False path = Inr (i, n) \<and> same_files d t"
  unfolding sys_open_path_def
  using get_call_Inr [of "\<lambda>d. rbind (node_at d False path) (\<lambda>(i, n). if is_link_node n then Inl (OsErrno ELOOP) else Inr i)" d i t]
    node_at_same [OF same_call [of d]]
  by (auto simp: res_simps)

lemma stat_at_Inr: "sys_stat_at dir name d = (Inr p, t) \<Longrightarrow> child_node d dir name = Inr p \<and> same_files d t"
  unfolding sys_stat_at_def using get_call_Inr [of "\<lambda>d. child_node d dir name" d p t] same_files_observe(6) [OF same_call [of d]]
  by auto

lemma open_at_Inr: "sys_open_at dir name d = (Inr i, t) \<Longrightarrow> \<exists>n. child_node d dir name = Inr (i, n) \<and> same_files d t"
  unfolding sys_open_at_def
  using get_call_Inr [of "\<lambda>d. rbind (child_node d dir name) (\<lambda>(i, n). if is_link_node n then Inl (OsErrno ELOOP) else Inr i)" d i t]
    same_files_observe(6) [OF same_call [of d]]
  by (auto simp: res_simps)

lemma open_dir_at_Inr:
  "sys_open_dir_at dir name d = (Inr i, t) \<Longrightarrow> \<exists>n. child_node d dir name = Inr (i, n) \<and> is_dir_node n \<and> same_files d t"
  unfolding sys_open_dir_at_def
  using get_call_Inr [of "\<lambda>d. rbind (child_node d dir name) (\<lambda>(i, n). if is_dir_node n then Inr i else Inl (OsErrno ENOTDIR))" d i t]
    same_files_observe(6) [OF same_call [of d]]
  by (auto simp: res_simps split: if_splits)

lemma child_node_Inr:
  "child_node d dir name = Inr (i, n) \<longleftrightarrow> is_dir d dir \<and> entry_of d dir name = Some i \<and> dk_nodes d i = Some n"
  by (auto simp: child_node_def split: option.splits)

lemma read_file_contents:
  assumes "read_upto i limit [] d = (Inr bs, t)" and "dk_nodes d i = Some n" and "is_file_node n"
    and "length bs < limit"
  shows "n = FileNode bs"
proof -
  obtain all where n: "n = FileNode all" using assms(3) by (cases n) (simp_all add: is_file_node_def)
  have "bs = take limit all" using read_upto_contents [OF assms(1)] assms(2) n by simp
  then show ?thesis using n assms(4) by simp
qed

section \<open>Files below a directory\<close>

text \<open>The file a path of directory entries leads to.\<close>

fun dir_below :: "disk \<Rightarrow> ino \<Rightarrow> string list \<Rightarrow> ino option" where
  "dir_below d i [] = Some i"
| "dir_below d i (p # ps) = (case entry_of d i p of
     None \<Rightarrow> None
   | Some j \<Rightarrow> if is_dir d j then dir_below d j ps else None)"

definition file_below :: "disk \<Rightarrow> ino \<Rightarrow> string list \<Rightarrow> byte list option" where
  "file_below d i path = (case dir_below d i (butlast path) of
     None \<Rightarrow> None
   | Some dir \<Rightarrow> (case entry_of d dir (last path) of
       None \<Rightarrow> None
     | Some j \<Rightarrow> (case dk_nodes d j of Some (FileNode b) \<Rightarrow> Some b | _ \<Rightarrow> None)))"

lemma lost_nothing_dir: "lost_nothing d t \<Longrightarrow> is_dir d i \<Longrightarrow> is_dir t i"
  by (fastforce simp: lost_nothing_def is_dir_def split: option.splits)

lemma dir_below_kept: "lost_nothing d t \<Longrightarrow> dir_below d i ps = Some j \<Longrightarrow> dir_below t i ps = Some j"
proof (induction ps arbitrary: i)
  case Nil
  then show ?case by simp
next
  case (Cons p ps)
  then obtain k where "entry_of d i p = Some k" "is_dir d k" "dir_below d k ps = Some j"
    by (auto split: option.splits if_splits)
  moreover from this have "entry_of t i p = Some k" "is_dir t k"
    using Cons.prems(1) lost_nothing_dir by (auto simp: lost_nothing_def)
  ultimately show ?case using Cons.IH Cons.prems(1) by simp
qed

lemma file_below_kept:
  assumes "lost_nothing d t" and "file_below d i path = Some b"
  shows "file_below t i path = Some b"
proof -
  from assms(2) obtain dir j where dj: "dir_below d i (butlast path) = Some dir" "entry_of d dir (last path) = Some j"
    "dk_nodes d j = Some (FileNode b)"
    by (auto simp: file_below_def split: option.splits node.splits)
  moreover have "dk_nodes t j = Some (FileNode b)"
    using assms(1) dj(3) by (force simp: lost_nothing_def is_dir_node_def)
  ultimately show ?thesis
    using assms(1) dir_below_kept [OF assms(1) dj(1)] by (simp add: file_below_def lost_nothing_def)
qed

lemma same_lost_nothing: "same_files d t \<Longrightarrow> lost_nothing d t"
  using same_files_observe [of d t] by (simp add: lost_nothing_def is_dir_def)

lemma lost_nothing_trans: "lost_nothing a b \<Longrightarrow> lost_nothing b c \<Longrightarrow> lost_nothing a c"
proof -
  assume ab: "lost_nothing a b" and bc: "lost_nothing b c"
  have "if is_dir_node n then is_dir c i else dk_nodes c i = Some n" if "dk_nodes a i = Some n" for i n
  proof (cases "is_dir_node n")
    case True
    then have "is_dir b i" using ab that by (auto simp: lost_nothing_def)
    then show ?thesis using True lost_nothing_dir [OF bc] by simp
  next
    case False
    then have "dk_nodes b i = Some n" using ab that by (auto simp: lost_nothing_def)
    then have "if is_dir_node n then is_dir c i else dk_nodes c i = Some n" using bc by (simp add: lost_nothing_def)
    then show ?thesis using False by simp
  qed
  then show ?thesis using ab bc by (simp add: lost_nothing_def)
qed

text \<open>A step that keeps the contract of its own start loses nothing and leaves a well-formed disk.\<close>

definition safe_step :: "disk \<Rightarrow> disk \<Rightarrow> bool" where
  "safe_step d t = (wf_disk d \<longrightarrow> wf_disk t \<and> lost_nothing d t)"

lemma safe_stepI: "(wf_disk d \<Longrightarrow> \<exists>C. since d C t) \<Longrightarrow> safe_step d t"
  by (auto simp: safe_step_def since_def)

lemma safe_same: "same_files d t \<Longrightarrow> safe_step d t"
  using same_lost_nothing by (auto simp: safe_step_def wf_disk_def same_files_def)

lemma safe_trans: "safe_step a b \<Longrightarrow> safe_step b c \<Longrightarrow> safe_step a c"
  using lost_nothing_trans by (auto simp: safe_step_def)

lemma wp_result: "wp m (\<lambda>_. Q) (\<lambda>_. Q) d \<Longrightarrow> m d = (r, t) \<Longrightarrow> Q t"
  by (cases r) (auto simp: wp_def)

lemma file_belowI:
  assumes "dir_below d i (butlast path) = Some dir" and "entry_of d dir (last path) = Some j"
    and "dk_nodes d j = Some (FileNode b)"
  shows "file_below d i path = Some b"
  using assms by (simp add: file_below_def)

section \<open>Exceptions of the calls\<close>

text \<open>System calls raise nothing but system errors, so a handler for these catches everything.\<close>

definition os_error :: "py_error \<Rightarrow> bool" where
  "os_error e = (case e of OsErrno n \<Rightarrow> True | _ \<Rightarrow> False)"

lemma os_error_simp [simp]: "os_error (OsErrno n)"
  by (simp add: os_error_def)

lemma child_node_os: "child_node d dir name = Inl e \<Longrightarrow> os_error e"
  by (auto simp: child_node_def split: if_splits option.splits)

lemma raises_syscall: "raises os_error m \<Longrightarrow> raises os_error (syscall m)"
  by (rule raisesI) (auto simp: syscall_def Let_def dest: raises_Inl split: option.splits if_splits)

lemma os_calls:
  "raises os_error (sys_unlink dir name)" "raises os_error (sys_sync i)"
  "raises os_error (sys_rename_noreplace dir src dst)" "raises os_error (sys_fstat i)"
  "raises os_error (sys_stat_at dir name)" "raises os_error (sys_open_at dir name)"
  "raises os_error (sys_read i off n)" "raises os_error (sys_listdir dir)" "raises os_error draw_token"
  unfolding sys_unlink_def sys_sync_def sys_rename_noreplace_def sys_fstat_def sys_stat_at_def sys_open_at_def
    sys_read_def sys_listdir_def
  by ((rule raises_syscall)?, rule raisesI,
      (auto simp: remove_entry_def ereturn_def move_entry_def child_node_os get_state_def draw_token_def rbind_def
        split: sum.splits if_splits option.splits prod.splits node.splits)[1])+

section \<open>Running on a disk without faults\<close>

lemma syscall_ok: "dk_fault d = (\<lambda>_. None) \<Longrightarrow> syscall act d = act (call_made d)"
  by (simp add: syscall_def call_made_def Let_def)
lemma write_ok: "dk_fault d = (\<lambda>_. None) \<Longrightarrow> sys_write i bs d = store_bytes i bs (call_made d)"
  by (simp add: sys_write_def call_made_def Let_def)

lemma small_chunk: "Suc 0 \<le> READ_CHUNK" "Suc (Suc 0) \<le> READ_CHUNK"
  by (simp_all add: READ_CHUNK_def)

lemma read_whole:
  assumes "dk_fault d = (\<lambda>_. None)" and "dk_nodes d i = Some (FileNode bs)" and "length bs < limit" and "bs \<noteq> []" and "length bs \<le> READ_CHUNK"
  shows "read_upto i limit [] d = (Inr bs, call_made (call_made d))"
proof -
  have *: "take (min READ_CHUNK limit) bs = bs" using assms(3,5) by simp
  have l: "dk_fault (call_made d) = (\<lambda>_. None)" "dk_nodes (call_made e) = dk_nodes e" for e using assms(1) by (simp_all add: call_made_def)
  show ?thesis
    using assms * l
    by (subst read_upto.simps, simp add: ebind_def sys_read_def syscall_ok get_state_def ereturn_def, subst read_upto.simps)
      (simp add: ebind_def sys_read_def syscall_ok get_state_def ereturn_def)
qed

end
