(* ===== verification/Save_Migration_Facts.thy ===== *)
theory Save_Migration_Facts
  imports Save_Migration Disk_Facts Exclusive_Store
begin

text \<open>
  What the cartridge-save migration does to a card. The transaction is proved once against the
  contract \<open>exclusive_store\<close>; the properties instantiate it with the disk the program starts from.
\<close>

section \<open>Programs that only read\<close>

lemmas plan_defs = sd_root_of_def case_safe_child_def missing_as_def if_present_def read_plain_file_def
  destination_state_def all_roms_of_def selected_roms_def inspect_rom_def collect_file_def plan_rom_def
  plan_state_def plan_migration_def Let_def

lemma reads_missing_as [keep_intros]: "keeps I m \<Longrightarrow> keeps I (missing_as e m)"
  unfolding missing_as_def by (intro keep_intros)

lemma reads_if_present [keep_intros]: "keeps I m \<Longrightarrow> keeps I (if_present m)"
  unfolding if_present_def by (intro keep_intros)

lemma reads_sd_root [keep_intros]: "keeps (same_files s) (sd_root_of path)"
  unfolding sd_root_of_def by (intro keep_intros)

lemma reads_case_safe_child [keep_intros]: "keeps (same_files s) (case_safe_child parent name)"
  unfolding case_safe_child_def by (intro keep_intros)

lemma reads_path_below [keep_intros]: "keeps (same_files s) (path_below current parts)"
  by (induction current parts rule: path_below.induct) (auto intro!: keep_intros)

lemma reads_read_plain_file [keep_intros]: "keeps (same_files s) (read_plain_file path maximum)"
  unfolding read_plain_file_def by (intro keep_intros)

lemma reads_destination_state [keep_intros]: "keeps (same_files s) (destination_state sdroot relative payload)"
  unfolding destination_state_def by (intro keep_intros)

lemma reads_walk [keep_intros]: "keeps (same_files s) (walk_roms fuel directory relative st)"
proof (induction fuel arbitrary: directory relative st)
  case 0
  then show ?case by (simp add: keep_intros)
next
  case (Suc fuel)
  show ?case unfolding walk_roms.simps walk_entry_def by (intro keep_intros Suc)
qed

lemma reads_selected [keep_intros]: "keeps (same_files s) (selected_roms sdroot selected all_roms)"
  unfolding selected_roms_def all_roms_of_def by (intro keep_intros)

lemma reads_plan_rom [keep_intros]: "keeps (same_files s) (plan_rom sdroot relative acc)"
  unfolding plan_rom_def inspect_rom_def collect_file_def Let_def by (intro keep_intros)

lemma reads_plan [keep_intros]: "keeps (same_files s) (plan_migration sd_root selected all_roms)"
  unfolding plan_migration_def plan_state_def Let_def by (intro keep_intros)

lemma reads_case_safe_name [keep_intros]: "keeps (same_files s) (case_safe_name_at directory name)"
  unfolding case_safe_name_at_def by (intro keep_intros)

lemma reads_open_below [keep_intros]: "keeps (same_files s) (open_below current parts False)"
  by (induction current parts False rule: open_below.induct) (auto intro!: keep_intros)

lemma reads_read_destination [keep_intros]: "keeps (same_files s) (read_destination_at directory name expected)"
  unfolding read_destination_at_def by (intro keep_intros)

lemma reads_destination_state_at [keep_intros]: "keeps (same_files s) (destination_state_at directory name payload)"
  unfolding destination_state_at_def by (intro keep_intros)

lemma reads_fsync [keep_intros]: "keeps (same_files s) (fsync_directory_best_effort directory)"
  unfolding fsync_directory_best_effort_def ignore_os_errors_def
  by (auto intro!: keep_intros split: py_error.splits)

lemma reads_confirm [keep_intros]: "keeps (same_files s) (confirm_parent_identity rd relative parent)"
  unfolding confirm_parent_identity_def open_parent_at_def by (intro keep_intros)

lemma reads_verify [keep_intros]: "keeps (same_files s) (verify_created_at created)"
  unfolding verify_created_at_def by (intro keep_intros)

lemma reads_check [keep_intros]: "keeps (same_files s) (check_published rd installed)"
  unfolding check_published_def by (intro keep_intros)

lemma reads_open_root [keep_intros]: "keeps (same_files s) (open_root_descriptor sdroot inode)"
  unfolding open_root_descriptor_def by (intro keep_intros)

lemma reads_replan [keep_intros]: "keeps (same_files s) (replan plan sdroot selected all_roms)"
  unfolding replan_def by (intro keep_intros)

lemma hidden_names [simp]: "hidden_name (temp_name name token)" "hidden_name (rollback_name name token)"
  by (simp_all add: hidden_name_def temp_name_def rollback_name_def ends_with_def)

text \<open>What the calls of a transaction raise; handlers for both kinds catch everything.\<close>

definition card_error :: "py_error \<Rightarrow> bool" where
  "card_error e = (case e of OsErrno n \<Rightarrow> True | MigrationError m \<Rightarrow> True | _ \<Rightarrow> False)"

lemma error_kinds [simp]:
  "card_error (OsErrno n)" "card_error (MigrationError m)" "os_error e \<Longrightarrow> card_error e"
  by (auto simp: os_error_def card_error_def split: py_error.splits)

lemmas card_calls [raise_intros] = os_calls [THEN raises_mono, OF error_kinds(3)]

lemma wp_ignore:
  assumes "raises os_error m" and "wp m Q (\<lambda>e. Q ()) s"
  shows "wp (ignore_os_errors m) Q E s"
proof -
  have "wp m (\<lambda>x t. Q x t \<and> True) (\<lambda>e t. Q () t \<and> os_error e) s"
    by (rule wp_conj [OF assms(2)]) (use assms(1) in \<open>simp add: raises_def\<close>)
  then show ?thesis
    unfolding ignore_os_errors_def wp_catch
    by (rule wp_mono) (auto simp: wp_simps os_error_def split: py_error.splits)
qed

lemma raises_read_upto [raise_intros]: "raises card_error (read_upto i limit acc)"
proof (rule raisesI)
  fix d e t
  show "read_upto i limit acc d = (Inl e, t) \<Longrightarrow> card_error e"
  proof (induction i limit acc d rule: read_upto.induct)
    case (1 i limit acc d)
    let ?rd = "sys_read i (length acc) (min READ_CHUNK (limit - length acc))"
    have f: "\<not> limit \<le> length acc" using 1(2) by (auto simp: read_upto.simps ereturn_def split: if_splits)
    obtain r u where ru: "?rd d = (r, u)" by (cases "?rd d")
    show ?case
    proof (cases r)
      case (Inl e')
      then show ?thesis using 1(2) f ru raises_Inl [OF os_calls(7), of i "length acc"]
        by (subst (asm) read_upto.simps) (auto simp: ebind_def)
    next
      case (Inr chunk)
      then have "chunk \<noteq> []" "read_upto i limit (acc @ chunk) u = (Inl e, t)"
        using 1(2) f ru by (subst (asm) read_upto.simps; auto simp: ebind_def ereturn_def split: if_splits)+
      then show ?thesis using 1(1) [OF f] ru Inr by blast
    qed
  qed
qed

lemma raises_case_safe_name [raise_intros]: "raises card_error (case_safe_name_at directory name)"
  unfolding case_safe_name_at_def
  by (intro raise_intros) (auto simp: case_safe_def Let_def split: if_splits)

lemma raises_read_destination [raise_intros]: "raises card_error (read_destination_at directory name expected)"
  unfolding read_destination_at_def by (intro raise_intros) auto

lemma raises_quarantine [raise_intros]: "raises card_error (quarantine_created n c)"
proof (induction n)
  case 0
  then show ?case by (simp add: raise_intros)
next
  case (Suc n)
  show ?case
    unfolding quarantine_created.simps Let_def
    by (intro raise_intros raises_catch [where R = card_error] Suc)
      (auto simp: Suc intro: raise_intros split: py_error.splits)
qed

lemma raises_ignore [raise_intros]: "raises P m \<Longrightarrow> raises P (ignore_os_errors m)"
  unfolding ignore_os_errors_def by (rule raises_catch [where R = P]) (auto intro: raise_intros split: py_error.splits)

lemma raises_rollback [raise_intros]: "raises card_error (rollback_created_at c)"
  unfolding rollback_created_at_def remove_quarantined_def restore_quarantined_def fsync_directory_best_effort_def
  by (intro raise_intros raises_catch [where R = card_error]) (auto intro: raise_intros split: py_error.splits)

lemma rollback_step_silent: "wp (rollback_step c left) (\<lambda>_ _. True) (\<lambda>_ _. False) d"
proof -
  have "wp (rollback_created_at c) (\<lambda>_ _. True) (\<lambda>e _. card_error e) d"
    using raises_rollback [of c] by (simp add: raises_def)
  then show ?thesis
    unfolding rollback_step_def wp_catch wp_bind
    by (rule wp_mono) (auto simp: wp_simps card_error_def split: py_error.splits)
qed

lemma rollback_all_silent: "wp (efold rollback_step cs left) (\<lambda>_ _. True) (\<lambda>_ _. False) d"
proof (induction cs arbitrary: left d)
  case Nil
  then show ?case by (simp add: wp_simps)
next
  case (Cons c cs)
  show ?case unfolding efold.simps wp_bind by (rule wp_mono [OF rollback_step_silent]) (simp_all add: Cons)
qed

definition created_names :: "created_file list \<Rightarrow> (ino \<times> string) set" where
  "created_names cs = (\<lambda>c. (cd_parent c, cd_name c)) ` set cs"

section \<open>The transaction against the contract\<close>

context exclusive_store
begin

lemma read_then:
  assumes "\<And>s. keeps (same_files s) m" and "keep C d"
    and "\<And>x t. keep C t \<Longrightarrow> Q x t" and "\<And>e t. keep C t \<Longrightarrow> E e t"
  shows "wp m Q E d"
  by (rule wp_mono [OF read_law [OF assms(1,2)]]) (auto intro: assms(3,4))

lemma allocate_keeps:
  "keep C d \<Longrightarrow> wp (allocate_temporary n directory name)
     (\<lambda>(t, i) s. keep C s \<and> absent directory t \<and> hidden_name t \<and> fresh i) (\<lambda>_. keep C) d"
proof (induction n arbitrary: d)
  case 0
  then show ?case by (simp add: wp_simps)
next
  case (Suc n)
  show ?case
    unfolding allocate_temporary.simps wp_bind Let_def
  proof (rule wp_mono [OF read_law [OF reads_token Suc.prems]])
    fix token t assume t: "keep C t"
    show "wp (ecatch (ebind (sys_create directory (temp_name name token)) (\<lambda>i. ereturn (temp_name name token, i)))
        (\<lambda>e. if e = OsErrno EEXIST then allocate_temporary n directory name else eraise e))
      (\<lambda>(t, i) s. keep C s \<and> absent directory t \<and> hidden_name t \<and> fresh i) (\<lambda>_. keep C) t"
      using Suc.IH by (auto simp: wp_simps intro!: wp_mono [OF create_law [OF t]] elim: keep_hidden)
  qed
qed

lemma install_keeps:
  assumes "keep C d" and "absent directory src" and h: "hidden_name src"
  shows "wp (install_atomic_no_replace_at directory src dst)
    (\<lambda>_ s. keep (insert (directory, dst) C) s \<and> absent directory dst) (\<lambda>_. keep C) d"
proof -
  have link: "wp (link_no_replace directory src dst)
      (\<lambda>_ s. keep (insert (directory, dst) C) s \<and> absent directory dst) (\<lambda>_. keep C) t" if "keep C t" for t
    unfolding link_no_replace_def wp_bind wp_catch
    by (rule wp_mono [OF link_law [OF that]]) (auto simp: wp_simps split: py_error.splits)
  show ?thesis
    unfolding install_atomic_no_replace_at_def wp_bind wp_catch
    by (rule wp_mono [OF rename_law [OF assms(1,2)]])
      (auto simp: wp_simps link split: py_error.splits elim!: keep_mono)
qed

lemma fill_keeps:
  assumes "keep C d" and "absent directory t" and "hidden_name t" and "fresh i"
  shows "wp (fill_and_install directory name payload t i)
    (\<lambda>_ s. keep (insert (directory, name) C) s \<and> absent directory name) (\<lambda>_. keep C) d"
  unfolding fill_and_install_def wp_bind
  by (rule wp_mono [OF write_law [OF assms(1,4)]], assumption?)
    (intro wp_mono [OF read_law] keep_intros install_keeps assms | assumption)+

lemma fsync_keeps:
  assumes "keep C d"
  shows "wp (fsync_directory_best_effort directory) (\<lambda>_. keep C) E d"
  unfolding fsync_directory_best_effort_def
  by (rule wp_ignore [OF os_calls(2) read_law [OF reads_sync assms]])

lemma drop_temporary_keeps:
  assumes "keep C d" and "absent directory temporary"
  shows "wp (ignore_os_errors (sys_unlink directory temporary)) (\<lambda>_. keep C) E d"
  by (rule wp_ignore [OF os_calls(1) remove_law [OF assms]])

lemma write_new_keeps:
  assumes "keep C d"
  shows "wp (atomic_write_new_at directory name payload)
    (\<lambda>_ s. keep (insert (directory, name) C) s \<and> absent directory name) (\<lambda>_. keep C) d"
  unfolding atomic_write_new_at_def wp_bind
proof (rule wp_mono [OF allocate_keeps [OF assms]])
  fix p t assume "(\<lambda>(t, i) s. keep C s \<and> absent directory t \<and> hidden_name t \<and> fresh i) p t"
  then obtain temporary i where p: "p = (temporary, i)" and t: "keep C t"
    and abs: "absent directory temporary" "hidden_name temporary" "fresh i" by (cases p) auto
  let ?C = "insert (directory, name) C"
  have clean: "wp (ecatch (sys_unlink directory temporary) (\<lambda>e. if e = OsErrno ENOENT then ereturn () else eraise e))
      (\<lambda>_. keep C) (\<lambda>_. keep C) s" if "keep C s" for s
    unfolding wp_catch by (rule wp_mono [OF remove_law [OF that abs(1)]]) (simp_all add: wp_simps)
  have finish: "wp (ebind (if consumed then ereturn () else ignore_os_errors (sys_unlink directory temporary)) (\<lambda>_.
      ebind (fsync_directory_best_effort directory) (\<lambda>_. ereturn i)))
      (\<lambda>_ s. keep ?C s \<and> absent directory name) (\<lambda>_. keep C) s"
    if "keep ?C s" "absent directory name" for consumed s
    unfolding wp_bind wp_if wp_basic
    by (auto intro!: wp_mono [OF fsync_keeps] wp_mono [OF drop_temporary_keeps] that abs)
  have "wp (eon_error (fill_and_install directory name payload temporary i)
      (ecatch (sys_unlink directory temporary) (\<lambda>e. if e = OsErrno ENOENT then ereturn () else eraise e)))
      (\<lambda>_ s. keep ?C s \<and> absent directory name) (\<lambda>_. keep C) t"
    unfolding wp_on_error by (rule wp_mono [OF fill_keeps [OF t abs]]) (auto intro: clean)
  then have "wp (ebind (eon_error (fill_and_install directory name payload temporary i)
        (ecatch (sys_unlink directory temporary) (\<lambda>e. if e = OsErrno ENOENT then ereturn () else eraise e))) (\<lambda>consumed.
      ebind (if consumed then ereturn () else ignore_os_errors (sys_unlink directory temporary)) (\<lambda>_.
      ebind (fsync_directory_best_effort directory) (\<lambda>_. ereturn i))))
      (\<lambda>_ s. keep ?C s \<and> absent directory name) (\<lambda>_. keep C) t"
    unfolding wp_bind [of "eon_error m c" for m c] by (rule wp_mono) (use finish in blast)+
  then show "wp (case p of (temporary, i) \<Rightarrow> ebind (eon_error (fill_and_install directory name payload temporary i)
        (ecatch (sys_unlink directory temporary) (\<lambda>e. if e = OsErrno ENOENT then ereturn () else eraise e))) (\<lambda>consumed.
      ebind (if consumed then ereturn () else ignore_os_errors (sys_unlink directory temporary)) (\<lambda>_.
      ebind (fsync_directory_best_effort directory) (\<lambda>_. ereturn i))))
      (\<lambda>_ s. keep ?C s \<and> absent directory name) (\<lambda>_. keep C) t"
    by (simp add: p)
qed auto

lemma open_below_keeps:
  "keep C d \<Longrightarrow> wp (open_below current parts create) (\<lambda>_. keep C) (\<lambda>_. keep C) d"
proof -
  have "keeps (keep C) m" if "\<And>s. keeps (same_files s) m" for m :: "'a fs"
    by (rule keepsI) (rule read_law [OF that])
  note reads = this
  have mk: "keeps (keep C) (sys_mkdir a b)" for a b by (rule keepsI) (rule mkdir_law)
  have "keeps (keep C) (open_below current parts create)"
  proof (induction current parts create rule: open_below.induct)
    case (1 current create)
    then show ?case by (simp add: keep_intros)
  next
    case (2 current part parts create)
    have r: "keeps (keep C) (case_safe_name_at current part)" "keeps (keep C) (sys_stat_at current part)"
      "keeps (keep C) (sys_open_dir_at current part)"
      by (rule keepsI, rule read_law, rule keep_intros, assumption)+
    show ?case unfolding open_below.simps by (intro keep_intros r mk 2) auto
  qed
  then show "keep C d \<Longrightarrow> wp (open_below current parts create) (\<lambda>_. keep C) (\<lambda>_. keep C) d"
    by (simp add: keeps_def)
qed

lemma publish_keeps:
  assumes "keep C d"
  shows "wp (publish_file rd f)
    (\<lambda>r s. case r of None \<Rightarrow> keep C s
       | Some c \<Rightarrow> keep (insert (cd_parent c, cd_name c) C) s \<and> absent (cd_parent c) (cd_name c))
    (\<lambda>_. keep C) d"
  unfolding publish_file_def wp_bind open_parent_at_def
proof (rule wp_mono [OF open_below_keeps [OF assms]])
  fix opened t assume t: "keep C t"
  let ?Q = "\<lambda>r s. case r of None \<Rightarrow> keep C s
       | Some c \<Rightarrow> keep (insert (cd_parent c, cd_name c) C) s \<and> absent (cd_parent c) (cd_name c)"
  show "wp (case opened of
       None \<Rightarrow> eraise (AssertionError ''parent_descriptor is not None'')
     | Some parent \<Rightarrow>
         let name = last (cf_destination f) in
         ebind (destination_state_at parent name (cf_payload f)) (\<lambda>state.
         if state = Identical then ereturn None
         else
           ebind (atomic_write_new_at parent name (cf_payload f)) (\<lambda>i.
           ereturn (Some \<lparr>cd_parent = parent, cd_name = name, cd_relative = cf_destination f,
             cd_inode = i, cd_payload = cf_payload f\<rparr>)))) ?Q (\<lambda>_. keep C) t"
    using t
    by (auto simp: wp_simps Let_def split: option.splits
        intro!: wp_mono [OF read_law [OF reads_destination_state_at]] wp_mono [OF write_new_keeps])
qed auto

text \<open>Rolling one file back: when it reports success, the name is gone.\<close>

lemma quarantine_keeps:
  assumes "absent (cd_parent c) (cd_name c)"
  shows "keep C d \<Longrightarrow> wp (quarantine_created n c)
    (\<lambda>r s. case r of
        Inl ok \<Rightarrow> keep C s \<and> (ok \<longrightarrow> keep (C - {(cd_parent c, cd_name c)}) s)
      | Inr q \<Rightarrow> keep (C - {(cd_parent c, cd_name c)}) s \<and> absent (cd_parent c) q \<and> hidden_name q)
    (\<lambda>_. keep C) d"
proof (induction n arbitrary: d)
  case 0
  then show ?case by (simp add: wp_simps)
next
  case (Suc n)
  let ?Q = "\<lambda>r s. case r of
        Inl ok \<Rightarrow> keep C s \<and> (ok \<longrightarrow> keep (C - {(cd_parent c, cd_name c)}) s)
      | Inr q \<Rightarrow> keep (C - {(cd_parent c, cd_name c)}) s \<and> absent (cd_parent c) q \<and> hidden_name q"
  have move: "wp (ecatch (ebind (sys_rename_noreplace (cd_parent c) (cd_name c) (rollback_name (cd_name c) token))
              (\<lambda>_. ereturn (Inr (rollback_name (cd_name c) token))))
            (\<lambda>e. case e of
               OsErrno m \<Rightarrow> if m = ENOENT then ereturn (Inl True)
                           else if m = EEXIST then quarantine_created n c
                           else ereturn (Inl False)
             | _ \<Rightarrow> eraise e)) ?Q (\<lambda>_. keep C) t" if "keep C t" for token t
    unfolding wp_catch wp_bind
    by (rule wp_mono [OF rename_law [OF that assms]])
      (auto simp: wp_simps Suc.IH split: py_error.splits elim: keep_hidden)
  show ?case
    unfolding quarantine_created.simps wp_bind Let_def
    by (rule read_then [OF reads_token Suc.prems], rule read_then [OF reads_case_safe_name], assumption)
      (auto simp: wp_if intro: Suc.IH move)
qed

lemma remove_quarantined_keeps:
  assumes "keep C d" and "absent (cd_parent c) q"
  shows "wp (remove_quarantined c q) (\<lambda>_. keep C) (\<lambda>_. keep C) d"
  unfolding remove_quarantined_def wp_catch wp_bind
  by (rule read_then [OF reads_calls(2) assms(1)])
    (auto simp: wp_simps assms(2) split: py_error.splits
      intro!: wp_mono [OF remove_law] wp_mono [OF fsync_keeps])

lemma restore_quarantined_keeps:
  assumes "keep C d" and "absent (cd_parent c) q"
  shows "wp (restore_quarantined c q)
    (\<lambda>r s. \<not> r \<and> keep (insert (cd_parent c, cd_name c) C) s) (\<lambda>_. keep C) d"
proof -
  let ?D = "insert (cd_parent c, cd_name c) C"
  have "wp (sys_rename_noreplace (cd_parent c) q (cd_name c)) (\<lambda>_. keep ?D) (\<lambda>_. keep ?D) d"
    by (rule wp_mono [OF rename_law [OF assms]]) (auto elim!: keep_mono)
  then have "wp (ignore_os_errors (sys_rename_noreplace (cd_parent c) q (cd_name c))) (\<lambda>_. keep ?D) (\<lambda>_. keep C) d"
    by (rule wp_ignore [OF os_calls(3)])
  then show ?thesis unfolding restore_quarantined_def wp_bind by (rule wp_mono) (auto simp: wp_simps)
qed

lemma rollback_keeps:
  assumes C: "keep C d" and a: "absent (cd_parent c) (cd_name c)" and m: "(cd_parent c, cd_name c) \<in> C"
  shows "wp (rollback_created_at c)
    (\<lambda>ok s. keep C s \<and> (ok \<longrightarrow> keep (C - {(cd_parent c, cd_name c)}) s)) (\<lambda>_. keep C) d"
  unfolding rollback_created_at_def wp_bind
proof (rule wp_mono [OF quarantine_keeps [OF a C]])
  let ?D = "C - {(cd_parent c, cd_name c)}"
  let ?Q = "\<lambda>ok s. keep C s \<and> (ok \<longrightarrow> keep ?D s)"
  have up: "keep C s" if "keep ?D s" for s by (rule keep_mono [OF that]) blast
  have ins: "insert (cd_parent c, cd_name c) ?D = C" using m by blast
  fix r t assume r: "case r of
        Inl ok \<Rightarrow> keep C t \<and> (ok \<longrightarrow> keep ?D t)
      | Inr q \<Rightarrow> keep ?D t \<and> absent (cd_parent c) q \<and> hidden_name q"
  have restore: "wp (restore_quarantined c q) ?Q (\<lambda>_. keep C) s" if "keep ?D s" "absent (cd_parent c) q" for q s
    by (rule wp_mono [OF restore_quarantined_keeps [where C = ?D, OF that]]) (auto simp: insert_absorb [OF m] intro: up)
  have remove: "wp (remove_quarantined c q) ?Q (\<lambda>_. keep C) s" if "keep ?D s" "absent (cd_parent c) q" for q s
    by (rule wp_mono [OF remove_quarantined_keeps [where C = ?D, OF that]]) (auto intro: up)
  have rest: "wp (case observed of
           None \<Rightarrow> restore_quarantined c q
         | Some (payload, i) \<Rightarrow>
             if i = cd_inode c \<and> payload = cd_payload c then remove_quarantined c q
             else restore_quarantined c q) ?Q (\<lambda>_. keep C) s"
    if "keep ?D s" "absent (cd_parent c) q" for observed :: "(byte list \<times> ino) option" and q s
    using restore [OF that] remove [OF that] by (simp add: wp_simps split: option.splits prod.splits)
  have look: "wp (ecatch (read_destination_at (cd_parent c) q (cd_payload c))
           (\<lambda>e. case e of MigrationError m \<Rightarrow> ereturn None | _ \<Rightarrow> eraise e)) (\<lambda>_. keep ?D) (\<lambda>_. keep C) s"
    if "keep ?D s" for q s
    unfolding wp_catch by (rule read_then [OF reads_read_destination that])
      (auto simp: wp_simps up split: py_error.splits)
  show "wp (case r of
       Inl answer \<Rightarrow> ereturn answer
     | Inr q \<Rightarrow>
         ebind (ecatch (read_destination_at (cd_parent c) q (cd_payload c))
           (\<lambda>e. case e of MigrationError m \<Rightarrow> ereturn None | _ \<Rightarrow> eraise e)) (\<lambda>observed.
         case observed of
           None \<Rightarrow> restore_quarantined c q
         | Some (payload, i) \<Rightarrow>
             if i = cd_inode c \<and> payload = cd_payload c then remove_quarantined c q
             else restore_quarantined c q)) ?Q (\<lambda>_. keep C) t"
  proof (cases r)
    case (Inl ok)
    then show ?thesis using r by (simp add: wp_simps)
  next
    case (Inr q)
    then have q: "keep ?D t" "absent (cd_parent c) q" using r by simp_all
    show ?thesis unfolding Inr sum.case wp_bind
      by (rule wp_mono [OF look [OF q(1)]]) (auto intro: rest q(2))
  qed
qed auto

text \<open>Rolling everything back: without leftovers, every name that was created is gone.\<close>

definition absent_names :: "created_file list \<Rightarrow> bool" where
  "absent_names cs = (\<forall>c \<in> set cs. absent (cd_parent c) (cd_name c))"

lemma rollback_step_keeps:
  assumes C: "keep C d" and a: "absent (cd_parent c) (cd_name c)" and m: "(cd_parent c, cd_name c) \<in> C"
  shows "wp (rollback_step c left)
    (\<lambda>left' s. keep C s \<and> (left' = [] \<longrightarrow> left = [] \<and> keep (C - {(cd_parent c, cd_name c)}) s)) (\<lambda>_. keep C) d"
  unfolding rollback_step_def wp_catch wp_bind
  by (rule wp_mono [OF rollback_keeps [OF assms]]) (auto simp: wp_simps split: py_error.splits)

lemma rollback_all_keeps:
  assumes "absent_names cs" and "keep C d" and "created_names cs \<subseteq> C"
  shows "wp (efold rollback_step cs left)
    (\<lambda>left' s. keep C s \<and> (left' = [] \<longrightarrow> left = [] \<and> keep (C - created_names cs) s)) (\<lambda>_. keep C) d"
  using assms
proof (induction cs arbitrary: C d left)
  case Nil
  then show ?case by (simp add: wp_simps created_names_def)
next
  case (Cons c cs)
  let ?c = "(cd_parent c, cd_name c)"
  have a: "absent (cd_parent c) (cd_name c)" "absent_names cs"
    using Cons.prems(1) by (simp_all add: absent_names_def)
  have m: "?c \<in> C" "created_names cs \<subseteq> C" using Cons.prems(3) by (simp_all add: created_names_def)
  show ?case unfolding efold.simps wp_bind
  proof (rule wp_mono [OF rollback_step_keeps [OF Cons.prems(2) a(1) m(1)]])
    fix left1 :: "string list list" and s assume s: "keep C s \<and> (left1 = [] \<longrightarrow> left = [] \<and> keep (C - {?c}) s)"
    have 1: "wp (efold rollback_step cs left1)
       (\<lambda>left' s. keep C s \<and> (left' = [] \<longrightarrow> left1 = [] \<and> keep (C - created_names cs) s)) (\<lambda>_. keep C) s"
      using Cons.IH [OF a(2) _ m(2)] s by blast
    show "wp (efold rollback_step cs left1)
       (\<lambda>left' s. keep C s \<and> (left' = [] \<longrightarrow> left = [] \<and> keep (C - created_names (c # cs)) s)) (\<lambda>_. keep C) s"
    proof (cases "left1 = []")
      case False
      then show ?thesis by (intro wp_mono [OF 1]) auto
    next
      case True
      then have k: "keep (C - {?c}) s" "left = []" using s by simp_all
      show ?thesis
      proof (cases "?c \<in> created_names cs")
        case True
        then have "created_names (c # cs) = created_names cs" by (auto simp: created_names_def)
        then show ?thesis using k by (intro wp_mono [OF 1]) auto
      next
        case False
        then have sub: "created_names cs \<subseteq> C - {?c}" using m(2) by blast
        have eq: "C - created_names (c # cs) = (C - {?c}) - created_names cs" by (auto simp: created_names_def)
        have up: "keep C t" if "keep (C - {?c}) t" for t by (rule keep_mono [OF that]) blast
        show ?thesis using k(2)
          by (intro wp_mono [OF Cons.IH [OF a(2) k(1) sub]]) (auto simp: eq intro: up)
      qed
    qed
  qed auto
qed

lemma undo_keeps:
  assumes "absent_names cs" and "keep (created_names cs) d"
  shows "wp (undo_and_raise e cs) Q
    (\<lambda>e' s. keep (created_names cs) s \<and> (e' \<noteq> LEFTOVERS \<longrightarrow> e' = e \<and> keep {} s)) d"
proof -
  have rev: "absent_names (rev cs)" "created_names (rev cs) = created_names cs"
    using assms(1) by (simp_all add: absent_names_def created_names_def)
  have "wp (efold rollback_step (rev cs) [])
      (\<lambda>left s. (keep (created_names cs) s \<and> (left = [] \<longrightarrow> keep {} s)) \<and> True)
      (\<lambda>e' s. keep (created_names cs) s \<and> False) d"
    by (rule wp_conj [OF wp_mono [OF rollback_all_keeps [OF rev(1) assms(2)]] rollback_all_silent]) (auto simp: rev)
  then show ?thesis unfolding undo_and_raise_def wp_bind by (rule wp_mono) (auto simp: wp_simps)
qed

text \<open>One file, the loop over the plan, and the transaction.\<close>

lemma apply_file_keeps:
  assumes "keep C d"
  shows "wp (apply_file rd f acc)
    (\<lambda>(stop, acc') s. \<exists>new. aa_created acc' = aa_created acc @ new \<and> absent_names new \<and> keep (C \<union> created_names new) s)
    (\<lambda>_ _. False) d"
  unfolding apply_file_def wp_bind wp_try
proof (rule wp_mono [OF publish_keeps [OF assms]])
  let ?Q = "\<lambda>(stop, acc') s. \<exists>new. aa_created acc' = aa_created acc @ new \<and> absent_names new \<and> keep (C \<union> created_names new) s"
  let ?F = "\<lambda>outcome. case outcome of
       Inl e \<Rightarrow> ereturn (Some e, acc)
     | Inr None \<Rightarrow> ereturn (None, acc\<lparr>aa_identical := aa_identical acc @ [cf_destination f]\<rparr>)
     | Inr (Some installed) \<Rightarrow>
         let acc' = acc\<lparr>aa_created := aa_created acc @ [installed]\<rparr> in
         ebind (etry (check_published rd installed)) (\<lambda>checked.
         case checked of
           Inl e \<Rightarrow> ereturn (Some e, acc')
         | Inr _ \<Rightarrow> ereturn (None, acc'\<lparr>aa_copied := aa_copied acc' @ [cf_destination f]\<rparr>))"
  have none: "\<exists>new. aa_created acc = aa_created acc @ new \<and> absent_names new \<and> keep (C \<union> created_names new) s"
    if "keep C s" for s using that by (intro exI [of _ "[]"]) (simp add: absent_names_def created_names_def)
  have one: "\<exists>new. aa_created acc @ [c] = aa_created acc @ new \<and> absent_names new \<and> keep (C \<union> created_names new) s"
    if "keep (insert (cd_parent c, cd_name c) C) s" "absent (cd_parent c) (cd_name c)" for c s
    using that by (intro exI [of _ "[c]"]) (simp add: absent_names_def created_names_def)
  {
    fix r :: "created_file option" and t assume r: "case r of None \<Rightarrow> keep C t
       | Some c \<Rightarrow> keep (insert (cd_parent c, cd_name c) C) t \<and> absent (cd_parent c) (cd_name c)"
    show "wp (?F (Inr r)) ?Q (\<lambda>_ _. False) t"
    proof (cases r)
      case None
      then show ?thesis using r none by (simp add: wp_simps)
    next
      case (Some c)
      then have c: "keep (insert (cd_parent c, cd_name c) C) t" "absent (cd_parent c) (cd_name c)" using r by simp_all
      show ?thesis unfolding Some sum.case option.case Let_def wp_bind wp_try
        by (rule read_then [OF reads_check c(1)]) (simp_all add: wp_simps absent_names_def created_names_def c(2))
    qed
  next
    fix e t assume "keep C t"
    then show "wp (?F (Inl e)) ?Q (\<lambda>_ _. False) t" using none by (simp add: wp_simps)
  }
qed

lemma apply_loop_keeps:
  assumes "keep {} d"
  shows "wp (eloop (apply_file rd) fs EMPTY_ACC)
    (\<lambda>(stop, acc) s. absent_names (aa_created acc) \<and> keep (created_names (aa_created acc)) s) (\<lambda>_ _. False) d"
proof -
  let ?I = "\<lambda>(xs :: cartridge_file list) (acc :: apply_acc) s. absent_names (aa_created acc) \<and> keep (created_names (aa_created acc)) s"
  have step: "wp (apply_file rd f acc) (\<lambda>(stop, acc') s. ?I xs acc' s) (\<lambda>_ _. False) s"
    if "?I (f # xs) acc s" for f xs acc s
  proof -
    have k: "keep (created_names (aa_created acc)) s" using that by simp
    show ?thesis
      by (rule wp_mono [OF apply_file_keeps [OF k]])
        (use that in \<open>auto simp: absent_names_def created_names_def image_Un\<close>)
  qed
  show ?thesis
  proof (rule wp_eloop [where I = ?I])
    fix f xs and acc :: apply_acc and s assume i: "?I (f # xs) acc s"
    have "wp (apply_file rd f acc) (\<lambda>(stop, acc') s. ?I xs acc' s) (\<lambda>_ _. False) s" by (rule step [OF i])
    then show "wp (apply_file rd f acc)
        (\<lambda>(stop, acc') s. case stop of None \<Rightarrow> ?I xs acc' s
          | Some e \<Rightarrow> (\<lambda>(stop, acc) s. absent_names (aa_created acc) \<and> keep (created_names (aa_created acc)) s) (Some e, acc') s)
        (\<lambda>_ _. False) s"
      by (rule wp_mono) (auto split: option.splits)
  qed (use assms in \<open>auto simp: EMPTY_ACC_def absent_names_def created_names_def\<close>)
qed

lemma transaction_keeps:
  assumes "keep {} d"
  shows "wp (apply_transaction rd current) (\<lambda>_ s. \<exists>C. keep C s)
    (\<lambda>e s. (\<exists>C. keep C s) \<and> (e \<noteq> LEFTOVERS \<longrightarrow> keep {} s)) d"
  unfolding apply_transaction_def wp_bind
  by (rule wp_mono [OF apply_loop_keeps [OF assms]])
    (auto simp: wp_simps split: option.splits intro!: wp_mono [OF undo_keeps])

lemma apply_keeps:
  assumes "keep {} d"
  shows "wp (apply_migration plan selected all_roms) (\<lambda>_ s. \<exists>C. keep C s)
    (\<lambda>e s. (\<exists>C. keep C s) \<and> (e \<noteq> LEFTOVERS \<longrightarrow> keep {} s)) d"
proof -
  have undo: "wp (undo_and_raise e []) Q (\<lambda>e s. (\<exists>C. keep C s) \<and> (e \<noteq> LEFTOVERS \<longrightarrow> keep {} s)) s"
    if "keep {} s" for e s and Q :: "'x \<Rightarrow> disk \<Rightarrow> bool"
    using that by (auto simp: undo_and_raise_def wp_simps)
  show ?thesis
    unfolding apply_migration_def wp_bind wp_catch
    by (rule read_then [OF reads_sd_root assms], rule read_then [OF keeps_guard], assumption,
        rule read_then [OF reads_open_root], assumption, rule read_then [OF reads_replan], assumption)
      (auto intro: transaction_keeps undo)
qed

end

end
