(* ===== verification/Save_Results.thy ===== *)
theory Save_Results
  imports Save_Migration_Facts
begin

text \<open>
  What the cartridge-save migration guarantees on any card, against any system call failure: the
  contents of what it reads and publishes, and the properties of the transaction.
\<close>

section \<open>Results of calls\<close>

lemma missing_as_Inr [res_simps]: "missing_as e m d = (Inr x, t) \<longleftrightarrow> m d = (Inr x, t)"
  by (auto simp: missing_as_def ecatch_def eraise_def split: prod.splits sum.splits if_splits)

lemma if_present_Inr [res_simps]: "if_present m d = (Inr (Some x), t) \<longleftrightarrow> m d = (Inr x, t)"
  by (auto simp: if_present_def ecatch_def eraise_def ebind_def ereturn_def split: prod.splits sum.splits if_splits)

section \<open>Contents that were read\<close>

lemma plain_file_Inr:
  assumes "read_plain_file path maximum d = (Inr bs, t)"
  shows "\<exists>i. node_at d False path = Inr (i, FileNode bs)"
proof -
  from assms obtain i n u1 fd u2 opened u3 u4 where
    1: "sys_lstat path d = (Inr (i, n), u1)" and 2: "is_file_node n"
    and 3: "sys_open_path path u1 = (Inr fd, u2)" and 4: "sys_fstat fd u2 = (Inr opened, u3)"
    and 5: "is_file_node opened" "fd = i" and 6: "read_upto fd (maximum + 1) [] u3 = (Inr bs, u4)"
    and 7: "\<not> maximum < length bs"
    by (auto simp: read_plain_file_def res_simps simp del: One_nat_def)
  have s: "same_files d u1" "same_files u1 u2" "same_files u2 u3"
    using lstat_Inr [OF 1] open_path_Inr [OF 3] fstat_Inr [OF 4] by auto
  have n: "dk_nodes u3 fd = Some opened" using fstat_Inr [OF 4] by (simp add: same_files_def)
  have "opened = FileNode bs" by (rule read_file_contents [OF 6 n 5(1)]) (use 7 in simp)
  moreover have "dk_nodes d i = Some n" using lstat_Inr [OF 1] by (auto simp: node_at_def res_simps)
  moreover have "dk_nodes d i = Some opened" using n s 5 by (simp add: same_files_def)
  ultimately show ?thesis using lstat_Inr [OF 1] by auto
qed

lemma destination_Inr:
  assumes "read_destination_at dir name expected d = (Inr (Some (bs, i)), t)"
  shows "entry_of d dir name = Some i \<and> dk_nodes d i = Some (FileNode bs)"
proof -
  from assms obtain ok u0 u1 before u2 u3 after u4 where
    0: "case_safe_name_at dir name d = (Inr ok, u0)" and 1: "sys_open_at dir name u0 = (Inr i, u1)"
    and 2: "sys_fstat i u1 = (Inr before, u2)" and 3: "is_file_node before"
    "length (node_bytes before) = length expected"
    and 4: "read_upto i (length expected + 1) [] u2 = (Inr bs, u3)"
    and 5: "sys_fstat i u3 = (Inr after, u4)"
    and 6: "length (node_bytes before) = length (node_bytes after)" "length bs = length (node_bytes after)"
    by (auto simp: read_destination_at_def res_simps ereturn_def split: if_splits simp del: One_nat_def)
  have s: "same_files d u0" "same_files u0 u1" "same_files u1 u2"
    using same_after [OF reads_case_safe_name 0] open_at_Inr [OF 1] fstat_Inr [OF 2] by auto
  then have sd: "same_files d u2" using same_files_trans by blast
  have n: "dk_nodes u2 i = Some before" using fstat_Inr [OF 2] by (simp add: same_files_def)
  have "before = FileNode bs" by (rule read_file_contents [OF 4 n 3(1)]) (use 3 6 in simp)
  moreover have "entry_of d dir name = Some i"
    using open_at_Inr [OF 1] same_files_observe(6) [OF s(1)] by (auto simp: child_node_Inr)
  ultimately show ?thesis using n sd by (simp add: same_files_def)
qed

lemma open_below_safe: "open_below i ps create d = (r, t) \<Longrightarrow> safe_step d t"
  by (rule safe_stepI) (use wp_result [OF card_store.open_below_keeps [OF since_refl]] in blast)

lemma open_below_Inr:
  "open_below i ps create d = (Inr (Some j), t) \<Longrightarrow> wf_disk d \<Longrightarrow> dir_below t i ps = Some j"
proof (induction ps arbitrary: i d)
  case Nil
  then show ?case by (simp add: ereturn_def)
next
  case (Cons part parts)
  from Cons.prems(1) obtain present u0 u1 k n u2 child u3 where
    0: "case_safe_name_at i part d = (Inr present, u0)"
    and 1: "(if \<not> present then
                ebind (ecatch (sys_mkdir i part)
                    (\<lambda>e. if e = OsErrno EEXIST then ereturn () else eraise e)) (\<lambda>_.
                ebind (case_safe_name_at i part) (\<lambda>_. ereturn ()))
              else ereturn ()) u0 = (Inr (), u1)"
    and s: "sys_stat_at i part u1 = (Inr (k, n), u2)" "is_dir_node n"
    and o: "sys_open_dir_at i part u2 = (Inr child, u3)"
    and r: "open_below child parts create u3 = (Inr (Some j), t)"
    by (auto simp: res_simps ereturn_def split: if_splits)
  have s0: "safe_step d u0" using same_after [OF reads_case_safe_name 0] safe_same by blast
  have "\<exists>C. since u0 C u1" if "wf_disk u0"
  proof -
    have k0: "since u0 {} u0" using that by (rule since_refl)
    have "wp (if \<not> present then
                ebind (ecatch (sys_mkdir i part)
                    (\<lambda>e. if e = OsErrno EEXIST then ereturn () else eraise e)) (\<lambda>_.
                ebind (case_safe_name_at i part) (\<lambda>_. ereturn ()))
              else ereturn ()) (\<lambda>_. since u0 {}) (\<lambda>_. since u0 {}) u0"
      using k0 by (auto simp: wp_simps intro!: wp_mono [OF card_store.mkdir_law] card_store.read_then [OF reads_case_safe_name])
    from wp_result [OF this 1] show ?thesis by blast
  qed
  then have s1: "safe_step u0 u1" by (rule safe_stepI)
  have s2: "same_files u1 u2" "same_files u2 u3" using stat_at_Inr [OF s(1)] open_dir_at_Inr [OF o] by auto
  have "safe_step d u3" using safe_trans [OF safe_trans [OF s0 s1] safe_trans [OF safe_same [OF s2(1)] safe_same [OF s2(2)]]] .
  then have w3: "wf_disk u3" using Cons.prems(2) by (simp add: safe_step_def)
  have ent: "entry_of u3 i part = Some child" "is_dir u3 child"
    using open_dir_at_Inr [OF o] same_files_observe [OF s2(2)] by (auto simp: child_node_Inr is_dir_def)
  have "lost_nothing u3 t" using open_below_safe [OF r] w3 by (simp add: safe_step_def)
  then have "entry_of t i part = Some child" "is_dir t child"
    using ent lost_nothing_dir by (auto simp: lost_nothing_def)
  moreover have "dir_below t child parts = Some j" using Cons.IH [OF r w3] .
  ultimately show ?case by simp
qed

section \<open>One file of the plan\<close>

lemma publish_safe: "publish_file rd f d = (r, t) \<Longrightarrow> safe_step d t"
proof (rule safe_stepI)
  assume r: "publish_file rd f d = (r, t)" and "wf_disk d"
  then have "wp (publish_file rd f)
    (\<lambda>r s. case r of None \<Rightarrow> since d {} s
       | Some c \<Rightarrow> since d (insert (cd_parent c, cd_name c) {}) s \<and> entry_of d (cd_parent c) (cd_name c) = None)
    (\<lambda>_. since d {}) d" using card_store.publish_keeps [OF since_refl] by blast
  then show "\<exists>C. since d C t"
    using r by (cases r) (auto simp: wp_def split: option.splits)
qed

lemma apply_file_safe: "apply_file rd f acc d = (r, t) \<Longrightarrow> safe_step d t"
proof (rule safe_stepI)
  assume r: "apply_file rd f acc d = (r, t)" and "wf_disk d"
  then show "\<exists>C. since d C t"
    using card_store.apply_file_keeps [OF since_refl, of d rd f acc] by (cases r) (auto simp: wp_def)
qed

lemma destination_state_Identical:
  assumes "destination_state_at dir name payload d = (Inr Identical, t)"
  shows "\<exists>i. entry_of d dir name = Some i \<and> dk_nodes d i = Some (FileNode payload)"
proof -
  from assms obtain found i u where "read_destination_at dir name payload d = (Inr (Some (found, i)), u)" "found = payload"
    by (auto simp: destination_state_at_def res_simps split: option.splits)
  then show ?thesis using destination_Inr by blast
qed

lemma publish_identical:
  assumes "publish_file rd f d = (Inr None, t)" and "wf_disk d"
  shows "file_below t rd (cf_destination f) = Some (cf_payload f)"
proof -
  from assms(1) obtain parent u1 where
    1: "open_below rd (butlast (cf_destination f)) True d = (Inr (Some parent), u1)"
    and 2: "destination_state_at parent (last (cf_destination f)) (cf_payload f) u1 = (Inr Identical, t)"
    by (auto simp: publish_file_def open_parent_at_def res_simps Let_def split: option.splits if_splits)
  have same: "same_files u1 t" by (rule same_after [OF reads_destination_state_at 2])
  obtain i where "entry_of u1 parent (last (cf_destination f)) = Some i" "dk_nodes u1 i = Some (FileNode (cf_payload f))"
    using destination_state_Identical [OF 2] by blast
  with open_below_Inr [OF 1 assms(2)] have "file_below u1 rd (cf_destination f) = Some (cf_payload f)"
    by (rule file_belowI)
  then show ?thesis using file_below_kept same_lost_nothing same by blast
qed

lemma publish_created:
  assumes "publish_file rd f d = (Inr (Some c), t)"
  shows "cd_name c = last (cf_destination f) \<and> cd_relative c = cf_destination f \<and> cd_payload c = cf_payload f"
  using assms by (auto simp: publish_file_def res_simps Let_def split: option.splits if_splits)

lemma check_published_stored:
  assumes "check_published rd c d = (Inr u, t)" and "wf_disk d" and "cd_name c = last (cd_relative c)"
  shows "file_below t rd (cd_relative c) = Some (cd_payload c)"
proof -
  from assms(1) obtain u1 where
    1: "confirm_parent_identity rd (cd_relative c) (cd_parent c) d = (Inr (), u1)"
    and 2: "verify_created_at c u1 = (Inr u, t)"
    by (auto simp: check_published_def res_simps)
  from 1 obtain u0 where 3: "open_below rd (butlast (cd_relative c)) False d = (Inr (Some (cd_parent c)), u0)"
    by (auto simp: confirm_parent_identity_def open_parent_at_def res_simps split: option.splits)
  from 2 obtain i u2 where "read_destination_at (cd_parent c) (cd_name c) (cd_payload c) u1 = (Inr (Some (cd_payload c, i)), u2)"
    by (auto simp: verify_created_at_def res_simps split: option.splits)
  then have 4: "entry_of u1 (cd_parent c) (cd_name c) = Some i" "dk_nodes u1 i = Some (FileNode (cd_payload c))"
    using destination_Inr by blast+
  have s: "same_files d u0" "same_files d u1" "same_files u1 t"
    by (rule same_after [OF reads_open_below 3], rule same_after [OF reads_confirm 1], rule same_after [OF reads_verify 2])
  then have "same_files u0 u1" by (simp add: same_files_def)
  then have "dir_below u1 rd (butlast (cd_relative c)) = Some (cd_parent c)"
    using dir_below_kept same_lost_nothing open_below_Inr [OF 3 assms(2)] by blast
  then have "file_below u1 rd (cd_relative c) = Some (cd_payload c)" using 4 assms(3) by (intro file_belowI) simp_all
  then show ?thesis using file_below_kept same_lost_nothing s(3) by blast
qed

lemma apply_file_stored:
  assumes "apply_file rd f acc d = (Inr (None, acc'), t)" and w: "wf_disk d"
  shows "file_below t rd (cf_destination f) = Some (cf_payload f)"
    and "(aa_copied acc' = aa_copied acc @ [cf_destination f] \<and> aa_identical acc' = aa_identical acc) \<or>
         (aa_copied acc' = aa_copied acc \<and> aa_identical acc' = aa_identical acc @ [cf_destination f])"
proof -
  obtain r u where p: "publish_file rd f d = (r, u)" by (cases "publish_file rd f d")
  have wu: "wf_disk u" using publish_safe [OF p] w by (simp add: safe_step_def)
  have "file_below t rd (cf_destination f) = Some (cf_payload f) \<and>
      ((aa_copied acc' = aa_copied acc @ [cf_destination f] \<and> aa_identical acc' = aa_identical acc) \<or>
       (aa_copied acc' = aa_copied acc \<and> aa_identical acc' = aa_identical acc @ [cf_destination f]))"
  proof (cases r)
    case (Inl e)
    then show ?thesis using assms(1) p by (simp add: apply_file_def ebind_def etry_def ereturn_def)
  next
    case (Inr c)
    show ?thesis
    proof (cases c)
      case None
      then have "acc' = acc\<lparr>aa_identical := aa_identical acc @ [cf_destination f]\<rparr>" "t = u"
        using assms(1) p Inr by (simp_all add: apply_file_def ebind_def etry_def ereturn_def)
      then show ?thesis using publish_identical [of rd f d u] p w Inr None by simp
    next
      case (Some inst)
      then obtain k where k: "check_published rd inst u = (Inr k, t)"
        and a: "acc' = acc\<lparr>aa_created := aa_created acc @ [inst], aa_copied := aa_copied acc @ [cf_destination f]\<rparr>"
        using assms(1) p Inr
        by (auto simp: apply_file_def ebind_def etry_def ereturn_def Let_def split: prod.splits sum.splits)
      have "cd_name inst = last (cf_destination f) \<and> cd_relative inst = cf_destination f \<and> cd_payload inst = cf_payload f"
        using publish_created p Inr Some by blast
      then show ?thesis using check_published_stored [OF k wu] a by simp
    qed
  qed
  then show "file_below t rd (cf_destination f) = Some (cf_payload f)"
    "(aa_copied acc' = aa_copied acc @ [cf_destination f] \<and> aa_identical acc' = aa_identical acc) \<or>
     (aa_copied acc' = aa_copied acc \<and> aa_identical acc' = aa_identical acc @ [cf_destination f])" by blast+
qed

lemma apply_loop_stored:
  assumes "eloop (apply_file rd) fs acc d = (Inr (None, acc'), t)" and "wf_disk d"
  shows "\<forall>f \<in> set fs. file_below t rd (cf_destination f) = Some (cf_payload f)"
    and "lost_nothing d t"
    and "set (aa_copied acc') \<union> set (aa_identical acc') =
      set (aa_copied acc) \<union> set (aa_identical acc) \<union> cf_destination ` set fs"
  using assms
proof (induction fs arbitrary: acc d)
  case Nil
  {
    case 1
    then show ?case by simp
  next
    case 2
    then show ?case by (simp add: ereturn_def same_lost_nothing)
  next
    case 3
    then show ?case by (simp add: ereturn_def)
  }
next
  case (Cons f fs)
  have step: "\<exists>acc1 u. apply_file rd f acc d = (Inr (None, acc1), u) \<and>
      eloop (apply_file rd) fs acc1 u = (Inr (None, acc'), t)"
    if "eloop (apply_file rd) (f # fs) acc d = (Inr (None, acc'), t)" for acc d
    using that by (auto simp: res_simps split: option.splits)
  {
    case 1
    then obtain acc1 u where a: "apply_file rd f acc d = (Inr (None, acc1), u)"
      "eloop (apply_file rd) fs acc1 u = (Inr (None, acc'), t)" using step by blast
    then have "wf_disk u" using apply_file_safe [OF a(1)] 1(2) by (simp add: safe_step_def)
    then show ?case using Cons(1,2) [OF a(2)] apply_file_stored(1) [OF a(1) 1(2)] file_below_kept by auto
  next
    case 2
    then obtain acc1 u where a: "apply_file rd f acc d = (Inr (None, acc1), u)"
      "eloop (apply_file rd) fs acc1 u = (Inr (None, acc'), t)" using step by blast
    then have "wf_disk u \<and> lost_nothing d u" using apply_file_safe [OF a(1)] 2(2) by (simp add: safe_step_def)
    then show ?case using Cons(2) [OF a(2)] lost_nothing_trans by blast
  next
    case 3
    then obtain acc1 u where a: "apply_file rd f acc d = (Inr (None, acc1), u)"
      "eloop (apply_file rd) fs acc1 u = (Inr (None, acc'), t)" using step by blast
    then have "wf_disk u" using apply_file_safe [OF a(1)] 3(2) by (simp add: safe_step_def)
    then show ?case using Cons(3) [OF a(2)] apply_file_stored(2) [OF a(1) 3(2)] by auto
  }
qed

lemma apply_migration_Inr:
  assumes "apply_migration plan selected all_roms d = (Inr (copied, identical), t)"
  shows "\<exists>u acc. same_files d u \<and> eloop (apply_file (cp_root_inode plan)) (cp_files plan) EMPTY_ACC u = (Inr (None, acc), t)
    \<and> copied = aa_copied acc \<and> identical = aa_identical acc"
proof -
  from assms obtain u1 rd u2 current u3 where
    1: "sd_root_of (cp_root plan) d = (Inr (cp_root plan), u1)"
    and 2: "open_root_descriptor (cp_root plan) (cp_root_inode plan) u1 = (Inr rd, u2)"
    and 3: "ecatch (replan plan (cp_root plan) selected all_roms) (\<lambda>e. undo_and_raise e []) u2 = (Inr current, u3)"
    and 4: "apply_transaction rd current u3 = (Inr (copied, identical), t)"
    by (auto simp: apply_migration_def res_simps)
  have undo: "undo_and_raise e [] u \<noteq> (Inr x, v)" for e u v and x :: cartridge_plan
    by (simp add: undo_and_raise_def ebind_def ereturn_def eraise_def)
  have 5: "replan plan (cp_root plan) selected all_roms u2 = (Inr current, u3)"
    using 3 undo by (auto simp: ecatch_def split: prod.splits sum.splits)
  then have f: "cp_files current = cp_files plan" by (auto simp: replan_def res_simps same_plan_def)
  have r: "rd = cp_root_inode plan" using 2 by (auto simp: open_root_descriptor_def res_simps)
  have "same_files d u1" "same_files u1 u2" "same_files u2 u3"
    by (rule same_after [OF reads_sd_root 1], rule same_after [OF reads_open_root 2], rule same_after [OF reads_replan 5])
  then have "same_files d u3" by (simp add: same_files_def)
  moreover have "\<exists>acc. eloop (apply_file rd) (cp_files current) EMPTY_ACC u3 = (Inr (None, acc), t)
      \<and> copied = aa_copied acc \<and> identical = aa_identical acc"
  proof -
    have "undo_and_raise e cs u \<noteq> (Inr x, v)" for e cs u v and x :: "string list list \<times> string list list"
      by (auto simp: undo_and_raise_def res_simps)
    then show ?thesis using 4 by (auto simp: apply_transaction_def res_simps split: option.splits)
  qed
  ultimately show ?thesis using f r by auto
qed

section \<open>The plan\<close>

lemma path_below_Inr: "path_below c ps d = (Inr p, t) \<Longrightarrow> p = c @ ps"
proof (induction ps arbitrary: c d)
  case Nil
  then show ?case by (simp add: ereturn_def)
next
  case (Cons a ps)
  then obtain child u v where "case_safe_child c a d = (Inr child, u)" "path_below child ps v = (Inr p, t)"
    by (auto simp: res_simps)
  moreover from this(1) have "child = c @ [a]"
    by (auto simp: case_safe_child_def res_simps split: option.splits)
  ultimately show ?case using Cons.IH [of child v] by simp
qed

text \<open>The files a plan names, and how they follow from the contents of the card.\<close>

definition planned_from :: "disk \<Rightarrow> string list \<Rightarrow> cartridge_file \<Rightarrow> bool" where
  "planned_from d sdroot f =
     (\<exists>relative rom m inherited i j.
        node_at d False (sdroot @ cf_rom f) = Inr (i, FileNode rom) \<and> rom_checks relative rom = Inr m \<and>
        node_at d False (sdroot @ cf_source f) = Inr (j, FileNode inherited) \<and>
        convert_save m inherited = Inr (cf_payload f, cf_conversion f) \<and>
        cf_rom f = ASSET_BASE @ relative \<and> cf_source f = SOURCE_SAVE_BASE @ save_relative relative \<and>
        cf_destination f = DESTINATION_SAVE_BASE @ save_relative relative)"

lemma planned_same: "same_files d s \<Longrightarrow> planned_from s = planned_from d"
  using node_at_same by (simp add: planned_from_def [abs_def])

lemma inspect_rom_Inr:
  assumes "inspect_rom sdroot relative d = (Inr m, t)"
  shows "\<exists>i rom. node_at d False (sdroot @ ASSET_BASE @ relative) = Inr (i, FileNode rom) \<and> rom_checks relative rom = Inr m"
proof -
  from assms obtain source u1 rom u2 where
    1: "path_below sdroot (ASSET_BASE @ relative) d = (Inr source, u1)"
    and 2: "read_plain_file source MAX_ROM_BYTES u1 = (Inr rom, u2)" and 3: "rom_checks relative rom = Inr m"
    by (auto simp: inspect_rom_def res_simps)
  have "same_files d u1" by (rule same_after [OF reads_path_below 1])
  then show ?thesis using plain_file_Inr [OF 2] path_below_Inr [OF 1] 3 node_at_same by auto
qed

lemma collect_file_Inr:
  assumes "collect_file sdroot m d = (Inr (Some f), t)"
  shows "\<exists>j inherited. node_at d False (sdroot @ cf_source f) = Inr (j, FileNode inherited) \<and>
    convert_save m inherited = Inr (cf_payload f, cf_conversion f) \<and>
    cf_rom f = ASSET_BASE @ rm_relative m \<and> cf_source f = SOURCE_SAVE_BASE @ save_relative (rm_relative m) \<and>
    cf_destination f = DESTINATION_SAVE_BASE @ save_relative (rm_relative m)"
proof -
  from assms obtain source u1 i n u2 u3 inherited u4 out how where
    1: "path_below sdroot (SOURCE_SAVE_BASE @ save_relative (rm_relative m)) d = (Inr source, u1)"
    and 2: "if_present (sys_lstat source) u1 = (Inr (Some (i, n)), u2)"
    and 3: "read_plain_file source MAX_ROM_BYTES u2 = (Inr inherited, u4)"
    and 4: "Inr (out, how) = convert_save m inherited"
    and 5: "f = \<lparr>cf_rom = ASSET_BASE @ rm_relative m, cf_source = SOURCE_SAVE_BASE @ save_relative (rm_relative m),
      cf_destination = DESTINATION_SAVE_BASE @ save_relative (rm_relative m), cf_payload = out, cf_conversion = how\<rparr>"
    by (auto simp: collect_file_def res_simps Let_def simp del: if_present_Inr split: option.splits)
  have "same_files d u1" "same_files u1 u2"
    by (rule same_after [OF reads_path_below 1],
        rule same_after [OF reads_if_present [OF reads_calls(6)] 2])
  then have "same_files d u2" by (rule same_files_trans)
  then show ?thesis using plain_file_Inr [OF 3] path_below_Inr [OF 1] 4 [symmetric] 5 node_at_same by auto
qed

lemma rom_checks_relative: "rom_checks r rom = Inr m \<Longrightarrow> rm_relative m = r"
  by (simp add: rom_checks_Inr)

lemma plan_rom_Inr:
  assumes "plan_rom sdroot relative acc d = (Inr acc', t)" and "f \<in> set (pa_files acc')"
  shows "f \<in> set (pa_files acc) \<or> planned_from d sdroot f"
proof -
  from assms(1) obtain m u where
    1: "inspect_rom sdroot relative d = (Inr m, u)"
    and 2: "(if rm_save_type m = 0 then ereturn (acc\<lparr>pa_no_save := pa_no_save acc @ [ASSET_BASE @ relative]\<rparr>)
     else
       ebind (collect_file sdroot m) (\<lambda>managed.
       case managed of
         None \<Rightarrow> ereturn (acc\<lparr>pa_missing := pa_missing acc @ [SOURCE_SAVE_BASE @ save_relative relative]\<rparr>)
       | Some f \<Rightarrow>
           let total = pa_total acc + length (cf_payload f) in
           ebind (eguard (\<not> total > MAX_OUTPUT_BYTES) (MigrationError ''planned output exceeds 536870912 bytes'')) (\<lambda>_.
           ereturn (acc\<lparr>pa_total := total, pa_files := pa_files acc @ [f]\<rparr>)))) u = (Inr acc', t)"
    unfolding plan_rom_def by (auto simp: res_simps)
  obtain i rom where rom: "node_at d False (sdroot @ ASSET_BASE @ relative) = Inr (i, FileNode rom)" "rom_checks relative rom = Inr m"
    using inspect_rom_Inr [OF 1] by blast
  have r: "rm_relative m = relative" using rom(2) by (rule rom_checks_relative)
  have "keeps (same_files s) (inspect_rom sdroot relative)" for s
    unfolding inspect_rom_def by (intro keep_intros)
  then have "same_files d u" using 1 by (rule same_after)
  then have n: "node_at u = node_at d" by (rule node_at_same)
  show ?thesis
  proof (cases "f \<in> set (pa_files acc)")
    case False
    then obtain v where "collect_file sdroot m u = (Inr (Some f), v)"
      using 2 assms(2) by (auto simp: res_simps ereturn_def Let_def split: if_splits option.splits)
    then show ?thesis using collect_file_Inr [of sdroot m u f v] rom r n unfolding planned_from_def by metis
  qed simp
qed

lemma plan_roms_Inr:
  "efold (plan_rom sdroot) roms acc d = (Inr acc', t) \<Longrightarrow> f \<in> set (pa_files acc') \<Longrightarrow>
   f \<in> set (pa_files acc) \<or> planned_from d sdroot f"
proof (induction roms arbitrary: acc d)
  case Nil
  then show ?case by (simp add: ereturn_def)
next
  case (Cons r roms)
  then obtain acc1 u where 1: "plan_rom sdroot r acc d = (Inr acc1, u)" and 2: "efold (plan_rom sdroot) roms acc1 u = (Inr acc', t)"
    by (auto simp: res_simps)
  have "same_files d u" by (rule same_after [OF reads_plan_rom 1])
  then show ?case using Cons.IH [OF 2 Cons.prems(2)] plan_rom_Inr [OF 1] planned_same by metis
qed

lemma plan_files_planned:
  assumes "plan_migration sd_root selected all_roms d = (Inr plan, t)"
  shows "list_all (planned_from d (cp_root plan)) (cp_files plan) \<and>
    distinct (map (\<lambda>f. casefold (join_path (cf_destination f))) (cp_files plan))"
proof -
  from assms obtain u1 i n u2 roms u3 acc u4 u5 copies identical where
    1: "sd_root_of sd_root d = (Inr (cp_root plan), u1)" and 2: "sys_lstat (cp_root plan) u1 = (Inr (i, n), u2)"
    and 3: "selected_roms (cp_root plan) selected all_roms u2 = (Inr roms, u3)"
    and 4: "efold (plan_rom (cp_root plan)) roms \<lparr>pa_files = [], pa_no_save = [], pa_missing = [], pa_total = 0\<rparr> u3 = (Inr acc, u4)"
    and 5: "distinct (map (\<lambda>d. casefold (join_path d)) (map cf_destination (pa_files acc)))"
    and 6: "cp_files plan = pa_files acc"
    by (auto simp: plan_migration_def res_simps Let_def)
  have "same_files d u1" "same_files u1 u2" "same_files u2 u3"
    by (rule same_after [OF reads_sd_root 1], rule same_after [OF reads_calls(6) 2], rule same_after [OF reads_selected 3])
  then have "same_files d u3" by (simp add: same_files_def)
  then have "\<forall>f \<in> set (pa_files acc). planned_from d (cp_root plan) f"
    using plan_roms_Inr [OF 4] planned_same by fastforce
  then show ?thesis using 5 6 by (simp add: list_all_iff comp_def)
qed

text \<open>
  C20: A plan is faithful to the card: each file it names stands for an accepted ROM image below the
  asset directory and a shared save with the mirrored name, its payload is the conversion of that
  save's contents for that ROM's save type and clock, its destination is the mirrored name below the
  core's own save directory, and no two files have the same destination, even up to case.
\<close>

theorem plan_is_faithful:
  "case fst (plan_migration sd_root selected all_roms d) of
     Inl e \<Rightarrow> True
   | Inr plan \<Rightarrow> list_all (planned_from d (cp_root plan)) (cp_files plan) \<and>
       distinct (map (\<lambda>f. casefold (join_path (cf_destination f))) (cp_files plan))"
  using plan_files_planned [of sd_root selected all_roms d _ "snd (plan_migration sd_root selected all_roms d)"]
  by (cases "fst (plan_migration sd_root selected all_roms d)") (simp_all add: prod_eq_iff)

section \<open>The asset walk\<close>

lemma node_at_error: "node_at d follow path = Inl e \<Longrightarrow> os_error e"
proof -
  have "walk_path d k follow st cs = Inl e \<Longrightarrow> os_error e" for k st cs e
    by (induction d k follow st cs rule: walk_path.induct)
      (auto simp: rbind_def child_node_os split: if_splits sum.splits node.splits nat.splits)
  then show "node_at d follow path = Inl e \<Longrightarrow> os_error e"
    by (auto simp: node_at_def resolve_ino_def rbind_def split: sum.splits option.splits)
qed

lemma scandir_os: "raises os_error (sys_scandir directory)"
  unfolding sys_scandir_def
  by (rule raises_syscall, rule raisesI)
    (auto simp: get_state_def rbind_def node_at_error split: sum.splits if_splits prod.splits)

lemma walk_entries:
  assumes rec: "\<And>directory relative count roms d. MAX_TREE_ENTRIES < fuel + count \<Longrightarrow> count \<le> MAX_TREE_ENTRIES \<Longrightarrow>
      length roms \<le> min count MAX_SELECTED_ROMS \<Longrightarrow>
      wp (walk_roms fuel directory relative (count, roms))
        (\<lambda>(c, r) _. count \<le> c \<and> c \<le> MAX_TREE_ENTRIES \<and> length r \<le> min c MAX_SELECTED_ROMS) (\<lambda>e _. e \<noteq> OUT_OF_FUEL) d"
    and "MAX_TREE_ENTRIES < Suc fuel + count" and "count \<le> MAX_TREE_ENTRIES" and "length roms \<le> min count MAX_SELECTED_ROMS"
  shows "wp (walk_roms (Suc fuel) directory relative (count, roms))
        (\<lambda>(c, r) _. count \<le> c \<and> c \<le> MAX_TREE_ENTRIES \<and> length r \<le> min c MAX_SELECTED_ROMS) (\<lambda>e _. e \<noteq> OUT_OF_FUEL) d"
proof -
  let ?I = "\<lambda>(folded :: string list, c, r :: string list list) (_ :: disk).
    count \<le> c \<and> c \<le> MAX_TREE_ENTRIES \<and> length r \<le> min c MAX_SELECTED_ROMS"
  have fuel: "OUT_OF_FUEL \<noteq> MigrationError m" for m by (simp add: OUT_OF_FUEL_def)
  have scan: "wp (os_errors_as (MigrationError m) (sys_scandir directory)) (\<lambda>_ _. True) (\<lambda>e _. e \<noteq> OUT_OF_FUEL) d" for m
  proof (rule wp_os_errors_as, rule wpI)
    fix e t assume "sys_scandir directory d = (Inl e, t)"
    then have "os_error e" by (rule raises_Inl [OF scandir_os])
    then have "e \<noteq> OUT_OF_FUEL" by (auto simp: OUT_OF_FUEL_def os_error_def)
    then show "e \<noteq> OUT_OF_FUEL \<and> MigrationError m \<noteq> OUT_OF_FUEL" using fuel [of m] by simp
  qed simp
  show ?thesis
    unfolding walk_roms.simps wp_bind
  proof (rule wp_mono [OF scan], rule wp_mono [OF wp_efold [where I = ?I]])
    fix p :: "string \<times> node" and acc s
    assume i: "?I acc s"
    obtain name n where p: "p = (name, n)" by (cases p)
    obtain folded c r where a: "acc = (folded, c, r)" by (cases acc) auto
    show "wp (walk_entry (walk_roms fuel) directory relative p acc) ?I (\<lambda>e _. e \<noteq> OUT_OF_FUEL) s"
      unfolding p a walk_entry_def prod.case wp_simps
      using i assms(2) unfolding a
      by (auto simp: fuel [symmetric] intro!: wp_mono [OF rec])
  qed (use assms in \<open>auto simp: wp_simps\<close>)
qed

lemma walk_bounded:
  "MAX_TREE_ENTRIES < fuel + count \<Longrightarrow> count \<le> MAX_TREE_ENTRIES \<Longrightarrow> length roms \<le> min count MAX_SELECTED_ROMS \<Longrightarrow>
   wp (walk_roms fuel directory relative (count, roms))
     (\<lambda>(c, r) _. count \<le> c \<and> c \<le> MAX_TREE_ENTRIES \<and> length r \<le> min c MAX_SELECTED_ROMS) (\<lambda>e _. e \<noteq> OUT_OF_FUEL) d"
proof (induction fuel arbitrary: directory relative count roms d)
  case 0
  then show ?case by simp
next
  case (Suc fuel)
  show ?case by (rule walk_entries) (use Suc in auto)
qed

text \<open>
  The search for ROMs ends within its limits on every card, however deep or cyclic its directories
  look: the fuel of the model is never exhausted, and a result has counted at most 8192 entries and
  found at most 1024 ROMs.
\<close>

theorem asset_walk_bounded:
  "case fst (walk_roms (MAX_TREE_ENTRIES + 1) directory [] (0, []) d) of
     Inl e \<Rightarrow> e \<noteq> OUT_OF_FUEL
   | Inr (count, roms) \<Rightarrow> count \<le> MAX_TREE_ENTRIES \<and> length roms \<le> MAX_SELECTED_ROMS"
  using walk_bounded [of "MAX_TREE_ENTRIES + 1" 0 "[]" directory "[]" d]
  by (auto simp: wp_def split: prod.splits sum.splits)

section \<open>A small card\<close>

text \<open>A card with one file below its root, a plan of two files, and the rules that run them.\<close>

definition sample_card :: disk where
  "sample_card = \<lparr>dk_nodes = [0 \<mapsto> DirNode [(''b'', 1)], 1 \<mapsto> FileNode [9]], dk_next = 2, dk_fold = False,
     dk_calls = 0, dk_fault = (\<lambda>n. None), dk_token = (\<lambda>n. ''0''), dk_drawn = 0\<rparr>"

definition sample_file :: "string \<Rightarrow> byte list \<Rightarrow> cartridge_file" where
  "sample_file name bs =
     \<lparr>cf_rom = [''r''], cf_source = [''s''], cf_destination = [name], cf_payload = bs, cf_conversion = ''canonical''\<rparr>"

definition sample_plan :: "byte list \<Rightarrow> cartridge_plan" where
  "sample_plan bs = \<lparr>cp_root = [], cp_root_inode = 0, cp_files = [sample_file ''a'' [1, 2], sample_file ''b'' bs],
     cp_copies = [], cp_identical = [], cp_no_save = [], cp_missing = []\<rparr>"

definition sample_created :: created_file where
  "sample_created = \<lparr>cd_parent = 0, cd_name = ''a'', cd_relative = [''a''], cd_inode = 2, cd_payload = [1, 2]\<rparr>"

text \<open>The card after the first file has been published, with the number of calls made.\<close>

definition sample_after :: "nat \<Rightarrow> disk" where
  "sample_after n = \<lparr>dk_nodes = [0 \<mapsto> DirNode [(''b'', 1), (''a'', 2)], 1 \<mapsto> FileNode [9], 2 \<mapsto> FileNode [1, 2]],
     dk_next = 3, dk_fold = False, dk_calls = n, dk_fault = (\<lambda>n. None), dk_token = (\<lambda>n. ''0''), dk_drawn = 1\<rparr>"

lemma sample_wf: "wf_disk sample_card"
  by (auto simp: wf_disk_def sample_card_def)

lemmas eval_fs = ebind_def ecatch_def syscall_ok get_state_def call_made_def write_ok
     child_node_def entry_of_def find_entry_def entries_def name_key_def casefold_def
     fold_char_def char_code_def is_dir_def is_dir_node_def eguard_def ereturn_def eraise_def elift_def etry_def
     is_link_node_def is_file_node_def node_bytes_def os_errors_as_def ensure_def
     case_safe_def unsafe_char_def read_whole small_chunk eon_error_def ignore_os_errors_def
     case_safe_name_at_def read_destination_at_def destination_state_at_def install_atomic_no_replace_at_def
     fsync_directory_best_effort_def temp_name_def fill_and_install_def atomic_write_new_at_def sys_listdir_def sys_open_at_def
     sys_fstat_def sys_sync_def sys_unlink_def sys_create_def sys_rename_noreplace_def move_entry_def add_entry_def drop_entry_def
     put_node_def new_node_def store_bytes_def draw_token_def Let_def rbind_def open_parent_at_def

lemma sample_publish: "publish_file 0 (sample_file ''a'' [1, 2]) sample_card = (Inr (Some sample_created), sample_after 9)"
  by (simp add: publish_file_def sample_file_def sample_card_def sample_created_def sample_after_def eval_fs
      numeral_eq_Suc fun_upd_twist)

lemma sample_check: "\<exists>m. check_published 0 sample_created (sample_after n) = (Inr (), sample_after m)"
  by (simp add: check_published_def confirm_parent_identity_def verify_created_at_def sample_created_def
      sample_after_def eval_fs numeral_eq_Suc)

lemma sample_identical: "\<exists>m. publish_file 0 (sample_file ''b'' [9]) (sample_after n) = (Inr None, sample_after m)"
  by (simp add: publish_file_def sample_file_def sample_after_def eval_fs numeral_eq_Suc)

lemma sample_differs: "\<exists>m. publish_file 0 (sample_file ''b'' [7]) (sample_after n) =
    (Inl (MigrationError ''destination differs; refusing to overwrite''), sample_after m)"
  by (simp add: publish_file_def sample_file_def sample_after_def eval_fs numeral_eq_Suc)

lemma sample_rollback: "\<exists>t. rollback_created_at sample_created (sample_after n) = (Inr True, t)"
  by (simp add: rollback_created_at_def remove_quarantined_def rollback_name_def sys_stat_at_def remove_entry_def
      sample_created_def sample_after_def eval_fs numeral_eq_Suc)

section \<open>Properties\<close>

text \<open>
  C3: Whatever happens, the migration destroys nothing: for every card, every selection and every
  sequence of failing system calls, planned or applied, each file, link and directory entry that
  existed before the command exists afterwards, under the same name, on the same inode and with the
  same contents.
\<close>

theorem card_never_damaged:
  assumes "wf_disk d" and "migration_command sd_root selected all_roms apply_it d = (r, t)"
  shows "lost_nothing d t"
proof -
  have start: "since d {} d" using assms(1) by (rule since_refl)
  have plan: "wp (plan_migration sd_root selected all_roms) (\<lambda>_. since d {}) (\<lambda>_. since d {}) d"
    by (rule card_store.read_law [OF reads_plan start])
  have "wp (migration_command sd_root selected all_roms apply_it) (\<lambda>_ s. \<exists>C. since d C s) (\<lambda>_ s. \<exists>C. since d C s) d"
    unfolding migration_command_def wp_catch wp_bind
    by (rule wp_mono [OF plan])
      (auto simp: wp_simps split: py_error.splits intro!: wp_mono [OF card_store.apply_keeps])
  from wp_result [OF this assms(2)] show ?thesis by (auto simp: since_def)
qed

lemma card_never_damaged_witness:
  "lost_nothing sample_card (snd (migration_command [''sd''] [''a.ws''] False True sample_card))"
  using card_never_damaged [OF sample_wf, of "[''sd'']" "[''a.ws'']" False True
      "fst (migration_command [''sd''] [''a.ws''] False True sample_card)"] by simp

text \<open>
  A plan is read-only: computing it changes no file, directory or link, whether it succeeds or
  raises.
\<close>

theorem plan_changes_nothing: "same_files d (snd (plan_migration sd_root selected all_roms d))"
  by (rule same_after [OF reads_plan, of _ _ _ d "fst (plan_migration sd_root selected all_roms d)"]) simp

text \<open>
  C4: A successful transaction delivers: every file of the plan is then at its destination below the
  card's root with exactly its planned contents, nothing that was there before is lost, and the
  destinations reported as copied or identical are exactly those of the plan.
\<close>

theorem transaction_delivers:
  assumes "wf_disk d" and "apply_transaction rd plan d = (Inr (copied, identical), t)"
  shows "list_all (\<lambda>f. file_below t rd (cf_destination f) = Some (cf_payload f)) (cp_files plan) \<and>
    lost_nothing d t \<and> set copied \<union> set identical = cf_destination ` set (cp_files plan)"
proof -
  have "undo_and_raise e cs u \<noteq> (Inr x, v)" for e cs u v and x :: "string list list \<times> string list list"
    by (auto simp: undo_and_raise_def res_simps)
  then obtain acc where a: "eloop (apply_file rd) (cp_files plan) EMPTY_ACC d = (Inr (None, acc), t)"
    and r: "copied = aa_copied acc" "identical = aa_identical acc"
    using assms(2) by (auto simp: apply_transaction_def res_simps split: option.splits)
  from apply_loop_stored [OF a assms(1)] r show ?thesis
    by (simp add: EMPTY_ACC_def list_all_iff)
qed

lemma transaction_delivers_witness:
  "\<exists>t. apply_transaction 0 (sample_plan [9]) sample_card = (Inr ([[''a'']], [[''b'']]), t) \<and>
    file_below t 0 [''a''] = Some [1, 2] \<and> file_below t 0 [''b''] = Some [9]"
proof -
  obtain m where m: "check_published 0 sample_created (sample_after 9) = (Inr (), sample_after m)"
    using sample_check by blast
  obtain k where k: "publish_file 0 (sample_file ''b'' [9]) (sample_after m) = (Inr None, sample_after k)"
    using sample_identical by blast
  have d: "cf_destination (sample_file name bs) = [name]" for name bs by (simp add: sample_file_def)
  have run: "apply_transaction 0 (sample_plan [9]) sample_card = (Inr ([[''a'']], [[''b'']]), sample_after k)"
    by (simp add: apply_transaction_def sample_plan_def apply_file_def ebind_def etry_def ereturn_def EMPTY_ACC_def
        sample_publish m k d Let_def)
  then show ?thesis using transaction_delivers [OF sample_wf run] by (simp add: sample_plan_def sample_file_def)
qed

text \<open>
  C5: A failed transaction takes back what it has published: unless it reports leftovers, every
  entry of the card that was not there before is a directory or a hidden temporary name, so no
  destination file has appeared, and nothing that was there is lost.
\<close>

theorem failed_transaction_undone:
  assumes "wf_disk d" and "apply_transaction rd plan d = (Inl e, t)" and "e \<noteq> LEFTOVERS"
  shows "lost_nothing d t \<and>
    (\<forall>dir. \<forall>(name, i) \<in> set (entries t dir). entry_of d dir name = None \<longrightarrow> is_dir t i \<or> hidden_name name)"
proof -
  have "wp (apply_transaction rd plan) (\<lambda>_ s. \<exists>C. since d C s)
    (\<lambda>e s. (\<exists>C. since d C s) \<and> (e \<noteq> LEFTOVERS \<longrightarrow> since d {} s)) d"
    by (rule card_store.transaction_keeps [OF since_refl [OF assms(1)]])
  from wp_Inl [OF this assms(2)] assms(3) have "since d {} t" by simp
  then show ?thesis unfolding since_def gained_only_def by blast
qed

lemma failed_transaction_undone_witness:
  "\<exists>t. apply_transaction 0 (sample_plan [7]) sample_card
      = (Inl (MigrationError ''destination differs; refusing to overwrite''), t) \<and>
    lost_nothing sample_card t"
proof -
  obtain m where m: "check_published 0 sample_created (sample_after 9) = (Inr (), sample_after m)"
    using sample_check by blast
  obtain k where k: "publish_file 0 (sample_file ''b'' [7]) (sample_after m) =
      (Inl (MigrationError ''destination differs; refusing to overwrite''), sample_after k)"
    using sample_differs by blast
  obtain t where t: "rollback_created_at sample_created (sample_after k) = (Inr True, t)"
    using sample_rollback by blast
  have run: "apply_transaction 0 (sample_plan [7]) sample_card =
      (Inl (MigrationError ''destination differs; refusing to overwrite''), t)"
    by (simp add: apply_transaction_def sample_plan_def apply_file_def ebind_def etry_def ereturn_def EMPTY_ACC_def
        sample_publish m k Let_def undo_and_raise_def rollback_step_def ecatch_def t eraise_def)
  have "MigrationError ''destination differs; refusing to overwrite'' \<noteq> LEFTOVERS" by (simp add: LEFTOVERS_def)
  from failed_transaction_undone [OF sample_wf run this] run show ?thesis by blast
qed



end
