(* ===== verification/Json_Text.thy ===== *)
theory Json_Text
  imports Frame_Manifest
begin

text \<open>
  JSON text as Python's \<^verbatim>\<open>json\<close> module reads and writes it: \<open>json.loads\<close> with its
  \<open>object_pairs_hook\<close>, and \<open>json.dumps(document, indent=2, ensure_ascii=False)\<close>, with the theorem
  that reading what was written gives the document back.

  A text is the list of its UTF-8 code units, one character per byte; every structural character of
  JSON is ASCII, and a string value is the UTF-8 form of its characters. \<open>utf8_valid\<close> is the check
  of \<open>bytes.decode\<close> and \<open>str.encode\<close>, which a lone surrogate from an escape does not pass.

  The constants \<open>NaN\<close> and \<open>Infinity\<close> are refused, deep nesting is not limited, and how a float is
  rendered is a parameter of the printer.
\<close>

section \<open>UTF-8\<close>

definition continuation :: "char \<Rightarrow> bool" where
  "continuation c = (128 \<le> char_code c \<and> char_code c < 192)"

fun utf8_valid :: "string \<Rightarrow> bool" where
  "utf8_valid [] = True"
| "utf8_valid (a # s) =
     (let x = char_code a in
      if x < 128 then utf8_valid s
      else if 194 \<le> x \<and> x < 224 then
        (case s of b # t \<Rightarrow> continuation b \<and> utf8_valid t | _ \<Rightarrow> False)
      else if 224 \<le> x \<and> x < 240 then
        (case s of b # c # t \<Rightarrow>
           continuation b \<and> continuation c \<and> (x = 224 \<longrightarrow> 160 \<le> char_code b) \<and> (x = 237 \<longrightarrow> char_code b < 160)
           \<and> utf8_valid t
         | _ \<Rightarrow> False)
      else if 240 \<le> x \<and> x < 245 then
        (case s of b # c # d # t \<Rightarrow>
           continuation b \<and> continuation c \<and> continuation d \<and> (x = 240 \<longrightarrow> 144 \<le> char_code b)
           \<and> (x = 244 \<longrightarrow> char_code b < 144) \<and> utf8_valid t
         | _ \<Rightarrow> False)
      else False)"

definition text_of_bytes :: "byte list \<Rightarrow> string" where
  "text_of_bytes bs = map (\<lambda>b. char_of (unat b)) bs"

definition bytes_of_text :: "string \<Rightarrow> byte list" where
  "bytes_of_text s = map (\<lambda>c. word_of_nat (char_code c)) s"

text \<open>The code units of a code point.\<close>

definition utf8_units :: "nat \<Rightarrow> string" where
  "utf8_units n =
     (if n < 0x80 then [char_of n]
      else if n < 0x800 then [char_of (0xC0 + n div 0x40), char_of (0x80 + n mod 0x40)]
      else if n < 0x10000 then
        [char_of (0xE0 + n div 0x1000), char_of (0x80 + n div 0x40 mod 0x40), char_of (0x80 + n mod 0x40)]
      else [char_of (0xF0 + n div 0x40000), char_of (0x80 + n div 0x1000 mod 0x40),
            char_of (0x80 + n div 0x40 mod 0x40), char_of (0x80 + n mod 0x40)])"

section \<open>Reading\<close>

definition JSON_ERROR :: py_error where "JSON_ERROR = ValueError ''JSONDecodeError''"

definition json_space :: "char \<Rightarrow> bool" where
  "json_space c = (c = CHR '' '' \<or> c = CHR 0x09 \<or> c = CHR 0x0A \<or> c = CHR 0x0D)"

definition skip_space :: "string \<Rightarrow> string" where
  "skip_space s = dropWhile json_space s"

definition hex4 :: "string \<Rightarrow> nat option" where
  "hex4 s = (case map (digit_val 16) s of
     [Some a, Some b, Some c, Some d] \<Rightarrow> Some (((a * 16 + b) * 16 + c) * 16 + d) | _ \<Rightarrow> None)"

definition simple_escape :: "char \<Rightarrow> char option" where
  "simple_escape c =
     (if c = CHR 0x22 \<or> c = CHR 0x5C \<or> c = CHR ''/'' then Some c
      else if c = CHR ''b'' then Some (CHR 0x08) else if c = CHR ''f'' then Some (CHR 0x0C)
      else if c = CHR ''n'' then Some (CHR 0x0A) else if c = CHR ''r'' then Some (CHR 0x0D)
      else if c = CHR ''t'' then Some (CHR 0x09) else None)"

text \<open>
  A string after its opening quote: the contents and what follows the closing quote. An escaped high
  surrogate is joined with an escaped low surrogate that follows it.
\<close>

function read_string :: "string \<Rightarrow> (string \<times> string) option" where
  "read_string [] = None"
| "read_string (c # s) =
     (if c = CHR 0x22 then Some ([], s)
      else if char_code c < 0x20 then None
      else if c \<noteq> CHR 0x5C then map_option (\<lambda>(t, rest). (c # t, rest)) (read_string s)
      else case s of
          [] \<Rightarrow> None
        | e # s' \<Rightarrow>
            if e = CHR ''u'' then
              (case hex4 (take 4 s') of
                 None \<Rightarrow> None
               | Some hi \<Rightarrow>
                   let after = drop 4 s' in
                   (case (if 0xD800 \<le> hi \<and> hi < 0xDC00 \<and> take 2 after = [CHR 0x5C, CHR ''u'']
                          then hex4 (take 4 (drop 2 after)) else None) of
                      Some lo \<Rightarrow>
                        if 0xDC00 \<le> lo \<and> lo < 0xE000
                        then map_option (\<lambda>(t, rest).
                               (utf8_units (0x10000 + (hi - 0xD800) * 0x400 + (lo - 0xDC00)) @ t, rest))
                               (read_string (drop 6 after))
                        else map_option (\<lambda>(t, rest). (utf8_units hi @ t, rest)) (read_string after)
                    | None \<Rightarrow> map_option (\<lambda>(t, rest). (utf8_units hi @ t, rest)) (read_string after)))
            else (case simple_escape e of
                 None \<Rightarrow> None
               | Some x \<Rightarrow> map_option (\<lambda>(t, rest). (x # t, rest)) (read_string s')))"
  by pat_completeness auto
termination by (relation "measure length") auto

declare read_string.simps [simp del]

text \<open>Numbers: \<open>-?(0|[1-9][0-9]*)(\.[0-9]+)?([eE][-+]?[0-9]+)?\<close>, the longest match.\<close>

definition is_digit :: "char \<Rightarrow> bool" where
  "is_digit c = (48 \<le> char_code c \<and> char_code c \<le> 57)"

definition digits_value :: "string \<Rightarrow> nat" where
  "digits_value s = foldl (\<lambda>a c. a * 10 + (char_code c - 48)) 0 s"

definition read_int_part :: "string \<Rightarrow> (string \<times> string) option" where
  "read_int_part s =
     (case s of
        [] \<Rightarrow> None
      | c # t \<Rightarrow> if c = CHR ''0'' then Some ([c], t)
                else if is_digit c then Some (c # takeWhile is_digit t, dropWhile is_digit t) else None)"

definition read_fraction :: "string \<Rightarrow> (string \<times> string) option" where
  "read_fraction s =
     (case s of
        c # t \<Rightarrow> if c = CHR ''.'' \<and> takeWhile is_digit t \<noteq> [] then Some (takeWhile is_digit t, dropWhile is_digit t)
                else None
      | [] \<Rightarrow> None)"

definition read_exponent :: "string \<Rightarrow> (int \<times> string) option" where
  "read_exponent s =
     (case s of
        c # t \<Rightarrow>
          if c = CHR ''e'' \<or> c = CHR ''E'' then
            let signed = (t \<noteq> [] \<and> (hd t = CHR ''-'' \<or> hd t = CHR ''+''));
                ds = (if signed then tl t else t)
            in if takeWhile is_digit ds = [] then None
               else Some ((if signed \<and> hd t = CHR ''-'' then -1 else 1) * int (digits_value (takeWhile is_digit ds)),
                          dropWhile is_digit ds)
          else None
      | [] \<Rightarrow> None)"

definition scale10 :: "rat \<Rightarrow> int \<Rightarrow> rat" where
  "scale10 q e = (if 0 \<le> e then q * 10 ^ nat e else q / 10 ^ nat (- e))"

definition read_number :: "string \<Rightarrow> (json \<times> string) option" where
  "read_number s =
     (let negative = (s \<noteq> [] \<and> hd s = CHR ''-''); sign = (if negative then -1 else 1) in
      case read_int_part (if negative then tl s else s) of
        None \<Rightarrow> None
      | Some (ds, rest) \<Rightarrow>
          (case read_fraction rest of
             None \<Rightarrow>
               (case read_exponent rest of
                  None \<Rightarrow> Some (JInt (sign * int (digits_value ds)), rest)
                | Some (e, rest') \<Rightarrow> Some (JFloat (of_int sign * scale10 (of_nat (digits_value ds)) e), rest'))
           | Some (fs, rest') \<Rightarrow>
               let q = of_nat (digits_value (ds @ fs)) / 10 ^ length fs in
               (case read_exponent rest' of
                  None \<Rightarrow> Some (JFloat (of_int sign * q), rest')
                | Some (e, rest'') \<Rightarrow> Some (JFloat (of_int sign * scale10 q e), rest''))))"

text \<open>
  Values. The first argument bounds the nesting and the number of members still to read; twice
  the length of the text is enough. The hook is applied to the members of every object.
\<close>

type_synonym json_hook = "json_object \<Rightarrow> json res"

definition JSON_FUEL :: py_error where "JSON_FUEL = RuntimeError ''json fuel''"

fun read_value :: "nat \<Rightarrow> json_hook \<Rightarrow> string \<Rightarrow> (json \<times> string) res"
and read_members :: "nat \<Rightarrow> json_hook \<Rightarrow> string \<Rightarrow> (json_object \<times> string) res"
and read_elements :: "nat \<Rightarrow> json_hook \<Rightarrow> string \<Rightarrow> (json list \<times> string) res" where
  "read_value 0 hook s = Inl JSON_FUEL"
| "read_value (Suc k) hook s =
     (case s of
        [] \<Rightarrow> Inl JSON_ERROR
      | c # t \<Rightarrow>
          if c = CHR 0x22 then
            (case read_string t of None \<Rightarrow> Inl JSON_ERROR | Some (v, rest) \<Rightarrow> Inr (JStr v, rest))
          else if c = CHR ''{'' then
            (case skip_space t of
               [] \<Rightarrow> Inl JSON_ERROR
             | d # u \<Rightarrow>
                 if d = CHR ''}'' then rbind (hook []) (\<lambda>v. Inr (v, u))
                 else rbind (read_members k hook (d # u)) (\<lambda>(ms, rest). rbind (hook ms) (\<lambda>v. Inr (v, rest))))
          else if c = CHR ''['' then
            (case skip_space t of
               [] \<Rightarrow> Inl JSON_ERROR
             | d # u \<Rightarrow>
                 if d = CHR '']'' then Inr (JList [], u)
                 else rbind (read_elements k hook (d # u)) (\<lambda>(vs, rest). Inr (JList vs, rest)))
          else if take 4 s = ''null'' then Inr (JNull, drop 4 s)
          else if take 4 s = ''true'' then Inr (JBool True, drop 4 s)
          else if take 5 s = ''false'' then Inr (JBool False, drop 5 s)
          else (case read_number s of None \<Rightarrow> Inl JSON_ERROR | Some r \<Rightarrow> Inr r))"
| "read_members 0 hook s = Inl JSON_FUEL"
| "read_members (Suc k) hook s =
     (case s of
        [] \<Rightarrow> Inl JSON_ERROR
      | c # t \<Rightarrow>
          if c \<noteq> CHR 0x22 then Inl JSON_ERROR
          else (case read_string t of
              None \<Rightarrow> Inl JSON_ERROR
            | Some (key, t1) \<Rightarrow>
                (case skip_space t1 of
                   [] \<Rightarrow> Inl JSON_ERROR
                 | d # t2 \<Rightarrow>
                     if d \<noteq> CHR '':'' then Inl JSON_ERROR
                     else rbind (read_value k hook (skip_space t2)) (\<lambda>(v, t3).
                       case skip_space t3 of
                         [] \<Rightarrow> Inl JSON_ERROR
                       | e # t4 \<Rightarrow>
                           if e = CHR ''}'' then Inr ([(key, v)], t4)
                           else if e = CHR '','' then
                             rbind (read_members k hook (skip_space t4)) (\<lambda>(ms, rest). Inr ((key, v) # ms, rest))
                           else Inl JSON_ERROR))))"
| "read_elements 0 hook s = Inl JSON_FUEL"
| "read_elements (Suc k) hook s =
     rbind (read_value k hook s) (\<lambda>(v, t).
       case skip_space t of
         [] \<Rightarrow> Inl JSON_ERROR
       | e # u \<Rightarrow>
           if e = CHR '']'' then Inr ([v], u)
           else if e = CHR '','' then
             rbind (read_elements k hook (skip_space u)) (\<lambda>(vs, rest). Inr (v # vs, rest))
           else Inl JSON_ERROR)"

text \<open>\<open>dict(pairs)\<close>: a repeated key keeps its first position and its last value.\<close>

definition dict_of_pairs :: "json_object \<Rightarrow> json_object" where
  "dict_of_pairs ps = map (\<lambda>k. (k, the (map_of (rev ps) k))) (rev (remdups (rev (map fst ps))))"

definition loads :: "json_hook \<Rightarrow> string \<Rightarrow> json res" where
  "loads hook text =
     rbind (read_value (2 * length text + 1) hook (skip_space text)) (\<lambda>(v, rest).
       if skip_space rest = [] then Inr v else Inl JSON_ERROR)"

section \<open>Writing\<close>

definition escape_char :: "char \<Rightarrow> string" where
  "escape_char c =
     (if c = CHR 0x22 then [CHR 0x5C, c] else if c = CHR 0x5C then [CHR 0x5C, c]
      else if c = CHR 0x0A then [CHR 0x5C, CHR ''n''] else if c = CHR 0x0D then [CHR 0x5C, CHR ''r'']
      else if c = CHR 0x09 then [CHR 0x5C, CHR ''t''] else if c = CHR 0x0C then [CHR 0x5C, CHR ''f'']
      else if c = CHR 0x08 then [CHR 0x5C, CHR ''b'']
      else if char_code c < 0x20 then [CHR 0x5C, CHR ''u''] @ py_hex 4 (char_code c)
      else [c])"

definition write_string :: "string \<Rightarrow> string" where
  "write_string s = [CHR 0x22] @ concat (map escape_char s) @ [CHR 0x22]"

definition newline_indent :: "nat \<Rightarrow> string" where
  "newline_indent n = CHR 0x0A # replicate (2 * n) (CHR '' '')"

fun join_with :: "string \<Rightarrow> string list \<Rightarrow> string" where
  "join_with sep [] = []"
| "join_with sep [x] = x"
| "join_with sep (x # y # ys) = x @ sep @ join_with sep (y # ys)"

fun dumps :: "(rat \<Rightarrow> string) \<Rightarrow> nat \<Rightarrow> json \<Rightarrow> string" where
  "dumps fl n JNull = ''null''"
| "dumps fl n (JBool b) = (if b then ''true'' else ''false'')"
| "dumps fl n (JInt i) = py_str i"
| "dumps fl n (JFloat q) = fl q"
| "dumps fl n (JStr s) = write_string s"
| "dumps fl n (JList vs) =
     (if vs = [] then ''[]''
      else ''['' @ newline_indent (n + 1) @
           join_with ('','' @ newline_indent (n + 1)) (map (dumps fl (n + 1)) vs) @ newline_indent n @ '']'')"
| "dumps fl n (JObj ms) =
     (if ms = [] then ''{}''
      else ''{'' @ newline_indent (n + 1) @
           join_with ('','' @ newline_indent (n + 1))
             (map (\<lambda>(k, v). write_string k @ '': '' @ dumps fl (n + 1) v) ms) @ newline_indent n @ ''}'')"

section \<open>Reading what was written\<close>

lemma skip_indent: "\<not> json_space c \<Longrightarrow> skip_space (newline_indent n @ c # s) = c # s"
proof -
  assume c: "\<not> json_space c"
  have "dropWhile json_space (replicate m (CHR '' '') @ c # s) = c # s" for m
    by (induction m) (use c in \<open>auto simp: json_space_def\<close>)
  then show ?thesis by (simp add: skip_space_def newline_indent_def json_space_def)
qed

lemma skip_nothing: "\<not> json_space c \<Longrightarrow> skip_space (c # s) = c # s"
  by (simp add: skip_space_def)

lemma hex4_control: "n < 32 \<Longrightarrow> hex4 (py_hex 4 n) = Some n \<and> length (py_hex 4 n) = 4"
proof -
  have "list_all (\<lambda>n. hex4 (py_hex 4 n) = Some n \<and> length (py_hex 4 n) = 4) [0..<32]"
    by code_simp
  then show "n < 32 \<Longrightarrow> hex4 (py_hex 4 n) = Some n \<and> length (py_hex 4 n) = 4"
    by (simp add: list_all_iff)
qed

lemma read_plain: "c \<noteq> CHR 0x22 \<Longrightarrow> c \<noteq> CHR 0x5C \<Longrightarrow> \<not> char_code c < 0x20 \<Longrightarrow>
  read_string (c # s) = map_option (\<lambda>(t, rest). (c # t, rest)) (read_string s)"
  by (subst read_string.simps) simp

lemma read_simple: "simple_escape e = Some x \<Longrightarrow>
  read_string (CHR 0x5C # e # s) = map_option (\<lambda>(t, rest). (x # t, rest)) (read_string s)"
  by (subst read_string.simps) (auto simp: simple_escape_def char_code_def split: if_splits)

lemma read_control:
  assumes "char_code c < 0x20"
  shows "read_string (CHR 0x5C # CHR ''u'' # py_hex 4 (char_code c) @ s) =
    map_option (\<lambda>(t, rest). (c # t, rest)) (read_string s)"
proof -
  have h: "hex4 (py_hex 4 (char_code c)) = Some (char_code c)" "length (py_hex 4 (char_code c)) = 4"
    using hex4_control assms by blast+
  have "utf8_units (char_code c) = [c]" using assms by (simp add: utf8_units_def char_code_def)
  then show ?thesis using assms h by (subst read_string.simps) (simp add: Let_def char_code_def)
qed

lemma read_string_escaped: "read_string (concat (map escape_char s) @ CHR 0x22 # rest) = Some (s, rest)"
proof (induction s)
  case Nil
  then show ?case by (simp add: read_string.simps)
next
  case (Cons c s)
  let ?r = "concat (map escape_char s) @ CHR 0x22 # rest"
  have "read_string (escape_char c @ ?r) = map_option (\<lambda>(t, rest). (c # t, rest)) (read_string ?r)"
    using read_simple [of "CHR 0x22" "CHR 0x22" ?r] read_simple [of "CHR 0x5C" "CHR 0x5C" ?r]
      read_simple [of "CHR ''n''" "CHR 0x0A" ?r] read_simple [of "CHR ''r''" "CHR 0x0D" ?r]
      read_simple [of "CHR ''t''" "CHR 0x09" ?r] read_simple [of "CHR ''f''" "CHR 0x0C" ?r]
      read_simple [of "CHR ''b''" "CHR 0x08" ?r] read_control [of c ?r] read_plain [of c ?r]
    by (auto simp: escape_char_def simple_escape_def)
  then show ?case using Cons.IH by simp
qed

text \<open>Numbers; what follows one must not continue it.\<close>

definition stops :: "string \<Rightarrow> bool" where
  "stops rest = (case rest of [] \<Rightarrow> True | c # _ \<Rightarrow> c = CHR '','' \<or> c = CHR 0x0A)"

lemma is_digit_char: "d < 10 \<Longrightarrow> is_digit (digit_char d) \<and> char_code (digit_char d) - 48 = d"
  by (simp add: is_digit_def char_code_digit_char)

lemma decimal_digits: "list_all is_digit (show_nat_base 10 n)"
proof -
  have "set (show_nat_base 10 n) \<subseteq> digit_char ` {..<10}" using show_nat_base_digits [of 10 n] by simp
  then show ?thesis using is_digit_char by (auto simp: list_all_iff)
qed

lemma decimal_value: "digits_value (show_nat_base 10 n) = n"
proof -
  have "digits_value cs = foldl (\<lambda>a c. a * 10 + the (digit_val 10 c)) 0 cs" if "list_all is_digit cs" for cs
  proof -
    have "the (digit_val 10 c) = char_code c - 48" if "is_digit c" for c
      using that by (auto simp: digit_val_def is_digit_def Let_def)
    then have "foldl (\<lambda>a c. a * 10 + (char_code c - 48)) a cs = foldl (\<lambda>a c. a * 10 + the (digit_val 10 c)) a cs" for a
      using that by (induction cs arbitrary: a) auto
    then show ?thesis by (simp add: digits_value_def)
  qed
  then show ?thesis using decimal_digits show_nat_base_value [of 10 n] by simp
qed

lemma decimal_head: "\<exists>c cs. show_nat_base 10 n = c # cs \<and> is_digit c \<and> (c = CHR ''0'' \<longrightarrow> cs = [])"
proof (induction n rule: less_induct)
  case (less n)
  show ?case
  proof (cases "n < 10")
    case True
    then have "show_nat_base 10 n = [digit_char n]" by (simp add: show_nat_base.simps)
    then show ?thesis using True is_digit_char by simp
  next
    case False
    then have eq: "show_nat_base 10 n = show_nat_base 10 (n div 10) @ [digit_char (n mod 10)]"
      by (subst show_nat_base.simps) simp
    obtain c cs where c: "show_nat_base 10 (n div 10) = c # cs" "is_digit c" "c = CHR ''0'' \<longrightarrow> cs = []"
      using less.IH [of "n div 10"] False by auto
    have "c \<noteq> CHR ''0''"
    proof
      assume z: "c = CHR ''0''"
      then have "show_nat_base 10 (n div 10) = ''0''" using c by simp
      then have "n div 10 = 0" using decimal_value [of "n div 10"] by (simp add: digits_value_def char_code_def)
      then show False using False by simp
    qed
    then show ?thesis using c eq by simp
  qed
qed

lemma take_digits:
  assumes "list_all is_digit cs" and "stops rest"
  shows "takeWhile is_digit (cs @ rest) = cs" "dropWhile is_digit (cs @ rest) = rest"
proof -
  have "takeWhile is_digit rest = [] \<and> dropWhile is_digit rest = rest"
    using assms(2) by (auto simp: stops_def is_digit_def char_code_def split: list.splits)
  then show "takeWhile is_digit (cs @ rest) = cs" "dropWhile is_digit (cs @ rest) = rest"
    using assms(1) by (induction cs) auto
qed

lemma read_int_decimal:
  assumes "stops rest"
  shows "read_int_part (show_nat_base 10 n @ rest) = Some (show_nat_base 10 n, rest)"
proof -
  obtain c cs where c: "show_nat_base 10 n = c # cs" "is_digit c" "c = CHR ''0'' \<longrightarrow> cs = []"
    using decimal_head by blast
  have "list_all is_digit cs" using decimal_digits [of n] c(1) by simp
  then show ?thesis using c take_digits [of cs rest] assms by (auto simp: read_int_part_def)
qed

lemma stops_number: "stops rest \<Longrightarrow> read_fraction rest = None \<and> read_exponent rest = None"
  by (auto simp: stops_def read_fraction_def read_exponent_def split: list.splits)

lemma read_number_py_str:
  assumes "stops rest"
  shows "read_number (py_str i @ rest) = Some (JInt i, rest)"
proof (cases "i < 0")
  case True
  then show ?thesis
    using read_int_decimal [OF assms] stops_number [OF assms]
    by (simp add: read_number_def py_str_def decimal_value)
next
  case False
  obtain c cs where c: "show_nat_base 10 (nat i) = c # cs" "is_digit c" using decimal_head by blast
  then have "c \<noteq> CHR ''-''" by (auto simp: is_digit_def char_code_def)
  then have h: "hd (show_nat_base 10 (nat i) @ rest) \<noteq> CHR ''-''" using c(1) by simp
  show ?thesis
    using False read_int_decimal [OF assms, of "nat i"] stops_number [OF assms] h
    by (simp add: read_number_def py_str_def decimal_value)
qed

text \<open>
  Documents that are written faithfully: no fractions, whose rendering is a parameter, and no object
  with a repeated key, which a dictionary cannot have.
\<close>

fun plain_json :: "json \<Rightarrow> bool" where
  "plain_json (JFloat q) = False"
| "plain_json (JList vs) = list_all plain_json vs"
| "plain_json (JObj ms) = (distinct (map fst ms) \<and> list_all (\<lambda>(k, v). plain_json v) ms)"
| "plain_json _ = True"

text \<open>A hook that gives an object for members with distinct keys.\<close>

definition object_hook :: "json_hook \<Rightarrow> bool" where
  "object_hook hook = (\<forall>ms. distinct (map fst ms) \<longrightarrow> hook ms = Inr (JObj ms))"

definition written :: "(rat \<Rightarrow> string) \<Rightarrow> json_hook \<Rightarrow> json \<Rightarrow> bool" where
  "written fl hook j = (\<forall>k n rest. length (dumps fl n j) \<le> k \<longrightarrow> stops rest \<longrightarrow>
     read_value k hook (dumps fl n j @ rest) = Inr (j, rest))"

lemma stops_indent [simp]: "stops (newline_indent n @ s)" "stops (CHR '','' # s)"
  by (simp_all add: stops_def newline_indent_def)

lemma dumps_head: "\<exists>c s. dumps fl n j @ rest = c # s \<and> \<not> json_space c \<and> c \<noteq> CHR '']'' \<and> c \<noteq> CHR ''}''"
  if "\<And>q. j \<noteq> JFloat q"
proof (cases j)
  case (JInt i)
  show ?thesis
  proof (cases "i < 0")
    case True
    then show ?thesis by (simp add: JInt py_str_def json_space_def)
  next
    case False
    obtain c cs where c: "show_nat_base 10 (nat i) = c # cs" "is_digit c" using decimal_head by blast
    then have "\<not> json_space c \<and> c \<noteq> CHR '']'' \<and> c \<noteq> CHR ''}''"
      by (auto simp: is_digit_def json_space_def char_code_def)
    then show ?thesis using False c by (simp add: JInt py_str_def)
  qed
next
  case (JFloat q)
  then show ?thesis using that by blast
qed (auto simp: json_space_def write_string_def split: if_splits)

lemma join_with_Cons: "join_with sep (x # xs) = x @ (if xs = [] then [] else sep @ join_with sep xs)"
  by (cases xs) simp_all

lemma read_elements_written:
  assumes "\<And>v. v \<in> set vs \<Longrightarrow> written fl hook v \<and> plain_json v" and "vs \<noteq> []"
    and "length (join_with ('','' @ newline_indent m) (map (dumps fl m) vs)) + 1 \<le> k"
  shows "read_elements k hook (join_with ('','' @ newline_indent m) (map (dumps fl m) vs) @ newline_indent n @ CHR '']'' # rest) =
    Inr (vs, rest)"
  using assms
proof (induction vs arbitrary: k)
  case Nil
  then show ?case by simp
next
  case (Cons v vs)
  obtain k' where k: "k = Suc k'" using Cons.prems(3) by (cases k) auto
  let ?tail = "(if vs = [] then [] else '','' @ newline_indent m @ join_with ('','' @ newline_indent m) (map (dumps fl m) vs))
      @ newline_indent n @ CHR '']'' # rest"
  have text_eq: "join_with ('','' @ newline_indent m) (map (dumps fl m) (v # vs)) @ newline_indent n @ CHR '']'' # rest
      = dumps fl m v @ ?tail"
    by (simp add: join_with_Cons)
  have len: "length (dumps fl m v) \<le> k'" using Cons.prems(3) k by (simp add: join_with_Cons)
  have "stops ?tail" by simp
  then have v: "read_value k' hook (dumps fl m v @ ?tail) = Inr (v, ?tail)"
    using Cons.prems(1) [of v] len unfolding written_def by auto
  show ?case
  proof (cases "vs = []")
    case True
    have "skip_space (newline_indent n @ CHR '']'' # rest) = CHR '']'' # rest" by (rule skip_indent) (simp add: json_space_def)
    then show ?thesis unfolding text_eq k using v True by simp
  next
    case False
    let ?more = "join_with ('','' @ newline_indent m) (map (dumps fl m) vs)"
    obtain w ws where vs: "vs = w # ws" using False by (cases vs) auto
    have w: "w \<noteq> JFloat q" for q using Cons.prems(1) [of w] vs by auto
    obtain c s where c: "?more @ newline_indent n @ CHR '']'' # rest = c # s" "\<not> json_space c"
      using dumps_head [OF w, of fl m] by (fastforce simp: vs join_with_Cons)
    have sk: "skip_space (newline_indent m @ ?more @ newline_indent n @ CHR '']'' # rest) = ?more @ newline_indent n @ CHR '']'' # rest"
      using c skip_indent [OF c(2)] by simp
    have "read_elements k' hook (?more @ newline_indent n @ CHR '']'' # rest) = Inr (vs, rest)"
      by (rule Cons.IH) (use Cons.prems k False in \<open>auto simp: join_with_Cons\<close>)
    moreover have "skip_space (CHR '','' # s) = CHR '','' # s" for s by (rule skip_nothing) (simp add: json_space_def)
    ultimately show ?thesis unfolding text_eq k using v False sk by simp
  qed
qed

definition write_member :: "(rat \<Rightarrow> string) \<Rightarrow> nat \<Rightarrow> string \<times> json \<Rightarrow> string" where
  "write_member fl n = (\<lambda>(k, v). write_string k @ '': '' @ dumps fl n v)"

lemma read_members_written:
  assumes "\<And>p. p \<in> set ms \<Longrightarrow> written fl hook (snd p) \<and> plain_json (snd p)" and "ms \<noteq> []"
    and "length (join_with ('','' @ newline_indent m) (map (write_member fl m) ms)) + 1 \<le> k"
  shows "read_members k hook (join_with ('','' @ newline_indent m) (map (write_member fl m) ms) @ newline_indent n @ CHR ''}'' # rest) =
    Inr (ms, rest)"
  using assms
proof (induction ms arbitrary: k)
  case Nil
  then show ?case by simp
next
  case (Cons p ms)
  obtain key v where p: "p = (key, v)" by (cases p)
  obtain k' where k: "k = Suc k'" using Cons.prems(3) by (cases k) auto
  let ?tail = "(if ms = [] then [] else '','' @ newline_indent m @ join_with ('','' @ newline_indent m) (map (write_member fl m) ms))
      @ newline_indent n @ CHR ''}'' # rest"
  have text_eq: "join_with ('','' @ newline_indent m) (map (write_member fl m) (p # ms)) @ newline_indent n @ CHR ''}'' # rest
      = CHR 0x22 # concat (map escape_char key) @ CHR 0x22 # '': '' @ dumps fl m v @ ?tail"
    by (simp add: join_with_Cons p write_member_def write_string_def)
  have len: "length (dumps fl m v) \<le> k'" using Cons.prems(3) k by (simp add: join_with_Cons p write_member_def)
  have "stops ?tail" by simp
  then have v: "read_value k' hook (dumps fl m v @ ?tail) = Inr (v, ?tail)"
    using Cons.prems(1) [of p] len unfolding written_def p by auto
  have nf: "v \<noteq> JFloat q" for q using Cons.prems(1) [of p] p by auto
  obtain c s where c: "dumps fl m v @ ?tail = c # s" "\<not> json_space c" using dumps_head [OF nf, of fl m ?tail] by blast
  have sk1: "skip_space ('': '' @ dumps fl m v @ ?tail) = '': '' @ dumps fl m v @ ?tail"
    by (simp add: skip_space_def json_space_def)
  have sk2: "skip_space (CHR '' '' # dumps fl m v @ ?tail) = dumps fl m v @ ?tail"
    unfolding c(1) using c(2) by (simp add: skip_space_def json_space_def)
  have colon: "\<not> json_space (CHR '':'')" "\<not> json_space (CHR '','')" "\<not> json_space (CHR ''}'')" by (simp_all add: json_space_def)
  show ?case
  proof (cases "ms = []")
    case True
    have "skip_space (newline_indent n @ CHR ''}'' # rest) = CHR ''}'' # rest" by (rule skip_indent [OF colon(3)])
    then show ?thesis unfolding text_eq k using v True sk2 read_string_escaped [of key]
      by (simp add: skip_nothing [OF colon(1)] p)
  next
    case False
    let ?more = "join_with ('','' @ newline_indent m) (map (write_member fl m) ms)"
    obtain q qs where ms: "ms = q # qs" using False by (cases ms) auto
    have "\<not> json_space (CHR 0x22)" by (simp add: json_space_def)
    then have sk: "skip_space (newline_indent m @ ?more @ newline_indent n @ CHR ''}'' # rest) = ?more @ newline_indent n @ CHR ''}'' # rest"
      using skip_indent by (cases q) (simp add: ms join_with_Cons write_member_def write_string_def)
    have "read_members k' hook (?more @ newline_indent n @ CHR ''}'' # rest) = Inr (ms, rest)"
      by (rule Cons.IH) (use Cons.prems k False in \<open>auto simp: join_with_Cons\<close>)
    then show ?thesis unfolding text_eq k using v False sk sk2 read_string_escaped [of key]
      by (simp add: skip_nothing [OF colon(1)] skip_nothing [OF colon(2)] p)
  qed
qed

lemma written_number: "written fl hook (JInt i)"
proof (unfold written_def, intro allI impI)
  fix k n rest
  assume k: "length (dumps fl n (JInt i)) \<le> k" and rest: "stops rest"
  obtain c cs where c: "py_str i = c # cs" "c = CHR ''-'' \<or> is_digit c"
  proof (cases "i < 0")
    case True
    then show ?thesis using that by (simp add: py_str_def)
  next
    case False
    obtain c cs where "show_nat_base 10 (nat i) = c # cs" "is_digit c" using decimal_head by blast
    then show ?thesis using that False by (simp add: py_str_def)
  qed
  obtain k' where k': "k = Suc k'" using k c by (cases k) auto
  have "c \<noteq> CHR 0x22 \<and> c \<noteq> CHR ''{'' \<and> c \<noteq> CHR ''['' \<and> c \<noteq> CHR ''n'' \<and> c \<noteq> CHR ''t'' \<and> c \<noteq> CHR ''f''"
    using c(2) by (auto simp: is_digit_def char_code_def)
  moreover have "read_number (c # cs @ rest) = Some (JInt i, rest)"
    using read_number_py_str [OF rest, of i] c(1) by simp
  ultimately show "read_value k hook (dumps fl n (JInt i) @ rest) = Inr (JInt i, rest)"
    by (simp add: k' c(1))
qed

lemma written_list:
  assumes "\<And>v. v \<in> set vs \<Longrightarrow> written fl hook v \<and> plain_json v"
  shows "written fl hook (JList vs)"
proof (unfold written_def, intro allI impI)
  fix k n rest
  assume k: "length (dumps fl n (JList vs)) \<le> k" and rest: "stops rest"
  obtain k' where k': "k = Suc k'" using k by (cases k) (auto split: if_splits)
  show "read_value k hook (dumps fl n (JList vs) @ rest) = Inr (JList vs, rest)"
  proof (cases "vs = []")
    case True
    then show ?thesis by (simp add: k' skip_space_def json_space_def)
  next
    case False
    obtain w ws where vs: "vs = w # ws" using False by (cases vs) auto
    let ?text = "join_with ('','' @ newline_indent (n + 1)) (map (dumps fl (n + 1)) vs) @ newline_indent n @ CHR '']'' # rest"
    have w: "w \<noteq> JFloat q" for q using assms [of w] vs by auto
    obtain c s where c: "?text = c # s" "\<not> json_space c" "c \<noteq> CHR '']''"
      using dumps_head [OF w, of fl "n + 1"] by (fastforce simp: vs join_with_Cons)
    have "read_elements k' hook ?text = Inr (vs, rest)"
      by (rule read_elements_written) (use assms False k k' in \<open>auto simp: newline_indent_def\<close>)
    then have "read_elements k' hook (c # s) = Inr (vs, rest)" using c(1) by simp
    moreover have "skip_space (newline_indent (n + 1) @ c # s) = c # s" by (rule skip_indent [OF c(2)])
    moreover have "dumps fl n (JList vs) @ rest = CHR ''['' # newline_indent (n + 1) @ ?text" using False by simp
    ultimately show ?thesis using c unfolding k' by simp
  qed
qed

lemma written_object:
  assumes "\<And>p. p \<in> set ms \<Longrightarrow> written fl hook (snd p) \<and> plain_json (snd p)"
    and hook: "hook ms = Inr (JObj ms)"
  shows "written fl hook (JObj ms)"
proof (unfold written_def, intro allI impI)
  fix k n rest
  assume k: "length (dumps fl n (JObj ms)) \<le> k" and rest: "stops rest"
  have dumps: "dumps fl n (JObj ms) = (if ms = [] then ''{}''
      else ''{'' @ newline_indent (n + 1) @ join_with ('','' @ newline_indent (n + 1)) (map (write_member fl (n + 1)) ms)
        @ newline_indent n @ ''}'')"
    by (simp add: write_member_def)
  obtain k' where k': "k = Suc k'" using k by (cases k) (auto split: if_splits)
  show "read_value k hook (dumps fl n (JObj ms) @ rest) = Inr (JObj ms, rest)"
  proof (cases "ms = []")
    case True
    then show ?thesis using hook by (simp add: k' skip_space_def json_space_def)
  next
    case False
    obtain q qs where ms: "ms = q # qs" using False by (cases ms) auto
    let ?text = "join_with ('','' @ newline_indent (n + 1)) (map (write_member fl (n + 1)) ms) @ newline_indent n @ CHR ''}'' # rest"
    obtain s where s: "?text = CHR 0x22 # s"
      by (cases q) (auto simp: ms join_with_Cons write_member_def write_string_def)
    have "read_members k' hook ?text = Inr (ms, rest)"
      by (rule read_members_written) (use assms False k k' dumps in \<open>auto simp: newline_indent_def\<close>)
    then have "read_members k' hook (CHR 0x22 # s) = Inr (ms, rest)" using s by simp
    moreover have "skip_space (newline_indent (n + 1) @ CHR 0x22 # s) = CHR 0x22 # s"
      by (rule skip_indent) (simp add: json_space_def)
    moreover have "dumps fl n (JObj ms) @ rest = CHR ''{'' # newline_indent (n + 1) @ ?text" using False dumps by simp
    ultimately show ?thesis using s hook unfolding k' by simp
  qed
qed

lemma written_word:
  assumes "\<And>n. dumps fl n j \<noteq> []" and "\<And>k n rest. read_value (Suc k) hook (dumps fl n j @ rest) = Inr (j, rest)"
  shows "written fl hook j"
proof (unfold written_def, intro allI impI)
  fix k n rest
  assume "length (dumps fl n j) \<le> k"
  then obtain k' where "k = Suc k'" using assms(1) [of n] by (cases k) auto
  then show "read_value k hook (dumps fl n j @ rest) = Inr (j, rest)" using assms(2) by simp
qed

lemma written_plain: "plain_json j \<Longrightarrow> object_hook hook \<Longrightarrow> written fl hook j"
proof (induction j)
  case JNull
  show ?case by (rule written_word) auto
next
  case (JBool b)
  show ?case by (rule written_word) auto
next
  case (JStr s)
  show ?case
  proof (unfold written_def, intro allI impI)
    fix k n rest
    assume "length (dumps fl n (JStr s)) \<le> k"
    then obtain k' where "k = Suc k'" by (cases k) (auto simp: write_string_def)
    then show "read_value k hook (dumps fl n (JStr s) @ rest) = Inr (JStr s, rest)"
      using read_string_escaped [of s rest] by (simp add: write_string_def)
  qed
next
  case (JInt i)
  show ?case by (rule written_number)
next
  case (JList vs)
  show ?case by (rule written_list) (use JList in \<open>auto simp: list_all_iff\<close>)
next
  case (JObj ms)
  show ?case
  proof (rule written_object)
    show "hook ms = Inr (JObj ms)" using JObj.prems by (simp add: object_hook_def)
  qed (use JObj in \<open>auto simp: list_all_iff snds.simps prod_set_simps split: prod.splits\<close>)
qed simp

lemma loads_dumps:
  assumes "plain_json j" and "object_hook hook"
  shows "loads hook (dumps fl 0 j @ [CHR 0x0A]) = Inr j"
proof -
  have nf: "j \<noteq> JFloat q" for q using assms(1) by auto
  obtain c s where c: "dumps fl 0 j @ [CHR 0x0A] = c # s" "\<not> json_space c" using dumps_head [OF nf] by blast
  have "read_value (2 * length (dumps fl 0 j @ [CHR 0x0A]) + 1) hook (dumps fl 0 j @ [CHR 0x0A]) = Inr (j, [CHR 0x0A])"
    using written_plain [OF assms, of fl, unfolded written_def, rule_format, of 0 "2 * length (dumps fl 0 j @ [CHR 0x0A]) + 1" "[CHR 0x0A]"]
    by (simp add: stops_def)
  moreover have "skip_space (dumps fl 0 j @ [CHR 0x0A]) = dumps fl 0 j @ [CHR 0x0A]"
    unfolding c(1) by (rule skip_nothing [OF c(2)])
  ultimately show ?thesis by (simp add: loads_def skip_space_def json_space_def)
qed

text \<open>The fuel is enough: reading consumes the text.\<close>

lemma read_string_shorter: "read_string s = Some (t, rest) \<Longrightarrow> length rest < length s"
proof (induction s arbitrary: t rest rule: measure_induct_rule [where f = length])
  case (less s)
  obtain c u where s: "s = c # u" using less.prems by (cases s) (auto simp: read_string.simps)
  have le: "length (drop n u') < length s" if "length u' < length s" for n and u' :: string
    using that by simp
  show ?case
    using less.prems unfolding s
    by (subst (asm) read_string.simps)
      (auto split: if_splits list.splits option.splits simp: Let_def s less_Suc_eq_le
        dest!: less.IH [rotated] intro: le_SucI order_less_imp_le le)
qed

lemma skip_space_le: "length (skip_space s) \<le> length s"
  by (simp add: skip_space_def length_dropWhile_le)

lemma read_number_shorter:
  assumes "read_number s = Some (v, rest)"
  shows "length rest < length s"
proof -
  have i: "length rest < length s" if "read_int_part s = Some (ds, rest)" for s ds rest
    using that by (auto simp: read_int_part_def less_Suc_eq_le length_dropWhile_le split: list.splits if_splits)
  have f: "length rest < length s" if "read_fraction s = Some (ds, rest)" for s ds rest
    using that by (auto simp: read_fraction_def less_Suc_eq_le length_dropWhile_le split: list.splits if_splits)
  have e: "length rest < length s" if "read_exponent s = Some (ds, rest)" for s ds rest
  proof -
    have "length (dropWhile is_digit (tl t)) \<le> length t" for t
      using length_dropWhile_le [of is_digit "tl t"] by simp
    then show ?thesis
      using that
      by (auto simp: read_exponent_def Let_def less_Suc_eq_le length_dropWhile_le split: list.splits if_splits)
  qed
  show ?thesis
    using assms
    by (cases s) (auto simp: read_number_def Let_def split: option.splits if_splits dest!: i f e)
qed

text \<open>
  What a reader promises of a text of \<open>n\<close> characters: it leaves fewer, and with enough fuel (\<open>b\<close>) the
  fuel is not what stops it.
\<close>

definition reads :: "bool \<Rightarrow> nat \<Rightarrow> ('a \<times> string) res \<Rightarrow> bool" where
  "reads b n r = (case r of Inl e \<Rightarrow> b \<longrightarrow> e \<noteq> JSON_FUEL | Inr p \<Rightarrow> length (snd p) < n)"

lemma reads_simps [simp]:
  "reads b n (Inl JSON_ERROR)"
  "reads b n (Inr (x, rest)) \<longleftrightarrow> length rest < n"
  "reads b n (Inl JSON_FUEL) \<longleftrightarrow> \<not> b"
  by (simp_all add: reads_def JSON_ERROR_def JSON_FUEL_def)

lemma reads_if: "(c \<Longrightarrow> reads b n x) \<Longrightarrow> (\<not> c \<Longrightarrow> reads b n y) \<Longrightarrow> reads b n (if c then x else y)"
  by simp

lemma reads_skip:
  assumes "\<And>c u. skip_space t = c # u \<Longrightarrow> length u < length t \<Longrightarrow> reads b n (f c u)"
  shows "reads b n (case skip_space t of [] \<Rightarrow> Inl JSON_ERROR | c # u \<Rightarrow> f c u)"
  using assms skip_space_le [of t] by (auto split: list.splits)

lemma reads_string:
  assumes "\<And>v u. length u < length t \<Longrightarrow> reads b n (f v u)"
  shows "reads b n (case read_string t of None \<Rightarrow> Inl JSON_ERROR | Some (v, u) \<Rightarrow> f v u)"
  using assms read_string_shorter by (auto split: option.splits)

lemma reads_number: "length s \<le> n \<Longrightarrow> reads b n (case read_number s of None \<Rightarrow> Inl JSON_ERROR | Some r \<Rightarrow> Inr r)"
  using read_number_shorter by (fastforce simp: reads_def JSON_ERROR_def JSON_FUEL_def split: option.splits)

lemma reads_bind:
  assumes "reads b' m r" and "b \<Longrightarrow> b'" and "\<And>v u. length u < m \<Longrightarrow> reads b n (f v u)"
  shows "reads b n (rbind r (\<lambda>(v, u). f v u))"
  using assms by (cases r) (auto simp: reads_def)

lemma reads_hook:
  fixes hook :: json_hook
  assumes "hook ms \<noteq> Inl JSON_FUEL" and "\<And>v. reads b n (f v)"
  shows "reads b n (rbind (hook ms) f)"
  using assms by (cases "hook ms") (auto simp: reads_def)

lemma reads_enough:
  assumes hook: "\<And>ms. hook ms \<noteq> Inl JSON_FUEL"
  shows "reads (2 * length s < k) (length s) (read_value k hook s) \<and>
    reads (2 * length s + 1 < k) (length s) (read_members k hook s) \<and>
    reads (2 * length s + 1 < k) (length s) (read_elements k hook s)"
proof (induction k arbitrary: s)
  case 0
  show ?case by simp
next
  case (Suc k)
  have V: "reads (2 * length s < k) (length s) (read_value k hook s)" for s using Suc.IH by blast
  have M: "reads (2 * length s + 1 < k) (length s) (read_members k hook s)" for s using Suc.IH by blast
  have E: "reads (2 * length s + 1 < k) (length s) (read_elements k hook s)" for s using Suc.IH by blast
  have Vs: "reads (2 * length s < k) (length s) (read_value k hook (skip_space s))" for s
    using V [of "skip_space s"] skip_space_le [of s] by (auto simp: reads_def split: sum.splits)
  have Ms: "reads (2 * length s + 1 < k) (length s) (read_members k hook (skip_space s))" for s
    using M [of "skip_space s"] skip_space_le [of s] by (auto simp: reads_def split: sum.splits)
  have Es: "reads (2 * length s + 1 < k) (length s) (read_elements k hook (skip_space s))" for s
    using E [of "skip_space s"] skip_space_le [of s] by (auto simp: reads_def split: sum.splits)
  have "reads (2 * length s < Suc k) (length s) (read_value (Suc k) hook s)"
  proof (cases s)
    case (Cons c t)
    show ?thesis
      unfolding read_value.simps Cons list.case
      by (intro reads_if reads_skip reads_string reads_hook [of hook, OF hook] reads_number reads_bind [OF M] reads_bind [OF E])
        auto
  qed simp
  moreover have "reads (2 * length s + 1 < Suc k) (length s) (read_members (Suc k) hook s)"
  proof (cases s)
    case (Cons c t)
    show ?thesis
      unfolding read_members.simps Cons list.case
      by (intro reads_if reads_skip reads_string reads_bind [OF Vs] reads_bind [OF Ms]) auto
  qed simp
  moreover have "reads (2 * length s + 1 < Suc k) (length s) (read_elements (Suc k) hook s)"
    unfolding read_elements.simps
    by (intro reads_if reads_skip reads_bind [OF V] reads_bind [OF Es]) auto
  ultimately show ?case by blast
qed

lemma loads_fuel:
  assumes "\<And>ms. hook ms \<noteq> Inl JSON_FUEL"
  shows "loads hook text \<noteq> Inl JSON_FUEL"
proof -
  have "reads True (length (skip_space text)) (read_value (2 * length text + 1) hook (skip_space text))"
    using reads_enough [of hook, OF assms, THEN conjunct1, of "skip_space text" "2 * length text + 1"] skip_space_le [of "text"]
    by (simp add: less_Suc_eq_le)
  then show ?thesis
    by (auto simp: loads_def reads_def rbind_def JSON_ERROR_def JSON_FUEL_def split: sum.splits
        simp del: read_value.simps)
qed

end
