(* ===== verification/Preset_Documents.thy ===== *)
theory Preset_Documents
  imports Json_Text Sd_Files
begin

text \<open>
  The documents of \<^verbatim>\<open>scripts/pocket_per_game_preset.py\<close>: where the presets of a ROM go, which options
  there are, and the two JSON documents that are written, derived from the core's own definitions.

  A document is the object below its single envelope member. The code copies the parsed document and
  changes the objects of the copy; here the list of variables is passed on, and a dictionary of
  references into it is the position of each variable.
\<close>

section \<open>The core's contract\<close>

definition ASSET_PREFIX :: "string list" where
  "ASSET_PREFIX = [''Assets'', ''wonderswan'', ''common'']"

definition PRESET_EXTENSIONS :: "string list" where
  "PRESET_EXTENSIONS = [''.ws'', ''.wsc'']"

type_synonym setting = "string \<times> int \<times> string \<times> string \<times> int list"

definition SETTING_CONTRACT :: "setting list" where
  "SETTING_CONTRACT =
     [(''cpu_turbo'', 14, ''check'', ''0x110'', [0, 1]),
      (''triple_buffer'', 41, ''check'', ''0x200'', [0, 1]),
      (''flicker'', 42, ''list'', ''0x204'', [0, 1, 2, 3]),
      (''orientation'', 43, ''list'', ''0x208'', [0, 1, 2]),
      (''landscape_180'', 44, ''check'', ''0x20C'', [0, 1]),
      (''color_profile'', 45, ''list'', ''0x210'', [0, 1]),
      (''control_layout'', 46, ''list'', ''0x214'', [0, 1, 2]),
      (''fast_forward_audio'', 81, ''check'', ''0x300'', [0, 1])]"

type_synonym choices = "(string \<times> int) list"

definition ORIENTATION_VALUES :: choices where
  "ORIENTATION_VALUES = [(''auto'', 0), (''horizontal'', 1), (''vertical'', 2)]"
definition CONTROL_LAYOUT_VALUES :: choices where
  "CONTROL_LAYOUT_VALUES = [(''auto'', 0), (''horizontal'', 1), (''vertical'', 2)]"
definition FLICKER_VALUES :: choices where
  "FLICKER_VALUES = [(''off'', 0), (''2-frame'', 1), (''persistence'', 2), (''3-frame'', 2), (''complete-60.9'', 3)]"
definition COLOR_PROFILE_VALUES :: choices where "COLOR_PROFILE_VALUES = [(''raw'', 0), (''ares'', 1)]"
definition SWITCH_VALUES :: choices where "SWITCH_VALUES = [(''off'', 0), (''on'', 1)]"

definition EXPECTED_INPUT_MAPPINGS :: "(int \<times> string \<times> string) list" where
  "EXPECTED_INPUT_MAPPINGS =
     [(0, ''Horz A/Vert X3'', ''pad_btn_a''), (1, ''Horz B/Vert X4'', ''pad_btn_b''),
      (2, ''Horz Y3/Vert X2'', ''pad_btn_x''), (3, ''Horz Y4/Vert X1'', ''pad_btn_y''),
      (10, ''Horz Y1/Vert A'', ''pad_trig_l''), (11, ''Horz Y2/Vert B'', ''pad_trig_r''),
      (20, ''Start'', ''pad_btn_start''), (30, ''Fast Forward'', ''pad_btn_select'')]"

record preset_options =
  po_orientation :: string
  po_control_layout :: string
  po_landscape_180 :: string
  po_color_profile :: string
  po_triple_buffer :: string
  po_flicker :: string
  po_cpu_turbo :: string
  po_fast_forward_audio :: string
  po_controls :: string

definition default_options :: preset_options where
  "default_options = \<lparr>po_orientation = ''auto'', po_control_layout = ''auto'', po_landscape_180 = ''off'',
     po_color_profile = ''raw'', po_triple_buffer = ''on'', po_flicker = ''off'', po_cpu_turbo = ''off'',
     po_fast_forward_audio = ''on'', po_controls = ''per-game''\<rparr>"

text \<open>The options with their tables, in the order they are checked.\<close>

definition option_choices :: "preset_options \<Rightarrow> (string \<times> string \<times> choices) list" where
  "option_choices opts =
     [(''orientation'', po_orientation opts, ORIENTATION_VALUES),
      (''control_layout'', po_control_layout opts, CONTROL_LAYOUT_VALUES),
      (''landscape_180'', po_landscape_180 opts, SWITCH_VALUES),
      (''color_profile'', po_color_profile opts, COLOR_PROFILE_VALUES),
      (''triple_buffer'', po_triple_buffer opts, SWITCH_VALUES),
      (''flicker'', po_flicker opts, FLICKER_VALUES),
      (''cpu_turbo'', po_cpu_turbo opts, SWITCH_VALUES),
      (''fast_forward_audio'', po_fast_forward_audio opts, SWITCH_VALUES),
      (''controls'', po_controls opts, [(''per-game'', 1), (''inherit'', 0)])]"

definition validate_options :: "preset_options \<Rightarrow> unit res" where
  "validate_options opts = fold_res (\<lambda>(name, v, permitted) _.
     ensure (v \<in> fst ` set permitted) (PresetError (''unsupported '' @ name))) (option_choices opts) ()"

section \<open>Where the presets of a ROM go\<close>

definition canonical_asset_parts :: "string \<Rightarrow> string list res" where
  "canonical_asset_parts asset =
     (if asset = [] then Inl (PresetError ''asset path must not be empty'')
      else if CHR 0x5C \<in> set asset then Inl (PresetError ''asset path must use forward slashes'')
      else if list_ex unsafe_char asset then Inl (PresetError ''asset path contains a control character'')
      else
        let pocket_absolute = starts_with ''/'' asset;
            raw_parts = split_slash [] (if pocket_absolute then drop 1 asset else asset) in
        if list_ex (\<lambda>p. p = [] \<or> p = ''.'' \<or> p = ''..'') raw_parts
        then Inl (PresetError ''asset path has an empty, current, or parent component'')
        else
          rbind (if hd raw_parts = ''Assets'' then
                   (if take 3 raw_parts \<noteq> ASSET_PREFIX
                    then Inl (PresetError ''asset must be below /Assets/wonderswan/common/ for slot 0'')
                    else Inr (drop 3 raw_parts))
                 else if pocket_absolute
                   then Inl (PresetError ''absolute asset paths must start with /Assets/wonderswan/common/'')
                 else Inr raw_parts) (\<lambda>relative.
          if relative = [] then Inl (PresetError ''asset path must name a WonderSwan ROM'')
          else
            let filename = last relative; suffix = casefold (path_suffix filename) in
            if suffix \<notin> set PRESET_EXTENSIONS \<or> take (length filename - length suffix) filename = []
            then Inl (PresetError ''asset filename must end in .ws or .wsc'')
            else Inr (drop 1 ASSET_PREFIX @ relative)))"

definition preset_relative_path :: "string \<Rightarrow> string list res" where
  "preset_relative_path asset = rbind (canonical_asset_parts asset) (\<lambda>parts. Inr (with_suffix ''.json'' parts))"

text \<open>\<open>[A-Za-z0-9][A-Za-z0-9_-]*\.[A-Za-z0-9][A-Za-z0-9_-]*\Z\<close>; no part contains a dot.\<close>

definition ascii_alnum :: "char \<Rightarrow> bool" where
  "ascii_alnum c = (let n = char_code c in (48 \<le> n \<and> n \<le> 57) \<or> (65 \<le> n \<and> n \<le> 90) \<or> (97 \<le> n \<and> n \<le> 122))"

definition core_id_part :: "string \<Rightarrow> bool" where
  "core_id_part s = (case s of [] \<Rightarrow> False
     | c # cs \<Rightarrow> ascii_alnum c \<and> list_all (\<lambda>x. ascii_alnum x \<or> x = CHR ''_'' \<or> x = CHR ''-'') cs)"

definition validate_core_id :: "string \<Rightarrow> unit res" where
  "validate_core_id core_id = ensure
     (core_id_part (takeWhile (\<lambda>c. c \<noteq> CHR ''.'') core_id) \<and> core_id_part (drop 1 (dropWhile (\<lambda>c. c \<noteq> CHR ''.'') core_id)))
     (PresetError ''core ID must be AuthorName.CoreName using letters, digits, _ or -'')"

section \<open>Comparing JSON values\<close>

text \<open>\<open>True == 1\<close> and \<open>1.0 == 1\<close>; lists and dictionaries cannot be members of a set.\<close>

definition json_num :: "json \<Rightarrow> rat option" where
  "json_num j = (case j of JInt i \<Rightarrow> Some (of_int i) | JFloat q \<Rightarrow> Some q
     | JBool b \<Rightarrow> Some (if b then 1 else 0) | _ \<Rightarrow> None)"

definition equals_int :: "json \<Rightarrow> int \<Rightarrow> bool" where
  "equals_int j n = (json_num j = Some (of_int n))"

definition hashable :: "json \<Rightarrow> bool" where
  "hashable j = (case j of JList _ \<Rightarrow> False | JObj _ \<Rightarrow> False | _ \<Rightarrow> True)"

text \<open>One representative of the values that are equal to a given one.\<close>

definition set_key :: "json \<Rightarrow> json" where
  "set_key j = (case json_num j of Some q \<Rightarrow> JFloat q | None \<Rightarrow> j)"

definition in_ints :: "json \<Rightarrow> int list \<Rightarrow> bool res" where
  "in_ints j permitted = (if hashable j then Inr (list_ex (equals_int j) permitted) else Inl TypeError)"

definition set_of :: "json list \<Rightarrow> json set res" where
  "set_of js = (if list_all hashable js then Inr (set_key ` set js) else Inl TypeError)"

text \<open>\<open>d[key] = v\<close>.\<close>

fun set_member :: "json_object \<Rightarrow> string \<Rightarrow> json \<Rightarrow> json_object" where
  "set_member [] key v = [(key, v)]"
| "set_member ((k, x) # ms) key v = (if k = key then (k, v) # ms else (k, x) # set_member ms key v)"

section \<open>Reading a definition\<close>

definition default_hook :: json_hook where
  "default_hook ms = Inr (JObj (dict_of_pairs ms))"

definition parse_definition :: "byte list \<Rightarrow> json res" where
  "parse_definition bs =
     (let chars = text_of_bytes bs in if utf8_valid chars then loads default_hook chars else Inl UnicodeError)"

definition open_envelope :: "string \<Rightarrow> json \<Rightarrow> json_object res" where
  "open_envelope envelope document =
     (case document of
        JObj [(key, body)] \<Rightarrow>
          if key \<noteq> envelope then Inl (PresetError ''must contain only the envelope'')
          else (case body of
              JObj ms \<Rightarrow> if jget ms ''magic'' \<noteq> JStr ''APF_VER_1''
                then Inl (PresetError ''must contain magic = APF_VER_1'') else Inr ms
            | _ \<Rightarrow> Inl (PresetError ''must contain magic = APF_VER_1''))
      | _ \<Rightarrow> Inl (PresetError ''must contain only the envelope''))"

section \<open>The Interact document\<close>

definition add_variable :: "nat \<times> json \<Rightarrow> (int \<times> nat) list \<Rightarrow> (int \<times> nat) list res" where
  "add_variable = (\<lambda>(index, variable) seen.
     case variable of
       JObj ms \<Rightarrow>
         (case jget ms ''id'' of
            JInt identifier \<Rightarrow>
              if identifier \<in> fst ` set seen then Inl (PresetError ''duplicate interact ID'')
              else Inr (seen @ [(identifier, index)])
          | _ \<Rightarrow> Inl (PresetError ''id must be an integer''))
     | _ \<Rightarrow> Inl (PresetError ''variable must be an object''))"

definition variables_by_id :: "json_object \<Rightarrow> (json list \<times> (int \<times> nat) list) res" where
  "variables_by_id body =
     (case jget body ''variables'' of
        JList variables \<Rightarrow>
          rbind (fold_res add_variable (enumerate 0 variables) []) (\<lambda>by_id. Inr (variables, by_id))
      | _ \<Rightarrow> Inl (PresetError ''interact.variables must be an array''))"

definition choice_value :: "choices \<Rightarrow> string \<Rightarrow> int res" where
  "choice_value table v = (case map_of table v of None \<Rightarrow> Inl (KeyError v) | Some n \<Rightarrow> Inr n)"

text \<open>The dictionary \<open>selected\<close>, its members in the order they are evaluated.\<close>

definition selected_values :: "preset_options \<Rightarrow> (string \<times> int) list res" where
  "selected_values opts = map_res (\<lambda>(name, v, table). rbind (choice_value table v) (\<lambda>n. Inr (name, n)))
     [(''cpu_turbo'', po_cpu_turbo opts, SWITCH_VALUES),
      (''triple_buffer'', po_triple_buffer opts, SWITCH_VALUES),
      (''flicker'', po_flicker opts, FLICKER_VALUES),
      (''orientation'', po_orientation opts, ORIENTATION_VALUES),
      (''control_layout'', po_control_layout opts, CONTROL_LAYOUT_VALUES),
      (''landscape_180'', po_landscape_180 opts, SWITCH_VALUES),
      (''color_profile'', po_color_profile opts, COLOR_PROFILE_VALUES),
      (''fast_forward_audio'', po_fast_forward_audio opts, SWITCH_VALUES)]"

definition check_option_values :: "json_object \<Rightarrow> int list \<Rightarrow> unit res" where
  "check_option_values ms permitted =
     (case jget ms ''options'' of
        JList options_list \<Rightarrow>
          if list_ex (\<lambda>option. case option of JObj _ \<Rightarrow> False | _ \<Rightarrow> True) options_list
          then Inl (PresetError ''options must be objects'')
          else
            let option_values = map (\<lambda>option. case option of JObj om \<Rightarrow> jget om ''value'' | _ \<Rightarrow> JNull) options_list in
            rbind (set_of option_values) (\<lambda>values.
              ensure (\<not> (length option_values \<noteq> card values \<or> values \<noteq> set_key ` JInt ` set permitted))
                (PresetError ''no longer exposes the expected option values''))
      | _ \<Rightarrow> Inl (PresetError ''options must be objects''))"

definition check_variable :: "json_object \<Rightarrow> string \<Rightarrow> string \<Rightarrow> int list \<Rightarrow> unit res" where
  "check_variable ms kind address permitted =
     (if jget ms ''type'' \<noteq> JStr kind \<or> jget ms ''address'' \<noteq> JStr address
      then Inl (PresetError ''no longer matches the expected kind and address'')
      else if jget ms ''persist'' \<noteq> JBool True \<or> (case map_of ms ''writeonly'' of None \<Rightarrow> False | Some w \<Rightarrow> w \<noteq> JBool False)
      then Inl (PresetError ''must remain persistent and readable'')
      else
        rbind (in_ints (jget ms ''defaultval'') permitted) (\<lambda>known.
        if \<not> known then Inl (PresetError ''has an unsupported default value'')
        else if kind = ''list'' then check_option_values ms permitted
        else ensure (equals_int (jget ms ''value'') 1) (PresetError ''check value must remain 1'')))"

definition apply_setting :: "(string \<times> int) list \<Rightarrow> (int \<times> nat) list \<Rightarrow> setting \<Rightarrow> json list \<Rightarrow> json list res" where
  "apply_setting selected by_id = (\<lambda>(name, identifier, kind, address, permitted) variables.
     case map_of by_id identifier of
       None \<Rightarrow> Inl (PresetError ''missing required interact ID'')
     | Some index \<Rightarrow>
         (case variables ! index of
            JObj ms \<Rightarrow>
              rbind (check_variable ms kind address permitted) (\<lambda>_.
                case map_of selected name of
                  None \<Rightarrow> Inl (KeyError name)
                | Some n \<Rightarrow>
                    if n \<notin> set permitted then Inl (PresetError ''unsupported value'')
                    else Inr (variables[index := JObj (set_member ms ''defaultval'' (JInt n))]))
          | _ \<Rightarrow> Inl TypeError))"

text \<open>
  \<open>copy.deepcopy\<close> gives an equal document, or raises a \<open>RecursionError\<close> when the document is nested more
  deeply than the interpreter's stack allows; how many levels that is depends on the stack in use, so it
  is a parameter.
\<close>

fun nested_within :: "nat \<Rightarrow> json \<Rightarrow> bool" where
  "nested_within n (JList vs) = (0 < n \<and> list_all (nested_within (n - 1)) vs)"
| "nested_within n (JObj ms) = (0 < n \<and> list_all (\<lambda>(k, v). nested_within (n - 1) v) ms)"
| "nested_within n _ = True"

definition deep_copy :: "nat \<Rightarrow> json_object \<Rightarrow> json_object res" where
  "deep_copy limit ms = (if nested_within limit (JObj ms) then Inr ms else Inl RecursionError)"

text \<open>The document that is made of the copy.\<close>

definition generated_document :: "preset_options \<Rightarrow> json_object \<Rightarrow> json_object res" where
  "generated_document opts body =
     rbind (variables_by_id body) (\<lambda>(variables, by_id).
     rbind (selected_values opts) (\<lambda>selected.
     if po_orientation opts = ''vertical'' \<and> po_landscape_180 opts = ''on''
     then Inl (PresetError ''Landscape 180 degrees has no effect in forced vertical mode'')
     else
       rbind (fold_res (apply_setting selected by_id) SETTING_CONTRACT variables) (\<lambda>result.
       Inr (set_member body ''variables'' (JList result)))))"

definition interact_document :: "nat \<Rightarrow> preset_options \<Rightarrow> json_object \<Rightarrow> json_object res" where
  "interact_document limit opts document = rbind (deep_copy limit document) (generated_document opts)"

section \<open>The Input document\<close>

definition mapping_matches :: "json_object \<Rightarrow> int \<times> string \<times> string \<Rightarrow> bool" where
  "mapping_matches ms = (\<lambda>(identifier, name, key).
     equals_int (jget ms ''id'') identifier \<and> jget ms ''name'' = JStr name \<and> jget ms ''key'' = JStr key)"

definition object_members :: "json \<Rightarrow> json_object res" where
  "object_members j = (case j of JObj ms \<Rightarrow> Inr ms | _ \<Rightarrow> Inl (PresetError ''contains a non-object input mapping''))"

definition input_document :: "json_object \<Rightarrow> json_object res" where
  "input_document body =
     (case jget body ''controllers'' of
        JList [controller] \<Rightarrow>
          (case controller of
             JObj cm \<Rightarrow>
               if jget cm ''type'' \<noteq> JStr ''default'' then Inl (PresetError ''controller type must be default'')
               else (case jget cm ''mappings'' of
                   JList mappings \<Rightarrow>
                     rbind (map_res object_members mappings) (\<lambda>actual.
                     if list_all2 mapping_matches actual EXPECTED_INPUT_MAPPINGS then Inr body
                     else Inl (PresetError ''no longer matches the eight verified WonderSwan mappings''))
                 | _ \<Rightarrow> Inl (PresetError ''controller mappings must be an array''))
           | _ \<Rightarrow> Inl (PresetError ''controller type must be default''))
      | _ \<Rightarrow> Inl (PresetError ''must define exactly one controller''))"

section \<open>The bytes that are written\<close>

definition json_bytes :: "(rat \<Rightarrow> string) \<Rightarrow> string \<Rightarrow> json_object \<Rightarrow> byte list res" where
  "json_bytes fl envelope body =
     (let chars = dumps fl 0 (JObj [(envelope, JObj body)]) @ [CHR 0x0A] in
      if utf8_valid chars then Inr (bytes_of_text chars) else Inl UnicodeError)"

end
