(* ===== verification/Item_State.thy ===== *)
theory Item_State
  imports Exclusive_Store
begin

text \<open>
  Programs on the disk that also keep a list of records and assign their members one by one: the state
  is the disk and the list, so that a handler sees every assignment made before the exception.
\<close>

section \<open>Calls of both transactions\<close>

text \<open>\<open>os.fchmod\<close>: it may fail; the mode itself is not modelled.\<close>

definition sys_fchmod :: "ino \<Rightarrow> unit fs" where
  "sys_fchmod i = syscall (ereturn ())"

lemma reads_fchmod [keep_intros]: "keeps (same_files s) (sys_fchmod i)"
  using reads_sync by (simp add: sys_fchmod_def sys_sync_def)

text \<open>Errors by which a file system says that it does not sync directories.\<close>

definition unsupported_sync :: "errno \<Rightarrow> bool" where
  "unsupported_sync e = (e = EINVAL \<or> e = ENOTSUP)"

section \<open>A disk and a list\<close>

type_synonym ('i, 'a) run = "(disk \<times> 'i list, 'a) eff"

text \<open>Work on the disk, whatever else the state holds.\<close>

definition on_disk :: "'a fs \<Rightarrow> (disk \<times> 's, 'a) eff" where
  "on_disk m = (\<lambda>(d, rest). case m d of (r, t) \<Rightarrow> (r, (t, rest)))"

definition get_items :: "('i, 'i list) run" where
  "get_items p = (Inr (snd p), p)"

definition add_item :: "'i \<Rightarrow> ('i, unit) run" where
  "add_item x = (\<lambda>(d, items). (Inr (), (d, items @ [x])))"

definition set_item :: "nat \<Rightarrow> ('i \<Rightarrow> 'i) \<Rightarrow> ('i, unit) run" where
  "set_item k f = (\<lambda>(d, items). (Inr (), (d, items[k := f (items ! k)])))"

text \<open>Work on the item at a position.\<close>

definition with_item :: "nat \<Rightarrow> ('i \<Rightarrow> ('i, 'a) run) \<Rightarrow> ('i, 'a) run" where
  "with_item k f = ebind get_items (\<lambda>items. f (items ! k))"

lemma wp_on_disk [wp_simps]:
  "wp (on_disk m) Q E = (\<lambda>(d, items). wp m (\<lambda>x t. Q x (t, items)) (\<lambda>e t. E e (t, items)) d)"
  by (auto simp: fun_eq_iff wp_def on_disk_def split: prod.splits sum.splits)

lemma wp_get_items [wp_simps]: "wp get_items Q E = (\<lambda>p. Q (snd p) p)"
  by (auto simp: fun_eq_iff wp_def get_items_def)

lemma wp_set_items [wp_simps]:
  "wp (add_item x) Q E = (\<lambda>(d, items). Q () (d, items @ [x]))"
  "wp (set_item k f) Q E = (\<lambda>(d, items). Q () (d, items[k := f (items ! k)]))"
  by (auto simp: fun_eq_iff wp_def add_item_def set_item_def split: prod.splits)

lemma wp_with_item [wp_simps]: "wp (with_item k f) Q E = (\<lambda>p. wp (f (snd p ! k)) Q E p)"
  by (simp add: with_item_def wp_simps)

text \<open>Loops over positions.\<close>

definition for_items :: "(nat \<Rightarrow> ('s, unit) eff) \<Rightarrow> nat list \<Rightarrow> ('s, unit) eff" where
  "for_items f ks = efold (\<lambda>k _. f k) ks ()"

definition count_items :: "('i, nat) run" where
  "count_items = ebind get_items (\<lambda>its. ereturn (length its))"

text \<open>One attempt per position; the failures are counted.\<close>

definition attempt_each :: "(nat \<Rightarrow> ('s, unit) eff) \<Rightarrow> nat list \<Rightarrow> ('s, nat) eff" where
  "attempt_each f ks = efold (\<lambda>k failures. ebind (etry (f k)) (\<lambda>r.
     ereturn (case r of Inl e \<Rightarrow> failures + 1 | Inr _ \<Rightarrow> failures))) ks 0"

definition run_items :: "('i, 'a) run \<Rightarrow> 'a fs" where
  "run_items m d = (case m (d, []) of (r, (t, rest)) \<Rightarrow> (r, t))"

lemma wp_count_items [wp_simps]: "wp count_items Q E = (\<lambda>p. Q (length (snd p)) p)"
  by (simp add: count_items_def wp_simps)

lemma wp_run_items: "wp (run_items m) Q E d = wp m (\<lambda>x p. Q x (fst p)) (\<lambda>e p. E e (fst p)) (d, [])"
  by (auto simp: wp_def run_items_def split: prod.splits sum.splits)

lemma keeps_efold_in:
  assumes "\<And>x a. x \<in> set xs \<Longrightarrow> keeps I (f x a)"
  shows "keeps I (efold f xs a)"
  using assms
proof (induction xs arbitrary: a)
  case Nil
  then show ?case by (simp add: keep_intros)
next
  case (Cons x xs)
  have "keeps I (efold f xs b)" for b by (rule Cons.IH) (simp add: Cons.prems)
  then show ?case using Cons.prems by (simp add: keeps_bind)
qed

lemma keeps_for_items: "(\<And>k. k \<in> set ks \<Longrightarrow> keeps I (f k)) \<Longrightarrow> keeps I (for_items f ks)"
  unfolding for_items_def by (rule keeps_efold_in)

lemma wp_attempt_each:
  assumes "\<And>k. k \<in> set ks \<Longrightarrow> keeps I (f k)" and "I p"
  shows "wp (attempt_each f ks) (\<lambda>_. I) (\<lambda>_ _. False) p"
proof -
  have "wp (efold (\<lambda>k failures. ebind (etry (f k)) (\<lambda>r.
     ereturn (case r of Inl e \<Rightarrow> failures + 1 | Inr _ \<Rightarrow> failures))) ks a) (\<lambda>_. I) (\<lambda>_ _. False) p" for a :: nat
    using assms
  proof (induction ks arbitrary: a p)
    case Nil
    then show ?case by (simp add: wp_simps)
  next
    case (Cons k ks)
    have "wp (f k) (\<lambda>_. I) (\<lambda>_. I) p" using Cons.prems by (intro keepsD) auto
    then show ?case
      unfolding efold.simps wp_bind wp_try using Cons.IH Cons.prems(1)
      by (auto simp: wp_basic elim!: wp_mono)
  qed
  then show ?thesis by (simp add: attempt_each_def)
qed

lemma keeps_on_disk:
  assumes "keeps I m"
  shows "keeps (\<lambda>p. I (fst p) \<and> P (snd p)) (on_disk m)"
proof (rule keepsI)
  fix p assume "I (fst p) \<and> P (snd p)"
  then show "wp (on_disk m) (\<lambda>_ p. I (fst p) \<and> P (snd p)) (\<lambda>_ p. I (fst p) \<and> P (snd p)) p"
    using keepsD [OF assms, of "fst p"] by (cases p) (auto simp: wp_simps elim: wp_mono)
qed

end
