(* ===== verification/Replacing_Store.thy ===== *)
theory Replacing_Store
  imports Disk_Facts
begin

text \<open>
  The contract of a transaction that replaces files: it may move an original aside under another name
  of the same directory, publish a new file in its place and remove its own files.

  \<^item> \<open>kept b M d0 d\<close>: compared with \<open>d0\<close>, no file or link of \<open>d\<close> has other contents; every name outside
    \<open>M\<close> still leads to the inode it led to; and, where \<open>b\<close> holds, every inode is still in the directory
    it was in, if perhaps under another name.
  \<^item> \<open>replacing_store\<close>: the laws of the calls. A name may be moved when it is in \<open>M\<close> or was absent, an
    inode written when it is new, and an entry removed when its inode is new, or once \<open>b\<close> is given up.
\<close>

section \<open>The contract\<close>

locale replacing_store =
  fixes keep :: "bool \<Rightarrow> (ino \<times> string) set \<Rightarrow> disk \<Rightarrow> bool"
    and mine :: "(ino \<times> string) set \<Rightarrow> ino \<Rightarrow> string \<Rightarrow> bool"
    and fresh :: "ino \<Rightarrow> bool"
  assumes keep_same: "keep b M d \<Longrightarrow> same_files d t \<Longrightarrow> keep b M t"
    and keep_weaken: "keep b M d \<Longrightarrow> M \<subseteq> M' \<Longrightarrow> (b' \<Longrightarrow> b) \<Longrightarrow> keep b' M' d"
    and mine_mono: "mine M dir name \<Longrightarrow> M \<subseteq> M' \<Longrightarrow> mine M' dir name"
    and mine_named: "keep b M d \<Longrightarrow> (dir, name_key d name) \<in> M \<Longrightarrow> mine M dir name"
    and mine_absent: "keep b M d \<Longrightarrow> entry_of d dir name = None \<Longrightarrow> mine M dir name"
    and mkdir_law: "keep b M d \<Longrightarrow> wp (sys_mkdir dir name) (\<lambda>_. keep b M) (\<lambda>_. keep b M) d"
    and create_law: "keep b M d \<Longrightarrow>
      wp (sys_create dir name) (\<lambda>i t. keep b M t \<and> mine M dir name \<and> fresh i \<and> entry_of t dir name = Some i)
        (\<lambda>_. keep b M) d"
    and write_law: "keep b M d \<Longrightarrow> fresh i \<Longrightarrow> wp (sys_write i bs) (\<lambda>_. keep b M) (\<lambda>_. keep b M) d"
    and rename_law: "keep b M d \<Longrightarrow> mine M dir src \<Longrightarrow>
      wp (sys_rename_noreplace dir src dst) (\<lambda>_ t. keep b M t \<and> mine M dir dst) (\<lambda>_. keep b M) d"
    and unlink_law: "keep b M d \<Longrightarrow> mine M dir name \<Longrightarrow> (b \<Longrightarrow> \<exists>i. entry_of d dir name = Some i \<and> fresh i) \<Longrightarrow>
      wp (sys_unlink dir name) (\<lambda>_. keep b M) (\<lambda>_. keep b M) d"
begin

lemma read_law:
  assumes "\<And>s. keeps (same_files s) m" and "keep b M d"
  shows "wp m (\<lambda>_. keep b M) (\<lambda>_. keep b M) d"
  by (rule wp_mono [OF keepsD [OF assms(1) same_files_refl]]) (auto intro: keep_same assms(2))

lemma keeps_reading:
  assumes "\<And>s. keeps (same_files s) m"
  shows "keeps (keep b M) m"
  by (rule keepsI) (rule read_law [OF assms])

end

section \<open>Moves on the disk\<close>

text \<open>Every entry leads to an inode that has been handed out.\<close>

definition entries_bounded :: "disk \<Rightarrow> bool" where
  "entries_bounded d = (\<forall>dir name i. entry_of d dir name = Some i \<longrightarrow> i < dk_next d)"

definition kept :: "disk \<Rightarrow> bool \<Rightarrow> (ino \<times> string) set \<Rightarrow> disk \<Rightarrow> bool" where
  "kept d0 b M d =
     (wf_disk d0 \<and> entries_bounded d0 \<and> wf_disk d \<and> dk_fold d = dk_fold d0 \<and> dk_next d0 \<le> dk_next d
      \<and> (\<forall>i n. dk_nodes d0 i = Some n \<longrightarrow> (if is_dir_node n then is_dir d i else dk_nodes d i = Some n))
      \<and> (\<forall>dir name i. entry_of d0 dir name = Some i \<longrightarrow> (dir, name_key d0 name) \<notin> M \<longrightarrow> entry_of d dir name = Some i)
      \<and> (b \<longrightarrow> (\<forall>dir name i. entry_of d0 dir name = Some i \<longrightarrow> (\<exists>m. entry_of d dir m = Some i))))"

definition owned :: "disk \<Rightarrow> (ino \<times> string) set \<Rightarrow> ino \<Rightarrow> string \<Rightarrow> bool" where
  "owned d0 M dir name = ((dir, name_key d0 name) \<in> M \<or> entry_of d0 dir name = None)"

lemma kept_refl: "wf_disk d \<Longrightarrow> entries_bounded d \<Longrightarrow> kept d True M d"
  by (auto simp: kept_def is_dir_def)

lemma kept_same:
  assumes "kept d0 b M d" and "same_files d t"
  shows "kept d0 b M t"
  using assms same_files_observe [OF assms(2)] by (simp add: kept_def wf_disk_def same_files_def)

lemma kept_weaken: "kept d0 b M d \<Longrightarrow> M \<subseteq> M' \<Longrightarrow> (b' \<Longrightarrow> b) \<Longrightarrow> kept d0 b' M' d"
  unfolding kept_def by blast

lemma kept_call [intro]: "kept d0 b M d \<Longrightarrow> kept d0 b M (call_made d)"
  using kept_same same_call by blast

lemma kept_key: "kept d0 b M d \<Longrightarrow> name_key d = name_key d0"
  by (rule key_fold) (simp add: kept_def)

lemma owned_absent: "kept d0 b M d \<Longrightarrow> entry_of d dir name = None \<Longrightarrow> owned d0 M dir name"
  unfolding kept_def owned_def by (metis not_None_eq)

text \<open>
  A change of the entries alone: names of one directory that are not outside \<open>M\<close> change, and what was
  there stays there under some name, if \<open>b\<close> asks for it.
\<close>

lemma kept_change:
  assumes k: "kept d0 b M d" and wf: "wf_disk t" and fold: "dk_fold t = dk_fold d" and nxt: "dk_next d \<le> dk_next t"
    and dirs: "\<And>i. is_dir d i \<Longrightarrow> is_dir t i"
    and nodes: "\<And>i n. dk_nodes d0 i = Some n \<Longrightarrow> dk_nodes d i = Some n \<Longrightarrow> \<not> is_dir_node n \<Longrightarrow> dk_nodes t i = Some n"
    and names: "\<And>dir name i. entry_of d0 dir name = Some i \<Longrightarrow> (dir, name_key d0 name) \<notin> M \<Longrightarrow>
      entry_of d dir name = Some i \<Longrightarrow> entry_of t dir name = Some i"
    and moved: "\<And>dir name i m. b \<Longrightarrow> entry_of d0 dir name = Some i \<Longrightarrow> entry_of d dir m = Some i \<Longrightarrow> \<exists>m. entry_of t dir m = Some i"
  shows "kept d0 b M t"
proof -
  have n: "if is_dir_node n then is_dir t i else dk_nodes t i = Some n" if "dk_nodes d0 i = Some n" for i n
    using k that dirs nodes by (auto simp: kept_def)
  have m: "\<exists>m. entry_of t dir m = Some i" if "b" "entry_of d0 dir name = Some i" for dir name i
    using k that moved unfolding kept_def by meson
  show ?thesis using k wf fold nxt n m names by (auto simp: kept_def)
qed

lemma is_dir_changed [simp]:
  "is_dir d dir \<Longrightarrow> is_dir (drop_entry dir name d) j = is_dir d j"
  "is_dir d dir \<Longrightarrow> is_dir (add_entry dir name i d) j = is_dir d j"
  by (auto simp: drop_entry_def add_entry_def is_dir_put is_dir_node_def)

lemma nodes_changed:
  "dk_nodes d j = Some n \<Longrightarrow> \<not> is_dir_node n \<Longrightarrow> is_dir d dir \<Longrightarrow> dk_nodes (drop_entry dir name d) j = Some n"
  "dk_nodes d j = Some n \<Longrightarrow> \<not> is_dir_node n \<Longrightarrow> is_dir d dir \<Longrightarrow> dk_nodes (add_entry dir name i d) j = Some n"
  by (auto simp: drop_entry_def add_entry_def is_dir_def)

lemma wf_changed:
  "wf_disk d \<Longrightarrow> is_dir d dir \<Longrightarrow> wf_disk (drop_entry dir name d)"
  "wf_disk d \<Longrightarrow> is_dir d dir \<Longrightarrow> wf_disk (add_entry dir name i d)"
  by (auto simp: wf_disk_def drop_entry_def add_entry_def is_dir_def split: option.splits)

lemma next_changed [simp]:
  "dk_next (drop_entry dir name d) = dk_next d" "dk_next (add_entry dir name i d) = dk_next d"
  by (simp_all add: drop_entry_def add_entry_def put_node_def)

lemma kept_add:
  assumes k: "kept d0 b M d" and dir: "is_dir d dir" and new: "entry_of d dir name = None"
  shows "kept d0 b M (add_entry dir name i d)"
proof (rule kept_change [OF k])
  have e: "entry_of (add_entry dir name i d) e m = entry_of d e m" if "entry_of d e m = Some j" for e m j
    using that new by (auto simp: entry_of_add)
  show "entry_of (add_entry dir name i d) e m = Some j" if "entry_of d e m = Some j" for e m j
    using e [OF that] that by simp
  show "\<exists>m. entry_of (add_entry dir name i d) e m = Some j" if "entry_of d e m = Some j" for e m j
    using e [OF that] that by auto
qed (use k dir wf_changed(2) nodes_changed(2) in \<open>auto simp: kept_def\<close>)

lemma kept_drop:
  assumes k: "kept d0 b M d" and dir: "is_dir d dir" and own: "owned d0 M dir name"
    and new: "b \<Longrightarrow> \<exists>i. entry_of d dir name = Some i \<and> dk_next d0 \<le> i"
  shows "kept d0 b M (drop_entry dir name d)"
proof (rule kept_change [OF k])
  have key: "name_key d = name_key d0" using kept_key [OF k] .
  fix e m i
  assume e: "entry_of d0 e m = Some i"
  {
    assume out: "(e, name_key d0 m) \<notin> M" and i: "entry_of d e m = Some i"
    have "\<not> (e = dir \<and> name_key d m = name_key d name)"
      using own out e find_entry_key [of d0 m name "entries d0 dir"] by (auto simp: owned_def key entry_of_def)
    then show "entry_of (drop_entry dir name d) e m = Some i" using i by (simp add: entry_of_drop)
  }
  {
    fix m' assume b: "b" and i: "entry_of d e m' = Some i"
    have "i < dk_next d0" using k e by (auto simp: kept_def entries_bounded_def)
    then have "\<not> (e = dir \<and> name_key d m' = name_key d name)"
      using new [OF b] i find_entry_key [of d m' name "entries d dir"] by (auto simp: entry_of_def)
    then have "entry_of (drop_entry dir name d) e m' = Some i" using i by (simp add: entry_of_drop)
    then show "\<exists>m. entry_of (drop_entry dir name d) e m = Some i" by blast
  }
qed (use k dir wf_changed(1) nodes_changed(1) in \<open>auto simp: kept_def\<close>)

lemma kept_move:
  assumes k: "kept d0 b M d" and dir: "is_dir d dir" and own: "owned d0 M dir src"
    and src: "entry_of d dir src = Some i" and dst: "entry_of d dir dst = None"
  shows "kept d0 b M (add_entry dir dst i (drop_entry dir src d))"
proof (rule kept_change [OF k])
  let ?t = "add_entry dir dst i (drop_entry dir src d)"
  have dir': "is_dir (drop_entry dir src d) dir" using dir by simp
  have key: "name_key d = name_key d0" "name_key (drop_entry dir src d) = name_key d"
    using kept_key [OF k] same_fold_find [of "drop_entry dir src d" d] by auto
  have other: "entry_of ?t e m = Some j" if "entry_of d e m = Some j" "\<not> (e = dir \<and> name_key d m = name_key d src)" for e m j
    using that dst by (auto simp: entry_of_add entry_of_drop)
  have moved: "entry_of ?t dir dst = Some i" using dst by (simp add: entry_of_add entry_of_drop)
  show "wf_disk ?t" using k dir dir' wf_changed by (auto simp: kept_def)
  show "is_dir ?t x" if "is_dir d x" for x using that dir dir' by simp
  show "dk_nodes ?t x = Some n" if "dk_nodes d x = Some n" "\<not> is_dir_node n" for x n
    using that dir dir' nodes_changed by blast
  fix e m j
  assume e: "entry_of d0 e m = Some j"
  {
    assume out: "(e, name_key d0 m) \<notin> M" and j: "entry_of d e m = Some j"
    have "\<not> (e = dir \<and> name_key d m = name_key d src)"
      using own out e find_entry_key [of d0 m src "entries d0 dir"] by (auto simp: owned_def key entry_of_def)
    then show "entry_of ?t e m = Some j" using other j by blast
  }
  {
    fix m' assume "b" and j: "entry_of d e m' = Some j"
    show "\<exists>m. entry_of ?t e m = Some j"
    proof (cases "e = dir \<and> name_key d m' = name_key d src")
      case True
      then have "j = i" using j src find_entry_key [of d m' src "entries d dir"] by (simp add: entry_of_def)
      then show ?thesis using True moved by blast
    qed (use other j in blast)
  }
qed simp_all

lemma kept_put:
  assumes k: "kept d0 b M d" and new: "dk_next d0 \<le> i" and i: "i < dk_next d" and plain: "\<not> is_dir d i" "\<not> is_dir_node n"
  shows "kept d0 b M (put_node i n d)"
proof (rule kept_change [OF k])
  have e: "entries (put_node i n d) = entries d"
    using plain by (auto simp: fun_eq_iff entries_put entries_def is_dir_def is_dir_node_def split: node.splits option.splits)
  have f: "entry_of (put_node i n d) = entry_of d"
    using e same_fold_find [of "put_node i n d" d] by (auto simp: fun_eq_iff entry_of_def)
  then show "entry_of d e m = Some j \<Longrightarrow> entry_of (put_node i n d) e m = Some j"
    "entry_of d e m' = Some j \<Longrightarrow> \<exists>m. entry_of (put_node i n d) e m = Some j" for e m m' j by auto
  show "wf_disk (put_node i n d)" using k i by (auto simp: kept_def wf_disk_def)
  show "is_dir d j \<Longrightarrow> is_dir (put_node i n d) j" for j using plain by (auto simp: is_dir_put)
  show "dk_nodes (put_node i n d) j = Some m" if "dk_nodes d0 j = Some m" "dk_nodes d j = Some m" for j m
  proof -
    have "j < dk_next d0" using k that(1) by (auto simp: kept_def wf_disk_def intro: ccontr)
    then show ?thesis using new that(2) by simp
  qed
qed simp_all

lemma kept_new:
  assumes k: "kept d0 b M d" and n: "is_dir_node n \<Longrightarrow> n = DirNode []"
  shows "kept d0 b M (put_node (dk_next d) n (d\<lparr>dk_next := Suc (dk_next d)\<rparr>))"
proof -
  let ?e = "d\<lparr>dk_next := Suc (dk_next d)\<rparr>"
  let ?t = "put_node (dk_next d) n ?e"
  have none: "dk_nodes d (dk_next d) = None" using k by (simp add: kept_def wf_disk_def)
  have obs: "entries ?e = entries d" "is_dir ?e = is_dir d" by (auto simp: fun_eq_iff entries_def is_dir_def)
  have e: "entries ?t = entries d"
    using none n by (auto simp: fun_eq_iff entries_put obs entries_def is_dir_node_def split: node.splits)
  have f: "entry_of ?t = entry_of d"
    using e same_fold_find [of ?t d] by (auto simp: fun_eq_iff entry_of_def)
  show ?thesis
  proof (rule kept_change [OF k])
    show "entry_of d e m = Some j \<Longrightarrow> entry_of ?t e m = Some j" for e m j by (simp add: f)
    show "entry_of d e m' = Some j \<Longrightarrow> \<exists>m. entry_of ?t e m = Some j" for e m' j by (auto simp: f)
    show "wf_disk ?t" using k by (auto simp: kept_def wf_disk_def)
    show "is_dir d j \<Longrightarrow> is_dir ?t j" for j using none by (auto simp: is_dir_put obs is_dir_def)
    show "dk_nodes d j = Some m \<Longrightarrow> dk_nodes ?t j = Some m" for j m using none by auto
  qed simp_all
qed

section \<open>The laws\<close>

lemma kept_dir: "kept d0 b M d \<Longrightarrow> is_dir d i \<Longrightarrow> i < dk_next d"
  by (rule dir_below_next) (auto simp: kept_def)

lemma replace_new_node:
  assumes k: "kept d0 b M d" and n: "is_dir_node n \<Longrightarrow> n = DirNode []"
  shows "wp (new_node dir name n)
    (\<lambda>i t. kept d0 b M t \<and> owned d0 M dir name \<and> dk_next d0 \<le> i \<and> entry_of t dir name = Some i) (\<lambda>_. kept d0 b M) d"
proof (cases "is_dir d dir \<and> entry_of d dir name = None")
  case False
  then show ?thesis using k by (auto simp: wp_def new_node_cases)
next
  case True
  let ?i = "dk_next d"
  let ?f = "put_node ?i n (d\<lparr>dk_next := Suc (dk_next d)\<rparr>)"
  have lt: "dir < ?i" using True k kept_dir by blast
  have f: "kept d0 b M ?f" using kept_new [OF k n] .
  have d1: "is_dir ?f dir" using True lt by (simp add: is_dir_put is_dir_def)
  have ent: "entries ?f dir = entries d dir" using lt by (simp add: entries_put entries_def)
  have e1: "entry_of ?f dir name = None"
    using True ent same_fold_find [of ?f d] by (simp add: entry_of_def)
  have "kept d0 b M (add_entry dir name ?i ?f)" by (rule kept_add [OF f d1 e1])
  moreover have "entry_of (add_entry dir name ?i ?f) dir name = Some ?i" using e1 by (simp add: entry_of_add)
  moreover have "dk_next d0 \<le> ?i" using k by (simp add: kept_def)
  ultimately show ?thesis using True owned_absent [OF k] by (simp add: wp_def new_node_cases)
qed

lemma replace_store:
  assumes k: "kept d0 b M d" and i: "dk_next d0 \<le> i"
  shows "wp (store_bytes i bs) (\<lambda>_. kept d0 b M) (\<lambda>_. kept d0 b M) d"
proof (cases "\<exists>old. dk_nodes d i = Some (FileNode old)")
  case True
  then obtain old where old: "dk_nodes d i = Some (FileNode old)" by blast
  have "i < dk_next d" using k old by (auto simp: kept_def wf_disk_def intro: ccontr)
  moreover have "\<not> is_dir d i" using old by (simp add: is_dir_def is_dir_node_def)
  ultimately have "kept d0 b M (put_node i (FileNode (old @ bs)) d)"
    using kept_put [OF k i] by (simp add: is_dir_node_def)
  then show ?thesis by (simp add: wp_def store_bytes_def old)
next
  case False
  then show ?thesis using k by (auto simp: wp_def store_bytes_def split: option.splits node.splits)
qed

lemma replace_move:
  assumes k: "kept d0 b M d" and own: "owned d0 M dir src"
  shows "wp (move_entry dir src dst) (\<lambda>_ t. kept d0 b M t \<and> owned d0 M dir dst) (\<lambda>_. kept d0 b M) d"
proof (cases "is_dir d dir \<and> entry_of d dir src \<noteq> None \<and> entry_of d dir dst = None")
  case True
  then obtain i where i: "entry_of d dir src = Some i" by blast
  then show ?thesis using True kept_move [OF k _ own i] owned_absent [OF k] by (simp add: wp_def move_entry_def)
next
  case False
  then show ?thesis using k by (auto simp: wp_def move_entry_def split: option.splits)
qed

lemma replace_remove:
  assumes k: "kept d0 b M d" and own: "owned d0 M dir name"
    and new: "b \<Longrightarrow> \<exists>i. entry_of d dir name = Some i \<and> dk_next d0 \<le> i"
  shows "wp (remove_entry dir name) (\<lambda>_. kept d0 b M) (\<lambda>_. kept d0 b M) d"
proof (cases "child_node d dir name")
  case (Inl e)
  then show ?thesis using k by (simp add: wp_def remove_entry_def)
next
  case (Inr p)
  then have "is_dir d dir" by (cases p) (simp add: child_node_def split: if_splits)
  then have "kept d0 b M (drop_entry dir name d)" using kept_drop [OF k _ own new] by blast
  then show ?thesis using Inr k by (cases p) (simp add: wp_def remove_entry_def)
qed

lemma call_observes [simp]:
  "entry_of (call_made d) = entry_of d" "name_key (call_made d) = name_key d" "is_dir (call_made d) = is_dir d"
  "dk_nodes (call_made d) = dk_nodes d"
proof -
  show "name_key (call_made d) = name_key d" by (simp add: fun_eq_iff name_key_def call_made_def)
qed (use same_files_observe [OF same_call [of d]] in simp_all)

text \<open>The model of the disk fulfils the contract, whatever disk the transaction starts from.\<close>

interpretation card_files: replacing_store "kept d0" "owned d0" "\<lambda>i. dk_next d0 \<le> i"
  for d0
proof
  fix b b' M M' d t dir name i bs src dst
  show "kept d0 b M d \<Longrightarrow> same_files d t \<Longrightarrow> kept d0 b M t" by (rule kept_same)
  show "kept d0 b M d \<Longrightarrow> M \<subseteq> M' \<Longrightarrow> (b' \<Longrightarrow> b) \<Longrightarrow> kept d0 b' M' d" by (rule kept_weaken)
  show "owned d0 M dir name \<Longrightarrow> M \<subseteq> M' \<Longrightarrow> owned d0 M' dir name" by (auto simp: owned_def)
  show "kept d0 b M d \<Longrightarrow> (dir, name_key d name) \<in> M \<Longrightarrow> owned d0 M dir name"
    using kept_key by (simp add: owned_def)
  show "kept d0 b M d \<Longrightarrow> entry_of d dir name = None \<Longrightarrow> owned d0 M dir name" by (rule owned_absent)
  show "kept d0 b M d \<Longrightarrow> wp (sys_mkdir dir name) (\<lambda>_. kept d0 b M) (\<lambda>_. kept d0 b M) d"
    unfolding sys_mkdir_def
    by (rule wp_syscall) (auto simp: wp_simps is_dir_node_def intro!: wp_mono [OF replace_new_node])
  show "kept d0 b M d \<Longrightarrow> wp (sys_create dir name)
      (\<lambda>i t. kept d0 b M t \<and> owned d0 M dir name \<and> dk_next d0 \<le> i \<and> entry_of t dir name = Some i) (\<lambda>_. kept d0 b M) d"
    unfolding sys_create_def
    by (rule wp_syscall) (auto simp: is_dir_node_def intro!: replace_new_node)
  show "kept d0 b M d \<Longrightarrow> dk_next d0 \<le> i \<Longrightarrow> wp (sys_write i bs) (\<lambda>_. kept d0 b M) (\<lambda>_. kept d0 b M) d"
  proof -
    assume k: "kept d0 b M d" and i: "dk_next d0 \<le> i"
    from k have "kept d0 b M (call_made d)" by blast
    then have st: "wp (store_bytes i xs) (\<lambda>_. kept d0 b M) (\<lambda>_. kept d0 b M) (call_made d)" for xs
      using i by (rule replace_store)
    then have "wp (ebind (store_bytes i xs) (\<lambda>_. eraise e) :: unit fs) (\<lambda>_. kept d0 b M) (\<lambda>_. kept d0 b M) (call_made d)" for xs e
      by (simp add: wp_simps)
    with st show ?thesis
      by (simp add: wp_def sys_write_def call_made_def Let_def split: option.splits)
  qed
  show "kept d0 b M d \<Longrightarrow> owned d0 M dir src \<Longrightarrow> wp (sys_rename_noreplace dir src dst)
        (\<lambda>_ t. kept d0 b M t \<and> owned d0 M dir dst) (\<lambda>_. kept d0 b M) d"
    unfolding sys_rename_noreplace_def by (rule wp_syscall) (auto intro!: replace_move)
  show "kept d0 b M d \<Longrightarrow> owned d0 M dir name \<Longrightarrow> (b \<Longrightarrow> \<exists>i. entry_of d dir name = Some i \<and> dk_next d0 \<le> i) \<Longrightarrow>
      wp (sys_unlink dir name) (\<lambda>_. kept d0 b M) (\<lambda>_. kept d0 b M) d"
    unfolding sys_unlink_def by (rule wp_syscall) (auto intro!: replace_remove)
qed

end
