(* ===== verification/Preset_Transaction.thy ===== *)
theory Preset_Transaction
  imports Preset_Documents Item_State Replacing_Store
begin

text \<open>
  The file transaction of \<^verbatim>\<open>scripts/pocket_per_game_preset.py\<close>: it reads the core's definitions, prepares a
  temporary file for each preset, moves originals aside, publishes, verifies the result through the
  paths, and takes everything back when any of this fails.

  The state is the disk and the list of prepared outputs, whose members the code assigns one by one;
  the rollback reads what they were when the exception was raised. All inodes are on one device, so
  the device numbers the code compares are left out; duplicating and closing descriptors has no
  effect and is left out; modes are not modelled.
\<close>

section \<open>Prepared outputs\<close>

record prepared_output =
  pr_relative :: "string list"
  pr_payload :: "byte list"
  pr_parent :: ino
  pr_original :: "(byte list \<times> ino) option"
  pr_temporary :: "string option"
  pr_temporary_identity :: "ino option"
  pr_backup :: "string option"
  pr_installed :: "ino option"

type_synonym 'a preset_run = "(disk \<times> prepared_output list, 'a) eff"

definition pr_name :: "prepared_output \<Rightarrow> string" where
  "pr_name item = last (pr_relative item)"

section \<open>Calls with their errors\<close>

definition sync_directory :: "ino \<Rightarrow> unit fs" where
  "sync_directory descriptor = ecatch (sys_sync descriptor) (\<lambda>e. case e of
     OsErrno n \<Rightarrow> if unsupported_sync n then ereturn () else eraise e | _ \<Rightarrow> eraise e)"

definition preset_name_at :: "ino \<Rightarrow> string \<Rightarrow> bool fs" where
  "preset_name_at directory name =
     ebind (sys_listdir directory) (\<lambda>names.
     let matches = filter (\<lambda>n. casefold n = casefold name) names in
     ebind (eguard (\<not> (length matches > 1 \<or> (matches \<noteq> [] \<and> hd matches \<noteq> name)))
       (PresetError ''case-colliding preset path component'')) (\<lambda>_.
     ereturn (matches \<noteq> [])))"

text \<open>
  The loop without a maximum ends at the end of the file; the size seen before bounds it.
\<close>

definition preset_snapshot :: "ino \<Rightarrow> string \<Rightarrow> nat option \<Rightarrow> (byte list \<times> ino) option fs" where
  "preset_snapshot directory name maximum =
     ebind (preset_name_at directory name) (\<lambda>present.
     if \<not> present then ereturn None
     else
       ebind (os_errors_as (PresetError ''preset destination is unsafe'') (sys_open_at directory name)) (\<lambda>descriptor.
       ebind (sys_fstat descriptor) (\<lambda>first.
       ebind (eguard (is_file_node first) (PresetError ''preset destination is not a regular file'')) (\<lambda>_.
       ebind (read_upto descriptor (case maximum of None \<Rightarrow> length (node_bytes first) + 1 | Some m \<Rightarrow> m + 1) []) (\<lambda>payload.
       ebind (eguard (case maximum of None \<Rightarrow> True | Some m \<Rightarrow> \<not> length payload > m)
         (PresetError ''managed file exceeds the maximum'')) (\<lambda>_.
       ebind (sys_fstat descriptor) (\<lambda>after.
       ebind (eguard (\<not> (length (node_bytes first) \<noteq> length (node_bytes after) \<or> length payload \<noteq> length (node_bytes after)))
         (PresetError ''managed file changed while being read'')) (\<lambda>_.
       ereturn (Some (payload, descriptor))))))))))"

definition preset_rename :: "ino \<Rightarrow> string \<Rightarrow> string \<Rightarrow> unit fs" where
  "preset_rename directory source destination = ecatch (sys_rename_noreplace directory source destination) (\<lambda>e. case e of
     OsErrno n \<Rightarrow> if unsupported_sync n
       then eraise (PresetError ''target filesystem lacks atomic no-replace rename support'') else eraise e
   | _ \<Rightarrow> eraise e)"

definition unlink_owned_at :: "ino \<Rightarrow> string \<Rightarrow> ino \<Rightarrow> unit fs" where
  "unlink_owned_at directory name expected =
     ebind (sys_stat_at directory name) (\<lambda>(i, n).
     ebind (eguard (i = expected) (PresetError ''transaction artifact identity changed'')) (\<lambda>_.
     ebind (sys_unlink directory name) (\<lambda>_.
     sync_directory directory)))"

section \<open>Directories\<close>

definition open_bound_root :: "string list \<Rightarrow> (string list \<times> ino) fs" where
  "open_bound_root requested =
     ebind (os_errors_as (PresetError ''SD root must be an existing, non-symlink directory'') (sys_open_dir_path requested)) (\<lambda>descriptor.
     ebind (sys_fstat descriptor) (\<lambda>opened.
     ebind (sys_realpath requested) (\<lambda>path.
     ebind (sys_lstat path) (\<lambda>(observed, n).
     ebind (eguard (\<not> (\<not> is_dir_node opened \<or> descriptor \<noteq> observed)) (PresetError ''SD root identity changed during validation'')) (\<lambda>_.
     ereturn (path, descriptor))))))"

definition verify_bound_root :: "string list \<Rightarrow> ino \<Rightarrow> ino \<Rightarrow> unit fs" where
  "verify_bound_root path descriptor expected =
     ebind (os_errors_as (PresetError ''SD root detached during preset transaction'') (sys_lstat path)) (\<lambda>(observed, n).
     ebind (sys_fstat descriptor) (\<lambda>opened.
     eguard (\<not> (descriptor \<noteq> expected \<or> observed \<noteq> expected)) (PresetError ''SD root identity changed during preset transaction'')))"

fun preset_below :: "ino \<Rightarrow> string list \<Rightarrow> bool \<Rightarrow> ino option fs" where
  "preset_below current [] create = ereturn (Some current)"
| "preset_below current (component # parts) create =
     ebind (preset_name_at current component) (\<lambda>present.
     if \<not> present \<and> \<not> create then ereturn None
     else
       ebind (if \<not> present then
                ebind (ecatch (ebind (sys_mkdir current component) (\<lambda>_. ereturn True))
                    (\<lambda>e. if e = OsErrno EEXIST then ereturn False else eraise e)) (\<lambda>made.
                ebind (if made then sync_directory current else ereturn ()) (\<lambda>_.
                ebind (preset_name_at current component) (\<lambda>_. ereturn ())))
              else ereturn ()) (\<lambda>_.
       ebind (sys_stat_at current component) (\<lambda>(i, n).
       ebind (eguard (is_dir_node n) (PresetError ''preset output parent is not a nonsymlink directory'')) (\<lambda>_.
       ebind (os_errors_as (PresetError ''preset output parent became unsafe'') (sys_open_dir_at current component)) (\<lambda>child.
       ebind (sys_fstat child) (\<lambda>opened.
       ebind (eguard (child = i) (PresetError ''preset output parent identity changed'')) (\<lambda>_.
       preset_below child parts create)))))))"

definition preset_parent_at :: "ino \<Rightarrow> string list \<Rightarrow> bool \<Rightarrow> ino option fs" where
  "preset_parent_at root_descriptor relative create = preset_below root_descriptor (butlast relative) create"

section \<open>The core's definitions\<close>

text \<open>\<open>except (OSError, PresetError, UnicodeError, json.JSONDecodeError)\<close>.\<close>

definition definition_error :: "py_error \<Rightarrow> bool" where
  "definition_error e = (case e of OsErrno _ \<Rightarrow> True | PresetError _ \<Rightarrow> True | UnicodeError \<Rightarrow> True | _ \<Rightarrow> e = JSON_ERROR)"

definition MAX_DEFINITION :: nat where "MAX_DEFINITION = 1024 * 1024"

definition read_definition :: "string list \<Rightarrow> string \<Rightarrow> string \<Rightarrow> ino option \<Rightarrow> json_object fs" where
  "read_definition directory name envelope expected =
     ebind (ecatch
       (ebind (sys_open_dir_path directory) (\<lambda>parent.
        ebind (sys_lstat directory) (\<lambda>(observed, n).
        ebind (sys_fstat parent) (\<lambda>opened.
        ebind (eguard (\<not> parent \<noteq> observed) (PresetError ''definition directory identity changed'')) (\<lambda>_.
        ebind (eguard (\<not> (case expected of None \<Rightarrow> False | Some i \<Rightarrow> parent \<noteq> i))
          (PresetError ''definition directory is not the directory used for the plan'')) (\<lambda>_.
        ebind (preset_snapshot parent name (Some MAX_DEFINITION)) (\<lambda>snapshot.
        case snapshot of
          None \<Rightarrow> eraise (PresetError ''definition is missing'')
        | Some (payload, i) \<Rightarrow> elift (parse_definition payload))))))))
       (\<lambda>e. if definition_error e then eraise (PresetError ''cannot read valid JSON'') else eraise e)) (\<lambda>document.
     elift (open_envelope envelope document))"

definition build_interact_document :: "nat \<Rightarrow> string list \<Rightarrow> preset_options \<Rightarrow> ino option \<Rightarrow> json_object fs" where
  "build_interact_document limit definitions opts expected =
     ebind (read_definition definitions ''interact.json'' ''interact'' expected) (\<lambda>body. elift (interact_document limit opts body))"

definition build_input_document :: "string list \<Rightarrow> ino option \<Rightarrow> json_object fs" where
  "build_input_document definitions expected =
     ebind (read_definition definitions ''input.json'' ''input'' expected) (\<lambda>body. elift (input_document body))"

section \<open>The transaction\<close>

definition preset_temporary :: "string \<Rightarrow> string" where "preset_temporary token = ''.swansong-'' @ token @ ''.tmp''"
definition preset_backup :: "string \<Rightarrow> string" where "preset_backup token = ''.swansong-'' @ token @ ''.original''"
definition preset_quarantine :: "string \<Rightarrow> string" where "preset_quarantine token = ''.swansong-'' @ token @ ''.rollback''"

definition prepare_output :: "ino \<Rightarrow> bool \<Rightarrow> string list \<times> byte list \<Rightarrow> unit preset_run" where
  "prepare_output root_descriptor force = (\<lambda>(relative, payload).
     ebind (on_disk (preset_parent_at root_descriptor relative True)) (\<lambda>found.
     case found of
       None \<Rightarrow> eraise (AssertionError ''parent_descriptor is not None'')
     | Some parent \<Rightarrow>
         ebind (on_disk (sys_fstat parent)) (\<lambda>_.
         ebind (on_disk (preset_snapshot parent (last relative) None)) (\<lambda>snapshot.
         ebind (eguard (\<not> (snapshot \<noteq> None \<and> \<not> force)) (PresetError ''preset already exists'')) (\<lambda>_.
         add_item \<lparr>pr_relative = relative, pr_payload = payload, pr_parent = parent, pr_original = snapshot,
           pr_temporary = None, pr_temporary_identity = None, pr_backup = None, pr_installed = None\<rparr>)))))"

definition fill_temporary :: "nat \<Rightarrow> string \<Rightarrow> ino \<Rightarrow> unit preset_run" where
  "fill_temporary k name i =
     ebind (set_item k (\<lambda>item. item\<lparr>pr_temporary := Some name\<rparr>)) (\<lambda>_.
     ebind (on_disk (sys_fstat i)) (\<lambda>_.
     ebind (set_item k (\<lambda>item. item\<lparr>pr_temporary_identity := Some i\<rparr>)) (\<lambda>_.
     with_item k (\<lambda>item.
     ebind (on_disk (sys_write i (pr_payload item))) (\<lambda>_.
     ebind (on_disk (sys_fchmod i)) (\<lambda>_.
     ebind (on_disk (sys_sync i)) (\<lambda>_.
     ebind (on_disk (sys_fstat i)) (\<lambda>_.
     ebind (set_item k (\<lambda>item. item\<lparr>pr_temporary_identity := Some i\<rparr>)) (\<lambda>_.
     on_disk (sync_directory (pr_parent item)))))))))))"

primrec allocate_preset :: "nat \<Rightarrow> nat \<Rightarrow> unit preset_run" where
  "allocate_preset 0 k = eraise (PresetError ''could not allocate a temporary preset'')"
| "allocate_preset (Suc n) k = with_item k (\<lambda>item.
     ebind (on_disk draw_token) (\<lambda>token.
     ebind (ecatch (ebind (on_disk (sys_create (pr_parent item) (preset_temporary token))) (\<lambda>i. ereturn (Some i)))
         (\<lambda>e. if e = OsErrno EEXIST then ereturn None else eraise e)) (\<lambda>created.
     case created of
       None \<Rightarrow> allocate_preset n k
     | Some i \<Rightarrow> fill_temporary k (preset_temporary token) i)))"

definition restore_backup :: "nat \<Rightarrow> unit preset_run" where
  "restore_backup k = with_item k (\<lambda>item.
     case pr_backup item of
       None \<Rightarrow> ereturn ()
     | Some backup \<Rightarrow>
         ebind (on_disk (preset_rename (pr_parent item) backup (pr_name item))) (\<lambda>_.
         ebind (set_item k (\<lambda>item. item\<lparr>pr_backup := None\<rparr>)) (\<lambda>_.
         on_disk (sync_directory (pr_parent item)))))"

definition move_original_aside :: "nat \<Rightarrow> unit preset_run" where
  "move_original_aside k = with_item k (\<lambda>item.
     case pr_original item of
       None \<Rightarrow> ereturn ()
     | Some original \<Rightarrow>
         ebind (on_disk draw_token) (\<lambda>token.
         ebind (set_item k (\<lambda>item. item\<lparr>pr_backup := Some (preset_backup token)\<rparr>)) (\<lambda>_.
         ebind (on_disk (preset_rename (pr_parent item) (pr_name item) (preset_backup token))) (\<lambda>_.
         ebind (on_disk (preset_snapshot (pr_parent item) (preset_backup token) None)) (\<lambda>backup.
         if backup \<noteq> Some original then
           ebind (restore_backup k) (\<lambda>_. eraise (PresetError ''preset changed after preflight''))
         else ereturn ())))))"

definition publish_preset :: "nat \<Rightarrow> unit preset_run" where
  "publish_preset k =
     ebind (move_original_aside k) (\<lambda>_.
     with_item k (\<lambda>item.
     case pr_temporary item of
       None \<Rightarrow> eraise (AssertionError ''temporary_name is not None'')
     | Some temporary \<Rightarrow>
         ebind (eguard (pr_temporary_identity item \<noteq> None) (AssertionError ''temporary_identity is not None'')) (\<lambda>_.
         ebind (on_disk (preset_rename (pr_parent item) temporary (pr_name item))) (\<lambda>_.
         ebind (set_item k (\<lambda>item. item\<lparr>pr_temporary := None, pr_installed := pr_temporary_identity item\<rparr>)) (\<lambda>_.
         on_disk (sync_directory (pr_parent item)))))))"

definition preset_in_place :: "prepared_output \<Rightarrow> (byte list \<times> ino) option \<Rightarrow> bool" where
  "preset_in_place item snapshot = (case snapshot of
     None \<Rightarrow> False
   | Some (payload, i) \<Rightarrow> pr_installed item = Some i \<and> payload = pr_payload item)"

definition verify_preset :: "ino \<Rightarrow> nat \<Rightarrow> unit preset_run" where
  "verify_preset root_descriptor k = with_item k (\<lambda>item.
     ebind (on_disk (preset_parent_at root_descriptor (pr_relative item) False)) (\<lambda>found.
     case found of
       None \<Rightarrow> eraise (PresetError ''preset parent detached during transaction'')
     | Some current_parent \<Rightarrow>
         ebind (on_disk (sys_fstat current_parent)) (\<lambda>_.
         ebind (eguard (current_parent = pr_parent item) (PresetError ''preset parent identity changed during transaction'')) (\<lambda>_.
         ebind (on_disk (preset_snapshot current_parent (pr_name item) None)) (\<lambda>snapshot.
         eguard (preset_in_place item snapshot)
           (PresetError ''preset changed during transaction''))))))"

definition preset_transaction :: "string list \<Rightarrow> ino \<Rightarrow> ino \<Rightarrow> bool \<Rightarrow> (string list \<times> byte list) list \<Rightarrow> unit preset_run" where
  "preset_transaction path root_descriptor identity force payloads =
     ebind (efold (\<lambda>output _. prepare_output root_descriptor force output) payloads ()) (\<lambda>_.
     ebind count_items (\<lambda>n.
     ebind (for_items (allocate_preset 32) [0..<n]) (\<lambda>_.
     ebind (for_items publish_preset [0..<n]) (\<lambda>_.
     ebind (on_disk (verify_bound_root path root_descriptor identity)) (\<lambda>_.
     for_items (verify_preset root_descriptor) [0..<n])))))"

section \<open>Rollback and cleanup\<close>

definition take_back_installed :: "nat \<Rightarrow> ino \<Rightarrow> unit preset_run" where
  "take_back_installed k installed = with_item k (\<lambda>item.
     ebind (on_disk draw_token) (\<lambda>token.
     let quarantine = preset_quarantine token in
     ebind (on_disk (preset_rename (pr_parent item) (pr_name item) quarantine)) (\<lambda>_.
     ebind (on_disk (preset_snapshot (pr_parent item) quarantine None)) (\<lambda>snapshot.
     if snapshot \<noteq> Some (pr_payload item, installed) then
       ebind (etry (on_disk (preset_rename (pr_parent item) quarantine (pr_name item)))) (\<lambda>_.
       eraise (PresetError ''installed preset changed before rollback''))
     else
       ebind (set_item k (\<lambda>item. item\<lparr>pr_installed := None\<rparr>)) (\<lambda>_.
       ebind (restore_backup k) (\<lambda>_.
       on_disk (unlink_owned_at (pr_parent item) quarantine installed)))))))"

definition drop_temporary :: "nat \<Rightarrow> unit preset_run" where
  "drop_temporary k = with_item k (\<lambda>item.
     case (pr_temporary item, pr_temporary_identity item) of
       (Some temporary, Some identity) \<Rightarrow>
         ebind (on_disk (unlink_owned_at (pr_parent item) temporary identity)) (\<lambda>_.
         set_item k (\<lambda>item. item\<lparr>pr_temporary := None\<rparr>))
     | _ \<Rightarrow> ereturn ())"

definition rollback_preset :: "nat \<Rightarrow> unit preset_run" where
  "rollback_preset k = with_item k (\<lambda>item.
     ebind (case pr_installed item of Some i \<Rightarrow> take_back_installed k i | None \<Rightarrow> restore_backup k) (\<lambda>_.
     drop_temporary k))"

definition ROLLBACK_INCOMPLETE :: py_error where
  "ROLLBACK_INCOMPLETE = PresetError ''preset transaction failed and rollback was incomplete''"

definition CLEANUP_INCOMPLETE :: py_error where
  "CLEANUP_INCOMPLETE = PresetError ''presets were installed and verified but cleanup was incomplete''"

definition rollback_presets :: "py_error \<Rightarrow> unit preset_run" where
  "rollback_presets e =
     ebind count_items (\<lambda>n.
     ebind (attempt_each rollback_preset (rev [0..<n])) (\<lambda>failures.
     if failures \<noteq> 0 then eraise ROLLBACK_INCOMPLETE
     else if e = OsErrno EEXIST then eraise (PresetError ''preset destination was created concurrently'')
     else eraise e))"

definition cleanup_preset :: "nat \<Rightarrow> unit preset_run" where
  "cleanup_preset k = with_item k (\<lambda>item.
     case (pr_backup item, pr_original item) of
       (Some backup, Some (_, identity)) \<Rightarrow>
         ebind (on_disk (unlink_owned_at (pr_parent item) backup identity)) (\<lambda>_.
         set_item k (\<lambda>item. item\<lparr>pr_backup := None\<rparr>))
     | _ \<Rightarrow> ereturn ())"

definition cleanup_presets :: "unit preset_run" where
  "cleanup_presets =
     ebind count_items (\<lambda>n.
     ebind (attempt_each cleanup_preset [0..<n]) (\<lambda>failures. eguard (failures = 0) CLEANUP_INCOMPLETE))"

definition write_presets :: "string list \<Rightarrow> ino \<Rightarrow> bool \<Rightarrow> (string list \<times> byte list) list \<Rightarrow> unit fs" where
  "write_presets path root_descriptor force payloads =
     run_items (ebind (ecatch (preset_transaction path root_descriptor root_descriptor force payloads) rollback_presets)
       (\<lambda>_. cleanup_presets))"

section \<open>The command\<close>

definition path_is_dir :: "string list \<Rightarrow> bool fs" where
  "path_is_dir path = answer_absence (ebind (sys_stat path) (\<lambda>(i, n). ereturn (is_dir_node n)))"

definition preset_payloads :: "nat \<Rightarrow> (rat \<Rightarrow> string) \<Rightarrow> string \<Rightarrow> string list \<Rightarrow> string list \<Rightarrow> preset_options \<Rightarrow> ino option \<Rightarrow>
    (string list \<times> byte list) list fs" where
  "preset_payloads limit fl core_id relative definitions opts expected =
     ebind (build_interact_document limit definitions opts expected) (\<lambda>interact.
     ebind (elift (json_bytes fl ''interact'' interact)) (\<lambda>interact_bytes.
     let interact_output = ([''Presets'', core_id, ''Interact''] @ relative, interact_bytes) in
     if po_controls opts = ''per-game'' then
       ebind (build_input_document definitions expected) (\<lambda>controls.
       ebind (elift (json_bytes fl ''input'' controls)) (\<lambda>input_bytes.
       ereturn [interact_output, ([''Presets'', core_id, ''Input''] @ relative, input_bytes)]))
     else ereturn [interact_output]))"

text \<open>Everything before the first change of the card: the checks, the documents and the root.\<close>

definition preset_request :: "nat \<Rightarrow> (rat \<Rightarrow> string) \<Rightarrow> string list \<Rightarrow> string \<Rightarrow> string list \<Rightarrow> string \<Rightarrow> preset_options \<Rightarrow>
    ino option \<Rightarrow> ino option \<Rightarrow> (string list \<times> ino \<times> (string list \<times> byte list) list) fs" where
  "preset_request limit fl sd_root asset definitions core_id opts expected_root expected_definitions =
     ebind (elift (validate_core_id core_id)) (\<lambda>_.
     ebind (path_is_dir definitions) (\<lambda>present.
     ebind (eguard present (PresetError ''core definitions directory does not exist'')) (\<lambda>_.
     ebind (elift (validate_options opts)) (\<lambda>_.
     ebind (elift (preset_relative_path asset)) (\<lambda>relative.
     ebind (preset_payloads limit fl core_id relative definitions opts expected_definitions) (\<lambda>payloads.
     ebind (open_bound_root sd_root) (\<lambda>(path, root_descriptor).
     ebind (eguard (\<not> (case expected_root of None \<Rightarrow> False | Some i \<Rightarrow> root_descriptor \<noteq> i))
       (PresetError ''SD root is not the directory used for the preset plan'')) (\<lambda>_.
     ereturn (path, root_descriptor, payloads)))))))))"

definition generate_presets :: "nat \<Rightarrow> (rat \<Rightarrow> string) \<Rightarrow> string list \<Rightarrow> string \<Rightarrow> string list \<Rightarrow> string \<Rightarrow> preset_options \<Rightarrow> bool \<Rightarrow>
    ino option \<Rightarrow> ino option \<Rightarrow> string list list fs" where
  "generate_presets limit fl sd_root asset definitions core_id opts force expected_root expected_definitions =
     ebind (preset_request limit fl sd_root asset definitions core_id opts expected_root expected_definitions)
       (\<lambda>(path, root_descriptor, payloads).
     ebind (write_presets path root_descriptor force payloads) (\<lambda>_.
     ereturn (map (\<lambda>(relative, payload). path @ relative) payloads)))"

text \<open>The exit status; an exception that is not a \<open>PresetError\<close> escapes.\<close>

definition preset_main :: "nat \<Rightarrow> (rat \<Rightarrow> string) \<Rightarrow> string list \<Rightarrow> string \<Rightarrow> string list \<Rightarrow> string \<Rightarrow> preset_options \<Rightarrow> bool \<Rightarrow> int fs" where
  "preset_main limit fl sd_root asset definitions core_id opts force =
     ecatch (ebind (generate_presets limit fl sd_root asset definitions core_id opts force None None) (\<lambda>_. ereturn 0))
       (\<lambda>e. case e of PresetError _ \<Rightarrow> ereturn 2 | _ \<Rightarrow> eraise e)"

end
