(* ===== verification/Preset_Facts.thy ===== *)
theory Preset_Facts
  imports Preset_Transaction
begin

text \<open>
  What the preset transaction does to a card: its parts that only read, and the proof, against the
  contract \<open>replacing_store\<close>, that it and its rollback destroy nothing.
\<close>

section \<open>Programs that only read\<close>

lemma reads_sync_directory [keep_intros]: "keeps (same_files s) (sync_directory i)"
  unfolding sync_directory_def by (auto intro!: keep_intros split: py_error.splits)

lemma reads_preset_name [keep_intros]: "keeps (same_files s) (preset_name_at directory name)"
  unfolding preset_name_at_def Let_def by (intro keep_intros)

lemma reads_preset_snapshot [keep_intros]: "keeps (same_files s) (preset_snapshot directory name maximum)"
  unfolding preset_snapshot_def by (intro keep_intros)

lemma reads_bound_root [keep_intros]:
  "keeps (same_files s) (open_bound_root requested)" "keeps (same_files s) (verify_bound_root path descriptor expected)"
  unfolding open_bound_root_def verify_bound_root_def by (intro keep_intros)+

lemma reads_preset_below [keep_intros]: "keeps (same_files s) (preset_below current parts False)"
  by (induction current parts "False" rule: preset_below.induct) (auto intro!: keep_intros)

lemma reads_preset_parent [keep_intros]: "keeps (same_files s) (preset_parent_at root_descriptor relative False)"
  unfolding preset_parent_at_def by (rule reads_preset_below)

lemma reads_definition [keep_intros]: "keeps (same_files s) (read_definition directory name envelope expected)"
  unfolding read_definition_def by (intro keep_intros)

lemma reads_documents [keep_intros]:
  "keeps (same_files s) (build_interact_document limit definitions opts expected)"
  "keeps (same_files s) (build_input_document definitions expected)"
  unfolding build_interact_document_def build_input_document_def by (intro keep_intros)+

lemma reads_payloads [keep_intros]: "keeps (same_files s) (preset_payloads limit fl core_id relative definitions opts expected)"
  unfolding preset_payloads_def Let_def by (intro keep_intros)

lemma reads_is_dir [keep_intros]: "keeps (same_files s) (path_is_dir path)"
  unfolding path_is_dir_def by (intro keep_intros)

lemma reads_request [keep_intros]:
  "keeps (same_files s) (preset_request limit fl sd_root asset definitions core_id opts er ed)"
  unfolding preset_request_def by (intro keep_intros)

section \<open>Against the contract\<close>

text \<open>The members of an item that are never assigned again.\<close>

type_synonym preset_fixed = "string list \<times> byte list \<times> ino \<times> (byte list \<times> ino) option"

definition preset_fixed :: "prepared_output \<Rightarrow> preset_fixed" where
  "preset_fixed item = (pr_relative item, pr_payload item, pr_parent item, pr_original item)"

context replacing_store
begin

definition preset_safe :: "(ino \<times> string) set \<Rightarrow> prepared_output \<Rightarrow> bool" where
  "preset_safe M item =
     ((\<forall>t. pr_temporary item = Some t \<longrightarrow> mine M (pr_parent item) t)
      \<and> (\<forall>i. pr_temporary_identity item = Some i \<longrightarrow> fresh i)
      \<and> (\<forall>i. pr_installed item = Some i \<longrightarrow> fresh i \<and> mine M (pr_parent item) (pr_name item))
      \<and> (\<forall>t. pr_backup item = Some t \<longrightarrow> mine M (pr_parent item) t \<and> t \<in> range preset_backup)
      \<and> (pr_original item \<noteq> None \<longrightarrow> mine M (pr_parent item) (pr_name item) \<and> (\<forall>t. mine M (pr_parent item) (preset_backup t))))"

text \<open>The invariant of the state: the contract on the disk, and items that name only what is the tool's.\<close>

definition presets_inv :: "bool \<Rightarrow> (ino \<times> string) set \<Rightarrow> preset_fixed list \<Rightarrow> disk \<times> prepared_output list \<Rightarrow> bool" where
  "presets_inv b M ps = (\<lambda>p. keep b M (fst p) \<and> (map preset_fixed (snd p) = ps \<and> list_all (preset_safe M) (snd p)))"

lemma inv_on_disk:
  assumes "keeps (keep b M) m"
  shows "keeps (presets_inv b M ps) (on_disk m)"
  unfolding presets_inv_def using assms by (rule keeps_on_disk)

lemma inv_reading:
  assumes "\<And>s. keeps (same_files s) m"
  shows "keeps (presets_inv b M ps) (on_disk m)"
  using assms keeps_reading inv_on_disk by blast

lemma inv_set:
  assumes "\<And>item. preset_safe M item \<Longrightarrow> preset_fixed item = ps ! k \<Longrightarrow> preset_safe M (f item)"
    and "\<And>item. preset_fixed (f item) = preset_fixed item"
  shows "keeps (presets_inv b M ps) (set_item k f)"
proof (rule keepsI)
  fix p assume p: "presets_inv b M ps p"
  let ?q = "(snd p)[k := f (snd p ! k)]"
  have "list_all (preset_safe M) ?q"
  proof (cases "k < length (snd p)")
    case True
    moreover have "preset_fixed (snd p ! k) = ps ! k" using p True by (auto simp: presets_inv_def)
    ultimately show ?thesis using p assms(1) by (auto simp: presets_inv_def list_all_length nth_list_update)
  next
    case False
    then show ?thesis using p by (simp add: presets_inv_def list_update_beyond)
  qed
  moreover have "map preset_fixed ?q = ps"
  proof -
    have "map preset_fixed ?q = (map preset_fixed (snd p))[k := preset_fixed (snd p ! k)]"
      by (simp add: map_update assms(2))
    also have "\<dots> = map preset_fixed (snd p)"
      by (cases "k < length (snd p)") (simp_all add: list_update_beyond flip: nth_map)
    finally show ?thesis using p by (simp add: presets_inv_def)
  qed
  ultimately show "wp (set_item k f) (\<lambda>_. presets_inv b M ps) (\<lambda>_. presets_inv b M ps) p"
    using p by (cases p) (simp add: presets_inv_def wp_simps)
qed

lemma inv_with_item:
  assumes "k < length ps"
    and "\<And>item. preset_safe M item \<Longrightarrow> preset_fixed item = ps ! k \<Longrightarrow> keeps (presets_inv b M ps) (f item)"
  shows "keeps (presets_inv b M ps) (with_item k f)"
proof (rule keepsI)
  fix p assume p: "presets_inv b M ps p"
  then have "k < length (snd p)" using assms(1) by (auto simp: presets_inv_def)
  then have "preset_safe M (snd p ! k)" "preset_fixed (snd p ! k) = ps ! k"
    using p by (auto simp: presets_inv_def list_all_length)
  then show "wp (with_item k f) (\<lambda>_. presets_inv b M ps) (\<lambda>_. presets_inv b M ps) p"
    using keepsD [OF assms(2) p] by (simp add: wp_simps)
qed

text \<open>A call that answers with a fact: what follows may use it.\<close>

lemma inv_fact:
  assumes "\<And>d. keep b M d \<Longrightarrow> wp m (\<lambda>x t. keep b M t \<and> F x) (\<lambda>_. keep b M) d"
    and "\<And>x. F x \<Longrightarrow> keeps (presets_inv b M ps) (f x)"
  shows "keeps (presets_inv b M ps) (ebind (on_disk m) f)"
proof (rule keepsI)
  fix p assume p: "presets_inv b M ps p"
  have "wp (f x) (\<lambda>_. presets_inv b M ps) (\<lambda>_. presets_inv b M ps) (t, snd p)" if "keep b M t" "F x" for x t
    using keepsD [OF assms(2) [OF that(2)], of "(t, snd p)"] that(1) p by (auto simp: presets_inv_def)
  then show "wp (ebind (on_disk m) f) (\<lambda>_. presets_inv b M ps) (\<lambda>_. presets_inv b M ps) p"
    using assms(1) [of "fst p"] p
    by (cases p) (auto simp: wp_simps presets_inv_def elim!: wp_mono)
qed

text \<open>Calls on the disk.\<close>

lemma keep_rename: "mine M dir src \<Longrightarrow> keep b M d \<Longrightarrow>
  wp (preset_rename dir src dst) (\<lambda>_ t. keep b M t \<and> mine M dir dst) (\<lambda>_. keep b M) d"
  unfolding preset_rename_def wp_catch
  by (rule wp_mono [OF rename_law]) (auto simp: wp_simps split: py_error.splits)

lemma keeps_rename: "mine M dir src \<Longrightarrow> keeps (keep b M) (preset_rename dir src dst)"
  by (rule keepsI) (auto intro: wp_mono [OF keep_rename])

lemma keep_stat:
  assumes k: "keep b M d"
  shows "wp (sys_stat_at dir name) (\<lambda>(i, n) t. keep b M t \<and> entry_of t dir name = Some i) (\<lambda>_. keep b M) d"
proof (rule wpI)
  show "keep b M t" if "sys_stat_at dir name d = (Inl e, t)" for e t
    using keep_same [OF k same_after [OF reads_calls(2) that]] .
  show "(\<lambda>(i, n) t. keep b M t \<and> entry_of t dir name = Some i) x t" if "sys_stat_at dir name d = (Inr x, t)" for x t
    using stat_at_Inr [OF that] keep_same [OF k] same_files_observe(3) [of d t]
    by (cases x) (auto simp: child_node_Inr)
qed

lemma keeps_unlink_owned:
  assumes "mine M dir name" and "b \<Longrightarrow> fresh expected"
  shows "keeps (keep b M) (unlink_owned_at dir name expected)"
proof (rule keepsI)
  fix d assume k: "keep b M d"
  have "wp (ebind (sys_unlink dir name) (\<lambda>_. sync_directory dir)) (\<lambda>_. keep b M) (\<lambda>_. keep b M) t"
    if "keep b M t" "entry_of t dir name = Some expected" for t
    unfolding wp_bind using assms that
    by (auto intro!: wp_mono [OF unlink_law] read_law [OF reads_sync_directory])
  then show "wp (unlink_owned_at dir name expected) (\<lambda>_. keep b M) (\<lambda>_. keep b M) d"
    unfolding unlink_owned_at_def wp_bind
    by (intro wp_mono [OF keep_stat [OF k]]) (auto simp: wp_simps)
qed

lemma keeps_preset_below: "keeps (keep b M) (preset_below current parts create)"
proof (induction current parts create rule: preset_below.induct)
  case (1 current create)
  then show ?case by (simp add: keep_intros)
next
  case (2 current component parts create)
  have r: "keeps (keep b M) (preset_name_at current component)" "keeps (keep b M) (sys_stat_at current component)"
    "keeps (keep b M) (sys_open_dir_at current component)" "keeps (keep b M) (sync_directory current)"
    "keeps (keep b M) (sys_fstat i)" for i
    by (rule keeps_reading, rule keep_intros)+
  have m: "keeps (keep b M) (sys_mkdir current component)" by (rule keepsI) (rule mkdir_law)
  show ?case
    unfolding preset_below.simps
    by (intro keep_intros r m 2) auto
qed

end

section \<open>The transaction keeps the contract\<close>

lemma fixed_kept [simp]:
  "preset_fixed (item\<lparr>pr_temporary := t\<rparr>) = preset_fixed item"
  "preset_fixed (item\<lparr>pr_temporary_identity := i\<rparr>) = preset_fixed item"
  "preset_fixed (item\<lparr>pr_backup := t\<rparr>) = preset_fixed item"
  "preset_fixed (item\<lparr>pr_installed := i\<rparr>) = preset_fixed item"
  by (simp_all add: preset_fixed_def)

lemma fixed_eq: "preset_fixed item = preset_fixed item' \<Longrightarrow>
  pr_parent item = pr_parent item' \<and> pr_name item = pr_name item' \<and> pr_original item = pr_original item'
    \<and> pr_payload item = pr_payload item' \<and> pr_relative item = pr_relative item'"
  by (simp add: preset_fixed_def pr_name_def)

context replacing_store
begin

lemmas inv_reads = inv_reading [OF reads_sync_directory] inv_reading [OF reads_preset_snapshot] inv_reading [OF reads_token]
  inv_reading [OF reads_calls(1)] inv_reading [OF reads_fchmod] inv_reading [OF reads_sync]
  inv_reading [OF reads_bound_root(2)] inv_reading [OF reads_preset_parent]

lemma inv_restore_backup:
  assumes "k < length ps"
  shows "keeps (presets_inv b M ps) (restore_backup k)"
  unfolding restore_backup_def
proof (rule inv_with_item [OF assms])
  fix item assume safe: "preset_safe M item"
  have "keeps (presets_inv b M ps) (set_item k (\<lambda>item. item\<lparr>pr_backup := None\<rparr>))"
    by (rule inv_set) (auto simp: preset_safe_def pr_name_def)
  moreover have "keeps (presets_inv b M ps) (on_disk (preset_rename (pr_parent item) backup (pr_name item)))"
    if "pr_backup item = Some backup" for backup
    by (rule inv_on_disk [OF keeps_rename]) (use safe that in \<open>simp add: preset_safe_def\<close>)
  ultimately show "keeps (presets_inv b M ps) (case pr_backup item of
       None \<Rightarrow> ereturn ()
     | Some backup \<Rightarrow>
         ebind (on_disk (preset_rename (pr_parent item) backup (pr_name item))) (\<lambda>_.
         ebind (set_item k (\<lambda>item. item\<lparr>pr_backup := None\<rparr>)) (\<lambda>_.
         on_disk (sync_directory (pr_parent item)))))"
    by (cases "pr_backup item") (auto intro!: keep_intros inv_reads)
qed

lemma inv_write: "fresh i \<Longrightarrow> keeps (presets_inv b M ps) (on_disk (sys_write i bs))"
  by (rule inv_on_disk, rule keepsI, rule write_law)

lemma inv_fill_temporary:
  assumes k: "k < length ps" and new: "fresh i" and own: "mine M (fst (snd (snd (ps ! k)))) name"
  shows "keeps (presets_inv b M ps) (fill_temporary k name i)"
  unfolding fill_temporary_def
proof (intro keep_intros inv_reads inv_with_item [OF k] inv_write [OF new])
  show "keeps (presets_inv b M ps) (set_item k (\<lambda>item. item\<lparr>pr_temporary := Some name\<rparr>))"
  proof (rule inv_set)
    fix item assume safe: "preset_safe M item" and fixed: "preset_fixed item = ps ! k"
    have "mine M (pr_parent item) name" using own unfolding fixed [symmetric] by (simp add: preset_fixed_def)
    then show "preset_safe M (item\<lparr>pr_temporary := Some name\<rparr>)"
      using safe by (simp add: preset_safe_def pr_name_def)
  qed simp
  show "keeps (presets_inv b M ps) (set_item k (\<lambda>item. item\<lparr>pr_temporary_identity := Some i\<rparr>))"
    by (rule inv_set) (use new in \<open>auto simp: preset_safe_def pr_name_def\<close>)
  then show "keeps (presets_inv b M ps) (set_item k (\<lambda>item. item\<lparr>pr_temporary_identity := Some i\<rparr>))" .
qed

lemma inv_allocate:
  assumes k: "k < length ps"
  shows "keeps (presets_inv b M ps) (allocate_preset n k)"
proof (induction n)
  case 0
  then show ?case by (simp add: keep_intros)
next
  case (Suc n)
  show ?case
    unfolding allocate_preset.simps
  proof (rule inv_with_item [OF k], rule keeps_bind [OF inv_reads(3)])
    fix item token
    assume fixed: "preset_fixed item = ps ! k"
    let ?name = "preset_temporary token"
    let ?create = "ecatch (ebind (sys_create (pr_parent item) ?name) (\<lambda>i. ereturn (Some i)))
         (\<lambda>e. if e = OsErrno EEXIST then ereturn None else eraise e)"
    have lift: "ecatch (ebind (on_disk (sys_create (pr_parent item) ?name)) (\<lambda>i. ereturn (Some i)))
         (\<lambda>e. if e = OsErrno EEXIST then ereturn None else eraise e) = on_disk ?create"
      by (auto simp: fun_eq_iff ecatch_def ebind_def on_disk_def ereturn_def eraise_def split: prod.splits sum.splits)
    have "wp ?create (\<lambda>x t. keep b M t \<and> (case x of None \<Rightarrow> True | Some i \<Rightarrow> fresh i \<and> mine M (pr_parent item) ?name))
        (\<lambda>_. keep b M) d" if "keep b M d" for d
      using create_law [OF that, of "pr_parent item" ?name] by (auto simp: wp_simps elim!: wp_mono)
    then show "keeps (presets_inv b M ps)
        (ebind (ecatch (ebind (on_disk (sys_create (pr_parent item) ?name)) (\<lambda>i. ereturn (Some i)))
           (\<lambda>e. if e = OsErrno EEXIST then ereturn None else eraise e)) (\<lambda>created.
         case created of None \<Rightarrow> allocate_preset n k | Some i \<Rightarrow> fill_temporary k ?name i))"
      unfolding lift
    proof (rule inv_fact)
      fix x assume x: "case x of None \<Rightarrow> True | Some i \<Rightarrow> fresh i \<and> mine M (pr_parent item) ?name"
      have p: "fst (snd (snd (ps ! k))) = pr_parent item" unfolding fixed [symmetric] by (simp add: preset_fixed_def)
      show "keeps (presets_inv b M ps) (case x of None \<Rightarrow> allocate_preset n k | Some i \<Rightarrow> fill_temporary k ?name i)"
        using x Suc inv_fill_temporary [OF k] p by (cases x) auto
    qed
  qed
qed

lemma inv_move_aside:
  assumes k: "k < length ps"
  shows "keeps (presets_inv b M ps) (move_original_aside k)"
  unfolding move_original_aside_def
proof (rule inv_with_item [OF k])
  fix item assume safe: "preset_safe M item" and fixed: "preset_fixed item = ps ! k"
  show "keeps (presets_inv b M ps) (case pr_original item of
       None \<Rightarrow> ereturn ()
     | Some original \<Rightarrow>
         ebind (on_disk draw_token) (\<lambda>token.
         ebind (set_item k (\<lambda>item. item\<lparr>pr_backup := Some (preset_backup token)\<rparr>)) (\<lambda>_.
         ebind (on_disk (preset_rename (pr_parent item) (pr_name item) (preset_backup token))) (\<lambda>_.
         ebind (on_disk (preset_snapshot (pr_parent item) (preset_backup token) None)) (\<lambda>backup.
         if backup \<noteq> Some original then
           ebind (restore_backup k) (\<lambda>_. eraise (PresetError ''preset changed after preflight''))
         else ereturn ())))))"
  proof (cases "pr_original item")
    case None
    then show ?thesis by (simp add: keep_intros)
  next
    case (Some original)
    then have own: "mine M (pr_parent item) (pr_name item)" using safe by (simp add: preset_safe_def)
    have "keeps (presets_inv b M ps) (set_item k (\<lambda>item. item\<lparr>pr_backup := Some (preset_backup token)\<rparr>))" for token
    proof (rule inv_set)
      fix item' assume "preset_safe M item'" "preset_fixed item' = ps ! k"
      then show "preset_safe M (item'\<lparr>pr_backup := Some (preset_backup token)\<rparr>)"
        using fixed_eq [of item' item] fixed Some by (simp add: preset_safe_def pr_name_def)
    qed simp
    then show ?thesis
      unfolding Some option.case
      by (intro keep_intros inv_reads inv_on_disk [OF keeps_rename] inv_restore_backup k own)
  qed
qed

lemma inv_publish:
  assumes k: "k < length ps"
  shows "keeps (presets_inv b M ps) (publish_preset k)"
  unfolding publish_preset_def
proof (intro keeps_bind [OF inv_move_aside [OF k]] inv_with_item [OF k])
  fix item assume safe: "preset_safe M item" and fixed: "preset_fixed item = ps ! k"
  show "keeps (presets_inv b M ps) (case pr_temporary item of
       None \<Rightarrow> eraise (AssertionError ''temporary_name is not None'')
     | Some temporary \<Rightarrow>
         ebind (eguard (pr_temporary_identity item \<noteq> None) (AssertionError ''temporary_identity is not None'')) (\<lambda>_.
         ebind (on_disk (preset_rename (pr_parent item) temporary (pr_name item))) (\<lambda>_.
         ebind (set_item k (\<lambda>item. item\<lparr>pr_temporary := None, pr_installed := pr_temporary_identity item\<rparr>)) (\<lambda>_.
         on_disk (sync_directory (pr_parent item))))))"
  proof (cases "pr_temporary item")
    case None
    then show ?thesis by (simp add: keep_intros)
  next
    case (Some temporary)
    then have own: "mine M (pr_parent item) temporary" using safe by (simp add: preset_safe_def)
    have "keeps (presets_inv b M ps) (ebind (on_disk (preset_rename (pr_parent item) temporary (pr_name item))) (\<lambda>_.
         ebind (set_item k (\<lambda>item. item\<lparr>pr_temporary := None, pr_installed := pr_temporary_identity item\<rparr>)) (\<lambda>_.
         on_disk (sync_directory (pr_parent item)))))"
    proof (rule inv_fact [OF keep_rename [OF own]], assumption)
      assume name: "mine M (pr_parent item) (pr_name item)"
      have "keeps (presets_inv b M ps) (set_item k (\<lambda>item. item\<lparr>pr_temporary := None, pr_installed := pr_temporary_identity item\<rparr>))"
      proof (rule inv_set)
        fix item' assume "preset_safe M item'" "preset_fixed item' = ps ! k"
        then show "preset_safe M (item'\<lparr>pr_temporary := None, pr_installed := pr_temporary_identity item'\<rparr>)"
          using fixed_eq [of item' item] fixed name by (simp add: preset_safe_def pr_name_def)
      qed (simp add: preset_fixed_def)
      then show "keeps (presets_inv b M ps)
          (ebind (set_item k (\<lambda>item. item\<lparr>pr_temporary := None, pr_installed := pr_temporary_identity item\<rparr>)) (\<lambda>_.
           on_disk (sync_directory (pr_parent item))))"
        by (intro keep_intros inv_reads)
    qed
    then show ?thesis unfolding Some option.case by (rule keeps_bind [OF keeps_guard])
  qed
qed

end

section \<open>The whole transaction\<close>

context replacing_store
begin

lemma inv_verify:
  assumes "k < length ps"
  shows "keeps (presets_inv b M ps) (verify_preset root_descriptor k)"
  unfolding verify_preset_def
  by (intro inv_with_item [OF assms] keep_intros inv_reads)

lemma inv_take_back:
  assumes k: "k < length ps" and installed: "fresh installed"
    and own: "\<And>item. preset_safe M item \<Longrightarrow> preset_fixed item = ps ! k \<Longrightarrow> mine M (pr_parent item) (pr_name item)"
  shows "keeps (presets_inv b M ps) (take_back_installed k installed)"
  unfolding take_back_installed_def Let_def
proof (intro inv_with_item [OF k] keeps_bind [OF inv_reads(3)])
  fix item token
  assume "preset_safe M item" and fixed: "preset_fixed item = ps ! k"
  then have name: "mine M (pr_parent item) (pr_name item)" by (rule own)
  let ?q = "preset_quarantine token"
  show "keeps (presets_inv b M ps)
     (ebind (on_disk (preset_rename (pr_parent item) (pr_name item) ?q)) (\<lambda>_.
     ebind (on_disk (preset_snapshot (pr_parent item) ?q None)) (\<lambda>snapshot.
     if snapshot \<noteq> Some (pr_payload item, installed) then
       ebind (etry (on_disk (preset_rename (pr_parent item) ?q (pr_name item)))) (\<lambda>_.
       eraise (PresetError ''installed preset changed before rollback''))
     else
       ebind (set_item k (\<lambda>item. item\<lparr>pr_installed := None\<rparr>)) (\<lambda>_.
       ebind (restore_backup k) (\<lambda>_.
       on_disk (unlink_owned_at (pr_parent item) ?q installed))))))"
  proof (rule inv_fact [OF keep_rename [OF name]], assumption)
    assume q: "mine M (pr_parent item) ?q"
    have "keeps (presets_inv b M ps) (set_item k (\<lambda>item. item\<lparr>pr_installed := None\<rparr>))"
      by (rule inv_set) (auto simp: preset_safe_def pr_name_def)
    then show "keeps (presets_inv b M ps)
       (ebind (on_disk (preset_snapshot (pr_parent item) ?q None)) (\<lambda>snapshot.
       if snapshot \<noteq> Some (pr_payload item, installed) then
         ebind (etry (on_disk (preset_rename (pr_parent item) ?q (pr_name item)))) (\<lambda>_.
         eraise (PresetError ''installed preset changed before rollback''))
       else
         ebind (set_item k (\<lambda>item. item\<lparr>pr_installed := None\<rparr>)) (\<lambda>_.
         ebind (restore_backup k) (\<lambda>_.
         on_disk (unlink_owned_at (pr_parent item) ?q installed)))))"
      using installed q
      by (intro keep_intros inv_reads inv_on_disk [OF keeps_rename] inv_on_disk [OF keeps_unlink_owned]
          inv_restore_backup k)
  qed
qed

lemma inv_drop_temporary:
  assumes "k < length ps"
  shows "keeps (presets_inv b M ps) (drop_temporary k)"
  unfolding drop_temporary_def
proof (rule inv_with_item [OF assms])
  fix item assume safe: "preset_safe M item"
  have "keeps (presets_inv b M ps) (set_item k (\<lambda>item. item\<lparr>pr_temporary := None\<rparr>))"
    by (rule inv_set) (auto simp: preset_safe_def pr_name_def)
  moreover have "keeps (presets_inv b M ps) (on_disk (unlink_owned_at (pr_parent item) temporary identity))"
    if "pr_temporary item = Some temporary" "pr_temporary_identity item = Some identity" for temporary identity
    by (rule inv_on_disk [OF keeps_unlink_owned]) (use safe that in \<open>auto simp: preset_safe_def\<close>)
  ultimately show "keeps (presets_inv b M ps) (case (pr_temporary item, pr_temporary_identity item) of
       (Some temporary, Some identity) \<Rightarrow>
         ebind (on_disk (unlink_owned_at (pr_parent item) temporary identity)) (\<lambda>_.
         set_item k (\<lambda>item. item\<lparr>pr_temporary := None\<rparr>))
     | _ \<Rightarrow> ereturn ())"
    by (auto intro!: keep_intros split: option.splits)
qed

lemma inv_rollback:
  assumes k: "k < length ps"
  shows "keeps (presets_inv b M ps) (rollback_preset k)"
  unfolding rollback_preset_def
proof (intro inv_with_item [OF k] keeps_bind [OF _ inv_drop_temporary [OF k]])
  fix item assume safe: "preset_safe M item" and fixed: "preset_fixed item = ps ! k"
  have "keeps (presets_inv b M ps) (take_back_installed k i)" if i: "pr_installed item = Some i" for i
  proof (rule inv_take_back [OF k])
    show "fresh i" using safe i by (simp add: preset_safe_def)
    fix item' assume "preset_fixed item' = ps ! k"
    then show "mine M (pr_parent item') (pr_name item')"
      using fixed_eq [of item' item] fixed safe i by (simp add: preset_safe_def)
  qed
  then show "keeps (presets_inv b M ps)
      (case pr_installed item of Some i \<Rightarrow> take_back_installed k i | None \<Rightarrow> restore_backup k)"
    using inv_restore_backup [OF k] by (cases "pr_installed item") auto
qed

lemma inv_cleanup:
  assumes k: "k < length ps"
  shows "keeps (presets_inv False M ps) (cleanup_preset k)"
  unfolding cleanup_preset_def
proof (rule inv_with_item [OF k])
  fix item assume safe: "preset_safe M item"
  have "keeps (presets_inv False M ps) (set_item k (\<lambda>item. item\<lparr>pr_backup := None\<rparr>))"
    by (rule inv_set) (auto simp: preset_safe_def pr_name_def)
  moreover have "keeps (presets_inv False M ps) (on_disk (unlink_owned_at (pr_parent item) backup identity))"
    if "pr_backup item = Some backup" for backup identity
    by (rule inv_on_disk [OF keeps_unlink_owned]) (use safe that in \<open>auto simp: preset_safe_def\<close>)
  ultimately show "keeps (presets_inv False M ps) (case (pr_backup item, pr_original item) of
       (Some backup, Some (_, identity)) \<Rightarrow>
         ebind (on_disk (unlink_owned_at (pr_parent item) backup identity)) (\<lambda>_.
         set_item k (\<lambda>item. item\<lparr>pr_backup := None\<rparr>))
     | _ \<Rightarrow> ereturn ())"
    by (auto intro!: keep_intros split: option.splits)
qed

text \<open>
  What the caller grants: with \<open>--force\<close>, the names of the presets and the backup names may be moved.
\<close>

definition preset_grant :: "bool \<Rightarrow> (ino \<times> string) set \<Rightarrow> string list \<Rightarrow> bool" where
  "preset_grant force M relative =
     (force \<longrightarrow> (\<forall>dir. mine M dir (last relative) \<and> (\<forall>t. mine M dir (preset_backup t))))"

lemma inv_prepare:
  assumes "preset_grant force M (fst job)" and "presets_inv b M ps p"
  shows "wp (prepare_output root_descriptor force job)
    (\<lambda>_ q. \<exists>x. presets_inv b M (ps @ [x]) q \<and> fst x = fst job \<and> fst (snd x) = snd job) (\<lambda>_. presets_inv b M ps) p"
proof -
  obtain relative payload where out: "job = (relative, payload)" by (cases job)
  let ?new = "\<lambda>parent snapshot. \<lparr>pr_relative = relative, pr_payload = payload, pr_parent = parent, pr_original = snapshot,
           pr_temporary = None, pr_temporary_identity = None, pr_backup = None, pr_installed = None\<rparr>"
  let ?Q = "\<lambda>_ q. \<exists>x. presets_inv b M (ps @ [x]) q \<and> fst x = fst job \<and> fst (snd x) = snd job"
  have below: "keeps (presets_inv b M ps) (on_disk (preset_parent_at root_descriptor relative True))"
    unfolding preset_parent_at_def by (rule inv_on_disk [OF keeps_preset_below])
  have added: "wp (add_item (?new parent snapshot)) ?Q (\<lambda>_. presets_inv b M ps) q"
    if "presets_inv b M ps q" "snapshot = None \<or> force" for parent snapshot q
  proof -
    have "preset_safe M (?new parent snapshot)"
      using assms(1) that(2) by (auto simp: preset_safe_def preset_grant_def out pr_name_def)
    then have "presets_inv b M (ps @ [preset_fixed (?new parent snapshot)]) (fst q, snd q @ [?new parent snapshot])"
      using that(1) by (auto simp: presets_inv_def)
    then show ?thesis by (cases q) (auto simp: wp_simps preset_fixed_def out intro!: exI)
  qed
  have checked: "wp (ebind (eguard (\<not> (snapshot \<noteq> None \<and> \<not> force)) (PresetError ''preset already exists'')) (\<lambda>_.
         add_item (?new parent snapshot))) ?Q (\<lambda>_. presets_inv b M ps) q"
    if "presets_inv b M ps q" for parent snapshot q
    using added [OF that, of snapshot parent] that
    by (cases "snapshot = None \<or> force") (simp_all add: wp_bind wp_guard)
  have parent: "wp (ebind (on_disk (sys_fstat parent)) (\<lambda>_.
         ebind (on_disk (preset_snapshot parent (last relative) None)) (\<lambda>snapshot.
         ebind (eguard (\<not> (snapshot \<noteq> None \<and> \<not> force)) (PresetError ''preset already exists'')) (\<lambda>_.
         add_item (?new parent snapshot))))) ?Q (\<lambda>_. presets_inv b M ps) q"
    if q: "presets_inv b M ps q" for parent q
    unfolding wp_bind [of "on_disk (sys_fstat parent)"] wp_bind [of "on_disk (preset_snapshot parent (last relative) None)"]
    by (rule wp_mono [OF keepsD [OF inv_reads(4) q]], rule wp_mono [OF keepsD [OF inv_reads(2)]]) (rule checked | assumption)+
  have found: "wp (case found of
       None \<Rightarrow> eraise (AssertionError ''parent_descriptor is not None'')
     | Some parent \<Rightarrow>
         ebind (on_disk (sys_fstat parent)) (\<lambda>_.
         ebind (on_disk (preset_snapshot parent (last relative) None)) (\<lambda>snapshot.
         ebind (eguard (\<not> (snapshot \<noteq> None \<and> \<not> force)) (PresetError ''preset already exists'')) (\<lambda>_.
         add_item (?new parent snapshot))))) ?Q (\<lambda>_. presets_inv b M ps) q"
    if "presets_inv b M ps q" for found q
    using parent [OF that] that by (cases found) (simp_all only: option.case wp_basic)
  have prog: "prepare_output root_descriptor force job =
      ebind (on_disk (preset_parent_at root_descriptor relative True)) (\<lambda>found. case found of
       None \<Rightarrow> eraise (AssertionError ''parent_descriptor is not None'')
     | Some parent \<Rightarrow>
         ebind (on_disk (sys_fstat parent)) (\<lambda>_.
         ebind (on_disk (preset_snapshot parent (last relative) None)) (\<lambda>snapshot.
         ebind (eguard (\<not> (snapshot \<noteq> None \<and> \<not> force)) (PresetError ''preset already exists'')) (\<lambda>_.
         add_item (?new parent snapshot)))))"
    unfolding prepare_output_def out prod.case ..
  show ?thesis
    unfolding prog wp_bind [of "on_disk (preset_parent_at root_descriptor relative True)"]
    by (rule wp_mono [OF keepsD [OF below assms(2)]]) (rule found | assumption)+
qed

end

context replacing_store
begin

lemma inv_prepare_all:
  assumes "\<And>job. job \<in> set jobs \<Longrightarrow> preset_grant force M (fst job)" and "presets_inv b M ps p"
  shows "wp (efold (\<lambda>job _. prepare_output root_descriptor force job) jobs ())
    (\<lambda>_ q. \<exists>xs. presets_inv b M (ps @ xs) q \<and> map (\<lambda>x. (fst x, fst (snd x))) xs = jobs)
    (\<lambda>_ q. \<exists>ps. presets_inv b M ps q) p"
  using assms
proof (induction jobs arbitrary: ps p)
  case Nil
  then show ?case by (auto simp: wp_simps)
next
  case (Cons job jobs)
  have next_job: "wp (efold (\<lambda>job _. prepare_output root_descriptor force job) jobs ())
      (\<lambda>_ q. \<exists>xs. presets_inv b M (ps @ xs) q \<and> map (\<lambda>x. (fst x, fst (snd x))) xs = job # jobs)
      (\<lambda>_ q. \<exists>ps. presets_inv b M ps q) q"
    if "presets_inv b M (ps @ [x]) q" "fst x = fst job" "fst (snd x) = snd job" for x q
  proof (rule wp_mono [OF Cons.IH [OF _ that(1)]])
    show "\<exists>xs. presets_inv b M (ps @ xs) t \<and> map (\<lambda>x. (fst x, fst (snd x))) xs = job # jobs"
      if "\<exists>xs. presets_inv b M ((ps @ [x]) @ xs) t \<and> map (\<lambda>x. (fst x, fst (snd x))) xs = jobs" for t
    proof -
      from that obtain xs where "presets_inv b M (ps @ x # xs) t" "map (\<lambda>x. (fst x, fst (snd x))) xs = jobs" by auto
      then show ?thesis using \<open>fst x = fst job\<close> \<open>fst (snd x) = snd job\<close> by (intro exI [of _ "x # xs"]) simp
    qed
  qed (use Cons.prems(1) in auto)
  show ?case
    unfolding efold.simps wp_bind
    by (rule wp_mono [OF inv_prepare [OF Cons.prems(1) Cons.prems(2)]]) (use next_job in auto)
qed

lemma inv_transaction:
  assumes "\<And>job. job \<in> set jobs \<Longrightarrow> preset_grant force M (fst job)" and "keep b M d"
  shows "wp (preset_transaction path root_descriptor identity force jobs)
    (\<lambda>_ q. \<exists>ps. presets_inv b M ps q \<and> map (\<lambda>x. (fst x, fst (snd x))) ps = jobs)
    (\<lambda>_ q. \<exists>ps. presets_inv b M ps q) (d, [])"
proof -
  have start: "presets_inv b M [] (d, [])" using assms(2) by (simp add: presets_inv_def)
  have rest: "keeps (presets_inv b M ps)
     (ebind (for_items (allocate_preset 32) [0..<length ps]) (\<lambda>_.
     ebind (for_items publish_preset [0..<length ps]) (\<lambda>_.
     ebind (on_disk (verify_bound_root path root_descriptor identity)) (\<lambda>_.
     for_items (verify_preset root_descriptor) [0..<length ps]))))" for ps
    by (intro keeps_bind keeps_for_items inv_allocate inv_publish inv_verify inv_reads) auto
  have counted: "wp (ebind count_items (\<lambda>n.
     ebind (for_items (allocate_preset 32) [0..<n]) (\<lambda>_.
     ebind (for_items publish_preset [0..<n]) (\<lambda>_.
     ebind (on_disk (verify_bound_root path root_descriptor identity)) (\<lambda>_.
     for_items (verify_preset root_descriptor) [0..<n])))))
     (\<lambda>_. presets_inv b M ps) (\<lambda>_. presets_inv b M ps) q" if "presets_inv b M ps q" for ps q
  proof -
    have "length (snd q) = length ps" using that by (auto simp: presets_inv_def)
    then show ?thesis
      unfolding wp_bind [of count_items] wp_count_items using keepsD [OF rest that] by simp
  qed
  show ?thesis
    unfolding preset_transaction_def wp_bind [of "efold f jobs ()" for f]
  proof (rule wp_mono [OF inv_prepare_all [OF assms(1) start]])
    fix t
    assume "\<exists>xs. presets_inv b M ([] @ xs) t \<and> map (\<lambda>x. (fst x, fst (snd x))) xs = jobs"
    then obtain xs where xs: "presets_inv b M xs t" "map (\<lambda>x. (fst x, fst (snd x))) xs = jobs" by auto
    show "wp (ebind count_items (\<lambda>n.
       ebind (for_items (allocate_preset 32) [0..<n]) (\<lambda>_.
       ebind (for_items publish_preset [0..<n]) (\<lambda>_.
       ebind (on_disk (verify_bound_root path root_descriptor identity)) (\<lambda>_.
       for_items (verify_preset root_descriptor) [0..<n])))))
       (\<lambda>_ q. \<exists>ps. presets_inv b M ps q \<and> map (\<lambda>x. (fst x, fst (snd x))) ps = jobs)
       (\<lambda>_ q. \<exists>ps. presets_inv b M ps q) t"
      by (rule wp_mono [OF counted [OF xs(1)]]) (use xs(2) in blast)+
  qed auto
qed

lemma inv_rollback_all:
  assumes "presets_inv b M ps q"
  shows "wp (rollback_presets e) (\<lambda>_. presets_inv b M ps) (\<lambda>_. presets_inv b M ps) q"
proof -
  have n: "length (snd q) = length ps" using assms by (auto simp: presets_inv_def)
  have "wp (attempt_each rollback_preset (rev [0..<length ps])) (\<lambda>_. presets_inv b M ps) (\<lambda>_ _. False) q"
    by (rule wp_attempt_each [OF inv_rollback assms]) auto
  then show ?thesis
    unfolding rollback_presets_def wp_bind wp_count_items n
    by (rule wp_mono) (auto simp: wp_simps)
qed

lemma inv_cleanup_all:
  assumes "presets_inv False M ps q"
  shows "wp cleanup_presets (\<lambda>_. presets_inv False M ps) (\<lambda>e q. e = CLEANUP_INCOMPLETE \<and> presets_inv False M ps q) q"
proof -
  have n: "length (snd q) = length ps" using assms by (auto simp: presets_inv_def)
  have "wp (attempt_each cleanup_preset [0..<length ps]) (\<lambda>_. presets_inv False M ps) (\<lambda>_ _. False) q"
    by (rule wp_attempt_each [OF inv_cleanup assms]) auto
  then show ?thesis
    unfolding cleanup_presets_def wp_bind wp_count_items n
    by (rule wp_mono) (auto simp: wp_simps)
qed

text \<open>
  A failure leaves every original in its directory, unless only the final removal of the replaced
  originals failed.
\<close>

lemma write_presets_keeps:
  assumes "\<And>job. job \<in> set jobs \<Longrightarrow> preset_grant force M (fst job)" and "keep True M d"
  shows "wp (write_presets path root_descriptor force jobs) (\<lambda>_. keep False M)
    (\<lambda>e. keep (e \<noteq> CLEANUP_INCOMPLETE) M) d"
proof -
  have weaker: "presets_inv b' M ps q" if "presets_inv True M ps q" for b' ps q
    using that keep_weaken [of True M "fst q" M b'] by (simp add: presets_inv_def)
  have disk: "keep b M (fst q)" if "presets_inv b M ps q" for b ps q using that by (simp add: presets_inv_def)
  have clean: "wp cleanup_presets (\<lambda>_ q. keep False M (fst q)) (\<lambda>e q. keep (e \<noteq> CLEANUP_INCOMPLETE) M (fst q)) q"
    if "presets_inv True M ps q" for ps q
    by (rule wp_mono [OF inv_cleanup_all [OF weaker [OF that]]]) (auto dest: disk)
  have undo: "wp (rollback_presets e) (\<lambda>_ q. wp cleanup_presets (\<lambda>_ q. keep False M (fst q)) (\<lambda>e q. keep (e \<noteq> CLEANUP_INCOMPLETE) M (fst q)) q)
      (\<lambda>e q. keep (e \<noteq> CLEANUP_INCOMPLETE) M (fst q)) q" if "presets_inv True M ps q" for e ps q
    by (rule wp_mono [OF inv_rollback_all [OF that]]) (auto intro: clean disk weaker)
  show ?thesis
    unfolding write_presets_def wp_run_items wp_bind wp_catch
    by (rule wp_mono [OF inv_transaction [OF assms]]) (auto intro: clean undo)
qed

end

end
