(* ===== verification/Card_Facts.thy ===== *)
theory Card_Facts
  imports Item_State Replacing_Store
begin

text \<open>
  What the results on both transactions share: files at the ends of paths and what removing an entry
  leaves of them, the conditions a transaction is held to, and the equations that run one on a disk
  where some call fails.
\<close>

section \<open>Files at the ends of paths\<close>

lemma file_below_same: "same_files d t \<Longrightarrow> file_below t i path = file_below d i path"
proof -
  assume s: "same_files d t"
  have "dir_below t i ps = dir_below d i ps" for ps
    using same_files_observe [OF s] by (induction ps arbitrary: i) (auto split: option.splits)
  then show ?thesis unfolding file_below_def same_files_observe(3,5) [OF s] by simp
qed

lemma dir_below_drop:
  assumes "child_node d dir name = Inr (i, n)" and "\<not> is_dir_node n"
  shows "dir_below d r ps = Some j \<Longrightarrow> dir_below (drop_entry dir name d) r ps = Some j"
proof (induction ps arbitrary: r)
  case Nil
  then show ?case by simp
next
  case (Cons p ps)
  then obtain k where k: "entry_of d r p = Some k" "is_dir d k" "dir_below d k ps = Some j"
    by (auto split: option.splits if_splits)
  have i: "entry_of d dir name = Some i" "\<not> is_dir d i" "is_dir d dir"
    using assms by (auto simp: child_node_Inr is_dir_def)
  have "\<not> (r = dir \<and> name_key d p = name_key d name)"
    using k i find_entry_key [of d p name "entries d dir"] by (auto simp: entry_of_def)
  then show ?case using k i Cons.IH by (simp add: entry_of_drop)
qed

lemma unlink_elsewhere:
  assumes f: "file_below d r path = Some b" and key: "name_key d name \<noteq> name_key d (last path)"
  shows "wp (sys_unlink dir name) (\<lambda>_ t. file_below t r path = Some b) (\<lambda>_ t. file_below t r path = Some b) d"
  unfolding sys_unlink_def
proof (rule wp_syscall)
  have c: "file_below (call_made d) r path = Some b" using f file_below_same [OF same_call [of d]] by simp
  then show "file_below (call_made d) r path = Some b" for e .
  show "wp (remove_entry dir name) (\<lambda>_ t. file_below t r path = Some b) (\<lambda>_ t. file_below t r path = Some b) (call_made d)"
  proof (cases "\<exists>i n. child_node (call_made d) dir name = Inr (i, n) \<and> \<not> is_dir_node n")
    case False
    then show ?thesis using c by (auto simp: wp_def remove_entry_def split: sum.splits prod.splits)
  next
    case True
    then obtain i n where i: "child_node (call_made d) dir name = Inr (i, n)" "\<not> is_dir_node n" by blast
    let ?c = "call_made d"
    from c obtain e j where e: "dir_below ?c r (butlast path) = Some e" "entry_of ?c e (last path) = Some j"
      "dk_nodes ?c j = Some (FileNode b)"
      by (auto simp: file_below_def split: option.splits node.splits)
    have "dir_below (drop_entry dir name ?c) r (butlast path) = Some e" by (rule dir_below_drop [OF i e(1)])
    moreover have "entry_of (drop_entry dir name ?c) e (last path) = Some j"
      using e(2) key by (auto simp: entry_of_drop)
    moreover have "dk_nodes (drop_entry dir name ?c) j = Some (FileNode b)"
      by (rule nodes_changed(1) [OF e(3)]) (use i in \<open>auto simp: is_dir_node_def child_node_Inr\<close>)
    ultimately have "file_below (drop_entry dir name ?c) r path = Some b" by (rule file_belowI)
    then show ?thesis using i by (simp add: wp_def remove_entry_def)
  qed
qed

text \<open>Files at the ends of paths, as a condition on the disk; what else is known of each path does not matter.\<close>

definition holds_files :: "ino \<Rightarrow> (string list \<times> byte list \<times> 'x) set \<Rightarrow> disk \<Rightarrow> bool" where
  "holds_files rd X d = (\<forall>x \<in> X. file_below d rd (fst x) = Some (fst (snd x)))"

lemma holds_same: "holds_files rd X d \<Longrightarrow> same_files d t \<Longrightarrow> holds_files rd X t"
  using file_below_same by (simp add: holds_files_def)

lemma reads_holds: "(\<And>s. keeps (same_files s) m) \<Longrightarrow> keeps (holds_files rd X) m"
  by (rule keepsI, rule wpI) (blast intro: holds_same same_after)+

section \<open>What may happen to a card\<close>

text \<open>A disk as a card has it.\<close>

definition wf_card :: "disk \<Rightarrow> bool" where
  "wf_card d = (wf_disk d \<and> entries_bounded d)"

text \<open>What a failed or forced run may not do to a card.\<close>

definition contents_kept :: "disk \<Rightarrow> disk \<Rightarrow> bool" where
  "contents_kept d t = (\<forall>i n. dk_nodes d i = Some n \<longrightarrow> (if is_dir_node n then is_dir t i else dk_nodes t i = Some n))"

definition originals_kept :: "disk \<Rightarrow> disk \<Rightarrow> bool" where
  "originals_kept d t =
     (contents_kept d t \<and> (\<forall>dir name i. entry_of d dir name = Some i \<longrightarrow> (\<exists>m. entry_of t dir m = Some i)))"

definition only_names_changed :: "(string \<Rightarrow> bool) \<Rightarrow> disk \<Rightarrow> disk \<Rightarrow> bool" where
  "only_names_changed N d t =
     (contents_kept d t \<and> (\<forall>dir name i. entry_of d dir name = Some i \<longrightarrow> \<not> N name \<longrightarrow> entry_of t dir name = Some i))"

lemma wp_after: "wp m (\<lambda>_. Q) (\<lambda>_. Q) d \<Longrightarrow> Q (snd (m d))"
  by (auto simp: wp_def split: prod.splits sum.splits)

lemma then_reads:
  assumes "\<And>s. keeps (same_files s) m" and "kept d0 b M s"
    and "\<And>x u. kept d0 b M u \<Longrightarrow> m s = (Inr x, u) \<Longrightarrow> same_files s u \<Longrightarrow> wp (f x) Q E u" and "\<And>e u. kept d0 b M u \<Longrightarrow> E e u"
  shows "wp (ebind m f) Q E s"
proof -
  obtain r u where r: "m s = (r, u)" by (cases "m s")
  have same: "same_files s u" by (rule same_after [OF assms(1) r])
  then have "kept d0 b M u" using kept_same assms(2) by blast
  then show ?thesis using r assms(3,4) same by (cases r) (auto simp: wp_bind wp_def)
qed

section \<open>Running on a disk\<close>

text \<open>Calls on a disk where some call fails.\<close>

lemma syscall_at: "dk_fault d (dk_calls d) = None \<Longrightarrow> syscall act d = act (call_made d)"
  and syscall_down: "dk_fault d (dk_calls d) = Some (e, k) \<Longrightarrow> \<not> truthful e \<Longrightarrow> syscall act d = (Inl (OsErrno e), call_made d)"
  and write_at: "dk_fault d (dk_calls d) = None \<Longrightarrow> sys_write i bs d = store_bytes i bs (call_made d)"
  by (simp_all add: syscall_def sys_write_def call_made_def Let_def)

lemma read_whole_at:
  assumes "dk_fault d (dk_calls d) = None" "dk_fault d (Suc (dk_calls d)) = None"
    and "dk_nodes d i = Some (FileNode bs)" and "length bs < limit" and "bs \<noteq> []" and "length bs \<le> READ_CHUNK"
  shows "read_upto i limit [] d = (Inr bs, call_made (call_made d))"
proof -
  have *: "take (min READ_CHUNK limit) bs = bs" using assms(4,6) by simp
  have l: "dk_fault (call_made e) = dk_fault e" "dk_nodes (call_made e) = dk_nodes e" "dk_calls (call_made e) = Suc (dk_calls e)" for e
    by (simp_all add: call_made_def)
  show ?thesis
    using assms * l
    by (subst read_upto.simps, simp add: ebind_def sys_read_def syscall_at get_state_def ereturn_def, subst read_upto.simps)
      (simp add: ebind_def sys_read_def syscall_at get_state_def ereturn_def)
qed

text \<open>The equations that run a program on a given disk.\<close>

lemmas eval_disk = ebind_def ecatch_def syscall_at syscall_down truthful_def unsupported_sync_def get_state_def call_made_def write_at
  child_node_def entry_of_def find_entry_def entries_def name_key_def casefold_def
  fold_char_def char_code_def is_dir_def is_dir_node_def eguard_def ereturn_def eraise_def elift_def etry_def
  is_link_node_def is_file_node_def node_bytes_def os_errors_as_def ensure_def
  read_whole_at small_chunk sys_listdir_def sys_open_at_def sys_stat_at_def remove_entry_def
  sys_fstat_def sys_sync_def sys_unlink_def sys_create_def sys_rename_noreplace_def move_entry_def add_entry_def drop_entry_def
  put_node_def new_node_def store_bytes_def draw_token_def Let_def rbind_def
  on_disk_def for_items_def count_items_def attempt_each_def
  sys_fchmod_def sys_lstat_def node_at_def resolve_ino_def top_ino_def

end
