(* ===== verification/Preset_Results.thy ===== *)
theory Preset_Results
  imports Preset_Facts Card_Facts
begin

text \<open>
  What the preset tool guarantees on any card, against any system call failure: nothing is lost
  without \<open>--force\<close>, originals survive a failure, only the presets' names are touched, and what a
  successful run leaves at the documented paths.
\<close>

section \<open>What calls that succeed say\<close>

lemma sync_directory_same: "sync_directory i d = (r, t) \<Longrightarrow> same_files d t"
  by (rule same_after [OF reads_sync_directory])

lemma preset_snapshot_Inr:
  assumes "preset_snapshot dir name maximum d = (Inr (Some (bs, i)), t)"
  shows "entry_of d dir name = Some i \<and> dk_nodes d i = Some (FileNode bs)"
proof -
  from assms obtain ok u0 u1 before u2 u3 after u4 where
    0: "preset_name_at dir name d = (Inr ok, u0)" and 1: "sys_open_at dir name u0 = (Inr i, u1)"
    and 2: "sys_fstat i u1 = (Inr before, u2)" and 3: "is_file_node before"
    and 4: "read_upto i (case maximum of None \<Rightarrow> length (node_bytes before) + 1 | Some m \<Rightarrow> m + 1) [] u2 = (Inr bs, u3)"
    and 5: "case maximum of None \<Rightarrow> True | Some m \<Rightarrow> \<not> length bs > m"
    and 6: "sys_fstat i u3 = (Inr after, u4)"
    and 7: "length (node_bytes before) = length (node_bytes after)" "length bs = length (node_bytes after)"
    by (auto simp: preset_snapshot_def res_simps ereturn_def split: if_splits simp del: One_nat_def)
  have s: "same_files d u0" "same_files u0 u1" "same_files u1 u2"
    using same_after [OF reads_preset_name 0] open_at_Inr [OF 1] fstat_Inr [OF 2] by auto
  then have sd: "same_files d u2" using same_files_trans by blast
  have n: "dk_nodes u2 i = Some before" using fstat_Inr [OF 2] by (simp add: same_files_def)
  have "before = FileNode bs"
    by (rule read_file_contents [OF 4 n 3]) (use 5 7 in \<open>simp split: option.splits\<close>)
  moreover have "entry_of d dir name = Some i"
    using open_at_Inr [OF 1] same_files_observe(6) [OF s(1)] by (auto simp: child_node_Inr)
  ultimately show ?thesis using n sd by (simp add: same_files_def)
qed

lemma preset_below_Inr: "preset_below i ps False d = (Inr (Some j), t) \<Longrightarrow> dir_below d i ps = Some j"
proof (induction ps arbitrary: i d)
  case Nil
  then show ?case by (simp add: ereturn_def)
next
  case (Cons part parts)
  from Cons.prems obtain present u0 k n u1 child u2 opened u3 where
    0: "preset_name_at i part d = (Inr present, u0)" and s: "sys_stat_at i part u0 = (Inr (k, n), u1)"
    and o: "sys_open_dir_at i part u1 = (Inr child, u2)" and f: "sys_fstat child u2 = (Inr opened, u3)"
    and r: "preset_below child parts False u3 = (Inr (Some j), t)"
    by (auto simp: res_simps ereturn_def split: if_splits)
  have same: "same_files d u0" "same_files u0 u1" "same_files u1 u2" "same_files u2 u3"
    using same_after [OF reads_preset_name 0] stat_at_Inr [OF s] open_dir_at_Inr [OF o] fstat_Inr [OF f] by auto
  then have d3: "same_files d u3" "same_files d u1" using same_files_trans by blast+
  have "entry_of d i part = Some child" "is_dir d child"
    using open_dir_at_Inr [OF o] same_files_observe [OF d3(2)] by (auto simp: child_node_Inr is_dir_def)
  moreover have "dir_below u3 child parts = dir_below d child parts"
    using same_files_observe [OF d3(1)] by (induction parts arbitrary: child) (auto split: option.splits)
  ultimately show ?case using Cons.IH [OF r] by simp
qed

section \<open>Verified presets\<close>

lemma verify_preset_Inr:
  assumes "verify_preset rd k (d, its) = (Inr (), (t, its'))"
  shows "its' = its \<and> same_files d t \<and> file_below d rd (pr_relative (its ! k)) = Some (pr_payload (its ! k))"
proof -
  let ?item = "its ! k"
  from assms obtain parent u1 node u2 snap u3 where
    1: "preset_parent_at rd (pr_relative ?item) False d = (Inr (Some parent), u1)"
    and 2: "sys_fstat parent u1 = (Inr node, u2)"
    and snap: "preset_snapshot parent (pr_name ?item) None u2 = (Inr snap, u3)"
    and own: "preset_in_place ?item snap"
    and 4: "t = u3" "its' = its"
    by (auto simp: verify_preset_def with_item_def get_items_def on_disk_def res_simps split: option.splits prod.splits)
  from own obtain i where "snap = Some (pr_payload ?item, i)" by (auto simp: preset_in_place_def split: option.splits)
  with snap have 3: "preset_snapshot parent (pr_name ?item) None u2 = (Inr (Some (pr_payload ?item, i)), u3)" by simp
  have s: "same_files d u1" "same_files u1 u2" "same_files u2 u3"
    using same_after [OF reads_preset_parent 1] fstat_Inr [OF 2] same_after [OF reads_preset_snapshot 3] by auto
  then have s2: "same_files d u2" "same_files d u3" using same_files_trans by blast+
  have "dir_below d rd (butlast (pr_relative ?item)) = Some parent"
    using preset_below_Inr 1 by (simp add: preset_parent_at_def)
  moreover have "entry_of d parent (last (pr_relative ?item)) = Some i" "dk_nodes d i = Some (FileNode (pr_payload ?item))"
    using preset_snapshot_Inr [OF 3] same_files_observe [OF s2(1)] by (auto simp: pr_name_def)
  ultimately show ?thesis using 4 s2 file_belowI by blast
qed

lemma verify_presets_Inr:
  "for_items (verify_preset rd) ks (d, its) = (Inr (), (t, its')) \<Longrightarrow>
   its' = its \<and> same_files d t \<and> (\<forall>k \<in> set ks. file_below t rd (pr_relative (its ! k)) = Some (pr_payload (its ! k)))"
proof (induction ks arbitrary: d)
  case Nil
  then show ?case by (auto simp: for_items_def res_simps)
next
  case (Cons k ks)
  then obtain u itsu where 1: "verify_preset rd k (d, its) = (Inr (), (u, itsu))"
    and 2: "for_items (verify_preset rd) ks (u, itsu) = (Inr (), (t, its'))"
    by (auto simp: for_items_def res_simps)
  note v = verify_preset_Inr [OF 1]
  then have r: "its' = its" "same_files u t"
    and ks: "\<forall>k \<in> set ks. file_below t rd (pr_relative (its ! k)) = Some (pr_payload (its ! k))"
    using Cons.IH [of u] 2 by auto
  have dt: "same_files d t" using v r same_files_trans by blast
  then show ?case using v r ks file_below_same [OF dt] by simp
qed

section \<open>Removing the replaced originals\<close>

lemma ends_key: "ends_with ''.json'' name \<Longrightarrow> name_key d (preset_backup token) \<noteq> name_key d name"
proof
  assume e: "ends_with ''.json'' name" and k: "name_key d (preset_backup token) = name_key d name"
  have n: "name \<noteq> []" "last name = CHR ''n''"
  proof -
    from e obtain s where "name = s @ ''.json''" unfolding ends_with_def by (metis append_take_drop_id)
    then show "name \<noteq> []" "last name = CHR ''n''" by simp_all
  qed
  have "last (name_key d (preset_backup token)) = CHR ''l''"
    by (simp add: name_key_def casefold_def preset_backup_def fold_char_def char_code_def)
  moreover have "last (name_key d name) = CHR ''n''"
    using n by (simp add: name_key_def casefold_def last_map fold_char_def char_code_def)
  ultimately show False using k by simp
qed

lemma unlink_backup_files:
  assumes "\<forall>x \<in> X. ends_with ''.json'' (last (fst x))" and "name \<in> range preset_backup"
  shows "keeps (holds_files rd X) (unlink_owned_at dir name i)"
proof -
  have F: "holds_files rd X t" if d: "holds_files rd X d" and r: "sys_unlink dir name d = (r, t)" for d t and r :: "unit res"
  proof -
    have "file_below t rd (fst x) = Some (fst (snd x))" if x: "x \<in> X" for x
    proof -
      have "name_key d name \<noteq> name_key d (last (fst x))" using ends_key assms x by blast
      from wp_result [OF unlink_elsewhere [OF _ this] r] show ?thesis using d x by (simp add: holds_files_def)
    qed
    then show ?thesis by (simp add: holds_files_def)
  qed
  have "keeps (holds_files rd X) (sys_unlink dir name)"
    by (rule keepsI, rule wpI) (auto intro: F)
  then show ?thesis
    unfolding unlink_owned_at_def
    by (intro keeps_bind keeps_case keeps_guard) (auto intro: reads_holds reads_sync_directory reads_calls)
qed

lemma cleanup_keeps_files:
  assumes k: "k < length ps" and json: "\<forall>x \<in> set ps. ends_with ''.json'' (last (fst x))"
  shows "keeps (\<lambda>q. card_files.presets_inv d0 False M ps q \<and> holds_files rd (set ps) (fst q)) (cleanup_preset k)"
proof (rule keepsI)
  fix p assume p: "card_files.presets_inv d0 False M ps p \<and> holds_files rd (set ps) (fst p)"
  let ?F = "\<lambda>q. holds_files rd (set ps) (fst q)"
  let ?item = "snd p ! k"
  have "card_files.preset_safe d0 M ?item"
    using p k by (auto simp: card_files.presets_inv_def list_all_length)
  then have backup: "pr_backup ?item = Some t \<Longrightarrow> t \<in> range preset_backup" for t
    by (simp add: card_files.preset_safe_def)
  have unl: "keeps ?F (on_disk (unlink_owned_at dir t i))" if "t \<in> range preset_backup" for dir t i
    using keeps_on_disk [OF unlink_backup_files [OF json that], where P = "\<lambda>_. True"] by simp
  have set: "keeps ?F (set_item k (\<lambda>item. item\<lparr>pr_backup := None\<rparr>))"
    by (rule keepsI) (auto simp: wp_simps)
  have "keeps ?F (case (pr_backup ?item, pr_original ?item) of
       (Some backup, Some (_, identity)) \<Rightarrow>
         ebind (on_disk (unlink_owned_at (pr_parent ?item) backup identity)) (\<lambda>_.
         set_item k (\<lambda>item. item\<lparr>pr_backup := None\<rparr>))
     | _ \<Rightarrow> ereturn ())"
    using backup by (auto intro!: keep_intros set unl split: option.splits)
  from keepsD [OF this, of p] have A: "wp (cleanup_preset k) (\<lambda>_. ?F) (\<lambda>_. ?F) p"
    using p unfolding cleanup_preset_def wp_with_item by simp
  have "card_files.presets_inv d0 False M ps p" using p by simp
  note B = keepsD [OF card_files.inv_cleanup [OF k] this]
  show "wp (cleanup_preset k) (\<lambda>_ q. card_files.presets_inv d0 False M ps q \<and> holds_files rd (set ps) (fst q))
      (\<lambda>_ q. card_files.presets_inv d0 False M ps q \<and> holds_files rd (set ps) (fst q)) p"
    by (rule wp_mono [OF wp_conj [OF A B]]) auto
qed

section \<open>The command\<close>

definition preset_names :: "disk \<Rightarrow> string \<Rightarrow> (ino \<times> string) set" where
  "preset_names d name = {(dir, key). key = name_key d name \<or> key \<in> name_key d ` range preset_backup}"

lemma grant_names:
  assumes "last rel = name"
  shows "card_files.preset_grant d0 force (if force then preset_names d0 name else {}) rel"
  using assms by (auto simp: card_files.preset_grant_def owned_def preset_names_def)

lemma length_kept:
  "keeps (\<lambda>q. length (snd q) = n) (on_disk m)" "keeps (\<lambda>q. length (snd q) = n) (set_item k f)"
  "(\<And>x. keeps (\<lambda>q. length (snd q) = n) (g x)) \<Longrightarrow> keeps (\<lambda>q. length (snd q) = n) (with_item k g)"
proof -
  show "keeps (\<lambda>q. length (snd q) = n) (on_disk m)"
    by (rule keepsI, rule wpI) (auto simp: on_disk_def split: prod.splits)
  show "keeps (\<lambda>q. length (snd q) = n) (set_item k f)" by (rule keepsI) (auto simp: wp_simps)
  show "(\<And>x. keeps (\<lambda>q. length (snd q) = n) (g x)) \<Longrightarrow> keeps (\<lambda>q. length (snd q) = n) (with_item k g)"
    by (rule keepsI) (auto simp: wp_simps intro: keepsD)
qed

lemma length_steps:
  "keeps (\<lambda>q. length (snd q) = n) (allocate_preset m k)" "keeps (\<lambda>q. length (snd q) = n) (publish_preset k)"
proof -
  show "keeps (\<lambda>q. length (snd q) = n) (allocate_preset m k)"
    by (induction m) (auto simp: fill_temporary_def intro!: keep_intros length_kept)
  show "keeps (\<lambda>q. length (snd q) = n) (publish_preset k)"
    unfolding publish_preset_def move_original_aside_def restore_backup_def
    by (intro keep_intros length_kept)
qed

lemma transaction_verified:
  assumes "preset_transaction path rd identity force jobs (d, []) = (Inr (), (t, its))"
  shows "\<forall>it \<in> set its. file_below t rd (pr_relative it) = Some (pr_payload it)"
proof -
  from assms obtain q0 q1 q2 q3 n where n: "n = length (snd q0)"
    and 1: "for_items (allocate_preset 32) [0..<n] q0 = (Inr (), q1)" and 2: "for_items publish_preset [0..<n] q1 = (Inr (), q2)"
    and 3: "on_disk (verify_bound_root path rd identity) q2 = (Inr (), q3)"
    and 4: "for_items (verify_preset rd) [0..<n] q3 = (Inr (), (t, its))"
    by (auto simp: preset_transaction_def res_simps count_items_def get_items_def)
  have "length (snd q1) = n" using keeps_state [OF keeps_for_items [OF length_steps(1)] _ 1] n by simp
  then have "length (snd q2) = n" using keeps_state [OF keeps_for_items [OF length_steps(2)] _ 2] by simp
  then have "length (snd q3) = n" using keeps_state [OF length_kept(1) _ 3] by simp
  moreover obtain u itsu where "q3 = (u, itsu)" by (cases q3)
  ultimately show ?thesis
    using verify_presets_Inr [of rd "[0..<n]" u itsu t its] 4 by (auto simp: in_set_conv_nth)
qed

lemma rollback_raises: "rollback_presets e q = (Inr x, t) \<Longrightarrow> False"
  by (auto simp: rollback_presets_def res_simps split: if_splits)

lemma write_presets_delivers:
  assumes w: "write_presets path rd force jobs d = (Inr (), t)" and d: "wf_card d"
    and jobs: "\<forall>job \<in> set jobs. last (fst job) = name" and json: "ends_with ''.json'' name"
  shows "\<forall>job \<in> set jobs. file_below t rd (fst job) = Some (snd job)"
proof -
  let ?M = "if force then preset_names d name else {}"
  from w obtain its where run: "ebind (ecatch (preset_transaction path rd rd force jobs) rollback_presets)
      (\<lambda>_. cleanup_presets) (d, []) = (Inr (), (t, its))"
    by (auto simp: write_presets_def run_items_def split: prod.splits)
  then obtain q where q: "ecatch (preset_transaction path rd rd force jobs) rollback_presets (d, []) = (Inr (), q)"
    and c: "cleanup_presets q = (Inr (), (t, its))"
    by (auto simp: res_simps)
  have T: "preset_transaction path rd rd force jobs (d, []) = (Inr (), q)"
  proof -
    obtain r u where Pair: "preset_transaction path rd rd force jobs (d, []) = (r, u)"
      by (cases "preset_transaction path rd rd force jobs (d, [])")
    show ?thesis
    proof (cases r)
      case (Inl e)
      then have "rollback_presets e u = (Inr (), q)" using q Pair by (simp add: ecatch_def)
      then show ?thesis using rollback_raises by blast
    qed (use q Pair in \<open>simp add: ecatch_def\<close>)
  qed
  have k: "kept d True ?M d" using d kept_refl by (simp add: wf_card_def)
  have "wp (preset_transaction path rd rd force jobs)
      (\<lambda>_ q. \<exists>ps. card_files.presets_inv d True ?M ps q \<and> map (\<lambda>x. (fst x, fst (snd x))) ps = jobs)
      (\<lambda>_ q. \<exists>ps. card_files.presets_inv d True ?M ps q) (d, [])"
    by (rule card_files.inv_transaction [OF _ k]) (use jobs grant_names in blast)
  from wp_Inr [OF this T] obtain ps where ps: "card_files.presets_inv d True ?M ps q" "map (\<lambda>x. (fst x, fst (snd x))) ps = jobs"
    by blast
  have inv: "card_files.presets_inv d False ?M ps q"
    using ps(1) kept_weaken [of d True ?M "fst q" ?M False] by (simp add: card_files.presets_inv_def)
  have fixed: "map preset_fixed (snd q) = ps" using ps(1) by (simp add: card_files.presets_inv_def)
  have files: "holds_files rd (set ps) (fst q)"
    using transaction_verified [of path rd rd force jobs d "fst q" "snd q"] T
    by (auto simp: holds_files_def fixed [symmetric] preset_fixed_def)
  have js: "\<forall>x \<in> set ps. ends_with ''.json'' (last (fst x))"
    using jobs json ps(2) by force
  have n: "length (snd q) = length ps" using fixed by auto
  have "wp (attempt_each cleanup_preset [0..<length ps])
      (\<lambda>_ q. card_files.presets_inv d False ?M ps q \<and> holds_files rd (set ps) (fst q)) (\<lambda>_ _. False) q"
    by (rule wp_attempt_each [OF cleanup_keeps_files]) (use js inv files in auto)
  then have "wp cleanup_presets (\<lambda>_ q. holds_files rd (set ps) (fst q)) (\<lambda>_ _. True) q"
    unfolding cleanup_presets_def wp_bind wp_count_items n
    by (rule wp_mono) (auto simp: wp_simps)
  from wp_Inr [OF this c] have "holds_files rd (set ps) t" by simp
  then show ?thesis using ps(2) by (force simp: holds_files_def)
qed

lemma preset_relative_last:
  assumes "preset_relative_path asset = Inr relative"
  shows "relative \<noteq> [] \<and> ends_with ''.json'' (last relative)"
proof -
  from assms obtain parts where p: "canonical_asset_parts asset = Inr parts" "relative = with_suffix ''.json'' parts"
    by (auto simp: preset_relative_path_def res_simps)
  have "parts \<noteq> []" using p(1) by (auto simp: canonical_asset_parts_def res_simps Let_def ASSET_PREFIX_def split: if_splits)
  then show ?thesis using p(2) by (simp add: with_suffix_def ends_with_def)
qed

lemma preset_payloads_Inr:
  assumes "preset_payloads limit fl core_id relative definitions opts expected d = (Inr jobs, t)" and "relative \<noteq> []"
  shows "\<forall>job \<in> set jobs. last (fst job) = last relative"
  using assms by (auto simp: preset_payloads_def res_simps Let_def split: if_splits)

definition preset_file_name :: "string \<Rightarrow> string" where
  "preset_file_name asset = (case preset_relative_path asset of Inr relative \<Rightarrow> last relative | Inl _ \<Rightarrow> [])"

lemma request_names:
  assumes "preset_request limit fl sd_root asset definitions core_id opts er ed d = (Inr (path, rd, jobs), t)"
  shows "\<forall>job \<in> set jobs. last (fst job) = preset_file_name asset"
proof -
  from assms obtain relative u v where r: "Inr relative = preset_relative_path asset"
    and 2: "preset_payloads limit fl core_id relative definitions opts ed u = (Inr jobs, v)"
    by (auto simp: preset_request_def res_simps split: prod.splits)
  from r have 1: "preset_relative_path asset = Inr relative" by simp
  then show ?thesis
    using preset_payloads_Inr [OF 2] preset_relative_last [OF 1] by (simp add: preset_file_name_def)
qed

lemma generate_presets_keeps:
  assumes d: "wf_card d"
  shows "wp (generate_presets limit fl sd_root asset definitions core_id opts force er ed)
    (\<lambda>_. kept d False (if force then preset_names d (preset_file_name asset) else {}))
    (\<lambda>e. kept d (e \<noteq> CLEANUP_INCOMPLETE) (if force then preset_names d (preset_file_name asset) else {})) d"
proof -
  let ?M = "if force then preset_names d (preset_file_name asset) else {}"
  let ?E = "\<lambda>e. kept d (e \<noteq> CLEANUP_INCOMPLETE) ?M"
  have weaker: "kept d b ?M u" if "kept d True ?M u" for b u using kept_weaken [OF that] by blast
  have k: "kept d True ?M d" using d kept_refl by (simp add: wf_card_def)
  have wr: "wp (ebind (write_presets path rd force jobs) (\<lambda>_. ereturn (map (\<lambda>(relative, payload). path @ relative) jobs)))
      (\<lambda>_. kept d False ?M) ?E u"
    if "kept d True ?M u" "\<forall>job \<in> set jobs. last (fst job) = preset_file_name asset" for path rd jobs u
    unfolding wp_bind
    by (rule wp_mono [OF card_files.write_presets_keeps [OF grant_names that(1)]]) (use that(2) in \<open>auto simp: wp_basic\<close>)
  show ?thesis
    unfolding generate_presets_def
    by (rule then_reads [OF reads_request k _ weaker])
      (use wr request_names in \<open>auto split: prod.splits\<close>)
qed

section \<open>Properties\<close>

text \<open>
  C6: Without \<open>--force\<close> the preset tool destroys nothing: for every card, every option and every
  sequence of failing system calls, whether it succeeds or not, every file, link and directory entry
  that existed before exists afterwards, under the same name, on the same inode, with the same contents.
\<close>

theorem unforced_presets_lose_nothing:
  assumes "wf_card d"
  shows "lost_nothing d (snd (generate_presets limit fl sd_root asset definitions core_id opts False er ed d))"
proof -
  have "wp (generate_presets limit fl sd_root asset definitions core_id opts False er ed) (\<lambda>_. lost_nothing d) (\<lambda>_. lost_nothing d) d"
    by (rule wp_mono [OF generate_presets_keeps [OF assms]]) (auto simp: kept_def lost_nothing_def)
  then show ?thesis by (rule wp_after)
qed


text \<open>
  C21: Whatever happens and whatever is forced, entries whose name is neither that of the preset file
  nor one of the tool's backup names lead to the same inode as before, and no existing file's
  contents change.
\<close>

theorem presets_change_their_names_only:
  assumes "wf_card d"
  shows "only_names_changed (\<lambda>name. \<exists>own. name_key d name = name_key d own \<and> (own = preset_file_name asset \<or> own \<in> range preset_backup))
    d (snd (generate_presets limit fl sd_root asset definitions core_id opts force er ed d))" (is "only_names_changed ?N _ _")
proof -
  let ?M = "if force then preset_names d (preset_file_name asset) else {}"
  have K: "only_names_changed ?N d t" if "kept d b ?M t" for b t
  proof -
    have "(dir, name_key d name) \<notin> ?M" if "\<not> ?N name" for dir name
      using that by (auto simp: preset_names_def)
    with that show ?thesis by (simp add: kept_def only_names_changed_def contents_kept_def)
  qed
  have "wp (generate_presets limit fl sd_root asset definitions core_id opts force er ed)
      (\<lambda>_. only_names_changed ?N d) (\<lambda>_. only_names_changed ?N d) d"
    by (rule wp_mono [OF generate_presets_keeps [OF assms]]) (erule K)+
  then show ?thesis by (rule wp_after)
qed

section \<open>Two cards\<close>

text \<open>
  A card with a preset of another tool, the same card with a failure of the rename that moves that preset
  aside, and the equations that run the transaction on them.
\<close>

definition preset_card :: disk where
  "preset_card = \<lparr>dk_nodes = [0 \<mapsto> DirNode [(''a.json'', 1)], 1 \<mapsto> FileNode [9]], dk_next = 2, dk_fold = False,
     dk_calls = 0, dk_fault = (\<lambda>n. None), dk_token = (\<lambda>n. ''0''), dk_drawn = 0\<rparr>"


lemmas eval_presets = eval_disk get_items_def add_item_def set_item_def with_item_def run_items_def
  sync_directory_def preset_name_at_def preset_snapshot_def preset_rename_def unlink_owned_at_def verify_bound_root_def
  preset_parent_at_def preset_temporary_def preset_backup_def preset_quarantine_def prepare_output_def
  fill_temporary_def restore_backup_def move_original_aside_def publish_preset_def verify_preset_def preset_in_place_def preset_transaction_def
  take_back_installed_def drop_temporary_def rollback_preset_def rollback_presets_def cleanup_preset_def cleanup_presets_def
  write_presets_def pr_name_def

lemma preset_card_wf: "wf_card preset_card"
  by (auto simp: wf_card_def wf_disk_def entries_bounded_def preset_card_def entry_of_def entries_def find_entry_def name_key_def split: if_splits)

lemma preset_card_run: "fst (write_presets [] 0 True [([''a.json''], [1])] preset_card) = Inr ()"
  by (simp add: preset_card_def eval_presets numeral_eq_Suc)

section \<open>The properties on these cards\<close>

lemma unforced_presets_lose_nothing_witness:
  "lost_nothing preset_card (snd (generate_presets 100 (\<lambda>_. ''0'') [] ''game.wsc'' [] ''core''
     default_options False None None preset_card))"
  by (rule unforced_presets_lose_nothing [OF preset_card_wf])

lemma presets_change_their_names_only_witness:
  "only_names_changed (\<lambda>name. \<exists>own. name_key preset_card name = name_key preset_card own \<and>
       (own = preset_file_name ''game.wsc'' \<or> own \<in> range preset_backup)) preset_card
     (snd (generate_presets 100 (\<lambda>_. ''0'') [] ''game.wsc'' [] ''core''
       default_options True None None preset_card))"
  by (rule presets_change_their_names_only [OF preset_card_wf])

text \<open>
  C7: After a successful transaction every preset is on the card: the documented path below the root
  leads to a regular file with exactly the bytes built for it, and the removal of the replaced originals
  that follows the verification does not disturb it.
\<close>

theorem presets_delivered:
  assumes "write_presets path rd force jobs d = (Inr (), t)" and "wf_card d"
    and "\<forall>job \<in> set jobs. last (fst job) = name" and "ends_with ''.json'' name"
  shows "\<forall>job \<in> set jobs. file_below t rd (fst job) = Some (snd job)"
  by (rule write_presets_delivers [OF assms])

lemma presets_delivered_witness:
  "file_below (snd (write_presets [] 0 True [([''a.json''], [1])] preset_card)) 0 [''a.json''] = Some [1]"
proof -
  have r: "write_presets [] 0 True [([''a.json''], [1])] preset_card
      = (Inr (), snd (write_presets [] 0 True [([''a.json''], [1])] preset_card))"
    using preset_card_run by (simp add: prod_eq_iff)
  from presets_delivered [OF r preset_card_wf, of "''a.json''"] show ?thesis by (simp add: ends_with_def)
qed




end
