(* ===== verification/Preset_Document_Facts.thy ===== *)
theory Preset_Document_Facts
  imports Preset_Documents
begin

text \<open>
  What the preset documents are: which defaults a generated document changes, that a written document is
  again a definition the tool accepts, where presets go, and which exceptions leave the builder.
\<close>

section \<open>What is written can be read\<close>

lemma dict_of_distinct: "distinct (map fst ps) \<Longrightarrow> dict_of_pairs ps = ps"
proof -
  assume d: "distinct (map fst ps)"
  have "map_of (rev ps) = map_of ps" using d by (subst map_of_inject_set) (simp_all add: rev_map [symmetric])
  moreover have "rev (remdups (rev (map fst ps))) = map fst ps" using d by (simp add: distinct_remdups_id)
  moreover have "map (\<lambda>k. (k, the (map_of ps k))) (map fst ps) = ps"
    using d by (auto simp: comp_def intro!: map_idI)
  ultimately show ?thesis by (simp add: dict_of_pairs_def)
qed

lemma default_object_hook: "object_hook default_hook"
  by (simp add: object_hook_def default_hook_def dict_of_distinct)

lemma text_bytes_text: "text_of_bytes (bytes_of_text s) = s"
  by (induction s) (auto simp: text_of_bytes_def bytes_of_text_def char_code_def unat_of_nat)

lemma json_bytes_parsed:
  assumes "json_bytes fl envelope body = Inr bs" and "plain_json (JObj [(envelope, JObj body)])"
  shows "parse_definition bs = Inr (JObj [(envelope, JObj body)])"
proof -
  let ?s = "dumps fl 0 (JObj [(envelope, JObj body)]) @ [CHR 0x0A]"
  have "utf8_valid ?s" "bs = bytes_of_text ?s"
    using assms(1) by (auto simp: json_bytes_def Let_def simp del: dumps.simps split: if_splits)
  then show ?thesis
    using loads_dumps [OF assms(2) default_object_hook]
    by (simp add: parse_definition_def text_bytes_text Let_def del: dumps.simps)
qed

section \<open>What the Interact document changes\<close>

lemma set_member_map: "map_of (set_member ms key v) = (map_of ms)(key \<mapsto> v)"
  by (induction ms key v rule: set_member.induct) (auto simp: fun_eq_iff)

lemma jget_set_member: "jget (set_member ms key v) k = (if k = key then v else jget ms k)"
  by (simp add: jget_def set_member_map)

lemma set_member_twice: "set_member (set_member ms key v) key w = set_member ms key w"
  by (induction ms key v rule: set_member.induct) auto

definition members_of :: "json \<Rightarrow> json_object" where
  "members_of j = (case j of JObj ms \<Rightarrow> ms | _ \<Rightarrow> [])"

definition is_object :: "json \<Rightarrow> bool" where
  "is_object j = (case j of JObj _ \<Rightarrow> True | _ \<Rightarrow> False)"

lemma object_simps [simp]:
  "members_of (JObj ms) = ms" "is_object (JObj ms)" "is_object j \<Longrightarrow> JObj (members_of j) = j"
  by (auto simp: members_of_def is_object_def split: json.splits)

definition setting_index :: "(int \<times> nat) list \<Rightarrow> setting \<Rightarrow> nat" where
  "setting_index by_id = (\<lambda>(name, identifier, kind, address, permitted). the (map_of by_id identifier))"

definition setting_value :: "(string \<times> int) list \<Rightarrow> setting \<Rightarrow> int" where
  "setting_value selected = (\<lambda>(name, _). the (map_of selected name))"

definition setting_ok :: "(string \<times> int) list \<Rightarrow> (int \<times> nat) list \<Rightarrow> setting \<Rightarrow> json \<Rightarrow> bool" where
  "setting_ok selected by_id = (\<lambda>(name, identifier, kind, address, permitted) j.
     map_of by_id identifier \<noteq> None \<and> is_object j
     \<and> check_variable (members_of j) kind address permitted = Inr ()
     \<and> (\<exists>n. map_of selected name = Some n \<and> n \<in> set permitted))"

definition chosen :: "(string \<times> int) list \<Rightarrow> setting \<Rightarrow> json \<Rightarrow> json" where
  "chosen selected s j = JObj (set_member (members_of j) ''defaultval'' (JInt (setting_value selected s)))"

lemma apply_setting_Inr:
  "apply_setting selected by_id s v = Inr w \<longleftrightarrow>
     setting_ok selected by_id s (v ! setting_index by_id s)
     \<and> w = v[setting_index by_id s := chosen selected s (v ! setting_index by_id s)]"
proof -
  obtain name ident kind address permitted where s: "s = (name, ident, kind, address, permitted)"
    by (cases s) auto
  show ?thesis
    by (cases "map_of by_id ident")
      (auto simp: s apply_setting_def setting_ok_def setting_index_def setting_value_def chosen_def is_object_def
        res_simps split: option.splits json.splits if_splits)
qed

definition apply_all :: "(string \<times> int) list \<Rightarrow> (int \<times> nat) list \<Rightarrow> setting list \<Rightarrow> json list \<Rightarrow> json list" where
  "apply_all selected by_id S v =
     fold (\<lambda>s w. w[setting_index by_id s := chosen selected s (w ! setting_index by_id s)]) S v"

lemma apply_all_length [simp]: "length (apply_all selected by_id S v) = length v"
  unfolding apply_all_def by (induction S arbitrary: v) auto

lemma apply_all_other:
  "k \<notin> setting_index by_id ` set S \<Longrightarrow> apply_all selected by_id S v ! k = v ! k"
  unfolding apply_all_def by (induction S arbitrary: v) auto

lemma apply_all_at:
  "distinct (map (setting_index by_id) S) \<Longrightarrow> s \<in> set S \<Longrightarrow> setting_index by_id s < length v \<Longrightarrow>
   apply_all selected by_id S v ! setting_index by_id s = chosen selected s (v ! setting_index by_id s)"
proof (induction S arbitrary: v)
  case (Cons x S)
  let ?v = "v[setting_index by_id x := chosen selected x (v ! setting_index by_id x)]"
  have step: "apply_all selected by_id (x # S) v = apply_all selected by_id S ?v" by (simp add: apply_all_def)
  show ?case
  proof (cases "s = x")
    case True
    then show ?thesis using Cons.prems apply_all_other [of "setting_index by_id s" by_id S selected ?v]
      by (simp add: step)
  next
    case False
    then have "setting_index by_id x \<noteq> setting_index by_id s" using Cons.prems by auto
    then show ?thesis using Cons.IH [of ?v] Cons.prems False by (simp add: step)
  qed
qed simp

lemma apply_settings_Inr:
  assumes "distinct (map (setting_index by_id) S)"
  shows "fold_res (apply_setting selected by_id) S v = Inr w \<longleftrightarrow>
    (\<forall>s \<in> set S. setting_ok selected by_id s (v ! setting_index by_id s)) \<and> w = apply_all selected by_id S v"
  using assms
proof (induction S arbitrary: v)
  case Nil
  then show ?case by (auto simp: apply_all_def)
next
  case (Cons s S)
  let ?v = "v[setting_index by_id s := chosen selected s (v ! setting_index by_id s)]"
  have "?v ! setting_index by_id t = v ! setting_index by_id t" if "t \<in> set S" for t
    using Cons.prems that by (intro nth_list_update_neq) force
  then show ?case
    using Cons.IH [of ?v] Cons.prems by (auto simp: res_simps apply_setting_Inr apply_all_def)
qed

text \<open>The variables by ID: distinct IDs, at the positions of the list.\<close>

lemma add_variable_Inr:
  "add_variable (k, j) seen = Inr seen' \<longleftrightarrow>
     (\<exists>i. is_object j \<and> jget (members_of j) ''id'' = JInt i \<and> i \<notin> fst ` set seen \<and> seen' = seen @ [(i, k)])"
  by (auto simp: add_variable_def is_object_def split: json.splits if_splits)

lemma add_variables_Inr:
  "fold_res add_variable (enumerate m vs) seen = Inr seen' \<longleftrightarrow>
     (\<exists>ids. list_all2 (\<lambda>j i. is_object j \<and> jget (members_of j) ''id'' = JInt i) vs ids
        \<and> distinct ids \<and> set ids \<inter> fst ` set seen = {} \<and> seen' = seen @ zip ids [m..<m + length vs])"
proof (induction vs arbitrary: m seen)
  case Nil
  then show ?case by auto
next
  case (Cons v vs)
  have zips: "seen @ zip (i # ids) [m..<m + length (v # vs)] = (seen @ [(i, m)]) @ zip ids [Suc m..<Suc m + length vs]" for i ids
    by (simp add: upt_conv_Cons del: upt_Suc)
  let ?P = "\<lambda>j i. is_object j \<and> jget (members_of j) ''id'' = JInt i"
  have fresh: "(i \<notin> fst ` set seen \<and> distinct ids \<and> set ids \<inter> fst ` set (seen @ [(i, m)]) = {}) =
      (distinct (i # ids) \<and> set (i # ids) \<inter> fst ` set seen = {})" for i ids
    by auto
  have "fold_res add_variable (enumerate m (v # vs)) seen = Inr seen' \<longleftrightarrow>
      (\<exists>i. ?P v i \<and> i \<notin> fst ` set seen \<and> fold_res add_variable (enumerate (Suc m) vs) (seen @ [(i, m)]) = Inr seen')"
    by (auto simp: rbind_eq_Inr add_variable_Inr)
  also have "\<dots> \<longleftrightarrow> (\<exists>i ids. ?P v i \<and> list_all2 ?P vs ids \<and> (i \<notin> fst ` set seen \<and> distinct ids
      \<and> set ids \<inter> fst ` set (seen @ [(i, m)]) = {}) \<and> seen' = seen @ zip (i # ids) [m..<m + length (v # vs)])"
    unfolding Cons.IH zips by blast
  also have "\<dots> \<longleftrightarrow> (\<exists>ids. list_all2 ?P (v # vs) ids \<and> distinct ids \<and> set ids \<inter> fst ` set seen = {}
      \<and> seen' = seen @ zip ids [m..<m + length (v # vs)])"
    unfolding fresh list_all2_Cons1 by blast
  finally show ?case .
qed

lemma settings_present:
  "fold_res (apply_setting selected by_id) S v = Inr w \<Longrightarrow> \<forall>s \<in> set S. map_of by_id (fst (snd s)) \<noteq> None"
  by (induction S arbitrary: v) (auto simp: res_simps apply_setting_Inr setting_ok_def)

lemma variables_by_id_Inr:
  "variables_by_id body = Inr (vs, by_id) \<longleftrightarrow>
     jget body ''variables'' = JList vs \<and>
     (\<exists>ids. list_all2 (\<lambda>j i. is_object j \<and> jget (members_of j) ''id'' = JInt i) vs ids
        \<and> distinct ids \<and> by_id = zip ids [0..<length vs])"
  by (auto simp: variables_by_id_def res_simps add_variables_Inr split: json.splits)

text \<open>The settings of the contract have different positions, each with the variable of its ID.\<close>

lemma setting_positions:
  assumes by_id: "variables_by_id body = Inr (vs, by_id)"
    and present: "\<forall>s \<in> set S. map_of by_id (fst (snd s)) \<noteq> None"
    and ids: "distinct (map (\<lambda>s. fst (snd s)) S)"
  shows "distinct (map (setting_index by_id) S)" "\<And>s. s \<in> set S \<Longrightarrow> setting_index by_id s < length vs"
proof -
  obtain ks where ks: "by_id = zip ks [0..<length vs]" "length ks = length vs" "distinct ks"
    using by_id by (auto simp: variables_by_id_Inr list_all2_iff)
  have at: "k < length vs \<and> ks ! k = i" if "map_of by_id i = Some k" for i k
    using map_of_SomeD [OF that] ks by (auto simp: in_set_zip)
  have found: "map_of by_id (fst (snd s)) = Some (setting_index by_id s)" if "s \<in> set S" for s
    using bspec [OF present that] by (cases s) (auto simp: setting_index_def)
  then show "setting_index by_id s < length vs" if "s \<in> set S" for s
    using at that by blast
  have same: "fst (snd s) = fst (snd t)"
    if "s \<in> set S" "t \<in> set S" "setting_index by_id s = setting_index by_id t" for s t
    using at [OF found [OF that(1)]] at [OF found [OF that(2)]] that(3) by simp
  have "distinct S" and inj: "inj_on (\<lambda>s. fst (snd s)) (set S)"
    using ids by (simp_all add: distinct_map)
  moreover have "inj_on (setting_index by_id) (set S)"
    by (rule inj_onI) (rule inj_onD [OF inj]; use same in blast)
  ultimately show "distinct (map (setting_index by_id) S)"
    by (simp add: distinct_map)
qed

lemma contract_ids: "distinct (map (\<lambda>s. fst (snd s)) SETTING_CONTRACT)"
  by (simp add: SETTING_CONTRACT_def)

lemma generated_document_Inr:
  "generated_document opts body = Inr out \<longleftrightarrow>
     (\<exists>vs by_id selected. variables_by_id body = Inr (vs, by_id) \<and> selected_values opts = Inr selected
        \<and> \<not> (po_orientation opts = ''vertical'' \<and> po_landscape_180 opts = ''on'')
        \<and> distinct (map (setting_index by_id) SETTING_CONTRACT)
        \<and> (\<forall>s \<in> set SETTING_CONTRACT. setting_index by_id s < length vs
             \<and> setting_ok selected by_id s (vs ! setting_index by_id s))
        \<and> out = set_member body ''variables'' (JList (apply_all selected by_id SETTING_CONTRACT vs)))" (is "?L \<longleftrightarrow> ?R")
proof
  assume ?L
  then obtain vs by_id selected w where 1: "variables_by_id body = Inr (vs, by_id)" "selected_values opts = Inr selected"
    and 2: "\<not> (po_orientation opts = ''vertical'' \<and> po_landscape_180 opts = ''on'')"
    and 3: "fold_res (apply_setting selected by_id) SETTING_CONTRACT vs = Inr w"
    and 4: "out = set_member body ''variables'' (JList w)"
    by (auto simp: generated_document_def rbind_eq_Inr split: if_splits)
  note pos = setting_positions [OF 1(1) settings_present [OF 3] contract_ids]
  have "(\<forall>s \<in> set SETTING_CONTRACT. setting_ok selected by_id s (vs ! setting_index by_id s))
      \<and> w = apply_all selected by_id SETTING_CONTRACT vs"
    using apply_settings_Inr [OF pos(1), THEN iffD1, OF 3] .
  with 1 2 4 pos show ?R by (intro exI [of _ vs] exI [of _ by_id] exI [of _ selected]) simp
next
  assume ?R
  then obtain vs by_id selected where 1: "variables_by_id body = Inr (vs, by_id)" "selected_values opts = Inr selected"
    and 2: "\<not> (po_orientation opts = ''vertical'' \<and> po_landscape_180 opts = ''on'')"
    and 3: "distinct (map (setting_index by_id) SETTING_CONTRACT)"
      "\<forall>s \<in> set SETTING_CONTRACT. setting_ok selected by_id s (vs ! setting_index by_id s)"
    and 4: "out = set_member body ''variables'' (JList (apply_all selected by_id SETTING_CONTRACT vs))"
    by blast
  have "fold_res (apply_setting selected by_id) SETTING_CONTRACT vs = Inr (apply_all selected by_id SETTING_CONTRACT vs)"
    using 3 by (simp only: apply_settings_Inr [OF 3(1)] simp_thms)
  then show ?L using 1 2 4 by (simp add: generated_document_def)
qed

lemma chosen_members: "is_object j \<Longrightarrow> members_of (chosen selected s j) = set_member (members_of j) ''defaultval'' (JInt (setting_value selected s))"
  by (simp add: chosen_def)

lemma chosen_twice: "chosen selected2 s (chosen selected1 s j) = chosen selected2 s j"
  by (simp add: chosen_def set_member_twice)

lemma check_variable_set:
  assumes "check_variable ms kind address permitted = Inr ()" and "n \<in> set permitted"
  shows "check_variable (set_member ms ''defaultval'' (JInt n)) kind address permitted = Inr ()"
proof -
  have "in_ints (JInt n) permitted = Inr True"
    using assms(2) by (auto simp: in_ints_def hashable_def equals_int_def json_num_def list_ex_iff)
  moreover have "check_option_values (set_member ms ''defaultval'' (JInt n)) permitted = check_option_values ms permitted"
    by (simp add: check_option_values_def jget_set_member)
  ultimately show ?thesis
    using assms(1) by (auto simp: check_variable_def jget_set_member set_member_map rbind_eq_Inr split: if_splits)
qed

lemma setting_ok_chosen:
  assumes "setting_ok selected1 by_id s j" and "setting_ok selected2 by_id s j"
  shows "setting_ok selected2 by_id s (chosen selected1 s j)"
proof -
  obtain name ident kind address permitted where s: "s = (name, ident, kind, address, permitted)" by (cases s) auto
  obtain n where n: "map_of selected1 name = Some n" "n \<in> set permitted"
    using assms(1) by (auto simp: setting_ok_def s)
  have "check_variable (members_of j) kind address permitted = Inr ()" using assms(1) by (simp add: setting_ok_def s)
  from check_variable_set [OF this n(2)] show ?thesis
    using assms(2) n(1) by (simp add: setting_ok_def chosen_def setting_value_def s)
qed

lemma apply_all_nth:
  assumes "distinct (map (setting_index by_id) S)" and "k < length v"
  shows "(\<exists>s \<in> set S. setting_index by_id s = k \<and> apply_all selected by_id S v ! k = chosen selected s (v ! k))
    \<or> (k \<notin> setting_index by_id ` set S \<and> apply_all selected by_id S v ! k = v ! k)"
proof (cases "k \<in> setting_index by_id ` set S")
  case True
  then obtain s where s: "s \<in> set S" "setting_index by_id s = k" by auto
  then have "apply_all selected by_id S v ! k = chosen selected s (v ! k)"
    using apply_all_at [OF assms(1) s(1), of v selected] assms(2) by simp
  then show ?thesis using s by (intro disjI1 bexI [of _ s]) simp_all
next
  case False
  then show ?thesis by (simp add: apply_all_other)
qed

text \<open>
  A generated document differs from the definition in the chosen defaults alone: generating one for other
  options from it gives the document that generating it from the core's definition gives.
\<close>

lemma document_regenerates:
  assumes "generated_document opts1 body = Inr out1" and "generated_document opts2 body = Inr out2"
  shows "generated_document opts2 out1 = Inr out2"
proof -
  obtain vs by_id sel1 where 1: "variables_by_id body = Inr (vs, by_id)"
    and d: "distinct (map (setting_index by_id) SETTING_CONTRACT)"
    and ok1: "\<forall>s \<in> set SETTING_CONTRACT. setting_index by_id s < length vs \<and> setting_ok sel1 by_id s (vs ! setting_index by_id s)"
    and o1: "out1 = set_member body ''variables'' (JList (apply_all sel1 by_id SETTING_CONTRACT vs))"
    using assms(1) unfolding generated_document_Inr by blast
  obtain sel2 where 2: "selected_values opts2 = Inr sel2" "\<not> (po_orientation opts2 = ''vertical'' \<and> po_landscape_180 opts2 = ''on'')"
    and ok2: "\<forall>s \<in> set SETTING_CONTRACT. setting_ok sel2 by_id s (vs ! setting_index by_id s)"
    and o2: "out2 = set_member body ''variables'' (JList (apply_all sel2 by_id SETTING_CONTRACT vs))"
    using assms(2) 1 unfolding generated_document_Inr by fastforce
  let ?v1 = "apply_all sel1 by_id SETTING_CONTRACT vs"
  note nth1 = apply_all_nth [OF d, of _ vs sel1]
  obtain ids where ids: "list_all2 (\<lambda>j i. is_object j \<and> jget (members_of j) ''id'' = JInt i) vs ids"
    "distinct ids" "by_id = zip ids [0..<length vs]"
    using 1 unfolding variables_by_id_Inr by blast
  have "list_all2 (\<lambda>j i. is_object j \<and> jget (members_of j) ''id'' = JInt i) ?v1 ids"
  proof (rule list_all2_all_nthI)
    show "length ?v1 = length ids" using list_all2_lengthD [OF ids(1)] by simp
    fix k assume k: "k < length ?v1"
    then have P: "is_object (vs ! k)" "jget (members_of (vs ! k)) ''id'' = JInt (ids ! k)"
      using list_all2_nthD [OF ids(1)] by auto
    have "?v1 ! k = vs ! k \<or> (\<exists>s. ?v1 ! k = chosen sel1 s (vs ! k))" using nth1 k by fastforce
    then show "is_object (?v1 ! k) \<and> jget (members_of (?v1 ! k)) ''id'' = JInt (ids ! k)"
      using P by (auto simp: chosen_def jget_set_member)
  qed
  then have by1: "variables_by_id out1 = Inr (?v1, by_id)"
    unfolding variables_by_id_Inr o1 jget_set_member using ids by auto
  have "setting_ok sel2 by_id s (?v1 ! setting_index by_id s)" if "s \<in> set SETTING_CONTRACT" for s
    using apply_all_at [OF d that] ok1 ok2 that setting_ok_chosen by simp
  moreover have "apply_all sel2 by_id SETTING_CONTRACT ?v1 = apply_all sel2 by_id SETTING_CONTRACT vs"
  proof (rule nth_equalityI)
    fix k assume "k < length (apply_all sel2 by_id SETTING_CONTRACT ?v1)"
    then have k: "k < length vs" by simp
    show "apply_all sel2 by_id SETTING_CONTRACT ?v1 ! k = apply_all sel2 by_id SETTING_CONTRACT vs ! k"
    proof (cases "k \<in> setting_index by_id ` set SETTING_CONTRACT")
      case True
      then obtain s where s: "s \<in> set SETTING_CONTRACT" "k = setting_index by_id s" by blast
      show ?thesis using k s apply_all_at [OF d s(1)] by (simp add: chosen_twice)
    next
      case False
      then show ?thesis by (simp add: apply_all_other)
    qed
  qed simp
  ultimately show ?thesis
    unfolding generated_document_Inr using by1 2 d ok1 o1 o2 by (auto simp: set_member_twice)
qed


section \<open>Presets of a sample definition\<close>

definition sample_variable :: "setting \<Rightarrow> json" where
  "sample_variable = (\<lambda>(name, identifier, kind, address, permitted).
     JObj ([(''id'', JInt identifier), (''type'', JStr kind), (''address'', JStr address), (''persist'', JBool True),
         (''defaultval'', JInt 0)] @
       (if kind = ''list'' then [(''options'', JList (map (\<lambda>v. JObj [(''value'', JInt v)]) permitted))]
        else [(''value'', JInt 1)])))"

definition sample_body :: json_object where
  "sample_body = [(''magic'', JStr ''APF_VER_1''), (''variables'', JList (map sample_variable SETTING_CONTRACT))]"

definition vertical_options :: preset_options where
  "vertical_options = default_options\<lparr>po_orientation := ''vertical''\<rparr>"

lemma sample_documents:
  "\<not> isl (generated_document default_options sample_body)" "\<not> isl (generated_document vertical_options sample_body)"
  by code_simp+

lemma set_member_keys: "map fst (set_member ms key v) = map fst ms @ (if key \<in> fst ` set ms then [] else [key])"
  by (induction ms key v rule: set_member.induct) auto

lemma set_member_plain: "plain_json (JObj ms) \<Longrightarrow> plain_json v \<Longrightarrow> plain_json (JObj (set_member ms key v))"
proof -
  assume m: "plain_json (JObj ms)" and v: "plain_json v"
  have "list_all (\<lambda>(k, j). plain_json j) (set_member ms key v)"
    using m v by (induction ms key v rule: set_member.induct) auto
  moreover have "distinct (map fst (set_member ms key v))" using m unfolding set_member_keys by auto
  ultimately show ?thesis by simp
qed

lemma apply_all_plain: "list_all plain_json vs \<Longrightarrow> (\<forall>s \<in> set S. is_object (vs ! setting_index by_id s)) \<Longrightarrow>
  distinct (map (setting_index by_id) S) \<Longrightarrow> (\<forall>s \<in> set S. setting_index by_id s < length vs) \<Longrightarrow>
  list_all plain_json (apply_all selected by_id S vs)"
proof (rule list_all_length [THEN iffD2], intro allI impI)
  fix k
  assume all: "list_all plain_json vs" and obj: "\<forall>s \<in> set S. is_object (vs ! setting_index by_id s)"
    and d: "distinct (map (setting_index by_id) S)" and k: "k < length (apply_all selected by_id S vs)"
  have plain: "plain_json (vs ! k)" using all k by (simp add: list_all_length)
  have chosen: "plain_json (chosen selected s (vs ! k))" if "s \<in> set S" "setting_index by_id s = k" for s
  proof -
    have "plain_json (JObj (members_of (vs ! k)))" using obj that plain by force
    then show ?thesis unfolding chosen_def by (rule set_member_plain) simp
  qed
  show "plain_json (apply_all selected by_id S vs ! k)"
    using apply_all_nth [OF d, of k vs selected] k plain chosen by fastforce
qed

lemma generated_document_plain:
  assumes "generated_document opts body = Inr out" and "plain_json (JObj body)"
  shows "plain_json (JObj out)"
proof -
  obtain vs by_id selected where 1: "variables_by_id body = Inr (vs, by_id)"
    and d: "distinct (map (setting_index by_id) SETTING_CONTRACT)"
    and ok: "\<forall>s \<in> set SETTING_CONTRACT. setting_index by_id s < length vs \<and> setting_ok selected by_id s (vs ! setting_index by_id s)"
    and o: "out = set_member body ''variables'' (JList (apply_all selected by_id SETTING_CONTRACT vs))"
    using assms(1) unfolding generated_document_Inr by blast
  have "map_of body ''variables'' = Some (JList vs)"
    using 1 by (auto simp: variables_by_id_Inr jget_def split: option.splits)
  then have "list_all plain_json vs" using assms(2) map_of_SomeD by (fastforce simp: list_all_iff)
  moreover have "\<forall>s \<in> set SETTING_CONTRACT. is_object (vs ! setting_index by_id s)"
    using ok by (auto simp: setting_ok_def)
  ultimately have "list_all plain_json (apply_all selected by_id SETTING_CONTRACT vs)"
    using d ok by (intro apply_all_plain) auto
  then show ?thesis unfolding o by (intro set_member_plain [OF assms(2)]) simp
qed

text \<open>A generated document is nested no more deeply than the definition.\<close>

lemma nested_set_member:
  "list_all (\<lambda>(k, j). nested_within n j) ms \<Longrightarrow> nested_within n v \<Longrightarrow> list_all (\<lambda>(k, j). nested_within n j) (set_member ms key v)"
  by (induction ms key v rule: set_member.induct) auto

lemma chosen_nested: "is_object j \<Longrightarrow> nested_within n j \<Longrightarrow> nested_within n (chosen selected s j)"
  using nested_set_member by (cases j) (auto simp: chosen_def is_object_def)

lemma generated_nested:
  assumes "generated_document opts body = Inr out" and "nested_within n (JObj body)"
  shows "nested_within n (JObj out)"
proof -
  obtain vs by_id selected where 1: "variables_by_id body = Inr (vs, by_id)"
    and d: "distinct (map (setting_index by_id) SETTING_CONTRACT)"
    and ok: "\<forall>s \<in> set SETTING_CONTRACT. setting_index by_id s < length vs \<and> setting_ok selected by_id s (vs ! setting_index by_id s)"
    and o: "out = set_member body ''variables'' (JList (apply_all selected by_id SETTING_CONTRACT vs))"
    using assms(1) unfolding generated_document_Inr by blast
  have "map_of body ''variables'' = Some (JList vs)"
    using 1 by (auto simp: variables_by_id_Inr jget_def split: option.splits)
  then have "nested_within (n - 1) (JList vs)" using assms(2) map_of_SomeD by (fastforce simp: list_all_iff)
  then have vs: "0 < n - 1" "list_all (nested_within (n - 1 - 1)) vs" by simp_all
  have "nested_within (n - 1 - 1) (apply_all selected by_id SETTING_CONTRACT vs ! k)" if "k < length vs" for k
  proof -
    have "nested_within (n - 1 - 1) (vs ! k)" using vs(2) that by (simp add: list_all_length)
    moreover have "is_object (vs ! k)" if "s \<in> set SETTING_CONTRACT" "setting_index by_id s = k" for s
      using ok that by (auto simp: setting_ok_def)
    ultimately show ?thesis using apply_all_nth [OF d that, of selected] chosen_nested by metis
  qed
  then have "nested_within (n - 1) (JList (apply_all selected by_id SETTING_CONTRACT vs))"
    using vs(1) by (simp add: list_all_length)
  then show ?thesis using assms(2) nested_set_member unfolding o by simp
qed

lemma interact_document_Inr:
  "interact_document limit opts body = Inr out \<longleftrightarrow> nested_within limit (JObj body) \<and> generated_document opts body = Inr out"
  by (simp add: interact_document_def deep_copy_def rbind_def)

text \<open>
  C24: The file written for one set of options is itself a definition the tool accepts, and no choice is
  lost by it: parsed again, opened and used for other options, it gives exactly the document the core's
  own definition gives for them. The hypotheses on the definition are that it has no float and no
  duplicate member, as every parsed definition without floats has.
\<close>

theorem written_preset_regenerates:
  assumes "interact_document limit opts1 body = Inr out1" and "json_bytes fl ''interact'' out1 = Inr bs"
    and "plain_json (JObj body)" and "jget body ''magic'' = JStr ''APF_VER_1''"
    and "interact_document limit opts2 body = Inr out2"
  shows "rbind (rbind (parse_definition bs) (open_envelope ''interact'')) (interact_document limit opts2) = Inr out2"
proof -
  have 1: "generated_document opts1 body = Inr out1" "nested_within limit (JObj body)"
    and 2: "generated_document opts2 body = Inr out2"
    using assms(1,5) unfolding interact_document_Inr by auto
  have "parse_definition bs = Inr (JObj [(''interact'', JObj out1)])"
    by (rule json_bytes_parsed [OF assms(2)]) (use generated_document_plain [OF 1(1) assms(3)] in simp)
  moreover have "jget out1 ''magic'' = JStr ''APF_VER_1''"
    using 1(1) assms(4) unfolding generated_document_Inr by (auto simp: jget_set_member)
  moreover have "interact_document limit opts2 out1 = Inr out2"
    using document_regenerates [OF 1(1) 2] generated_nested [OF 1] unfolding interact_document_Inr by simp
  ultimately show ?thesis by (simp add: open_envelope_def rbind_def)
qed

text \<open>Documents of printable ASCII are written.\<close>

definition printable :: "string \<Rightarrow> bool" where
  "printable s = list_all (\<lambda>c. 32 \<le> char_code c \<and> char_code c < 128) s"

definition ascii :: "string \<Rightarrow> bool" where
  "ascii s = list_all (\<lambda>c. char_code c < 128) s"

fun ascii_json :: "json \<Rightarrow> bool" where
  "ascii_json (JFloat q) = False"
| "ascii_json (JStr s) = printable s"
| "ascii_json (JList vs) = list_all ascii_json vs"
| "ascii_json (JObj ms) = list_all (\<lambda>(k, v). printable k \<and> ascii_json v) ms"
| "ascii_json _ = True"

lemma ascii_utf8: "ascii s \<Longrightarrow> utf8_valid s"
  by (induction s) (auto simp: ascii_def)

lemma ascii_append [simp]: "ascii (s @ t) = (ascii s \<and> ascii t)" "ascii []" "ascii (c # s) = (char_code c < 128 \<and> ascii s)"
  by (simp_all add: ascii_def)

lemma ascii_join: "\<forall>s \<in> set ss. ascii s \<Longrightarrow> ascii sep \<Longrightarrow> ascii (join_with sep ss)"
  by (induction sep ss rule: join_with.induct) auto

lemma ascii_string: "printable s \<Longrightarrow> ascii (write_string s)"
  by (induction s) (auto simp: printable_def write_string_def escape_char_def char_code_def)

lemma ascii_indent: "ascii (newline_indent n)"
  by (induction n) (auto simp: newline_indent_def char_code_def)

lemma ascii_int: "ascii (py_str i)"
proof -
  have "set (show_nat_base 10 n) \<subseteq> digit_char ` {..<10}" for n using show_nat_base_digits [of 10 n] by simp
  then have "ascii (show_nat_base 10 n)" for n by (fastforce simp: ascii_def list_all_iff char_code_digit_char)
  then show ?thesis by (simp add: py_str_def char_code_def)
qed

lemma ascii_dumps: "ascii_json j \<Longrightarrow> ascii (dumps fl n j)"
proof (induction fl n j rule: dumps.induct)
  case (6 fl n vs)
  have "ascii (dumps fl (n + 1) v)" if "v \<in> set vs" for v
    using 6 that by (cases "vs = []") (auto simp: list_all_iff)
  then have "\<forall>s \<in> set (map (dumps fl (n + 1)) vs). ascii s" by auto
  then show ?case using ascii_join ascii_indent by (simp add: char_code_def)
next
  case (7 fl n ms)
  have "ascii (write_string (fst p) @ '': '' @ dumps fl (n + 1) (snd p))" if "p \<in> set ms" for p
    using 7 that ascii_string by (cases p) (force simp: list_all_iff char_code_def)
  then have "\<forall>s \<in> set (map (\<lambda>(k, v). write_string k @ '': '' @ dumps fl (n + 1) v) ms). ascii s" by auto
  then show ?case using ascii_join ascii_indent by (simp add: char_code_def)
qed (auto simp: char_code_def ascii_int ascii_string)

lemma ascii_written: "ascii_json (JObj [(envelope, JObj body)]) \<Longrightarrow> \<exists>bs. json_bytes fl envelope body = Inr bs"
  using ascii_utf8 ascii_dumps [of "JObj [(envelope, JObj body)]" fl 0]
  by (simp add: json_bytes_def Let_def char_code_def del: dumps.simps)

lemma sample_ascii: "case interact_document 8 default_options sample_body of Inr out \<Rightarrow> ascii_json (JObj [(''interact'', JObj out)]) | Inl _ \<Rightarrow> False"
  by code_simp

lemma sample_nested: "nested_within 8 (JObj sample_body)"
  by code_simp

lemma written_preset_regenerates_witness:
  "\<exists>bs. rbind (rbind (parse_definition bs) (open_envelope ''interact'')) (interact_document 8 vertical_options)
     = interact_document 8 vertical_options sample_body"
proof -
  obtain out1 where o: "interact_document 8 default_options sample_body = Inr out1"
    "ascii_json (JObj [(''interact'', JObj out1)])"
    using sample_ascii by (auto split: sum.splits)
  then obtain bs where o1: "json_bytes (\<lambda>_. []) ''interact'' out1 = Inr bs" using ascii_written by blast
  obtain out2 where o2: "interact_document 8 vertical_options sample_body = Inr out2"
    using sample_documents(2) sample_nested
    by (cases "generated_document vertical_options sample_body") (auto simp: interact_document_Inr)
  have "plain_json (JObj sample_body)" "jget sample_body ''magic'' = JStr ''APF_VER_1''"
    by (simp_all add: sample_body_def sample_variable_def SETTING_CONTRACT_def jget_def)
  from written_preset_regenerates [OF o(1) o1 this o2] o2 show ?thesis by auto
qed

section \<open>Where presets go\<close>

lemma split_slash_free: "CHR ''/'' \<notin> set acc \<Longrightarrow> p \<in> set (split_slash acc s) \<Longrightarrow> CHR ''/'' \<notin> set p"
  by (induction acc s rule: split_slash.induct) (auto split: if_splits)

lemma split_slash_subset: "p \<in> set (split_slash acc s) \<Longrightarrow> set p \<subseteq> set acc \<union> set s"
  by (induction acc s rule: split_slash.induct) (auto split: if_splits)

text \<open>A component of a path that names an entry of the directory it is looked up in.\<close>

definition plain_component :: "string \<Rightarrow> bool" where
  "plain_component p = (p \<noteq> [] \<and> p \<noteq> ''.'' \<and> p \<noteq> ''..'' \<and> CHR ''/'' \<notin> set p \<and> CHR 0x5C \<notin> set p \<and> \<not> list_ex unsafe_char p)"

lemma casefold_length: "length (casefold s) = length s"
  by (simp add: casefold_def)

lemma canonical_parts:
  assumes "canonical_asset_parts asset = Inr parts"
  shows "\<exists>rel. parts = ''wonderswan'' # ''common'' # rel \<and> rel \<noteq> [] \<and> list_all plain_component rel
    \<and> casefold (path_suffix (last rel)) \<in> set PRESET_EXTENSIONS
    \<and> length (path_suffix (last rel)) < length (last rel)"
proof -
  let ?raw = "split_slash [] (if starts_with ''/'' asset then drop 1 asset else asset)"
  let ?rel = "drop 2 parts"
  from assms have c: "CHR 0x5C \<notin> set asset" "\<not> list_ex unsafe_char asset"
    "\<not> list_ex (\<lambda>p. p = [] \<or> p = ''.'' \<or> p = ''..'') ?raw"
    and rel: "?rel = ?raw \<or> ?rel = drop 3 ?raw" and r: "?rel \<noteq> []" "casefold (path_suffix (last ?rel)) \<in> set PRESET_EXTENSIONS"
    "take (length (last ?rel) - length (path_suffix (last ?rel))) (last ?rel) \<noteq> []" and parts: "parts = ''wonderswan'' # ''common'' # ?rel"
    by (auto simp: canonical_asset_parts_def res_simps Let_def ASSET_PREFIX_def casefold_length simp del: last_drop take_eq_Nil split: if_splits)
  have sub: "set ?rel \<subseteq> set ?raw" using rel set_drop_subset [of 3 ?raw] by (elim disjE) simp_all
  have "plain_component p" if p: "p \<in> set ?raw" for p
  proof -
    have "set p \<subseteq> set asset" using split_slash_subset [OF p] set_drop_subset [of 1 asset] by (auto split: if_splits)
    moreover have "CHR ''/'' \<notin> set p" using split_slash_free [OF _ p] by simp
    ultimately show ?thesis using c p by (auto simp: plain_component_def list_ex_iff)
  qed
  then have "list_all plain_component ?rel" using sub by (auto simp: list_all_iff)
  then show ?thesis using r parts by (intro exI [of _ ?rel]) auto
qed

text \<open>A path of components that stays below the core's common folder and names a JSON file.\<close>

definition preset_path :: "string list \<Rightarrow> bool" where
  "preset_path rel = (take 2 rel = [''wonderswan'', ''common''] \<and> 2 < length rel \<and> list_all plain_component rel
     \<and> ends_with ''.json'' (last rel))"

lemma plain_stem:
  assumes "plain_component s" and "length (path_suffix s) < length s"
  shows "plain_component (path_stem s @ ''.json'')"
proof -
  have sub: "set (path_stem s) \<subseteq> set s" unfolding path_stem_def by (rule set_take_subset)
  have "length (path_stem s @ ''.json'') > 2" by simp
  then have "path_stem s @ ''.json'' \<noteq> ''.''" "path_stem s @ ''.json'' \<noteq> ''..''" by force+
  moreover have "\<not> list_ex unsafe_char ''.json''" by (simp add: unsafe_char_def char_code_def)
  ultimately show ?thesis using assms(1) sub by (auto simp: plain_component_def list_ex_iff)
qed

text \<open>
  C25: Wherever the asset comes from, the preset's path stays below \<open>wonderswan/common\<close>: no component is
  empty, a dot, two dots or contains a separator or a control character, and the file ends in \<open>.json\<close>.
\<close>

theorem preset_path_confined:
  assumes "preset_relative_path asset = Inr rel"
  shows "preset_path rel"
proof -
  obtain parts where c: "canonical_asset_parts asset = Inr parts" "rel = with_suffix ''.json'' parts"
    using assms by (auto simp: preset_relative_path_def res_simps)
  obtain below where b: "parts = ''wonderswan'' # ''common'' # below" "below \<noteq> []" "list_all plain_component below"
    "length (path_suffix (last below)) < length (last below)"
    using canonical_parts [OF c(1)] by blast
  have "list_all plain_component (butlast below)" using b(3) by (auto simp: list_all_iff dest: in_set_butlastD)
  moreover have "plain_component (path_stem (last below) @ ''.json'')"
    using plain_stem b(2,3,4) by (simp add: list_all_iff)
  moreover have "plain_component ''wonderswan''" "plain_component ''common''" by (simp_all add: plain_component_def unsafe_char_def char_code_def)
  moreover have "rel = ''wonderswan'' # ''common'' # butlast below @ [path_stem (last below) @ ''.json'']"
    using c(2) b(1,2) by (simp add: with_suffix_def)
  ultimately show ?thesis by (simp add: preset_path_def ends_with_def)
qed

lemma preset_path_confined_witness: "preset_path [''wonderswan'', ''common'', ''a'', ''game.json'']"
proof -
  have "preset_relative_path ''/Assets/wonderswan/common/a/game.wsc'' = Inr [''wonderswan'', ''common'', ''a'', ''game.json'']"
    by code_simp
  then show ?thesis by (rule preset_path_confined)
qed

section \<open>Which errors there are\<close>











text \<open>
  A definition whose first setting has a list as its default is not refused with the tool's own error:
  testing the list for membership in a set raises a \<open>TypeError\<close>, which \<open>main\<close> does not catch.
\<close>

lemma list_default_escapes:
  "(case interact_document 8 default_options [(''variables'', JList (map (\<lambda>s. JObj (set_member (members_of (sample_variable s))
      ''defaultval'' (JList []))) SETTING_CONTRACT))] of
     Inl e \<Rightarrow> e = TypeError
   | Inr _ \<Rightarrow> False)"
  by code_simp

end
