(* ===== verification/Staging_Transaction.thy ===== *)
theory Staging_Transaction
  imports Item_State Replacing_Store
begin

text \<open>
  The file transaction of \<^verbatim>\<open>scripts/stage_pocket_sd.py\<close>: it prepares the directories of a package, takes
  a snapshot of every destination, publishes the files that differ, verifies all of them through their
  paths, and takes everything back when any of this fails.

  The state is the disk and a book: the directories created, the prepared files, whose members the code
  assigns one by one, and the positions of the files that are being changed. All inodes are on one
  device, so the device numbers are left out; duplicating and closing descriptors has no effect and is
  left out. What mode the file system reports for a file whose mode was set is a parameter; since no
  call of the transaction changes the mode of an original, the comparisons of the originals' modes are
  left out. \<open>_atomic_write_at\<close> is modelled with an expected identity, as the transaction calls it.
\<close>

section \<open>The plan and the book\<close>

record staging_plan =
  sp_root :: "string list"
  sp_identity :: ino
  sp_directories :: "string list list"
  sp_files :: "(string list \<times> byte list) list"
  sp_volume :: bool

record staged_file =
  sf_relative :: "string list"
  sf_payload :: "byte list"
  sf_parent :: ino
  sf_original :: "(byte list \<times> ino) option"
  sf_installed :: "ino option"
  sf_quarantine :: "string option"

record staging_book =
  sb_created :: "string list list"
  sb_prepared :: "staged_file list"
  sb_changed :: "nat list"

type_synonym 'a staging_run = "(disk \<times> staging_book, 'a) eff"

definition get_book :: "staging_book staging_run" where
  "get_book p = (Inr (snd p), p)"

definition update_book :: "(staging_book \<Rightarrow> staging_book) \<Rightarrow> unit staging_run" where
  "update_book f = (\<lambda>(d, b). (Inr (), (d, f b)))"

definition with_staged :: "nat \<Rightarrow> (staged_file \<Rightarrow> 'a staging_run) \<Rightarrow> 'a staging_run" where
  "with_staged k f = ebind get_book (\<lambda>b. f (sb_prepared b ! k))"

definition set_staged :: "nat \<Rightarrow> (staged_file \<Rightarrow> staged_file) \<Rightarrow> unit staging_run" where
  "set_staged k f = update_book (\<lambda>b. b\<lparr>sb_prepared := (sb_prepared b)[k := f (sb_prepared b ! k)]\<rparr>)"

definition sf_name :: "staged_file \<Rightarrow> string" where
  "sf_name item = last (sf_relative item)"

section \<open>Calls with their errors\<close>

definition stage_sync :: "ino \<Rightarrow> bool fs" where
  "stage_sync directory = ecatch (ebind (sys_sync directory) (\<lambda>_. ereturn True)) (\<lambda>e. case e of
     OsErrno n \<Rightarrow> if unsupported_sync n then ereturn False else eraise e | _ \<Rightarrow> eraise e)"

definition stage_name_at :: "ino \<Rightarrow> string \<Rightarrow> bool fs" where
  "stage_name_at directory name =
     ebind (sys_listdir directory) (\<lambda>names.
     let matches = filter (\<lambda>n. casefold n = casefold name) names in
     ebind (eguard (\<not> (length matches > 1 \<or> (matches \<noteq> [] \<and> hd matches \<noteq> name)))
       (StagingError ''stale or case-colliding managed destination identity'')) (\<lambda>_.
     ereturn (matches \<noteq> [])))"

definition stage_snapshot :: "ino \<Rightarrow> string \<Rightarrow> (byte list \<times> ino) option fs" where
  "stage_snapshot directory name =
     ebind (stage_name_at directory name) (\<lambda>present.
     if \<not> present then ereturn None
     else
       ebind (os_errors_as (StagingError ''managed destination is unsafe'') (sys_open_at directory name)) (\<lambda>descriptor.
       ebind (sys_fstat descriptor) (\<lambda>opened.
       ebind (eguard (is_file_node opened) (StagingError ''managed destination is not a regular file'')) (\<lambda>_.
       ebind (read_upto descriptor (length (node_bytes opened) + 1) []) (\<lambda>payload.
       ebind (sys_fstat descriptor) (\<lambda>after.
       ebind (eguard (\<not> (length (node_bytes opened) \<noteq> length (node_bytes after) \<or> length payload \<noteq> length (node_bytes after)))
         (StagingError ''managed destination changed while being read'')) (\<lambda>_.
       ereturn (Some (payload, descriptor)))))))))"

text \<open>\<open>ENOSYS\<close>, \<open>EINVAL\<close> and \<open>ENOTSUP\<close>, which is \<open>EOPNOTSUPP\<close>.\<close>

definition rename_unavailable :: "errno \<Rightarrow> bool" where
  "rename_unavailable e = (e = ENOSYS \<or> e = EINVAL \<or> e = ENOTSUP)"

definition stage_rename :: "ino \<Rightarrow> string \<Rightarrow> string \<Rightarrow> unit fs" where
  "stage_rename directory source destination = ecatch (sys_rename_noreplace directory source destination) (\<lambda>e. case e of
     OsErrno n \<Rightarrow> if rename_unavailable n
       then eraise (StagingError ''target filesystem lacks the native atomic no-clobber rename'') else eraise e
   | _ \<Rightarrow> eraise e)"

definition stage_private :: "string \<Rightarrow> string \<Rightarrow> string" where
  "stage_private purpose token = ''.swan-song-'' @ purpose @ ''-'' @ token"

primrec rename_to_unique :: "nat \<Rightarrow> ino \<Rightarrow> string \<Rightarrow> string \<Rightarrow> string fs" where
  "rename_to_unique 0 directory name purpose = eraise (StagingError ''could not allocate an exclusive quarantine'')"
| "rename_to_unique (Suc n) directory name purpose =
     ebind draw_token (\<lambda>token.
     let quarantine = stage_private purpose token in
     ebind (ecatch (ebind (stage_rename directory name quarantine) (\<lambda>_. ereturn True))
         (\<lambda>e. if e = OsErrno EEXIST then ereturn False else eraise e)) (\<lambda>moved.
     if moved then ereturn quarantine else rename_to_unique n directory name purpose))"

definition restore_quarantine :: "ino \<Rightarrow> string \<Rightarrow> string \<Rightarrow> unit fs" where
  "restore_quarantine directory quarantine name =
     ebind (stage_rename directory quarantine name) (\<lambda>_.
     ebind (stage_sync directory) (\<lambda>_. ereturn ()))"

text \<open>A restoration inside a handler: its own failure replaces the exception.\<close>

definition put_back :: "string \<Rightarrow> ino \<Rightarrow> string \<Rightarrow> string \<Rightarrow> unit fs" where
  "put_back message directory quarantine name =
     ecatch (restore_quarantine directory quarantine name) (\<lambda>e. eraise (StagingError message))"

section \<open>Directories\<close>

definition stage_mkdir :: "ino \<Rightarrow> string \<Rightarrow> bool fs" where
  "stage_mkdir current part =
     ebind (ecatch (ebind (sys_mkdir current part) (\<lambda>_. ereturn True))
         (\<lambda>e. if e = OsErrno EEXIST then ereturn False else eraise e)) (\<lambda>made.
     ebind (if made then ebind (stage_sync current) (\<lambda>_. ereturn ()) else ereturn ()) (\<lambda>_.
     ebind (stage_name_at current part) (\<lambda>_. ereturn made)))"

definition stage_child :: "ino \<Rightarrow> string \<Rightarrow> ino fs" where
  "stage_child current part =
     ebind (os_errors_as (StagingError ''managed destination parent is unsafe'') (sys_stat_at current part)) (\<lambda>(i, n).
     ebind (eguard (\<not> is_link_node n) (StagingError ''managed destination must not be a symlink'')) (\<lambda>_.
     ebind (eguard (is_dir_node n) (StagingError ''managed destination parent is not a directory'')) (\<lambda>_.
     os_errors_as (StagingError ''managed destination parent is unsafe'') (sys_open_dir_at current part))))"

fun stage_below :: "ino \<Rightarrow> string list \<Rightarrow> string list \<Rightarrow> bool \<Rightarrow> ino option staging_run" where
  "stage_below current walked [] create = ereturn (Some current)"
| "stage_below current walked (part # parts) create =
     ebind (on_disk (stage_name_at current part)) (\<lambda>present.
     if \<not> present \<and> \<not> create then ereturn None
     else
       ebind (if \<not> present then on_disk (stage_mkdir current part) else ereturn False) (\<lambda>created_here.
       ebind (on_disk (stage_child current part)) (\<lambda>child.
       ebind (if created_here then
                ebind (on_disk (sys_fstat child)) (\<lambda>_.
                update_book (\<lambda>b. b\<lparr>sb_created := sb_created b @ [walked @ [part]]\<rparr>))
              else ereturn ()) (\<lambda>_.
       stage_below child (walked @ [part]) parts create))))"

definition stage_parent_at :: "ino \<Rightarrow> string list \<Rightarrow> bool \<Rightarrow> ino option staging_run" where
  "stage_parent_at root_descriptor relative create = stage_below root_descriptor [] (butlast relative) create"

section \<open>Publishing one file\<close>

definition stage_temporary :: "string \<Rightarrow> string \<Rightarrow> string" where
  "stage_temporary name token = ''.'' @ name @ ''.'' @ token @ ''.tmp''"

primrec create_temporary :: "nat \<Rightarrow> ino \<Rightarrow> string \<Rightarrow> (string \<times> ino) fs" where
  "create_temporary 0 directory name = eraise (StagingError ''could not allocate a temporary file'')"
| "create_temporary (Suc n) directory name =
     ebind draw_token (\<lambda>token.
     let candidate = stage_temporary name token in
     ebind (ecatch (ebind (sys_create directory candidate) (\<lambda>i. ereturn (Some i)))
         (\<lambda>e. if e = OsErrno EEXIST then ereturn None else eraise e)) (\<lambda>created.
     case created of None \<Rightarrow> create_temporary n directory name | Some i \<Rightarrow> ereturn (candidate, i)))"

definition fill_staged :: "ino \<Rightarrow> byte list \<Rightarrow> unit fs" where
  "fill_staged i payload =
     ebind (sys_write i payload) (\<lambda>_.
     ebind (sys_fchmod i) (\<lambda>_.
     ebind (sys_sync i) (\<lambda>_.
     ebind (sys_fstat i) (\<lambda>_. ereturn ()))))"

definition move_aside :: "ino \<Rightarrow> string \<Rightarrow> ino option \<Rightarrow> string option fs" where
  "move_aside directory name expected = (case expected of
     None \<Rightarrow> ereturn None
   | Some identity \<Rightarrow>
       ebind (rename_to_unique 32 directory name ''original'') (\<lambda>quarantine.
       ebind (eon_error
         (ebind (stage_sync directory) (\<lambda>_.
          ebind (stage_snapshot directory quarantine) (\<lambda>snapshot.
          eguard (map_option snd snapshot = Some identity) (StagingError ''managed destination changed after snapshot''))))
         (put_back ''managed destination changed and its quarantined inode could not be restored'' directory quarantine name)) (\<lambda>_.
       ereturn (Some quarantine))))"

definition publish_at :: "ino \<Rightarrow> string \<Rightarrow> byte list \<Rightarrow> ino option \<Rightarrow> string \<Rightarrow> ino \<Rightarrow> string option fs" where
  "publish_at directory name payload expected temporary i =
     ebind (fill_staged i payload) (\<lambda>_.
     ebind (stage_name_at directory name) (\<lambda>_.
     ebind (move_aside directory name expected) (\<lambda>quarantine.
     ebind (eon_error (stage_rename directory temporary name)
       (case quarantine of None \<Rightarrow> ereturn ()
        | Some q \<Rightarrow> put_back ''conditional publication failed and the original inode remains quarantined'' directory q name)) (\<lambda>_.
     ereturn quarantine))))"

text \<open>The \<open>finally\<close> block while the temporary file has its own name.\<close>

definition discard_temporary :: "ino \<Rightarrow> string \<Rightarrow> unit fs" where
  "discard_temporary directory temporary =
     ecatch (ebind (sys_unlink directory temporary) (\<lambda>_. ebind (stage_sync directory) (\<lambda>_. ereturn ())))
       (\<lambda>e. if e = OsErrno ENOENT then ereturn () else eraise e)"

definition atomic_write_at :: "nat \<Rightarrow> unit staging_run" where
  "atomic_write_at k = with_staged k (\<lambda>item.
     ebind (on_disk (create_temporary 32 (sf_parent item) (sf_name item))) (\<lambda>(temporary, i).
     ebind (on_disk (eon_error
       (publish_at (sf_parent item) (sf_name item) (sf_payload item) (map_option snd (sf_original item)) temporary i)
       (discard_temporary (sf_parent item) temporary))) (\<lambda>quarantine.
     ebind (set_staged k (\<lambda>item. item\<lparr>sf_installed := Some i, sf_quarantine := quarantine\<rparr>)) (\<lambda>_.
     ebind (on_disk (stage_sync (sf_parent item))) (\<lambda>_.
     set_staged k (\<lambda>item. item\<lparr>sf_installed := Some i\<rparr>))))))"

definition discard_quarantined :: "ino \<Rightarrow> string \<Rightarrow> ino \<Rightarrow> unit fs" where
  "discard_quarantined directory quarantine expected =
     ebind (rename_to_unique 32 directory quarantine ''discard'') (\<lambda>discard.
     eon_error
       (ebind (stage_sync directory) (\<lambda>_.
        ebind (stage_snapshot directory discard) (\<lambda>snapshot.
        ebind (eguard (map_option snd snapshot = Some expected) (StagingError ''quarantined file identity changed before cleanup'')) (\<lambda>_.
        ebind (sys_unlink directory discard) (\<lambda>_.
        ebind (stage_sync directory) (\<lambda>_. ereturn ()))))))
       (put_back ''cleanup failed and the quarantine could not be restored'' directory discard quarantine))"

section \<open>Rollback, verification and cleanup\<close>

definition original_state_matches :: "staged_file \<Rightarrow> (byte list \<times> ino) option \<Rightarrow> bool" where
  "original_state_matches item snapshot = (snapshot = sf_original item)"

text \<open>
  One round of \<open>_rollback_files\<close>. The code appends a failure and goes on to the next file, in the round
  or in the handler around it; here either is an exception that \<open>attempt_each\<close> counts.
\<close>

definition restore_original :: "nat \<Rightarrow> staged_file \<Rightarrow> unit staging_run" where
  "restore_original k item =
     (if sf_original item = None then ereturn ()
      else (case sf_quarantine item of
         None \<Rightarrow> eraise (StagingError ''original inode is unavailable for rollback'')
       | Some original \<Rightarrow>
           ebind (on_disk (restore_quarantine (sf_parent item) original (sf_name item))) (\<lambda>_.
           set_staged k (\<lambda>item. item\<lparr>sf_quarantine := None\<rparr>))))"

definition undo_installed :: "nat \<Rightarrow> staged_file \<Rightarrow> ino \<Rightarrow> string \<Rightarrow> unit staging_run" where
  "undo_installed k item installed quarantine =
     ebind (on_disk (stage_sync (sf_parent item))) (\<lambda>_.
     ebind (on_disk (stage_snapshot (sf_parent item) quarantine)) (\<lambda>moved.
     if moved \<noteq> Some (sf_payload item, installed) then
       ebind (on_disk (etry (restore_quarantine (sf_parent item) quarantine (sf_name item)))) (\<lambda>_.
       eraise (StagingError ''rollback conflict''))
     else
       ebind (restore_original k item) (\<lambda>_.
       ebind (on_disk (discard_quarantined (sf_parent item) quarantine installed)) (\<lambda>_.
       ebind (on_disk (stage_snapshot (sf_parent item) (sf_name item))) (\<lambda>restored.
       eguard (original_state_matches item restored) (StagingError ''original metadata was not restored''))))))"

definition rollback_staged :: "nat \<Rightarrow> unit staging_run" where
  "rollback_staged k = with_staged k (\<lambda>item.
     ebind (on_disk (stage_snapshot (sf_parent item) (sf_name item))) (\<lambda>snapshot.
     case sf_installed item of
       None \<Rightarrow> eguard (original_state_matches item snapshot) (StagingError ''rollback conflict'')
     | Some installed \<Rightarrow>
         ebind (on_disk (rename_to_unique 32 (sf_parent item) (sf_name item) ''rollback'')) (undo_installed k item installed)))"

definition STAGED_MODE :: nat where "STAGED_MODE = 0x1A4"

definition verify_staged :: "(nat \<Rightarrow> nat) \<Rightarrow> ino \<Rightarrow> nat \<Rightarrow> unit staging_run" where
  "verify_staged reported root_descriptor k = with_staged k (\<lambda>item.
     ebind (stage_parent_at root_descriptor (sf_relative item) False) (\<lambda>found.
     case found of
       None \<Rightarrow> eraise (StagingError ''managed destination parent detached during transaction'')
     | Some current_parent \<Rightarrow>
         ebind (on_disk (sys_fstat current_parent)) (\<lambda>_.
         ebind (eguard (current_parent = sf_parent item) (StagingError ''managed destination parent identity changed'')) (\<lambda>_.
         ebind (on_disk (stage_snapshot current_parent (sf_name item))) (\<lambda>snapshot.
         case sf_installed item of
           Some installed \<Rightarrow>
             ebind (eguard (map_option snd snapshot = Some installed) (StagingError ''managed destination file identity changed'')) (\<lambda>_.
             ebind (eguard (map_option fst snapshot = Some (sf_payload item)) (StagingError ''managed destination file changed'')) (\<lambda>_.
             eguard (reported STAGED_MODE = STAGED_MODE) (StagingError ''managed destination file mode changed'')))
         | None \<Rightarrow> eguard (original_state_matches item snapshot) (StagingError ''unchanged managed destination changed''))))))"

definition verify_stage_root :: "string list \<Rightarrow> ino \<Rightarrow> ino \<Rightarrow> unit fs" where
  "verify_stage_root path root_descriptor identity =
     ebind (sys_fstat root_descriptor) (\<lambda>opened.
     ebind (sys_lstat path) (\<lambda>(observed, n).
     eguard (\<not> (root_descriptor \<noteq> identity \<or> observed \<noteq> identity)) (StagingError ''staging directory identity changed during transaction'')))"

definition cleanup_staged :: "nat \<Rightarrow> unit staging_run" where
  "cleanup_staged k = with_staged k (\<lambda>item.
     case (sf_quarantine item, sf_original item) of
       (Some quarantine, Some (_, identity)) \<Rightarrow>
         ebind (on_disk (discard_quarantined (sf_parent item) quarantine identity)) (\<lambda>_.
         set_staged k (\<lambda>item. item\<lparr>sf_quarantine := None\<rparr>))
     | _ \<Rightarrow> ereturn ())"

section \<open>The transaction\<close>

definition prepare_directory :: "ino \<Rightarrow> string list \<Rightarrow> unit staging_run" where
  "prepare_directory root_descriptor relative =
     ebind (stage_parent_at root_descriptor (relative @ [''.swan-song-directory'']) True) (\<lambda>found.
     eguard (found \<noteq> None) (AssertionError ''directory_descriptor is not None''))"

definition prepare_staged :: "ino \<Rightarrow> string list \<times> byte list \<Rightarrow> unit staging_run" where
  "prepare_staged root_descriptor = (\<lambda>(relative, payload).
     ebind (stage_parent_at root_descriptor relative True) (\<lambda>found.
     case found of
       None \<Rightarrow> eraise (AssertionError ''parent_descriptor is not None'')
     | Some parent \<Rightarrow>
         ebind (on_disk (sys_fstat parent)) (\<lambda>_.
         ebind get_book (\<lambda>book.
         ebind (update_book (\<lambda>b. b\<lparr>sb_prepared := sb_prepared b @ [\<lparr>sf_relative = relative, sf_payload = payload,
           sf_parent = parent, sf_original = None, sf_installed = None, sf_quarantine = None\<rparr>]\<rparr>)) (\<lambda>_.
         ebind (on_disk (stage_snapshot parent (last relative))) (\<lambda>snapshot.
         set_staged (length (sb_prepared book)) (\<lambda>item. item\<lparr>sf_original := snapshot\<rparr>)))))))"

definition write_staged :: "nat \<Rightarrow> unit staging_run" where
  "write_staged k = with_staged k (\<lambda>item.
     if map_option fst (sf_original item) = Some (sf_payload item) then ereturn ()
     else
       ebind (update_book (\<lambda>b. b\<lparr>sb_changed := sb_changed b @ [k]\<rparr>)) (\<lambda>_.
       atomic_write_at k))"

definition staging_transaction :: "(nat \<Rightarrow> nat) \<Rightarrow> staging_plan \<Rightarrow> string list \<Rightarrow> ino \<Rightarrow> unit staging_run" where
  "staging_transaction reported plan path root_descriptor =
     ebind (efold (\<lambda>relative _. prepare_directory root_descriptor relative) (sp_directories plan) ()) (\<lambda>_.
     ebind (efold (\<lambda>managed _. prepare_staged root_descriptor managed) (sp_files plan) ()) (\<lambda>_.
     ebind get_book (\<lambda>book.
     ebind (for_items write_staged [0..<length (sb_prepared book)]) (\<lambda>_.
     ebind (on_disk (verify_stage_root path root_descriptor (sp_identity plan))) (\<lambda>_.
     for_items (verify_staged reported root_descriptor) [0..<length (sb_prepared book)])))))"

definition STAGING_FAILED :: py_error where
  "STAGING_FAILED = StagingError ''staging transaction failed; safety-preserving rollback report''"

definition STAGING_CLEANUP :: py_error where
  "STAGING_CLEANUP = StagingError ''staging files were installed and verified, but obsolete-file cleanup was incomplete''"

text \<open>Created directories are kept, and each is a line of the report.\<close>

definition rollback_staging :: "py_error \<Rightarrow> unit staging_run" where
  "rollback_staging e =
     ebind get_book (\<lambda>book.
     ebind (attempt_each rollback_staged (rev (sb_changed book))) (\<lambda>failures.
     if failures + length (sb_created book) \<noteq> 0 then eraise STAGING_FAILED else eraise e))"

definition cleanup_staging :: "unit staging_run" where
  "cleanup_staging =
     ebind get_book (\<lambda>book.
     ebind (attempt_each cleanup_staged (sb_changed book)) (\<lambda>failures. eguard (failures = 0) STAGING_CLEANUP))"

definition run_staging :: "'a staging_run \<Rightarrow> 'a fs" where
  "run_staging m d = (case m (d, \<lparr>sb_created = [], sb_prepared = [], sb_changed = []\<rparr>) of (r, (t, book)) \<Rightarrow> (r, t))"

definition write_staging :: "(nat \<Rightarrow> nat) \<Rightarrow> staging_plan \<Rightarrow> string list \<Rightarrow> ino \<Rightarrow> unit fs" where
  "write_staging reported plan path root_descriptor =
     run_staging (ebind (ecatch (staging_transaction reported plan path root_descriptor) rollback_staging)
       (\<lambda>_. cleanup_staging))"

section \<open>The staging directory\<close>

definition stage_root :: "string list \<Rightarrow> (string list \<times> ino) fs" where
  "stage_root path =
     ebind (ecatch
       (ebind (sys_open_dir_path path) (\<lambda>descriptor.
        ebind (sys_fstat descriptor) (\<lambda>opened.
        ebind (sys_realpath path) (\<lambda>resolved.
        ebind (sys_lstat resolved) (\<lambda>(observed, n).
        ebind (eguard (descriptor = observed) (StagingError ''staging directory identity changed during validation'')) (\<lambda>_.
        ereturn (resolved, descriptor)))))))
       (\<lambda>e. case e of
          OsErrno n \<Rightarrow>
            ebind (if n = ELOOP then ereturn True else path_is_symlink path) (\<lambda>link.
            eraise (StagingError (if link then ''staging directory must not be a symlink''
              else ''staging directory must already exist and be safe'')))
        | _ \<Rightarrow> eraise e)) (\<lambda>(resolved, identity).
     ebind (eguard (resolved \<noteq> []) (StagingError ''refusing to use a filesystem root as the staging directory'')) (\<lambda>_.
     ereturn (resolved, identity)))"

definition open_stage_root :: "string list \<Rightarrow> ino \<Rightarrow> ino fs" where
  "open_stage_root path expected =
     ebind (os_errors_as (StagingError ''staging directory became unsafe after validation'') (sys_open_dir_path path)) (\<lambda>descriptor.
     ebind (sys_fstat descriptor) (\<lambda>opened.
     ebind (sys_lstat path) (\<lambda>(observed, n).
     ebind (eguard (descriptor = observed) (StagingError ''staging directory identity changed after validation'')) (\<lambda>_.
     ebind (eguard (descriptor = expected) (StagingError ''staging directory is not the directory that was planned'')) (\<lambda>_.
     ereturn descriptor)))))"

definition open_staging :: "staging_plan \<Rightarrow> bool \<Rightarrow> (string list \<times> ino) fs" where
  "open_staging plan allow_volume =
     ebind (stage_root (sp_root plan)) (\<lambda>(path, identity).
     ebind (eguard (\<not> (path \<noteq> sp_root plan \<or> identity \<noteq> sp_identity plan)) (StagingError ''staging directory identity changed after validation'')) (\<lambda>_.
     ebind (eguard (\<not> (sp_volume plan \<and> \<not> allow_volume)) (StagingError ''refusing to write below the volumes root'')) (\<lambda>_.
     ebind (open_stage_root path (sp_identity plan)) (\<lambda>root_descriptor.
     ereturn (path, root_descriptor)))))"

definition apply_staging :: "(nat \<Rightarrow> nat) \<Rightarrow> staging_plan \<Rightarrow> bool \<Rightarrow> unit fs" where
  "apply_staging reported plan allow_volume =
     ebind (open_staging plan allow_volume) (\<lambda>(path, root_descriptor).
     write_staging reported plan path root_descriptor)"

text \<open>Which files are new, replaced or unchanged.\<close>

definition classify_file :: "ino \<Rightarrow> string list \<times> byte list \<Rightarrow>
    string list list \<times> string list list \<times> string list list \<Rightarrow> (string list list \<times> string list list \<times> string list list) fs" where
  "classify_file root_descriptor = (\<lambda>(relative, payload) (new, replaced, unchanged).
     ebind (run_staging (stage_parent_at root_descriptor relative False)) (\<lambda>found.
     case found of
       None \<Rightarrow> ereturn (new @ [relative], replaced, unchanged)
     | Some parent \<Rightarrow>
         ebind (stage_snapshot parent (last relative)) (\<lambda>existing.
         ereturn (case existing of
             None \<Rightarrow> (new @ [relative], replaced, unchanged)
           | Some (contents, i) \<Rightarrow>
               if contents = payload then (new, replaced, unchanged @ [relative])
               else (new, replaced @ [relative], unchanged)))))"

definition classify_files :: "string list \<Rightarrow> (string list \<times> byte list) list \<Rightarrow> ino \<Rightarrow>
    (string list list \<times> string list list \<times> string list list) fs" where
  "classify_files path files identity =
     ebind (open_stage_root path identity) (\<lambda>root_descriptor.
     efold (classify_file root_descriptor) files ([], [], []))"

end
