(* ===== verification/Staging_Facts.thy ===== *)
theory Staging_Facts
  imports Staging_Transaction
begin

text \<open>
  What the staging transaction does to a card: its parts that only read, what its renames leave where
  it is, and the proof, against the contract \<open>replacing_store\<close>, that it and its rollback destroy nothing.
\<close>

section \<open>Programs that only read\<close>

lemma reads_stage_sync [keep_intros]: "keeps (same_files s) (stage_sync i)"
  unfolding stage_sync_def by (auto intro!: keep_intros split: py_error.splits)

lemma reads_stage_name [keep_intros]: "keeps (same_files s) (stage_name_at directory name)"
  unfolding stage_name_at_def Let_def by (intro keep_intros)

lemma reads_stage_snapshot [keep_intros]: "keeps (same_files s) (stage_snapshot directory name)"
  unfolding stage_snapshot_def by (intro keep_intros)

lemma reads_stage_child [keep_intros]: "keeps (same_files s) (stage_child current part)"
  unfolding stage_child_def by (intro keep_intros)

lemma reads_stage_root [keep_intros]:
  "keeps (same_files s) (stage_root path)" "keeps (same_files s) (open_stage_root path expected)"
  "keeps (same_files s) (verify_stage_root path root_descriptor identity)"
  unfolding stage_root_def open_stage_root_def verify_stage_root_def
  by (intro keep_intros | auto intro!: keep_intros split: py_error.splits)+

lemma reads_open_staging [keep_intros]: "keeps (same_files s) (open_staging plan allow_volume)"
  unfolding open_staging_def by (intro keep_intros)

lemma stage_snapshot_Inr:
  assumes "stage_snapshot dir name d = (Inr (Some (bs, i)), t)"
  shows "entry_of d dir name = Some i \<and> dk_nodes d i = Some (FileNode bs)"
proof -
  from assms obtain ok u0 u1 opened u2 u3 after u4 where
    0: "stage_name_at dir name d = (Inr ok, u0)" and 1: "sys_open_at dir name u0 = (Inr i, u1)"
    and 2: "sys_fstat i u1 = (Inr opened, u2)" and 3: "is_file_node opened"
    and 4: "read_upto i (length (node_bytes opened) + 1) [] u2 = (Inr bs, u3)"
    and 6: "sys_fstat i u3 = (Inr after, u4)"
    and 7: "length (node_bytes opened) = length (node_bytes after)" "length bs = length (node_bytes after)"
    by (auto simp: stage_snapshot_def res_simps ereturn_def split: if_splits simp del: One_nat_def)
  have s: "same_files d u0" "same_files u0 u1" "same_files u1 u2"
    using same_after [OF reads_stage_name 0] open_at_Inr [OF 1] fstat_Inr [OF 2] by auto
  then have sd: "same_files d u2" using same_files_trans by blast
  have n: "dk_nodes u2 i = Some opened" using fstat_Inr [OF 2] by (simp add: same_files_def)
  have "opened = FileNode bs"
    by (rule read_file_contents [OF 4 n 3]) (use 7 in simp)
  moreover have "entry_of d dir name = Some i"
    using open_at_Inr [OF 1] same_files_observe(6) [OF s(1)] by (auto simp: child_node_Inr)
  ultimately show ?thesis using n sd by (simp add: same_files_def)
qed

section \<open>An entry that stays\<close>

text \<open>The key of a name on a file system that folds case, or does not.\<close>

definition fold_key :: "bool \<Rightarrow> string \<Rightarrow> string" where
  "fold_key f name = (if f then casefold name else name)"

lemma name_key_fold: "name_key d name = fold_key (dk_fold d) name"
  by (simp add: name_key_def fold_key_def)

lemma fold_key_length: "length (fold_key f name) = length name"
  by (simp add: fold_key_def casefold_def)

definition stays :: "ino \<Rightarrow> string \<Rightarrow> ino \<Rightarrow> bool \<Rightarrow> disk \<Rightarrow> bool" where
  "stays dir name i f d = (entry_of d dir name = Some i \<and> dk_fold d = f)"

lemma stays_same: "stays dir name i f d \<Longrightarrow> same_files d t \<Longrightarrow> stays dir name i f t"
  using same_files_observe [of d t] by (simp add: stays_def same_files_def)

lemma reads_stay: "(\<And>s. keeps (same_files s) m) \<Longrightarrow> keeps (stays dir name i f) m"
  by (rule keepsI, rule wpI) (blast intro: stays_same same_after)+

lemma store_stays:
  assumes c: "stays dir name i f c"
  shows "wp (store_bytes j xs) (\<lambda>_. stays dir name i f) (\<lambda>_. stays dir name i f) c"
proof (cases "\<exists>old. dk_nodes c j = Some (FileNode old)")
  case True
  then obtain old where old: "dk_nodes c j = Some (FileNode old)" by blast
  let ?t = "put_node j (FileNode (old @ xs)) c"
  have "entries ?t = entries c"
    using old by (auto simp: fun_eq_iff entries_put entries_def)
  then have "entry_of ?t = entry_of c"
    using same_fold_find [of ?t c] by (auto simp: fun_eq_iff entry_of_def)
  then show ?thesis using c old by (simp add: wp_def store_bytes_def stays_def)
next
  case False
  then show ?thesis using c by (auto simp: wp_def store_bytes_def split: option.splits node.splits)
qed

lemma write_stays: "keeps (stays dir name i f) (sys_write j bs)"
proof (rule keepsI)
  fix d assume s: "stays dir name i f d"
  then have "stays dir name i f (call_made d)" using stays_same same_call by blast
  note st = store_stays [OF this, of j]
  have "wp (ebind (store_bytes j xs) (\<lambda>_. eraise e) :: unit fs) (\<lambda>_. stays dir name i f) (\<lambda>_. stays dir name i f) (call_made d)" for xs e
    using st [of xs] by (simp add: wp_simps)
  with st show "wp (sys_write j bs) (\<lambda>_. stays dir name i f) (\<lambda>_. stays dir name i f) d"
    by (simp add: wp_def sys_write_def call_made_def Let_def split: option.splits)
qed

lemma move_stays:
  assumes c: "stays dir name i f c" and other: "fold_key f name \<noteq> fold_key f src"
  shows "wp (move_entry dir src dst)
    (\<lambda>_ t. stays dir name i f t \<and> fold_key f name \<noteq> fold_key f dst) (\<lambda>_. stays dir name i f) c"
proof (cases "is_dir c dir \<and> entry_of c dir src \<noteq> None \<and> entry_of c dir dst = None")
  case False
  then show ?thesis using c by (auto simp: wp_def move_entry_def split: option.splits)
next
  case True
  then obtain j where j: "entry_of c dir src = Some j" by blast
  let ?t = "add_entry dir dst j (drop_entry dir src c)"
  have key: "name_key c = fold_key f" using c by (simp add: fun_eq_iff name_key_fold stays_def)
  have dst: "fold_key f name \<noteq> fold_key f dst"
  proof
    assume "fold_key f name = fold_key f dst"
    then have "entry_of c dir name = entry_of c dir dst"
      using find_entry_key [of c name dst "entries c dir"] by (simp add: entry_of_def key)
    then show False using True c by (simp add: stays_def)
  qed
  have "entry_of ?t dir name = Some i"
    using c other dst key by (simp add: entry_of_add entry_of_drop stays_def)
  moreover have "dk_fold ?t = f" using c by (simp add: stays_def)
  ultimately show ?thesis using True j dst by (simp add: wp_def move_entry_def stays_def)
qed

lemma rename_stays:
  assumes s: "stays dir name i f d" and other: "fold_key f name \<noteq> fold_key f src"
  shows "wp (sys_rename_noreplace dir src dst)
    (\<lambda>_ t. stays dir name i f t \<and> fold_key f name \<noteq> fold_key f dst) (\<lambda>_. stays dir name i f) d"
  unfolding sys_rename_noreplace_def
  using stays_same [OF s same_call] move_stays [OF _ other] by (intro wp_syscall) auto

lemma stage_rename_stays:
  assumes "stays dir name i f d" and "fold_key f name \<noteq> fold_key f src"
  shows "wp (stage_rename dir src dst)
    (\<lambda>_ t. stays dir name i f t \<and> fold_key f name \<noteq> fold_key f dst) (\<lambda>_. stays dir name i f) d"
  unfolding stage_rename_def wp_catch
  by (rule wp_mono [OF rename_stays [OF assms]]) (auto simp: wp_simps split: py_error.splits)

lemma unique_stays:
  assumes "fold_key f name \<noteq> fold_key f src"
  shows "stays dir name i f d \<Longrightarrow> wp (rename_to_unique n dir src purpose)
    (\<lambda>q t. stays dir name i f t \<and> fold_key f name \<noteq> fold_key f q) (\<lambda>_. stays dir name i f) d"
proof (induction n arbitrary: d)
  case 0
  then show ?case by (simp add: wp_simps)
next
  case (Suc n)
  note read = keepsD [OF reads_stay [OF reads_token], of dir name i f]
  have "wp (ebind (ecatch (ebind (stage_rename dir src q) (\<lambda>_. ereturn True))
         (\<lambda>e. if e = OsErrno EEXIST then ereturn False else eraise e)) (\<lambda>moved.
     if moved then ereturn q else rename_to_unique n dir src purpose))
     (\<lambda>q t. stays dir name i f t \<and> fold_key f name \<noteq> fold_key f q) (\<lambda>_. stays dir name i f) t"
    if "stays dir name i f t" for q t
    using stage_rename_stays [OF that assms, of q] Suc.IH by (auto simp: wp_simps elim!: wp_mono)
  then show ?case
    unfolding rename_to_unique.simps Let_def wp_bind [of draw_token]
    by (intro wp_mono [OF read [OF Suc.prems]])
qed

lemma rename_fails: "wp (stage_rename dir src dst) (\<lambda>_ _. True) (\<lambda>_. same_files d) d"
proof -
  have "wp (move_entry dir src dst) (\<lambda>_ _. True) (\<lambda>_. same_files d) (call_made d)"
    by (auto simp: wp_def move_entry_def split: option.splits prod.splits sum.splits)
  then have "wp (sys_rename_noreplace dir src dst) (\<lambda>_ _. True) (\<lambda>_. same_files d) d"
    unfolding sys_rename_noreplace_def by (rule wp_syscall) simp
  then show ?thesis
    unfolding stage_rename_def wp_catch
    by (rule wp_mono) (auto simp: wp_simps split: py_error.splits)
qed

lemma put_back_stays:
  assumes "fold_key f name \<noteq> fold_key f q" and "stays dir name i f d"
  shows "wp (put_back message dir q dst) (\<lambda>_. stays dir name i f) (\<lambda>_. stays dir name i f) d"
proof -
  have "wp (stage_sync dir) (\<lambda>_. stays dir name i f) (\<lambda>_. stays dir name i f) t" if "stays dir name i f t" for t
    using keepsD [OF reads_stay [OF reads_stage_sync] that] .
  then show ?thesis
    unfolding put_back_def restore_quarantine_def wp_bind wp_catch wp_basic
    by (intro wp_mono [OF stage_rename_stays [OF assms(2,1)]]) auto
qed

section \<open>Against the contract\<close>

lemma temporary_key: "fold_key f (stage_temporary name token) \<noteq> fold_key f name"
proof
  assume "fold_key f (stage_temporary name token) = fold_key f name"
  then have "length (stage_temporary name token) = length name" by (metis fold_key_length)
  then show False by (simp add: stage_temporary_def)
qed

lemma wp_undo:
  "wp m (\<lambda>_. I) (\<lambda>_. I') d \<Longrightarrow> (\<And>t. I' t \<Longrightarrow> wp c (\<lambda>_. I'') (\<lambda>_. I'') t) \<Longrightarrow>
   wp (eon_error m c) (\<lambda>_. I) (\<lambda>_. I'') d"
  unfolding wp_on_error by (erule wp_mono) auto

context replacing_store
begin

lemma staged_read:
  "keep b M d \<Longrightarrow> wp (stage_sync i) (\<lambda>_. keep b M) (\<lambda>_. keep b M) d"
  "keep b M d \<Longrightarrow> wp (stage_name_at dir name) (\<lambda>_. keep b M) (\<lambda>_. keep b M) d"
  "keep b M d \<Longrightarrow> wp (stage_snapshot dir name) (\<lambda>_. keep b M) (\<lambda>_. keep b M) d"
  by (rule read_law, rule keep_intros, assumption)+

lemma keep_stage_rename: "mine M dir src \<Longrightarrow> keep b M d \<Longrightarrow>
  wp (stage_rename dir src dst) (\<lambda>_ t. keep b M t \<and> mine M dir dst) (\<lambda>_. keep b M) d"
  unfolding stage_rename_def wp_catch
  by (rule wp_mono [OF rename_law]) (auto simp: wp_simps split: py_error.splits)

lemma keep_unique:
  assumes "mine M dir name"
  shows "keep b M d \<Longrightarrow> wp (rename_to_unique n dir name purpose)
    (\<lambda>q t. keep b M t \<and> (mine M dir q \<and> q \<in> range (stage_private purpose))) (\<lambda>_. keep b M) d"
proof (induction n arbitrary: d)
  case 0
  then show ?case by (simp add: wp_simps)
next
  case (Suc n)
  have "wp (ebind (ecatch (ebind (stage_rename dir name (stage_private purpose token)) (\<lambda>_. ereturn True))
         (\<lambda>e. if e = OsErrno EEXIST then ereturn False else eraise e)) (\<lambda>moved.
     if moved then ereturn (stage_private purpose token) else rename_to_unique n dir name purpose))
     (\<lambda>q t. keep b M t \<and> (mine M dir q \<and> q \<in> range (stage_private purpose))) (\<lambda>_. keep b M) t"
    if "keep b M t" for token t
    using keep_stage_rename [OF assms that, of "stage_private purpose token"] Suc.IH
    by (auto simp: wp_simps elim!: wp_mono)
  then show ?case
    unfolding rename_to_unique.simps Let_def wp_bind [of draw_token]
    by (intro wp_mono [OF read_law [OF reads_token Suc.prems]])
qed

lemma keep_restore: "mine M dir q \<Longrightarrow> keep b M d \<Longrightarrow>
  wp (restore_quarantine dir q name) (\<lambda>_. keep b M) (\<lambda>_. keep b M) d"
  unfolding restore_quarantine_def wp_bind
  by (rule wp_mono [OF keep_stage_rename]) (auto simp: wp_simps intro: staged_read)

lemma keep_put_back: "mine M dir q \<Longrightarrow> keep b M d \<Longrightarrow>
  wp (put_back message dir q name) (\<lambda>_. keep b M) (\<lambda>_. keep b M) d"
  unfolding put_back_def wp_catch
  by (rule wp_mono [OF keep_restore]) (auto simp: wp_simps)

lemma keep_snapshot:
  assumes k: "keep b M d"
  shows "wp (stage_snapshot dir name)
    (\<lambda>r t. keep b M t \<and> (\<forall>i. map_option snd r = Some i \<longrightarrow> entry_of t dir name = Some i)) (\<lambda>_. keep b M) d"
proof (rule wpI)
  show "keep b M t" if "stage_snapshot dir name d = (Inl e, t)" for e t
    using keep_same [OF k same_after [OF reads_stage_snapshot that]] .
  show "keep b M t \<and> (\<forall>i. map_option snd r = Some i \<longrightarrow> entry_of t dir name = Some i)"
    if r: "stage_snapshot dir name d = (Inr r, t)" for r t
  proof -
    have s: "same_files d t" by (rule same_after [OF reads_stage_snapshot r])
    then show ?thesis using keep_same [OF k s] r same_files_observe(3) [OF s]
      by (auto dest: stage_snapshot_Inr)
  qed
qed

lemma keeps_discard:
  assumes q: "mine M dir quarantine" and expected: "b \<Longrightarrow> fresh expected"
  shows "keeps (keep b M) (discard_quarantined dir quarantine expected)"
proof (rule keepsI)
  fix d assume k: "keep b M d"
  have unlink: "wp (ebind (sys_unlink dir discard) (\<lambda>_. ebind (stage_sync dir) (\<lambda>_. ereturn ()))) (\<lambda>_. keep b M) (\<lambda>_. keep b M) t"
    if "keep b M t" "entry_of t dir discard = Some expected" "mine M dir discard" for discard t
    unfolding wp_bind
    by (rule wp_mono [OF unlink_law [OF that(1,3)]]) (use expected that(2) in \<open>auto simp: wp_simps intro: staged_read\<close>)
  have check: "wp (ebind (stage_sync dir) (\<lambda>_.
        ebind (stage_snapshot dir discard) (\<lambda>snapshot.
        ebind (eguard (map_option snd snapshot = Some expected) (StagingError ''quarantined file identity changed before cleanup'')) (\<lambda>_.
        ebind (sys_unlink dir discard) (\<lambda>_.
        ebind (stage_sync dir) (\<lambda>_. ereturn ())))))) (\<lambda>_. keep b M) (\<lambda>_. keep b M) t"
    if "keep b M t" "mine M dir discard" for discard t
    unfolding wp_bind [of "stage_sync dir"] wp_bind [of "stage_snapshot dir discard"] wp_bind [of "eguard x y" for x y] wp_guard
    by (rule wp_mono [OF staged_read(1) [OF that(1)]], rule wp_mono [OF keep_snapshot])
      (use unlink that(2) in auto)
  show "wp (discard_quarantined dir quarantine expected) (\<lambda>_. keep b M) (\<lambda>_. keep b M) d"
    unfolding discard_quarantined_def wp_bind [of "rename_to_unique n dir quarantine p" for n p]
    by (rule wp_mono [OF keep_unique [OF q k]])
      (elim conjE, rule wp_undo [OF check keep_put_back], assumption+)
qed

lemma create_temporary_law:
  "keep b M d \<Longrightarrow> wp (create_temporary n dir name)
    (\<lambda>(temporary, i) t. keep b M t \<and> (mine M dir temporary \<and> fresh i \<and> entry_of t dir temporary = Some i
       \<and> temporary \<in> range (stage_temporary name))) (\<lambda>_. keep b M) d"
proof (induction n arbitrary: d)
  case 0
  then show ?case by (simp add: wp_simps)
next
  case (Suc n)
  have "wp (ebind (ecatch (ebind (sys_create dir candidate) (\<lambda>i. ereturn (Some i)))
         (\<lambda>e. if e = OsErrno EEXIST then ereturn None else eraise e)) (\<lambda>created.
     case created of None \<Rightarrow> create_temporary n dir name | Some i \<Rightarrow> ereturn (candidate, i)))
    (\<lambda>(temporary, i) t. keep b M t \<and> (mine M dir temporary \<and> fresh i \<and> entry_of t dir temporary = Some i
       \<and> temporary \<in> range (stage_temporary name))) (\<lambda>_. keep b M) t"
    if "keep b M t" "candidate = stage_temporary name token" for t candidate token
    using create_law [OF that(1), of dir candidate] Suc.IH that(2)
    by (auto simp: wp_simps elim!: wp_mono)
  then show ?case
    unfolding create_temporary.simps Let_def wp_bind [of draw_token]
    by (intro wp_mono [OF read_law [OF reads_token Suc.prems]]) auto
qed

text \<open>
  While a file is published its temporary name leads to the new inode, whatever is moved around it, so
  the cleanup after a failure removes that inode and nothing else.
\<close>

definition publishing :: "bool \<Rightarrow> (ino \<times> string) set \<Rightarrow> ino \<Rightarrow> string \<Rightarrow> ino \<Rightarrow> bool \<Rightarrow> disk \<Rightarrow> bool" where
  "publishing b M dir temporary i f d = (keep b M d \<and> stays dir temporary i f d)"

lemma publishing_read:
  assumes "\<And>s. keeps (same_files s) m" and "publishing b M dir temporary i f d"
  shows "wp m (\<lambda>_. publishing b M dir temporary i f) (\<lambda>_. publishing b M dir temporary i f) d"
  using wp_conj [OF read_law [OF assms(1)] keepsD [OF reads_stay [OF assms(1)]]] assms(2)
  by (simp add: publishing_def [abs_def])

lemma publishing_unique:
  assumes "mine M dir name" and "fold_key f temporary \<noteq> fold_key f name" and "publishing b M dir temporary i f d"
  shows "wp (rename_to_unique n dir name purpose)
    (\<lambda>q t. publishing b M dir temporary i f t \<and> mine M dir q \<and> q \<in> range (stage_private purpose) \<and> fold_key f temporary \<noteq> fold_key f q)
    (\<lambda>_. publishing b M dir temporary i f) d"
proof -
  have "keep b M d" "stays dir temporary i f d" using assms(3) by (simp_all add: publishing_def)
  from wp_conj [OF keep_unique [OF assms(1) this(1)] unique_stays [OF assms(2) this(2)]]
  show ?thesis by (rule wp_mono) (auto simp: publishing_def)
qed

lemma publishing_put_back:
  assumes "mine M dir q" and "fold_key f temporary \<noteq> fold_key f q" and "publishing b M dir temporary i f d"
  shows "wp (put_back message dir q name) (\<lambda>_. publishing b M dir temporary i f) (\<lambda>_. publishing b M dir temporary i f) d"
  using wp_conj [OF keep_put_back [OF assms(1)] put_back_stays [OF assms(2)]] assms(3)
  by (simp add: publishing_def [abs_def])

lemma publishing_fill:
  assumes "fresh i" and "publishing b M dir temporary j f d"
  shows "wp (fill_staged i payload) (\<lambda>_. publishing b M dir temporary j f) (\<lambda>_. publishing b M dir temporary j f) d"
proof -
  have "keeps (publishing b M dir temporary j f) (sys_write i payload)"
    using wp_conj [OF write_law [OF _ assms(1)] keepsD [OF write_stays]]
    by (intro keepsI) (simp add: publishing_def [abs_def])
  moreover have "keeps (publishing b M dir temporary j f) (sys_fchmod i)" "keeps (publishing b M dir temporary j f) (sys_sync i)"
    "keeps (publishing b M dir temporary j f) (sys_fstat i)"
    by (rule keepsI, rule publishing_read, rule keep_intros, assumption)+
  ultimately have "keeps (publishing b M dir temporary j f) (fill_staged i payload)"
    unfolding fill_staged_def by (intro keep_intros)
  then show ?thesis using assms(2) by (rule keepsD)
qed

definition aside_owned :: "(ino \<times> string) set \<Rightarrow> ino \<Rightarrow> string option \<Rightarrow> bool" where
  "aside_owned M dir quarantine = (\<forall>q. quarantine = Some q \<longrightarrow> mine M dir q \<and> q \<in> range (stage_private ''original''))"

lemma publishing_aside:
  assumes name: "mine M dir name" "fold_key f temporary \<noteq> fold_key f name" and p: "publishing b M dir temporary i f d"
  shows "wp (move_aside dir name expected)
    (\<lambda>q t. publishing b M dir temporary i f t \<and> aside_owned M dir q \<and> (\<forall>x. q = Some x \<longrightarrow> fold_key f temporary \<noteq> fold_key f x))
    (\<lambda>_. publishing b M dir temporary i f) d"
proof (cases expected)
  case None
  then show ?thesis using p by (simp add: move_aside_def wp_simps aside_owned_def)
next
  case (Some identity)
  let ?P = "publishing b M dir temporary i f"
  let ?check = "\<lambda>q. ebind (stage_sync dir) (\<lambda>_.
          ebind (stage_snapshot dir q) (\<lambda>snapshot.
          eguard (map_option snd snapshot = Some identity) (StagingError ''managed destination changed after snapshot'')))"
  have check: "wp (?check q) (\<lambda>_. ?P) (\<lambda>_. ?P) t" if "?P t" for q t
    by (rule publishing_read [OF _ that]) (intro keep_intros)
  have undo: "wp (eon_error (?check q) (put_back message dir q name)) (\<lambda>_. ?P) (\<lambda>_. ?P) t"
    if "?P t" "mine M dir q" "fold_key f temporary \<noteq> fold_key f q" for q t message
    by (rule wp_undo [OF check [OF that(1)]]) (rule publishing_put_back [OF that(2,3)])
  show ?thesis
    unfolding move_aside_def Some option.case wp_bind [of "rename_to_unique n dir name p" for n p]
      wp_bind [of "eon_error m c" for m c]
  proof (rule wp_mono [OF publishing_unique [OF name p]], elim conjE)
    fix q t assume "?P t" "mine M dir q" "q \<in> range (stage_private ''original'')" "fold_key f temporary \<noteq> fold_key f q"
    then show "wp (eon_error (?check q) (put_back ''managed destination changed and its quarantined inode could not be restored'' dir q name))
      (\<lambda>x. wp (ereturn (Some q)) (\<lambda>q t. ?P t \<and> aside_owned M dir q \<and> (\<forall>x. q = Some x \<longrightarrow> fold_key f temporary \<noteq> fold_key f x)) (\<lambda>_. ?P))
      (\<lambda>_. ?P) t"
      unfolding wp_basic by (intro wp_mono [OF undo]) (auto simp: aside_owned_def)
  qed
qed

lemma publish_at_law:
  assumes new: "fresh i" "mine M dir temporary" and name: "mine M dir name" "fold_key f temporary \<noteq> fold_key f name"
    and p: "publishing b M dir temporary i f d"
  shows "wp (publish_at dir name payload expected temporary i)
    (\<lambda>q t. keep b M t \<and> aside_owned M dir q) (\<lambda>_. publishing b M dir temporary i f) d"
proof -
  let ?P = "publishing b M dir temporary i f"
  have ren: "wp (stage_rename dir temporary name) (\<lambda>_. keep b M) (\<lambda>_. ?P) t" if "?P t" for t
  proof -
    have "keep b M t" using that by (simp add: publishing_def)
    from wp_conj [OF keep_stage_rename [OF new(2) this] rename_fails [of dir temporary name t]]
    show ?thesis
      by (rule wp_mono) (use that stays_same in \<open>auto simp: publishing_def\<close>)
  qed
  have undo: "wp (eon_error (stage_rename dir temporary name) (case q of None \<Rightarrow> ereturn ()
        | Some x \<Rightarrow> put_back message dir x name)) (\<lambda>_. keep b M) (\<lambda>_. ?P) t"
    if "?P t" "aside_owned M dir q" "\<forall>x. q = Some x \<longrightarrow> fold_key f temporary \<noteq> fold_key f x" for q t message
    by (rule wp_undo [OF ren [OF that(1)]])
      (use that(2,3) in \<open>auto simp: wp_simps aside_owned_def intro: publishing_put_back split: option.splits\<close>)
  have last_step: "wp (ebind (eon_error (stage_rename dir temporary name) (case q of None \<Rightarrow> ereturn ()
        | Some x \<Rightarrow> put_back message dir x name)) (\<lambda>_. ereturn q))
      (\<lambda>q t. keep b M t \<and> aside_owned M dir q) (\<lambda>_. ?P) t"
    if "?P t \<and> aside_owned M dir q \<and> (\<forall>x. q = Some x \<longrightarrow> fold_key f temporary \<noteq> fold_key f x)" for q t message
    unfolding wp_bind wp_basic using that by (intro wp_mono [OF undo]) auto
  show ?thesis
    unfolding publish_at_def wp_bind [of "fill_staged i payload"] wp_bind [of "stage_name_at dir name"]
      wp_bind [of "move_aside dir name expected"]
    by (rule wp_mono [OF publishing_fill [OF new(1) p]], rule wp_mono [OF publishing_read [OF reads_stage_name]], assumption,
        rule wp_mono [OF publishing_aside [OF name]], assumption, rule last_step) assumption+
qed

end

section \<open>The book\<close>

text \<open>The members of a prepared file that are never assigned again.\<close>

type_synonym staged_fixed = "string list \<times> byte list \<times> ino"

definition staged_fixed :: "staged_file \<Rightarrow> staged_fixed" where
  "staged_fixed item = (sf_relative item, sf_payload item, sf_parent item)"

lemma staged_fixed_kept [simp]:
  "staged_fixed (item\<lparr>sf_original := s\<rparr>) = staged_fixed item"
  "staged_fixed (item\<lparr>sf_installed := i\<rparr>) = staged_fixed item"
  "staged_fixed (item\<lparr>sf_quarantine := q\<rparr>) = staged_fixed item"
  by (simp_all add: staged_fixed_def)

lemma staged_fixed_eq:
  "staged_fixed item' = staged_fixed item \<Longrightarrow>
   sf_parent item' = sf_parent item \<and> sf_name item' = sf_name item \<and> sf_relative item' = sf_relative item \<and> sf_payload item' = sf_payload item"
  by (simp add: staged_fixed_def sf_name_def)

lemma wp_book [wp_simps]:
  "wp get_book R E = (\<lambda>p. R (snd p) p)"
  "wp (update_book f) Q E = (\<lambda>p. Q () (fst p, f (snd p)))"
  "wp (with_staged k g) Q' E = (\<lambda>p. wp (g (sb_prepared (snd p) ! k)) Q' E p)"
  "wp (set_staged k h) Q E = (\<lambda>p. Q () (fst p, (snd p)\<lparr>sb_prepared := (sb_prepared (snd p))[k := h (sb_prepared (snd p) ! k)]\<rparr>))"
  by (auto simp: fun_eq_iff wp_def get_book_def update_book_def with_staged_def set_staged_def ebind_def split: prod.splits)

context replacing_store
begin

definition staged_safe :: "(ino \<times> string) set \<Rightarrow> staged_file \<Rightarrow> bool" where
  "staged_safe M item =
     (mine M (sf_parent item) (sf_name item) \<and> (\<forall>i. sf_installed item = Some i \<longrightarrow> fresh i)
      \<and> aside_owned M (sf_parent item) (sf_quarantine item))"

definition book_safe :: "(ino \<times> string) set \<Rightarrow> staged_fixed list \<Rightarrow> staging_book \<Rightarrow> bool" where
  "book_safe M ps book =
     (map staged_fixed (sb_prepared book) = ps \<and> list_all (staged_safe M) (sb_prepared book)
      \<and> (\<forall>k \<in> set (sb_changed book). k < length ps))"

text \<open>The invariant of the state: the contract on the disk, and a book that names only what is the tool's.\<close>

definition staging_inv :: "bool \<Rightarrow> (ino \<times> string) set \<Rightarrow> staged_fixed list \<Rightarrow> disk \<times> staging_book \<Rightarrow> bool" where
  "staging_inv b M ps = (\<lambda>p. keep b M (fst p) \<and> book_safe M ps (snd p))"

lemma staging_disk:
  assumes "keeps (keep b M) m"
  shows "keeps (staging_inv b M ps) (on_disk m)"
  unfolding staging_inv_def using assms by (rule keeps_on_disk)

lemma staging_read:
  assumes "\<And>s. keeps (same_files s) m"
  shows "keeps (staging_inv b M ps) (on_disk m)"
  using assms keeps_reading staging_disk by blast

lemmas staging_reads = staging_read [OF reads_stage_sync] staging_read [OF reads_stage_name] staging_read [OF reads_stage_snapshot]
  staging_read [OF reads_stage_child] staging_read [OF reads_calls(1)] staging_read [OF reads_stage_root(3)]

lemma staging_get: "keeps (staging_inv b M ps) get_book"
  by (rule keepsI) (simp add: wp_simps)

lemma staging_created: "keeps (staging_inv b M ps) (update_book (\<lambda>b. b\<lparr>sb_created := f b\<rparr>))"
  by (rule keepsI) (simp add: wp_simps staging_inv_def book_safe_def)

lemma staging_changed: "k < length ps \<Longrightarrow> keeps (staging_inv b M ps) (update_book (\<lambda>b. b\<lparr>sb_changed := sb_changed b @ [k]\<rparr>))"
  by (rule keepsI) (simp add: wp_simps staging_inv_def book_safe_def)

lemma staging_set:
  assumes "\<And>item. staged_safe M item \<Longrightarrow> staged_fixed item = ps ! k \<Longrightarrow> staged_safe M (f item)"
    and "\<And>item. staged_fixed (f item) = staged_fixed item"
  shows "keeps (staging_inv b M ps) (set_staged k f)"
proof (rule keepsI)
  fix p assume p: "staging_inv b M ps p"
  let ?items = "sb_prepared (snd p)"
  let ?new = "?items[k := f (?items ! k)]"
  have fixed: "map staged_fixed ?items = ps" and safe: "list_all (staged_safe M) ?items"
    using p by (simp_all add: staging_inv_def book_safe_def)
  have "list_all (staged_safe M) ?new"
  proof (cases "k < length ?items")
    case True
    moreover have "staged_fixed (?items ! k) = ps ! k" using fixed True by auto
    ultimately show ?thesis using safe assms(1) by (auto simp: list_all_length nth_list_update)
  next
    case False
    then show ?thesis using safe by (simp add: list_update_beyond)
  qed
  moreover have "map staged_fixed ?new = ps"
  proof -
    have "map staged_fixed ?new = (map staged_fixed ?items)[k := staged_fixed (?items ! k)]"
      by (simp add: map_update assms(2))
    also have "\<dots> = map staged_fixed ?items"
      by (cases "k < length ?items") (simp_all add: list_update_beyond flip: nth_map)
    finally show ?thesis using fixed by simp
  qed
  ultimately show "wp (set_staged k f) (\<lambda>_. staging_inv b M ps) (\<lambda>_. staging_inv b M ps) p"
    using p by (simp add: staging_inv_def book_safe_def wp_simps)
qed

lemma staging_with:
  assumes "k < length ps"
    and "\<And>item. staged_safe M item \<Longrightarrow> staged_fixed item = ps ! k \<Longrightarrow> keeps (staging_inv b M ps) (f item)"
  shows "keeps (staging_inv b M ps) (with_staged k f)"
proof (rule keepsI)
  fix p assume p: "staging_inv b M ps p"
  let ?items = "sb_prepared (snd p)"
  have "map staged_fixed ?items = ps" "list_all (staged_safe M) ?items"
    using p by (simp_all add: staging_inv_def book_safe_def)
  moreover have "k < length ?items" using assms(1) calculation(1) by auto
  ultimately have "staged_safe M (?items ! k)" "staged_fixed (?items ! k) = ps ! k"
    by (auto simp: list_all_length)
  then show "wp (with_staged k f) (\<lambda>_. staging_inv b M ps) (\<lambda>_. staging_inv b M ps) p"
    using keepsD [OF assms(2) p] by (simp add: wp_simps)
qed

text \<open>A call that answers with a fact: what follows may use it.\<close>

lemma staging_fact:
  assumes "\<And>d. keep b M d \<Longrightarrow> wp m (\<lambda>x t. keep b M t \<and> F x) (\<lambda>_. keep b M) d"
    and "\<And>x. F x \<Longrightarrow> keeps (staging_inv b M ps) (f x)"
  shows "keeps (staging_inv b M ps) (ebind (on_disk m) f)"
proof (rule keepsI)
  fix p assume p: "staging_inv b M ps p"
  have "wp (f x) (\<lambda>_. staging_inv b M ps) (\<lambda>_. staging_inv b M ps) (t, snd p)" if "keep b M t" "F x" for x t
    using keepsD [OF assms(2) [OF that(2)], of "(t, snd p)"] that(1) p by (auto simp: staging_inv_def)
  then show "wp (ebind (on_disk m) f) (\<lambda>_. staging_inv b M ps) (\<lambda>_. staging_inv b M ps) p"
    using assms(1) [of "fst p"] p
    by (cases p) (auto simp: wp_simps staging_inv_def elim!: wp_mono)
qed

lemma staging_below: "keeps (staging_inv b M ps) (stage_below current walked parts create)"
proof (induction current walked parts create rule: stage_below.induct)
  case (1 current walked create)
  then show ?case by (simp add: keep_intros)
next
  case (2 current walked part parts create)
  have "keeps (keep b M) (stage_mkdir current part)"
  proof -
    have "keeps (keep b M) (sys_mkdir current part)" by (rule keepsI) (rule mkdir_law)
    then show ?thesis unfolding stage_mkdir_def
      by (intro keep_intros keeps_reading [OF reads_stage_sync] keeps_reading [OF reads_stage_name])
  qed
  then have mk: "keeps (staging_inv b M ps) (on_disk (stage_mkdir current part))" by (rule staging_disk)
  show ?case
    unfolding stage_below.simps
    by (intro keep_intros staging_reads mk staging_created 2) auto
qed

lemma staging_parent: "keeps (staging_inv b M ps) (stage_parent_at root_descriptor relative create)"
  unfolding stage_parent_at_def by (rule staging_below)

text \<open>Publishing a file.\<close>

lemma staging_write:
  assumes k: "k < length ps"
  shows "keeps (staging_inv b M ps) (atomic_write_at k)"
  unfolding atomic_write_at_def
proof (rule staging_with [OF k])
  fix item assume safe: "staged_safe M item" and fixed: "staged_fixed item = ps ! k"
  let ?dir = "sf_parent item"
  let ?name = "sf_name item"
  let ?publish = "\<lambda>temporary i. eon_error
       (publish_at ?dir ?name (sf_payload item) (map_option snd (sf_original item)) temporary i)
       (discard_temporary ?dir temporary)"
  have name: "mine M ?dir ?name" using safe by (simp add: staged_safe_def)
  have discard: "wp (discard_temporary ?dir temporary) (\<lambda>_. keep b M) (\<lambda>_. keep b M) t"
    if "publishing b M ?dir temporary i f t" "mine M ?dir temporary" "fresh i" for temporary i f t
  proof -
    have t: "keep b M t" "entry_of t ?dir temporary = Some i" using that(1) by (simp_all add: publishing_def stays_def)
    have "wp (sys_unlink ?dir temporary) (\<lambda>_. keep b M) (\<lambda>_. keep b M) t"
      by (rule unlink_law [OF t(1) that(2)]) (use t(2) that(3) in simp)
    then show ?thesis
      unfolding discard_temporary_def wp_catch wp_bind
      by (rule wp_mono) (auto simp: wp_simps intro!: wp_mono [OF staged_read(1)])
  qed
  have publish: "wp (?publish temporary i) (\<lambda>q t. keep b M t \<and> aside_owned M ?dir q) (\<lambda>_. keep b M) d"
    if "keep b M d" "mine M ?dir temporary" "fresh i" "entry_of d ?dir temporary = Some i" "temporary \<in> range (stage_temporary ?name)"
    for temporary i d
  proof -
    have p: "publishing b M ?dir temporary i (dk_fold d) d" using that by (simp add: publishing_def stays_def)
    have key: "fold_key (dk_fold d) temporary \<noteq> fold_key (dk_fold d) ?name" using that(5) temporary_key by blast
    show ?thesis
      unfolding wp_on_error
      by (rule wp_mono [OF publish_at_law [OF that(3,2) name key p]]) (use discard that in auto)
  qed
  have store: "keeps (staging_inv b M ps) (set_staged k (\<lambda>item. item\<lparr>sf_installed := Some i, sf_quarantine := q\<rparr>))"
    if "fresh i" "aside_owned M ?dir q" for i q
  proof (rule staging_set)
    fix item' assume "staged_safe M item'" "staged_fixed item' = ps ! k"
    then show "staged_safe M (item'\<lparr>sf_installed := Some i, sf_quarantine := q\<rparr>)"
      using staged_fixed_eq [of item' item] fixed that by (simp add: staged_safe_def sf_name_def)
  qed simp
  have again: "keeps (staging_inv b M ps) (set_staged k (\<lambda>item. item\<lparr>sf_installed := Some i\<rparr>))" if "fresh i" for i
    by (rule staging_set) (use that in \<open>auto simp: staged_safe_def sf_name_def\<close>)
  have body: "keep b M d \<Longrightarrow> wp (ebind (create_temporary 32 ?dir ?name) (\<lambda>(temporary, i).
      ebind (?publish temporary i) (\<lambda>q. ereturn (temporary, i, q))))
      (\<lambda>(temporary, i, q) t. keep b M t \<and> (fresh i \<and> aside_owned M ?dir q)) (\<lambda>_. keep b M) d" for d
    unfolding wp_bind [of "create_temporary 32 ?dir ?name"]
    by (rule wp_mono [OF create_temporary_law]) (auto simp: wp_bind wp_basic split: prod.splits intro!: wp_mono [OF publish])
  have join: "ebind (on_disk (create_temporary 32 ?dir ?name)) (\<lambda>(temporary, i).
       ebind (on_disk (?publish temporary i)) (\<lambda>q. g i q)) =
     ebind (on_disk (ebind (create_temporary 32 ?dir ?name) (\<lambda>(temporary, i).
        ebind (?publish temporary i) (\<lambda>q. ereturn (temporary, i, q))))) (\<lambda>(temporary, i, q). g i q)" for g :: "ino \<Rightarrow> string option \<Rightarrow> unit staging_run"
    by (auto simp: fun_eq_iff ebind_def on_disk_def ereturn_def split: prod.splits sum.splits)
  show "keeps (staging_inv b M ps) (ebind (on_disk (create_temporary 32 ?dir ?name)) (\<lambda>(temporary, i).
     ebind (on_disk (?publish temporary i)) (\<lambda>quarantine.
     ebind (set_staged k (\<lambda>item. item\<lparr>sf_installed := Some i, sf_quarantine := quarantine\<rparr>)) (\<lambda>_.
     ebind (on_disk (stage_sync ?dir)) (\<lambda>_.
     set_staged k (\<lambda>item. item\<lparr>sf_installed := Some i\<rparr>))))))"
    unfolding join
  proof (rule staging_fact [where F = "\<lambda>(temporary, i, q). fresh i \<and> aside_owned M ?dir q"])
    show "wp (ebind (create_temporary 32 ?dir ?name) (\<lambda>(temporary, i).
        ebind (?publish temporary i) (\<lambda>q. ereturn (temporary, i, q))))
      (\<lambda>x t. keep b M t \<and> (case x of (temporary, i, q) \<Rightarrow> fresh i \<and> aside_owned M ?dir q)) (\<lambda>_. keep b M) d"
      if "keep b M d" for d
      using body [OF that] by (simp add: case_prod_unfold)
    fix x :: "string \<times> ino \<times> string option"
    assume x: "case x of (temporary, i, q) \<Rightarrow> fresh i \<and> aside_owned M ?dir q"
    obtain temporary i q where "x = (temporary, i, q)" by (cases x)
    then show "keeps (staging_inv b M ps) (case x of (temporary, i, q) \<Rightarrow>
       ebind (set_staged k (\<lambda>item. item\<lparr>sf_installed := Some i, sf_quarantine := q\<rparr>)) (\<lambda>_.
       ebind (on_disk (stage_sync ?dir)) (\<lambda>_. set_staged k (\<lambda>item. item\<lparr>sf_installed := Some i\<rparr>))))"
      using x store again by (auto intro!: keep_intros staging_reads)
  qed
qed

lemma staging_write_file:
  assumes k: "k < length ps"
  shows "keeps (staging_inv b M ps) (write_staged k)"
  unfolding write_staged_def
  by (intro staging_with [OF k] keep_intros staging_changed [OF k] staging_write [OF k])

lemma staging_verify:
  assumes k: "k < length ps"
  shows "keeps (staging_inv b M ps) (verify_staged reported root_descriptor k)"
  unfolding verify_staged_def
  by (intro staging_with [OF k] keep_intros staging_parent staging_reads)

text \<open>Rollback and cleanup.\<close>

lemma keeps_restore: "mine M dir q \<Longrightarrow> keeps (keep b M) (restore_quarantine dir q name)"
  by (rule keepsI) (rule keep_restore)

lemma staging_restore:
  assumes safe: "staged_safe M item"
  shows "keeps (staging_inv b M ps) (restore_original k item)"
proof (cases "sf_quarantine item")
  case None
  then show ?thesis by (auto simp: restore_original_def intro!: keep_intros)
next
  case (Some q)
  then have "mine M (sf_parent item) q" using safe by (simp add: staged_safe_def aside_owned_def)
  moreover have "keeps (staging_inv b M ps) (set_staged k (\<lambda>item. item\<lparr>sf_quarantine := None\<rparr>))"
    by (rule staging_set) (auto simp: staged_safe_def sf_name_def aside_owned_def)
  ultimately show ?thesis unfolding restore_original_def Some option.case
    by (intro keep_intros staging_disk [OF keeps_restore])
qed

lemma staging_undo:
  assumes safe: "staged_safe M item" and new: "fresh installed" and q: "mine M (sf_parent item) q"
  shows "keeps (staging_inv b M ps) (undo_installed k item installed q)"
  unfolding undo_installed_def
  by (intro keep_intros staging_reads staging_restore [OF safe] staging_disk [OF keeps_discard [OF q new]]
      staging_disk [OF keeps_try [OF keeps_restore [OF q]]])

lemma staging_rollback:
  assumes k: "k < length ps"
  shows "keeps (staging_inv b M ps) (rollback_staged k)"
  unfolding rollback_staged_def
proof (rule staging_with [OF k], rule keeps_bind [OF staging_reads(3)])
  fix item snapshot assume safe: "staged_safe M item"
  have "keeps (staging_inv b M ps)
      (ebind (on_disk (rename_to_unique 32 (sf_parent item) (sf_name item) ''rollback'')) (undo_installed k item installed))"
    if "fresh installed" for installed
    by (rule staging_fact [where F = "mine M (sf_parent item)"])
      (use safe in \<open>auto simp: staged_safe_def intro: wp_mono [OF keep_unique] staging_undo that\<close>)
  then show "keeps (staging_inv b M ps) (case sf_installed item of
       None \<Rightarrow> eguard (original_state_matches item snapshot) (StagingError ''rollback conflict'')
     | Some installed \<Rightarrow>
         ebind (on_disk (rename_to_unique 32 (sf_parent item) (sf_name item) ''rollback'')) (undo_installed k item installed))"
    using safe by (cases "sf_installed item") (simp_all add: staged_safe_def keeps_guard)
qed

lemma staging_cleanup:
  assumes k: "k < length ps"
  shows "keeps (staging_inv False M ps) (cleanup_staged k)"
  unfolding cleanup_staged_def
proof (rule staging_with [OF k])
  fix item assume safe: "staged_safe M item"
  have "keeps (staging_inv False M ps) (set_staged k (\<lambda>item. item\<lparr>sf_quarantine := None\<rparr>))"
    by (rule staging_set) (auto simp: staged_safe_def sf_name_def aside_owned_def)
  moreover have "keeps (staging_inv False M ps) (on_disk (discard_quarantined (sf_parent item) q identity))"
    if "sf_quarantine item = Some q" for q identity
    by (rule staging_disk [OF keeps_discard]) (use safe that in \<open>auto simp: staged_safe_def aside_owned_def\<close>)
  ultimately show "keeps (staging_inv False M ps) (case (sf_quarantine item, sf_original item) of
       (Some quarantine, Some (_, identity)) \<Rightarrow>
         ebind (on_disk (discard_quarantined (sf_parent item) quarantine identity)) (\<lambda>_.
         set_staged k (\<lambda>item. item\<lparr>sf_quarantine := None\<rparr>))
     | _ \<Rightarrow> ereturn ())"
    by (auto intro!: keep_intros split: option.splits)
qed

section \<open>The transaction keeps the contract\<close>

text \<open>What the caller grants: the names of the managed files may be moved.\<close>

definition stage_grant :: "(ino \<times> string) set \<Rightarrow> string list \<Rightarrow> bool" where
  "stage_grant M relative = (\<forall>dir. mine M dir (last relative))"

lemma staging_prepare:
  assumes grant: "stage_grant M (fst job)" and p: "staging_inv b M ps p"
  shows "wp (prepare_staged root_descriptor job)
    (\<lambda>_ q. \<exists>x. staging_inv b M (ps @ [x]) q \<and> (fst x, fst (snd x)) = job) (\<lambda>_ q. \<exists>ps. staging_inv b M ps q) p"
proof -
  obtain relative payload where job: "job = (relative, payload)" by (cases job)
  let ?new = "\<lambda>parent. \<lparr>sf_relative = relative, sf_payload = payload, sf_parent = parent, sf_original = None,
      sf_installed = None, sf_quarantine = None\<rparr>"
  let ?E = "\<lambda>_ q. \<exists>ps. staging_inv b M ps q"
  let ?Q = "\<lambda>_ q. \<exists>x. staging_inv b M (ps @ [x]) q \<and> (fst x, fst (snd x)) = job"
  have added: "staging_inv b M (ps @ [(relative, payload, parent)])
      (fst q, (snd q)\<lparr>sb_prepared := sb_prepared (snd q) @ [?new parent]\<rparr>)" if "staging_inv b M ps q" for parent q
    using that grant
    by (auto simp: staging_inv_def book_safe_def staged_fixed_def staged_safe_def stage_grant_def job sf_name_def aside_owned_def less_SucI)
  have snap: "wp (ebind (on_disk (stage_snapshot parent (last relative))) (\<lambda>snapshot.
         set_staged n (\<lambda>item. item\<lparr>sf_original := snapshot\<rparr>))) ?Q ?E q"
    if "staging_inv b M (ps @ [(relative, payload, parent)]) q" for parent n q
  proof -
    have "keeps (staging_inv b M (ps @ [(relative, payload, parent)])) (ebind (on_disk (stage_snapshot parent (last relative))) (\<lambda>snapshot.
         set_staged n (\<lambda>item. item\<lparr>sf_original := snapshot\<rparr>)))"
      by (intro keeps_bind staging_reads staging_set) (auto simp: staged_safe_def sf_name_def)
    from keepsD [OF this that] show ?thesis by (rule wp_mono) (use job in auto)
  qed
  have found: "wp (case found of
       None \<Rightarrow> eraise (AssertionError ''parent_descriptor is not None'')
     | Some parent \<Rightarrow>
         ebind (on_disk (sys_fstat parent)) (\<lambda>_.
         ebind get_book (\<lambda>book.
         ebind (update_book (\<lambda>b. b\<lparr>sb_prepared := sb_prepared b @ [?new parent]\<rparr>)) (\<lambda>_.
         ebind (on_disk (stage_snapshot parent (last relative))) (\<lambda>snapshot.
         set_staged (length (sb_prepared book)) (\<lambda>item. item\<lparr>sf_original := snapshot\<rparr>)))))) ?Q ?E q"
    if "staging_inv b M ps q" for found q
  proof (cases found)
    case None
    then show ?thesis using that by (auto simp: wp_basic)
  next
    case (Some parent)
    show ?thesis
      unfolding Some option.case wp_bind [of "on_disk (sys_fstat parent)"]
      by (rule wp_mono [OF keepsD [OF staging_reads(5) that]])
        (use snap added in \<open>auto simp: wp_bind [of get_book] wp_bind [of "update_book f" for f] wp_book\<close>)
  qed
  show ?thesis
    unfolding prepare_staged_def job prod.case wp_bind [of "stage_parent_at root_descriptor relative True"]
    by (rule wp_mono [OF keepsD [OF staging_parent p]]) (use found job in auto)
qed

lemma staging_prepare_all:
  assumes "\<And>job. job \<in> set jobs \<Longrightarrow> stage_grant M (fst job)" and "staging_inv b M ps p"
  shows "wp (efold (\<lambda>job _. prepare_staged root_descriptor job) jobs ())
    (\<lambda>_ q. \<exists>xs. staging_inv b M (ps @ xs) q \<and> map (\<lambda>x. (fst x, fst (snd x))) xs = jobs)
    (\<lambda>_ q. \<exists>ps. staging_inv b M ps q) p"
  using assms
proof (induction jobs arbitrary: ps p)
  case Nil
  then show ?case by (auto simp: wp_simps)
next
  case (Cons job jobs)
  have next_job: "wp (efold (\<lambda>job _. prepare_staged root_descriptor job) jobs ())
      (\<lambda>_ q. \<exists>xs. staging_inv b M (ps @ xs) q \<and> map (\<lambda>x. (fst x, fst (snd x))) xs = job # jobs)
      (\<lambda>_ q. \<exists>ps. staging_inv b M ps q) q"
    if "staging_inv b M (ps @ [x]) q" "(fst x, fst (snd x)) = job" for x q
  proof (rule wp_mono [OF Cons.IH [OF _ that(1)]])
    fix u t assume "\<exists>xs. staging_inv b M ((ps @ [x]) @ xs) t \<and> map (\<lambda>x. (fst x, fst (snd x))) xs = jobs"
    then obtain xs where "staging_inv b M (ps @ x # xs) t" "map (\<lambda>x. (fst x, fst (snd x))) xs = jobs" by auto
    then show "\<exists>xs. staging_inv b M (ps @ xs) t \<and> map (\<lambda>x. (fst x, fst (snd x))) xs = job # jobs"
      using that(2) by (intro exI [of _ "x # xs"]) simp
  qed (use Cons.prems(1) in auto)
  show ?case
    unfolding efold.simps wp_bind
    by (rule wp_mono [OF staging_prepare [OF Cons.prems(1) Cons.prems(2)]]) (use next_job in auto)
qed

lemma staging_directories:
  "keeps (staging_inv b M ps) (efold (\<lambda>relative _. prepare_directory root_descriptor relative) ds ())"
  unfolding prepare_directory_def
  by (intro keeps_efold_in keeps_bind staging_parent keeps_guard)

lemma staging_body:
  assumes "\<And>job. job \<in> set (sp_files plan) \<Longrightarrow> stage_grant M (fst job)" and "keep b M d"
  shows "wp (staging_transaction reported plan path root_descriptor)
    (\<lambda>_ q. \<exists>ps. staging_inv b M ps q \<and> map (\<lambda>x. (fst x, fst (snd x))) ps = sp_files plan)
    (\<lambda>_ q. \<exists>ps. staging_inv b M ps q) (d, \<lparr>sb_created = [], sb_prepared = [], sb_changed = []\<rparr>)"
proof -
  let ?files = "\<lambda>n. ebind (for_items write_staged [0..<n]) (\<lambda>_.
     ebind (on_disk (verify_stage_root path root_descriptor (sp_identity plan))) (\<lambda>_.
     for_items (verify_staged reported root_descriptor) [0..<n]))"
  have start: "staging_inv b M [] (d, \<lparr>sb_created = [], sb_prepared = [], sb_changed = []\<rparr>)"
    using assms(2) by (simp add: staging_inv_def book_safe_def)
  have rest: "keeps (staging_inv b M ps) (?files (length ps))" for ps
    by (intro keeps_bind keeps_for_items staging_write_file staging_verify staging_reads) auto
  have counted: "wp (ebind get_book (\<lambda>book. ?files (length (sb_prepared book))))
     (\<lambda>_. staging_inv b M ps) (\<lambda>_. staging_inv b M ps) q" if "staging_inv b M ps q" for ps q
  proof -
    have "length (sb_prepared (snd q)) = length ps" using that by (auto simp: staging_inv_def book_safe_def)
    then show ?thesis
      unfolding wp_bind [of get_book] wp_book using keepsD [OF rest that] by simp
  qed
  have prepared: "wp (ebind (efold (\<lambda>managed _. prepare_staged root_descriptor managed) (sp_files plan) ())
        (\<lambda>_. ebind get_book (\<lambda>book. ?files (length (sb_prepared book)))))
     (\<lambda>_ q. \<exists>ps. staging_inv b M ps q \<and> map (\<lambda>x. (fst x, fst (snd x))) ps = sp_files plan)
     (\<lambda>_ q. \<exists>ps. staging_inv b M ps q) q" if "staging_inv b M [] q" for q
    unfolding wp_bind [of "efold f (sp_files plan) ()" for f]
  proof (rule wp_mono [OF staging_prepare_all [OF assms(1) that]])
    fix u t assume "\<exists>xs. staging_inv b M ([] @ xs) t \<and> map (\<lambda>x. (fst x, fst (snd x))) xs = sp_files plan"
    then obtain xs where xs: "staging_inv b M xs t" "map (\<lambda>x. (fst x, fst (snd x))) xs = sp_files plan" by auto
    show "wp (ebind get_book (\<lambda>book. ?files (length (sb_prepared book))))
       (\<lambda>_ q. \<exists>ps. staging_inv b M ps q \<and> map (\<lambda>x. (fst x, fst (snd x))) ps = sp_files plan)
       (\<lambda>_ q. \<exists>ps. staging_inv b M ps q) t"
      by (rule wp_mono [OF counted [OF xs(1)]]) (use xs(2) in blast)+
  qed auto
  show ?thesis
    unfolding staging_transaction_def wp_bind [of "efold f (sp_directories plan) ()" for f]
    by (rule wp_mono [OF keepsD [OF staging_directories start]]) (use prepared in auto)
qed

lemma staging_rolled_back:
  assumes "staging_inv b M ps q"
  shows "wp (rollback_staging e) (\<lambda>_. staging_inv b M ps) (\<lambda>_. staging_inv b M ps) q"
proof -
  have "\<And>k. k \<in> set (rev (sb_changed (snd q))) \<Longrightarrow> k < length ps" using assms by (auto simp: staging_inv_def book_safe_def)
  then have "wp (attempt_each rollback_staged (rev (sb_changed (snd q)))) (\<lambda>_. staging_inv b M ps) (\<lambda>_ _. False) q"
    by (intro wp_attempt_each [OF staging_rollback assms])
  then show ?thesis
    unfolding rollback_staging_def wp_bind [of get_book] wp_book wp_bind [of "attempt_each f xs" for f xs]
    by (rule wp_mono) (auto simp: wp_simps)
qed

lemma staging_cleaned_up:
  assumes "staging_inv False M ps q"
  shows "wp cleanup_staging (\<lambda>_. staging_inv False M ps) (\<lambda>e q. e = STAGING_CLEANUP \<and> staging_inv False M ps q) q"
proof -
  have "\<And>k. k \<in> set (sb_changed (snd q)) \<Longrightarrow> k < length ps" using assms by (auto simp: staging_inv_def book_safe_def)
  then have "wp (attempt_each cleanup_staged (sb_changed (snd q))) (\<lambda>_. staging_inv False M ps) (\<lambda>_ _. False) q"
    by (intro wp_attempt_each [OF staging_cleanup assms])
  then show ?thesis
    unfolding cleanup_staging_def wp_bind [of get_book] wp_book wp_bind [of "attempt_each f xs" for f xs]
    by (rule wp_mono) (auto simp: wp_simps)
qed

text \<open>
  A failure leaves every original in its directory, unless only the final removal of the replaced
  originals failed.
\<close>

lemma write_staging_keeps:
  assumes "\<And>job. job \<in> set (sp_files plan) \<Longrightarrow> stage_grant M (fst job)" and "keep True M d"
  shows "wp (write_staging reported plan path root_descriptor) (\<lambda>_. keep False M) (\<lambda>e. keep (e \<noteq> STAGING_CLEANUP) M) d"
proof -
  have weaker: "staging_inv b' M ps q" if "staging_inv True M ps q" for b' ps q
    using that keep_weaken [of True M "fst q" M b'] by (simp add: staging_inv_def)
  have disk: "keep b M (fst q)" if "staging_inv b M ps q" for b ps q using that by (simp add: staging_inv_def)
  have clean: "wp cleanup_staging (\<lambda>_ q. keep False M (fst q)) (\<lambda>e q. keep (e \<noteq> STAGING_CLEANUP) M (fst q)) q"
    if "staging_inv True M ps q" for ps q
    by (rule wp_mono [OF staging_cleaned_up [OF weaker [OF that]]]) (auto dest: disk)
  have undo: "wp (rollback_staging e) (\<lambda>_ q. wp cleanup_staging (\<lambda>_ q. keep False M (fst q)) (\<lambda>e q. keep (e \<noteq> STAGING_CLEANUP) M (fst q)) q)
      (\<lambda>e q. keep (e \<noteq> STAGING_CLEANUP) M (fst q)) q" if "staging_inv True M ps q" for e ps q
    by (rule wp_mono [OF staging_rolled_back [OF that]]) (auto intro: clean disk weaker)
  have "wp (ebind (ecatch (staging_transaction reported plan path root_descriptor) rollback_staging) (\<lambda>_. cleanup_staging))
      (\<lambda>_ q. keep False M (fst q)) (\<lambda>e q. keep (e \<noteq> STAGING_CLEANUP) M (fst q))
      (d, \<lparr>sb_created = [], sb_prepared = [], sb_changed = []\<rparr>)"
    unfolding wp_bind wp_catch
    by (rule wp_mono [OF staging_body [OF assms]]) (auto intro: clean undo)
  then show ?thesis
    by (auto simp: wp_def write_staging_def run_staging_def split: prod.splits sum.splits)
qed

end

end
