(* ===== verification/Staging_Verified.thy ===== *)
theory Staging_Verified
  imports Staging_Facts Card_Facts
begin

text \<open>
  What the steps of staging say when they succeed: what a snapshot has read, how the files of a plan
  are classified, what the write loop leaves of each file, and what the verification has seen.
\<close>

section \<open>What steps that succeed say\<close>

lemma stage_absent:
  assumes "stage_name_at dir name d = (Inr False, t)"
  shows "entry_of d dir name = None"
proof -
  obtain names u where l: "sys_listdir dir d = (Inr names, u)" and e: "filter (\<lambda>n. casefold n = casefold name) names = []"
    using assms by (auto simp: stage_name_at_def res_simps Let_def split: if_splits)
  from l have "names = map fst (entries (call_made d) dir)"
    unfolding sys_listdir_def by (drule_tac get_call_both) (auto split: if_splits)
  then have n: "names = map fst (entries d dir)" using same_files_observe(1) [OF same_call [of d]] by simp
  have "name_key d n \<noteq> name_key d name" if "(n, i) \<in> set (entries d dir)" for n i
  proof
    assume "name_key d n = name_key d name"
    then have "casefold n = casefold name" by (auto simp: name_key_def split: if_splits)
    then show False using e n that by (force simp: filter_empty_conv)
  qed
  then show ?thesis unfolding entry_of_def by (intro find_entry_None [THEN iffD2]) auto
qed

lemma on_disk_Inr [res_simps]: "on_disk m (d, b) = (Inr x, (t, b')) \<longleftrightarrow> m d = (Inr x, t) \<and> b' = b"
  by (auto simp: on_disk_def split: prod.splits)

lemma same_below: "same_files d t \<Longrightarrow> dir_below t i ps = dir_below d i ps"
  using same_files_observe [of d t] by (induction ps arbitrary: i) (auto split: option.splits)

lemma stage_child_Inr: "stage_child current part d = (Inr child, t) \<Longrightarrow>
  entry_of d current part = Some child \<and> is_dir d child \<and> same_files d t"
proof -
  assume c: "stage_child current part d = (Inr child, t)"
  then obtain i n u where 1: "sys_stat_at current part d = (Inr (i, n), u)" and 2: "sys_open_dir_at current part u = (Inr child, t)"
    by (auto simp: stage_child_def res_simps)
  have "same_files d u" using stat_at_Inr [OF 1] by simp
  then show ?thesis using open_dir_at_Inr [OF 2] same_files_observe [of d u] same_files_trans [of d u t]
    by (auto simp: child_node_Inr is_dir_def)
qed

lemma stage_below_Inr:
  "stage_below i walked ps False (d, b) = (Inr found, (t, b')) \<Longrightarrow> b' = b \<and> same_files d t \<and> dir_below d i ps = found"
proof (induction ps arbitrary: i walked d)
  case Nil
  then show ?case by (simp add: res_simps)
next
  case (Cons part parts)
  obtain present u where 1: "stage_name_at i part d = (Inr present, u)"
    using Cons.prems by (auto simp: res_simps elim: on_disk_Inr [THEN iffD1, elim_format])
  have s: "same_files d u" by (rule same_after [OF reads_stage_name 1])
  show ?case
  proof (cases present)
    case False
    then have "found = None" "t = u" "b' = b" using Cons.prems 1 by (auto simp: res_simps ebind_def on_disk_def ereturn_def)
    then show ?thesis using s stage_absent 1 False by simp
  next
    case True
    then obtain child v where 2: "stage_child i part u = (Inr child, v)"
      and 3: "stage_below child (walked @ [part]) parts False (v, b) = (Inr found, (t, b'))"
      using Cons.prems 1 by (auto simp: ebind_def on_disk_def ereturn_def split: prod.splits sum.splits)
    note c = stage_child_Inr [OF 2]
    have "same_files d v" using s c same_files_trans by blast
    then have dv: "same_files d v" .
    note IH = Cons.IH [OF 3]
    have "dir_below d i (part # parts) = dir_below d child parts"
      using c same_files_observe [OF s] by simp
    also have "\<dots> = found" using IH same_below [OF dv, of child parts] by simp
    finally show ?thesis using IH dv same_files_trans by blast
  qed
qed

lemma stage_parent_Inr:
  "stage_parent_at i relative False (d, b) = (Inr found, (t, b')) \<Longrightarrow> b' = b \<and> same_files d t \<and> dir_below d i (butlast relative) = found"
  unfolding stage_parent_at_def by (rule stage_below_Inr)

lemma stage_snapshot_None: "stage_snapshot dir name d = (Inr None, t) \<Longrightarrow> entry_of d dir name = None"
  by (auto simp: stage_snapshot_def res_simps dest: stage_absent split: if_splits)

text \<open>Which file is found where.\<close>

lemma snapshot_below:
  assumes "dir_below d rd (butlast relative) = Some dir" and "stage_snapshot dir (last relative) d = (Inr snapshot, t)"
  shows "file_below d rd relative = map_option fst snapshot"
proof (cases snapshot)
  case None
  then show ?thesis using assms stage_snapshot_None by (simp add: file_below_def)
next
  case (Some p)
  then show ?thesis using assms stage_snapshot_Inr [of dir "last relative" d "fst p" "snd p" t] by (simp add: file_below_def)
qed

section \<open>Classification\<close>

lemma run_parent_Inr: "run_staging (stage_parent_at i relative False) d = (Inr found, t) \<Longrightarrow>
  same_files d t \<and> dir_below d i (butlast relative) = found"
  by (auto simp: run_staging_def split: prod.splits dest: stage_parent_Inr)

lemma classify_file_Inr:
  assumes "classify_file rd (relative, payload) (new, replaced, unchanged) d = (Inr r, t)"
  shows "same_files d t \<and> r = (case file_below d rd relative of
      None \<Rightarrow> (new @ [relative], replaced, unchanged)
    | Some contents \<Rightarrow> if contents = payload then (new, replaced, unchanged @ [relative]) else (new, replaced @ [relative], unchanged))"
proof -
  obtain found u where 1: "run_staging (stage_parent_at rd relative False) d = (Inr found, u)"
    using assms by (auto simp: classify_file_def res_simps)
  note f = run_parent_Inr [OF 1]
  show ?thesis
  proof (cases found)
    case None
    then show ?thesis using assms 1 f by (auto simp: classify_file_def ebind_def ereturn_def file_below_def)
  next
    case (Some dir)
    then obtain snapshot where 2: "stage_snapshot dir (last relative) u = (Inr snapshot, t)"
      and r: "r = (case snapshot of None \<Rightarrow> (new @ [relative], replaced, unchanged)
           | Some (contents, i) \<Rightarrow> if contents = payload then (new, replaced, unchanged @ [relative])
               else (new, replaced @ [relative], unchanged))"
      using assms 1 by (auto simp: classify_file_def res_simps ebind_def split: prod.splits sum.splits)
    have "file_below u rd relative = map_option fst snapshot"
      by (rule snapshot_below [OF _ 2]) (use f Some same_below [of d u rd "butlast relative"] in simp)
    moreover have "file_below u rd relative = file_below d rd relative" using file_below_same f by blast
    ultimately show ?thesis
      using r f same_after [OF reads_stage_snapshot 2] same_files_trans by (cases snapshot) auto
  qed
qed

lemma open_stage_root_Inr: "open_stage_root path expected d = (Inr i, t) \<Longrightarrow> i = expected \<and> same_files d t"
  using same_after [OF reads_stage_root(2), of path expected d "Inr i" t] by (auto simp: open_stage_root_def res_simps)

text \<open>The managed files whose current contents are in a given relation to the package's.\<close>

definition managed_where :: "(byte list option \<Rightarrow> byte list \<Rightarrow> bool) \<Rightarrow> disk \<Rightarrow> ino \<Rightarrow> (string list \<times> byte list) list \<Rightarrow> string list list" where
  "managed_where P d rd files = map fst (filter (\<lambda>job. P (file_below d rd (fst job)) (snd job)) files)"

lemma classify_fold_Inr:
  "efold (classify_file rd) files (new, replaced, unchanged) d = (Inr r, t) \<Longrightarrow>
   r = (new @ managed_where (\<lambda>found payload. found = None) d rd files,
        replaced @ managed_where (\<lambda>found payload. found \<noteq> None \<and> found \<noteq> Some payload) d rd files,
        unchanged @ managed_where (\<lambda>found payload. found = Some payload) d rd files)"
proof (induction files arbitrary: new replaced unchanged d)
  case Nil
  then show ?case by (simp add: res_simps managed_where_def)
next
  case (Cons job files)
  obtain relative payload where job: "job = (relative, payload)" by (cases job)
  obtain r1 u where 1: "classify_file rd (relative, payload) (new, replaced, unchanged) d = (Inr r1, u)"
    and 2: "efold (classify_file rd) files r1 u = (Inr r, t)"
    using Cons.prems by (auto simp: res_simps job)
  note c = classify_file_Inr [OF 1]
  obtain n1 p1 u1 where r1: "r1 = (n1, p1, u1)" by (cases r1)
  have "managed_where P u rd files = managed_where P d rd files" for P
    using file_below_same [of d u] c by (simp add: managed_where_def)
  then show ?case
    using Cons.IH [OF 2 [unfolded r1]] c r1 by (auto simp: managed_where_def job split: option.splits if_splits)
qed

section \<open>Verified files\<close>

lemma staged_run_Inr [res_simps]:
  "get_book p = (Inr b, q) \<longleftrightarrow> b = snd p \<and> q = p"
  "update_book f p = (Inr u, q) \<longleftrightarrow> q = (fst p, f (snd p))"
  "with_staged k g p = (Inr x, q) \<longleftrightarrow> g (sb_prepared (snd p) ! k) p = (Inr x, q)"
  by (auto simp: get_book_def update_book_def with_staged_def ebind_def split: prod.splits)

text \<open>What the write loop leaves of each file: it is installed, or its original had the bytes already.\<close>

definition settled :: "staged_file \<Rightarrow> bool" where
  "settled item = (sf_installed item \<noteq> None \<or> map_option fst (sf_original item) = Some (sf_payload item))"

lemma verify_staged_Inr:
  assumes v: "verify_staged reported rd k (d, b) = (Inr (), (t, b'))" and settled: "settled (sb_prepared b ! k)"
  shows "b' = b \<and> same_files d t \<and> file_below d rd (sf_relative (sb_prepared b ! k)) = Some (sf_payload (sb_prepared b ! k))"
proof -
  let ?item = "sb_prepared b ! k"
  from v obtain parent u1 u2 node snapshot where
    1: "stage_parent_at rd (sf_relative ?item) False (d, b) = (Inr (Some parent), (u1, b))"
    and 2: "sys_fstat parent u1 = (Inr node, u2)"
    and 3: "stage_snapshot parent (sf_name ?item) u2 = (Inr snapshot, t)"
    and own: "case sf_installed ?item of
        Some i \<Rightarrow> map_option snd snapshot = Some i \<and> map_option fst snapshot = Some (sf_payload ?item)
      | None \<Rightarrow> original_state_matches ?item snapshot" and b: "b' = b"
  proof -
    from v obtain found p1 where s: "stage_parent_at rd (sf_relative ?item) False (d, b) = (Inr found, p1)"
      by (auto simp: verify_staged_def res_simps)
    then obtain u1 where p1: "p1 = (u1, b)" using stage_parent_Inr by (cases p1) blast
    show thesis
      using v that s p1 by (auto simp: verify_staged_def res_simps ebind_def [of "stage_parent_at rd (sf_relative ?item) False"] split: option.splits)
  qed
  have s: "same_files d u1" "same_files u1 u2" "same_files u2 t" "dir_below d rd (butlast (sf_relative ?item)) = Some parent"
    using stage_parent_Inr [OF 1] fstat_Inr [OF 2] same_after [OF reads_stage_snapshot 3] by auto
  then have d2: "same_files d u2" "same_files d t" using same_files_trans by blast+
  have "file_below u2 rd (sf_relative ?item) = map_option fst snapshot"
    by (rule snapshot_below [OF _ 3 [unfolded sf_name_def]]) (use s(4) same_below [OF d2(1)] in simp)
  moreover have "map_option fst snapshot = Some (sf_payload ?item)"
    using own settled by (auto simp: settled_def original_state_matches_def split: option.splits)
  ultimately show ?thesis using b d2 file_below_same [OF d2(1)] by simp
qed

lemma verify_all_Inr:
  "for_items (verify_staged reported rd) ks (d, b) = (Inr (), (t, b')) \<Longrightarrow> \<forall>k \<in> set ks. settled (sb_prepared b ! k) \<Longrightarrow>
   b' = b \<and> same_files d t \<and>
   (\<forall>k \<in> set ks. file_below t rd (sf_relative (sb_prepared b ! k)) = Some (sf_payload (sb_prepared b ! k)))"
proof (induction ks arbitrary: d)
  case Nil
  then show ?case by (auto simp: for_items_def res_simps)
next
  case (Cons k ks)
  then obtain p where 1: "verify_staged reported rd k (d, b) = (Inr (), p)"
    and 2: "for_items (verify_staged reported rd) ks p = (Inr (), (t, b'))"
    by (auto simp: for_items_def res_simps)
  obtain u where p: "p = (u, b)" using verify_staged_Inr [of reported rd k d b "fst p" "snd p"] 1 Cons.prems(2) by (cases p) simp
  note v = verify_staged_Inr [OF 1 [unfolded p]]
  have r: "b' = b" "same_files u t"
    "\<forall>k \<in> set ks. file_below t rd (sf_relative (sb_prepared b ! k)) = Some (sf_payload (sb_prepared b ! k))"
    using Cons.IH [OF 2 [unfolded p]] Cons.prems(2) by auto
  have dt: "same_files d t" using v r Cons.prems(2) same_files_trans by auto
  then show ?case using v r file_below_same [OF dt] Cons.prems(2) by simp
qed

text \<open>The write loop assigns members of the prepared files and settles the one it works on.\<close>

definition book_like :: "(staged_file \<Rightarrow> bool) \<Rightarrow> nat \<Rightarrow> nat set \<Rightarrow> staging_book \<Rightarrow> bool" where
  "book_like P n K b = (length (sb_prepared b) = n \<and> (\<forall>k \<in> K. P (sb_prepared b ! k)))"

lemma like_disk: "keeps (\<lambda>q. book_like P n K (snd q)) (on_disk m)"
  by (rule keepsI) (auto simp: on_disk_def wp_def split: prod.splits sum.splits)

lemma like_changed: "keeps (\<lambda>q. book_like P n K (snd q)) (update_book (\<lambda>b. b\<lparr>sb_changed := f b\<rparr>))"
  by (rule keepsI) (simp add: wp_simps book_like_def)

lemma like_set:
  assumes "K \<subseteq> {..<n}" and "\<And>item. P item \<Longrightarrow> P (g item)"
  shows "keeps (\<lambda>q. book_like P n K (snd q)) (set_staged k g)"
proof (rule keepsI)
  fix q :: "disk \<times> staging_book"
  assume q: "book_like P n K (snd q)"
  let ?items = "sb_prepared (snd q)"
  have "P (?items[k := g (?items ! k)] ! j)" if "j \<in> K" for j
  proof (cases "k = j")
    case True
    then show ?thesis using q assms that by (auto simp: book_like_def)
  next
    case False
    then show ?thesis using q that by (simp add: book_like_def)
  qed
  then show "wp (set_staged k g) (\<lambda>_ q. book_like P n K (snd q)) (\<lambda>_ q. book_like P n K (snd q)) q"
    using q by (simp add: wp_simps book_like_def)
qed

lemma like_with: "(\<And>item. keeps (\<lambda>q. book_like P n K (snd q)) (g item)) \<Longrightarrow> keeps (\<lambda>q. book_like P n K (snd q)) (with_staged k g)"
  by (rule keepsI) (simp add: wp_simps keepsD)

text \<open>A property of prepared files that an installation gives.\<close>

definition by_installing :: "(staged_file \<Rightarrow> bool) \<Rightarrow> bool" where
  "by_installing P = (\<forall>item i q. P (item\<lparr>sf_installed := Some i\<rparr>) \<and> P (item\<lparr>sf_installed := Some i, sf_quarantine := q\<rparr>))"

lemma installing_properties: "by_installing settled" "by_installing (\<lambda>item. sf_installed item \<noteq> None)"
  by (simp_all add: by_installing_def settled_def)

lemma like_write: "by_installing P \<Longrightarrow> K \<subseteq> {..<n} \<Longrightarrow> keeps (\<lambda>q. book_like P n K (snd q)) (write_staged k)"
  unfolding write_staged_def atomic_write_at_def
  by (intro like_with keep_intros like_disk like_changed like_set) (simp_all add: by_installing_def)

text \<open>One round changes nothing, or the file is installed.\<close>

lemma write_staged_Inr:
  assumes w: "write_staged k q = (Inr (), q')"
  shows "q' = q \<and> settled (sb_prepared (snd q) ! k) \<or>
    (k < length (sb_prepared (snd q)) \<longrightarrow> sf_installed (sb_prepared (snd q') ! k) \<noteq> None)"
proof (cases "map_option fst (sf_original (sb_prepared (snd q) ! k)) = Some (sf_payload (sb_prepared (snd q) ! k))")
  case True
  then show ?thesis using w by (auto simp: write_staged_def res_simps settled_def)
next
  case False
  then show ?thesis using w by (auto simp: write_staged_def atomic_write_at_def set_staged_def res_simps)
qed

lemma write_settles:
  assumes w: "write_staged k q = (Inr (), q')" and q: "book_like settled n K (snd q)" "K \<subseteq> {..<n}" "k < n"
  shows "book_like settled n (insert k K) (snd q')"
proof -
  have like: "book_like settled n K (snd q')"
    using keeps_state [OF like_write [OF installing_properties(1) q(2)] _ w] q(1) by simp
  moreover have "settled (sb_prepared (snd q') ! k)"
    using write_staged_Inr [OF w] q(1,3) by (auto simp: book_like_def settled_def)
  ultimately show ?thesis by (simp add: book_like_def)
qed

lemma write_all_settles:
  "for_items write_staged ks q = (Inr (), q') \<Longrightarrow> book_like settled n K (snd q) \<Longrightarrow> K \<subseteq> {..<n} \<Longrightarrow> set ks \<subseteq> {..<n} \<Longrightarrow>
   book_like settled n (K \<union> set ks) (snd q')"
proof (induction ks arbitrary: q K)
  case Nil
  then show ?case by (simp add: for_items_def res_simps)
next
  case (Cons k ks)
  then obtain q1 where 1: "write_staged k q = (Inr (), q1)" and 2: "for_items write_staged ks q1 = (Inr (), q')"
    by (auto simp: for_items_def res_simps)
  have "book_like settled n (insert k K) (snd q1)" using write_settles [OF 1] Cons.prems by simp
  then show ?case using Cons.IH [OF 2, of "insert k K"] Cons.prems by simp
qed

lemma staging_verified:
  assumes "staging_transaction reported plan path rd q = (Inr (), (t, book))"
  shows "\<forall>it \<in> set (sb_prepared book). file_below t rd (sf_relative it) = Some (sf_payload it)"
proof -
  from assms obtain q0 q1 q2 n where n: "n = length (sb_prepared (snd q0))"
    and 1: "for_items write_staged [0..<n] q0 = (Inr (), q1)"
    and 2: "on_disk (verify_stage_root path rd (sp_identity plan)) q1 = (Inr (), q2)"
    and 3: "for_items (verify_staged reported rd) [0..<n] q2 = (Inr (), (t, book))"
    by (auto simp: staging_transaction_def res_simps)
  have "book_like settled n {} (snd q0)" by (simp add: book_like_def n)
  from write_all_settles [OF 1 this] have l: "book_like settled n {0..<n} (snd q1)" by (simp add: atLeast0LessThan)
  obtain u where q2: "q2 = (u, snd q1)" using 2 by (cases q1; cases q2) (auto simp: res_simps)
  have "\<forall>k \<in> set [0..<n]. settled (sb_prepared (snd q1) ! k)" using l by (simp add: book_like_def)
  from verify_all_Inr [OF 3 [unfolded q2] this] show ?thesis
    using l by (auto simp: book_like_def in_set_conv_nth)
qed

lemma staging_rollback_raises: "rollback_staging e q = (Inr x, t) \<Longrightarrow> False"
  by (auto simp: rollback_staging_def res_simps split: if_splits)

text \<open>The write loop writes nothing, or leaves a file that is installed.\<close>

lemma write_all_installs:
  "for_items write_staged ks q = (Inr (), q') \<Longrightarrow> length (sb_prepared (snd q)) = n \<Longrightarrow> set ks \<subseteq> {..<n} \<Longrightarrow>
   length (sb_prepared (snd q')) = n \<and> (q' = q \<or> (\<exists>k < n. sf_installed (sb_prepared (snd q') ! k) \<noteq> None))"
proof (induction ks arbitrary: q)
  case Nil
  then show ?case by (simp add: for_items_def res_simps)
next
  case (Cons k ks)
  let ?P = "\<lambda>item. sf_installed item \<noteq> None"
  obtain q1 where 1: "write_staged k q = (Inr (), q1)" and 2: "for_items write_staged ks q1 = (Inr (), q')"
    using Cons.prems(1) by (auto simp: for_items_def res_simps)
  have n: "length (sb_prepared (snd q1)) = n"
    using keeps_state [OF like_write [OF installing_properties(2), of "{}" n] _ 1] Cons.prems(2) by (simp add: book_like_def)
  show ?case
  proof (cases "?P (sb_prepared (snd q1) ! k)")
    case True
    have "keeps (\<lambda>q. book_like ?P n {k} (snd q)) (for_items write_staged ks)"
      by (intro keeps_for_items like_write [OF installing_properties(2)]) (use Cons.prems(3) in simp)
    from keeps_state [OF this _ 2] have "book_like ?P n {k} (snd q')" using True n by (simp add: book_like_def)
    then show ?thesis using Cons.prems(3) by (auto simp: book_like_def)
  next
    case False
    then have "q1 = q" using write_staged_Inr [OF 1] Cons.prems(2,3) by auto
    then show ?thesis using Cons.IH [OF 2 n] Cons.prems(3) by simp
  qed
qed

text \<open>Where the file system reports another mode than the one set, no installed file is verified.\<close>

lemma verify_staged_mode:
  assumes "verify_staged reported rd k (d, b) = (Inr (), q)" and "reported STAGED_MODE \<noteq> STAGED_MODE"
  shows "sf_installed (sb_prepared b ! k) = None"
proof -
  obtain found p1 where s: "stage_parent_at rd (sf_relative (sb_prepared b ! k)) False (d, b) = (Inr found, p1)"
    using assms(1) by (auto simp: verify_staged_def res_simps)
  then show ?thesis
    using assms by (auto simp: verify_staged_def res_simps ebind_def [of "stage_parent_at rd (sf_relative (sb_prepared b ! k)) False"]
      split: option.splits)
qed

lemma verify_all_mode:
  "for_items (verify_staged reported rd) ks (d, b) = (Inr (), q) \<Longrightarrow> \<forall>k \<in> set ks. settled (sb_prepared b ! k) \<Longrightarrow>
   reported STAGED_MODE \<noteq> STAGED_MODE \<Longrightarrow> \<forall>k \<in> set ks. sf_installed (sb_prepared b ! k) = None"
proof (induction ks arbitrary: d)
  case Nil
  then show ?case by simp
next
  case (Cons k ks)
  then obtain p where 1: "verify_staged reported rd k (d, b) = (Inr (), p)"
    and 2: "for_items (verify_staged reported rd) ks p = (Inr (), q)"
    by (auto simp: for_items_def res_simps)
  obtain u where p: "p = (u, b)" using verify_staged_Inr [of reported rd k d b "fst p" "snd p"] 1 Cons.prems(2) by (cases p) simp
  show ?case using Cons.IH [OF 2 [unfolded p]] verify_staged_mode [OF 1] Cons.prems by simp
qed

text \<open>Every file of the second disk is one of the first.\<close>

definition files_from :: "disk \<Rightarrow> disk \<Rightarrow> bool" where
  "files_from d t = (\<forall>i bs. dk_nodes t i = Some (FileNode bs) \<longrightarrow> dk_nodes d i = Some (FileNode bs))"

lemma files_from_same: "files_from d t \<Longrightarrow> same_files t u \<Longrightarrow> files_from d u"
  by (simp add: files_from_def same_files_def)

lemma files_from_reads: "(\<And>s. keeps (same_files s) m) \<Longrightarrow> keeps (files_from d) m"
  by (rule keepsI) (auto simp: wp_def intro: files_from_same same_after split: prod.splits sum.splits)

lemma files_from_mkdir: "keeps (files_from d) (sys_mkdir dir name)"
  unfolding sys_mkdir_def
  by (rule keepsI, rule wp_syscall)
    (auto simp: wp_simps wp_def new_node_def ebind_def ereturn_def Let_def add_entry_def put_node_def files_from_def call_made_def
      split: prod.splits sum.splits if_splits)

text \<open>No file is new and none is listed as changed: the state before the write loop.\<close>

definition unwritten :: "disk \<Rightarrow> disk \<times> staging_book \<Rightarrow> bool" where
  "unwritten d q = (files_from d (fst q) \<and> sb_changed (snd q) = [])"

lemma unwritten_disk: "keeps (files_from d) m \<Longrightarrow> keeps (unwritten d) (on_disk m)"
  unfolding unwritten_def by (rule keeps_on_disk)

lemmas unwritten_read = unwritten_disk [OF files_from_reads, OF reads_stage_name] unwritten_disk [OF files_from_reads, OF reads_stage_child]
  unwritten_disk [OF files_from_reads, OF reads_stage_snapshot] unwritten_disk [OF files_from_reads, OF reads_calls(1)]

lemma unwritten_book:
  "keeps (unwritten d) get_book" "keeps (unwritten d) (update_book (\<lambda>b. b\<lparr>sb_created := f b\<rparr>))"
  "keeps (unwritten d) (update_book (\<lambda>b. b\<lparr>sb_prepared := g b\<rparr>))" "keeps (unwritten d) (set_staged k h)"
  by (rule keepsI, simp add: wp_simps unwritten_def)+

lemma unwritten_parent: "keeps (unwritten d) (stage_parent_at rd relative create)"
proof -
  have "keeps (files_from d) (stage_mkdir current part)" for current part
    unfolding stage_mkdir_def by (intro keep_intros files_from_mkdir files_from_reads [OF reads_stage_sync] files_from_reads [OF reads_stage_name])
  note mk = unwritten_disk [OF this]
  have "keeps (unwritten d) (stage_below current walked parts create)" for current walked parts
  proof (induction current walked parts create rule: stage_below.induct)
    case (1 current walked create)
    then show ?case by (simp add: keep_intros)
  next
    case (2 current walked part parts create)
    show ?case unfolding stage_below.simps by (intro keep_intros unwritten_read mk unwritten_book 2) auto
  qed
  then show ?thesis by (simp add: stage_parent_at_def)
qed

lemma unwritten_prepare:
  "keeps (unwritten d) (prepare_directory rd relative)" "keeps (unwritten d) (prepare_staged rd job)"
  unfolding prepare_directory_def prepare_staged_def
  by (auto intro!: keep_intros unwritten_parent unwritten_read unwritten_book split: prod.splits)

text \<open>A transaction that succeeds without the mode has written nothing.\<close>

lemma transaction_mode:
  assumes "staging_transaction reported plan path rd (d, book) = (Inr (), q)" and mode: "reported STAGED_MODE \<noteq> STAGED_MODE"
    and "sb_changed book = []"
  shows "unwritten d q"
proof -
  from assms(1) obtain p q0 q1 q2 n where n: "n = length (sb_prepared (snd q0))"
    and d: "efold (\<lambda>relative _. prepare_directory rd relative) (sp_directories plan) () (d, book) = (Inr (), p)"
    and f: "efold (\<lambda>managed _. prepare_staged rd managed) (sp_files plan) () p = (Inr (), q0)"
    and 1: "for_items write_staged [0..<n] q0 = (Inr (), q1)"
    and 2: "on_disk (verify_stage_root path rd (sp_identity plan)) q1 = (Inr (), q2)"
    and 3: "for_items (verify_staged reported rd) [0..<n] q2 = (Inr (), q)"
    by (auto simp: staging_transaction_def res_simps)
  have "unwritten d (d, book)" using assms(3) by (simp add: unwritten_def files_from_def)
  from keeps_state [OF keeps_efold [OF unwritten_prepare(1)] this d] have "unwritten d p" .
  from keeps_state [OF keeps_efold [OF unwritten_prepare(2)] this f] have q0: "unwritten d q0" .
  have "book_like settled n {} (snd q0)" by (simp add: book_like_def n)
  from write_all_settles [OF 1 this] have l: "book_like settled n {0..<n} (snd q1)" by (simp add: atLeast0LessThan)
  obtain u1 u2 where q1: "q1 = (u1, snd q1)" and q2: "q2 = (u2, snd q1)" and s: "same_files u1 u2"
    using 2 by (cases q1; cases q2) (auto simp: res_simps dest: same_after [OF reads_stage_root(3)])
  have settled: "\<forall>k \<in> set [0..<n]. settled (sb_prepared (snd q1) ! k)" using l by (simp add: book_like_def)
  have "q1 = q0"
    using write_all_installs [OF 1 n [symmetric]] verify_all_mode [OF 3 [unfolded q2] settled mode] by (fastforce simp: atLeast0LessThan)
  then have "unwritten d q2" using q0 q1 q2 s files_from_same by (metis fst_conv snd_conv unwritten_def)
  moreover have "snd q = snd q1 \<and> same_files u2 (fst q)"
    using verify_all_Inr [of reported rd "[0..<n]" u2 "snd q1" "fst q" "snd q"] 3 q2 settled by simp
  ultimately show ?thesis using q2 files_from_same by (metis fst_conv snd_conv unwritten_def)
qed

end
