(* ===== verification/Staging_Results.thy ===== *)
theory Staging_Results
  imports Staging_Verified
begin

text \<open>
  What staging guarantees on any card, against any system call failure: originals survive a failure,
  only the names of managed files are touched, and what a successful run leaves at the managed paths.
\<close>

section \<open>Removing the replaced originals\<close>

text \<open>Names that are not of the form of the tool's own.\<close>

definition ordinary_name :: "string \<Rightarrow> bool" where
  "ordinary_name name = (\<not> starts_with ''.swan-song-'' (casefold name))"

definition ordinary_path :: "string list \<Rightarrow> bool" where
  "ordinary_path path = (path \<noteq> [] \<and> list_all ordinary_name path)"

lemma private_prefix: "starts_with ''.swan-song-'' (casefold (stage_private purpose token))" "starts_with ''.swan-song-'' (stage_private purpose token)"
  by (simp_all add: starts_with_def stage_private_def casefold_def fold_char_def char_code_def)

lemma ordinary_key:
  assumes "ordinary_name name"
  shows "fold_key f name \<noteq> fold_key f (stage_private purpose token)"
  using assms private_prefix [of purpose token] by (cases f) (auto simp: ordinary_name_def fold_key_def)

lemma path_kept:
  assumes f: "file_below d r path = Some b" and path: "path \<noteq> []"
    and entries: "\<And>e m j. m \<in> set path \<Longrightarrow> entry_of d e m = Some j \<Longrightarrow> entry_of t e m = Some j"
    and dirs: "\<And>i. is_dir d i \<Longrightarrow> is_dir t i"
    and nodes: "\<And>i bs. dk_nodes d i = Some (FileNode bs) \<Longrightarrow> dk_nodes t i = Some (FileNode bs)"
  shows "file_below t r path = Some b"
proof -
  from f obtain e j where e: "dir_below d r (butlast path) = Some e" "entry_of d e (last path) = Some j" "dk_nodes d j = Some (FileNode b)"
    by (auto simp: file_below_def split: option.splits node.splits)
  have "set ps \<subseteq> set path \<Longrightarrow> dir_below d i ps = Some e \<Longrightarrow> dir_below t i ps = Some e" for i ps
  proof (induction ps arbitrary: i)
    case (Cons p ps)
    then obtain k where "entry_of d i p = Some k" "is_dir d k" "dir_below d k ps = Some e"
      by (auto split: option.splits if_splits)
    then show ?case using Cons entries dirs by simp
  qed simp
  then have "dir_below t r (butlast path) = Some e" using e(1) by (meson in_set_butlastD subsetI)
  then show ?thesis using file_belowI e(2,3) entries nodes path by (metis last_in_set)
qed

definition files_stay :: "ino \<Rightarrow> (string list \<times> byte list \<times> 'x) set \<Rightarrow> bool \<Rightarrow> disk \<Rightarrow> bool" where
  "files_stay rd X f d = (holds_files rd X d \<and> dk_fold d = f)"

lemma files_stay_same: "files_stay rd X f d \<Longrightarrow> same_files d t \<Longrightarrow> files_stay rd X f t"
  using holds_same [of rd X d t] by (auto simp: files_stay_def same_files_def)

lemma files_stay_reads: "(\<And>s. keeps (same_files s) m) \<Longrightarrow> keeps (files_stay rd X f) m"
  by (rule keepsI, rule wpI) (blast intro: files_stay_same same_after)+

lemma files_stay_rename:
  assumes X: "\<forall>x \<in> X. ordinary_path (fst x)"
  shows "keeps (files_stay rd X f) (stage_rename dir (stage_private purpose token) dst)"
proof (rule keepsI)
  fix d assume h: "files_stay rd X f d"
  let ?src = "stage_private purpose token"
  have move: "wp (move_entry dir ?src dst) (\<lambda>_. files_stay rd X f) (\<lambda>_. files_stay rd X f) c" if c: "files_stay rd X f c" for c
  proof (cases "is_dir c dir \<and> entry_of c dir ?src \<noteq> None \<and> entry_of c dir dst = None")
    case False
    then show ?thesis using c by (auto simp: wp_def move_entry_def split: option.splits)
  next
    case True
    then obtain j where j: "entry_of c dir ?src = Some j" by blast
    let ?t = "add_entry dir dst j (drop_entry dir ?src c)"
    have dir: "is_dir (drop_entry dir ?src c) dir" using True by simp
    have "file_below ?t rd (fst x) = Some (fst (snd x))" if "x \<in> X" for x
    proof (rule path_kept [where d = c])
      show "file_below c rd (fst x) = Some (fst (snd x))" using c that by (simp add: files_stay_def holds_files_def)
      show "fst x \<noteq> []" using X that by (auto simp: ordinary_path_def)
      show "entry_of ?t e m = Some k" if "m \<in> set (fst x)" "entry_of c e m = Some k" for e m k
      proof -
        have "ordinary_name m" using X \<open>x \<in> X\<close> that(1) by (auto simp: ordinary_path_def list_all_iff)
        then have "name_key c m \<noteq> name_key c ?src" using ordinary_key by (simp add: name_key_fold)
        then show ?thesis using that(2) True by (auto simp: entry_of_add entry_of_drop)
      qed
      show "is_dir ?t i" if "is_dir c i" for i using that dir True by simp
      show "dk_nodes ?t i = Some (FileNode bs)" if "dk_nodes c i = Some (FileNode bs)" for i bs
        using that dir True by (intro nodes_changed) (auto simp: is_dir_node_def)
    qed
    then have "files_stay rd X f ?t" using c by (simp add: files_stay_def holds_files_def)
    then show ?thesis using True j by (simp add: wp_def move_entry_def)
  qed
  have "files_stay rd X f (call_made d)" using files_stay_same [OF h same_call] .
  then have "wp (sys_rename_noreplace dir ?src dst) (\<lambda>_. files_stay rd X f) (\<lambda>_. files_stay rd X f) d"
    unfolding sys_rename_noreplace_def using move by (intro wp_syscall) auto
  then show "wp (stage_rename dir ?src dst) (\<lambda>_. files_stay rd X f) (\<lambda>_. files_stay rd X f) d"
    unfolding stage_rename_def wp_catch
    by (rule wp_mono) (auto simp: wp_simps split: py_error.splits)
qed

lemma files_stay_unlink:
  assumes X: "\<forall>x \<in> X. ordinary_path (fst x)"
  shows "keeps (files_stay rd X f) (sys_unlink dir (stage_private purpose token))"
proof (rule keepsI)
  fix d assume h: "files_stay rd X f d"
  have fold: "dk_fold t = f" if "sys_unlink dir (stage_private purpose token) d = (r, t)" for t and r :: "unit res"
    using that h by (auto simp: sys_unlink_def syscall_def remove_entry_def files_stay_def drop_entry_def put_node_def Let_def
      split: option.splits sum.splits prod.splits if_splits)
  have below: "file_below t rd (fst x) = Some (fst (snd x))"
    if "x \<in> X" "sys_unlink dir (stage_private purpose token) d = (r, t)" for x t and r :: "unit res"
  proof -
    have "ordinary_name (last (fst x))" using X that(1) by (auto simp: ordinary_path_def list_all_iff)
    then have "name_key d (stage_private purpose token) \<noteq> name_key d (last (fst x))"
      using ordinary_key by (metis name_key_fold)
    from wp_result [OF unlink_elsewhere [OF _ this] that(2)] show ?thesis
      using h that(1) by (simp add: files_stay_def holds_files_def)
  qed
  show "wp (sys_unlink dir (stage_private purpose token)) (\<lambda>_. files_stay rd X f) (\<lambda>_. files_stay rd X f) d"
    by (rule wpI) (auto simp: files_stay_def holds_files_def fold below)
qed

lemma files_stay_unique:
  assumes X: "\<forall>x \<in> X. ordinary_path (fst x)"
  shows "keeps (files_stay rd X f) (rename_to_unique n dir (stage_private purpose token) p)"
  by (induction n) (auto simp: Let_def intro!: keep_intros files_stay_rename [OF X] files_stay_reads [OF reads_token])

lemma unique_private: "rename_to_unique n dir name p d = (Inr q, t) \<Longrightarrow> q \<in> range (stage_private p)"
proof (induction n arbitrary: d)
  case 0
  then show ?case by (simp add: res_simps)
next
  case (Suc n)
  then show ?case by (auto simp: res_simps Let_def split: if_splits)
qed

lemma files_stay_discard:
  assumes X: "\<forall>x \<in> X. ordinary_path (fst x)"
  shows "keeps (files_stay rd X f) (discard_quarantined dir (stage_private purpose token) expected)"
proof (rule keepsI)
  fix d assume h: "files_stay rd X f d"
  have undone: "keeps (files_stay rd X f) (put_back message dir (stage_private p tok) dst)" for message p tok dst
    unfolding put_back_def restore_quarantine_def
    by (intro keep_intros files_stay_rename [OF X] files_stay_reads [OF reads_stage_sync])
  have checked: "keeps (files_stay rd X f) (eon_error
       (ebind (stage_sync dir) (\<lambda>_.
        ebind (stage_snapshot dir discard) (\<lambda>snapshot.
        ebind (eguard (map_option snd snapshot = Some expected) (StagingError ''quarantined file identity changed before cleanup'')) (\<lambda>_.
        ebind (sys_unlink dir discard) (\<lambda>_.
        ebind (stage_sync dir) (\<lambda>_. ereturn ()))))))
       (put_back ''cleanup failed and the quarantine could not be restored'' dir discard quarantine))"
    if "discard = stage_private p tok" for discard p tok quarantine
    unfolding that
    by (intro keep_intros files_stay_unlink [OF X] files_stay_reads [OF reads_stage_sync] files_stay_reads [OF reads_stage_snapshot] undone)
  have "wp (rename_to_unique 32 dir (stage_private purpose token) ''discard'')
      (\<lambda>q t. files_stay rd X f t \<and> q \<in> range (stage_private ''discard'')) (\<lambda>_. files_stay rd X f) d"
    using keepsD [OF files_stay_unique [OF X] h, of 32 dir purpose token "''discard''"] unique_private [of 32 dir _ "''discard''" d]
    by (auto simp: wp_def split: prod.splits sum.splits)
  then show "wp (discard_quarantined dir (stage_private purpose token) expected) (\<lambda>_. files_stay rd X f) (\<lambda>_. files_stay rd X f) d"
    unfolding discard_quarantined_def wp_bind [of "rename_to_unique 32 dir q p" for q p]
    by (rule wp_mono) (elim conjE rangeE, rule keepsD [OF checked], assumption+)
qed

lemma cleanup_stays:
  assumes k: "k < length ps" and X: "\<forall>x \<in> set ps. ordinary_path (fst x)"
  shows "keeps (\<lambda>q. card_files.staging_inv d0 False M ps q \<and> files_stay rd (set ps) f (fst q)) (cleanup_staged k)"
proof (rule keepsI)
  fix p assume p: "card_files.staging_inv d0 False M ps p \<and> files_stay rd (set ps) f (fst p)"
  let ?F = "\<lambda>q. files_stay rd (set ps) f (fst q)"
  let ?item = "sb_prepared (snd p) ! k"
  have "card_files.staged_safe d0 M ?item"
  proof -
    have "map staged_fixed (sb_prepared (snd p)) = ps" "list_all (card_files.staged_safe d0 M) (sb_prepared (snd p))"
      using p by (simp_all add: card_files.staging_inv_def card_files.book_safe_def)
    moreover have "k < length (sb_prepared (snd p))" using k calculation(1) by auto
    ultimately show ?thesis by (simp add: list_all_length)
  qed
  then have q: "sf_quarantine ?item = Some t \<Longrightarrow> t \<in> range (stage_private ''original'')" for t
    by (simp add: card_files.staged_safe_def card_files.aside_owned_def)
  have disc: "keeps ?F (on_disk (discard_quarantined dir t i))" if r: "t \<in> range (stage_private ''original'')" for dir t i
  proof -
    obtain token where t: "t = stage_private ''original'' token" using r by blast
    show ?thesis unfolding t using keeps_on_disk [OF files_stay_discard [OF X], where P = "\<lambda>_. True"] by simp
  qed
  have set: "keeps ?F (set_staged k (\<lambda>item. item\<lparr>sf_quarantine := None\<rparr>))"
    by (rule keepsI) (auto simp: wp_simps)
  have "keeps ?F (case (sf_quarantine ?item, sf_original ?item) of
       (Some quarantine, Some (_, identity)) \<Rightarrow>
         ebind (on_disk (discard_quarantined (sf_parent ?item) quarantine identity)) (\<lambda>_.
         set_staged k (\<lambda>item. item\<lparr>sf_quarantine := None\<rparr>))
     | _ \<Rightarrow> ereturn ())"
    using q by (auto intro!: keep_intros set disc split: option.splits)
  from keepsD [OF this, of p] have A: "wp (cleanup_staged k) (\<lambda>_. ?F) (\<lambda>_. ?F) p"
    using p unfolding cleanup_staged_def wp_book by simp
  have "card_files.staging_inv d0 False M ps p" using p by simp
  note B = keepsD [OF card_files.staging_cleanup [OF k] this]
  show "wp (cleanup_staged k) (\<lambda>_ q. card_files.staging_inv d0 False M ps q \<and> ?F q)
      (\<lambda>_ q. card_files.staging_inv d0 False M ps q \<and> ?F q) p"
    by (rule wp_mono [OF wp_conj [OF A B]]) auto
qed

section \<open>The command\<close>

definition managed_names :: "disk \<Rightarrow> (string list \<times> byte list) list \<Rightarrow> (ino \<times> string) set" where
  "managed_names d files = {(dir, key). \<exists>job \<in> set files. key = name_key d (last (fst job))}"

lemma grant_managed: "job \<in> set files \<Longrightarrow> card_files.stage_grant d0 (managed_names d0 files) (fst job)"
  by (auto simp: card_files.stage_grant_def owned_def managed_names_def)

lemma write_staging_Inr:
  assumes "write_staging reported plan path rd d = (Inr (), t)"
  obtains q book where
    "staging_transaction reported plan path rd (d, \<lparr>sb_created = [], sb_prepared = [], sb_changed = []\<rparr>) = (Inr (), q)"
    and "cleanup_staging q = (Inr (), (t, book))"
proof -
  let ?start = "(d, \<lparr>sb_created = [], sb_prepared = [], sb_changed = []\<rparr>)"
  from assms obtain book where "ebind (ecatch (staging_transaction reported plan path rd) rollback_staging) (\<lambda>_. cleanup_staging) ?start
      = (Inr (), (t, book))"
    by (auto simp: write_staging_def run_staging_def split: prod.splits)
  then obtain q where q: "ecatch (staging_transaction reported plan path rd) rollback_staging ?start = (Inr (), q)"
    and c: "cleanup_staging q = (Inr (), (t, book))"
    by (auto simp: res_simps)
  obtain r u where pair: "staging_transaction reported plan path rd ?start = (r, u)"
    by (cases "staging_transaction reported plan path rd ?start")
  have "staging_transaction reported plan path rd ?start = (Inr (), q)"
  proof (cases r)
    case (Inl e)
    then have "rollback_staging e u = (Inr (), q)" using q pair by (simp add: ecatch_def)
    then show ?thesis using staging_rollback_raises by blast
  qed (use q pair in \<open>simp add: ecatch_def\<close>)
  then show thesis using c that by blast
qed

lemma write_staging_delivers:
  assumes w: "write_staging reported plan path rd d = (Inr (), t)" and d: "wf_card d"
    and ordinary: "\<forall>job \<in> set (sp_files plan). ordinary_path (fst job)"
  shows "\<forall>job \<in> set (sp_files plan). file_below t rd (fst job) = Some (snd job)"
proof -
  let ?M = "managed_names d (sp_files plan)"
  let ?start = "(d, \<lparr>sb_created = [], sb_prepared = [], sb_changed = []\<rparr>)"
  from write_staging_Inr [OF w] obtain q book where T: "staging_transaction reported plan path rd ?start = (Inr (), q)"
    and c: "cleanup_staging q = (Inr (), (t, book))" .
  have k: "kept d True ?M d" using d kept_refl by (simp add: wf_card_def)
  have "wp (staging_transaction reported plan path rd)
      (\<lambda>_ q. \<exists>ps. card_files.staging_inv d True ?M ps q \<and> map (\<lambda>x. (fst x, fst (snd x))) ps = sp_files plan)
      (\<lambda>_ q. \<exists>ps. card_files.staging_inv d True ?M ps q) ?start"
    by (rule card_files.staging_body [OF grant_managed k])
  from wp_Inr [OF this T] obtain ps where ps: "card_files.staging_inv d True ?M ps q" "map (\<lambda>x. (fst x, fst (snd x))) ps = sp_files plan"
    by blast
  have inv: "card_files.staging_inv d False ?M ps q"
    using ps(1) kept_weaken [of d True ?M "fst q" ?M False] by (simp add: card_files.staging_inv_def)
  have book: "map staged_fixed (sb_prepared (snd q)) = ps" "\<forall>k \<in> set (sb_changed (snd q)). k < length ps"
    using ps(1) by (simp_all add: card_files.staging_inv_def card_files.book_safe_def)
  have "holds_files rd (set ps) (fst q)"
    using staging_verified [of reported plan path rd ?start "fst q" "snd q"] T
    by (auto simp: holds_files_def book(1) [symmetric] staged_fixed_def)
  then have files: "files_stay rd (set ps) (dk_fold (fst q)) (fst q)" by (simp add: files_stay_def)
  have X: "\<forall>x \<in> set ps. ordinary_path (fst x)" using ordinary unfolding ps(2) [symmetric] by auto
  have "wp (attempt_each cleanup_staged (sb_changed (snd q)))
      (\<lambda>_ q'. card_files.staging_inv d False ?M ps q' \<and> files_stay rd (set ps) (dk_fold (fst q)) (fst q')) (\<lambda>_ _. False) q"
    by (rule wp_attempt_each [OF cleanup_stays]) (use X inv files book(2) in auto)
  then have "wp cleanup_staging (\<lambda>_ q'. files_stay rd (set ps) (dk_fold (fst q)) (fst q')) (\<lambda>_ _. True) q"
    unfolding cleanup_staging_def wp_bind [of get_book] wp_book wp_bind [of "attempt_each f xs" for f xs]
    by (rule wp_mono) (auto simp: wp_simps)
  from wp_Inr [OF this c] have "holds_files rd (set ps) t" by (simp add: files_stay_def)
  then show ?thesis unfolding ps(2) [symmetric] by (auto simp: holds_files_def)
qed

lemma open_staging_Inr: "open_staging plan allow d = (Inr (path, rd), t) \<Longrightarrow> rd = sp_identity plan \<and> same_files d t"
  using same_after [OF reads_open_staging, of plan allow d "Inr (path, rd)" t]
  by (auto simp: open_staging_def res_simps dest: open_stage_root_Inr)

lemma apply_staging_keeps:
  assumes d: "wf_card d"
  shows "wp (apply_staging reported plan allow) (\<lambda>_. kept d False (managed_names d (sp_files plan)))
    (\<lambda>e. kept d (e \<noteq> STAGING_CLEANUP) (managed_names d (sp_files plan))) d"
proof -
  let ?M = "managed_names d (sp_files plan)"
  have k: "kept d True ?M d" using d kept_refl by (simp add: wf_card_def)
  show ?thesis
    unfolding apply_staging_def
    by (rule then_reads [OF reads_open_staging k])
      (auto split: prod.splits intro: card_files.write_staging_keeps [OF grant_managed] kept_weaken)
qed

section \<open>Sample cards\<close>

text \<open>A card with a staging directory that holds another version of the file of a plan.\<close>

definition stage_card :: disk where
  "stage_card = \<lparr>dk_nodes = [0 \<mapsto> DirNode [(''sd'', 1)], 1 \<mapsto> DirNode [(''a.bin'', 2)], 2 \<mapsto> FileNode [9]], dk_next = 3,
     dk_fold = False, dk_calls = 0, dk_fault = (\<lambda>n. None), dk_token = (\<lambda>n. ''0''), dk_drawn = 0\<rparr>"

definition stage_plan :: staging_plan where
  "stage_plan = \<lparr>sp_root = [''sd''], sp_identity = 1, sp_directories = [], sp_files = [([''a.bin''], [1])], sp_volume = False\<rparr>"

lemma stage_card_wf: "wf_card stage_card"
  by (auto simp: wf_card_def wf_disk_def entries_bounded_def stage_card_def entry_of_def entries_def find_entry_def name_key_def
    split: if_splits)



text \<open>The equations that run the transaction; the two allocation loops are unrolled only when they run.\<close>

lemma allocate_at:
  "rename_to_unique (numeral k) dir name purpose d =
     ebind draw_token (\<lambda>token.
     let quarantine = stage_private purpose token in
     ebind (ecatch (ebind (stage_rename dir name quarantine) (\<lambda>_. ereturn True))
         (\<lambda>e. if e = OsErrno EEXIST then ereturn False else eraise e)) (\<lambda>moved.
     if moved then ereturn quarantine else rename_to_unique (pred_numeral k) dir name purpose)) d"
  "create_temporary (numeral k) dir name d =
     ebind draw_token (\<lambda>token.
     let candidate = stage_temporary name token in
     ebind (ecatch (ebind (sys_create dir candidate) (\<lambda>i. ereturn (Some i)))
         (\<lambda>e. if e = OsErrno EEXIST then ereturn None else eraise e)) (\<lambda>created.
     case created of None \<Rightarrow> create_temporary (pred_numeral k) dir name | Some i \<Rightarrow> ereturn (candidate, i))) d"
  by (simp_all only: numeral_eq_Suc rename_to_unique.simps create_temporary.simps)

lemmas eval_staging = eval_disk eon_error_def get_book_def update_book_def with_staged_def set_staged_def run_staging_def
  stage_sync_def stage_name_at_def stage_snapshot_def rename_unavailable_def stage_rename_def stage_private_def restore_quarantine_def
  put_back_def stage_child_def stage_parent_at_def stage_temporary_def fill_staged_def move_aside_def publish_at_def
  discard_temporary_def atomic_write_at_def discard_quarantined_def original_state_matches_def restore_original_def
  undo_installed_def rollback_staged_def verify_staged_def verify_stage_root_def cleanup_staged_def prepare_staged_def
  write_staged_def staging_transaction_def rollback_staging_def cleanup_staging_def write_staging_def sf_name_def
  stage_root_def open_stage_root_def open_staging_def apply_staging_def classify_file_def classify_files_def
  sys_open_dir_path_def sys_realpath_def allocate_at STAGED_MODE_def


lemma stage_card_run: "fst (apply_staging id stage_plan False stage_card) = Inr ()"
  by (simp add: stage_card_def stage_plan_def eval_staging del: rename_to_unique.simps create_temporary.simps)




lemma stage_card_classes: "fst (classify_files [''sd''] [([''a.bin''], [1]), ([''b.bin''], [1])] 1 stage_card) =
    Inr ([[''b.bin'']], [[''a.bin'']], [])"
  by (simp add: stage_card_def stage_plan_def eval_staging del: rename_to_unique.simps create_temporary.simps)

section \<open>Properties\<close>



text \<open>
  C11: Whatever happens, staging touches the managed files alone: an entry whose name is not the name of a
  file of the package leads to the same inode as before, and no existing file's contents change.
\<close>

theorem staging_changes_managed_names_only:
  assumes "wf_card d"
  shows "only_names_changed (\<lambda>name. \<exists>job \<in> set (sp_files plan). name_key d name = name_key d (last (fst job))) d
    (snd (apply_staging reported plan allow d))" (is "only_names_changed ?N _ _")
proof -
  have K: "only_names_changed ?N d t" if "kept d b (managed_names d (sp_files plan)) t" for b t
  proof -
    have "(dir, name_key d name) \<notin> managed_names d (sp_files plan)" if "\<not> ?N name" for dir name
      using that by (auto simp: managed_names_def)
    with that show ?thesis by (simp add: kept_def only_names_changed_def contents_kept_def)
  qed
  have "wp (apply_staging reported plan allow) (\<lambda>_. only_names_changed ?N d) (\<lambda>_. only_names_changed ?N d) d"
    by (rule wp_mono [OF apply_staging_keeps [OF assms]]) (erule K)+
  then show ?thesis by (rule wp_after)
qed

lemma staging_changes_managed_names_only_witness:
  "only_names_changed (\<lambda>name. \<exists>job \<in> set (sp_files stage_plan). name_key stage_card name = name_key stage_card (last (fst job)))
    stage_card (snd (apply_staging id stage_plan False stage_card))"
  by (rule staging_changes_managed_names_only [OF stage_card_wf])

text \<open>
  C10: After a successful run the whole package is on the card: every managed path below the staging
  directory leads to a regular file with exactly the package's bytes, also where nothing was written, and
  the removal of the replaced originals that follows the verification does not disturb it.
\<close>

theorem staging_delivers:
  assumes "apply_staging reported plan allow d = (Inr (), t)" and "wf_card d"
    and "\<forall>job \<in> set (sp_files plan). ordinary_path (fst job)"
  shows "\<forall>job \<in> set (sp_files plan). file_below t (sp_identity plan) (fst job) = Some (snd job)"
proof -
  obtain path u where 1: "open_staging plan allow d = (Inr (path, sp_identity plan), u)"
    and 2: "write_staging reported plan path (sp_identity plan) u = (Inr (), t)"
    using assms(1) by (auto simp: apply_staging_def res_simps dest: open_staging_Inr)
  have s: "same_files d u" using open_staging_Inr [OF 1] by simp
  have "wf_card u"
    using assms(2) s same_files_observe(3) [OF s] by (simp add: wf_card_def wf_disk_def entries_bounded_def same_files_def)
  then show ?thesis by (rule write_staging_delivers [OF 2 _ assms(3)])
qed

lemma staging_delivers_witness: "file_below (snd (apply_staging id stage_plan False stage_card)) 1 [''a.bin''] = Some [1]"
proof -
  have r: "apply_staging id stage_plan False stage_card = (Inr (), snd (apply_staging id stage_plan False stage_card))"
    using stage_card_run by (simp add: prod_eq_iff)
  have "\<forall>job \<in> set (sp_files stage_plan). ordinary_path (fst job)"
    by (simp add: stage_plan_def ordinary_path_def ordinary_name_def starts_with_def casefold_def fold_char_def char_code_def)
  from staging_delivers [OF r stage_card_wf this] show ?thesis by (simp add: stage_plan_def)
qed

text \<open>
  C22: The plan that is shown before anything is written tells the truth: a file is announced as new
  exactly when nothing is at its path, as replaced when another file is there, and as unchanged when the
  file there has the package's bytes.
\<close>

theorem classification_truthful:
  assumes "classify_files path files identity d = (Inr classes, t)"
  shows "classes =
    (managed_where (\<lambda>found payload. found = None) d identity files,
     managed_where (\<lambda>found payload. found \<noteq> None \<and> found \<noteq> Some payload) d identity files,
     managed_where (\<lambda>found payload. found = Some payload) d identity files)"
proof -
  obtain i u where 1: "open_stage_root path identity d = (Inr i, u)"
    and 2: "efold (classify_file i) files ([], [], []) u = (Inr classes, t)"
    using assms by (auto simp: classify_files_def res_simps)
  note o = open_stage_root_Inr [OF 1]
  have "managed_where P u identity files = managed_where P d identity files" for P
    using file_below_same [of d u] o by (simp add: managed_where_def)
  then show ?thesis using classify_fold_Inr [OF 2] o by simp
qed

lemma classification_truthful_witness:
  "([[''b.bin'']], [[''a.bin'']], []) =
    (managed_where (\<lambda>found payload. found = None) stage_card 1 [([''a.bin''], [1]), ([''b.bin''], [1])],
     managed_where (\<lambda>found payload. found \<noteq> None \<and> found \<noteq> Some payload) stage_card 1 [([''a.bin''], [1]), ([''b.bin''], [1])],
     managed_where (\<lambda>found payload. found = Some payload) stage_card 1 [([''a.bin''], [1]), ([''b.bin''], [1])])"
proof -
  let ?run = "classify_files [''sd''] [([''a.bin''], [1]), ([''b.bin''], [1])] 1 stage_card"
  have r: "?run = (Inr ([[''b.bin'']], [[''a.bin'']], []), snd ?run)" using stage_card_classes by (simp add: prod_eq_iff)
  show ?thesis by (rule classification_truthful [OF r])
qed



end
